(* ===== verification/Cpp_Prelude.thy ===== *)
theory Cpp_Prelude
  imports Main "HOL-Library.Word" "HOL-Library.Sublist"
begin

text \<open>
  Shared vocabulary of the development.

  \<^item> machine integers at their width (\<open>u8\<close>, \<open>u16\<close>, \<open>u32\<close>, \<open>u64\<close>): signed C++ integers are
    the same words read by \<open>sint\<close>;
  \<^item> \<open>cpp_error\<close>: every way the modelled code can stop (a thrown exception, a failed
    \<open>MYHTTP_ASSERT\<close>, a null or dangling dereference, an out-of-range vector index, signed
    overflow), and the result type \<open>cpp_error + 'a\<close> with its sequencing operator \<open>bindR\<close>;
  \<^item> the ordered containers of the C++ standard library (\<open>std::map\<close>, \<open>std::set\<close>) as sorted
    lists over a user-supplied comparator, with their laws proved once in the locale
    \<open>strict_weak_order\<close>, the contract the standard puts on comparators;
  \<^item> the C string functions the sources call (\<open>c_str\<close>, \<open>strcasecmp\<close>, \<open>strncmp\<close>,
    \<open>std::to_string\<close>);
  \<^item> the byte representation of a word and its lemmas.
\<close>

unbundle bit_operations_syntax

named_theorems result_iff \<open>when a sequenced computation returns\<close>
named_theorems inv_intros \<open>operations that keep an invariant\<close>

section \<open>Machine integers\<close>

type_synonym u8 = "8 word"
type_synonym u16 = "16 word"
type_synonym u32 = "32 word"
type_synonym u64 = "64 word"

lemma unat_drop_bit_div: "unat (drop_bit n w) = unat w div 2 ^ n"
  by (subst unat_drop_bit_eq) (rule drop_bit_eq_div)

lemma unat_of_nat_small: "n < 2 ^ LENGTH('a) \<Longrightarrow> unat (of_nat n :: 'a::len word) = n"
  by (simp add: unat_of_nat)

lemma high_bits_clear:
  fixes w :: "'a::len word"
  assumes "unat w < 2 ^ k" "k \<le> n"
  shows "\<not> bit w n"
proof -
  have "(2 :: nat) ^ k \<le> 2 ^ n" using assms(2) by (rule power_increasing) simp
  then have "unat w < 2 ^ n" using assms(1) by linarith
  then have "unat (drop_bit n w) = 0" by (simp add: unat_drop_bit_div)
  then have "drop_bit n w = 0" by (simp only: unat_eq_0)
  then show ?thesis by (simp add: bit_iff_odd_drop_bit)
qed

section \<open>Results\<close>

datatype cpp_error =
    OutOfRange string
  | InvalidArgument string
  | LogicError string
  | AssertFail
  | NullDeref
  | OutOfBounds
  | IteratorEnd
  | DivByZero
  | SignedOverflow
  | BadShift
  | NegativeSize
  | Uninit
  | Diverges

type_synonym 'a result = "cpp_error + 'a"

definition bindR :: "'a result \<Rightarrow> ('a \<Rightarrow> 'b result) \<Rightarrow> 'b result" where
  "bindR m f = (case m of Inl e \<Rightarrow> Inl e | Inr x \<Rightarrow> f x)"

definition assertR :: "bool \<Rightarrow> cpp_error \<Rightarrow> unit result" where
  "assertR b e = (if b then Inr () else Inl e)"

lemma bindR_simps [simp]:
  "bindR (Inl e) f = Inl e"
  "bindR (Inr x) f = f x"
  by (simp_all add: bindR_def)

lemma bindR_Inr_iff [result_iff]:
  "bindR m f = Inr y \<longleftrightarrow> (\<exists>x. m = Inr x \<and> f x = Inr y)"
  by (cases m) auto

lemma bindR_Inl_iff [result_iff]:
  "bindR m f = Inl e \<longleftrightarrow> m = Inl e \<or> (\<exists>x. m = Inr x \<and> f x = Inl e)"
  by (cases m) auto

lemma assertR_simps [simp]:
  "assertR True e = Inr ()"
  "assertR False e = Inl e"
  by (simp_all add: assertR_def)

lemma assertR_Inr_iff [result_iff]: "assertR b e = Inr u \<longleftrightarrow> b"
  by (simp add: assertR_def)

lemma bindR_assoc: "bindR (bindR m f) g = bindR m (\<lambda>x. bindR (f x) g)"
  by (cases m) auto

lemma bindR_cong [fundef_cong]:
  "m = m' \<Longrightarrow> (\<And>x. m' = Inr x \<Longrightarrow> f x = f' x) \<Longrightarrow> bindR m f = bindR m' f'"
  by (cases m') auto

lemma bindR_split:
  "P (bindR m f) \<longleftrightarrow> (\<forall>e. m = Inl e \<longrightarrow> P (Inl e)) \<and> (\<forall>x. m = Inr x \<longrightarrow> P (f x))"
  by (cases m) auto

section \<open>Ordered containers\<close>

text \<open>
  \<open>std::map<K, V, Compare>\<close> is the list of its pairs in iteration order. \<open>find\<close> walks to the
  lower bound and compares once more, \<open>m[k] = v\<close> keeps the stored key when an equivalent one is
  present, \<open>erase(k)\<close> removes the equivalent entry. \<open>std::set\<close> is the list of its elements:
  \<open>insert\<close> leaves an equivalent element in place, \<open>upper_bound\<close> is the first element that the
  argument is less than (here: the split of the list at that point).
\<close>

primrec map_find :: "('k \<Rightarrow> 'k \<Rightarrow> bool) \<Rightarrow> 'k \<Rightarrow> ('k \<times> 'v) list \<Rightarrow> ('k \<times> 'v) option" where
  "map_find lt k [] = None"
| "map_find lt k (p # ps) =
     (if lt (fst p) k then map_find lt k ps
      else if lt k (fst p) then None else Some p)"

primrec map_put :: "('k \<Rightarrow> 'k \<Rightarrow> bool) \<Rightarrow> 'k \<Rightarrow> 'v \<Rightarrow> ('k \<times> 'v) list \<Rightarrow> ('k \<times> 'v) list" where
  "map_put lt k v [] = [(k, v)]"
| "map_put lt k v (p # ps) =
     (if lt (fst p) k then p # map_put lt k v ps
      else if lt k (fst p) then (k, v) # p # ps else (fst p, v) # ps)"

primrec map_erase :: "('k \<Rightarrow> 'k \<Rightarrow> bool) \<Rightarrow> 'k \<Rightarrow> ('k \<times> 'v) list \<Rightarrow> ('k \<times> 'v) list" where
  "map_erase lt k [] = []"
| "map_erase lt k (p # ps) =
     (if lt (fst p) k then p # map_erase lt k ps
      else if lt k (fst p) then p # ps else ps)"

definition map_get :: "('k \<Rightarrow> 'k \<Rightarrow> bool) \<Rightarrow> 'k \<Rightarrow> ('k \<times> 'v) list \<Rightarrow> 'v option" where
  "map_get lt k m = map_option snd (map_find lt k m)"

definition map_ok :: "('k \<Rightarrow> 'k \<Rightarrow> bool) \<Rightarrow> ('k \<times> 'v) list \<Rightarrow> bool" where
  "map_ok lt m = sorted_wrt (\<lambda>p q. lt (fst p) (fst q)) m"

primrec set_insert :: "('a \<Rightarrow> 'a \<Rightarrow> bool) \<Rightarrow> 'a \<Rightarrow> 'a list \<Rightarrow> 'a list" where
  "set_insert lt x [] = [x]"
| "set_insert lt x (y # ys) =
     (if lt y x then y # set_insert lt x ys
      else if lt x y then x # y # ys else y # ys)"

primrec set_find :: "('a \<Rightarrow> 'a \<Rightarrow> bool) \<Rightarrow> 'a \<Rightarrow> 'a list \<Rightarrow> 'a option" where
  "set_find lt x [] = None"
| "set_find lt x (y # ys) =
     (if lt y x then set_find lt x ys else if lt x y then None else Some y)"

definition set_ok :: "('a \<Rightarrow> 'a \<Rightarrow> bool) \<Rightarrow> 'a list \<Rightarrow> bool" where
  "set_ok lt xs = sorted_wrt lt xs"

definition eqv :: "('a \<Rightarrow> 'a \<Rightarrow> bool) \<Rightarrow> 'a \<Rightarrow> 'a \<Rightarrow> bool" where
  "eqv lt x y \<longleftrightarrow> \<not> lt x y \<and> \<not> lt y x"

locale strict_weak_order =
  fixes lt :: "'a \<Rightarrow> 'a \<Rightarrow> bool"
  assumes lt_irrefl: "\<not> lt x x"
    and lt_trans: "lt x y \<Longrightarrow> lt y z \<Longrightarrow> lt x z"
    and lt_neg_trans: "\<not> lt x y \<Longrightarrow> \<not> lt y z \<Longrightarrow> \<not> lt x z"
begin

lemma lt_asym: "lt x y \<Longrightarrow> \<not> lt y x"
  using lt_irrefl lt_trans by blast

lemma eqv_refl [simp]: "eqv lt x x"
  by (simp add: eqv_def lt_irrefl)

lemma eqv_sym: "eqv lt x y \<Longrightarrow> eqv lt y x"
  by (simp add: eqv_def)

lemma eqv_trans: "eqv lt x y \<Longrightarrow> eqv lt y z \<Longrightarrow> eqv lt x z"
  unfolding eqv_def using lt_neg_trans by blast

lemma eqv_lt1: "eqv lt x y \<Longrightarrow> lt x z = lt y z"
  unfolding eqv_def using lt_neg_trans by blast

lemma eqv_lt2: "eqv lt x y \<Longrightarrow> lt z x = lt z y"
  unfolding eqv_def using lt_neg_trans by blast

lemma map_find_None_above:
  "\<forall>p \<in> set m. lt k (fst p) \<Longrightarrow> map_find lt k m = None"
  by (cases m) (auto dest: lt_asym)

lemma map_find_Some_iff:
  assumes "map_ok lt m"
  shows "map_find lt k m = Some p \<longleftrightarrow> p \<in> set m \<and> eqv lt k (fst p)"
  using assms
proof (induction m)
  case Nil
  then show ?case by simp
next
  case (Cons q m)
  then have ok: "map_ok lt m" and above: "\<And>r. r \<in> set m \<Longrightarrow> lt (fst q) (fst r)"
    by (auto simp: map_ok_def)
  note IH = Cons.IH [OF ok]
  have unique: "\<not> eqv lt k (fst q)" if "p \<in> set m" "eqv lt k (fst p)"
    using above [OF that(1)] eqv_lt2 [OF that(2), of "fst q"] by (auto simp: eqv_def)
  consider "lt (fst q) k" | "lt k (fst q)" | "eqv lt k (fst q)"
    by (auto simp: eqv_def)
  then show ?case
  proof cases
    case 1
    then show ?thesis by (auto simp: IH eqv_def)
  next
    case 2
    then have "\<not> lt (fst q) k" by (rule lt_asym)
    moreover have "\<not> (p \<in> set m \<and> eqv lt k (fst p))"
      using 2 above eqv_lt2 lt_asym by blast
    ultimately show ?thesis using 2 by (auto simp: eqv_def)
  next
    case 3
    then show ?thesis using unique by (auto simp: eqv_def)
  qed
qed

lemma map_put_set_fst: "r \<in> set (map_put lt k v m) \<Longrightarrow> fst r = k \<or> fst r \<in> fst ` set m"
  by (induction m) (auto split: if_splits)

lemma map_put_ok: "map_ok lt m \<Longrightarrow> map_ok lt (map_put lt k v m)"
proof (induction m)
  case Nil
  then show ?case by (simp add: map_ok_def)
next
  case (Cons q m)
  then show ?case
    by (auto simp: map_ok_def dest!: map_put_set_fst intro: lt_trans)
qed

lemma map_erase_subset: "set (map_erase lt k m) \<subseteq> set m"
  by (induction m) auto

lemma map_erase_ok: "map_ok lt m \<Longrightarrow> map_ok lt (map_erase lt k m)"
proof (induction m)
  case Nil
  then show ?case by (simp add: map_ok_def)
next
  case (Cons q m)
  then show ?case using map_erase_subset [of k m] by (auto simp: map_ok_def)
qed

lemma map_put_same: "map_get lt k (map_put lt k v m) = Some v"
  by (induction m) (auto simp: map_get_def lt_irrefl)

lemma map_put_find:
  "map_ok lt m \<Longrightarrow> map_get lt k' (map_put lt k v m) =
     (if eqv lt k k' then Some v else map_get lt k' m)"
proof (induction m)
  case Nil
  then show ?case by (auto simp: map_get_def eqv_def)
next
  case (Cons q m)
  then have IH: "map_get lt k' (map_put lt k v m) = (if eqv lt k k' then Some v else map_get lt k' m)"
    by (simp add: map_ok_def)
  have above: "\<And>r. r \<in> set m \<Longrightarrow> lt (fst q) (fst r)"
    using Cons.prems by (auto simp: map_ok_def)
  consider "lt (fst q) k" | "lt k (fst q)" "\<not> lt (fst q) k" | "eqv lt (fst q) k"
    by (auto simp: eqv_def)
  then show ?case
  proof cases
    case 1
    then show ?thesis
    proof (cases "eqv lt k k'")
      case True
      then have "lt (fst q) k'" using 1 eqv_lt2 by blast
      then show ?thesis using IH 1 True by (simp add: map_get_def)
    next
      case False
      then show ?thesis using IH 1 by (auto simp: map_get_def)
    qed
  next
    case 2
    show ?thesis
    proof (cases "eqv lt k k'")
      case True
      then show ?thesis using 2 by (auto simp: map_get_def eqv_def)
    next
      case F: False
      show ?thesis
      proof (cases "lt k k'")
        case True
        then show ?thesis using 2 F by (auto simp: map_get_def)
      next
        case False
        then have k': "lt k' k" using F by (auto simp: eqv_def)
        then have "lt k' (fst q)" using 2 lt_trans by blast
        then show ?thesis using k' False 2 F lt_asym by (auto simp: map_get_def)
      qed
    qed
  next
    case 3
    then have "eqv lt k k' = eqv lt (fst q) k'" using eqv_trans eqv_sym by blast
    then show ?thesis using 3 by (auto simp: map_get_def eqv_def)
  qed
qed

lemma map_erase_find:
  assumes "map_ok lt m"
  shows "map_get lt k' (map_erase lt k m) = (if eqv lt k k' then None else map_get lt k' m)"
  using assms
proof (induction m)
  case Nil
  then show ?case by (simp add: map_get_def)
next
  case (Cons q m)
  then have IH: "map_get lt k' (map_erase lt k m) = (if eqv lt k k' then None else map_get lt k' m)"
    by (simp add: map_ok_def)
  have above: "\<And>r. r \<in> set m \<Longrightarrow> lt (fst q) (fst r)"
    using Cons.prems by (auto simp: map_ok_def)
  consider "lt (fst q) k" | "lt k (fst q)" "\<not> lt (fst q) k" | "eqv lt (fst q) k"
    by (auto simp: eqv_def)
  then show ?case
  proof cases
    case 1
    then show ?thesis using IH eqv_lt2 [of k k' "fst q"] by (auto simp: map_get_def)
  next
    case 2
    then have "lt k' (fst q) \<and> \<not> lt (fst q) k'" if "eqv lt k k'"
      using that eqv_lt1 [of k k' "fst q"] eqv_lt2 [of k k' "fst q"] by blast
    then show ?thesis using 2 by (auto simp: map_get_def)
  next
    case 3
    have none: "map_find lt k' m = None" if "\<not> lt (fst q) k'"
      using that above map_find_None_above lt_neg_trans by blast
    have "eqv lt k k' = eqv lt (fst q) k'" using 3 eqv_trans eqv_sym by blast
    then show ?thesis using 3 none by (auto simp: map_get_def eqv_def)
  qed
qed

lemma set_insert_subset: "set (set_insert lt x xs) \<subseteq> insert x (set xs)"
  by (induction xs) auto

lemma set_insert_ok: "set_ok lt xs \<Longrightarrow> set_ok lt (set_insert lt x xs)"
proof (induction xs)
  case Nil
  then show ?case by (simp add: set_ok_def)
next
  case (Cons y xs)
  then show ?case using set_insert_subset [of x xs] by (auto simp: set_ok_def intro: lt_trans)
qed

lemma set_set_insert:
  assumes "set_ok lt xs" "\<forall>y \<in> set xs. \<not> eqv lt x y"
  shows "set (set_insert lt x xs) = insert x (set xs)"
  using assms by (induction xs) (auto simp: set_ok_def eqv_def)

lemma set_find_Some_iff:
  assumes "set_ok lt xs"
  shows "set_find lt x xs = Some y \<longleftrightarrow> y \<in> set xs \<and> eqv lt x y"
  using assms
proof (induction xs)
  case Nil
  then show ?case by simp
next
  case (Cons z xs)
  then have above: "\<And>w. w \<in> set xs \<Longrightarrow> lt z w" and IH: "set_find lt x xs = Some y \<longleftrightarrow> y \<in> set xs \<and> eqv lt x y"
    by (auto simp: set_ok_def)
  have unique: "\<not> eqv lt x z" if "y \<in> set xs" "eqv lt x y"
    using above [OF that(1)] eqv_lt2 [OF that(2), of z] by (auto simp: eqv_def)
  have later: "\<not> eqv lt x y" if "lt x z" "y \<in> set xs"
    using that above lt_trans by (auto simp: eqv_def)
  show ?case using IH unique later lt_asym by (auto simp: eqv_def)
qed

lemma set_insert_hd:
  assumes "set_ok lt xs" "\<forall>y \<in> set xs. \<not> eqv lt x y"
  shows "hd (set_insert lt x xs) = x \<longleftrightarrow> (\<forall>y \<in> set xs. lt x y)"
proof (cases xs)
  case Nil
  then show ?thesis by simp
next
  case (Cons y ys)
  show ?thesis
  proof (cases "lt x y")
    case True
    then have "\<forall>z \<in> set ys. lt x z" using assms(1) Cons lt_trans by (auto simp: set_ok_def)
    then show ?thesis using True Cons lt_asym [OF True] by simp
  next
    case False
    then have "lt y x" using assms(2) Cons by (simp add: eqv_def)
    then have "y \<noteq> x" using lt_irrefl by blast
    then show ?thesis using False \<open>lt y x\<close> Cons by simp
  qed
qed

end

section \<open>Key-value stores\<close>

text \<open>The contract of everything that stores values under keys: after a write the key (up to the
  store's notion of equal keys) has the new value, all others keep theirs, and a deleted key is
  gone. The client lemmas cover overwriting and a whole sequence of writes, where the last one for
  a key wins.\<close>

locale kv_store =
  fixes get :: "'s \<Rightarrow> 'k \<Rightarrow> 'v option"
    and put :: "'s \<Rightarrow> 'k \<Rightarrow> 'v \<Rightarrow> 's"
    and del :: "'s \<Rightarrow> 'k \<Rightarrow> 's"
    and inv :: "'s \<Rightarrow> bool"
    and same :: "'k \<Rightarrow> 'k \<Rightarrow> bool"
  assumes put_inv: "inv s \<Longrightarrow> inv (put s k v)"
    and del_inv: "inv s \<Longrightarrow> inv (del s k)"
    and get_put: "inv s \<Longrightarrow> get (put s k v) k' = (if same k k' then Some v else get s k')"
    and get_del: "inv s \<Longrightarrow> get (del s k) k' = (if same k k' then None else get s k')"
begin

definition puts :: "'s \<Rightarrow> ('k \<times> 'v) list \<Rightarrow> 's" where
  "puts s kvs = foldl (\<lambda>s (k, v). put s k v) s kvs"

lemma puts_inv: "inv s \<Longrightarrow> inv (puts s kvs)"
  unfolding puts_def by (induction kvs arbitrary: s) (auto simp: put_inv)

lemma get_puts:
  "inv s \<Longrightarrow> get (puts s kvs) k =
     (case find (\<lambda>(k', v). same k' k) (rev kvs) of Some (k', v) \<Rightarrow> Some v | None \<Rightarrow> get s k)"
proof (induction kvs rule: rev_induct)
  case Nil
  then show ?case by (simp add: puts_def)
next
  case (snoc kv kvs)
  have "puts s (kvs @ [kv]) = put (puts s kvs) (fst kv) (snd kv)"
    by (simp add: puts_def split_beta)
  then show ?case using snoc get_put [OF puts_inv [OF snoc.prems]] by (simp add: split_beta)
qed

lemma del_put: "inv s \<Longrightarrow> same k k \<Longrightarrow> get (del (put s k v) k) k = None"
  by (simp add: get_del put_inv)

end

sublocale strict_weak_order \<subseteq>
  omap: kv_store "\<lambda>m k. map_get lt k m" "\<lambda>m k v. map_put lt k v m" "\<lambda>m k. map_erase lt k m"
    "map_ok lt" "eqv lt"
  by unfold_locales (simp_all add: map_put_ok map_erase_ok map_put_find map_erase_find)

end
