(* ===== verification/Endian.thy ===== *)
theory Endian
  imports Cpp_Prelude
begin

text \<open>
  \<open>src/myhttp/endian.h\<close>: byte order and byte swapping. A word is stored in memory as its bytes in
  host order; the host is little-endian (\<open>MYHTTP_BYTE_ORDER = MYHTTP_LITTLE_ENDIAN\<close>, the branch
  taken on the x86-64 targets the repository is built for), so the memory image of a word is
  \<open>le_bytes\<close> and reading it back is \<open>from_le\<close>. \<open>byteswap\<close> stands for the three templates over
  \<open>bswap_16\<close>, \<open>bswap_32\<close> and \<open>bswap_64\<close>. The lemmas show that memory images round-trip and that
  \<open>byteswap\<close> reverses the image, hence is an involution.
\<close>

section \<open>Definitions\<close>

definition MYHTTP_LITTLE_ENDIAN :: u8 where
  "MYHTTP_LITTLE_ENDIAN = 1"

definition MYHTTP_BIG_ENDIAN :: u8 where
  "MYHTTP_BIG_ENDIAN = 2"

definition MYHTTP_BYTE_ORDER :: u8 where
  "MYHTTP_BYTE_ORDER = MYHTTP_LITTLE_ENDIAN"

definition le_bytes :: "nat \<Rightarrow> 'a::len word \<Rightarrow> u8 list" where
  "le_bytes n w = map (\<lambda>i. ucast (drop_bit (8 * i) w)) [0..<n]"

primrec from_le :: "u8 list \<Rightarrow> 'a::len word" where
  "from_le [] = 0"
| "from_le (b # bs) = ucast b OR push_bit 8 (from_le bs)"

definition wsize :: "'a::len word \<Rightarrow> nat" where
  "wsize w = LENGTH('a) div 8"

definition byteswap :: "'a::len word \<Rightarrow> 'a word" where
  "byteswap w = from_le (rev (le_bytes (wsize w) w))"

definition byteswapOnLittleEndian :: "'a::len word \<Rightarrow> 'a word" where
  "byteswapOnLittleEndian t = (if MYHTTP_BYTE_ORDER = MYHTTP_BIG_ENDIAN then t else byteswap t)"

definition byteswapOnBigEndian :: "'a::len word \<Rightarrow> 'a word" where
  "byteswapOnBigEndian t = (if MYHTTP_BYTE_ORDER = MYHTTP_BIG_ENDIAN then byteswap t else t)"

section \<open>Lemmas\<close>

lemma endian_distinct [simp]:
  "MYHTTP_BYTE_ORDER = MYHTTP_LITTLE_ENDIAN"
  "MYHTTP_LITTLE_ENDIAN \<noteq> MYHTTP_BIG_ENDIAN"
  "MYHTTP_BIG_ENDIAN \<noteq> MYHTTP_LITTLE_ENDIAN"
  by (simp_all add: MYHTTP_BYTE_ORDER_def MYHTTP_LITTLE_ENDIAN_def MYHTTP_BIG_ENDIAN_def)

lemma length_le_bytes [simp]: "length (le_bytes n w) = n"
  by (simp add: le_bytes_def)

lemma nth_le_bytes: "i < n \<Longrightarrow> le_bytes n w ! i = ucast (drop_bit (8 * i) w)"
  by (simp add: le_bytes_def)

lemma bit_from_le:
  "bit (from_le bs :: 'a::len word) k \<longleftrightarrow>
     k < LENGTH('a) \<and> k div 8 < length bs \<and> bit (bs ! (k div 8)) (k mod 8)"
proof (induction bs arbitrary: k)
  case Nil
  then show ?case by simp
next
  case (Cons b bs)
  show ?case
  proof (cases "k < 8")
    case True
    then show ?thesis by (auto simp: bit_simps)
  next
    case False
    then have "k div 8 = Suc ((k - 8) div 8)" and "(k - 8) mod 8 = k mod 8"
      by (simp_all add: le_div_geq le_mod_geq)
    moreover have "\<not> bit b k" using False bit_imp_le_length [of b k] by auto
    ultimately show ?thesis using False Cons.IH [of "k - 8"]
      by (auto simp: bit_simps)
  qed
qed

lemma bit_le_bytes:
  "k div 8 < n \<Longrightarrow> bit (le_bytes n w ! (k div 8)) (k mod 8) = bit w k"
  by (simp add: nth_le_bytes bit_simps)

lemma from_le_le_bytes:
  fixes w :: "'a::len word"
  assumes "LENGTH('a) \<le> 8 * n"
  shows "from_le (le_bytes n w) = w"
proof (rule bit_word_eqI)
  fix k assume k: "k < LENGTH('a)"
  then have "k div 8 < n" using assms by linarith
  then show "bit (from_le (le_bytes n w) :: 'a word) k = bit w k"
    using k by (simp add: bit_from_le bit_le_bytes)
qed

lemma le_bytes_from_le:
  assumes "8 * length bs \<le> LENGTH('a)"
  shows "le_bytes (length bs) (from_le bs :: 'a::len word) = bs"
proof (rule nth_equalityI)
  show "length (le_bytes (length bs) (from_le bs :: 'a word)) = length bs" by simp
  fix i assume i: "i < length (le_bytes (length bs) (from_le bs :: 'a word))"
  show "le_bytes (length bs) (from_le bs :: 'a word) ! i = bs ! i"
  proof (rule bit_word_eqI)
    fix k assume "k < LENGTH(8)"
    then have k: "k < 8" by simp
    then have "(8 * i + k) div 8 = i" "(8 * i + k) mod 8 = k" "8 * i + k < LENGTH('a)"
      using i assms by auto
    then show "bit (le_bytes (length bs) (from_le bs :: 'a word) ! i) k = bit (bs ! i) k"
      using i k by (simp add: nth_le_bytes bit_simps bit_from_le)
  qed
qed

lemma le_bytes_byteswap:
  fixes w :: "'a::len word"
  shows "le_bytes (wsize w) (byteswap w) = rev (le_bytes (wsize w) w)"
proof -
  have "8 * length (rev (le_bytes (wsize w) w)) \<le> LENGTH('a)"
    by (simp add: wsize_def)
  from le_bytes_from_le [OF this] show ?thesis
    by (simp add: byteswap_def)
qed

lemma byteswap_byteswap:
  fixes w :: "'a::len word"
  assumes "8 * (LENGTH('a) div 8) = LENGTH('a)"
  shows "byteswap (byteswap w) = w"
proof -
  have "wsize (byteswap w) = wsize w" by (simp add: wsize_def)
  then have "byteswap (byteswap w) = from_le (rev (le_bytes (wsize w) (byteswap w)))"
    by (simp add: byteswap_def)
  also have "\<dots> = from_le (le_bytes (wsize w) w)"
    by (simp add: le_bytes_byteswap)
  also have "\<dots> = w"
    using assms by (intro from_le_le_bytes) (simp add: wsize_def)
  finally show ?thesis .
qed

lemma byteswapOnLittleEndian_invol:
  fixes w :: "'a::len word"
  assumes "8 * (LENGTH('a) div 8) = LENGTH('a)"
  shows "byteswapOnLittleEndian (byteswapOnLittleEndian w) = w"
  by (simp add: byteswapOnLittleEndian_def byteswap_byteswap assms)

lemma bit_byteswap:
  fixes w :: "'a::len word"
  assumes "8 * (LENGTH('a) div 8) = LENGTH('a)" and "k < LENGTH('a)"
  shows "bit (byteswap w) k = bit w (LENGTH('a) - 8 - 8 * (k div 8) + k mod 8)"
proof -
  let ?n = "LENGTH('a) div 8"
  have kd: "k div 8 < ?n" using assms by linarith
  have j: "(?n - Suc (k div 8)) < ?n" using kd by simp
  have "bit (byteswap w) k = bit (rev (le_bytes ?n w) ! (k div 8)) (k mod 8)"
    using assms(2) kd by (simp add: byteswap_def bit_from_le wsize_def)
  also have "\<dots> = bit (le_bytes ?n w ! (?n - Suc (k div 8))) (k mod 8)"
    using kd by (simp add: rev_nth)
  also have "\<dots> = bit w (8 * (?n - Suc (k div 8)) + k mod 8)"
    using j by (simp add: nth_le_bytes bit_simps)
  also have "8 * (?n - Suc (k div 8)) = LENGTH('a) - 8 - 8 * (k div 8)"
    using assms(1) kd by (simp add: diff_mult_distrib2)
  finally show ?thesis .
qed

end
