(* ===== verification/ByteArray.thy ===== *)
theory ByteArray
  imports Endian
begin

text \<open>
  \<open>src/myhttp/bytearray.cpp\<close>: a growable byte buffer kept as a chain of equally sized nodes with
  one cursor. The chain from \<open>m_root\<close> is the list of its nodes, \<open>m_cur\<close> the index of the current
  node (\<open>None\<close> is the null pointer). A cell of a fresh node is \<open>None\<close>: \<open>new char[s]\<close> does not
  initialise it, and decoding such a cell is the error \<open>Uninit\<close>. Sizes and positions are \<open>size_t\<close>
  values of an in-memory buffer and are kept as \<open>nat\<close>; the invariant \<open>ba_inv\<close> of the theory
  \<open>ByteArray_Lemmas\<close> shows that no subtraction of the code wraps. Floating point values are their
  bit patterns, as the code only copies them. A \<open>std::string\<close> is its list of bytes here.
\<close>

section \<open>Data\<close>

type_synonym cell = "u8 option"

record node =
  nd_ptr :: "cell list"
  nd_size :: nat

record bytearray =
  m_baseSize :: nat
  m_position :: nat
  m_capacity :: nat
  m_size :: nat
  m_endian :: u8
  m_root :: "node list"
  m_cur :: "nat option"

definition Node :: "nat \<Rightarrow> node" where
  "Node s = \<lparr>nd_ptr = replicate s None, nd_size = s\<rparr>"

definition ByteArray :: "nat \<Rightarrow> bytearray" where
  "ByteArray base_size =
     \<lparr>m_baseSize = base_size, m_position = 0, m_capacity = base_size, m_size = 0,
      m_endian = MYHTTP_BIG_ENDIAN, m_root = [Node base_size], m_cur = Some 0\<rparr>"

definition isLittleEndian :: "bytearray \<Rightarrow> bool" where
  "isLittleEndian ba \<longleftrightarrow> m_endian ba = MYHTTP_LITTLE_ENDIAN"

definition setIsLittlEndian :: "bool \<Rightarrow> bytearray \<Rightarrow> bytearray" where
  "setIsLittlEndian val ba =
     ba\<lparr>m_endian := (if val then MYHTTP_LITTLE_ENDIAN else MYHTTP_BIG_ENDIAN)\<rparr>"

definition getReadSize :: "bytearray \<Rightarrow> nat" where
  "getReadSize ba = m_size ba - m_position ba"

definition getCapacity :: "bytearray \<Rightarrow> nat" where
  "getCapacity ba = m_capacity ba - m_position ba"

section \<open>Pointers and memory\<close>

definition next_node :: "node list \<Rightarrow> nat \<Rightarrow> nat option" where
  "next_node ns i = (if Suc i < length ns then Some (Suc i) else None)"

definition deref :: "node list \<Rightarrow> nat option \<Rightarrow> nat result" where
  "deref ns cur =
     (case cur of None \<Rightarrow> Inl NullDeref
      | Some i \<Rightarrow> if i < length ns then Inr i else Inl NullDeref)"

definition memcpy_to :: "node \<Rightarrow> nat \<Rightarrow> u8 list \<Rightarrow> node result" where
  "memcpy_to nd pos bs =
     (if pos + length bs \<le> length (nd_ptr nd)
      then Inr (nd\<lparr>nd_ptr := take pos (nd_ptr nd) @ map Some bs @ drop (pos + length bs) (nd_ptr nd)\<rparr>)
      else Inl OutOfBounds)"

definition memcpy_from :: "node \<Rightarrow> nat \<Rightarrow> nat \<Rightarrow> cell list result" where
  "memcpy_from nd pos n =
     (if pos + n \<le> length (nd_ptr nd) then Inr (take n (drop pos (nd_ptr nd))) else Inl OutOfBounds)"

section \<open>Capacity\<close>

definition addCapacity :: "bytearray \<Rightarrow> nat \<Rightarrow> bytearray result" where
  "addCapacity ba sz =
     (if sz = 0 then Inr ba
      else let old_cap = getCapacity ba in
        if old_cap \<ge> sz then Inr ba
        else if m_baseSize ba = 0 then Inl DivByZero
        else let sz = sz - old_cap;
                 count = sz div m_baseSize ba
                   + (if sz mod m_baseSize ba > old_cap then 1 else 0);
                 first = (if count = 0 then None else Some (length (m_root ba)))
             in Inr (ba\<lparr>m_root := m_root ba @ replicate count (Node (m_baseSize ba)),
                        m_capacity := m_capacity ba + count * m_baseSize ba,
                        m_cur := (if old_cap = 0 then first else m_cur ba)\<rparr>))"

section \<open>Raw writing and reading\<close>

function write_loop ::
  "node list \<Rightarrow> nat \<Rightarrow> nat \<Rightarrow> nat \<Rightarrow> nat \<Rightarrow> u8 list \<Rightarrow> (node list \<times> nat option \<times> nat) result"
where
  "write_loop ns i npos ncap pos bs =
     (if bs = [] then Inr (ns, Some i, pos)
      else if ncap \<ge> length bs then
        bindR (memcpy_to (ns ! i) npos bs) (\<lambda>nd.
          Inr (ns[i := nd],
               (if nd_size (ns ! i) = npos + length bs then next_node ns i else Some i),
               pos + length bs))
      else
        bindR (memcpy_to (ns ! i) npos (take ncap bs)) (\<lambda>nd.
          case next_node ns i of
            None \<Rightarrow> Inl NullDeref
          | Some j \<Rightarrow> write_loop (ns[i := nd]) j 0 (nd_size (ns ! j)) (pos + ncap) (drop ncap bs)))"
  by pat_completeness auto
termination
  by (relation "measure (\<lambda>(ns, i, npos, ncap, pos, bs). length ns - i)")
     (auto simp: next_node_def split: if_splits)

definition ba_write :: "bytearray \<Rightarrow> u8 list \<Rightarrow> bytearray result" where
  "ba_write ba buf =
     (if buf = [] then Inr ba
      else bindR (addCapacity ba (length buf)) (\<lambda>ba.
        if m_baseSize ba = 0 then Inl DivByZero
        else bindR (deref (m_root ba) (m_cur ba)) (\<lambda>i.
          let npos = m_position ba mod m_baseSize ba;
              ncap = nd_size (m_root ba ! i) - npos
          in bindR (write_loop (m_root ba) i npos ncap (m_position ba) buf) (\<lambda>(ns, cur, pos).
            Inr (ba\<lparr>m_root := ns, m_cur := cur, m_position := pos,
                    m_size := (if pos > m_size ba then pos else m_size ba)\<rparr>)))))"

function read_loop ::
  "node list \<Rightarrow> nat \<Rightarrow> nat \<Rightarrow> nat \<Rightarrow> nat \<Rightarrow> nat \<Rightarrow> (cell list \<times> nat option \<times> nat) result"
where
  "read_loop ns i npos ncap pos sz =
     (if sz = 0 then Inr ([], Some i, pos)
      else if ncap \<ge> sz then
        bindR (memcpy_from (ns ! i) npos sz) (\<lambda>cs.
          Inr (cs, (if nd_size (ns ! i) = npos + sz then next_node ns i else Some i), pos + sz))
      else
        bindR (memcpy_from (ns ! i) npos ncap) (\<lambda>cs.
          case next_node ns i of
            None \<Rightarrow> Inl NullDeref
          | Some j \<Rightarrow>
              bindR (read_loop ns j 0 (nd_size (ns ! j)) (pos + ncap) (sz - ncap)) (\<lambda>(cs', cur, pos').
                Inr (cs @ cs', cur, pos'))))"
  by pat_completeness auto
termination
  by (relation "measure (\<lambda>(ns, i, npos, ncap, pos, sz). length ns - i)")
     (auto simp: next_node_def split: if_splits)

definition ba_read :: "bytearray \<Rightarrow> nat \<Rightarrow> (cell list \<times> bytearray) result" where
  "ba_read ba sz =
     (if sz > getReadSize ba then Inl (OutOfRange ''not enough len'')
      else if m_baseSize ba = 0 then Inl DivByZero
      else bindR (deref (m_root ba) (m_cur ba)) (\<lambda>i.
        let npos = m_position ba mod m_baseSize ba;
            ncap = nd_size (m_root ba ! i) - npos
        in bindR (read_loop (m_root ba) i npos ncap (m_position ba) sz) (\<lambda>(cs, cur, pos).
          Inr (cs, ba\<lparr>m_cur := cur, m_position := pos\<rparr>))))"

definition read_at :: "bytearray \<Rightarrow> nat \<Rightarrow> nat \<Rightarrow> cell list result" where
  "read_at ba sz position =
     (if sz > getReadSize ba then Inl (OutOfRange ''not enough len'')
      else if m_baseSize ba = 0 then Inl DivByZero
      else bindR (deref (m_root ba) (m_cur ba)) (\<lambda>i.
        let npos = position mod m_baseSize ba;
            ncap = nd_size (m_root ba ! i) - npos
        in bindR (read_loop (m_root ba) i npos ncap position sz) (\<lambda>(cs, cur, pos). Inr cs)))"

section \<open>Cursor\<close>

function setpos_loop :: "node list \<Rightarrow> nat \<Rightarrow> nat \<Rightarrow> (nat option) result" where
  "setpos_loop ns i v =
     (if v > nd_size (ns ! i) then
        (case next_node ns i of
           None \<Rightarrow> Inl NullDeref
         | Some j \<Rightarrow> setpos_loop ns j (v - nd_size (ns ! i)))
      else Inr (if v = nd_size (ns ! i) then next_node ns i else Some i))"
  by pat_completeness auto
termination
  by (relation "measure (\<lambda>(ns, i, v). length ns - i)") (auto simp: next_node_def split: if_splits)

definition setPosition :: "bytearray \<Rightarrow> nat \<Rightarrow> bytearray result" where
  "setPosition ba v =
     (if v > m_capacity ba then Inl (OutOfRange ''set_position out of range'')
      else bindR (deref (m_root ba) (Some 0)) (\<lambda>i.
        bindR (setpos_loop (m_root ba) i v) (\<lambda>cur.
          Inr (ba\<lparr>m_position := v, m_size := (if v > m_size ba then v else m_size ba),
                  m_cur := cur\<rparr>))))"

definition clear :: "bytearray \<Rightarrow> bytearray" where
  "clear ba =
     ba\<lparr>m_position := 0, m_size := 0, m_capacity := m_baseSize ba,
        m_root := take 1 (m_root ba), m_cur := Some 0\<rparr>"

section \<open>Fixed-width integers\<close>

definition initialised :: "cell list \<Rightarrow> u8 list result" where
  "initialised cs = (if None \<in> set cs then Inl Uninit else Inr (map the cs))"

definition read_bytes :: "bytearray \<Rightarrow> nat \<Rightarrow> (u8 list \<times> bytearray) result" where
  "read_bytes ba n =
     bindR (ba_read ba n) (\<lambda>(cs, ba'). bindR (initialised cs) (\<lambda>bs. Inr (bs, ba')))"

definition write_word :: "bytearray \<Rightarrow> 'a::len word \<Rightarrow> bytearray result" where
  "write_word ba value =
     (let value = (if m_endian ba \<noteq> MYHTTP_BYTE_ORDER then byteswap value else value)
      in ba_write ba (le_bytes (wsize value) value))"

definition read_word :: "bytearray \<Rightarrow> ('a::len word \<times> bytearray) result" where
  "read_word ba =
     bindR (read_bytes ba (LENGTH('a) div 8)) (\<lambda>(bs, ba').
       let v = from_le bs
       in Inr (if m_endian ba' = MYHTTP_BYTE_ORDER then v else byteswap v, ba'))"

definition writeFint8 :: "bytearray \<Rightarrow> u8 \<Rightarrow> bytearray result" where
  "writeFint8 ba value = ba_write ba [value]"
definition writeFuint8 :: "bytearray \<Rightarrow> u8 \<Rightarrow> bytearray result" where
  "writeFuint8 ba value = ba_write ba [value]"
definition writeFint16 :: "bytearray \<Rightarrow> u16 \<Rightarrow> bytearray result" where
  "writeFint16 ba value = write_word ba value"
definition writeFuint16 :: "bytearray \<Rightarrow> u16 \<Rightarrow> bytearray result" where
  "writeFuint16 ba value = write_word ba value"
definition writeFint32 :: "bytearray \<Rightarrow> u32 \<Rightarrow> bytearray result" where
  "writeFint32 ba value = write_word ba value"
definition writeFuint32 :: "bytearray \<Rightarrow> u32 \<Rightarrow> bytearray result" where
  "writeFuint32 ba value = write_word ba value"
definition writeFint64 :: "bytearray \<Rightarrow> u64 \<Rightarrow> bytearray result" where
  "writeFint64 ba value = write_word ba value"
definition writeFuint64 :: "bytearray \<Rightarrow> u64 \<Rightarrow> bytearray result" where
  "writeFuint64 ba value = write_word ba value"

definition readFuint8 :: "bytearray \<Rightarrow> (u8 \<times> bytearray) result" where
  "readFuint8 ba = bindR (read_bytes ba 1) (\<lambda>(bs, ba'). Inr (hd bs, ba'))"
definition readFint8 :: "bytearray \<Rightarrow> (u8 \<times> bytearray) result" where
  "readFint8 ba = bindR (read_bytes ba 1) (\<lambda>(bs, ba'). Inr (hd bs, ba'))"
definition readFint16 :: "bytearray \<Rightarrow> (u16 \<times> bytearray) result" where
  "readFint16 ba = read_word ba"
definition readFuint16 :: "bytearray \<Rightarrow> (u16 \<times> bytearray) result" where
  "readFuint16 ba = read_word ba"
definition readFint32 :: "bytearray \<Rightarrow> (u32 \<times> bytearray) result" where
  "readFint32 ba = read_word ba"
definition readFuint32 :: "bytearray \<Rightarrow> (u32 \<times> bytearray) result" where
  "readFuint32 ba = read_word ba"
definition readFint64 :: "bytearray \<Rightarrow> (u64 \<times> bytearray) result" where
  "readFint64 ba = read_word ba"
definition readFuint64 :: "bytearray \<Rightarrow> (u64 \<times> bytearray) result" where
  "readFuint64 ba = read_word ba"

section \<open>Variable-width integers\<close>

text \<open>Signed arithmetic of the ZigZag encoders that overflows \<open>int32_t\<close> or \<open>int64_t\<close> is undefined
  behaviour and yields \<open>SignedOverflow\<close>. In \<open>EncodeZigzag64\<close> the negative branch goes through
  \<open>uint32_t\<close>, and \<open>DecodeZigzag64\<close> returns \<open>int32_t\<close>, which \<open>readInt64\<close> widens again.\<close>

definition EncodeZigzag32 :: "u32 \<Rightarrow> u32 result" where
  "EncodeZigzag32 v =
     (if sint v < 0 then (if sint v = - (2 ^ 31) then Inl SignedOverflow else Inr ((- v) * 2 - 1))
      else if sint v * 2 \<ge> 2 ^ 31 then Inl SignedOverflow else Inr (v * 2))"

definition EncodeZigzag64 :: "u64 \<Rightarrow> u64 result" where
  "EncodeZigzag64 v =
     (if sint v < 0 then
        (if sint v = - (2 ^ 63) then Inl SignedOverflow
         else Inr (ucast ((ucast (- v) :: u32) * 2 - 1)))
      else if sint v * 2 \<ge> 2 ^ 63 then Inl SignedOverflow else Inr (v * 2))"

definition DecodeZigzag32 :: "u32 \<Rightarrow> u32" where
  "DecodeZigzag32 v = drop_bit 1 v XOR - (v AND 1)"

definition DecodeZigzag64 :: "u64 \<Rightarrow> u32" where
  "DecodeZigzag64 v = ucast (drop_bit 1 v XOR - (v AND 1))"

function varint_bytes :: "'a::len word \<Rightarrow> u8 list" where
  "varint_bytes value =
     (if unat value \<ge> 128 then ucast ((value AND 0x7F) OR 0x80) # varint_bytes (drop_bit 7 value)
      else [ucast value])"
  by pat_completeness auto
termination
  by (relation "measure unat") (auto simp: unat_drop_bit_div)

function read_varint :: "nat \<Rightarrow> 'a::len word \<Rightarrow> bytearray \<Rightarrow> ('a word \<times> bytearray) result" where
  "read_varint i res ba =
     (if i < LENGTH('a) then
        bindR (readFuint8 ba) (\<lambda>(b, ba').
          if b < 0x80 then Inr (res OR push_bit i (ucast b), ba')
          else read_varint (i + 7) (res OR push_bit i (ucast (b AND 0x7F))) ba')
      else Inr (res, ba))"
  by pat_completeness auto
termination
  by (relation "measure (\<lambda>(i, res :: 'a word, ba). LENGTH('a) - i)") auto

definition writeUint32 :: "bytearray \<Rightarrow> u32 \<Rightarrow> bytearray result" where
  "writeUint32 ba value = ba_write ba (varint_bytes value)"
definition writeUint64 :: "bytearray \<Rightarrow> u64 \<Rightarrow> bytearray result" where
  "writeUint64 ba value = ba_write ba (varint_bytes value)"
definition writeInt32 :: "bytearray \<Rightarrow> u32 \<Rightarrow> bytearray result" where
  "writeInt32 ba value = bindR (EncodeZigzag32 value) (writeUint32 ba)"
definition writeInt64 :: "bytearray \<Rightarrow> u64 \<Rightarrow> bytearray result" where
  "writeInt64 ba value = bindR (EncodeZigzag64 value) (writeUint64 ba)"

definition readUint32 :: "bytearray \<Rightarrow> (u32 \<times> bytearray) result" where
  "readUint32 ba = read_varint 0 0 ba"
definition readUint64 :: "bytearray \<Rightarrow> (u64 \<times> bytearray) result" where
  "readUint64 ba = read_varint 0 0 ba"
definition readInt32 :: "bytearray \<Rightarrow> (u32 \<times> bytearray) result" where
  "readInt32 ba = bindR (readUint32 ba) (\<lambda>(v, ba'). Inr (DecodeZigzag32 v, ba'))"
definition readInt64 :: "bytearray \<Rightarrow> (u64 \<times> bytearray) result" where
  "readInt64 ba = bindR (readUint64 ba) (\<lambda>(v, ba'). Inr (scast (DecodeZigzag64 v), ba'))"

section \<open>Floating point and strings\<close>

definition writeFloat :: "bytearray \<Rightarrow> u32 \<Rightarrow> bytearray result" where
  "writeFloat ba value = writeFuint32 ba value"
definition writeDouble :: "bytearray \<Rightarrow> u64 \<Rightarrow> bytearray result" where
  "writeDouble ba value = writeFuint64 ba value"
definition readFloat :: "bytearray \<Rightarrow> (u32 \<times> bytearray) result" where
  "readFloat ba = readFuint32 ba"
definition readDouble :: "bytearray \<Rightarrow> (u64 \<times> bytearray) result" where
  "readDouble ba = bindR (readFuint32 ba) (\<lambda>(v, ba'). Inr (ucast v, ba'))"

definition writeString16 :: "bytearray \<Rightarrow> u8 list \<Rightarrow> bytearray result" where
  "writeString16 ba value =
     bindR (writeFuint16 ba (of_nat (length value))) (\<lambda>ba. ba_write ba value)"
definition writeString32 :: "bytearray \<Rightarrow> u8 list \<Rightarrow> bytearray result" where
  "writeString32 ba value =
     bindR (writeFuint32 ba (of_nat (length value))) (\<lambda>ba. ba_write ba value)"
definition writeString64 :: "bytearray \<Rightarrow> u8 list \<Rightarrow> bytearray result" where
  "writeString64 ba value =
     bindR (writeFuint64 ba (of_nat (length value))) (\<lambda>ba. ba_write ba value)"
definition writeStringVint :: "bytearray \<Rightarrow> u8 list \<Rightarrow> bytearray result" where
  "writeStringVint ba value =
     bindR (writeUint64 ba (of_nat (length value))) (\<lambda>ba. ba_write ba value)"
definition writeStringWithoutLength :: "bytearray \<Rightarrow> u8 list \<Rightarrow> bytearray result" where
  "writeStringWithoutLength ba value = ba_write ba value"

definition readStringF16 :: "bytearray \<Rightarrow> (cell list \<times> bytearray) result" where
  "readStringF16 ba = bindR (readFuint16 ba) (\<lambda>(len, ba). ba_read ba (unat len))"
definition readStringF32 :: "bytearray \<Rightarrow> (cell list \<times> bytearray) result" where
  "readStringF32 ba = bindR (readFuint32 ba) (\<lambda>(len, ba). ba_read ba (unat len))"
definition readStringF64 :: "bytearray \<Rightarrow> (cell list \<times> bytearray) result" where
  "readStringF64 ba = bindR (readFuint64 ba) (\<lambda>(len, ba). ba_read ba (unat len))"
definition readStringVint :: "bytearray \<Rightarrow> (cell list \<times> bytearray) result" where
  "readStringVint ba = bindR (readFuint64 ba) (\<lambda>(len, ba). ba_read ba (unat len))"

section \<open>Files, text and scatter-gather views\<close>

text \<open>The file system is an argument: whether the file could be opened, what it holds.\<close>

function wtf_loop ::
  "node list \<Rightarrow> int \<Rightarrow> nat option \<Rightarrow> int \<Rightarrow> int \<Rightarrow> cell list \<Rightarrow> cell list result"
where
  "wtf_loop ns base cur pos read_size out =
     (if read_size > 0 then
        let diff = pos mod base;
            len = (if read_size > base then base else read_size) - diff
        in (case cur of
              None \<Rightarrow> Inl NullDeref
            | Some i \<Rightarrow>
                if len < 0 then Inl NegativeSize
                else bindR (memcpy_from (ns ! i) (nat diff) (nat len)) (\<lambda>cs.
                  wtf_loop ns base (next_node ns i) (pos + len) (read_size - len) (out @ cs)))
      else Inr out)"
  by pat_completeness auto
termination
  by (relation "measure (\<lambda>(ns, base, cur, pos, read_size, out).
        case cur of None \<Rightarrow> 0 | Some i \<Rightarrow> Suc (length ns - i))")
     (auto simp: next_node_def split: if_splits)

definition writeToFile :: "bool \<Rightarrow> bytearray \<Rightarrow> (bool \<times> cell list) result" where
  "writeToFile opened ba =
     (if \<not> opened then Inr (False, [])
      else if m_baseSize ba = 0 \<and> getReadSize ba > 0 then Inl DivByZero
      else bindR (wtf_loop (m_root ba) (int (m_baseSize ba)) (m_cur ba) (int (m_position ba))
                    (int (getReadSize ba)) []) (\<lambda>out. Inr (True, out)))"

function rff_loop :: "nat \<Rightarrow> u8 list \<Rightarrow> bytearray \<Rightarrow> bytearray result" where
  "rff_loop base content ba =
     (if 0 < base \<and> base \<le> length content then
        bindR (ba_write ba (take base content)) (\<lambda>ba'. rff_loop base (drop base content) ba')
      else ba_write ba content)"
  by pat_completeness auto
termination
  by (relation "measure (\<lambda>(base, content, ba). length content)") auto

definition readFromFile :: "u8 list option \<Rightarrow> bytearray \<Rightarrow> (bool \<times> bytearray) result" where
  "readFromFile file ba =
     (case file of
        None \<Rightarrow> Inr (False, ba)
      | Some content \<Rightarrow>
          if m_baseSize ba = 0 then Inl Diverges
          else bindR (rff_loop (m_baseSize ba) content ba) (\<lambda>ba'. Inr (True, ba')))"

definition toString :: "bytearray \<Rightarrow> cell list result" where
  "toString ba =
     (if getReadSize ba = 0 then Inr [] else read_at ba (getReadSize ba) (m_position ba))"

definition hex_digit :: "nat \<Rightarrow> char" where
  "hex_digit d = (if d < 10 then char_of (48 + d) else char_of (87 + d))"

definition hex_byte :: "u8 \<Rightarrow> string" where
  "hex_byte b = [hex_digit (unat b div 16), hex_digit (unat b mod 16)]"

definition toHexString :: "bytearray \<Rightarrow> string result" where
  "toHexString ba =
     bindR (toString ba) (\<lambda>cs. bindR (initialised cs) (\<lambda>bs.
       Inr (concat (map (\<lambda>i. (if i > 0 \<and> i mod 32 = 0 then [char_of (10 :: nat)] else [])
                              @ hex_byte (bs ! i) @ '' '') [0..<length bs]))))"

type_synonym iovec = "nat \<times> nat \<times> nat"

function iov_loop :: "node list \<Rightarrow> nat \<Rightarrow> nat \<Rightarrow> nat \<Rightarrow> nat \<Rightarrow> iovec list result" where
  "iov_loop ns i npos ncap len =
     (if len = 0 then Inr []
      else if ncap \<ge> len then Inr [(i, npos, len)]
      else (case next_node ns i of
              None \<Rightarrow> Inl NullDeref
            | Some j \<Rightarrow>
                bindR (iov_loop ns j 0 (nd_size (ns ! j)) (len - ncap)) (\<lambda>iovs.
                  Inr ((i, npos, ncap) # iovs))))"
  by pat_completeness auto
termination
  by (relation "measure (\<lambda>(ns, i, npos, ncap, len). length ns - i)")
     (auto simp: next_node_def split: if_splits)

definition getReadBuffers :: "bytearray \<Rightarrow> nat \<Rightarrow> (nat \<times> iovec list) result" where
  "getReadBuffers ba len =
     (let len = (if len > getReadSize ba then getReadSize ba else len)
      in if len = 0 then Inr (0, [])
         else if m_baseSize ba = 0 then Inl DivByZero
         else bindR (deref (m_root ba) (m_cur ba)) (\<lambda>i.
           let npos = m_position ba mod m_baseSize ba;
               ncap = nd_size (m_root ba ! i) - npos
           in bindR (iov_loop (m_root ba) i npos ncap len) (\<lambda>iovs. Inr (len, iovs))))"

definition getReadBuffers_at :: "bytearray \<Rightarrow> nat \<Rightarrow> nat \<Rightarrow> (nat \<times> iovec list) result" where
  "getReadBuffers_at ba len position =
     (let len = (if len > getReadSize ba then getReadSize ba else len)
      in if len = 0 then Inr (0, [])
         else if m_baseSize ba = 0 then Inl DivByZero
         else bindR (deref (m_root ba) (Some (position div m_baseSize ba))) (\<lambda>cur.
           bindR (deref (m_root ba) (m_cur ba)) (\<lambda>i.
             let npos = position mod m_baseSize ba;
                 ncap = nd_size (m_root ba ! i) - npos
             in bindR (iov_loop (m_root ba) cur npos ncap len) (\<lambda>iovs. Inr (len, iovs)))))"

definition getWriteBuffers :: "bytearray \<Rightarrow> nat \<Rightarrow> ((nat \<times> iovec list) \<times> bytearray) result" where
  "getWriteBuffers ba len =
     (if len = 0 then Inr ((0, []), ba)
      else bindR (addCapacity ba len) (\<lambda>ba.
        if m_baseSize ba = 0 then Inl DivByZero
        else bindR (deref (m_root ba) (m_cur ba)) (\<lambda>i.
          let npos = m_position ba mod m_baseSize ba;
              ncap = nd_size (m_root ba ! i) - npos
          in bindR (iov_loop (m_root ba) i npos ncap len) (\<lambda>iovs. Inr ((len, iovs), ba)))))"

declare write_loop.simps [simp del] read_loop.simps [simp del] setpos_loop.simps [simp del]
  varint_bytes.simps [simp del] read_varint.simps [simp del] wtf_loop.simps [simp del]
  rff_loop.simps [simp del] iov_loop.simps [simp del]

end
