(* ===== verification/ByteArray_Lemmas.thy ===== *)
theory ByteArray_Lemmas
  imports ByteArray
begin

text \<open>
  The invariant of \<open>ByteArray\<close> and the effect of its operations on the abstract contents.

  The abstraction of a byte array is the concatenation of its nodes, \<open>contents\<close>, with the cursor
  position; \<open>ba_inv\<close> says that all nodes have the base size, that position and size stay within
  the capacity, and that \<open>m_cur\<close> is exactly the node the position falls into (null at the very
  end). Each loop of the code is related to \<open>take\<close>, \<open>drop\<close> and \<open>overlay\<close> on the contents, and each
  operation gets an equation for every branch, the failing ones included.
\<close>

section \<open>Abstraction and invariant\<close>

definition flat :: "node list \<Rightarrow> cell list" where
  "flat ns = concat (map nd_ptr ns)"

definition contents :: "bytearray \<Rightarrow> cell list" where
  "contents ba = flat (m_root ba)"

definition node_ok :: "nat \<Rightarrow> node \<Rightarrow> bool" where
  "node_ok b nd \<longleftrightarrow> nd_size nd = b \<and> length (nd_ptr nd) = b"

definition nodes_ok :: "nat \<Rightarrow> node list \<Rightarrow> bool" where
  "nodes_ok b ns \<longleftrightarrow> list_all (node_ok b) ns"

definition cursor :: "nat \<Rightarrow> nat \<Rightarrow> nat \<Rightarrow> nat option" where
  "cursor b n pos = (if pos < n * b then Some (pos div b) else None)"

definition ba_inv :: "bytearray \<Rightarrow> bool" where
  "ba_inv ba \<longleftrightarrow>
     0 < m_baseSize ba \<and> m_root ba \<noteq> [] \<and> nodes_ok (m_baseSize ba) (m_root ba)
     \<and> m_capacity ba = length (m_root ba) * m_baseSize ba
     \<and> m_position ba \<le> m_size ba \<and> m_size ba \<le> m_capacity ba
     \<and> m_cur ba = cursor (m_baseSize ba) (length (m_root ba)) (m_position ba)"

definition overlay :: "'a list \<Rightarrow> nat \<Rightarrow> 'a list \<Rightarrow> 'a list" where
  "overlay xs p ys = take p xs @ ys @ drop (p + length ys) xs"

text \<open>The part a reader sees: the cells from the position to the size.\<close>

definition readable :: "bytearray \<Rightarrow> cell list" where
  "readable ba = take (getReadSize ba) (drop (m_position ba) (contents ba))"

text \<open>When \<open>addCapacity\<close> provides enough room for a write of \<open>n\<close> bytes: the rounding term of its
  node count compares the remainder with the old free capacity instead of with 0.\<close>

definition room_for :: "bytearray \<Rightarrow> nat \<Rightarrow> bool" where
  "room_for ba n \<longleftrightarrow>
     n \<le> getCapacity ba
     \<or> (n - getCapacity ba) mod m_baseSize ba = 0
     \<or> (n - getCapacity ba) mod m_baseSize ba > getCapacity ba"

section \<open>Lists\<close>

lemma length_overlay [simp]: "p + length ys \<le> length xs \<Longrightarrow> length (overlay xs p ys) = length xs"
  by (simp add: overlay_def)

lemma overlay_Nil [simp]: "overlay xs p [] = xs"
  by (simp add: overlay_def)

lemma overlay_append_right:
  "length xs = n \<Longrightarrow> overlay (xs @ zs) (n + p) ys = xs @ overlay zs p ys"
  by (simp add: overlay_def)

lemma overlay_append_left:
  "p + length ys \<le> length xs \<Longrightarrow> overlay (xs @ zs) p ys = overlay xs p ys @ zs"
  by (simp add: overlay_def)

lemma overlay_overlay:
  assumes "p + length ys + length zs \<le> length xs"
  shows "overlay (overlay xs p ys) (p + length ys) zs = overlay xs p (ys @ zs)"
  using assms by (simp add: overlay_def ac_simps)

lemma take_drop_overlay:
  assumes "p + length ys \<le> length xs"
  shows "take (length ys) (drop p (overlay xs p ys)) = ys"
  using assms by (simp add: overlay_def)

lemma drop_overlay_prefix:
  assumes "p + length ys \<le> length xs"
  shows "drop p (overlay xs p ys) = ys @ drop (p + length ys) xs"
  using assms by (simp add: overlay_def)

section \<open>Chains of nodes\<close>

lemma nodes_ok_simps [simp]:
  "nodes_ok b []"
  "nodes_ok b (nd # ns) \<longleftrightarrow> node_ok b nd \<and> nodes_ok b ns"
  "nodes_ok b (ns @ ms) \<longleftrightarrow> nodes_ok b ns \<and> nodes_ok b ms"
  by (auto simp: nodes_ok_def)

lemma nodes_ok_nth: "nodes_ok b ns \<Longrightarrow> i < length ns \<Longrightarrow> node_ok b (ns ! i)"
  by (simp add: nodes_ok_def list_all_length)

lemma nodes_ok_update: "nodes_ok b ns \<Longrightarrow> node_ok b nd \<Longrightarrow> nodes_ok b (ns[i := nd])"
  unfolding nodes_ok_def list_all_iff by (auto dest!: set_update_subset_insert [THEN subsetD])

lemma node_ok_Node [simp]: "node_ok b (Node b)"
  by (simp add: node_ok_def Node_def)

lemma nodes_ok_replicate [simp]: "nodes_ok b (replicate n (Node b))"
  by (induction n) auto

lemma flat_simps [simp]:
  "flat [] = []"
  "flat (nd # ns) = nd_ptr nd @ flat ns"
  "flat (ns @ ms) = flat ns @ flat ms"
  by (simp_all add: flat_def)

lemma flat_fresh: "flat (replicate n (Node b)) = replicate (n * b) None"
  by (induction n) (simp_all add: Node_def replicate_add)

lemma length_flat: "nodes_ok b ns \<Longrightarrow> length (flat ns) = length ns * b"
  by (induction ns) (auto simp: node_ok_def)

lemma flat_poke:
  assumes "nodes_ok b ns" "i < length ns" "npos + length bs \<le> b"
  shows "\<exists>nd. memcpy_to (ns ! i) npos bs = Inr nd \<and> node_ok b nd
           \<and> flat (ns[i := nd]) = overlay (flat ns) (i * b + npos) (map Some bs)"
  using assms
proof (induction ns arbitrary: i)
  case Nil
  then show ?case by simp
next
  case (Cons x ns)
  show ?case
  proof (cases i)
    case 0
    with Cons.prems show ?thesis
      by (auto simp: memcpy_to_def node_ok_def overlay_def)
  next
    case (Suc j)
    with Cons.prems Cons.IH [of j] obtain nd where nd: "memcpy_to (ns ! j) npos bs = Inr nd"
      "node_ok b nd" "flat (ns[j := nd]) = overlay (flat ns) (j * b + npos) (map Some bs)"
      by auto
    have "length (nd_ptr x) = b" using Cons.prems by (simp add: node_ok_def)
    then have "nd_ptr x @ overlay (flat ns) (j * b + npos) (map Some bs)
        = overlay (nd_ptr x @ flat ns) (b + (j * b + npos)) (map Some bs)"
      by (simp add: overlay_append_right)
    with nd Suc show ?thesis by (auto simp: add.assoc)
  qed
qed

lemma flat_peek:
  assumes "nodes_ok b ns" "i < length ns" "npos + n \<le> b"
  shows "memcpy_from (ns ! i) npos n = Inr (take n (drop (i * b + npos) (flat ns)))"
  using assms
proof (induction ns arbitrary: i)
  case Nil
  then show ?case by simp
next
  case (Cons x ns)
  then show ?case
    by (cases i) (auto simp: memcpy_from_def node_ok_def add.assoc)
qed

lemma next_node_cursor:
  assumes "0 < b" "i < length ns"
  shows "next_node ns i = cursor b (length ns) (Suc i * b)"
proof -
  have "Suc i * b < length ns * b \<longleftrightarrow> Suc i < length ns"
    using assms by (simp only: mult_less_cancel2) simp
  then show ?thesis using assms by (simp add: next_node_def cursor_def)
qed

lemma cursor_within:
  assumes "0 < b" "i < n" "k < b"
  shows "cursor b n (i * b + k) = Some i"
proof -
  have "Suc i * b \<le> n * b" using assms by (intro mult_le_mono1) simp
  then have "i * b + k < n * b" using assms by simp
  moreover have "(i * b + k) div b = i" using assms by simp
  ultimately show ?thesis by (simp add: cursor_def)
qed

lemma cursor_after:
  assumes "0 < b" "i < length ns" "npos + n \<le> b"
  shows "(if b = npos + n then next_node ns i else Some i) = cursor b (length ns) (i * b + npos + n)"
proof (cases "b = npos + n")
  case True
  then have eq: "i * b + npos + n = Suc i * b" by simp
  show ?thesis unfolding eq next_node_cursor [OF assms(1,2), symmetric] using True by simp
next
  case False
  then show ?thesis using cursor_within [OF assms(1,2), of "npos + n"] assms(3)
    by (simp add: add.assoc)
qed

lemma next_node_SomeD: "next_node ns i = Some j \<Longrightarrow> j = Suc i \<and> Suc i < length ns"
  by (auto simp: next_node_def split: if_splits)

lemma next_node_NoneD: "next_node ns i = None \<Longrightarrow> i < length ns \<Longrightarrow> Suc i = length ns"
  by (auto simp: next_node_def split: if_splits)

section \<open>The loops\<close>

lemma write_loop_ok:
  assumes "0 < b" "nodes_ok b ns" "i < length ns" "npos \<le> b" "ncap = b - npos"
    and "i * b + npos + length bs \<le> length ns * b" "bs \<noteq> []"
  shows "\<exists>ns'. write_loop ns i npos ncap pos bs
             = Inr (ns', cursor b (length ns) (i * b + npos + length bs), pos + length bs)
           \<and> nodes_ok b ns' \<and> length ns' = length ns
           \<and> flat ns' = overlay (flat ns) (i * b + npos) (map Some bs)"
  using assms
proof (induction ns i npos ncap pos bs rule: write_loop.induct)
  case (1 ns i npos ncap pos bs)
  have sz: "nd_size (ns ! i) = b" using nodes_ok_nth [OF 1(3,4)] by (simp add: node_ok_def)
  show ?case
  proof (cases "ncap \<ge> length bs")
    case True
    then have fit: "npos + length bs \<le> b" using "1.prems" by simp
    obtain nd where nd: "memcpy_to (ns ! i) npos bs = Inr nd" "node_ok b nd"
      "flat (ns[i := nd]) = overlay (flat ns) (i * b + npos) (map Some bs)"
      using flat_poke [OF "1.prems"(2,3) fit] by blast
    have "write_loop ns i npos ncap pos bs =
      Inr (ns[i := nd], if b = npos + length bs then next_node ns i else Some i, pos + length bs)"
      using True nd(1) sz "1.prems"(7) by (subst write_loop.simps) simp
    then show ?thesis
      using cursor_after [OF "1.prems"(1,3) fit] nd nodes_ok_update [OF "1.prems"(2) nd(2)] by simp
  next
    case False
    then have fit: "npos + length (take ncap bs) \<le> b" and len: "length (take ncap bs) = ncap"
      using "1.prems" by auto
    obtain nd where nd: "memcpy_to (ns ! i) npos (take ncap bs) = Inr nd" "node_ok b nd"
      "flat (ns[i := nd]) = overlay (flat ns) (i * b + npos) (map Some (take ncap bs))"
      using flat_poke [OF "1.prems"(2,3) fit] by blast
    have room: "Suc i * b + length (drop ncap bs) \<le> length ns * b"
      using "1.prems" False by simp
    have "0 < length (drop ncap bs)" using False by simp
    then have "Suc i * b < length ns * b" using room by linarith
    then have j: "Suc i < length ns" by (simp only: mult_less_cancel2)
    then have nx: "next_node ns i = Some (Suc i)" by (simp add: next_node_def)
    have szj: "nd_size (ns ! Suc i) = b" using nodes_ok_nth [OF "1.prems"(2) j] by (simp add: node_ok_def)
    have ok': "nodes_ok b (ns[i := nd])" by (rule nodes_ok_update [OF "1.prems"(2) nd(2)])
    have "\<exists>ns'. write_loop (ns[i := nd]) (Suc i) 0 b (pos + ncap) (drop ncap bs)
         = Inr (ns', cursor b (length (ns[i := nd])) (Suc i * b + 0 + length (drop ncap bs)),
                pos + ncap + length (drop ncap bs))
       \<and> nodes_ok b ns' \<and> length ns' = length (ns[i := nd])
       \<and> flat ns' = overlay (flat (ns[i := nd])) (Suc i * b + 0) (map Some (drop ncap bs))"
      using "1.IH" [OF "1.prems"(7) False nd(1) nx] "1.prems"(1) ok' j room False szj by simp
    then obtain ns' where ns': "write_loop (ns[i := nd]) (Suc i) 0 b (pos + ncap) (drop ncap bs)
         = Inr (ns', cursor b (length ns) (Suc i * b + length (drop ncap bs)), pos + length bs)"
      "nodes_ok b ns'" "length ns' = length ns"
      "flat ns' = overlay (flat (ns[i := nd])) (Suc i * b) (map Some (drop ncap bs))"
      using False by auto
    have eqw: "write_loop ns i npos ncap pos bs
        = write_loop (ns[i := nd]) (Suc i) 0 b (pos + ncap) (drop ncap bs)"
      using False nd(1) nx szj "1.prems"(7) by (subst write_loop.simps) simp
    have eqp: "Suc i * b + length (drop ncap bs) = i * b + npos + length bs"
      using False "1.prems" by simp
    have fl: "flat ns' = overlay (flat ns) (i * b + npos) (map Some bs)"
    proof -
      have p: "Suc i * b = i * b + npos + length (map Some (take ncap bs))"
        using len "1.prems" by simp
      have "flat ns' = overlay (overlay (flat ns) (i * b + npos) (map Some (take ncap bs)))
          (i * b + npos + length (map Some (take ncap bs))) (map Some (drop ncap bs))"
        by (simp only: ns'(4) nd(3) p)
      also have "\<dots> = overlay (flat ns) (i * b + npos) (map Some (take ncap bs) @ map Some (drop ncap bs))"
        using "1.prems" by (intro overlay_overlay) (simp add: length_flat)
      finally show ?thesis by (simp flip: map_append)
    qed
    show ?thesis using eqw ns'(1) [unfolded eqp] ns'(2,3) fl by (intro exI [of _ ns']) simp
  qed
qed

lemma write_loop_null:
  assumes "0 < b" "nodes_ok b ns" "i < length ns" "npos \<le> b" "ncap = b - npos"
    and "i * b + npos + length bs > length ns * b"
  shows "write_loop ns i npos ncap pos bs = Inl NullDeref"
  using assms
proof (induction ns i npos ncap pos bs rule: write_loop.induct)
  case (1 ns i npos ncap pos bs)
  have "Suc i * b \<le> length ns * b" using "1.prems"(3) by (intro mult_le_mono1) simp
  then have ne: "bs \<noteq> []" and big: "\<not> ncap \<ge> length bs" using "1.prems" by auto
  then have fit: "npos + length (take ncap bs) \<le> b" using "1.prems" by auto
  obtain nd where nd: "memcpy_to (ns ! i) npos (take ncap bs) = Inr nd" "node_ok b nd"
    using flat_poke [OF "1.prems"(2,3) fit] by blast
  show ?case
  proof (cases "next_node ns i")
    case None
    then show ?thesis using ne big nd(1) by (subst write_loop.simps) simp
  next
    case (Some j)
    then have j: "j = Suc i" "Suc i < length ns" by (auto dest: next_node_SomeD)
    have szj: "nd_size (ns ! j) = b" using nodes_ok_nth [OF "1.prems"(2)] j by (simp add: node_ok_def)
    have "write_loop (ns[i := nd]) j 0 (nd_size (ns ! j)) (pos + ncap) (drop ncap bs) = Inl NullDeref"
      using "1.IH" [OF ne big nd(1) Some] "1.prems" nodes_ok_update [OF "1.prems"(2) nd(2)] j szj big
      by simp
    then show ?thesis using ne big nd(1) Some by (subst write_loop.simps) simp
  qed
qed

lemma node_boundary:
  assumes "i < length ns" "npos \<le> b" "\<not> b - npos \<ge> n" "i * b + npos + n \<le> length ns * b"
  shows "Suc i < length ns" and "Suc i * b + (n - (b - npos)) = i * b + npos + n"
proof -
  have s: "Suc i * b = i * b + b" by simp
  show eq: "Suc i * b + (n - (b - npos)) = i * b + npos + n"
    unfolding s using assms(2,3) by linarith
  have "0 < n - (b - npos)" using assms by simp
  then have "Suc i * b < Suc i * b + (n - (b - npos))" by (simp only: less_add_same_cancel1)
  also have "\<dots> \<le> length ns * b" unfolding eq by (rule assms(4))
  finally show "Suc i < length ns" by (simp only: mult_less_cancel2)
qed

lemma read_loop_ok:
  assumes "0 < b" "nodes_ok b ns" "i < length ns" "npos \<le> b" "ncap = b - npos"
    and "i * b + npos + n \<le> length ns * b"
  shows "read_loop ns i npos ncap pos n
       = Inr (take n (drop (i * b + npos) (flat ns)),
              (if n = 0 then Some i else cursor b (length ns) (i * b + npos + n)), pos + n)"
  using assms
proof (induction ns i npos ncap pos n rule: read_loop.induct)
  case (1 ns i npos ncap pos n)
  have sz: "nd_size (ns ! i) = b" using nodes_ok_nth [OF "1.prems"(2,3)] by (simp add: node_ok_def)
  consider "n = 0" | "n \<noteq> 0" "ncap \<ge> n" | "n \<noteq> 0" "\<not> ncap \<ge> n" by blast
  then show ?case
  proof cases
    case 1
    then show ?thesis by (subst read_loop.simps) simp
  next
    case 2
    then have fit: "npos + n \<le> b" using "1.prems" by simp
    show ?thesis
      using 2 sz flat_peek [OF "1.prems"(2,3) fit] cursor_after [OF "1.prems"(1,3) fit]
      by (subst read_loop.simps) simp
  next
    case 3
    have fit: "npos + ncap \<le> b" using "1.prems" by simp
    note nb = node_boundary [OF "1.prems"(3,4) 3(2) [unfolded "1.prems"(5)] "1.prems"(6)]
    then have nx: "next_node ns i = Some (Suc i)" by (simp add: next_node_def)
    have szj: "nd_size (ns ! Suc i) = b"
      using nodes_ok_nth [OF "1.prems"(2) nb(1)] by (simp add: node_ok_def)
    note pk = flat_peek [OF "1.prems"(2,3) fit]
    have nb2: "Suc i * b + (n - ncap) = i * b + npos + n"
      using nb(2) "1.prems"(5) by (simp only:)
    have "read_loop ns (Suc i) 0 (nd_size (ns ! Suc i)) (pos + ncap) (n - ncap)
        = Inr (take (n - ncap) (drop (Suc i * b + 0) (flat ns)),
               (if n - ncap = 0 then Some (Suc i) else cursor b (length ns) (Suc i * b + 0 + (n - ncap))),
               pos + ncap + (n - ncap))"
      by (rule "1.IH" [OF 3 pk nx])
         (use "1.prems" nb szj in \<open>simp_all only: add_0_right nb2 diff_zero zero_le\<close>)
    then have rec: "read_loop ns (Suc i) 0 b (pos + ncap) (n - ncap)
        = Inr (take (n - ncap) (drop (Suc i * b) (flat ns)),
               cursor b (length ns) (i * b + npos + n), pos + n)"
      using 3 unfolding szj add_0_right nb2 by simp
    have d: "drop (Suc i * b) (flat ns) = drop ncap (drop (i * b + npos) (flat ns))"
      using "1.prems" by (simp add: ac_simps)
    have "take ncap (drop (i * b + npos) (flat ns)) @ take (n - ncap) (drop (Suc i * b) (flat ns))
        = take n (drop (i * b + npos) (flat ns))"
      unfolding d using 3 by (metis le_add_diff_inverse nat_le_linear take_add)
    then show ?thesis using 3 pk nx szj rec by (subst read_loop.simps) simp
  qed
qed

lemma setpos_loop_ok:
  assumes "0 < b" "nodes_ok b ns" "i < length ns" "i * b + v \<le> length ns * b"
  shows "setpos_loop ns i v = Inr (cursor b (length ns) (i * b + v))"
  using assms
proof (induction ns i v rule: setpos_loop.induct)
  case (1 ns i v)
  have sz: "nd_size (ns ! i) = b" using nodes_ok_nth [OF "1.prems"(2,3)] by (simp add: node_ok_def)
  show ?case
  proof (cases "v > b")
    case True
    have nb: "Suc i < length ns" "Suc i * b + (v - b) = i * b + v"
      using node_boundary [OF "1.prems"(3), of 0 b v] True "1.prems" by simp_all
    have nx: "next_node ns i = Some (Suc i)" using nb by (simp add: next_node_def)
    have "setpos_loop ns (Suc i) (v - b) = Inr (cursor b (length ns) (Suc i * b + (v - b)))"
      using "1.IH" [of "Suc i"] nx True sz "1.prems" nb by (simp add: add.assoc)
    then show ?thesis using True sz nx nb(2) by (subst setpos_loop.simps) simp
  next
    case False
    then show ?thesis using sz cursor_after [OF "1.prems"(1,3), of 0 v]
      by (subst setpos_loop.simps) (auto split: if_splits)
  qed
qed

section \<open>Operations\<close>

lemma ba_invD:
  assumes "ba_inv ba"
  shows "0 < m_baseSize ba" "m_root ba \<noteq> []" "nodes_ok (m_baseSize ba) (m_root ba)"
    "m_capacity ba = length (m_root ba) * m_baseSize ba"
    "m_position ba \<le> m_size ba" "m_size ba \<le> m_capacity ba"
    "m_cur ba = cursor (m_baseSize ba) (length (m_root ba)) (m_position ba)"
    "length (contents ba) = m_capacity ba"
  using assms by (auto simp: ba_inv_def contents_def length_flat)

lemma ByteArray_inv [inv_intros]: "0 < b \<Longrightarrow> ba_inv (ByteArray b)"
  by (simp add: ba_inv_def ByteArray_def cursor_def)

lemma ByteArray_fields [simp]:
  "m_baseSize (ByteArray b) = b" "m_position (ByteArray b) = 0" "m_size (ByteArray b) = 0"
  "m_capacity (ByteArray b) = b" "getCapacity (ByteArray b) = b" "getReadSize (ByteArray b) = 0"
  by (simp_all add: ByteArray_def getCapacity_def getReadSize_def)

lemma clear_inv [inv_intros]: "ba_inv ba \<Longrightarrow> ba_inv (clear ba)"
  by (cases "m_root ba") (auto simp: ba_inv_def clear_def cursor_def)

lemma setIsLittlEndian_inv [inv_intros]: "ba_inv ba \<Longrightarrow> ba_inv (setIsLittlEndian v ba)"
  by (simp add: ba_inv_def setIsLittlEndian_def)

lemma deref_cursor:
  assumes "ba_inv ba"
  shows "deref (m_root ba) (m_cur ba) =
    (if m_position ba < m_capacity ba then Inr (m_position ba div m_baseSize ba) else Inl NullDeref)"
  using ba_invD [OF assms]
  by (simp add: deref_def cursor_def div_less_iff_less_mult)

lemma position_split:
  "m_position ba = m_position ba div m_baseSize ba * m_baseSize ba + m_position ba mod m_baseSize ba"
  by simp

lemma cursor_grow:
  assumes "0 < b" "pos < n * b"
  shows "cursor b (n + k) pos = cursor b n pos"
proof -
  have "n * b \<le> (n + k) * b" by simp
  then have "pos < (n + k) * b" using assms(2) by linarith
  then show ?thesis using assms(2) by (simp add: cursor_def)
qed

definition new_nodes :: "bytearray \<Rightarrow> nat \<Rightarrow> nat" where
  "new_nodes ba n =
     (if n \<le> getCapacity ba then 0
      else (n - getCapacity ba) div m_baseSize ba
        + (if (n - getCapacity ba) mod m_baseSize ba > getCapacity ba then 1 else 0))"

lemma room_for_new_nodes:
  assumes "0 < m_baseSize ba"
  shows "room_for ba n \<longleftrightarrow> n \<le> getCapacity ba + new_nodes ba n * m_baseSize ba"
proof (cases "n \<le> getCapacity ba")
  case True
  then show ?thesis by (simp add: room_for_def)
next
  case False
  let ?b = "m_baseSize ba" and ?c = "getCapacity ba"
  define k where "k = n - ?c"
  have n: "n = ?c + k" "0 < k" using False by (simp_all add: k_def)
  have k: "k = k div ?b * ?b + k mod ?b" by simp
  have m: "k mod ?b < ?b" using assms by simp
  have nn: "new_nodes ba n = k div ?b + (if k mod ?b > ?c then 1 else 0)"
    using n by (simp add: new_nodes_def)
  have "n \<le> ?c + new_nodes ba n * ?b \<longleftrightarrow> k \<le> new_nodes ba n * ?b"
    using n by simp
  also have "\<dots> \<longleftrightarrow> k mod ?b = 0 \<or> k mod ?b > ?c"
  proof (cases "k mod ?b > ?c")
    case True
    then have "new_nodes ba n * ?b = k div ?b * ?b + ?b" by (simp add: nn)
    then show ?thesis using True k m by linarith
  next
    case F: False
    then have "new_nodes ba n * ?b = k div ?b * ?b" by (simp add: nn)
    then show ?thesis using F k by linarith
  qed
  finally show ?thesis using False n by (simp add: room_for_def)
qed

definition grow :: "bytearray \<Rightarrow> nat \<Rightarrow> bytearray" where
  "grow ba k =
     ba\<lparr>m_root := m_root ba @ replicate k (Node (m_baseSize ba)),
        m_capacity := m_capacity ba + k * m_baseSize ba,
        m_cur := cursor (m_baseSize ba) (length (m_root ba) + k) (m_position ba)\<rparr>"

lemma grow_inv: "ba_inv ba \<Longrightarrow> ba_inv (grow ba k)"
  by (auto simp: ba_inv_def grow_def algebra_simps)

lemma grow_simps [simp]:
  "m_baseSize (grow ba k) = m_baseSize ba"
  "m_position (grow ba k) = m_position ba"
  "m_size (grow ba k) = m_size ba"
  "m_endian (grow ba k) = m_endian ba"
  "m_capacity (grow ba k) = m_capacity ba + k * m_baseSize ba"
  "contents (grow ba k) = contents ba @ replicate (k * m_baseSize ba) None"
  by (simp_all add: grow_def contents_def flat_fresh)

lemma addCapacity_eq:
  assumes "ba_inv ba"
  shows "addCapacity ba n = Inr (grow ba (new_nodes ba n))"
proof -
  note inv = ba_invD [OF assms]
  have same: "grow ba 0 = ba" using inv by (simp add: grow_def)
  show ?thesis
  proof (cases "n \<le> getCapacity ba")
    case True
    then show ?thesis by (simp add: addCapacity_def new_nodes_def same)
  next
    case False
    let ?k = "new_nodes ba n"
    have cur: "(if getCapacity ba = 0 then (if ?k = 0 then None else Some (length (m_root ba))) else m_cur ba)
        = cursor (m_baseSize ba) (length (m_root ba) + ?k) (m_position ba)"
    proof (cases "getCapacity ba = 0")
      case True
      then have pos: "m_position ba = length (m_root ba) * m_baseSize ba"
        using inv by (simp add: getCapacity_def)
      have "?k \<noteq> 0"
        using False True inv(1) by (auto simp: new_nodes_def div_eq_0_iff)
      then show ?thesis using True pos inv(1) cursor_within [of "m_baseSize ba" "length (m_root ba)"
            "length (m_root ba) + ?k" 0] by simp
    next
      case F: False
      then have "m_position ba < length (m_root ba) * m_baseSize ba"
        using inv by (simp add: getCapacity_def)
      then show ?thesis using F inv cursor_grow by simp
    qed
    have "addCapacity ba n = Inr (ba\<lparr>m_root := m_root ba @ replicate ?k (Node (m_baseSize ba)),
        m_capacity := m_capacity ba + ?k * m_baseSize ba,
        m_cur := (if getCapacity ba = 0 then (if ?k = 0 then None else Some (length (m_root ba))) else m_cur ba)\<rparr>)"
      using False inv(1) unfolding addCapacity_def Let_def new_nodes_def by simp
    then show ?thesis by (simp only: cur grow_def)
  qed
qed

end
