(* ===== verification/ByteArray_Ops.thy ===== *)
theory ByteArray_Ops
  imports ByteArray_Lemmas
begin

text \<open>
  What each \<open>ByteArray\<close> operation does to the abstract contents, and when it fails. \<open>written\<close> is
  the postcondition of a successful write, \<open>advance\<close> the effect of a successful read. The locale
  \<open>codec\<close> is the contract between a typed writer and the matching typed reader; its client lemmas
  (one value, a whole sequence of values) are proved once and interpreted for every pair that
  keeps the contract.
\<close>

section \<open>Writing\<close>

definition written :: "bytearray \<Rightarrow> u8 list \<Rightarrow> bytearray \<Rightarrow> bool" where
  "written ba bs ba' \<longleftrightarrow>
     ba_inv ba' \<and> m_baseSize ba' = m_baseSize ba \<and> m_endian ba' = m_endian ba
     \<and> m_position ba' = m_position ba + length bs
     \<and> m_size ba' = max (m_size ba) (m_position ba + length bs)
     \<and> m_capacity ba \<le> m_capacity ba'
     \<and> contents ba' = overlay (contents ba @ replicate (m_capacity ba' - m_capacity ba) None)
                        (m_position ba) (map Some bs)"

lemma written_refl: "ba_inv ba \<Longrightarrow> written ba [] ba"
  using ba_invD(5) [of ba] by (simp add: written_def)

lemma overlay_grown:
  assumes "p + length xs + length ys \<le> length zs + k + j" "p + length xs \<le> length zs + k"
  shows "overlay (overlay (zs @ replicate k c) p xs @ replicate j c) (p + length xs) ys
       = overlay (zs @ replicate (k + j) c) p (xs @ ys)"
proof -
  have "overlay (zs @ replicate k c) p xs @ replicate j c = overlay ((zs @ replicate k c) @ replicate j c) p xs"
    using assms(2) by (intro overlay_append_left [symmetric]) simp
  then show ?thesis using assms(1) by (simp add: overlay_overlay replicate_add)
qed

lemma written_trans:
  assumes "ba_inv ba" "written ba xs b1" "written b1 ys b2"
  shows "written ba (xs @ ys) b2"
proof -
  note w1 = assms(2) [unfolded written_def] and w2 = assms(3) [unfolded written_def]
  have len: "length (contents ba) = m_capacity ba" using ba_invD(8) [OF assms(1)] .
  have "m_position b1 \<le> m_capacity b1" "m_position b2 \<le> m_capacity b2"
    using ba_invD(5,6) w1 w2 le_trans by blast+
  then have "overlay (overlay (contents ba @ replicate (m_capacity b1 - m_capacity ba) None) (m_position ba) (map Some xs)
        @ replicate (m_capacity b2 - m_capacity b1) None) (m_position ba + length (map Some xs)) (map Some ys)
      = overlay (contents ba @ replicate ((m_capacity b1 - m_capacity ba) + (m_capacity b2 - m_capacity b1)) None)
          (m_position ba) (map Some xs @ map Some ys)"
    using w1 w2 len by (intro overlay_grown) auto
  then show ?thesis using w1 w2 by (auto simp: written_def)
qed

lemma ba_write_ok:
  assumes "ba_inv ba" "room_for ba (length bs)"
  shows "\<exists>ba'. ba_write ba bs = Inr ba' \<and> written ba bs ba'"
proof (cases "bs = []")
  case True
  then show ?thesis using written_refl [OF assms(1)] by (simp add: ba_write_def)
next
  case False
  define g where "g = grow ba (new_nodes ba (length bs))"
  have g: "ba_inv g" unfolding g_def by (rule grow_inv [OF assms(1)])
  note gD = ba_invD [OF g]
  let ?b = "m_baseSize g" and ?p = "m_position g"
  have "length bs \<le> getCapacity ba + new_nodes ba (length bs) * m_baseSize ba"
    using room_for_new_nodes [OF ba_invD(1) [OF assms(1)], of "length bs"] assms(2) by blast
  then have room: "?p + length bs \<le> m_capacity g"
    using ba_invD(5,6) [OF assms(1)] by (simp add: g_def getCapacity_def)
  then have lt: "?p < m_capacity g" using False by (cases bs) auto
  then have i: "?p div ?b < length (m_root g)"
    using gD by (simp add: div_less_iff_less_mult)
  have sz: "nd_size (m_root g ! (?p div ?b)) = ?b"
    using nodes_ok_nth [OF gD(3) i] by (simp add: node_ok_def)
  obtain ns where ns: "write_loop (m_root g) (?p div ?b) (?p mod ?b) (?b - ?p mod ?b) ?p bs
        = Inr (ns, cursor ?b (length (m_root g)) (?p + length bs), ?p + length bs)"
      "nodes_ok ?b ns" "length ns = length (m_root g)"
      "flat ns = overlay (flat (m_root g)) ?p (map Some bs)"
    using write_loop_ok [OF gD(1,3) i, of "?p mod ?b" "?b - ?p mod ?b" bs ?p] room gD(1,4) False
    by auto
  let ?r = "g\<lparr>m_root := ns, m_cur := cursor ?b (length (m_root g)) (?p + length bs),
              m_position := ?p + length bs, m_size := max (m_size g) (?p + length bs)\<rparr>"
  have "ba_write ba bs = Inr ?r"
    using False addCapacity_eq [OF assms(1)] gD(1) lt deref_cursor [OF g] sz ns(1)
    by (simp add: ba_write_def max_def flip: g_def)
  moreover have "ba_inv ?r" using gD ns room by (auto simp: ba_inv_def)
  moreover have "contents ?r = overlay (contents g) ?p (map Some bs)"
    by (simp add: contents_def ns(4))
  then have "contents ?r = overlay (contents ba @ replicate (m_capacity ?r - m_capacity ba) None)
      (m_position ba) (map Some bs)"
    by (simp add: g_def)
  ultimately have "ba_write ba bs = Inr ?r \<and> written ba bs ?r"
    by (simp add: written_def) (simp add: g_def)
  then show ?thesis by blast
qed

lemma ba_write_null:
  assumes "ba_inv ba" "\<not> room_for ba (length bs)"
  shows "ba_write ba bs = Inl NullDeref"
proof -
  define g where "g = grow ba (new_nodes ba (length bs))"
  have g: "ba_inv g" unfolding g_def by (rule grow_inv [OF assms(1)])
  note gD = ba_invD [OF g]
  let ?b = "m_baseSize g" and ?p = "m_position g"
  have ne: "bs \<noteq> []" using assms(2) by (auto simp: room_for_def)
  have "length bs > getCapacity ba + new_nodes ba (length bs) * m_baseSize ba"
    using room_for_new_nodes [OF ba_invD(1) [OF assms(1)], of "length bs"] assms(2) by simp
  then have room: "?p + length bs > m_capacity g"
    using ba_invD(5,6) [OF assms(1)] by (simp add: g_def getCapacity_def)
  show ?thesis
  proof (cases "?p < m_capacity g")
    case True
    then have i: "?p div ?b < length (m_root g)"
      using gD by (simp add: div_less_iff_less_mult)
    have sz: "nd_size (m_root g ! (?p div ?b)) = ?b"
      using nodes_ok_nth [OF gD(3) i] by (simp add: node_ok_def)
    have "write_loop (m_root g) (?p div ?b) (?p mod ?b) (?b - ?p mod ?b) ?p bs = Inl NullDeref"
      using write_loop_null [OF gD(1,3) i] room gD(1,4) by simp
    then show ?thesis
      using ne addCapacity_eq [OF assms(1)] gD(1) True deref_cursor [OF g] sz
      by (simp add: ba_write_def flip: g_def)
  next
    case False
    then show ?thesis
      using ne addCapacity_eq [OF assms(1)] gD(1) deref_cursor [OF g]
      by (simp add: ba_write_def flip: g_def)
  qed
qed

lemma ba_write_iff:
  assumes "ba_inv ba"
  shows "(\<exists>ba'. ba_write ba bs = Inr ba') \<longleftrightarrow> room_for ba (length bs)"
  using ba_write_ok [OF assms] ba_write_null [OF assms] by force

lemma ba_write_written:
  assumes "ba_inv ba" "ba_write ba bs = Inr ba'"
  shows "written ba bs ba'"
  using ba_write_ok [OF assms(1), of bs] ba_write_null [OF assms(1), of bs] assms(2)
  by (cases "room_for ba (length bs)") auto

lemma room_for_unit: "m_baseSize ba = 1 \<Longrightarrow> room_for ba n"
  by (simp add: room_for_def)

lemma written_inv [inv_intros]: "written ba bs ba' \<Longrightarrow> ba_inv ba'"
  by (simp add: written_def)

section \<open>Reading and moving the cursor\<close>

definition advance :: "bytearray \<Rightarrow> nat \<Rightarrow> bytearray" where
  "advance ba n =
     ba\<lparr>m_position := m_position ba + n,
        m_cur := cursor (m_baseSize ba) (length (m_root ba)) (m_position ba + n)\<rparr>"

lemma advance_simps [simp]:
  "m_baseSize (advance ba n) = m_baseSize ba"
  "m_position (advance ba n) = m_position ba + n"
  "m_size (advance ba n) = m_size ba"
  "m_capacity (advance ba n) = m_capacity ba"
  "m_endian (advance ba n) = m_endian ba"
  "contents (advance ba n) = contents ba"
  "advance (advance ba n) k = advance ba (n + k)"
  by (simp_all add: advance_def contents_def add.assoc)

lemma advance_inv [inv_intros]:
  "ba_inv ba \<Longrightarrow> n \<le> getReadSize ba \<Longrightarrow> ba_inv (advance ba n)"
  by (auto simp: ba_inv_def advance_def getReadSize_def)

lemma readable_advance [simp]: "readable (advance ba n) = drop n (readable ba)"
  by (simp add: readable_def getReadSize_def drop_take add.commute)

lemma length_readable: "ba_inv ba \<Longrightarrow> length (readable ba) = getReadSize ba"
  using ba_invD [of ba] by (simp add: readable_def getReadSize_def)

lemma ba_read_ok:
  assumes "ba_inv ba" "n \<le> getReadSize ba" "m_position ba < m_capacity ba"
  shows "ba_read ba n = Inr (take n (readable ba), advance ba n)"
proof -
  note inv = ba_invD [OF assms(1)]
  let ?b = "m_baseSize ba" and ?p = "m_position ba"
  have i: "?p div ?b < length (m_root ba)" using inv assms(3) by (simp add: div_less_iff_less_mult)
  have sz: "nd_size (m_root ba ! (?p div ?b)) = ?b"
    using nodes_ok_nth [OF inv(3) i] by (simp add: node_ok_def)
  have le: "?p + n \<le> length (m_root ba) * ?b"
    using assms(2) inv by (simp add: getReadSize_def)
  have cur: "(if n = 0 then Some (?p div ?b) else cursor ?b (length (m_root ba)) (?p + n))
      = cursor ?b (length (m_root ba)) (?p + n)"
    using assms(3) inv by (simp add: cursor_def)
  have "read_loop (m_root ba) (?p div ?b) (?p mod ?b) (?b - ?p mod ?b) ?p n
      = Inr (take n (drop ?p (contents ba)), cursor ?b (length (m_root ba)) (?p + n), ?p + n)"
    using read_loop_ok [OF inv(1,3) i, of "?p mod ?b" "?b - ?p mod ?b" n ?p] le inv(1)
    unfolding position_split [symmetric] cur contents_def by simp
  then show ?thesis
    using assms inv(1) deref_cursor [OF assms(1)] sz
    by (simp add: ba_read_def advance_def readable_def)
qed

lemma ba_read_short:
  "n > getReadSize ba \<Longrightarrow> ba_read ba n = Inl (OutOfRange ''not enough len'')"
  by (simp add: ba_read_def)

lemma ba_read_at_end:
  assumes "ba_inv ba" "m_position ba = m_capacity ba"
  shows "ba_read ba 0 = Inl NullDeref"
  using ba_invD(1) [OF assms(1)] deref_cursor [OF assms(1)] assms(2) by (simp add: ba_read_def)

lemma ba_read_iff:
  assumes "ba_inv ba"
  shows "(\<exists>r. ba_read ba n = Inr r) \<longleftrightarrow> n \<le> getReadSize ba \<and> m_position ba < m_capacity ba"
proof (cases "n \<le> getReadSize ba")
  case True
  have "m_position ba \<le> m_capacity ba" using ba_invD(5,6) [OF assms] by simp
  moreover have "ba_read ba n = Inl NullDeref" if "m_position ba = m_capacity ba"
  proof -
    have "getReadSize ba = 0" using that ba_invD(6) [OF assms] by (simp add: getReadSize_def)
    then show ?thesis using ba_read_at_end [OF assms that] True by simp
  qed
  ultimately show ?thesis using True ba_read_ok [OF assms True] by fastforce
next
  case False
  then show ?thesis by (simp add: ba_read_short)
qed

lemma ba_read_eq:
  assumes "ba_inv ba"
  shows "ba_read ba n =
    (if n > getReadSize ba then Inl (OutOfRange ''not enough len'')
     else if m_position ba = m_capacity ba then Inl NullDeref
     else Inr (take n (drop (m_position ba) (contents ba)), advance ba n))"
proof -
  note inv = ba_invD [OF assms]
  consider "n > getReadSize ba" | "n \<le> getReadSize ba" "m_position ba = m_capacity ba"
    | "n \<le> getReadSize ba" "m_position ba < m_capacity ba"
    using inv(5,6) by linarith
  then show ?thesis
  proof cases
    case 1
    then show ?thesis by (simp add: ba_read_short)
  next
    case 2
    then have "n = 0" using inv(6) by (simp add: getReadSize_def)
    then show ?thesis using 2 ba_read_at_end [OF assms] by simp
  next
    case 3
    then show ?thesis using ba_read_ok [OF assms 3] by (simp add: readable_def min_def)
  qed
qed

lemma setPosition_ok:
  assumes "ba_inv ba" "v \<le> m_capacity ba"
  shows "setPosition ba v = Inr (ba\<lparr>m_position := v, m_size := max (m_size ba) v,
           m_cur := cursor (m_baseSize ba) (length (m_root ba)) v\<rparr>)"
proof -
  note inv = ba_invD [OF assms(1)]
  have i: "0 < length (m_root ba)" using inv(2) by simp
  have "setpos_loop (m_root ba) 0 v = Inr (cursor (m_baseSize ba) (length (m_root ba)) v)"
    using setpos_loop_ok [OF inv(1,3) i, of v] assms(2) inv(4) by simp
  then show ?thesis using assms(2) i by (simp add: setPosition_def deref_def max_def)
qed

lemma setPosition_inv [inv_intros]:
  assumes "ba_inv ba" "setPosition ba v = Inr ba'"
  shows "ba_inv ba'"
proof -
  have "v \<le> m_capacity ba" using assms(2) by (simp add: setPosition_def split: if_splits)
  then show ?thesis using assms setPosition_ok [OF assms(1)] by (auto simp: ba_inv_def)
qed

lemma rewind_ex:
  assumes "ba_inv ba" "written ba bs b1"
  shows "\<exists>b2. setPosition b1 (m_position ba) = Inr b2"
proof -
  have "m_position ba \<le> m_capacity b1"
    using assms ba_invD(5,6) [OF assms(1)] by (simp add: written_def)
  then show ?thesis using setPosition_ok written_inv [OF assms(2)] by blast
qed

lemma written_back:
  assumes "ba_inv ba" "written ba bs b1" "setPosition b1 (m_position ba) = Inr b2"
  shows "ba_inv b2" "m_endian b2 = m_endian ba" "advance b2 (length bs) = b1"
    "prefix (map Some bs) (readable b2)" "m_position b2 = m_position ba"
proof -
  note w = assms(2) [unfolded written_def]
  note inv = ba_invD [OF assms(1)] and inv1 = ba_invD [of b1]
  have le: "m_position ba \<le> m_capacity b1" using w inv by linarith
  have b2: "b2 = b1\<lparr>m_position := m_position ba, m_size := max (m_size b1) (m_position ba),
      m_cur := cursor (m_baseSize b1) (length (m_root b1)) (m_position ba)\<rparr>"
    using setPosition_ok [OF _ le] w assms(3) by simp
  show "ba_inv b2" by (rule setPosition_inv [OF _ assms(3)]) (use w in simp)
  show "m_endian b2 = m_endian ba" "m_position b2 = m_position ba" using w b2 by simp_all
  show "advance b2 (length bs) = b1"
    using w inv(5) inv1(7) by (simp add: b2 advance_def max_def)
  have c: "contents b2 = contents b1" by (simp add: b2 contents_def)
  have le': "m_position ba + length (map Some bs)
      \<le> length (contents ba @ replicate (m_capacity b1 - m_capacity ba) None)"
    using w inv inv1(5,6) by simp
  have "drop (m_position ba) (contents b1) = map Some bs @ drop (m_position ba + length bs)
      (contents ba @ replicate (m_capacity b1 - m_capacity ba) None)"
    using w drop_overlay_prefix [OF le'] by simp
  moreover have "length bs \<le> getReadSize b2"
    using w by (simp add: b2 getReadSize_def)
  ultimately show "prefix (map Some bs) (readable b2)"
    unfolding readable_def c using b2 by simp
qed

lemma read_bytes_prefix:
  assumes "ba_inv ba" "prefix (map Some bs) (readable ba)" "bs \<noteq> []"
  shows "read_bytes ba (length bs) = Inr (bs, advance ba (length bs))"
proof -
  have n: "length bs \<le> getReadSize ba"
    using prefix_length_le [OF assms(2)] length_readable [OF assms(1)] by simp
  have lt: "m_position ba < m_capacity ba"
  proof -
    have "0 < getReadSize ba" using n assms(3) by (cases bs) auto
    then show ?thesis using ba_invD(6) [OF assms(1)] by (simp add: getReadSize_def)
  qed
  have "take (length bs) (readable ba) = map Some bs"
    using assms(2) by (auto simp: prefix_def)
  then show ?thesis
    using ba_read_ok [OF assms(1) n lt] by (auto simp: read_bytes_def initialised_def comp_def)
qed

end
