(* ===== verification/ByteArray_Codec.thy ===== *)
theory ByteArray_Codec
  imports ByteArray_Ops
begin

text \<open>
  Typed writers and readers of \<open>ByteArray\<close>. The locales \<open>writer\<close> and \<open>codec\<close> state what a writer and the
  matching reader owe each other: the writer appends an encoding that may depend on the byte order
  of the array, the reader recognises that encoding at the cursor and moves behind it. Its client
  lemmas are the round trips: one value, and a whole sequence of values written one after the
  other and read back from the start, as \<open>tests/test_bytearray.cpp\<close> does.
\<close>

section \<open>The contract\<close>

primrec write_all :: "(bytearray \<Rightarrow> 'a \<Rightarrow> bytearray result) \<Rightarrow> bytearray \<Rightarrow> 'a list \<Rightarrow> bytearray result"
where
  "write_all wr ba [] = Inr ba"
| "write_all wr ba (v # vs) = bindR (wr ba v) (\<lambda>ba'. write_all wr ba' vs)"

primrec read_all ::
  "(bytearray \<Rightarrow> ('b \<times> bytearray) result) \<Rightarrow> nat \<Rightarrow> bytearray \<Rightarrow> ('b list \<times> bytearray) result"
where
  "read_all rd 0 ba = Inr ([], ba)"
| "read_all rd (Suc n) ba =
     bindR (rd ba) (\<lambda>(v, ba'). bindR (read_all rd n ba') (\<lambda>(vs, ba''). Inr (v # vs, ba'')))"

locale writer =
  fixes wr :: "bytearray \<Rightarrow> 'a \<Rightarrow> bytearray result"
    and enc :: "u8 \<Rightarrow> 'a \<Rightarrow> u8 list"
    and ok :: "'a \<Rightarrow> bool"
  assumes wr_written: "ba_inv ba \<Longrightarrow> ok v \<Longrightarrow> wr ba v = Inr ba' \<Longrightarrow> written ba (enc (m_endian ba) v) ba'"
begin

lemma write_all_written:
  assumes "ba_inv ba" "list_all ok vs" "write_all wr ba vs = Inr b1"
  shows "written ba (concat (map (enc (m_endian ba)) vs)) b1"
  using assms
proof (induction vs arbitrary: ba)
  case Nil
  then show ?case by (simp add: written_refl)
next
  case (Cons v vs)
  then obtain b where b: "wr ba v = Inr b" "write_all wr b vs = Inr b1"
    by (auto simp: result_iff)
  have w: "written ba (enc (m_endian ba) v) b" using wr_written Cons.prems b(1) by simp
  then have "ba_inv b" "m_endian b = m_endian ba" by (simp_all add: written_def)
  then have "written b (concat (map (enc (m_endian ba)) vs)) b1"
    using Cons.IH [of b] Cons.prems b(2) by simp
  then show ?case using written_trans [OF Cons.prems(1) w] by simp
qed

end

locale codec = writer wr enc ok
  for wr :: "bytearray \<Rightarrow> 'a \<Rightarrow> bytearray result"
    and rd :: "bytearray \<Rightarrow> ('b \<times> bytearray) result"
    and enc :: "u8 \<Rightarrow> 'a \<Rightarrow> u8 list"
    and dec :: "'a \<Rightarrow> 'b"
    and ok :: "'a \<Rightarrow> bool" +
  assumes rd_prefix: "ba_inv ba \<Longrightarrow> ok v \<Longrightarrow> prefix (map Some (enc (m_endian ba) v)) (readable ba)
      \<Longrightarrow> rd ba = Inr (dec v, advance ba (length (enc (m_endian ba) v)))"
begin

lemma roundtrip:
  assumes "ba_inv ba" "ok v" "wr ba v = Inr b1" "setPosition b1 (m_position ba) = Inr b2"
  shows "rd b2 = Inr (dec v, b1)"
proof -
  note bk = written_back [OF assms(1) wr_written [OF assms(1-3)] assms(4)]
  show ?thesis using rd_prefix [OF bk(1) assms(2)] bk by simp
qed

lemma read_all_prefix:
  assumes "ba_inv ba" "list_all ok vs"
    and "prefix (map Some (concat (map (enc (m_endian ba)) vs))) (readable ba)"
  shows "read_all rd (length vs) ba
       = Inr (map dec vs, advance ba (length (concat (map (enc (m_endian ba)) vs))))"
  using assms
proof (induction vs arbitrary: ba)
  case Nil
  have "advance ba 0 = ba" using ba_invD(7) [OF Nil(1)] by (simp add: advance_def)
  then show ?case by simp
next
  case (Cons v vs)
  let ?e = "enc (m_endian ba) v"
  have pre: "prefix (map Some ?e) (readable ba)"
    using Cons.prems(3) by (auto simp: prefix_def)
  have rd: "rd ba = Inr (dec v, advance ba (length ?e))"
    using rd_prefix [OF Cons.prems(1) _ pre] Cons.prems(2) by simp
  have n: "length ?e \<le> getReadSize ba"
    using prefix_length_le [OF pre] length_readable [OF Cons.prems(1)] by simp
  have "prefix (map Some (concat (map (enc (m_endian ba)) vs))) (readable (advance ba (length ?e)))"
    using Cons.prems(3) by (auto simp: prefix_def)
  then have "read_all rd (length vs) (advance ba (length ?e))
      = Inr (map dec vs, advance (advance ba (length ?e)) (length (concat (map (enc (m_endian ba)) vs))))"
    using Cons.IH [of "advance ba (length ?e)"] Cons.prems advance_inv [OF Cons.prems(1) n] by simp
  then show ?case using rd by simp
qed

lemma sequence_roundtrip:
  assumes "ba_inv ba" "list_all ok vs" "write_all wr ba vs = Inr b1"
    and "setPosition b1 (m_position ba) = Inr b2"
  shows "read_all rd (length vs) b2 = Inr (map dec vs, b1)"
proof -
  note bk = written_back [OF assms(1) write_all_written [OF assms(1-3)] assms(4)]
  show ?thesis using read_all_prefix [OF bk(1) assms(2)] bk by simp
qed

end

text \<open>An array of base size 1 always has room, so writers that are a single \<open>write\<close> always return.\<close>

lemma write_all_unit:
  assumes "\<And>ba v. \<exists>bs. wr ba v = ba_write ba bs" "ba_inv ba" "m_baseSize ba = 1"
  shows "\<exists>b1. write_all wr ba vs = Inr b1"
  using assms(2,3)
proof (induction vs arbitrary: ba)
  case (Cons v vs)
  obtain bs where bs: "wr ba v = ba_write ba bs" using assms(1) by blast
  obtain b where b: "ba_write ba bs = Inr b" "written ba bs b"
    using ba_write_ok [OF Cons.prems(1)] room_for_unit Cons.prems(2) by blast
  then show ?case using Cons bs by (simp add: written_def)
qed simp

section \<open>Fixed-width integers\<close>

definition word_enc :: "u8 \<Rightarrow> 'a::len word \<Rightarrow> u8 list" where
  "word_enc e v = (if e = MYHTTP_BYTE_ORDER then le_bytes (wsize v) v else rev (le_bytes (wsize v) v))"

lemma write_word_eq: "write_word ba v = ba_write ba (word_enc (m_endian ba) v)"
proof -
  have "wsize (byteswap v) = wsize v" by (simp add: wsize_def)
  then show ?thesis by (auto simp: write_word_def word_enc_def le_bytes_byteswap)
qed

lemma word_codec:
  assumes "8 * (LENGTH('a::len) div 8) = LENGTH('a)"
  shows "codec write_word read_word word_enc (\<lambda>v :: 'a word. v) (\<lambda>_. True)"
proof
  fix ba ba' and v :: "'a word"
  assume "ba_inv ba" "write_word ba v = Inr ba'"
  then show "written ba (word_enc (m_endian ba) v) ba'"
    unfolding write_word_eq by (rule ba_write_written)
next
  fix ba and v :: "'a word"
  assume inv: "ba_inv ba" and pre: "prefix (map Some (word_enc (m_endian ba) v)) (readable ba)"
  let ?e = "word_enc (m_endian ba) v"
  have pos: "0 < LENGTH('a) div 8" using assms by (metis len_gt_0 mult_0_right neq0_conv)
  have len: "length ?e = LENGTH('a) div 8" by (simp add: word_enc_def wsize_def)
  have ne: "?e \<noteq> []" using len pos by (metis length_0_conv less_numeral_extra(3))
  have bk: "from_le (le_bytes (wsize v) v) = v"
    using assms by (intro from_le_le_bytes) (simp add: wsize_def)
  have "byteswap (from_le (rev (le_bytes (wsize v) v)) :: 'a word) = v"
    using byteswap_byteswap [OF assms, of v] by (simp add: byteswap_def)
  then have dec: "(if m_endian ba = MYHTTP_BYTE_ORDER then from_le ?e else byteswap (from_le ?e)) = v"
    using bk by (simp add: word_enc_def)
  show "read_word ba = Inr (v, advance ba (length ?e))"
    using read_bytes_prefix [OF inv pre ne] dec
    by (simp add: read_word_def len del: endian_distinct)
qed

interpretation fint16: codec writeFint16 readFint16 word_enc "\<lambda>v. v" "\<lambda>_. True"
  using word_codec [where 'a = 16] by (simp add: writeFint16_def [abs_def] readFint16_def [abs_def])

interpretation fuint16: codec writeFuint16 readFuint16 word_enc "\<lambda>v. v" "\<lambda>_. True"
  using word_codec [where 'a = 16] by (simp add: writeFuint16_def [abs_def] readFuint16_def [abs_def])

interpretation fint32: codec writeFint32 readFint32 word_enc "\<lambda>v. v" "\<lambda>_. True"
  using word_codec [where 'a = 32] by (simp add: writeFint32_def [abs_def] readFint32_def [abs_def])

interpretation fuint32: codec writeFuint32 readFuint32 word_enc "\<lambda>v. v" "\<lambda>_. True"
  using word_codec [where 'a = 32] by (simp add: writeFuint32_def [abs_def] readFuint32_def [abs_def])

interpretation fint64: codec writeFint64 readFint64 word_enc "\<lambda>v. v" "\<lambda>_. True"
  using word_codec [where 'a = 64] by (simp add: writeFint64_def [abs_def] readFint64_def [abs_def])

interpretation fuint64: codec writeFuint64 readFuint64 word_enc "\<lambda>v. v" "\<lambda>_. True"
  using word_codec [where 'a = 64] by (simp add: writeFuint64_def [abs_def] readFuint64_def [abs_def])

interpretation float: codec writeFloat readFloat word_enc "\<lambda>v. v" "\<lambda>_. True"
  using fuint32.codec_axioms by (simp add: writeFloat_def [abs_def] readFloat_def [abs_def])

lemma byte_codec:
  "codec (\<lambda>ba v. ba_write ba [v]) (\<lambda>ba. bindR (read_bytes ba 1) (\<lambda>(bs, ba'). Inr (hd bs, ba')))
     (\<lambda>e v. [v]) (\<lambda>v. v) (\<lambda>_. True)"
proof
  fix ba ba' :: bytearray and v :: u8
  assume "ba_inv ba" "ba_write ba [v] = Inr ba'"
  then show "written ba [v] ba'" by (rule ba_write_written)
next
  fix ba :: bytearray and v :: u8
  assume inv: "ba_inv ba" and pre: "prefix (map Some [v]) (readable ba)"
  show "bindR (read_bytes ba 1) (\<lambda>(bs, ba'). Inr (hd bs, ba')) = Inr (v, advance ba (length [v]))"
    using read_bytes_prefix [OF inv pre] by simp
qed

interpretation fint8: codec writeFint8 readFint8 "\<lambda>e v. [v]" "\<lambda>v. v" "\<lambda>_. True"
  using byte_codec by (simp add: writeFint8_def [abs_def] readFint8_def [abs_def])

interpretation fuint8: codec writeFuint8 readFuint8 "\<lambda>e v. [v]" "\<lambda>v. v" "\<lambda>_. True"
  using byte_codec by (simp add: writeFuint8_def [abs_def] readFuint8_def [abs_def])

end
