(* ===== verification/ByteArray_Varint.thy ===== *)
theory ByteArray_Varint
  imports ByteArray_Codec
begin

text \<open>
  Variable-width integers, ZigZag and length-prefixed strings of \<open>ByteArray\<close>: seven bits per byte,
  least significant group first, the high bit marks continuation. The varint loops are shown to
  form a \<open>codec\<close> for every word length from 8 on, ZigZag to be inverted by its decoder wherever
  the encoder is defined for 32 bits (and exactly on the \<open>int32_t\<close> range for the 64-bit pair), and
  the strings with a fixed-width length to form a \<open>codec\<close> as well.
\<close>

section \<open>Varints\<close>

lemma drop_bit7_bound:
  fixes w :: "'a::len word"
  assumes "unat w < 2 ^ (n + 7)"
  shows "unat (drop_bit 7 w) < 2 ^ n"
  using assms by (simp add: unat_drop_bit_div power_add less_mult_imp_div_less)

lemma length_varint_bytes:
  fixes w :: "'a::len word"
  assumes "unat w < 2 ^ (7 * k)" "0 < k"
  shows "0 < length (varint_bytes w) \<and> length (varint_bytes w) \<le> k"
  using assms
proof (induction w arbitrary: k rule: varint_bytes.induct)
  case (1 w)
  show ?case
  proof (cases "unat w \<ge> 128")
    case True
    then have "k \<noteq> 1" using "1.prems" by auto
    then obtain j where k: "k = Suc j" "0 < j" using "1.prems"(2) by (cases k) auto
    then have "unat (drop_bit 7 w) < 2 ^ (7 * j)"
      using "1.prems"(1) by (intro drop_bit7_bound) (simp add: add.commute)
    then show ?thesis using "1.IH" [OF True _ k(2)] k True by (subst (1 2) varint_bytes.simps) simp
  next
    case False
    then show ?thesis using "1.prems"(2) by (subst (1 2) varint_bytes.simps) simp
  qed
qed

lemma varint_bytes_nonempty [simp]: "varint_bytes w \<noteq> []"
  by (subst varint_bytes.simps) simp

lemma group_bits:
  fixes w :: "'a::len word"
  shows "push_bit i (w AND 0x7F) OR push_bit (i + 7) (drop_bit 7 w) = push_bit i w"
proof (rule bit_word_eqI)
  fix k assume "k < LENGTH('a)"
  have m: "(0x7F :: 'a word) = mask 7" by (simp add: mask_eq_exp_minus_1)
  show "bit (push_bit i (w AND 0x7F) OR push_bit (i + 7) (drop_bit 7 w)) k = bit (push_bit i w) k"
  proof (cases "k - i < 7")
    case True
    then show ?thesis unfolding m by (auto simp: bit_simps)
  next
    case False
    then have "7 + (k - (i + 7)) = k - i" by simp
    then show ?thesis unfolding m using False by (auto simp: bit_simps)
  qed
qed

lemma bit_0x80:
  assumes "8 \<le> LENGTH('a::len)"
  shows "bit (0x80 :: 'a word) n \<longleftrightarrow> n = 7"
proof -
  have "(0x80 :: 'a word) = 2 ^ 7" by simp
  then show ?thesis using assms by (simp only: bit_exp_iff) auto
qed

lemma continuation_byte:
  fixes w :: "'a::len word"
  assumes "8 \<le> LENGTH('a)"
  defines "b \<equiv> ucast ((w AND 0x7F) OR 0x80) :: u8"
  shows "\<not> b < 0x80" and "ucast (b AND 0x7F) = w AND 0x7F"
proof -
  have m: "(0x7F :: 'a word) = mask 7" "(0x7F :: u8) = mask 7"
    by (simp_all add: mask_eq_exp_minus_1)
  define d where "d = (0x80 :: 'a word)"
  have c: "bit d n \<longleftrightarrow> n = 7" for n unfolding d_def by (rule bit_0x80 [OF assms(1)])
  show "ucast (b AND 0x7F) = w AND 0x7F"
    unfolding b_def m d_def [symmetric] by (rule bit_word_eqI) (use assms(1) in \<open>auto simp: bit_simps c\<close>)
  have "bit b 7" unfolding b_def m d_def [symmetric] using assms(1) by (simp add: bit_simps c)
  moreover have "\<not> bit b 7" if "b < 0x80"
    by (rule high_bits_clear [where k = 7]) (use that in \<open>simp_all add: word_less_nat_alt\<close>)
  ultimately show "\<not> b < 0x80" by blast
qed

lemma readFuint8_prefix:
  assumes "ba_inv ba" "prefix (map Some (b # bs)) (readable ba)"
  shows "readFuint8 ba = Inr (b, advance ba 1)" "ba_inv (advance ba 1)"
    "prefix (map Some bs) (readable (advance ba 1))"
proof -
  have pre: "prefix (map Some [b]) (readable ba)" using assms(2) by (auto simp: prefix_def)
  show "readFuint8 ba = Inr (b, advance ba 1)"
    using fuint8.rd_prefix [OF assms(1) _ pre] by simp
  have "1 \<le> getReadSize ba"
    using prefix_length_le [OF pre] length_readable [OF assms(1)] by simp
  then show "ba_inv (advance ba 1)" by (rule advance_inv [OF assms(1)])
  show "prefix (map Some bs) (readable (advance ba 1))"
    using assms(2) by (auto simp: prefix_def)
qed

lemma small_byte:
  fixes w :: "'a::len word"
  assumes "8 \<le> LENGTH('a)" "unat w < 128"
  shows "(ucast w :: u8) < 0x80" "ucast (ucast w :: u8) = w"
proof -
  have "unat (ucast w :: u8) = unat w" using assms(2) by (simp add: unsigned_ucast_eq take_bit_nat_eq_self)
  then show "(ucast w :: u8) < 0x80" using assms(2) by (simp add: word_less_nat_alt)
  have "unat (ucast (ucast w :: u8) :: 'a word) = take_bit LENGTH('a) (unat (ucast w :: u8))"
    by (rule unsigned_ucast_eq)
  also have "\<dots> = unat w"
    using \<open>unat (ucast w :: u8) = unat w\<close> by (simp add: take_bit_nat_eq_self)
  finally show "ucast (ucast w :: u8) = w" by (simp only: word_unat_eq_iff)
qed

lemma read_varint_prefix:
  fixes w :: "'a::len word"
  assumes "8 \<le> LENGTH('a)" "i < LENGTH('a)" "unat w < 2 ^ (LENGTH('a) - i)"
    and "ba_inv ba" "prefix (map Some (varint_bytes w)) (readable ba)"
  shows "read_varint i res ba = Inr (res OR push_bit i w, advance ba (length (varint_bytes w)))"
  using assms(2-)
proof (induction w arbitrary: i res ba rule: varint_bytes.induct)
  case (1 w)
  show ?case
  proof (cases "unat w \<ge> 128")
    case True
    let ?b = "ucast ((w AND 0x7F) OR 0x80) :: u8"
    have vb: "varint_bytes w = ?b # varint_bytes (drop_bit 7 w)"
      using True by (subst varint_bytes.simps) simp
    note step = readFuint8_prefix [OF "1.prems"(3), of ?b "varint_bytes (drop_bit 7 w)"]
    have "(2 :: nat) ^ 7 < 2 ^ (LENGTH('a) - i)" using True "1.prems"(2) by simp
    then have i: "i + 7 < LENGTH('a)" by (subst (asm) power_strict_increasing_iff) auto
    then have l: "LENGTH('a) - i = (LENGTH('a) - (i + 7)) + 7" by simp
    have "unat (drop_bit 7 w) < 2 ^ (LENGTH('a) - (i + 7))"
      by (rule drop_bit7_bound) (use "1.prems"(2) in \<open>simp only: l\<close>)
    then have "read_varint (i + 7) (res OR push_bit i (ucast (?b AND 0x7F))) (advance ba 1)
        = Inr (res OR push_bit i (ucast (?b AND 0x7F)) OR push_bit (i + 7) (drop_bit 7 w),
               advance (advance ba 1) (length (varint_bytes (drop_bit 7 w))))"
      using "1.IH" [OF True i] step vb "1.prems"(4) by (simp add: or.assoc)
    then show ?thesis
      using step vb "1.prems" continuation_byte [OF assms(1), of w]
      by (subst read_varint.simps) (simp add: or.assoc group_bits [unfolded push_bit_and])
  next
    case False
    then have vb: "varint_bytes w = [ucast w]" by (subst varint_bytes.simps) simp
    show ?thesis
      using readFuint8_prefix(1) [OF "1.prems"(3), of "ucast w" "[]"] vb "1.prems"
        small_byte [OF assms(1), of w] False
      by (subst read_varint.simps) simp
  qed
qed

lemma varint_codec:
  assumes "8 \<le> LENGTH('a::len)"
  shows "codec (\<lambda>ba (v :: 'a word). ba_write ba (varint_bytes v)) (read_varint 0 0)
    (\<lambda>e. varint_bytes) (\<lambda>v. v) (\<lambda>_. True)"
proof
  fix ba ba' and v :: "'a word"
  assume "ba_inv ba" "ba_write ba (varint_bytes v) = Inr ba'"
  then show "written ba (varint_bytes v) ba'" by (rule ba_write_written)
next
  fix ba and v :: "'a word"
  assume "ba_inv ba" "prefix (map Some (varint_bytes v)) (readable ba)"
  then show "read_varint 0 0 ba = Inr (v, advance ba (length (varint_bytes v)))"
    using read_varint_prefix [OF assms, of 0 v ba 0] by simp
qed

interpretation uint32: codec writeUint32 readUint32 "\<lambda>e. varint_bytes" "\<lambda>v. v" "\<lambda>_. True"
  using varint_codec [where 'a = 32] by (simp add: writeUint32_def [abs_def] readUint32_def [abs_def])

interpretation uint64: codec writeUint64 readUint64 "\<lambda>e. varint_bytes" "\<lambda>v. v" "\<lambda>_. True"
  using varint_codec [where 'a = 64] by (simp add: writeUint64_def [abs_def] readUint64_def [abs_def])

section \<open>ZigZag\<close>

lemma zigzag_even:
  fixes v :: "'a::len word"
  assumes "2 * unat v < 2 ^ LENGTH('a)"
  shows "drop_bit 1 (v * 2) XOR - (v * 2 AND 1) = v"
proof -
  have "v * 2 = word_of_nat (2 * unat v)" by (simp add: mult.commute)
  then have "unat (v * 2) = 2 * unat v"
    using assms by (simp only: unat_of_nat_small)
  then have "unat (drop_bit 1 (v * 2)) = unat v" by (simp add: unat_drop_bit_div)
  then have "drop_bit 1 (v * 2) = v" by (simp only: word_unat_eq_iff)
  moreover have "even (v * 2)" by simp
  then have "v * 2 AND 1 = 0" unfolding and_one_eq by (simp only: even_iff_mod_2_eq_zero)
  ultimately show ?thesis by simp
qed

lemma zigzag_odd:
  fixes n :: "'a::len word"
  assumes "0 < unat n" "2 * unat n \<le> 2 ^ LENGTH('a)"
  shows "drop_bit 1 (n * 2 - 1) XOR - ((n * 2 - 1) AND 1) = - n"
proof -
  define m where "m = n - 1"
  have n: "n = m + 1" by (simp add: m_def)
  have um: "unat m = unat n - 1" using assms(1) unat_minus_one [of n] unat_eq_0 [of n] by (simp add: m_def)
  have e: "n * 2 - 1 = 2 * m + 1" by (simp add: n algebra_simps)
  have "2 * m + 1 = word_of_nat (2 * unat m + 1)" by simp
  moreover have "2 * unat m + 1 < 2 ^ LENGTH('a)" using assms um by simp
  ultimately have "unat (2 * m + 1) = 2 * unat m + 1" by (simp only: unat_of_nat_small)
  then have "unat (drop_bit 1 (2 * m + 1)) = unat m" by (simp add: unat_drop_bit_div)
  then have "drop_bit 1 (2 * m + 1) = m" by (simp only: word_unat_eq_iff)
  moreover have "odd (2 * m + 1)" by simp
  then have "(2 * m + 1) AND 1 = 1" unfolding and_one_eq by (simp only: odd_iff_mod_2_eq_one)
  ultimately show ?thesis unfolding e by (simp add: n not_eq_complement)
qed

lemma uint_nonneg: "0 \<le> sint v \<Longrightarrow> uint v = sint v"
  using sint_lt [of v] by (simp add: uint_sint take_bit_int_eq_self_iff power_strict_increasing
    order_less_le_trans)

lemma uint_uminus_neg:
  fixes v :: "'a::len word"
  assumes "sint v < 0"
  shows "uint (- v) = - sint v"
proof -
  have "- v = word_of_int (- sint v)" by simp
  then have "uint (- v) = (- sint v) mod 2 ^ LENGTH('a)" by (simp only: uint_word_of_int)
  also have "\<dots> = - sint v"
  proof (rule mod_pos_pos_trivial)
    have "(2 :: int) ^ (LENGTH('a) - 1) < 2 ^ LENGTH('a)" by (rule power_strict_increasing) auto
    then show "- sint v < 2 ^ LENGTH('a)" using sint_ge [of v] by linarith
  qed (use assms in simp)
  finally show ?thesis .
qed

lemma EncodeZigzag32_ok:
  "(\<exists>e. EncodeZigzag32 v = Inr e) \<longleftrightarrow> - (2 ^ 31) < sint v \<and> sint v < 2 ^ 30"
  using sint_ge [of v] by (auto simp: EncodeZigzag32_def)


lemma DecodeZigzag32_Encode:
  assumes "EncodeZigzag32 v = Inr e"
  shows "DecodeZigzag32 e = v"
proof (cases "sint v < 0")
  case True
  have u: "uint (- v) = - sint v" by (rule uint_uminus_neg [OF True])
  have "unat (- v) = nat (- sint v)" using u by (simp flip: nat_uint_eq)
  moreover have "- sint v \<le> 2 ^ 31" using sint_ge [of v] by simp
  ultimately have "0 < unat (- v)" "2 * unat (- v) \<le> 2 ^ LENGTH(32)" using True by auto
  from zigzag_odd [OF this] show ?thesis
    using assms True by (auto simp: EncodeZigzag32_def DecodeZigzag32_def split: if_splits)
next
  case False
  then have "unat v = nat (sint v)" using uint_nonneg [of v] by (simp flip: nat_uint_eq)
  then have "2 * unat v < 2 ^ LENGTH(32)" using sint_lt [of v] by simp
  from zigzag_even [OF this] show ?thesis
    using assms False by (auto simp: EncodeZigzag32_def DecodeZigzag32_def split: if_splits)
qed

lemma scast_ucast_small:
  fixes k :: u64
  assumes "unat k < 2 ^ 31"
  shows "scast (ucast k :: u32) = k" "scast (ucast (NOT k) :: u32) = NOT k"
  using high_bits_clear [OF assms]
  by (auto intro!: bit_word_eqI simp: bit_simps min_def split: if_splits)

lemma scast_ucast_range:
  fixes v :: u64
  assumes "0 \<le> sint v"
  shows "scast (ucast v :: u32) = v \<longleftrightarrow> sint v < 2 ^ 31"
proof
  assume "scast (ucast v :: u32) = v"
  then have "sint v = sint (scast (ucast v :: u32) :: u64)" by simp
  also have "\<dots> = sint (ucast v :: u32)" by (rule sint_up_scast) (simp add: is_up)
  finally show "sint v < 2 ^ 31" using sint_lt [of "ucast v :: u32"] by simp
next
  assume "sint v < 2 ^ 31"
  then have "unat v < 2 ^ 31" using uint_nonneg [OF assms] by (simp flip: nat_uint_eq)
  then show "scast (ucast v :: u32) = v" by (rule scast_ucast_small)
qed

lemma odd_double_div: "0 < (x :: nat) \<Longrightarrow> (2 * x - 1) mod (2 * m) div 2 = (x - 1) mod m"
  for m :: nat
proof -
  assume "0 < x"
  then have "2 * x - 1 = 2 * (x - 1) + 1" by simp
  then show ?thesis by (simp only: mod_mult2_eq [of _ 2 m]) (simp add: div_mult2_eq)
qed

lemma EncodeZigzag64_Decode:
  assumes "EncodeZigzag64 v = Inr e"
  shows "scast (DecodeZigzag64 e) = v \<longleftrightarrow> - (2 ^ 31) \<le> sint v \<and> sint v < 2 ^ 31"
proof (cases "sint v < 0")
  case True
  define n where "n = - v"
  define k where "k = drop_bit 1 e"
  have un: "unat n = nat (- sint v)" using uint_uminus_neg [OF True] by (simp add: n_def flip: nat_uint_eq)
  then have n: "0 < unat n" using True by simp
  have e: "e = ucast ((ucast n :: u32) * 2 - 1)"
    using assms True by (auto simp: EncodeZigzag64_def n_def split: if_splits)
  have "(ucast n :: u32) * 2 - 1 = word_of_nat (2 * unat n - 1)"
    using n by (simp add: of_nat_diff mult.commute)
  then have ue: "unat e = (2 * unat n - 1) mod 2 ^ 32"
    unfolding e by (simp add: unsigned_ucast_eq unat_of_nat take_bit_nat_eq_self)
  have "unat k = (2 * unat n - 1) mod (2 * 2 ^ 31) div 2"
    unfolding k_def by (simp add: unat_drop_bit_div ue)
  then have uk: "unat k = (unat n - 1) mod 2 ^ 31" using odd_double_div [OF n, of "2 ^ 31"] by (simp only:)
  have "odd (unat e)" unfolding ue using n by (subst dvd_mod_iff) auto
  then have "odd e" by (simp add: bit_simps flip: bit_0)
  then have "e AND 1 = 1" unfolding and_one_eq by (simp only: odd_iff_mod_2_eq_one)
  then have "DecodeZigzag64 e = ucast (NOT k)" by (simp add: DecodeZigzag64_def k_def)
  moreover have k31: "unat k < 2 ^ 31" by (simp add: uk)
  ultimately have dec: "scast (DecodeZigzag64 e) = NOT k" using scast_ucast_small(2) by simp
  have "NOT k = - (k + 1)" by (simp add: not_eq_complement)
  then have "NOT k = v \<longleftrightarrow> k + 1 = n" unfolding n_def by (metis minus_minus)
  also have "\<dots> \<longleftrightarrow> unat k + 1 = unat n"
  proof -
    have "k + 1 = word_of_nat (unat k + 1)" by simp
    moreover have "unat k + 1 < 2 ^ LENGTH(64)" using k31 by simp
    ultimately have "unat (k + 1) = unat k + 1" by (simp only: unat_of_nat_small)
    then show ?thesis by (simp only: word_unat_eq_iff)
  qed
  also have "\<dots> \<longleftrightarrow> unat n - 1 < 2 ^ 31"
    unfolding uk using n mod_less_divisor [of "2 ^ 31" "unat n - 1"]
    by (metis Suc_eq_plus1 Suc_pred' add_right_cancel mod_less zero_less_numeral zero_less_power)
  also have "\<dots> \<longleftrightarrow> unat n \<le> 2 ^ 31" using n by linarith
  also have "\<dots> \<longleftrightarrow> - (2 ^ 31) \<le> sint v \<and> sint v < 2 ^ 31" using un True by auto
  finally show ?thesis using dec by simp
next
  case False
  then have v: "unat v = nat (sint v)" using uint_nonneg [of v] by (simp flip: nat_uint_eq)
  then have "2 * unat v < 2 ^ LENGTH(64)" using sint_lt [of v] by simp
  from zigzag_even [OF this] have "DecodeZigzag64 e = ucast v"
    using assms False by (auto simp: EncodeZigzag64_def DecodeZigzag64_def split: if_splits)
  then show ?thesis using scast_ucast_range [of v] False by auto
qed

text \<open>The signed 32-bit pair, on the values the encoder is defined for.\<close>

definition zigzag32_ok :: "u32 \<Rightarrow> bool" where
  "zigzag32_ok v \<longleftrightarrow> - (2 ^ 31) < sint v \<and> sint v < 2 ^ 30"

definition zigzag32_enc :: "u32 \<Rightarrow> u8 list" where
  "zigzag32_enc v = (case EncodeZigzag32 v of Inl _ \<Rightarrow> [] | Inr e \<Rightarrow> varint_bytes e)"

interpretation int32: codec writeInt32 readInt32 "\<lambda>e. zigzag32_enc" "\<lambda>v. v" zigzag32_ok
proof
  fix ba ba' and v :: u32
  assume inv: "ba_inv ba" and "zigzag32_ok v" and w: "writeInt32 ba v = Inr ba'"
  then obtain e where "EncodeZigzag32 v = Inr e" using EncodeZigzag32_ok [of v] zigzag32_ok_def by auto
  then show "written ba (zigzag32_enc v) ba'"
    using uint32.wr_written [OF inv, of e ba'] w by (simp add: writeInt32_def zigzag32_enc_def)
next
  fix ba and v :: u32
  assume inv: "ba_inv ba" and "zigzag32_ok v"
    and pre: "prefix (map Some (zigzag32_enc v)) (readable ba)"
  then obtain e where e: "EncodeZigzag32 v = Inr e" using EncodeZigzag32_ok [of v] zigzag32_ok_def by auto
  then show "readInt32 ba = Inr (v, advance ba (length (zigzag32_enc v)))"
    using uint32.rd_prefix [OF inv, of e] pre DecodeZigzag32_Encode [OF e]
    by (simp add: readInt32_def zigzag32_enc_def)
qed

section \<open>Mixed sequences of numbers\<close>

text \<open>The signed 64-bit pair, on the \<open>int32_t\<close> range.\<close>

definition zigzag64_ok :: "u64 \<Rightarrow> bool" where
  "zigzag64_ok v \<longleftrightarrow> - (2 ^ 31) \<le> sint v \<and> sint v < 2 ^ 31"

definition zigzag64_enc :: "u64 \<Rightarrow> u8 list" where
  "zigzag64_enc v = (case EncodeZigzag64 v of Inl _ \<Rightarrow> [] | Inr e \<Rightarrow> varint_bytes e)"

lemma EncodeZigzag64_ok: "zigzag64_ok v \<Longrightarrow> \<exists>e. EncodeZigzag64 v = Inr e"
  by (auto simp: zigzag64_ok_def EncodeZigzag64_def)

interpretation int64: codec writeInt64 readInt64 "\<lambda>e. zigzag64_enc" "\<lambda>v. v" zigzag64_ok
proof
  fix ba ba' and v :: u64
  assume inv: "ba_inv ba" and "zigzag64_ok v" and w: "writeInt64 ba v = Inr ba'"
  then obtain e where "EncodeZigzag64 v = Inr e" using EncodeZigzag64_ok by blast
  then show "written ba (zigzag64_enc v) ba'"
    using uint64.wr_written [OF inv, of e ba'] w by (simp add: writeInt64_def zigzag64_enc_def)
next
  fix ba and v :: u64
  assume inv: "ba_inv ba" and ok: "zigzag64_ok v"
    and pre: "prefix (map Some (zigzag64_enc v)) (readable ba)"
  then obtain e where e: "EncodeZigzag64 v = Inr e" using EncodeZigzag64_ok by blast
  then show "readInt64 ba = Inr (v, advance ba (length (zigzag64_enc v)))"
    using uint64.rd_prefix [OF inv, of e] pre EncodeZigzag64_Decode [OF e] ok
    by (simp add: readInt64_def zigzag64_enc_def zigzag64_ok_def)
qed

text \<open>A value together with the pair of functions that writes and reads it.\<close>

datatype number =
    Fint8 u8 | Fuint8 u8 | Fint16 u16 | Fuint16 u16
  | Fint32 u32 | Fuint32 u32 | Fint64 u64 | Fuint64 u64
  | Int32 u32 | Uint32 u32 | Int64 u64 | Uint64 u64

primrec write_number :: "bytearray \<Rightarrow> number \<Rightarrow> bytearray result" where
  "write_number ba (Fint8 v) = writeFint8 ba v"
| "write_number ba (Fuint8 v) = writeFuint8 ba v"
| "write_number ba (Fint16 v) = writeFint16 ba v"
| "write_number ba (Fuint16 v) = writeFuint16 ba v"
| "write_number ba (Fint32 v) = writeFint32 ba v"
| "write_number ba (Fuint32 v) = writeFuint32 ba v"
| "write_number ba (Fint64 v) = writeFint64 ba v"
| "write_number ba (Fuint64 v) = writeFuint64 ba v"
| "write_number ba (Int32 v) = writeInt32 ba v"
| "write_number ba (Uint32 v) = writeUint32 ba v"
| "write_number ba (Int64 v) = writeInt64 ba v"
| "write_number ba (Uint64 v) = writeUint64 ba v"

text \<open>The reader that belongs to a written value; of the value it only knows the type.\<close>

primrec read_number :: "number \<Rightarrow> bytearray \<Rightarrow> (number \<times> bytearray) result" where
  "read_number (Fint8 _) ba = bindR (readFint8 ba) (\<lambda>(v, ba). Inr (Fint8 v, ba))"
| "read_number (Fuint8 _) ba = bindR (readFuint8 ba) (\<lambda>(v, ba). Inr (Fuint8 v, ba))"
| "read_number (Fint16 _) ba = bindR (readFint16 ba) (\<lambda>(v, ba). Inr (Fint16 v, ba))"
| "read_number (Fuint16 _) ba = bindR (readFuint16 ba) (\<lambda>(v, ba). Inr (Fuint16 v, ba))"
| "read_number (Fint32 _) ba = bindR (readFint32 ba) (\<lambda>(v, ba). Inr (Fint32 v, ba))"
| "read_number (Fuint32 _) ba = bindR (readFuint32 ba) (\<lambda>(v, ba). Inr (Fuint32 v, ba))"
| "read_number (Fint64 _) ba = bindR (readFint64 ba) (\<lambda>(v, ba). Inr (Fint64 v, ba))"
| "read_number (Fuint64 _) ba = bindR (readFuint64 ba) (\<lambda>(v, ba). Inr (Fuint64 v, ba))"
| "read_number (Int32 _) ba = bindR (readInt32 ba) (\<lambda>(v, ba). Inr (Int32 v, ba))"
| "read_number (Uint32 _) ba = bindR (readUint32 ba) (\<lambda>(v, ba). Inr (Uint32 v, ba))"
| "read_number (Int64 _) ba = bindR (readInt64 ba) (\<lambda>(v, ba). Inr (Int64 v, ba))"
| "read_number (Uint64 _) ba = bindR (readUint64 ba) (\<lambda>(v, ba). Inr (Uint64 v, ba))"

primrec read_numbers :: "number list \<Rightarrow> bytearray \<Rightarrow> (number list \<times> bytearray) result" where
  "read_numbers [] ba = Inr ([], ba)"
| "read_numbers (n # ns) ba =
     bindR (read_number n ba) (\<lambda>(v, ba). bindR (read_numbers ns ba) (\<lambda>(vs, ba). Inr (v # vs, ba)))"

primrec fixed_number :: "number \<Rightarrow> bool" where
  "fixed_number (Fint8 _) = True"
| "fixed_number (Fuint8 _) = True"
| "fixed_number (Fint16 _) = True"
| "fixed_number (Fuint16 _) = True"
| "fixed_number (Fint32 _) = True"
| "fixed_number (Fuint32 _) = True"
| "fixed_number (Fint64 _) = True"
| "fixed_number (Fuint64 _) = True"
| "fixed_number (Int32 _) = False"
| "fixed_number (Uint32 _) = False"
| "fixed_number (Int64 _) = False"
| "fixed_number (Uint64 _) = False"

text \<open>The varints that are read back: all unsigned ones, the signed ones in the range of their ZigZag pair.\<close>

primrec varint_number :: "number \<Rightarrow> bool" where
  "varint_number (Fint8 v) = False"
| "varint_number (Fuint8 v) = False"
| "varint_number (Fint16 v) = False"
| "varint_number (Fuint16 v) = False"
| "varint_number (Fint32 v) = False"
| "varint_number (Fuint32 v) = False"
| "varint_number (Fint64 v) = False"
| "varint_number (Fuint64 v) = False"
| "varint_number (Int32 v) \<longleftrightarrow> zigzag32_ok v"
| "varint_number (Uint32 v) \<longleftrightarrow> True"
| "varint_number (Int64 v) \<longleftrightarrow> zigzag64_ok v"
| "varint_number (Uint64 v) \<longleftrightarrow> True"

primrec number_enc :: "u8 \<Rightarrow> number \<Rightarrow> u8 list" where
  "number_enc e (Fint8 v) = [v]"
| "number_enc e (Fuint8 v) = [v]"
| "number_enc e (Fint16 v) = word_enc e v"
| "number_enc e (Fuint16 v) = word_enc e v"
| "number_enc e (Fint32 v) = word_enc e v"
| "number_enc e (Fuint32 v) = word_enc e v"
| "number_enc e (Fint64 v) = word_enc e v"
| "number_enc e (Fuint64 v) = word_enc e v"
| "number_enc e (Int32 v) = zigzag32_enc v"
| "number_enc e (Uint32 v) = varint_bytes v"
| "number_enc e (Int64 v) = zigzag64_enc v"
| "number_enc e (Uint64 v) = varint_bytes v"

definition number_ok :: "number \<Rightarrow> bool" where
  "number_ok n \<longleftrightarrow> fixed_number n \<or> varint_number n"

lemmas number_written = fint8.wr_written fuint8.wr_written fint16.wr_written fuint16.wr_written fint32.wr_written
  fuint32.wr_written fint64.wr_written fuint64.wr_written int32.wr_written uint32.wr_written int64.wr_written uint64.wr_written

lemmas number_prefix = fint8.rd_prefix fuint8.rd_prefix fint16.rd_prefix fuint16.rd_prefix fint32.rd_prefix
  fuint32.rd_prefix fint64.rd_prefix fuint64.rd_prefix int32.rd_prefix uint32.rd_prefix int64.rd_prefix uint64.rd_prefix

interpretation number: writer write_number number_enc number_ok
proof
  fix ba ba' n
  assume "ba_inv ba" "number_ok n" "write_number ba n = Inr ba'"
  then show "written ba (number_enc (m_endian ba) n) ba'" by (cases n) (simp_all add: number_ok_def number_written)
qed

lemma read_number_prefix:
  assumes "ba_inv ba" "number_ok n" "prefix (map Some (number_enc (m_endian ba) n)) (readable ba)"
  shows "read_number n ba = Inr (n, advance ba (length (number_enc (m_endian ba) n)))"
  using assms by (cases n) (simp_all add: number_ok_def number_prefix)

lemma read_numbers_prefix:
  assumes "ba_inv ba" "list_all number_ok ns" "prefix (map Some (concat (map (number_enc (m_endian ba)) ns))) (readable ba)"
  shows "read_numbers ns ba = Inr (ns, advance ba (length (concat (map (number_enc (m_endian ba)) ns))))"
  using assms
proof (induction ns arbitrary: ba)
  case Nil
  have "advance ba 0 = ba" using ba_invD(7) [OF Nil(1)] by (simp add: advance_def)
  then show ?case by simp
next
  case (Cons n ns)
  let ?e = "number_enc (m_endian ba) n"
  have pre: "prefix (map Some ?e) (readable ba)" using Cons.prems(3) by (auto simp: prefix_def)
  have rd: "read_number n ba = Inr (n, advance ba (length ?e))"
    using read_number_prefix [OF Cons.prems(1) _ pre] Cons.prems(2) by simp
  have le: "length ?e \<le> getReadSize ba"
    using prefix_length_le [OF pre] length_readable [OF Cons.prems(1)] by simp
  have "prefix (map Some (concat (map (number_enc (m_endian ba)) ns))) (readable (advance ba (length ?e)))"
    using Cons.prems(3) by (auto simp: prefix_def)
  then show ?case
    using Cons.IH [of "advance ba (length ?e)"] Cons.prems(2) advance_inv [OF Cons.prems(1) le] rd by simp
qed

lemma numbers_roundtrip:
  assumes "ba_inv ba" "list_all number_ok ns" "write_all write_number ba ns = Inr b1" "setPosition b1 (m_position ba) = Inr b2"
  shows "read_numbers ns b2 = Inr (ns, b1)"
proof -
  note bk = written_back [OF assms(1) number.write_all_written [OF assms(1-3)] assms(4)]
  show ?thesis using read_numbers_prefix [OF bk(1) assms(2)] bk by simp
qed

section \<open>Strings with a fixed-width length\<close>

text \<open>The reader decodes the length with the fixed-width reader and then calls \<open>read\<close>, which
  dereferences the cursor even for length 0; the contract is therefore stated for strings that are
  not empty.\<close>

definition string_enc :: "'a::len itself \<Rightarrow> u8 \<Rightarrow> u8 list \<Rightarrow> u8 list" where
  "string_enc _ e v = word_enc e (of_nat (length v) :: 'a word) @ v"

definition string_ok :: "'a::len itself \<Rightarrow> u8 list \<Rightarrow> bool" where
  "string_ok _ v \<longleftrightarrow> v \<noteq> [] \<and> length v < 2 ^ LENGTH('a)"

lemma string_codec:
  fixes wl :: "bytearray \<Rightarrow> 'a::len word \<Rightarrow> bytearray result"
  assumes "codec wl rl word_enc (\<lambda>v. v) (\<lambda>_. True)"
  shows "codec (\<lambda>ba v. bindR (wl ba (of_nat (length v))) (\<lambda>ba. ba_write ba v))
    (\<lambda>ba. bindR (rl ba) (\<lambda>(len, ba). ba_read ba (unat len)))
    (string_enc TYPE('a)) (map Some) (string_ok TYPE('a))"
proof
  fix ba ba' v
  assume inv: "ba_inv ba" and w: "bindR (wl ba (of_nat (length v))) (\<lambda>ba. ba_write ba v) = Inr ba'"
  then obtain b where b: "wl ba (of_nat (length v)) = Inr b" "ba_write b v = Inr ba'"
    by (auto simp: result_iff)
  have wb: "written ba (word_enc (m_endian ba) (of_nat (length v) :: 'a word)) b"
    by (rule writer.wr_written [OF codec.axioms(1) [OF assms] inv _ b(1)]) simp
  then have "written b v ba'" by (intro ba_write_written b(2)) (simp add: written_def)
  then show "written ba (string_enc TYPE('a) (m_endian ba) v) ba'"
    using written_trans [OF inv wb] by (simp add: string_enc_def)
next
  fix ba v
  assume inv: "ba_inv ba" and ok: "string_ok TYPE('a) v"
    and pre: "prefix (map Some (string_enc TYPE('a) (m_endian ba) v)) (readable ba)"
  let ?e = "word_enc (m_endian ba) (of_nat (length v) :: 'a word)"
  have pe: "prefix (map Some ?e) (readable ba)" using pre by (auto simp: prefix_def string_enc_def)
  have rl: "rl ba = Inr (of_nat (length v), advance ba (length ?e))"
    using codec.rd_prefix [OF assms inv _ pe] by simp
  have "length ?e \<le> getReadSize ba"
    using prefix_length_le [OF pe] length_readable [OF inv] by simp
  then have inv': "ba_inv (advance ba (length ?e))" by (rule advance_inv [OF inv])
  have "prefix (map Some v) (readable (advance ba (length ?e)))"
    using pre by (auto simp: prefix_def string_enc_def)
  then obtain zs where zs: "readable (advance ba (length ?e)) = map Some v @ zs" by (auto simp: prefix_def)
  then have n: "length v \<le> getReadSize (advance ba (length ?e))"
    using length_readable [OF inv'] by simp
  then have "0 < getReadSize (advance ba (length ?e))" using ok by (cases v) (auto simp: string_ok_def)
  then have lt: "m_position (advance ba (length ?e)) < m_capacity (advance ba (length ?e))"
    using ba_invD(6) [OF inv'] by (simp add: getReadSize_def)
  have "unat (of_nat (length v) :: 'a word) = length v"
    using ok by (intro unat_of_nat_small) (simp add: string_ok_def)
  then show "bindR (rl ba) (\<lambda>(len, ba). ba_read ba (unat len))
      = Inr (map Some v, advance ba (length (string_enc TYPE('a) (m_endian ba) v)))"
    using rl ba_read_ok [OF inv' n lt] zs by (simp add: string_enc_def)
qed

interpretation string16: codec writeString16 readStringF16 "string_enc TYPE(16)" "map Some" "string_ok TYPE(16)"
  using string_codec [OF fuint16.codec_axioms] by (simp add: writeString16_def [abs_def] readStringF16_def [abs_def])

interpretation string32: codec writeString32 readStringF32 "string_enc TYPE(32)" "map Some" "string_ok TYPE(32)"
  using string_codec [OF fuint32.codec_axioms] by (simp add: writeString32_def [abs_def] readStringF32_def [abs_def])

interpretation string64: codec writeString64 readStringF64 "string_enc TYPE(64)" "map Some" "string_ok TYPE(64)"
  using string_codec [OF fuint64.codec_axioms] by (simp add: writeString64_def [abs_def] readStringF64_def [abs_def])

end
