(* ===== verification/ByteArray_Views.thy ===== *)
theory ByteArray_Views
  imports ByteArray_Ops
begin

text \<open>
  The views of \<open>ByteArray\<close> that leave the cursor alone: text, scatter-gather vectors for \<open>readv\<close> and
  \<open>writev\<close>, and the transfer to and from a file. Each is related to \<open>readable\<close>, the cells between
  the position and the size.
\<close>

section \<open>Scatter-gather\<close>

definition gather :: "node list \<Rightarrow> iovec list \<Rightarrow> cell list" where
  "gather ns iovs = concat (map (\<lambda>(i, off, n). take n (drop off (nd_ptr (ns ! i)))) iovs)"

definition iov_valid :: "node list \<Rightarrow> iovec list \<Rightarrow> bool" where
  "iov_valid ns iovs =
     list_all (\<lambda>(i, off, n). i < length ns \<and> off + n \<le> length (nd_ptr (ns ! i))) iovs"

definition iov_total :: "iovec list \<Rightarrow> nat" where
  "iov_total iovs = sum_list (map (\<lambda>(i, off, n). n) iovs)"

lemma node_slice:
  assumes "nodes_ok b ns" "i < length ns" "npos + n \<le> b"
  shows "take n (drop npos (nd_ptr (ns ! i))) = take n (drop (i * b + npos) (flat ns))"
    "npos + n \<le> length (nd_ptr (ns ! i))"
proof -
  show len: "npos + n \<le> length (nd_ptr (ns ! i))"
    using nodes_ok_nth [OF assms(1,2)] assms(3) by (simp add: node_ok_def)
  show "take n (drop npos (nd_ptr (ns ! i))) = take n (drop (i * b + npos) (flat ns))"
    using flat_peek [OF assms] len by (simp add: memcpy_from_def)
qed

lemma iov_loop_ok:
  assumes "0 < b" "nodes_ok b ns" "i < length ns" "npos \<le> b" "ncap = b - npos"
    and "i * b + npos + n \<le> length ns * b"
  shows "\<exists>iovs. iov_loop ns i npos ncap n = Inr iovs \<and> iov_valid ns iovs \<and> iov_total iovs = n
           \<and> gather ns iovs = take n (drop (i * b + npos) (flat ns))"
  using assms
proof (induction ns i npos ncap n rule: iov_loop.induct)
  case (1 ns i npos ncap n)
  consider "n = 0" | "n \<noteq> 0" "ncap \<ge> n" | "n \<noteq> 0" "\<not> ncap \<ge> n" by blast
  then show ?case
  proof cases
    case 1
    then show ?thesis by (subst iov_loop.simps) (simp add: gather_def iov_valid_def iov_total_def)
  next
    case 2
    then have fit: "npos + n \<le> b" using "1.prems" by simp
    show ?thesis using 2 node_slice [OF "1.prems"(2,3) fit] "1.prems"(3)
      by (subst iov_loop.simps) (simp add: gather_def iov_valid_def iov_total_def)
  next
    case 3
    have fit: "npos + ncap \<le> b" using "1.prems" by simp
    note nb = node_boundary [OF "1.prems"(3,4) 3(2) [unfolded "1.prems"(5)] "1.prems"(6)]
    then have nx: "next_node ns i = Some (Suc i)" by (simp add: next_node_def)
    have szj: "nd_size (ns ! Suc i) = b"
      using nodes_ok_nth [OF "1.prems"(2) nb(1)] by (simp add: node_ok_def)
    have nb2: "Suc i * b + (n - ncap) = i * b + npos + n"
      using nb(2) "1.prems"(5) by (simp only:)
    have "\<exists>iovs. iov_loop ns (Suc i) 0 (nd_size (ns ! Suc i)) (n - ncap) = Inr iovs \<and> iov_valid ns iovs
        \<and> iov_total iovs = n - ncap \<and> gather ns iovs = take (n - ncap) (drop (Suc i * b + 0) (flat ns))"
      by (rule "1.IH" [OF 3 nx])
         (use "1.prems" nb szj in \<open>simp_all only: add_0_right nb2 diff_zero zero_le\<close>)
    then obtain iovs where iovs: "iov_loop ns (Suc i) 0 b (n - ncap) = Inr iovs" "iov_valid ns iovs"
        "iov_total iovs = n - ncap" "gather ns iovs = take (n - ncap) (drop (Suc i * b) (flat ns))"
      unfolding szj add_0_right by blast
    have d: "drop (Suc i * b) (flat ns) = drop ncap (drop (i * b + npos) (flat ns))"
      using "1.prems" by (simp add: ac_simps)
    have "take ncap (drop (i * b + npos) (flat ns)) @ take (n - ncap) (drop (Suc i * b) (flat ns))
        = take n (drop (i * b + npos) (flat ns))"
      unfolding d using 3 by (metis le_add_diff_inverse nat_le_linear take_add)
    then show ?thesis using 3 nx szj iovs node_slice [OF "1.prems"(2,3) fit] "1.prems"(3)
      by (subst iov_loop.simps) (simp add: gather_def iov_valid_def iov_total_def)
  qed
qed

lemma position_index:
  assumes "ba_inv ba" "m_position ba < m_capacity ba"
  shows "m_position ba div m_baseSize ba < length (m_root ba)"
    "nd_size (m_root ba ! (m_position ba div m_baseSize ba)) = m_baseSize ba"
proof -
  note inv = ba_invD [OF assms(1)]
  show i: "m_position ba div m_baseSize ba < length (m_root ba)"
    using inv assms(2) by (simp add: div_less_iff_less_mult)
  show "nd_size (m_root ba ! (m_position ba div m_baseSize ba)) = m_baseSize ba"
    using nodes_ok_nth [OF inv(3) i] by (simp add: node_ok_def)
qed

lemma iov_at_position:
  assumes "ba_inv ba" "m_position ba + n \<le> m_capacity ba" "0 < n"
  obtains iovs where
    "iov_loop (m_root ba) (m_position ba div m_baseSize ba) (m_position ba mod m_baseSize ba)
       (m_baseSize ba - m_position ba mod m_baseSize ba) n = Inr iovs"
    "iov_valid (m_root ba) iovs" "iov_total iovs = n"
    "gather (m_root ba) iovs = take n (drop (m_position ba) (contents ba))"
proof -
  note inv = ba_invD [OF assms(1)]
  have lt: "m_position ba < m_capacity ba" using assms(2,3) by simp
  show thesis
    using iov_loop_ok [OF inv(1,3) position_index(1) [OF assms(1) lt],
        of "m_position ba mod m_baseSize ba" "m_baseSize ba - m_position ba mod m_baseSize ba" n]
      assms(2) inv(1,4) that
    by (auto simp: contents_def)
qed

lemma getReadBuffers_ok:
  assumes "ba_inv ba"
  shows "\<exists>iovs. getReadBuffers ba len = Inr (min len (getReadSize ba), iovs)
    \<and> iov_valid (m_root ba) iovs \<and> iov_total iovs = min len (getReadSize ba)
    \<and> gather (m_root ba) iovs = take len (readable ba)"
proof (cases "min len (getReadSize ba) = 0")
  case True
  then have "len = 0 \<or> readable ba = []" using length_readable [OF assms] by (auto simp: min_def split: if_splits)
  then show ?thesis using True
    by (auto simp: getReadBuffers_def gather_def iov_valid_def iov_total_def min_def split: if_splits)
next
  case False
  define n where "n = min len (getReadSize ba)"
  have n: "0 < n" "n \<le> getReadSize ba" using False by (auto simp: n_def)
  note inv = ba_invD [OF assms]
  have le: "m_position ba + n \<le> m_capacity ba" using n inv by (simp add: getReadSize_def)
  have "take len (readable ba) = take n (readable ba)"
    using length_readable [OF assms] by (simp add: n_def min_def)
  then have tk: "take len (readable ba) = take n (drop (m_position ba) (contents ba))"
    using n(2) by (simp add: readable_def)
  obtain iovs where iovs:
    "iov_loop (m_root ba) (m_position ba div m_baseSize ba) (m_position ba mod m_baseSize ba)
       (m_baseSize ba - m_position ba mod m_baseSize ba) n = Inr iovs"
    "iov_valid (m_root ba) iovs" "iov_total iovs = n"
    "gather (m_root ba) iovs = take n (drop (m_position ba) (contents ba))"
    using iov_at_position [OF assms le n(1)] by blast
  have "(if len > getReadSize ba then getReadSize ba else len) = n" by (simp add: n_def min_def)
  then have "getReadBuffers ba len = Inr (n, iovs)"
    using n(1) inv(1) le deref_cursor [OF assms] position_index [OF assms] iovs(1)
    by (simp add: getReadBuffers_def Let_def)
  then show ?thesis using iovs(2-4) tk by (simp add: n_def)
qed

lemma getWriteBuffers_ok:
  assumes "ba_inv ba" "room_for ba len"
  shows "\<exists>iovs ba'. getWriteBuffers ba len = Inr ((len, iovs), ba') \<and> ba_inv ba'
    \<and> m_position ba' = m_position ba \<and> m_size ba' = m_size ba \<and> readable ba' = readable ba
    \<and> iov_valid (m_root ba') iovs \<and> iov_total iovs = len"
proof (cases "len = 0")
  case True
  then show ?thesis using assms(1) by (auto simp: getWriteBuffers_def iov_valid_def iov_total_def)
next
  case False
  define g where "g = grow ba (new_nodes ba len)"
  have g: "ba_inv g" unfolding g_def by (rule grow_inv [OF assms(1)])
  have "len \<le> getCapacity ba + new_nodes ba len * m_baseSize ba"
    using room_for_new_nodes [OF ba_invD(1) [OF assms(1)], of len] assms(2) by blast
  then have le: "m_position g + len \<le> m_capacity g"
    using ba_invD(5,6) [OF assms(1)] by (simp add: g_def getCapacity_def)
  obtain iovs where iovs:
    "iov_loop (m_root g) (m_position g div m_baseSize g) (m_position g mod m_baseSize g)
       (m_baseSize g - m_position g mod m_baseSize g) len = Inr iovs"
    "iov_valid (m_root g) iovs" "iov_total iovs = len"
    using iov_at_position [OF g le] False by blast
  have "getWriteBuffers ba len = Inr ((len, iovs), g)"
    using False ba_invD(1) [OF g] le deref_cursor [OF g] position_index [OF g] iovs(1)
      addCapacity_eq [OF assms(1)]
    by (simp add: getWriteBuffers_def Let_def flip: g_def)
  moreover have "readable g = readable ba"
    using ba_invD [OF assms(1)] by (simp add: readable_def getReadSize_def g_def)
  ultimately show ?thesis using g iovs(2,3) by (auto simp: g_def)
qed

lemma toString_ok:
  assumes "ba_inv ba"
  shows "toString ba = Inr (readable ba)"
proof (cases "getReadSize ba = 0")
  case True
  then show ?thesis by (simp add: toString_def readable_def)
next
  case False
  note inv = ba_invD [OF assms]
  then have lt: "m_position ba < m_capacity ba" using False by (simp add: getReadSize_def)
  have "ba_read ba (getReadSize ba) = Inr (take (getReadSize ba) (readable ba), advance ba (getReadSize ba))"
    by (rule ba_read_ok [OF assms _ lt]) simp
  then show ?thesis using False inv(1)
    by (auto simp: toString_def read_at_def ba_read_def result_iff Let_def length_readable [OF assms]
        bindR_def split: sum.splits prod.splits if_splits)
qed

section \<open>Files\<close>

lemma wtf_loop_aligned:
  assumes "0 < b" "nodes_ok b ns" "i * b + r \<le> length ns * b"
  shows "wtf_loop ns (int b) (cursor b (length ns) (i * b)) (int (i * b)) (int r) out
       = Inr (out @ take r (drop (i * b) (flat ns)))"
  using assms(3)
proof (induction r arbitrary: i out rule: less_induct)
  case (less r)
  show ?case
  proof (cases "r = 0")
    case True
    then show ?thesis by (subst wtf_loop.simps) simp
  next
    case False
    define n where "n = (if r > b then b else r)"
    have n: "0 < n" "n \<le> b" "n \<le> r" "n = b \<or> n = r" using False assms(1) by (auto simp: n_def)
    have "i * b < length ns * b" using less.prems False by linarith
    then have i: "i < length ns" by (simp only: mult_less_cancel2)
    have cur: "cursor b (length ns) (i * b) = Some i" using cursor_within [OF assms(1) i, of 0] assms(1) by simp
    have pk: "memcpy_from (ns ! i) 0 n = Inr (take n (drop (i * b) (flat ns)))"
      using flat_peek [OF assms(2) i, of 0 n] n by simp
    have len: "(if int r > int b then int b else int r) - int (i * b) mod int b = int n"
      by (simp add: n_def)
    have step: "wtf_loop ns (int b) (cursor b (length ns) (i * b)) (int (i * b)) (int r) out
        = wtf_loop ns (int b) (next_node ns i) (int (i * b) + int n) (int r - int n)
            (out @ take n (drop (i * b) (flat ns)))"
      using False pk by (subst wtf_loop.simps) (simp add: cur len [simplified] Let_def)
    have tk: "take n (drop (i * b) (flat ns)) @ take (r - n) (drop (i * b + n) (flat ns))
        = take r (drop (i * b) (flat ns))"
      using take_add [of n "r - n" "drop (i * b) (flat ns)"] n(3) by (simp add: ac_simps)
    show ?thesis
    proof (cases "n = r")
      case True
      then show ?thesis using step by (subst (asm) (2) wtf_loop.simps) simp
    next
      case F: False
      then have nb: "n = b" using n by blast
      have e: "i * b + n = Suc i * b" using nb by simp
      have le: "Suc i * b + (r - n) \<le> length ns * b" unfolding e [symmetric] using less.prems n(3) by linarith
      have "wtf_loop ns (int b) (next_node ns i) (int (i * b) + int n) (int r - int n)
            (out @ take n (drop (i * b) (flat ns)))
          = wtf_loop ns (int b) (cursor b (length ns) (Suc i * b)) (int (Suc i * b)) (int (r - n))
            (out @ take n (drop (i * b) (flat ns)))"
        using n(3) by (simp only: next_node_cursor [OF assms(1) i] e of_nat_diff flip: of_nat_add)
      also have "\<dots> = Inr ((out @ take n (drop (i * b) (flat ns))) @ take (r - n) (drop (Suc i * b) (flat ns)))"
        by (rule less.IH [OF _ le]) (use n in simp)
      finally show ?thesis using step tk by (simp only: e append_assoc)
    qed
  qed
qed

lemma writeToFile_aligned:
  assumes "ba_inv ba" "m_position ba mod m_baseSize ba = 0"
  shows "writeToFile True ba = Inr (True, readable ba)"
proof -
  note inv = ba_invD [OF assms(1)]
  let ?b = "m_baseSize ba" and ?i = "m_position ba div m_baseSize ba"
  have p: "m_position ba = ?i * ?b" using assms(2) by (metis add_0_right div_mult_mod_eq)
  have le: "?i * ?b + getReadSize ba \<le> length (m_root ba) * ?b"
    unfolding p [symmetric] using inv by (simp add: getReadSize_def)
  have "wtf_loop (m_root ba) (int ?b) (m_cur ba) (int (m_position ba)) (int (getReadSize ba)) []
      = Inr (readable ba)"
    using wtf_loop_aligned [OF inv(1,3) le, of "[]"] unfolding p [symmetric] inv(7) [symmetric]
    by (simp add: readable_def contents_def)
  then show ?thesis using inv(1) by (simp add: writeToFile_def)
qed

lemma room_for_aligned:
  assumes "getCapacity ba = 0 \<or> n \<le> getCapacity ba"
  shows "room_for ba n"
  using assms by (auto simp: room_for_def)

definition file_aligned :: "bytearray \<Rightarrow> bool" where
  "file_aligned ba \<longleftrightarrow> ba_inv ba \<and> m_baseSize ba dvd m_position ba"

lemma file_aligned_room:
  assumes "file_aligned ba" "n \<le> m_baseSize ba"
  shows "room_for ba n"
proof -
  have inv: "ba_inv ba" and d: "m_baseSize ba dvd m_position ba"
    using assms(1) by (simp_all add: file_aligned_def)
  have "m_baseSize ba dvd m_capacity ba" using ba_invD(4) [OF inv] by simp
  then have "m_baseSize ba dvd getCapacity ba" using d by (simp add: getCapacity_def dvd_diff_nat)
  then have "getCapacity ba = 0 \<or> m_baseSize ba \<le> getCapacity ba" by (auto dest: dvd_imp_le)
  then show ?thesis using assms(2) by (intro room_for_aligned) auto
qed

lemma rff_loop_ok:
  assumes "file_aligned ba" "b = m_baseSize ba"
  shows "\<exists>ba'. rff_loop b content ba = Inr ba' \<and> written ba content ba'"
  using assms
proof (induction b content ba rule: rff_loop.induct)
  case (1 b content ba)
  have inv: "ba_inv ba" using "1.prems" by (simp add: file_aligned_def)
  show ?case
  proof (cases "0 < b \<and> b \<le> length content")
    case True
    then have len: "length (take b content) = b" by simp
    obtain b1 where b1: "ba_write ba (take b content) = Inr b1" "written ba (take b content) b1"
      using ba_write_ok [OF inv file_aligned_room [OF "1.prems"(1)], of "take b content"] "1.prems"(2) by auto
    have al: "file_aligned b1" "b = m_baseSize b1"
      using b1(2) "1.prems" len by (auto simp: file_aligned_def written_def)
    obtain b2 where b2: "rff_loop b (drop b content) b1 = Inr b2" "written b1 (drop b content) b2"
      using "1.IH" [OF True b1(1) al] by blast
    have "written ba content b2" using written_trans [OF inv b1(2) b2(2)] by simp
    then show ?thesis using b2(1) b1(1) True by (subst rff_loop.simps) auto
  next
    case False
    then have "length content \<le> m_baseSize ba"
      using "1.prems"(2) ba_invD(1) [OF inv] by auto
    then show ?thesis using False ba_write_ok [OF inv] file_aligned_room [OF "1.prems"(1)]
      by (subst rff_loop.simps) auto
  qed
qed

lemma readFromFile_ok:
  assumes "ba_inv ba" "m_baseSize ba dvd m_position ba"
  shows "\<exists>ba'. readFromFile (Some content) ba = Inr (True, ba') \<and> written ba content ba'"
  using rff_loop_ok [of ba "m_baseSize ba" content] assms ba_invD(1) [OF assms(1)]
  by (auto simp: readFromFile_def file_aligned_def)

section \<open>Reachable arrays\<close>

text \<open>Every other writer and reader of the class is a sequence of these.\<close>

inductive ba_reach :: "bytearray \<Rightarrow> bool" where
  create: "0 < b \<Longrightarrow> ba_reach (ByteArray b)"
| endian: "ba_reach ba \<Longrightarrow> ba_reach (setIsLittlEndian v ba)"
| clear: "ba_reach ba \<Longrightarrow> ba_reach (clear ba)"
| store: "ba_reach ba \<Longrightarrow> ba_write ba bs = Inr ba' \<Longrightarrow> ba_reach ba'"
| fetch: "ba_reach ba \<Longrightarrow> ba_read ba n = Inr (cs, ba') \<Longrightarrow> ba_reach ba'"
| seek: "ba_reach ba \<Longrightarrow> setPosition ba v = Inr ba' \<Longrightarrow> ba_reach ba'"
| reserve: "ba_reach ba \<Longrightarrow> addCapacity ba n = Inr ba' \<Longrightarrow> ba_reach ba'"

lemma ba_read_inv:
  assumes "ba_inv ba" "ba_read ba n = Inr (cs, ba')"
  shows "ba_inv ba'"
proof -
  have n: "n \<le> getReadSize ba" "m_position ba < m_capacity ba" using ba_read_iff [OF assms(1)] assms(2) by auto
  then have "ba' = advance ba n" using ba_read_ok [OF assms(1) n] assms(2) by simp
  then show ?thesis using advance_inv [OF assms(1) n(1)] by simp
qed

lemma ba_reach_inv: "ba_reach ba \<Longrightarrow> ba_inv ba"
  by (induction rule: ba_reach.induct)
     (auto intro: inv_intros ba_read_inv setPosition_inv written_inv [OF ba_write_written]
       simp: addCapacity_eq grow_inv)

end
