(* ===== verification/Cpp_String.thy ===== *)
theory Cpp_String
  imports Cpp_Prelude
begin

text \<open>
  The C and C++ string functions the sources call. A \<open>std::string\<close> is a \<open>char list\<close> and may hold
  NUL bytes; \<open>c_str\<close> is what a C function sees of it, the bytes before the first NUL. The
  comparisons are those of the C locale on unsigned bytes.
\<close>

definition c_str :: "string \<Rightarrow> string" where
  "c_str s = takeWhile (\<lambda>c. of_char c \<noteq> (0 :: nat)) s"

definition char_tolower :: "char \<Rightarrow> char" where
  "char_tolower c =
     (if 65 \<le> (of_char c :: nat) \<and> (of_char c :: nat) \<le> 90 then char_of ((of_char c :: nat) + 32) else c)"

definition char_toupper :: "char \<Rightarrow> char" where
  "char_toupper c =
     (if 97 \<le> (of_char c :: nat) \<and> (of_char c :: nat) \<le> 122 then char_of ((of_char c :: nat) - 32) else c)"

fun strcasecmp_c :: "string \<Rightarrow> string \<Rightarrow> int" where
  "strcasecmp_c [] [] = 0"
| "strcasecmp_c [] (y # ys) = - of_char (char_tolower y)"
| "strcasecmp_c (x # xs) [] = of_char (char_tolower x)"
| "strcasecmp_c (x # xs) (y # ys) =
     (if char_tolower x = char_tolower y then strcasecmp_c xs ys
      else of_char (char_tolower x) - of_char (char_tolower y))"

definition strcasecmp :: "string \<Rightarrow> string \<Rightarrow> int" where
  "strcasecmp a b = strcasecmp_c (c_str a) (c_str b)"

text \<open>\<open>strncmp (lit, s, n) == 0\<close> for a literal without NUL bytes: the first \<open>n\<close> bytes agree, where
  either string may end early.\<close>

fun strncmp_eq :: "string \<Rightarrow> string \<Rightarrow> nat \<Rightarrow> bool" where
  "strncmp_eq xs ys 0 = True"
| "strncmp_eq [] [] (Suc n) = True"
| "strncmp_eq [] (y # ys) (Suc n) = False"
| "strncmp_eq (x # xs) [] (Suc n) = False"
| "strncmp_eq (x # xs) (y # ys) (Suc n) = (x = y \<and> strncmp_eq xs ys n)"

definition string_less :: "string \<Rightarrow> string \<Rightarrow> bool" where
  "string_less a b = ord_class.lexordp (map (of_char :: char \<Rightarrow> nat) a) (map of_char b)"

fun nat_to_string :: "nat \<Rightarrow> string" where
  "nat_to_string n =
     (if n < 10 then [char_of (48 + n)] else nat_to_string (n div 10) @ [char_of (48 + n mod 10)])"

declare nat_to_string.simps [simp del]

definition int_to_string :: "int \<Rightarrow> string" where
  "int_to_string i = (if i < 0 then ''-'' @ nat_to_string (nat (- i)) else nat_to_string (nat i))"

definition digit_val :: "char \<Rightarrow> nat option" where
  "digit_val c = (if 48 \<le> (of_char c :: nat) \<and> (of_char c :: nat) \<le> 57 then Some (of_char c - 48) else None)"

definition all_digits :: "string \<Rightarrow> bool" where
  "all_digits s = list_all (\<lambda>c. digit_val c \<noteq> None) s"

definition dec_value :: "string \<Rightarrow> nat" where
  "dec_value s = foldl (\<lambda>a c. 10 * a + (of_char c - 48)) 0 s"

text \<open>The case-folded bytes of the C string, the key by which \<open>strcasecmp\<close> compares.\<close>

definition casekey :: "string \<Rightarrow> nat list" where
  "casekey s = map (\<lambda>c. of_char (char_tolower c)) (c_str s)"

text \<open>CRLF, the line end of HTTP.\<close>

definition crlf :: string where
  "crlf = [CHR 0x0D, CHR 0x0A]"

section \<open>Lemmas\<close>

lemma of_char_less [simp]: "(of_char c :: nat) < 256"
  using of_char_mod_256 [of c, where ?'a = nat] by (metis mod_less_divisor zero_less_numeral)

lemma c_str_idem [simp]: "c_str (c_str s) = c_str s"
  by (simp add: c_str_def takeWhile_idem)

lemma c_str_no_nul: "c \<in> set (c_str s) \<Longrightarrow> of_char c \<noteq> (0 :: nat)"
  by (auto simp: c_str_def dest: set_takeWhileD)

lemma tolower_pos: "0 < (of_char c :: nat) \<Longrightarrow> 0 < (of_char (char_tolower c) :: nat)"
  by (auto simp: char_tolower_def)

lemma of_char_int: "(of_char c :: int) = int (of_char c)"
  by (simp add: of_nat_of_char)

lemma of_char_nat_inj: "(of_char c :: nat) = of_char d \<longleftrightarrow> c = d"
  by simp

lemma strcasecmp_c_neg:
  assumes "\<forall>c \<in> set b. (of_char (char_tolower c) :: nat) \<noteq> 0"
  shows "strcasecmp_c a b < 0 \<longleftrightarrow>
    ord_class.lexordp (map (\<lambda>c. of_char (char_tolower c) :: nat) a) (map (\<lambda>c. of_char (char_tolower c)) b)"
  using assms
proof (induction a b rule: strcasecmp_c.induct)
  case (2 y ys)
  then show ?case by (simp add: of_char_int del: of_nat_of_char)
next
  case (4 x xs y ys)
  have "(of_char (char_tolower x) :: int) < of_char (char_tolower y) \<longleftrightarrow>
    (of_char (char_tolower x) :: nat) < of_char (char_tolower y)"
    by (simp add: of_char_int del: of_nat_of_char)
  then show ?case using 4 by auto
qed (auto simp: of_char_int simp del: of_nat_of_char)

lemma strcasecmp_c_zero:
  assumes "\<forall>c \<in> set a \<union> set b. (of_char (char_tolower c) :: nat) \<noteq> 0"
  shows "strcasecmp_c a b = 0 \<longleftrightarrow> map char_tolower a = map char_tolower b"
  using assms
  by (induction a b rule: strcasecmp_c.induct) (auto simp: of_char_int simp del: of_nat_of_char)

lemma strcasecmp_neg: "strcasecmp a b < 0 \<longleftrightarrow> ord_class.lexordp (casekey a) (casekey b)"
  unfolding strcasecmp_def casekey_def
  by (rule strcasecmp_c_neg) (auto dest!: c_str_no_nul simp: tolower_pos)

lemma strcasecmp_zero: "strcasecmp a b = 0 \<longleftrightarrow> casekey a = casekey b"
proof -
  have "strcasecmp a b = 0 \<longleftrightarrow> map char_tolower (c_str a) = map char_tolower (c_str b)"
    unfolding strcasecmp_def by (rule strcasecmp_c_zero) (auto dest!: c_str_no_nul simp: tolower_pos)
  also have "\<dots> \<longleftrightarrow> map of_char (map char_tolower (c_str a)) = (map of_char (map char_tolower (c_str b)) :: nat list)"
    by (rule inj_map_eq_map [symmetric]) (simp add: inj_def)
  finally show ?thesis by (simp add: casekey_def comp_def)
qed

text \<open>Comparing through a list of numbers is a strict weak order; every comparator on strings in the
  sources is of this form.\<close>

lemma lexord_key_swo: "strict_weak_order (\<lambda>a b. ord_class.lexordp (f a :: nat list) (f b))"
proof
  fix x y z
  show "\<not> ord_class.lexordp (f x) (f x)"
    by (rule lexordp_irreflexive')
  show "ord_class.lexordp (f x) (f y) \<Longrightarrow> ord_class.lexordp (f y) (f z) \<Longrightarrow> ord_class.lexordp (f x) (f z)"
    by (rule linorder_class.lexordp_trans)
  show "\<not> ord_class.lexordp (f x) (f y) \<Longrightarrow> \<not> ord_class.lexordp (f y) (f z) \<Longrightarrow> \<not> ord_class.lexordp (f x) (f z)"
    using linorder_class.lexordp_linear linorder_class.lexordp_trans by metis
qed

lemma strncmp_eq_prefix: "strncmp_eq lit s (length lit) \<longleftrightarrow> prefix lit s"
proof (induction lit arbitrary: s)
  case Nil
  then show ?case by simp
next
  case (Cons a lit)
  then show ?case by (cases s) auto
qed

lemma nat_to_string_nonempty [simp]: "nat_to_string n \<noteq> []"
  by (subst nat_to_string.simps) simp

lemma digit_char: "d < 10 \<Longrightarrow> (of_char (char_of (48 + d) :: char) :: nat) = 48 + d"
  by simp

lemma nat_to_string_digits: "all_digits (nat_to_string n)"
proof (induction n rule: nat_to_string.induct)
  case (1 n)
  then show ?case
    by (subst nat_to_string.simps) (auto simp: all_digits_def digit_val_def digit_char)
qed

lemma dec_value_append: "dec_value (s @ [c]) = 10 * dec_value s + (of_char c - 48)"
  by (simp add: dec_value_def)

lemma dec_value_to_string: "dec_value (nat_to_string n) = n"
proof (induction n rule: nat_to_string.induct)
  case (1 n)
  show ?case
  proof (cases "n < 10")
    case True
    then show ?thesis by (subst nat_to_string.simps) (simp add: dec_value_def)
  next
    case False
    then show ?thesis using 1
      by (subst nat_to_string.simps) (simp add: dec_value_append)
  qed
qed

end
