(* ===== verification/Http.thy ===== *)
theory Http
  imports Cpp_String
begin

text \<open>
  \<open>src/myhttp/http/http.cpp\<close> and \<open>http.h\<close>: methods, status codes, the case-insensitive header map,
  \<open>HttpRequest\<close>, \<open>HttpResponse\<close> and their serialisation. A header map is a \<open>std::map\<close> with the
  comparator \<open>CaseInsensitiLess\<close>, that is, the sorted list of its pairs. \<open>boost::lexical_cast\<close> is a
  parameter of the typed getters. \<open>HttpStatus\<close> is kept as its underlying number because the client
  parser casts an arbitrary number to it.
\<close>

section \<open>Methods and status codes\<close>

datatype HttpMethod =
    DELETE | GET | HEAD | POST | PUT | CONNECT | OPTIONS | TRACE | COPY | LOCK | MKCOL | MOVE |
    PROPFIND | PROPPATCH | SEARCH | UNLOCK | BIND | REBIND | UNBIND | ACL | REPORT |
    MKACTIVITY | CHECKOUT | MERGE | MSEARCH | NOTIFY | SUBSCRIBE | UNSUBSCRIBE | PATCH |
    PURGE | MKCALENDAR | LINK | UNLINK | SOURCE | HTT_INVALID_METHOD

definition HTTP_METHOD_MAP :: "(HttpMethod \<times> string) list" where
  "HTTP_METHOD_MAP =
    [(DELETE, ''DELETE''), (GET, ''GET''), (HEAD, ''HEAD''), (POST, ''POST''), (PUT, ''PUT''),
     (CONNECT, ''CONNECT''), (OPTIONS, ''OPTIONS''), (TRACE, ''TRACE''), (COPY, ''COPY''),
     (LOCK, ''LOCK''), (MKCOL, ''MKCOL''), (MOVE, ''MOVE''), (PROPFIND, ''PROPFIND''),
     (PROPPATCH, ''PROPPATCH''), (SEARCH, ''SEARCH''), (UNLOCK, ''UNLOCK''), (BIND, ''BIND''),
     (REBIND, ''REBIND''), (UNBIND, ''UNBIND''), (ACL, ''ACL''), (REPORT, ''REPORT''),
     (MKACTIVITY, ''MKACTIVITY''), (CHECKOUT, ''CHECKOUT''), (MERGE, ''MERGE''),
     (MSEARCH, ''M-SEARCH''), (NOTIFY, ''NOTIFY''), (SUBSCRIBE, ''SUBSCRIBE''),
     (UNSUBSCRIBE, ''UNSUBSCRIBE''), (PATCH, ''PATCH''), (PURGE, ''PURGE''),
     (MKCALENDAR, ''MKCALENDAR''), (LINK, ''LINK''), (UNLINK, ''UNLINK''), (SOURCE, ''SOURCE'')]"

type_synonym HttpStatus = u32

definition HTTP_STATUS_MAP :: "(HttpStatus \<times> string) list" where
  "HTTP_STATUS_MAP =
    [(100, ''Continue''), (101, ''Switching Protocols''), (102, ''Processing''), (200, ''OK''),
     (201, ''Created''), (202, ''Accepted''), (203, ''Non-Authoritative Information''),
     (204, ''No Content''), (205, ''Reset Content''), (206, ''Partial Content''),
     (207, ''Multi-Status''), (208, ''Already Reported''), (226, ''IM Used''),
     (300, ''Multiple Choices''), (301, ''Moved Permanently''), (302, ''Found''),
     (303, ''See Other''), (304, ''Not Modified''), (305, ''Use Proxy''),
     (307, ''Temporary Redirect''), (308, ''Permanent Redirect''), (400, ''Bad Request''),
     (401, ''Unauthorized''), (402, ''Payment Required''), (403, ''Forbidden''),
     (404, ''Not Found''), (405, ''Method Not Allowed''), (406, ''Not Acceptable''),
     (407, ''Proxy Authentication Required''), (408, ''Request Timeout''), (409, ''Conflict''),
     (410, ''Gone''), (411, ''Length Required''), (412, ''Precondition Failed''),
     (413, ''Payload Too Large''), (414, ''URI Too Long''), (415, ''Unsupported Media Type''),
     (416, ''Range Not Satisfiable''), (417, ''Expectation Failed''),
     (421, ''Misdirected Request''), (422, ''Unprocessable Entity''), (423, ''Locked''),
     (424, ''Failed Dependency''), (426, ''Upgrade Required''),
     (428, ''Precondition Required''), (429, ''Too Many Requests''),
     (431, ''Request Header Fields Too Large''), (451, ''Unavailable For Legal Reasons''),
     (500, ''Internal Server Error''), (501, ''Not Implemented''), (502, ''Bad Gateway''),
     (503, ''Service Unavailable''), (504, ''Gateway Timeout''),
     (505, ''HTTP Version Not Supported''), (506, ''Variant Also Negotiates''),
     (507, ''Insufficient Storage''), (508, ''Loop Detected''), (510, ''Not Extended''),
     (511, ''Network Authentication Required'')]"

definition CharsToHttpMethod :: "string \<Rightarrow> HttpMethod" where
  "CharsToHttpMethod m =
     (case find (\<lambda>(name, lit). strncmp_eq lit m (length lit)) HTTP_METHOD_MAP of
        Some (name, lit) \<Rightarrow> name
      | None \<Rightarrow> HTT_INVALID_METHOD)"

definition StringToHttpMethod :: "string \<Rightarrow> HttpMethod" where
  "StringToHttpMethod m = CharsToHttpMethod (c_str m)"

definition s_method_string :: "string list" where
  "s_method_string = map snd HTTP_METHOD_MAP"

primrec index_of :: "'a \<Rightarrow> 'a list \<Rightarrow> nat" where
  "index_of x [] = 0"
| "index_of x (y # ys) = (if x = y then 0 else Suc (index_of x ys))"

definition method_number :: "HttpMethod \<Rightarrow> nat" where
  "method_number m = index_of m (map fst HTTP_METHOD_MAP)"

definition HttpMethodToString :: "HttpMethod \<Rightarrow> string result" where
  "HttpMethodToString m =
     (let idx = method_number m
      in if idx > length s_method_string then Inr ''<unknown>''
         else if idx < length s_method_string then Inr (s_method_string ! idx)
         else Inl OutOfBounds)"

definition HttpStatusToString :: "HttpStatus \<Rightarrow> string" where
  "HttpStatusToString s = (case map_of HTTP_STATUS_MAP s of Some msg \<Rightarrow> msg | None \<Rightarrow> ''<unknown>'')"

section \<open>Header maps\<close>

definition CaseInsensitiLess :: "string \<Rightarrow> string \<Rightarrow> bool" where
  "CaseInsensitiLess lhs rhs \<longleftrightarrow> strcasecmp lhs rhs < 0"

type_synonym MapType = "(string \<times> string) list"

definition checkgetAs ::
  "(string \<Rightarrow> 't option) \<Rightarrow> MapType \<Rightarrow> string \<Rightarrow> 't \<Rightarrow> bool \<times> 't" where
  "checkgetAs lexical_cast m key def =
     (case map_find CaseInsensitiLess key m of
        None \<Rightarrow> (False, def)
      | Some it \<Rightarrow> (case lexical_cast (snd it) of Some v \<Rightarrow> (True, v) | None \<Rightarrow> (False, def)))"

definition getAs :: "(string \<Rightarrow> 't option) \<Rightarrow> MapType \<Rightarrow> string \<Rightarrow> 't \<Rightarrow> 't" where
  "getAs lexical_cast m key def =
     (case map_find CaseInsensitiLess key m of
        None \<Rightarrow> def
      | Some it \<Rightarrow> (case lexical_cast (snd it) of Some v \<Rightarrow> v | None \<Rightarrow> def))"

section \<open>HttpRequest\<close>

record HttpRequest =
  rq_method :: HttpMethod
  rq_version :: u8
  rq_close :: bool
  rq_path :: string
  rq_query :: string
  rq_fragment :: string
  rq_body :: string
  rq_headers :: MapType
  rq_params :: MapType
  rq_cookies :: MapType

definition new_HttpRequest :: "u8 \<Rightarrow> bool \<Rightarrow> HttpRequest" where
  "new_HttpRequest version close =
     \<lparr>rq_method = GET, rq_version = version, rq_close = close, rq_path = ''/'', rq_query = [],
      rq_fragment = [], rq_body = [], rq_headers = [], rq_params = [], rq_cookies = []\<rparr>"

definition map_getOr :: "MapType \<Rightarrow> string \<Rightarrow> string \<Rightarrow> string" where
  "map_getOr m key def = (case map_find CaseInsensitiLess key m of None \<Rightarrow> def | Some it \<Rightarrow> snd it)"

definition map_has :: "MapType \<Rightarrow> string \<Rightarrow> string \<Rightarrow> bool \<times> string" where
  "map_has m key val =
     (case map_find CaseInsensitiLess key m of None \<Rightarrow> (False, val) | Some it \<Rightarrow> (True, snd it))"

definition getHeader :: "HttpRequest \<Rightarrow> string \<Rightarrow> string \<Rightarrow> string" where
  "getHeader r key def = map_getOr (rq_headers r) key def"
definition setHeader :: "HttpRequest \<Rightarrow> string \<Rightarrow> string \<Rightarrow> HttpRequest" where
  "setHeader r key val = r\<lparr>rq_headers := map_put CaseInsensitiLess key val (rq_headers r)\<rparr>"
definition delHeader :: "HttpRequest \<Rightarrow> string \<Rightarrow> HttpRequest" where
  "delHeader r key = r\<lparr>rq_headers := map_erase CaseInsensitiLess key (rq_headers r)\<rparr>"
definition hasHeader :: "HttpRequest \<Rightarrow> string \<Rightarrow> string \<Rightarrow> bool \<times> string" where
  "hasHeader r key val = map_has (rq_headers r) key val"

definition getParam :: "HttpRequest \<Rightarrow> string \<Rightarrow> string \<Rightarrow> string" where
  "getParam r key def = map_getOr (rq_params r) key def"
definition setParam :: "HttpRequest \<Rightarrow> string \<Rightarrow> string \<Rightarrow> HttpRequest" where
  "setParam r key val = r\<lparr>rq_params := map_put CaseInsensitiLess key val (rq_params r)\<rparr>"
definition delParam :: "HttpRequest \<Rightarrow> string \<Rightarrow> HttpRequest" where
  "delParam r key = r\<lparr>rq_params := map_erase CaseInsensitiLess key (rq_params r)\<rparr>"
definition hasParam :: "HttpRequest \<Rightarrow> string \<Rightarrow> string \<Rightarrow> bool \<times> string" where
  "hasParam r key val = map_has (rq_params r) key val"

definition getCookie :: "HttpRequest \<Rightarrow> string \<Rightarrow> string \<Rightarrow> string" where
  "getCookie r key def = map_getOr (rq_cookies r) key def"
definition setCookie :: "HttpRequest \<Rightarrow> string \<Rightarrow> string \<Rightarrow> HttpRequest" where
  "setCookie r key val = r\<lparr>rq_cookies := map_put CaseInsensitiLess key val (rq_cookies r)\<rparr>"
definition delCookie :: "HttpRequest \<Rightarrow> string \<Rightarrow> HttpRequest" where
  "delCookie r key = r\<lparr>rq_cookies := map_erase CaseInsensitiLess key (rq_cookies r)\<rparr>"
definition hasCookie :: "HttpRequest \<Rightarrow> string \<Rightarrow> string \<Rightarrow> bool \<times> string" where
  "hasCookie r key val = map_has (rq_cookies r) key val"

definition version_string :: "u8 \<Rightarrow> string" where
  "version_string v =
     ''HTTP/'' @ nat_to_string (unat (drop_bit 4 v)) @ ''.'' @ nat_to_string (unat (v AND 0x0F))"

definition close_string :: "bool \<Rightarrow> string" where
  "close_string close = ''connection: '' @ (if close then ''close'' else ''keep-alive'') @ crlf"

definition dump_headers :: "string \<Rightarrow> MapType \<Rightarrow> string" where
  "dump_headers sep m =
     concat (map (\<lambda>(k, v). if strcasecmp k ''connection'' = 0 then [] else k @ sep @ v @ crlf) m)"

definition dump_body :: "string \<Rightarrow> string" where
  "dump_body body =
     (if body \<noteq> [] then ''content-length: '' @ nat_to_string (length body) @ crlf @ crlf @ body
      else crlf)"

definition HttpRequest_dump :: "HttpRequest \<Rightarrow> string result" where
  "HttpRequest_dump r =
     bindR (HttpMethodToString (rq_method r)) (\<lambda>m.
       Inr (m @ '' '' @ rq_path r @ (if rq_query r = [] then [] else ''?'') @ rq_query r
            @ (if rq_fragment r = [] then [] else ''#'') @ rq_fragment r @ '' ''
            @ version_string (rq_version r) @ crlf
            @ close_string (rq_close r)
            @ dump_headers '':'' (rq_headers r)
            @ dump_body (rq_body r)))"

definition HttpRequest_toString :: "HttpRequest \<Rightarrow> string result" where
  "HttpRequest_toString r = HttpRequest_dump r"

section \<open>HttpResponse\<close>

record HttpResponse =
  rs_status :: HttpStatus
  rs_version :: u8
  rs_close :: bool
  rs_body :: string
  rs_reason :: string
  rs_headers :: MapType

definition new_HttpResponse :: "u8 \<Rightarrow> bool \<Rightarrow> HttpResponse" where
  "new_HttpResponse version close =
     \<lparr>rs_status = 200, rs_version = version, rs_close = close, rs_body = [], rs_reason = [],
      rs_headers = []\<rparr>"

definition rs_getHead :: "HttpResponse \<Rightarrow> string \<Rightarrow> string \<Rightarrow> string" where
  "rs_getHead r key def = map_getOr (rs_headers r) key def"

definition rs_setHeader :: "HttpResponse \<Rightarrow> string \<Rightarrow> string \<Rightarrow> HttpResponse" where
  "rs_setHeader r key val = r\<lparr>rs_headers := map_put CaseInsensitiLess key val (rs_headers r)\<rparr>"

definition rs_delHeader :: "HttpResponse \<Rightarrow> string \<Rightarrow> HttpResponse" where
  "rs_delHeader r key = r\<lparr>rs_headers := map_erase CaseInsensitiLess key (rs_headers r)\<rparr>"

definition HttpResponse_dump :: "HttpResponse \<Rightarrow> string" where
  "HttpResponse_dump r =
     version_string (rs_version r) @ '' '' @ nat_to_string (unat (rs_status r)) @ '' ''
     @ (if rs_reason r = [] then HttpStatusToString (rs_status r) else rs_reason r) @ crlf
     @ dump_headers '': '' (rs_headers r)
     @ close_string (rs_close r)
     @ dump_body (rs_body r)"

definition HttpResponse_toString :: "HttpResponse \<Rightarrow> string" where
  "HttpResponse_toString r = HttpResponse_dump r"

end
