(* ===== verification/Http_Lemmas.thy ===== *)
theory Http_Lemmas
  imports Http
begin

text \<open>
  Properties of the HTTP data model: the header comparator is a strict weak order whose classes are
  the case-folded names, so the maps of requests and responses are key-value stores; the method
  names round-trip; the serialised text splits back into its lines and its body.
\<close>

section \<open>Header maps\<close>

definition same_name :: "string \<Rightarrow> string \<Rightarrow> bool" where
  "same_name a b \<longleftrightarrow> casekey a = casekey b"

lemma CaseInsensitiLess_key: "CaseInsensitiLess a b \<longleftrightarrow> ord_class.lexordp (casekey a) (casekey b)"
  by (simp add: CaseInsensitiLess_def strcasecmp_neg)

lemma eqv_CaseInsensitiLess: "eqv CaseInsensitiLess = same_name"
proof (intro ext)
  fix a b
  show "eqv CaseInsensitiLess a b = same_name a b"
    using linorder_class.lexordp_linear [of "casekey a" "casekey b"] lexordp_irreflexive' [of "casekey a"]
    by (auto simp: eqv_def same_name_def CaseInsensitiLess_key)
qed

interpretation ci: strict_weak_order CaseInsensitiLess
  rewrites "eqv CaseInsensitiLess = same_name"
  using lexord_key_swo [of casekey] eqv_CaseInsensitiLess by (simp_all add: CaseInsensitiLess_key [abs_def])

interpretation rq_hdr: kv_store "\<lambda>r k. map_get CaseInsensitiLess k (rq_headers r)" setHeader delHeader
    "\<lambda>r. map_ok CaseInsensitiLess (rq_headers r)" same_name
  by unfold_locales (simp_all add: setHeader_def delHeader_def ci.omap.put_inv ci.omap.del_inv ci.omap.get_put ci.omap.get_del)

interpretation rq_prm: kv_store "\<lambda>r k. map_get CaseInsensitiLess k (rq_params r)" setParam delParam
    "\<lambda>r. map_ok CaseInsensitiLess (rq_params r)" same_name
  by unfold_locales (simp_all add: setParam_def delParam_def ci.omap.put_inv ci.omap.del_inv ci.omap.get_put ci.omap.get_del)

interpretation rq_cki: kv_store "\<lambda>r k. map_get CaseInsensitiLess k (rq_cookies r)" setCookie delCookie
    "\<lambda>r. map_ok CaseInsensitiLess (rq_cookies r)" same_name
  by unfold_locales (simp_all add: setCookie_def delCookie_def ci.omap.put_inv ci.omap.del_inv ci.omap.get_put ci.omap.get_del)

interpretation rs_hdr: kv_store "\<lambda>r k. map_get CaseInsensitiLess k (rs_headers r)" rs_setHeader rs_delHeader
    "\<lambda>r. map_ok CaseInsensitiLess (rs_headers r)" same_name
  by unfold_locales (simp_all add: rs_setHeader_def rs_delHeader_def ci.omap.put_inv ci.omap.del_inv ci.omap.get_put ci.omap.get_del)

lemma map_getOr_get: "map_getOr m k d = (case map_get CaseInsensitiLess k m of None \<Rightarrow> d | Some v \<Rightarrow> v)"
  by (simp add: map_getOr_def map_get_def split: option.splits)

lemma map_has_get:
  "map_has m k v = (case map_get CaseInsensitiLess k m of None \<Rightarrow> (False, v) | Some v' \<Rightarrow> (True, v'))"
  by (simp add: map_has_def map_get_def split: option.splits)

lemma checkgetAs_getAs: "snd (checkgetAs cast m k d) = getAs cast m k d"
  by (simp add: checkgetAs_def getAs_def split: option.splits)

section \<open>Methods\<close>

lemma method_table_sound:
  "list_all (\<lambda>m. case HttpMethodToString m of Inr s \<Rightarrow> StringToHttpMethod s = m | Inl _ \<Rightarrow> False)
     (map fst HTTP_METHOD_MAP)"
  by code_simp

lemma method_table_prefix_free:
  "list_all (\<lambda>(m, lit). list_all (\<lambda>(m', lit'). prefix lit lit' \<longrightarrow> m = m') HTTP_METHOD_MAP) HTTP_METHOD_MAP"
  by code_simp

lemma method_table_complete: "m \<noteq> HTT_INVALID_METHOD \<Longrightarrow> m \<in> set (map fst HTTP_METHOD_MAP)"
  by (cases m) (simp_all add: HTTP_METHOD_MAP_def)

lemma invalid_not_in_table: "(HTT_INVALID_METHOD, lit) \<notin> set HTTP_METHOD_MAP"
  by (simp add: HTTP_METHOD_MAP_def)

lemma method_name_roundtrip:
  assumes "m \<noteq> HTT_INVALID_METHOD"
  shows "\<exists>s. HttpMethodToString m = Inr s \<and> StringToHttpMethod s = m"
proof -
  have "case HttpMethodToString m of Inr s \<Rightarrow> StringToHttpMethod s = m | Inl _ \<Rightarrow> False"
    using method_table_sound method_table_complete [OF assms] unfolding list_all_iff by blast
  then show ?thesis by (auto split: sum.splits)
qed

lemma StringToHttpMethod_prefix:
  assumes "m \<noteq> HTT_INVALID_METHOD"
  shows "StringToHttpMethod s = m \<longleftrightarrow> (\<exists>lit. (m, lit) \<in> set HTTP_METHOD_MAP \<and> prefix lit (c_str s))"
proof (cases "find (\<lambda>(name, lit). strncmp_eq lit (c_str s) (length lit)) HTTP_METHOD_MAP")
  case None
  then have "\<not> prefix lit (c_str s)" if "(m', lit) \<in> set HTTP_METHOD_MAP" for m' lit
    using that by (auto simp: find_None_iff strncmp_eq_prefix)
  then show ?thesis using None assms by (auto simp: StringToHttpMethod_def CharsToHttpMethod_def)
next
  case (Some p)
  obtain n l where p: "p = (n, l)" by (cases p)
  then have nl: "(n, l) \<in> set HTTP_METHOD_MAP" "prefix l (c_str s)"
    using Some by (auto simp: find_Some_iff strncmp_eq_prefix in_set_conv_nth)
  have uniq: "n = m" if "(m, lit) \<in> set HTTP_METHOD_MAP" "prefix lit (c_str s)" for lit
    using prefix_same_cases [OF nl(2) that(2)] that(1) nl(1) method_table_prefix_free
    by (fastforce simp: list_all_iff)
  show ?thesis using Some p nl uniq by (auto simp: StringToHttpMethod_def CharsToHttpMethod_def)
qed

lemma HttpMethodToString_invalid: "HttpMethodToString HTT_INVALID_METHOD = Inl OutOfBounds"
  by code_simp

section \<open>Serialised messages\<close>

text \<open>A reference reader for the text of a message: lines up to CRLF, an empty line, the body.\<close>

definition split_line :: "string \<Rightarrow> (string \<times> string) option" where
  "split_line s =
     (case dropWhile (\<lambda>c. c \<noteq> CHR 0x0D) s of
        cr # lf # rest \<Rightarrow>
          if lf = CHR 0x0A then Some (takeWhile (\<lambda>c. c \<noteq> CHR 0x0D) s, rest) else None
      | _ \<Rightarrow> None)"

lemma split_line_shorter: "split_line s = Some (l, rest) \<Longrightarrow> length rest < length s"
proof -
  assume "split_line s = Some (l, rest)"
  then obtain c d where "dropWhile (\<lambda>c. c \<noteq> CHR 0x0D) s = c # d # rest"
    by (auto simp: split_line_def split: list.splits if_splits)
  then show ?thesis using length_dropWhile_le [of "\<lambda>c. c \<noteq> CHR 0x0D" s] by simp
qed

function split_message :: "string \<Rightarrow> (string list \<times> string) option" where
  "split_message s =
     (case split_line s of
        None \<Rightarrow> None
      | Some (l, rest) \<Rightarrow>
          if l = [] then Some ([], rest)
          else map_option (\<lambda>(ls, body). (l # ls, body)) (split_message rest))"
  by pat_completeness auto
termination
  by (relation "measure length") (auto dest: split_line_shorter)

declare split_message.simps [simp del]

definition no_cr :: "string \<Rightarrow> bool" where
  "no_cr s \<longleftrightarrow> CHR 0x0D \<notin> set s"

lemma no_cr_simps [simp]:
  "no_cr []"
  "no_cr (c # s) \<longleftrightarrow> c \<noteq> CHR 0x0D \<and> no_cr s"
  by (auto simp: no_cr_def)

lemma no_cr_append [simp]: "no_cr (a @ b) \<longleftrightarrow> no_cr a \<and> no_cr b"
  by (auto simp: no_cr_def)

lemma split_line_crlf: "no_cr l \<Longrightarrow> split_line (l @ crlf @ rest) = Some (l, rest)"
proof -
  assume "no_cr l"
  then have "\<forall>c \<in> set l. c \<noteq> CHR 0x0D" by (auto simp: no_cr_def)
  then show ?thesis by (simp add: split_line_def crlf_def dropWhile_append2 takeWhile_append2)
qed

lemma split_message_lines:
  assumes "list_all (\<lambda>l. no_cr l \<and> l \<noteq> []) ls"
  shows "split_message (concat (map (\<lambda>l. l @ crlf) ls) @ crlf @ body) = Some (ls, body)"
  using assms
proof (induction ls)
  case Nil
  have "split_line (crlf @ body) = Some ([], body)"
    using split_line_crlf [of "[]" body] by (simp add: no_cr_def)
  then show ?case by (subst split_message.simps) simp
next
  case (Cons l ls)
  then have "split_line (l @ crlf @ concat (map (\<lambda>l. l @ crlf) ls) @ crlf @ body)
      = Some (l, concat (map (\<lambda>l. l @ crlf) ls) @ crlf @ body)"
    by (intro split_line_crlf) simp
  then show ?case using Cons by (subst split_message.simps) simp
qed

lemma no_cr_digits: "all_digits s \<Longrightarrow> no_cr s"
  by (auto simp: all_digits_def list_all_iff no_cr_def digit_val_def)

lemma no_cr_nat [simp]: "no_cr (nat_to_string n)"
  by (rule no_cr_digits [OF nat_to_string_digits])

definition header_lines :: "string \<Rightarrow> MapType \<Rightarrow> string list" where
  "header_lines sep m = map (\<lambda>(k, v). k @ sep @ v) (filter (\<lambda>(k, v). strcasecmp k ''connection'' \<noteq> 0) m)"

definition length_lines :: "string \<Rightarrow> string list" where
  "length_lines body = (if body \<noteq> [] then [''content-length: '' @ nat_to_string (length body)] else [])"

definition close_line :: "bool \<Rightarrow> string" where
  "close_line close = ''connection: '' @ (if close then ''close'' else ''keep-alive'')"

definition headers_no_cr :: "MapType \<Rightarrow> bool" where
  "headers_no_cr m = list_all (\<lambda>(k, v). no_cr k \<and> no_cr v) m"

lemma dump_headers_lines: "dump_headers sep m = concat (map (\<lambda>l. l @ crlf) (header_lines sep m))"
  by (induction m) (auto simp: dump_headers_def header_lines_def)

lemma dump_body_lines: "dump_body body = concat (map (\<lambda>l. l @ crlf) (length_lines body)) @ crlf @ body"
  by (simp add: dump_body_def length_lines_def)

lemma close_string_line: "close_string c = close_line c @ crlf"
  by (simp add: close_string_def close_line_def)

lemma header_lines_ok:
  assumes "headers_no_cr m" "no_cr sep" "sep \<noteq> []"
  shows "list_all (\<lambda>l. no_cr l \<and> l \<noteq> []) (header_lines sep m)"
  using assms by (auto simp: headers_no_cr_def header_lines_def list_all_iff)

lemma length_lines_ok: "list_all (\<lambda>l. no_cr l \<and> l \<noteq> []) (length_lines body)"
  by (simp add: length_lines_def)

lemma close_line_ok: "no_cr (close_line c) \<and> close_line c \<noteq> []"
  by (simp add: close_line_def)

definition request_line :: "string \<Rightarrow> HttpRequest \<Rightarrow> string" where
  "request_line m r =
     m @ '' '' @ rq_path r @ (if rq_query r = [] then [] else ''?'') @ rq_query r
     @ (if rq_fragment r = [] then [] else ''#'') @ rq_fragment r @ '' '' @ version_string (rq_version r)"

definition status_line :: "HttpResponse \<Rightarrow> string" where
  "status_line r =
     version_string (rs_version r) @ '' '' @ nat_to_string (unat (rs_status r)) @ '' ''
     @ (if rs_reason r = [] then HttpStatusToString (rs_status r) else rs_reason r)"

definition request_no_cr :: "HttpRequest \<Rightarrow> bool" where
  "request_no_cr r \<longleftrightarrow> no_cr (rq_path r) \<and> no_cr (rq_query r) \<and> no_cr (rq_fragment r) \<and> headers_no_cr (rq_headers r)"

definition response_no_cr :: "HttpResponse \<Rightarrow> bool" where
  "response_no_cr r \<longleftrightarrow> no_cr (rs_reason r) \<and> headers_no_cr (rs_headers r)"

lemma no_cr_version: "no_cr (version_string v)" "version_string v \<noteq> []"
  by (simp_all add: version_string_def)

lemma table_no_cr:
  "list_all (\<lambda>(m, lit). no_cr lit) HTTP_METHOD_MAP" "list_all (\<lambda>(c, msg). no_cr msg) HTTP_STATUS_MAP"
  by (simp_all add: HTTP_METHOD_MAP_def HTTP_STATUS_MAP_def)

lemma HttpStatusToString_no_cr: "no_cr (HttpStatusToString s)"
proof (cases "map_of HTTP_STATUS_MAP s")
  case None
  then show ?thesis by (simp add: HttpStatusToString_def)
next
  case (Some msg)
  then show ?thesis using table_no_cr(2) map_of_SomeD [OF Some]
    by (auto simp: HttpStatusToString_def list_all_iff)
qed

lemma HttpMethodToString_no_cr: "HttpMethodToString m = Inr s \<Longrightarrow> no_cr s"
  using table_no_cr(1) nth_mem
  by (fastforce simp: HttpMethodToString_def Let_def s_method_string_def list_all_length split: if_splits)

lemma HttpRequest_dump_split:
  assumes "HttpMethodToString (rq_method r) = Inr m" "request_no_cr r"
  shows "\<exists>s. HttpRequest_dump r = Inr s \<and> split_message s =
    Some (request_line m r # close_line (rq_close r) # header_lines '':'' (rq_headers r)
          @ length_lines (rq_body r), rq_body r)"
proof -
  let ?ls = "request_line m r # close_line (rq_close r) # header_lines '':'' (rq_headers r) @ length_lines (rq_body r)"
  have ok: "list_all (\<lambda>l. no_cr l \<and> l \<noteq> []) ?ls"
    using assms(2) HttpMethodToString_no_cr [OF assms(1)] header_lines_ok [of "rq_headers r" "'':''"]
      length_lines_ok close_line_ok no_cr_version
    by (simp add: request_no_cr_def request_line_def)
  have "HttpRequest_dump r = Inr (concat (map (\<lambda>l. l @ crlf) ?ls) @ crlf @ rq_body r)"
    using assms(1) by (simp add: HttpRequest_dump_def request_line_def dump_headers_lines
        dump_body_lines close_string_line)
  then show ?thesis using split_message_lines [OF ok] by blast
qed

lemma HttpResponse_dump_split:
  assumes "response_no_cr r"
  shows "split_message (HttpResponse_dump r) =
    Some (status_line r # header_lines '': '' (rs_headers r) @ close_line (rs_close r)
          # length_lines (rs_body r), rs_body r)"
proof -
  let ?ls = "status_line r # header_lines '': '' (rs_headers r) @ close_line (rs_close r) # length_lines (rs_body r)"
  have ok: "list_all (\<lambda>l. no_cr l \<and> l \<noteq> []) ?ls"
    using assms HttpStatusToString_no_cr header_lines_ok [of "rs_headers r" "'': ''"]
      length_lines_ok close_line_ok no_cr_version
    by (simp add: response_no_cr_def status_line_def)
  have "HttpResponse_dump r = concat (map (\<lambda>l. l @ crlf) ?ls) @ crlf @ rs_body r"
    by (simp add: HttpResponse_dump_def status_line_def dump_headers_lines dump_body_lines close_string_line)
  then show ?thesis using split_message_lines [OF ok] by simp
qed

end
