(* ===== verification/Fiber.thy ===== *)
theory Fiber
  imports Cpp_Prelude
begin

text \<open>
  \<open>src/myhttp/fiber.cpp\<close>: coroutines of one thread. A fiber is an object of \<open>fw_heap\<close>; the two
  thread-local pointers \<open>t_fiber\<close> and \<open>t_threadFiber\<close> and the two global counters complete the
  state. \<open>swapcontext\<close> transfers control, which is visible in \<open>fw_current\<close>: the fiber that runs.
  The saved machine context itself is not represented: where a fiber resumes follows from its state
  (\<open>ST_INIT\<close>: at the start of \<open>MainFunc\<close>; ended: behind its last \<open>swapOut\<close>; otherwise in its callback).
\<close>

section \<open>Data\<close>

datatype State = ST_INIT | ST_HOLD | ST_EXEC | ST_TERM | ST_READY | ST_EXCEPT

record Fiber =
  f_id :: u64
  f_stacksize :: u32
  f_state :: State
  f_stack :: bool
  f_cb :: "nat option"

record fiber_world =
  fw_heap :: "nat \<Rightarrow> Fiber option"
  fw_current :: "nat option"
  fw_main :: "nat option"
  s_fiber_id :: u64
  s_fiber_count :: u64

definition fiber_of :: "fiber_world \<Rightarrow> nat \<Rightarrow> Fiber result" where
  "fiber_of w a = (case fw_heap w a of None \<Rightarrow> Inl NullDeref | Some f \<Rightarrow> Inr f)"

definition set_state :: "nat \<Rightarrow> State \<Rightarrow> fiber_world \<Rightarrow> fiber_world result" where
  "set_state a st w =
     bindR (fiber_of w a) (\<lambda>f. Inr (w\<lparr>fw_heap := (fw_heap w)(a \<mapsto> f\<lparr>f_state := st\<rparr>)\<rparr>))"

definition finished :: "State \<Rightarrow> bool" where
  "finished st \<longleftrightarrow> st = ST_TERM \<or> st = ST_EXCEPT \<or> st = ST_INIT"

section \<open>Construction and destruction\<close>

definition SetThis :: "nat option \<Rightarrow> fiber_world \<Rightarrow> fiber_world" where
  "SetThis f w = w\<lparr>fw_current := f\<rparr>"

definition Fiber_main :: "nat \<Rightarrow> fiber_world \<Rightarrow> fiber_world" where
  "Fiber_main a w =
     SetThis (Some a)
       (w\<lparr>fw_heap := (fw_heap w)(a \<mapsto> \<lparr>f_id = 0, f_stacksize = 0, f_state = ST_EXEC, f_stack = False, f_cb = None\<rparr>),
          s_fiber_count := s_fiber_count w + 1\<rparr>)"

definition Fiber_new :: "u32 \<Rightarrow> nat \<Rightarrow> nat option \<Rightarrow> u32 \<Rightarrow> fiber_world \<Rightarrow> fiber_world" where
  "Fiber_new default_size a cb stacksize w =
     w\<lparr>fw_heap := (fw_heap w)(a \<mapsto>
          \<lparr>f_id = s_fiber_id w + 1,
           f_stacksize = (if stacksize \<noteq> 0 then stacksize else default_size),
           f_state = ST_INIT, f_stack = True, f_cb = cb\<rparr>),
       s_fiber_id := s_fiber_id w + 1,
       s_fiber_count := s_fiber_count w + 1\<rparr>"

definition Fiber_delete :: "nat \<Rightarrow> fiber_world \<Rightarrow> fiber_world result" where
  "Fiber_delete a w =
     bindR (fiber_of w a) (\<lambda>f.
       let w' = w\<lparr>fw_heap := (fw_heap w)(a := None), s_fiber_count := s_fiber_count w - 1\<rparr>
       in if f_stack f then
            bindR (assertR (finished (f_state f)) AssertFail) (\<lambda>_. Inr w')
          else
            bindR (assertR (f_cb f = None) AssertFail) (\<lambda>_.
            bindR (assertR (f_state f = ST_EXEC) AssertFail) (\<lambda>_.
              Inr (if fw_current w = Some a then SetThis None w' else w'))))"

definition Fiber_reset :: "nat \<Rightarrow> nat option \<Rightarrow> fiber_world \<Rightarrow> fiber_world result" where
  "Fiber_reset a cb w =
     bindR (fiber_of w a) (\<lambda>f.
       bindR (assertR (f_stack f) AssertFail) (\<lambda>_.
       bindR (assertR (finished (f_state f)) AssertFail) (\<lambda>_.
         Inr (w\<lparr>fw_heap := (fw_heap w)(a \<mapsto> f\<lparr>f_cb := cb, f_state := ST_INIT\<rparr>)\<rparr>))))"

section \<open>Switching\<close>

text \<open>The context of a fiber that has ended was saved by the last \<open>swapOut\<close> of \<open>MainFunc\<close>: entering the
  fiber again resumes there, at \<open>MYHTTP_ASSERT2(false, "never reach")\<close>.\<close>

definition ended :: "State \<Rightarrow> bool" where
  "ended st \<longleftrightarrow> st = ST_TERM \<or> st = ST_EXCEPT"

definition swapIn :: "nat \<Rightarrow> fiber_world \<Rightarrow> fiber_world result" where
  "swapIn a w =
     bindR (fiber_of w a) (\<lambda>f.
       bindR (assertR (f_state f \<noteq> ST_EXEC) AssertFail) (\<lambda>_.
         if fw_main w = None then Inl NullDeref
         else if ended (f_state f) then Inl AssertFail
         else set_state a ST_EXEC (SetThis (Some a) w)))"

definition swapOut :: "fiber_world \<Rightarrow> fiber_world result" where
  "swapOut w = (if fw_main w = None then Inl NullDeref else Inr (SetThis (fw_main w) w))"

definition GetThis :: "nat \<Rightarrow> fiber_world \<Rightarrow> nat \<times> fiber_world" where
  "GetThis fresh w =
     (case fw_current w of
        Some c \<Rightarrow> (c, w)
      | None \<Rightarrow> (fresh, (Fiber_main fresh w)\<lparr>fw_main := Some fresh\<rparr>))"

definition GetFiberId :: "fiber_world \<Rightarrow> u64" where
  "GetFiberId w =
     (case fw_current w of
        None \<Rightarrow> 0
      | Some c \<Rightarrow> (case fw_heap w c of Some f \<Rightarrow> f_id f | None \<Rightarrow> 0))"

definition YieldToReady :: "nat \<Rightarrow> fiber_world \<Rightarrow> fiber_world result" where
  "YieldToReady fresh w = (let (c, w) = GetThis fresh w in bindR (set_state c ST_READY w) swapOut)"

definition YieldToHold :: "nat \<Rightarrow> fiber_world \<Rightarrow> fiber_world result" where
  "YieldToHold fresh w = (let (c, w) = GetThis fresh w in bindR (set_state c ST_HOLD w) swapOut)"

definition ToTalFibers :: "fiber_world \<Rightarrow> u64" where
  "ToTalFibers w = s_fiber_count w"

text \<open>\<open>MainFunc\<close> after the callback came back: normally, or by an exception.\<close>

definition MainFunc_end :: "bool \<Rightarrow> fiber_world \<Rightarrow> fiber_world result" where
  "MainFunc_end threw w =
     (case fw_current w of
        None \<Rightarrow> Inl AssertFail
      | Some c \<Rightarrow>
          bindR (fiber_of w c) (\<lambda>f.
            let f' = (if threw then f\<lparr>f_state := ST_EXCEPT\<rparr> else f\<lparr>f_cb := None, f_state := ST_TERM\<rparr>)
            in swapOut (w\<lparr>fw_heap := (fw_heap w)(c \<mapsto> f')\<rparr>)))"

section \<open>Invariant\<close>

text \<open>A thread that has been initialised has a main fiber, always in state \<open>ST_EXEC\<close> and without a
  stack of its own; the current fiber is in state \<open>ST_EXEC\<close>; no other fiber is.\<close>

definition fw_inv :: "fiber_world \<Rightarrow> bool" where
  "fw_inv w \<longleftrightarrow>
     (\<exists>m c fm fc. fw_main w = Some m \<and> fw_current w = Some c
        \<and> fw_heap w m = Some fm \<and> f_state fm = ST_EXEC \<and> \<not> f_stack fm \<and> f_cb fm = None
        \<and> fw_heap w c = Some fc \<and> f_state fc = ST_EXEC
        \<and> (\<forall>a f. fw_heap w a = Some f \<longrightarrow> f_state f = ST_EXEC \<longrightarrow> a = m \<or> a = c)
        \<and> (\<forall>a f. fw_heap w a = Some f \<longrightarrow> a \<noteq> m \<longrightarrow> f_stack f))"

definition on_main :: "fiber_world \<Rightarrow> bool" where
  "on_main w \<longleftrightarrow> fw_current w = fw_main w"

definition fw_empty :: fiber_world where
  "fw_empty = \<lparr>fw_heap = (\<lambda>_. None), fw_current = None, fw_main = None, s_fiber_id = 0, s_fiber_count = 0\<rparr>"

inductive fiber_step :: "fiber_world \<Rightarrow> fiber_world \<Rightarrow> bool" where
  create: "fw_heap w a = None \<Longrightarrow> fiber_step w (Fiber_new d a cb sz w)"
| switch_in: "on_main w \<Longrightarrow> fw_main w \<noteq> Some a \<Longrightarrow> swapIn a w = Inr w' \<Longrightarrow> fiber_step w w'"
| ready: "\<not> on_main w \<Longrightarrow> YieldToReady fresh w = Inr w' \<Longrightarrow> fiber_step w w'"
| hold: "\<not> on_main w \<Longrightarrow> YieldToHold fresh w = Inr w' \<Longrightarrow> fiber_step w w'"
| finish: "\<not> on_main w \<Longrightarrow> MainFunc_end threw w = Inr w' \<Longrightarrow> fiber_step w w'"
| rearm: "Fiber_reset a cb w = Inr w' \<Longrightarrow> fiber_step w w'"
| destroy: "fw_main w \<noteq> Some a \<Longrightarrow> Fiber_delete a w = Inr w' \<Longrightarrow> fiber_step w w'"

inductive fiber_reach :: "fiber_world \<Rightarrow> bool" where
  start: "fiber_reach (snd (GetThis a fw_empty))"
| step: "fiber_reach w \<Longrightarrow> fiber_step w w' \<Longrightarrow> fiber_reach w'"

lemmas fiber_ops = fiber_of_def set_state_def SetThis_def Fiber_new_def Fiber_delete_def Fiber_reset_def
  swapIn_def ended_def swapOut_def GetThis_def YieldToReady_def YieldToHold_def MainFunc_end_def finished_def
  assertR_def bindR_def

lemma fw_invE:
  assumes "fw_inv w"
  obtains m c fm fc where "fw_main w = Some m" "fw_current w = Some c" "fw_heap w m = Some fm"
    "f_state fm = ST_EXEC" "\<not> f_stack fm" "f_cb fm = None" "fw_heap w c = Some fc" "f_state fc = ST_EXEC"
    "\<And>a f. fw_heap w a = Some f \<Longrightarrow> f_state f = ST_EXEC \<Longrightarrow> a = m \<or> a = c"
    "\<And>a f. fw_heap w a = Some f \<Longrightarrow> a \<noteq> m \<Longrightarrow> f_stack f"
  using assms unfolding fw_inv_def by blast

lemma fw_inv_start: "fw_inv (snd (GetThis a fw_empty))"
  by (simp add: fw_inv_def GetThis_def Fiber_main_def SetThis_def fw_empty_def)

lemma fw_invI:
  assumes "fw_main w = Some m" "fw_current w = Some c"
    and "fw_heap w m = Some fm" "f_state fm = ST_EXEC" "\<not> f_stack fm" "f_cb fm = None"
    and "fw_heap w c = Some fc" "f_state fc = ST_EXEC"
    and "\<And>a f. fw_heap w a = Some f \<Longrightarrow> f_state f = ST_EXEC \<Longrightarrow> a = m \<or> a = c"
    and "\<And>a f. fw_heap w a = Some f \<Longrightarrow> a \<noteq> m \<Longrightarrow> f_stack f"
  shows "fw_inv w"
  unfolding fw_inv_def using assms by blast

text \<open>Leaving the running fiber: its object is updated, control goes back to the main fiber.\<close>

lemma fw_inv_leave:
  assumes "fw_inv w" "\<not> on_main w" "fw_current w = Some c" "fw_heap w c = Some f"
    and "f_state f' \<noteq> ST_EXEC" "f_stack f' = f_stack f"
  shows "fw_inv (w\<lparr>fw_heap := (fw_heap w)(c \<mapsto> f'), fw_current := fw_main w\<rparr>)"
  using assms(1)
proof (rule fw_invE)
  fix m c' fm fc
  assume inv: "fw_main w = Some m" "fw_current w = Some c'" "fw_heap w m = Some fm"
    "f_state fm = ST_EXEC" "\<not> f_stack fm" "f_cb fm = None" "fw_heap w c' = Some fc" "f_state fc = ST_EXEC"
    "\<And>a f. fw_heap w a = Some f \<Longrightarrow> f_state f = ST_EXEC \<Longrightarrow> a = m \<or> a = c'"
    "\<And>a f. fw_heap w a = Some f \<Longrightarrow> a \<noteq> m \<Longrightarrow> f_stack f"
  have "c \<noteq> m" using assms(2,3) inv(1) by (auto simp: on_main_def)
  then show ?thesis
    by (intro fw_invI [where m = m and c = m and fm = fm and fc = fm])
       (use inv assms(3-6) in \<open>auto split: if_splits\<close>)
qed

text \<open>Updating a fiber that is neither the main one nor running, or removing it.\<close>

lemma fw_inv_other:
  assumes "fw_inv w" "fw_main w \<noteq> Some a" "fw_current w \<noteq> Some a"
    and "\<And>f. fo = Some f \<Longrightarrow> f_state f \<noteq> ST_EXEC \<and> f_stack f"
  shows "fw_inv (w\<lparr>fw_heap := (fw_heap w)(a := fo), s_fiber_id := i, s_fiber_count := k\<rparr>)"
  using assms(1)
proof (rule fw_invE)
  fix m c fm fc
  assume inv: "fw_main w = Some m" "fw_current w = Some c" "fw_heap w m = Some fm"
    "f_state fm = ST_EXEC" "\<not> f_stack fm" "f_cb fm = None" "fw_heap w c = Some fc" "f_state fc = ST_EXEC"
    "\<And>a f. fw_heap w a = Some f \<Longrightarrow> f_state f = ST_EXEC \<Longrightarrow> a = m \<or> a = c"
    "\<And>a f. fw_heap w a = Some f \<Longrightarrow> a \<noteq> m \<Longrightarrow> f_stack f"
  show ?thesis
    by (rule fw_invI [where m = m and c = c and fm = fm and fc = fc])
       (use inv assms(2-4) in \<open>auto split: if_splits\<close>)
qed

lemma fw_inv_enter:
  assumes "fw_inv w" "on_main w" "fw_main w \<noteq> Some a" "fw_heap w a = Some f"
  shows "fw_inv (w\<lparr>fw_heap := (fw_heap w)(a \<mapsto> f\<lparr>f_state := ST_EXEC\<rparr>), fw_current := Some a\<rparr>)"
  using assms(1)
proof (rule fw_invE)
  fix m c fm fc
  assume inv: "fw_main w = Some m" "fw_current w = Some c" "fw_heap w m = Some fm"
    "f_state fm = ST_EXEC" "\<not> f_stack fm" "f_cb fm = None" "fw_heap w c = Some fc" "f_state fc = ST_EXEC"
    "\<And>a f. fw_heap w a = Some f \<Longrightarrow> f_state f = ST_EXEC \<Longrightarrow> a = m \<or> a = c"
    "\<And>a f. fw_heap w a = Some f \<Longrightarrow> a \<noteq> m \<Longrightarrow> f_stack f"
  have "c = m" using assms(2) inv(1,2) by (simp add: on_main_def)
  have "a \<noteq> m" using assms(3) inv(1) by simp
  show ?thesis
  proof (rule fw_invI [where m = m and c = a and fm = fm and fc = "f\<lparr>f_state := ST_EXEC\<rparr>"])
    fix b g assume b: "fw_heap (w\<lparr>fw_heap := (fw_heap w)(a \<mapsto> f\<lparr>f_state := ST_EXEC\<rparr>), fw_current := Some a\<rparr>) b = Some g"
    show "b = m \<or> b = a" if "f_state g = ST_EXEC"
      using b that inv(9) [of b g] \<open>c = m\<close> by (cases "b = a") simp_all
    show "f_stack g" if "b \<noteq> m"
      using b that inv(10) [OF assms(4) \<open>a \<noteq> m\<close>] inv(10) [of b g] by (cases "b = a") auto
  qed (use inv(1-8) \<open>a \<noteq> m\<close> in simp_all)
qed

lemma fw_inv_current: "fw_inv w \<Longrightarrow> \<exists>c f m. fw_current w = Some c \<and> fw_heap w c = Some f \<and> fw_main w = Some m"
  by (auto elim!: fw_invE)

lemma not_exec_other:
  assumes "fw_inv w" "fw_heap w a = Some f" "finished (f_state f)"
  shows "fw_main w \<noteq> Some a" "fw_current w \<noteq> Some a"
  using assms by (auto simp: finished_def elim!: fw_invE)

lemma fw_inv_step:
  assumes "fiber_step w w'" "fw_inv w"
  shows "fw_inv w'"
  using assms(1)
proof cases
  case (create a d cb sz)
  then have "fw_main w \<noteq> Some a" "fw_current w \<noteq> Some a" using assms(2) by (auto elim!: fw_invE)
  then show ?thesis unfolding create(1) Fiber_new_def by (rule fw_inv_other [OF assms(2)]) auto
next
  case (switch_in a)
  then obtain f where "fw_heap w a = Some f"
      "w' = w\<lparr>fw_heap := (fw_heap w)(a \<mapsto> f\<lparr>f_state := ST_EXEC\<rparr>), fw_current := Some a\<rparr>"
    by (cases "fw_heap w a") (auto simp: fiber_ops split: if_splits)
  then show ?thesis using fw_inv_enter [OF assms(2) switch_in(1,2)] by simp
next
  case (ready fresh)
  obtain c f m where cf: "fw_current w = Some c" "fw_heap w c = Some f" "fw_main w = Some m"
    using fw_inv_current [OF assms(2)] by blast
  then have "w' = w\<lparr>fw_heap := (fw_heap w)(c \<mapsto> f\<lparr>f_state := ST_READY\<rparr>), fw_current := fw_main w\<rparr>"
    using ready(2) by (simp add: fiber_ops)
  then show ?thesis using fw_inv_leave [OF assms(2) ready(1) cf(1,2)] by simp
next
  case (hold fresh)
  obtain c f m where cf: "fw_current w = Some c" "fw_heap w c = Some f" "fw_main w = Some m"
    using fw_inv_current [OF assms(2)] by blast
  then have "w' = w\<lparr>fw_heap := (fw_heap w)(c \<mapsto> f\<lparr>f_state := ST_HOLD\<rparr>), fw_current := fw_main w\<rparr>"
    using hold(2) by (simp add: fiber_ops)
  then show ?thesis using fw_inv_leave [OF assms(2) hold(1) cf(1,2)] by simp
next
  case (finish threw)
  obtain c f m where cf: "fw_current w = Some c" "fw_heap w c = Some f" "fw_main w = Some m"
    using fw_inv_current [OF assms(2)] by blast
  let ?f = "if threw then f\<lparr>f_state := ST_EXCEPT\<rparr> else f\<lparr>f_cb := None, f_state := ST_TERM\<rparr>"
  have "w' = w\<lparr>fw_heap := (fw_heap w)(c \<mapsto> ?f), fw_current := fw_main w\<rparr>"
    using finish(2) cf by (simp add: fiber_ops Let_def)
  then show ?thesis using fw_inv_leave [OF assms(2) finish(1) cf(1,2), of ?f] by simp
next
  case (rearm a cb)
  then obtain f where f: "fw_heap w a = Some f" "f_stack f" "finished (f_state f)"
      "w' = w\<lparr>fw_heap := (fw_heap w)(a \<mapsto> f\<lparr>f_cb := cb, f_state := ST_INIT\<rparr>)\<rparr>"
    by (cases "fw_heap w a") (auto simp: fiber_ops split: if_splits)
  then show ?thesis
    using fw_inv_other [OF assms(2) not_exec_other [OF assms(2) f(1,3)],
        where fo = "Some (f\<lparr>f_cb := cb, f_state := ST_INIT\<rparr>)" and i = "s_fiber_id w" and k = "s_fiber_count w"]
    by simp
next
  case (destroy a)
  then obtain f where f: "fw_heap w a = Some f" "f_stack f"
    using assms(2) by (cases "fw_heap w a") (auto simp: fiber_ops elim!: fw_invE)
  then have "finished (f_state f)" "w' = w\<lparr>fw_heap := (fw_heap w)(a := None), s_fiber_count := s_fiber_count w - 1\<rparr>"
    using destroy(2) by (auto simp: Fiber_delete_def fiber_of_def result_iff Let_def)
  then show ?thesis
    using fw_inv_other [OF assms(2) not_exec_other [OF assms(2) f(1)], where fo = None and i = "s_fiber_id w"
        and k = "s_fiber_count w - 1"] by simp
qed

lemma fiber_reach_inv: "fiber_reach w \<Longrightarrow> fw_inv w"
  by (induction rule: fiber_reach.induct) (auto intro: fw_inv_start fw_inv_step)

text \<open>From a reachable state the switching operations cannot fail an assertion: a fiber other than
  the main one can be entered from the main fiber unless it has ended, and a running fiber can always
  yield or finish.\<close>

lemma swapIn_defined:
  assumes "fw_inv w" "on_main w" "fw_main w \<noteq> Some a" "fw_heap w a = Some f"
  shows "swapIn a w = (if ended (f_state f) then Inl AssertFail
    else Inr (w\<lparr>fw_heap := (fw_heap w)(a \<mapsto> f\<lparr>f_state := ST_EXEC\<rparr>), fw_current := Some a\<rparr>))"
  using assms(1)
proof (rule fw_invE)
  fix m c fm fc
  assume inv: "fw_main w = Some m" "fw_current w = Some c"
    and only: "\<And>a f. fw_heap w a = Some f \<Longrightarrow> f_state f = ST_EXEC \<Longrightarrow> a = m \<or> a = c"
  have "f_state f \<noteq> ST_EXEC" using only [OF assms(4)] assms(2,3) inv by (auto simp: on_main_def)
  then show ?thesis using inv assms(4) by (simp add: fiber_ops)
qed

lemma yield_defined:
  assumes "fw_inv w" "fw_current w = Some c" "fw_heap w c = Some f"
  shows "YieldToReady x w = Inr (w\<lparr>fw_heap := (fw_heap w)(c \<mapsto> f\<lparr>f_state := ST_READY\<rparr>), fw_current := fw_main w\<rparr>)"
    "YieldToHold x w = Inr (w\<lparr>fw_heap := (fw_heap w)(c \<mapsto> f\<lparr>f_state := ST_HOLD\<rparr>), fw_current := fw_main w\<rparr>)"
  using assms by (auto simp: fiber_ops elim!: fw_invE)

lemma Fiber_delete_iff:
  assumes "fw_inv w" "fw_main w \<noteq> Some a" "fw_heap w a = Some f"
  shows "(\<exists>w'. Fiber_delete a w = Inr w') \<longleftrightarrow> f_state f \<in> {ST_TERM, ST_EXCEPT, ST_INIT}"
proof -
  have "f_stack f" using assms by (auto elim!: fw_invE)
  then show ?thesis using assms(3) by (auto simp: fiber_ops Let_def)
qed

end
