(* ===== verification/Scheduler.thy ===== *)
theory Scheduler
  imports Fiber
begin

text \<open>
  \<open>src/myhttp/scheduler.cpp\<close> and the templates of \<open>scheduler.h\<close>: the task queue and the worker loop
  \<open>Scheduler::run\<close>. The loop body is cut at the points where control leaves it: \<open>pick\<close> (under the
  queue lock) and \<open>dispatch\<close> (up to the context switch). What follows the context switch is cut at
  every access to state that other threads see: \<open>leave\<close> (the fiber writes its state and gives control
  back; the state is decided by the code it runs and is an argument), \<open>return_fiber\<close> and \<open>return_cb\<close>
  (\<open>--m_activeThreadCount\<close>), \<open>settle_fiber\<close> and \<open>settle_cb\<close> (the tests of the fiber's state, which
  another worker may have changed by then) and \<open>requeue_fiber\<close> and \<open>requeue_cb\<close> (the \<open>schedule\<close>
  call, which takes the queue lock again). Fiber states are shared by all workers: \<open>sw_state\<close>.
  \<open>sstep\<close> interleaves these steps of all workers with calls of \<open>schedule\<close> and \<open>stop\<close> from anywhere.
\<close>

section \<open>Data\<close>

record FiberAndThread =
  ft_fiber :: "nat option"
  ft_cb :: "nat option"
  ft_thread :: int

record Scheduler =
  sc_fibers :: "FiberAndThread list"
  sc_threadIds :: "int list"
  sc_threadCount :: nat
  sc_threads :: nat
  sc_activeThreadCount :: nat
  sc_idleThreadCount :: nat
  sc_stopping :: bool
  sc_autoStop :: bool
  sc_rootThread :: int

definition Scheduler_new :: "nat \<Rightarrow> bool \<Rightarrow> bool \<Rightarrow> int \<Rightarrow> Scheduler result" where
  "Scheduler_new threads use_caller this_is_null tid =
     bindR (assertR (threads > 0) AssertFail) (\<lambda>_.
     bindR (assertR (use_caller \<longrightarrow> this_is_null) AssertFail) (\<lambda>_.
       Inr \<lparr>sc_fibers = [], sc_threadIds = (if use_caller then [tid] else []),
            sc_threadCount = (if use_caller then threads - 1 else threads), sc_threads = 0,
            sc_activeThreadCount = 0, sc_idleThreadCount = 0, sc_stopping = True,
            sc_autoStop = False, sc_rootThread = (if use_caller then tid else - 1)\<rparr>))"

definition Scheduler_delete :: "Scheduler \<Rightarrow> unit result" where
  "Scheduler_delete s = assertR (sc_stopping s) AssertFail"

definition start :: "int list \<Rightarrow> Scheduler \<Rightarrow> Scheduler result" where
  "start new_ids s =
     (if \<not> sc_stopping s then Inr s
      else bindR (assertR (sc_threads s = 0) AssertFail) (\<lambda>_.
        Inr (s\<lparr>sc_stopping := False, sc_threads := sc_threadCount s,
               sc_threadIds := sc_threadIds s @ take (sc_threadCount s) new_ids\<rparr>)))"

definition stopping :: "Scheduler \<Rightarrow> bool" where
  "stopping s \<longleftrightarrow> sc_autoStop s \<and> sc_stopping s \<and> sc_fibers s = [] \<and> sc_activeThreadCount s = 0"

definition stop_begin :: "Scheduler \<Rightarrow> Scheduler" where
  "stop_begin s = s\<lparr>sc_autoStop := True, sc_stopping := True\<rparr>"

definition stop_end :: "Scheduler \<Rightarrow> Scheduler" where
  "stop_end s = (if stopping s then s\<lparr>sc_threads := 0\<rparr> else s)"

section \<open>Scheduling\<close>

definition ft_valid :: "FiberAndThread \<Rightarrow> bool" where
  "ft_valid ft \<longleftrightarrow> ft_fiber ft \<noteq> None \<or> ft_cb ft \<noteq> None"

definition ft_of_fiber :: "nat option \<Rightarrow> int \<Rightarrow> FiberAndThread" where
  "ft_of_fiber f thr = \<lparr>ft_fiber = f, ft_cb = None, ft_thread = thr\<rparr>"

definition ft_of_cb :: "nat option \<Rightarrow> int \<Rightarrow> FiberAndThread" where
  "ft_of_cb c thr = \<lparr>ft_fiber = None, ft_cb = c, ft_thread = thr\<rparr>"

definition scheduleNoLock :: "FiberAndThread \<Rightarrow> Scheduler \<Rightarrow> bool \<times> Scheduler" where
  "scheduleNoLock ft s =
     (sc_fibers s = [], if ft_valid ft then s\<lparr>sc_fibers := sc_fibers s @ [ft]\<rparr> else s)"

definition schedule :: "FiberAndThread \<Rightarrow> Scheduler \<Rightarrow> bool \<times> Scheduler" where
  "schedule ft s = scheduleNoLock ft s"

primrec schedule_range :: "FiberAndThread list \<Rightarrow> Scheduler \<Rightarrow> bool \<times> Scheduler" where
  "schedule_range [] s = (False, s)"
| "schedule_range (ft # fts) s =
     (let (need, s1) = scheduleNoLock ft s; (need', s2) = schedule_range fts s1
      in (need \<or> need', s2))"

section \<open>The worker loop\<close>

fun pick_loop ::
  "int \<Rightarrow> (nat \<Rightarrow> State) \<Rightarrow> FiberAndThread list
     \<Rightarrow> (FiberAndThread option \<times> bool \<times> FiberAndThread list) result" where
  "pick_loop tid st [] = Inr (None, False, [])"
| "pick_loop tid st (ft # fts) =
     (if ft_thread ft \<noteq> - 1 \<and> ft_thread ft \<noteq> tid then
        bindR (pick_loop tid st fts) (\<lambda>(c, t, rest). Inr (c, True, ft # rest))
      else if \<not> ft_valid ft then Inl AssertFail
      else if (case ft_fiber ft of Some f \<Rightarrow> st f = ST_EXEC | None \<Rightarrow> False) then
        bindR (pick_loop tid st fts) (\<lambda>(c, t, rest). Inr (c, t, ft # rest))
      else Inr (Some ft, False, fts))"

definition pick :: "int \<Rightarrow> (nat \<Rightarrow> State) \<Rightarrow> Scheduler \<Rightarrow> (FiberAndThread option \<times> bool \<times> Scheduler) result"
where
  "pick tid st s =
     bindR (pick_loop tid st (sc_fibers s)) (\<lambda>(c, tickle_me, rest).
       Inr (c, tickle_me,
            s\<lparr>sc_fibers := rest,
              sc_activeThreadCount := sc_activeThreadCount s + (if c = None then 0 else 1)\<rparr>))"

datatype phase =
    Loop
  | Picked "FiberAndThread option"
  | InFiber nat
  | LeftFiber nat
  | DoneFiber nat
  | PutFiber nat
  | InCb nat
  | LeftCb nat
  | DoneCb nat
  | PutCb nat
  | InIdle
  | Exited

record worker =
  wk_tid :: int
  wk_phase :: phase
  wk_cb_fiber :: "nat option"
  wk_idle :: State

record sched_world =
  sw_sched :: Scheduler
  sw_state :: "nat \<Rightarrow> State"
  sw_workers :: "worker list"

definition runnable :: "State \<Rightarrow> bool" where
  "runnable st \<longleftrightarrow> st \<noteq> ST_TERM \<and> st \<noteq> ST_EXCEPT"

text \<open>The tests of the loop body after \<open>pick\<close>: a fiber that has not ended, a callback, the idle
  fiber. Entering an idle fiber that ended by an exception resumes it behind its last \<open>swapOut\<close>, where
  \<open>MainFunc\<close> asserts false. \<open>fresh\<close> is the address of the fiber that a callback gets when there is none to reuse.\<close>

definition dispatch ::
  "nat \<Rightarrow> FiberAndThread option \<Rightarrow> worker \<Rightarrow> (nat \<Rightarrow> State) \<Rightarrow> Scheduler
     \<Rightarrow> (worker \<times> (nat \<Rightarrow> State) \<times> Scheduler) result" where
  "dispatch fresh fto wk st s =
     (let fb = (case fto of Some ft \<Rightarrow> ft_fiber ft | None \<Rightarrow> None);
          cb = (case fto of Some ft \<Rightarrow> ft_cb ft | None \<Rightarrow> None)
      in case (case fb of Some f \<Rightarrow> if runnable (st f) then Some f else None | None \<Rightarrow> None) of
           Some f \<Rightarrow>
             bindR (assertR (st f \<noteq> ST_EXEC) AssertFail) (\<lambda>_.
               Inr (wk\<lparr>wk_phase := InFiber f\<rparr>, st(f := ST_EXEC), s))
         | None \<Rightarrow>
             (case cb of
                Some c \<Rightarrow>
                  (case wk_cb_fiber wk of
                     Some b \<Rightarrow>
                       bindR (assertR (finished (st b)) AssertFail) (\<lambda>_.
                         Inr (wk\<lparr>wk_phase := InCb b\<rparr>, st(b := ST_EXEC), s))
                   | None \<Rightarrow>
                       Inr (wk\<lparr>wk_phase := InCb fresh, wk_cb_fiber := Some fresh\<rparr>, st(fresh := ST_EXEC), s))
              | None \<Rightarrow>
                  if wk_idle wk = ST_TERM then Inr (wk\<lparr>wk_phase := Exited\<rparr>, st, s)
                  else bindR (assertR (wk_idle wk \<noteq> ST_EXEC \<and> wk_idle wk \<noteq> ST_EXCEPT) AssertFail) (\<lambda>_.
                    Inr (wk\<lparr>wk_phase := InIdle, wk_idle := ST_EXEC\<rparr>, st,
                         s\<lparr>sc_idleThreadCount := sc_idleThreadCount s + 1\<rparr>))))"

text \<open>Control comes back from fiber \<open>f\<close>, which has written \<open>new_st\<close> into its state.\<close>

definition leave :: "phase \<Rightarrow> nat \<Rightarrow> State \<Rightarrow> worker \<Rightarrow> (nat \<Rightarrow> State) \<Rightarrow> worker \<times> (nat \<Rightarrow> State)" where
  "leave ph f new_st wk st = (wk\<lparr>wk_phase := ph\<rparr>, st(f := new_st))"

definition return_fiber :: "nat \<Rightarrow> worker \<Rightarrow> Scheduler \<Rightarrow> worker \<times> Scheduler" where
  "return_fiber f wk s =
     (wk\<lparr>wk_phase := DoneFiber f\<rparr>, s\<lparr>sc_activeThreadCount := sc_activeThreadCount s - 1\<rparr>)"

definition settle_fiber :: "nat \<Rightarrow> worker \<Rightarrow> (nat \<Rightarrow> State) \<Rightarrow> worker \<times> (nat \<Rightarrow> State)" where
  "settle_fiber f wk st =
     (if st f = ST_READY then (wk\<lparr>wk_phase := PutFiber f\<rparr>, st)
      else (wk\<lparr>wk_phase := Loop\<rparr>, if runnable (st f) then st(f := ST_HOLD) else st))"

definition requeue_fiber :: "nat \<Rightarrow> worker \<Rightarrow> Scheduler \<Rightarrow> worker \<times> Scheduler" where
  "requeue_fiber f wk s = (wk\<lparr>wk_phase := Loop\<rparr>, snd (schedule (ft_of_fiber (Some f) (- 1)) s))"

definition return_cb :: "nat \<Rightarrow> worker \<Rightarrow> Scheduler \<Rightarrow> worker \<times> Scheduler" where
  "return_cb b wk s =
     (wk\<lparr>wk_phase := DoneCb b\<rparr>, s\<lparr>sc_activeThreadCount := sc_activeThreadCount s - 1\<rparr>)"

definition settle_cb :: "nat \<Rightarrow> worker \<Rightarrow> (nat \<Rightarrow> State) \<Rightarrow> worker \<times> (nat \<Rightarrow> State)" where
  "settle_cb b wk st =
     (if st b = ST_READY then (wk\<lparr>wk_phase := PutCb b\<rparr>, st)
      else if \<not> runnable (st b) then (wk\<lparr>wk_phase := Loop\<rparr>, st(b := ST_INIT))
      else (wk\<lparr>wk_phase := Loop, wk_cb_fiber := None\<rparr>, st(b := ST_HOLD)))"

definition requeue_cb :: "nat \<Rightarrow> worker \<Rightarrow> Scheduler \<Rightarrow> worker \<times> Scheduler" where
  "requeue_cb b wk s =
     (wk\<lparr>wk_phase := Loop, wk_cb_fiber := None\<rparr>, snd (schedule (ft_of_fiber (Some b) (- 1)) s))"

definition return_idle :: "State \<Rightarrow> worker \<Rightarrow> Scheduler \<Rightarrow> worker \<times> Scheduler" where
  "return_idle new_st wk s =
     (wk\<lparr>wk_phase := Loop, wk_idle := (if runnable new_st then ST_HOLD else new_st)\<rparr>,
      s\<lparr>sc_idleThreadCount := sc_idleThreadCount s - 1\<rparr>)"

section \<open>Interleaving\<close>

definition put_worker :: "nat \<Rightarrow> worker \<times> (nat \<Rightarrow> State) \<times> Scheduler \<Rightarrow> sched_world \<Rightarrow> sched_world" where
  "put_worker i r w =
     (case r of (wk, st, s) \<Rightarrow> w\<lparr>sw_sched := s, sw_state := st, sw_workers := (sw_workers w)[i := wk]\<rparr>)"

inductive sstep :: "sched_world \<Rightarrow> sched_world \<Rightarrow> bool" where
  call: "sstep w (w\<lparr>sw_sched := snd (schedule ft (sw_sched w))\<rparr>)"
| call_range: "sstep w (w\<lparr>sw_sched := snd (schedule_range fts (sw_sched w))\<rparr>)"
| stop: "sstep w (w\<lparr>sw_sched := stop_begin (sw_sched w)\<rparr>)"
| pick: "i < length (sw_workers w) \<Longrightarrow> wk = sw_workers w ! i \<Longrightarrow> wk_phase wk = Loop
    \<Longrightarrow> pick (wk_tid wk) (sw_state w) (sw_sched w) = Inr (c, t, s)
    \<Longrightarrow> sstep w (put_worker i (wk\<lparr>wk_phase := Picked c\<rparr>, sw_state w, s) w)"
| dispatch: "i < length (sw_workers w) \<Longrightarrow> wk = sw_workers w ! i \<Longrightarrow> wk_phase wk = Picked c
    \<Longrightarrow> dispatch fresh c wk (sw_state w) (sw_sched w) = Inr r \<Longrightarrow> sstep w (put_worker i r w)"
| leave_fiber: "i < length (sw_workers w) \<Longrightarrow> wk = sw_workers w ! i \<Longrightarrow> wk_phase wk = InFiber f
    \<Longrightarrow> leave (LeftFiber f) f new_st wk (sw_state w) = (wk', st)
    \<Longrightarrow> sstep w (put_worker i (wk', st, sw_sched w) w)"
| ret_fiber: "i < length (sw_workers w) \<Longrightarrow> wk = sw_workers w ! i \<Longrightarrow> wk_phase wk = LeftFiber f
    \<Longrightarrow> return_fiber f wk (sw_sched w) = (wk', s) \<Longrightarrow> sstep w (put_worker i (wk', sw_state w, s) w)"
| settle_fiber: "i < length (sw_workers w) \<Longrightarrow> wk = sw_workers w ! i \<Longrightarrow> wk_phase wk = DoneFiber f
    \<Longrightarrow> settle_fiber f wk (sw_state w) = (wk', st)
    \<Longrightarrow> sstep w (put_worker i (wk', st, sw_sched w) w)"
| put_fiber: "i < length (sw_workers w) \<Longrightarrow> wk = sw_workers w ! i \<Longrightarrow> wk_phase wk = PutFiber f
    \<Longrightarrow> requeue_fiber f wk (sw_sched w) = (wk', s) \<Longrightarrow> sstep w (put_worker i (wk', sw_state w, s) w)"
| leave_cb: "i < length (sw_workers w) \<Longrightarrow> wk = sw_workers w ! i \<Longrightarrow> wk_phase wk = InCb f
    \<Longrightarrow> leave (LeftCb f) f new_st wk (sw_state w) = (wk', st)
    \<Longrightarrow> sstep w (put_worker i (wk', st, sw_sched w) w)"
| ret_cb: "i < length (sw_workers w) \<Longrightarrow> wk = sw_workers w ! i \<Longrightarrow> wk_phase wk = LeftCb f
    \<Longrightarrow> return_cb f wk (sw_sched w) = (wk', s) \<Longrightarrow> sstep w (put_worker i (wk', sw_state w, s) w)"
| settle_cb: "i < length (sw_workers w) \<Longrightarrow> wk = sw_workers w ! i \<Longrightarrow> wk_phase wk = DoneCb f
    \<Longrightarrow> settle_cb f wk (sw_state w) = (wk', st)
    \<Longrightarrow> sstep w (put_worker i (wk', st, sw_sched w) w)"
| put_cb: "i < length (sw_workers w) \<Longrightarrow> wk = sw_workers w ! i \<Longrightarrow> wk_phase wk = PutCb f
    \<Longrightarrow> requeue_cb f wk (sw_sched w) = (wk', s) \<Longrightarrow> sstep w (put_worker i (wk', sw_state w, s) w)"
| ret_idle: "i < length (sw_workers w) \<Longrightarrow> wk = sw_workers w ! i \<Longrightarrow> wk_phase wk = InIdle
    \<Longrightarrow> return_idle new_st wk (sw_sched w) = (wk', s)
    \<Longrightarrow> sstep w (put_worker i (wk', sw_state w, s) w)"

definition fresh_worker :: "int \<Rightarrow> worker" where
  "fresh_worker tid = \<lparr>wk_tid = tid, wk_phase = Loop, wk_cb_fiber = None, wk_idle = ST_INIT\<rparr>"

inductive sreach :: "sched_world \<Rightarrow> bool" where
  init: "Scheduler_new n use_caller null tid = Inr s0 \<Longrightarrow> start ids s0 = Inr s
    \<Longrightarrow> sreach \<lparr>sw_sched = s, sw_state = st0, sw_workers = map fresh_worker (sc_threadIds s)\<rparr>"
| step: "sreach w \<Longrightarrow> sstep w w' \<Longrightarrow> sreach w'"

section \<open>Picking\<close>

definition eligible :: "int \<Rightarrow> (nat \<Rightarrow> State) \<Rightarrow> FiberAndThread \<Rightarrow> bool" where
  "eligible tid st ft \<longleftrightarrow>
     (ft_thread ft = - 1 \<or> ft_thread ft = tid) \<and> (\<forall>f. ft_fiber ft = Some f \<longrightarrow> st f \<noteq> ST_EXEC)"

lemma pick_loop_ok:
  assumes "list_all ft_valid fts"
  shows "(\<not> list_ex (eligible tid st) fts \<and> (\<exists>t. pick_loop tid st fts = Inr (None, t, fts)))
    \<or> (\<exists>pre ft post t. fts = pre @ ft # post \<and> \<not> list_ex (eligible tid st) pre \<and> eligible tid st ft
         \<and> pick_loop tid st fts = Inr (Some ft, t, pre @ post))"
  using assms
proof (induction fts)
  case Nil
  then show ?case by auto
next
  case (Cons x fts)
  then have v: "ft_valid x" and IH: "(\<not> list_ex (eligible tid st) fts \<and> (\<exists>t. pick_loop tid st fts = Inr (None, t, fts)))
    \<or> (\<exists>pre ft post t. fts = pre @ ft # post \<and> \<not> list_ex (eligible tid st) pre \<and> eligible tid st ft
         \<and> pick_loop tid st fts = Inr (Some ft, t, pre @ post))" by simp_all
  show ?case
  proof (cases "eligible tid st x")
    case True
    then have "pick_loop tid st (x # fts) = Inr (Some x, False, fts)"
      using v by (auto simp: eligible_def split: option.splits)
    then show ?thesis using True by (intro disjI2 exI [of _ "[]"]) auto
  next
    case False
    then have skip: "\<exists>t'. pick_loop tid st (x # fts) = Inr (c, t', x # rest)"
      if "pick_loop tid st fts = Inr (c, t, rest)" for c t rest
      using v that by (auto simp: eligible_def split: option.splits)
    from IH show ?thesis
    proof
      assume "\<not> list_ex (eligible tid st) fts \<and> (\<exists>t. pick_loop tid st fts = Inr (None, t, fts))"
      then show ?thesis using skip False by fastforce
    next
      assume "\<exists>pre ft post t. fts = pre @ ft # post \<and> \<not> list_ex (eligible tid st) pre \<and> eligible tid st ft
         \<and> pick_loop tid st fts = Inr (Some ft, t, pre @ post)"
      then obtain pre ft post t where "fts = pre @ ft # post" "\<not> list_ex (eligible tid st) pre"
          "eligible tid st ft" "pick_loop tid st fts = Inr (Some ft, t, pre @ post)" by blast
      then show ?thesis using skip [of "Some ft" t "pre @ post"] False
        by (intro disjI2 exI [of _ "x # pre"] exI [of _ ft] exI [of _ post]) auto
    qed
  qed
qed

section \<open>Counters\<close>

text \<open>\<open>busy\<close>: the worker has picked a task and has not yet taken itself off \<open>m_activeThreadCount\<close>.
  \<open>requeuing\<close>: it has, but still holds a fiber that is to be queued again.\<close>

definition requeuing :: "worker \<Rightarrow> bool" where
  "requeuing wk \<longleftrightarrow> (\<exists>f. wk_phase wk = PutFiber f \<or> wk_phase wk = PutCb f)"

definition busy :: "worker \<Rightarrow> bool" where
  "busy wk \<longleftrightarrow> (case wk_phase wk of Picked (Some _) \<Rightarrow> True | InFiber _ \<Rightarrow> True | LeftFiber _ \<Rightarrow> True
     | InCb _ \<Rightarrow> True | LeftCb _ \<Rightarrow> True | _ \<Rightarrow> False)"

definition idling :: "worker \<Rightarrow> bool" where
  "idling wk \<longleftrightarrow> wk_phase wk = InIdle"

definition count :: "(worker \<Rightarrow> bool) \<Rightarrow> sched_world \<Rightarrow> nat" where
  "count P w = length (filter P (sw_workers w))"

text \<open>\<open>leaked\<close> workers' increments that are never undone: dispatching a fiber that has already ended.\<close>

definition sw_inv :: "sched_world \<Rightarrow> bool" where
  "sw_inv w \<longleftrightarrow>
     count busy w \<le> sc_activeThreadCount (sw_sched w)
     \<and> sc_idleThreadCount (sw_sched w) = count idling w
     \<and> list_all ft_valid (sc_fibers (sw_sched w))"

definition leaked :: "sched_world \<Rightarrow> nat" where
  "leaked w = sc_activeThreadCount (sw_sched w) - count busy w"

lemma count_update:
  assumes "i < length (sw_workers w)"
  shows "count P (put_worker i (wk, st, s) w) + (if P (sw_workers w ! i) then 1 else 0)
       = count P w + (if P wk then 1 else 0)"
proof -
  have "filter P (sw_workers w)
      = filter P (take i (sw_workers w) @ sw_workers w ! i # drop (Suc i) (sw_workers w))"
    using id_take_nth_drop [OF assms] by simp
  then have "length (filter P (sw_workers w)) = length (filter P (take i (sw_workers w)))
      + (if P (sw_workers w ! i) then 1 else 0) + length (filter P (drop (Suc i) (sw_workers w)))"
    by simp
  moreover have "length (filter P ((sw_workers w)[i := wk])) = length (filter P (take i (sw_workers w)))
      + (if P wk then 1 else 0) + length (filter P (drop (Suc i) (sw_workers w)))"
    using assms by (simp add: upd_conv_take_nth_drop)
  ultimately show ?thesis by (simp add: count_def put_worker_def)
qed

lemma count_sched [simp]: "count P (w\<lparr>sw_sched := s\<rparr>) = count P w"
  by (simp add: count_def)

lemma put_worker_sched [simp]: "sw_sched (put_worker i (wk, st, s) w) = s"
  by (simp add: put_worker_def)

lemma schedule_simps [simp]:
  "sc_activeThreadCount (snd (schedule ft s)) = sc_activeThreadCount s"
  "sc_idleThreadCount (snd (schedule ft s)) = sc_idleThreadCount s"
  "list_all ft_valid (sc_fibers (snd (schedule ft s))) = list_all ft_valid (sc_fibers s)"
  by (auto simp: schedule_def scheduleNoLock_def)

lemma schedule_range_simps [simp]:
  "sc_activeThreadCount (snd (schedule_range fts s)) = sc_activeThreadCount s"
  "sc_idleThreadCount (snd (schedule_range fts s)) = sc_idleThreadCount s"
  "list_all ft_valid (sc_fibers (snd (schedule_range fts s))) = list_all ft_valid (sc_fibers s)"
  by (induction fts arbitrary: s) (auto simp: scheduleNoLock_def split_beta Let_def)

lemma schedule_range_queue:
  "sc_fibers (snd (schedule_range fts s)) = sc_fibers s @ filter ft_valid fts"
  by (induction fts arbitrary: s) (auto simp: scheduleNoLock_def split_beta Let_def)

lemma pick_inv:
  assumes "pick tid st s = Inr (c, t, s')" "list_all ft_valid (sc_fibers s)"
  shows "sc_activeThreadCount s' = sc_activeThreadCount s + (if c = None then 0 else 1)"
    "sc_idleThreadCount s' = sc_idleThreadCount s" "list_all ft_valid (sc_fibers s')"
  using assms pick_loop_ok [OF assms(2), of tid st] by (auto simp: pick_def result_iff)

lemma dispatch_inv:
  assumes "dispatch fresh c wk st s = Inr (wk', st', s')"
  shows "sc_activeThreadCount s' = sc_activeThreadCount s" "sc_fibers s' = sc_fibers s"
    "sc_idleThreadCount s' = sc_idleThreadCount s + (if idling wk' then 1 else 0)"
    "busy wk' \<Longrightarrow> c \<noteq> None"
  using assms
  by (auto simp: dispatch_def Let_def assertR_def bindR_def busy_def idling_def
      split: option.splits if_splits)

lemma busy_phase [simp]:
  "wk_phase wk = Loop \<Longrightarrow> \<not> busy wk" "wk_phase wk = Picked c \<Longrightarrow> busy wk \<longleftrightarrow> c \<noteq> None"
  "wk_phase wk = InFiber f \<Longrightarrow> busy wk" "wk_phase wk = LeftFiber f \<Longrightarrow> busy wk"
  "wk_phase wk = DoneFiber f \<Longrightarrow> \<not> busy wk" "wk_phase wk = PutFiber f \<Longrightarrow> \<not> busy wk"
  "wk_phase wk = InCb f \<Longrightarrow> busy wk" "wk_phase wk = LeftCb f \<Longrightarrow> busy wk"
  "wk_phase wk = DoneCb f \<Longrightarrow> \<not> busy wk" "wk_phase wk = PutCb f \<Longrightarrow> \<not> busy wk"
  "wk_phase wk = InIdle \<Longrightarrow> \<not> busy wk"
  by (auto simp: busy_def split: option.splits)

lemma idling_phase [simp]:
  "wk_phase wk = Loop \<Longrightarrow> \<not> idling wk" "wk_phase wk = Picked c \<Longrightarrow> \<not> idling wk"
  "wk_phase wk = InFiber f \<Longrightarrow> \<not> idling wk" "wk_phase wk = LeftFiber f \<Longrightarrow> \<not> idling wk"
  "wk_phase wk = DoneFiber f \<Longrightarrow> \<not> idling wk" "wk_phase wk = PutFiber f \<Longrightarrow> \<not> idling wk"
  "wk_phase wk = InCb f \<Longrightarrow> \<not> idling wk" "wk_phase wk = LeftCb f \<Longrightarrow> \<not> idling wk"
  "wk_phase wk = DoneCb f \<Longrightarrow> \<not> idling wk" "wk_phase wk = PutCb f \<Longrightarrow> \<not> idling wk"
  "wk_phase wk = InIdle \<Longrightarrow> idling wk"
  by (auto simp: idling_def)

text \<open>One worker's step keeps the invariant, and the surplus of the active count does not shrink, when
  the counters move at least as the worker's phase does.\<close>

lemma put_worker_inv:
  assumes "sw_inv w" "i < length (sw_workers w)"
    and "sc_activeThreadCount (sw_sched w) + of_bool (busy wk')
           \<le> sc_activeThreadCount s + of_bool (busy (sw_workers w ! i))"
    and "sc_idleThreadCount s + of_bool (idling (sw_workers w ! i))
           = sc_idleThreadCount (sw_sched w) + of_bool (idling wk')"
    and "list_all ft_valid (sc_fibers s)"
  shows "sw_inv (put_worker i (wk', st, s) w) \<and> leaked w \<le> leaked (put_worker i (wk', st, s) w)"
  using assms count_update [OF assms(2), where P = busy and wk = wk' and st = st and s = s]
    count_update [OF assms(2), where P = idling and wk = wk' and st = st and s = s]
  by (auto simp: sw_inv_def leaked_def split: if_splits)

lemmas worker_ops = leave_def return_fiber_def settle_fiber_def requeue_fiber_def return_cb_def
  settle_cb_def requeue_cb_def return_idle_def

text \<open>What one step does to the counters: the surplus of the active count never shrinks.\<close>

lemma sstep_inv:
  assumes "sstep w w'" "sw_inv w"
  shows "sw_inv w' \<and> leaked w \<le> leaked w'"
  using assms(1)
proof cases
  case (pick i wk c t s)
  show ?thesis unfolding pick(1)
    by (rule put_worker_inv [OF assms(2) pick(2)])
       (use pick_inv [OF pick(5)] assms(2) pick(3,4) in \<open>auto simp: sw_inv_def\<close>)
next
  case (dispatch i wk c fresh r)
  obtain wk' st' s' where r: "r = (wk', st', s')" by (cases r)
  show ?thesis unfolding dispatch(1) r
    by (rule put_worker_inv [OF assms(2) dispatch(2)])
       (use dispatch_inv [OF dispatch(5) [unfolded r]] assms(2) dispatch(3,4) in \<open>auto simp: sw_inv_def\<close>)
next
  case (ret_idle i wk new_st wk' s)
  have "count idling w \<noteq> 0"
    using ret_idle(2-4) by (auto simp: count_def filter_empty_conv intro!: bexI [of _ wk])
  then show ?thesis unfolding ret_idle(1)
    by (intro put_worker_inv [OF assms(2) ret_idle(2)])
       (use ret_idle(3-5) assms(2) in \<open>auto simp: worker_ops sw_inv_def\<close>)
next
  case (leave_fiber i wk f new_st wk' st)
  show ?thesis unfolding leave_fiber(1)
    by (rule put_worker_inv [OF assms(2) leave_fiber(2)])
       (use leave_fiber(3-5) assms(2) in \<open>auto simp: worker_ops sw_inv_def split: if_splits\<close>)
next
  case (ret_fiber i wk f wk' s)
  show ?thesis unfolding ret_fiber(1)
    by (rule put_worker_inv [OF assms(2) ret_fiber(2)])
       (use ret_fiber(3-5) assms(2) in \<open>auto simp: worker_ops sw_inv_def split: if_splits\<close>)
next
  case (settle_fiber i wk f wk' st)
  show ?thesis unfolding settle_fiber(1)
    by (rule put_worker_inv [OF assms(2) settle_fiber(2)])
       (use settle_fiber(3-5) assms(2) in \<open>auto simp: worker_ops sw_inv_def split: if_splits\<close>)
next
  case (put_fiber i wk f wk' s)
  show ?thesis unfolding put_fiber(1)
    by (rule put_worker_inv [OF assms(2) put_fiber(2)])
       (use put_fiber(3-5) assms(2) in \<open>auto simp: worker_ops sw_inv_def split: if_splits\<close>)
next
  case (leave_cb i wk f new_st wk' st)
  show ?thesis unfolding leave_cb(1)
    by (rule put_worker_inv [OF assms(2) leave_cb(2)])
       (use leave_cb(3-5) assms(2) in \<open>auto simp: worker_ops sw_inv_def split: if_splits\<close>)
next
  case (ret_cb i wk f wk' s)
  show ?thesis unfolding ret_cb(1)
    by (rule put_worker_inv [OF assms(2) ret_cb(2)])
       (use ret_cb(3-5) assms(2) in \<open>auto simp: worker_ops sw_inv_def split: if_splits\<close>)
next
  case (settle_cb i wk f wk' st)
  show ?thesis unfolding settle_cb(1)
    by (rule put_worker_inv [OF assms(2) settle_cb(2)])
       (use settle_cb(3-5) assms(2) in \<open>auto simp: worker_ops sw_inv_def split: if_splits\<close>)
next
  case (put_cb i wk f wk' s)
  show ?thesis unfolding put_cb(1)
    by (rule put_worker_inv [OF assms(2) put_cb(2)])
       (use put_cb(3-5) assms(2) in \<open>auto simp: worker_ops sw_inv_def split: if_splits\<close>)
qed (use assms(2) in \<open>auto simp: sw_inv_def leaked_def stop_begin_def\<close>)

lemma sreach_inv: "sreach w \<Longrightarrow> sw_inv w"
proof (induction rule: sreach.induct)
  case (init n use_caller null tid s0 ids s st0)
  then have "sc_activeThreadCount s = 0" "sc_idleThreadCount s = 0" "sc_fibers s = []"
    by (auto simp: Scheduler_new_def start_def assertR_def bindR_def split: if_splits)
  moreover have "filter busy (map fresh_worker ids') = []" "filter idling (map fresh_worker ids') = []" for ids'
    by (auto simp: filter_empty_conv fresh_worker_def busy_def idling_def)
  ultimately show ?case by (simp add: sw_inv_def count_def)
next
  case (step w w')
  then show ?case using sstep_inv by blast
qed

lemma stopping_quiet:
  assumes "sw_inv w" "stopping (sw_sched w)"
  shows "leaked w = 0 \<and> (\<forall>wk \<in> set (sw_workers w). \<not> busy wk)"
proof -
  have "count busy w = 0" using assms by (simp add: sw_inv_def stopping_def)
  then show ?thesis using assms(2)
    by (simp add: leaked_def stopping_def count_def filter_empty_conv)
qed

text \<open>Dispatching a fiber that has already ended: the increment of \<open>pick\<close> is never undone.\<close>

lemma dispatch_terminated_leaks:
  assumes "sw_inv w" "i < length (sw_workers w)" "wk_phase (sw_workers w ! i) = Picked (Some ft)"
    and "ft_fiber ft = Some f" "\<not> runnable (sw_state w f)" "ft_cb ft = None"
    and "dispatch fresh (Some ft) (sw_workers w ! i) (sw_state w) (sw_sched w) = Inr r"
  shows "leaked (put_worker i r w) = leaked w + 1"
proof -
  obtain wk' st' s' where r: "r = (wk', st', s')" by (cases r)
  have "\<not> busy wk'" using assms(4-7) r
    by (auto simp: dispatch_def Let_def assertR_def bindR_def busy_def split: if_splits)
  moreover have "busy (sw_workers w ! i)" using assms(3) by (simp add: busy_def)
  ultimately have "count busy (put_worker i r w) + 1 = count busy w"
    using count_update [OF assms(2), where P = busy and wk = wk' and st = st' and s = s'] r by simp
  then show ?thesis using dispatch_inv(1) [OF assms(7) [unfolded r]] assms(1) r
    by (simp add: leaked_def sw_inv_def) linarith
qed

lemma sstep_leaked_rtranclp:
  assumes "sstep\<^sup>*\<^sup>* w w'" "sw_inv w"
  shows "sw_inv w' \<and> leaked w \<le> leaked w'"
  using assms by (induction rule: rtranclp_induct) (auto dest: sstep_inv intro: order_trans)

text \<open>The window between \<open>--m_activeThreadCount\<close> and the \<open>schedule\<close> call behind it: the last running
  fiber has yielded as \<open>READY\<close>, its worker has taken itself off the active count, and \<open>stopping\<close>
  reports true until the fiber is back in the queue.\<close>

lemma requeue_window:
  assumes "i < length (sw_workers w)" "wk_phase (sw_workers w ! i) = LeftFiber f" "sw_state w f = ST_READY"
    and "sc_autoStop (sw_sched w)" "sc_stopping (sw_sched w)" "sc_fibers (sw_sched w) = []"
    and "sc_activeThreadCount (sw_sched w) = 1"
  obtains w1 w2 w3 where "sstep w w1" "sstep w1 w2" "sstep w2 w3"
    and "stopping (sw_sched w2)" "wk_phase (sw_workers w2 ! i) = PutFiber f" "sw_state w2 f = ST_READY"
    and "sc_fibers (sw_sched w3) = [ft_of_fiber (Some f) (- 1)]" "\<not> stopping (sw_sched w3)"
proof -
  let ?wk = "sw_workers w ! i"
  let ?s = "(sw_sched w)\<lparr>sc_activeThreadCount := 0\<rparr>"
  let ?w1 = "put_worker i (?wk\<lparr>wk_phase := DoneFiber f\<rparr>, sw_state w, ?s) w"
  let ?w2 = "put_worker i (?wk\<lparr>wk_phase := PutFiber f\<rparr>, sw_state w, ?s) ?w1"
  let ?w3 = "put_worker i (?wk\<lparr>wk_phase := Loop\<rparr>, sw_state w, ?s\<lparr>sc_fibers := [ft_of_fiber (Some f) (- 1)]\<rparr>) ?w2"
  have "sstep w ?w1" by (rule sstep.ret_fiber [OF assms(1) refl assms(2)]) (simp add: return_fiber_def assms(7))
  moreover have "sstep ?w1 (put_worker i (?wk\<lparr>wk_phase := PutFiber f\<rparr>, sw_state w, sw_sched ?w1) ?w1)"
    by (rule sstep.settle_fiber [OF _ refl, where f = f])
       (use assms(1,3) in \<open>simp_all add: put_worker_def settle_fiber_def\<close>)
  then have "sstep ?w1 ?w2" by (simp add: put_worker_def)
  moreover have "sstep ?w2 (put_worker i (?wk\<lparr>wk_phase := Loop\<rparr>, sw_state ?w2,
      ?s\<lparr>sc_fibers := [ft_of_fiber (Some f) (- 1)]\<rparr>) ?w2)"
    by (rule sstep.put_fiber [OF _ refl, where f = f])
       (use assms(1,6) in \<open>simp_all add: put_worker_def requeue_fiber_def schedule_def scheduleNoLock_def
         ft_valid_def ft_of_fiber_def\<close>)
  then have "sstep ?w2 ?w3" by (simp add: put_worker_def)
  ultimately show ?thesis
    by (rule that) (use assms in \<open>simp_all add: put_worker_def stopping_def\<close>)
qed

end
