(* ===== verification/Timer.thy ===== *)
theory Timer
  imports Cpp_Prelude
begin

text \<open>
  \<open>src/myhttp/timer.cpp\<close>: timers and the timer manager. A \<open>Timer\<close> object lives at an address of
  \<open>tm_heap\<close>; \<open>tm_timers\<close> is the \<open>std::set\<close> ordered by \<open>(m_next, address)\<close>, as the list of the
  addresses in iteration order. The clock (\<open>GetCurrentMS\<close>) and the address an allocation returns are
  arguments. Times are 64-bit words, so \<open>now + ms\<close> wraps as in the code. A call of the virtual
  \<open>onTimerInsertedAtFront\<close> is reported in the result. The locks make every operation atomic, except
  \<open>listExpiredCb\<close>, which tests for emptiness under a read lock and works under a write lock taken
  later: its two parts are two definitions.
\<close>

section \<open>Timers\<close>

text \<open>A callback is the user's function, or \<open>OnTimer\<close> bound to a weak pointer and the function.\<close>

datatype callback = Fn nat | OnTimer_bound nat nat

record Timer =
  t_recurring :: bool
  t_ms :: u64
  t_next :: u64
  t_cb :: "callback option"

type_synonym timer_heap = "nat \<Rightarrow> Timer option"

definition Comparator :: "(u64 \<times> nat) option \<Rightarrow> (u64 \<times> nat) option \<Rightarrow> bool" where
  "Comparator lhs rhs =
     (case lhs of
        None \<Rightarrow> rhs \<noteq> None
      | Some (n1, p1) \<Rightarrow>
          (case rhs of
             None \<Rightarrow> False
           | Some (n2, p2) \<Rightarrow> if n1 < n2 then True else if n2 < n1 then False else p1 < p2))"

definition timer_key :: "timer_heap \<Rightarrow> nat \<Rightarrow> u64 \<times> nat" where
  "timer_key h a = (case h a of Some t \<Rightarrow> t_next t | None \<Rightarrow> 0, a)"

definition timer_lt :: "timer_heap \<Rightarrow> nat \<Rightarrow> nat \<Rightarrow> bool" where
  "timer_lt h a b = Comparator (Some (timer_key h a)) (Some (timer_key h b))"

record TimerManager =
  tm_heap :: timer_heap
  tm_timers :: "nat list"
  tm_tickled :: bool
  tm_previouseTime :: u64

definition new_Timer :: "u64 \<Rightarrow> callback option \<Rightarrow> bool \<Rightarrow> u64 \<Rightarrow> Timer" where
  "new_Timer ms cb recurring now =
     \<lparr>t_recurring = recurring, t_ms = ms, t_next = now + ms, t_cb = cb\<rparr>"

definition new_TimerManager :: "u64 \<Rightarrow> TimerManager" where
  "new_TimerManager now =
     \<lparr>tm_heap = (\<lambda>_. None), tm_timers = [], tm_tickled = False, tm_previouseTime = now\<rparr>"

section \<open>Adding\<close>

definition addTimer_locked :: "nat \<Rightarrow> TimerManager \<Rightarrow> bool \<times> TimerManager" where
  "addTimer_locked val tm =
     (let ts = set_insert (timer_lt (tm_heap tm)) val (tm_timers tm);
          at_front = (hd ts = val) \<and> \<not> tm_tickled tm
      in (at_front, tm\<lparr>tm_timers := ts, tm_tickled := (if at_front then True else tm_tickled tm)\<rparr>))"

definition addTimer :: "u64 \<Rightarrow> callback option \<Rightarrow> bool \<Rightarrow> u64 \<Rightarrow> nat \<Rightarrow> TimerManager \<Rightarrow> bool \<times> TimerManager"
where
  "addTimer ms cb recurring now addr tm =
     addTimer_locked addr (tm\<lparr>tm_heap := (tm_heap tm)(addr \<mapsto> new_Timer ms cb recurring now)\<rparr>)"

definition OnTimer :: "(nat \<Rightarrow> bool) \<Rightarrow> nat \<Rightarrow> nat \<Rightarrow> nat list" where
  "OnTimer alive weak_cond cb = (if alive weak_cond then [cb] else [])"

definition run_callback :: "(nat \<Rightarrow> bool) \<Rightarrow> callback \<Rightarrow> nat list" where
  "run_callback alive cb = (case cb of Fn f \<Rightarrow> [f] | OnTimer_bound w f \<Rightarrow> OnTimer alive w f)"

definition addConditiaonTimer ::
  "u64 \<Rightarrow> nat \<Rightarrow> nat \<Rightarrow> bool \<Rightarrow> u64 \<Rightarrow> nat \<Rightarrow> TimerManager \<Rightarrow> bool \<times> TimerManager" where
  "addConditiaonTimer ms cb weak_cond recurring now addr tm =
     addTimer ms (Some (OnTimer_bound weak_cond cb)) recurring now addr tm"

section \<open>Operations of a timer\<close>

definition cancel :: "nat \<Rightarrow> TimerManager \<Rightarrow> (bool \<times> TimerManager) result" where
  "cancel a tm =
     (case tm_heap tm a of
        None \<Rightarrow> Inl NullDeref
      | Some t \<Rightarrow>
          if t_cb t \<noteq> None then
            let h = (tm_heap tm)(a \<mapsto> t\<lparr>t_cb := None\<rparr>)
            in (case set_find (timer_lt h) a (tm_timers tm) of
                  None \<Rightarrow> Inl IteratorEnd
                | Some it \<Rightarrow> Inr (True, tm\<lparr>tm_heap := h, tm_timers := remove1 it (tm_timers tm)\<rparr>))
          else Inr (False, tm))"

definition refresh :: "u64 \<Rightarrow> nat \<Rightarrow> TimerManager \<Rightarrow> (bool \<times> TimerManager) result" where
  "refresh now a tm =
     (case tm_heap tm a of
        None \<Rightarrow> Inl NullDeref
      | Some t \<Rightarrow>
          if t_cb t = None then Inr (False, tm)
          else (case set_find (timer_lt (tm_heap tm)) a (tm_timers tm) of
                  None \<Rightarrow> Inr (False, tm)
                | Some it \<Rightarrow>
                    let ts = remove1 it (tm_timers tm);
                        h = (tm_heap tm)(a \<mapsto> t\<lparr>t_next := now + t_ms t\<rparr>)
                    in Inr (True, tm\<lparr>tm_heap := h, tm_timers := set_insert (timer_lt h) a ts\<rparr>)))"

definition reset :: "u64 \<Rightarrow> bool \<Rightarrow> u64 \<Rightarrow> nat \<Rightarrow> TimerManager \<Rightarrow> ((bool \<times> bool) \<times> TimerManager) result" where
  "reset ms from_now now a tm =
     (case tm_heap tm a of
        None \<Rightarrow> Inl NullDeref
      | Some t \<Rightarrow>
          if ms = t_ms t \<and> \<not> from_now then Inr ((True, False), tm)
          else if t_cb t = None then Inr ((False, False), tm)
          else (case set_find (timer_lt (tm_heap tm)) a (tm_timers tm) of
                  None \<Rightarrow> Inr ((False, False), tm)
                | Some it \<Rightarrow>
                    let ts = remove1 it (tm_timers tm);
                        start = (if from_now then now else t_next t - t_ms t);
                        h = (tm_heap tm)(a \<mapsto> t\<lparr>t_ms := ms, t_next := start + ms\<rparr>);
                        (front, tm') = addTimer_locked a (tm\<lparr>tm_heap := h, tm_timers := ts\<rparr>)
                    in Inr ((True, front), tm')))"

section \<open>Operations of the manager\<close>

definition getNextTimer :: "u64 \<Rightarrow> TimerManager \<Rightarrow> u64 \<times> TimerManager" where
  "getNextTimer now_ms tm =
     (let tm' = tm\<lparr>tm_tickled := False\<rparr>
      in if tm_timers tm = [] then (- 1, tm')
         else let nxt = fst (timer_key (tm_heap tm) (hd (tm_timers tm)))
              in (if now_ms \<ge> nxt then 0 else nxt - now_ms, tm'))"

definition detectClockRollover :: "u64 \<Rightarrow> TimerManager \<Rightarrow> bool \<times> TimerManager" where
  "detectClockRollover now_ms tm =
     (now_ms < tm_previouseTime tm \<and> now_ms < tm_previouseTime tm - 60 * 60 * 1000,
      tm\<lparr>tm_previouseTime := now_ms\<rparr>)"

definition hasTimer :: "TimerManager \<Rightarrow> bool" where
  "hasTimer tm \<longleftrightarrow> tm_timers tm \<noteq> []"

definition upper_bound :: "timer_heap \<Rightarrow> u64 \<times> nat \<Rightarrow> nat list \<Rightarrow> nat list \<times> nat list" where
  "upper_bound h now_timer ts =
     (let due = takeWhile (\<lambda>a. \<not> Comparator (Some now_timer) (Some (timer_key h a))) ts
      in (due, drop (length due) ts))"

primrec process_expired ::
  "u64 \<Rightarrow> nat list \<Rightarrow> timer_heap \<Rightarrow> nat list \<Rightarrow> callback option list \<times> timer_heap \<times> nat list" where
  "process_expired now_ms [] h ts = ([], h, ts)"
| "process_expired now_ms (a # as) h ts =
     (case h a of
        None \<Rightarrow> process_expired now_ms as h ts
      | Some t \<Rightarrow>
          let (h', ts') =
                (if t_recurring t then
                   let h1 = h(a \<mapsto> t\<lparr>t_next := now_ms + t_ms t\<rparr>) in (h1, set_insert (timer_lt h1) a ts)
                 else (h(a \<mapsto> t\<lparr>t_cb := None\<rparr>), ts));
              (cbs, r) = process_expired now_ms as h' ts'
          in (t_cb t # cbs, r))"

definition listExpiredCb_locked ::
  "u64 \<Rightarrow> nat \<Rightarrow> TimerManager \<Rightarrow> (callback option list \<times> TimerManager) result" where
  "listExpiredCb_locked now_ms now_addr tm0 =
     (let (rollover, tm) = detectClockRollover now_ms tm0
      in if \<not> rollover \<and> tm_timers tm = [] then Inl IteratorEnd
         else if \<not> rollover \<and> fst (timer_key (tm_heap tm) (hd (tm_timers tm))) > now_ms then Inr ([], tm)
         else let (expired, rest) =
                    (if rollover then (tm_timers tm, [])
                     else upper_bound (tm_heap tm) (now_ms, now_addr) (tm_timers tm));
                  (cbs, h, ts) = process_expired now_ms expired (tm_heap tm) rest
              in Inr (cbs, tm\<lparr>tm_heap := h, tm_timers := ts\<rparr>))"

definition listExpiredCb ::
  "u64 \<Rightarrow> nat \<Rightarrow> TimerManager \<Rightarrow> (callback option list \<times> TimerManager) result" where
  "listExpiredCb now_ms now_addr tm =
     (if tm_timers tm = [] then Inr ([], tm) else listExpiredCb_locked now_ms now_addr tm)"

end
