(* ===== verification/IOManager.thy ===== *)
theory IOManager
  imports Scheduler Timer
begin

text \<open>
  \<open>src/myhttp/iomanager.cpp\<close>: the event loop. Per file descriptor there is an \<open>FdContext\<close> with the set
  of registered events and what to schedule for each. \<open>epoll\<close> belongs to the kernel: whether an
  \<open>epoll_ctl\<close> call succeeds is an argument, its effect on the interest list is kept in \<open>io_kernel\<close>
  (documented behaviour of \<open>EPOLL_CTL_ADD\<close>, \<open>MOD\<close>, \<open>DEL\<close>), and what \<open>epoll_wait\<close> reports is the
  argument of the idle round. The interest list also holds the read end of the manager's own pipe,
  \<open>io_tickleFd\<close>, from the constructor on. Tasks handed to a scheduler are recorded in \<open>io_scheduled\<close> with the
  scheduler they go to. Each operation runs under the lock of its \<open>FdContext\<close>; the table itself has
  another lock, which \<open>addEvent\<close> takes twice: what it saw the first time is its argument \<open>seen\<close>.
\<close>

section \<open>Data\<close>

definition EV_READ :: u32 where "EV_READ = 1"
definition EV_WRITE :: u32 where "EV_WRITE = 4"
definition EPOLLIN :: u32 where "EPOLLIN = 1"
definition EPOLLOUT :: u32 where "EPOLLOUT = 4"
definition EPOLLERR :: u32 where "EPOLLERR = 8"
definition EPOLLHUP :: u32 where "EPOLLHUP = 16"
definition EPOLLET :: u32 where "EPOLLET = 0x80000000"

lemmas ev_defs = EV_READ_def EV_WRITE_def EPOLLIN_def EPOLLOUT_def EPOLLERR_def EPOLLHUP_def EPOLLET_def

record EventContext =
  ec_scheduler :: "nat option"
  ec_fiber :: "nat option"
  ec_cb :: "nat option"

record FdContext =
  fc_read :: EventContext
  fc_write :: EventContext
  fc_fd :: int
  fc_events :: u32

record IOManager =
  io_tickleFd :: int
  io_fdContexts :: "FdContext list"
  io_pendingEventCount :: u64
  io_kernel :: "int \<Rightarrow> u32 option"
  io_scheduled :: "(nat \<times> FiberAndThread) list"

datatype epoll_op = CTL_ADD | CTL_MOD | CTL_DEL

definition epoll_apply :: "epoll_op \<Rightarrow> int \<Rightarrow> u32 \<Rightarrow> IOManager \<Rightarrow> IOManager" where
  "epoll_apply op fd msk io =
     io\<lparr>io_kernel := (io_kernel io)(fd := (case op of CTL_DEL \<Rightarrow> None | _ \<Rightarrow> Some msk))\<rparr>"

definition empty_ctx :: EventContext where
  "empty_ctx = \<lparr>ec_scheduler = None, ec_fiber = None, ec_cb = None\<rparr>"

definition new_FdContext :: "nat \<Rightarrow> FdContext" where
  "new_FdContext i = \<lparr>fc_read = empty_ctx, fc_write = empty_ctx, fc_fd = int i, fc_events = 0\<rparr>"

section \<open>FdContext\<close>

definition getContext :: "u32 \<Rightarrow> FdContext \<Rightarrow> EventContext result" where
  "getContext event c =
     (if event = EV_READ then Inr (fc_read c)
      else if event = EV_WRITE then Inr (fc_write c) else Inl AssertFail)"

definition setContext :: "u32 \<Rightarrow> EventContext \<Rightarrow> FdContext \<Rightarrow> FdContext" where
  "setContext event ctx c = (if event = EV_READ then c\<lparr>fc_read := ctx\<rparr> else c\<lparr>fc_write := ctx\<rparr>)"

definition resetContext :: "EventContext \<Rightarrow> EventContext" where
  "resetContext ctx = ctx\<lparr>ec_scheduler := None, ec_fiber := None, ec_cb := None\<rparr>"

definition triggerEvent :: "u32 \<Rightarrow> FdContext \<Rightarrow> ((nat \<times> FiberAndThread) \<times> FdContext) result" where
  "triggerEvent event c =
     bindR (assertR (fc_events c AND event \<noteq> 0) AssertFail) (\<lambda>_.
     let c1 = c\<lparr>fc_events := fc_events c AND NOT event\<rparr>
     in bindR (getContext event c1) (\<lambda>ctx.
          case ec_scheduler ctx of
            None \<Rightarrow> Inl NullDeref
          | Some s \<Rightarrow>
              if ec_cb ctx \<noteq> None then
                Inr ((s, ft_of_cb (ec_cb ctx) (- 1)),
                     setContext event (ctx\<lparr>ec_cb := None, ec_scheduler := None\<rparr>) c1)
              else
                Inr ((s, ft_of_fiber (ec_fiber ctx) (- 1)),
                     setContext event (ctx\<lparr>ec_fiber := None, ec_scheduler := None\<rparr>) c1)))"

section \<open>Operations\<close>

definition contextResize :: "nat \<Rightarrow> IOManager \<Rightarrow> IOManager" where
  "contextResize sz io =
     io\<lparr>io_fdContexts := take sz (io_fdContexts io)
          @ map new_FdContext [length (io_fdContexts io)..<sz]\<rparr>"

text \<open>The constructor: \<open>ok\<close> says that \<open>epoll_create\<close>, \<open>pipe\<close>, \<open>fcntl\<close> and \<open>epoll_ctl\<close> succeed, \<open>p\<close> is the
  read end of the pipe.\<close>

definition io_start :: "int \<Rightarrow> IOManager" where
  "io_start p =
     contextResize 32
       (epoll_apply CTL_ADD p (EPOLLIN OR EPOLLET)
          \<lparr>io_tickleFd = p, io_fdContexts = [], io_pendingEventCount = 0, io_kernel = (\<lambda>_. None), io_scheduled = []\<rparr>)"

definition new_IOManager :: "bool \<Rightarrow> int \<Rightarrow> IOManager result" where
  "new_IOManager ok p = bindR (assertR ok AssertFail) (\<lambda>_. Inr (io_start p))"

definition put_ctx :: "nat \<Rightarrow> FdContext \<Rightarrow> IOManager \<Rightarrow> IOManager" where
  "put_ctx i c io = io\<lparr>io_fdContexts := (io_fdContexts io)[i := c]\<rparr>"

definition emit :: "nat \<times> FiberAndThread \<Rightarrow> IOManager \<Rightarrow> IOManager" where
  "emit t io = io\<lparr>io_scheduled := io_scheduled io @ [t]\<rparr>"

definition trigger_at :: "u32 \<Rightarrow> nat \<Rightarrow> IOManager \<Rightarrow> IOManager result" where
  "trigger_at event i io =
     bindR (triggerEvent event (io_fdContexts io ! i)) (\<lambda>(t, c).
       let io1 = emit t (put_ctx i c io)
       in Inr (io1\<lparr>io_pendingEventCount := io_pendingEventCount io1 - 1\<rparr>))"

text \<open>The result of \<open>addEvent\<close> is 0 or -1. \<open>sched\<close>, \<open>fiber\<close> and \<open>st\<close> are \<open>Scheduler::GetThis()\<close>,
  \<open>Fiber::GetThis()\<close> and the state of that fiber. \<open>seen\<close> is the size of the table under the read lock:
  when it covers \<open>fd\<close>, the context is fetched under the same lock; otherwise the lock is released and
  the table resized under the write lock without looking at its size again, so a \<open>seen\<close> that has gone
  stale can shrink it. A context that was fetched and has been cut off the table before it is locked is
  \<open>OutOfBounds\<close> here. \<open>epoll_ctl\<close> refuses to add a descriptor that is in the interest list.\<close>

definition grow_for :: "nat \<Rightarrow> int \<Rightarrow> IOManager \<Rightarrow> IOManager" where
  "grow_for seen fd io = (if int seen > fd then io else contextResize (nat (fd + fd div 2)) io)"

definition addEvent ::
  "nat \<Rightarrow> int \<Rightarrow> u32 \<Rightarrow> nat option \<Rightarrow> nat option \<Rightarrow> nat \<Rightarrow> State \<Rightarrow> bool \<Rightarrow> IOManager \<Rightarrow> (int \<times> IOManager) result"
where
  "addEvent seen fd event cb sched fiber st ctl_ok io0 =
     (if fd < 0 then Inl OutOfBounds
      else let io = grow_for seen fd io0;
               i = nat fd
           in if i \<ge> length (io_fdContexts io) then Inl OutOfBounds
              else let c = io_fdContexts io ! i
              in bindR (assertR (fc_events c AND event = 0) AssertFail) (\<lambda>_.
                 if \<not> ctl_ok \<or> fc_events c = 0 \<and> io_kernel io fd \<noteq> None then Inr (- 1, io)
                 else let op = (if fc_events c \<noteq> 0 then CTL_MOD else CTL_ADD);
                          io1 = epoll_apply op fd (EPOLLET OR fc_events c OR event) io;
                          io2 = io1\<lparr>io_pendingEventCount := io_pendingEventCount io1 + 1\<rparr>;
                          c1 = c\<lparr>fc_events := fc_events c OR event\<rparr>
                 in bindR (getContext event c1) (\<lambda>ctx.
                    bindR (assertR (ec_scheduler ctx = None \<and> ec_fiber ctx = None \<and> ec_cb ctx = None) AssertFail) (\<lambda>_.
                      if cb \<noteq> None then
                        Inr (0, put_ctx i (setContext event (ctx\<lparr>ec_scheduler := sched, ec_cb := cb\<rparr>) c1) io2)
                      else
                        bindR (assertR (st = ST_EXEC) AssertFail) (\<lambda>_.
                          Inr (0, put_ctx i (setContext event (ctx\<lparr>ec_scheduler := sched, ec_fiber := Some fiber\<rparr>) c1) io2))))))"

definition deregister :: "int \<Rightarrow> u32 \<Rightarrow> u32 \<Rightarrow> IOManager \<Rightarrow> IOManager" where
  "deregister fd left msk io = epoll_apply (if left \<noteq> 0 then CTL_MOD else CTL_DEL) fd msk io"

definition delEvent :: "int \<Rightarrow> u32 \<Rightarrow> bool \<Rightarrow> IOManager \<Rightarrow> (bool \<times> IOManager) result" where
  "delEvent fd event ctl_ok io =
     (if fd \<ge> int (length (io_fdContexts io)) then Inr (False, io)
      else if fd < 0 then Inl OutOfBounds
      else let c = io_fdContexts io ! nat fd
           in if fc_events c AND event = 0 then Inr (False, io)
              else if \<not> ctl_ok then Inr (False, io)
              else let new_events = fc_events c AND NOT event;
                       io1 = deregister fd new_events (EPOLLET OR new_events) io;
                       io2 = io1\<lparr>io_pendingEventCount := io_pendingEventCount io1 - 1\<rparr>;
                       c1 = c\<lparr>fc_events := new_events\<rparr>
                   in bindR (getContext event c1) (\<lambda>ctx.
                        Inr (True, put_ctx (nat fd) (setContext event (resetContext ctx) c1) io2)))"

definition cancelEvent :: "int \<Rightarrow> u32 \<Rightarrow> bool \<Rightarrow> IOManager \<Rightarrow> (bool \<times> IOManager) result" where
  "cancelEvent fd event ctl_ok io =
     (if fd \<ge> int (length (io_fdContexts io)) then Inr (False, io)
      else if fd < 0 then Inl OutOfBounds
      else let c = io_fdContexts io ! nat fd
           in if fc_events c AND event = 0 then Inr (False, io)
              else if \<not> ctl_ok then Inr (False, io)
              else let new_events = fc_events c AND NOT event;
                       io1 = deregister fd new_events (EPOLLET OR new_events) io
                   in bindR (trigger_at event (nat fd) io1) (\<lambda>io2. Inr (True, io2)))"

definition trigger_if :: "u32 \<Rightarrow> u32 \<Rightarrow> nat \<Rightarrow> IOManager \<Rightarrow> IOManager result" where
  "trigger_if msk event i io = (if msk AND event \<noteq> 0 then trigger_at event i io else Inr io)"

definition cancelAll :: "int \<Rightarrow> bool \<Rightarrow> IOManager \<Rightarrow> (bool \<times> IOManager) result" where
  "cancelAll fd ctl_ok io =
     (if fd \<ge> int (length (io_fdContexts io)) then Inr (False, io)
      else if fd < 0 then Inl OutOfBounds
      else if fc_events (io_fdContexts io ! nat fd) = 0 then Inr (False, io)
      else if \<not> ctl_ok then Inr (False, io)
      else let i = nat fd; io1 = epoll_apply CTL_DEL fd 0 io
           in bindR (trigger_if (fc_events (io_fdContexts io1 ! i)) EV_READ i io1) (\<lambda>io2.
              bindR (trigger_if (fc_events (io_fdContexts io2 ! i)) EV_WRITE i io2) (\<lambda>io3.
              bindR (assertR (fc_events (io_fdContexts io3 ! i) = 0) AssertFail) (\<lambda>_.
                Inr (True, io3)))))"

section \<open>The idle round\<close>

definition real_events :: "u32 \<Rightarrow> u32" where
  "real_events msk =
     (let msk = (if msk AND (EPOLLERR OR EPOLLHUP) \<noteq> 0 then msk OR EPOLLIN OR EPOLLOUT else msk)
      in (if msk AND EPOLLIN \<noteq> 0 then EV_READ else 0) OR (if msk AND EPOLLOUT \<noteq> 0 then EV_WRITE else 0))"

definition process_event :: "nat \<Rightarrow> u32 \<Rightarrow> bool \<Rightarrow> IOManager \<Rightarrow> IOManager result" where
  "process_event i msk ctl_ok io =
     (let c = io_fdContexts io ! i; real = real_events msk
      in if fc_events c AND real = 0 then Inr io
         else if \<not> ctl_ok then Inr io
         else let left = fc_events c AND NOT real;
                  io1 = deregister (fc_fd c) left (EPOLLET OR left) io
              in bindR (trigger_if real EV_READ i io1) (\<lambda>io2. trigger_if real EV_WRITE i io2))"

text \<open>One report of \<open>epoll_wait\<close>: the tickle pipe, or the context of a descriptor with its msk and
  the outcome of the following \<open>epoll_ctl\<close>.\<close>

datatype epoll_report = TicklePipe | FdReport nat u32 bool

primrec process_events :: "epoll_report list \<Rightarrow> IOManager \<Rightarrow> IOManager result" where
  "process_events [] io = Inr io"
| "process_events (e # es) io =
     bindR (case e of TicklePipe \<Rightarrow> Inr io | FdReport i msk ok \<Rightarrow> process_event i msk ok io)
       (process_events es)"

definition MAX_TIMEOUT :: int where "MAX_TIMEOUT = 3000"

text \<open>The timeout passed to \<open>epoll_wait\<close>: \<open>(int)next_timeout\<close> keeps the low 32 bits as a signed
  number; a negative timeout means to wait without limit.\<close>

definition clamp_timeout :: "u64 \<Rightarrow> int" where
  "clamp_timeout next_timeout =
     (if next_timeout \<noteq> - 1 then
        (if sint (ucast next_timeout :: u32) > MAX_TIMEOUT then MAX_TIMEOUT
         else sint (ucast next_timeout :: u32))
      else MAX_TIMEOUT)"

definition io_stopping :: "u64 \<Rightarrow> TimerManager \<Rightarrow> IOManager \<Rightarrow> Scheduler \<Rightarrow> (bool \<times> u64) \<times> TimerManager" where
  "io_stopping now tm io s =
     (let (timeout, tm') = getNextTimer now tm
      in ((timeout = - 1 \<and> io_pendingEventCount io = 0 \<and> stopping s, timeout), tm'))"

text \<open>\<open>fn\<close> names the function object of a timer callback.\<close>

definition cb_task :: "(callback \<Rightarrow> nat) \<Rightarrow> callback option \<Rightarrow> FiberAndThread" where
  "cb_task fn cb = ft_of_cb (map_option fn cb) (- 1)"

definition idle_round ::
  "(callback \<Rightarrow> nat) \<Rightarrow> u64 \<Rightarrow> nat \<Rightarrow> epoll_report list \<Rightarrow> TimerManager \<Rightarrow> IOManager \<Rightarrow> Scheduler
     \<Rightarrow> (TimerManager \<times> IOManager \<times> Scheduler) result" where
  "idle_round fn now now_addr reports tm io s =
     bindR (listExpiredCb now now_addr tm) (\<lambda>(cbs, tm').
       let s' = (if cbs \<noteq> [] then snd (schedule_range (map (cb_task fn) cbs) s) else s)
       in bindR (process_events reports io) (\<lambda>io'. Inr (tm', io', s')))"

text \<open>\<open>tickle\<close> writes to the pipe; the result says whether it does.\<close>

definition tickle :: "Scheduler \<Rightarrow> bool" where
  "tickle s \<longleftrightarrow> \<not> sc_idleThreadCount s > 0"

definition onTimerInsertedAtFront :: "Scheduler \<Rightarrow> bool" where
  "onTimerInsertedAtFront s = tickle s"

end
