(* ===== verification/Timer_Lemmas.thy ===== *)
theory Timer_Lemmas
  imports Timer
begin

text \<open>
  The invariant of the timer manager: the set is sorted by \<open>(m_next, address)\<close> and holds exactly the
  live timers, those whose callback has not been cleared. Every operation keeps it (\<open>tm_reach\<close>),
  which is why \<open>cancel\<close> may erase the iterator it found without testing it. \<open>listExpiredCb\<close> is
  described by the timers that are due.
\<close>

section \<open>The order of timers\<close>

interpretation cmp: strict_weak_order Comparator
proof
  fix x y z :: "(u64 \<times> nat) option"
  show "\<not> Comparator x x" by (auto simp: Comparator_def split: option.splits)
  show "Comparator x y \<Longrightarrow> Comparator y z \<Longrightarrow> Comparator x z"
    by (auto simp: Comparator_def split: option.splits if_splits)
  show "\<not> Comparator x y \<Longrightarrow> \<not> Comparator y z \<Longrightarrow> \<not> Comparator x z"
    by (auto simp: Comparator_def split: option.splits if_splits)
qed

lemma eqv_Comparator: "eqv Comparator x y \<longleftrightarrow> x = y"
  by (auto simp: eqv_def Comparator_def split: option.splits if_splits)

lemma eqv_timer_lt: "eqv (timer_lt h) = (=)"
  using eqv_Comparator by (auto simp: fun_eq_iff eqv_def timer_lt_def timer_key_def)

interpretation tl: strict_weak_order "timer_lt h" for h
  unfolding timer_lt_def
  by unfold_locales (use cmp.lt_irrefl cmp.lt_trans cmp.lt_neg_trans in blast)+

lemma set_ok_distinct: "set_ok (timer_lt h) ts \<Longrightarrow> distinct ts"
  by (induction ts) (auto simp: set_ok_def tl.lt_irrefl)

lemma set_ok_key_cong:
  assumes "\<forall>b \<in> set ts. timer_key h' b = timer_key h b"
  shows "set_ok (timer_lt h') ts = set_ok (timer_lt h) ts"
  using assms unfolding set_ok_def by (induction ts) (auto simp: timer_lt_def)

lemma set_ok_fresh: "a \<notin> set ts \<Longrightarrow> set_ok (timer_lt (h(a \<mapsto> t))) ts = set_ok (timer_lt h) ts"
  by (rule set_ok_key_cong) (auto simp: timer_key_def)

lemma set_ok_remove1: "set_ok (timer_lt h) ts \<Longrightarrow> set_ok (timer_lt h) (remove1 a ts)"
  using set_ok_distinct [of h ts] by (simp add: set_ok_def distinct_remove1_removeAll removeAll_filter_not_eq sorted_wrt_filter)

lemma set_find_timer:
  assumes "set_ok (timer_lt h) ts"
  shows "set_find (timer_lt h) a ts = (if a \<in> set ts then Some a else None)"
proof (cases "set_find (timer_lt h) a ts")
  case None
  then show ?thesis using tl.set_find_Some_iff [OF assms, of a a] by (simp add: eqv_timer_lt)
next
  case (Some b)
  then show ?thesis using tl.set_find_Some_iff [OF assms, of a b] by (simp add: eqv_timer_lt)
qed

lemma set_insert_timer:
  assumes "set_ok (timer_lt h) ts" "a \<notin> set ts"
  shows "set_ok (timer_lt h) (set_insert (timer_lt h) a ts)"
    "set (set_insert (timer_lt h) a ts) = insert a (set ts)"
    "hd (set_insert (timer_lt h) a ts) = a \<longleftrightarrow> (\<forall>b \<in> set ts. timer_lt h a b)"
proof -
  have ne: "\<forall>b \<in> set ts. \<not> eqv (timer_lt h) a b" using assms(2) by (auto simp: eqv_timer_lt)
  show "set_ok (timer_lt h) (set_insert (timer_lt h) a ts)" by (rule tl.set_insert_ok [OF assms(1)])
  show "set (set_insert (timer_lt h) a ts) = insert a (set ts)" by (rule tl.set_set_insert [OF assms(1) ne])
  show "hd (set_insert (timer_lt h) a ts) = a \<longleftrightarrow> (\<forall>b \<in> set ts. timer_lt h a b)"
    by (rule tl.set_insert_hd [OF assms(1) ne])
qed

section \<open>The invariant\<close>

definition live :: "timer_heap \<Rightarrow> nat \<Rightarrow> bool" where
  "live h a \<longleftrightarrow> (\<exists>t. h a = Some t \<and> t_cb t \<noteq> None)"

definition tm_inv :: "TimerManager \<Rightarrow> bool" where
  "tm_inv tm \<longleftrightarrow>
     set_ok (timer_lt (tm_heap tm)) (tm_timers tm) \<and> (\<forall>a. a \<in> set (tm_timers tm) \<longleftrightarrow> live (tm_heap tm) a)"

lemma tm_invD:
  assumes "tm_inv tm"
  shows "set_ok (timer_lt (tm_heap tm)) (tm_timers tm)" "distinct (tm_timers tm)"
    "a \<in> set (tm_timers tm) \<longleftrightarrow> live (tm_heap tm) a"
  using assms set_ok_distinct by (auto simp: tm_inv_def)

lemma live_update [simp]: "live (h(a \<mapsto> t)) b \<longleftrightarrow> (if b = a then t_cb t \<noteq> None else live h b)"
  by (simp add: live_def)

lemma new_TimerManager_inv [inv_intros]: "tm_inv (new_TimerManager now)"
  by (simp add: tm_inv_def new_TimerManager_def set_ok_def live_def)

lemma addTimer_locked_inv:
  assumes "set_ok (timer_lt (tm_heap tm)) (tm_timers tm)" "a \<notin> set (tm_timers tm)"
    and "\<forall>b. b = a \<or> b \<in> set (tm_timers tm) \<longleftrightarrow> live (tm_heap tm) b"
  shows "tm_inv (snd (addTimer_locked a tm))"
  using set_insert_timer [OF assms(1,2)] assms(3) by (simp add: tm_inv_def addTimer_locked_def Let_def)

lemma addTimer_inv [inv_intros]:
  assumes "tm_inv tm" "tm_heap tm addr = None"
  shows "tm_inv (snd (addTimer ms (Some cb) recurring now addr tm))"
proof -
  have "addr \<notin> set (tm_timers tm)" using assms tm_invD(3) by (auto simp: live_def)
  then show ?thesis unfolding addTimer_def
    using tm_invD [OF assms(1)] by (intro addTimer_locked_inv) (auto simp: set_ok_fresh new_Timer_def)
qed

lemma remove1_timer:
  assumes "set_ok (timer_lt h) ts"
  shows "a \<notin> set (remove1 a ts)" "set (remove1 a ts) = set ts - {a}"
  using set_ok_distinct [OF assms] by simp_all

lemma set_ok_rekey:
  assumes "set_ok (timer_lt h) ts"
  shows "set_ok (timer_lt (h(a \<mapsto> t))) (remove1 a ts)"
  using set_ok_remove1 [OF assms] set_ok_fresh [OF remove1_timer(1) [OF assms]] by simp

lemma cancel_eq:
  assumes "tm_inv tm" "tm_heap tm a = Some t"
  shows "cancel a tm =
    (if t_cb t = None then Inr (False, tm)
     else Inr (True, tm\<lparr>tm_heap := (tm_heap tm)(a \<mapsto> t\<lparr>t_cb := None\<rparr>), tm_timers := remove1 a (tm_timers tm)\<rparr>))"
proof -
  let ?h = "(tm_heap tm)(a \<mapsto> t\<lparr>t_cb := None\<rparr>)"
  have ok: "set_ok (timer_lt ?h) (tm_timers tm)"
    using tm_invD(1) [OF assms(1)] set_ok_key_cong [of "tm_timers tm" ?h "tm_heap tm"] assms(2)
    by (simp add: timer_key_def)
  have "a \<in> set (tm_timers tm) \<longleftrightarrow> t_cb t \<noteq> None"
    using tm_invD(3) [OF assms(1)] assms(2) by (simp add: live_def)
  then show ?thesis using assms(2) set_find_timer [OF ok] by (simp add: cancel_def Let_def)
qed

lemma cancel_inv [inv_intros]:
  assumes "tm_inv tm" "cancel a tm = Inr (r, tm')"
  shows "tm_inv tm'"
proof -
  obtain t where t: "tm_heap tm a = Some t" using assms(2) by (cases "tm_heap tm a") (auto simp: cancel_def)
  show ?thesis
    using cancel_eq [OF assms(1) t] assms set_ok_rekey [OF tm_invD(1) [OF assms(1)]]
      remove1_timer(2) [OF tm_invD(1) [OF assms(1)]] tm_invD(3) [OF assms(1)]
    by (auto simp: tm_inv_def split: if_splits)
qed

lemma refresh_eq:
  assumes "tm_inv tm" "tm_heap tm a = Some t"
  shows "refresh now a tm =
    (if t_cb t = None then Inr (False, tm)
     else let h = (tm_heap tm)(a \<mapsto> t\<lparr>t_next := now + t_ms t\<rparr>)
          in Inr (True, tm\<lparr>tm_heap := h, tm_timers := set_insert (timer_lt h) a (remove1 a (tm_timers tm))\<rparr>))"
  using assms(2) set_find_timer [OF tm_invD(1) [OF assms(1)]] tm_invD(3) [OF assms(1)]
  by (simp add: refresh_def live_def)

lemma refresh_inv [inv_intros]:
  assumes "tm_inv tm" "refresh now a tm = Inr (r, tm')"
  shows "tm_inv tm'"
proof -
  obtain t where t: "tm_heap tm a = Some t" using assms(2) by (cases "tm_heap tm a") (auto simp: refresh_def)
  note rk = remove1_timer [OF tm_invD(1) [OF assms(1)], of a]
    set_ok_rekey [OF tm_invD(1) [OF assms(1)], of a "t\<lparr>t_next := now + t_ms t\<rparr>"]
  show ?thesis
    using refresh_eq [OF assms(1) t] assms set_insert_timer [OF rk(3,1)] rk(2) tm_invD(3) [OF assms(1)]
    by (auto simp: tm_inv_def Let_def split: if_splits)
qed

lemma reset_inv [inv_intros]:
  assumes "tm_inv tm" "reset ms from_now now a tm = Inr (r, tm')"
  shows "tm_inv tm'"
proof -
  obtain t where t: "tm_heap tm a = Some t" using assms(2) by (cases "tm_heap tm a") (auto simp: reset_def)
  let ?t = "t\<lparr>t_ms := ms, t_next := (if from_now then now else t_next t - t_ms t) + ms\<rparr>"
  let ?tm = "tm\<lparr>tm_heap := (tm_heap tm)(a \<mapsto> ?t), tm_timers := remove1 a (tm_timers tm)\<rparr>"
  note rk = remove1_timer [OF tm_invD(1) [OF assms(1)], of a]
    set_ok_rekey [OF tm_invD(1) [OF assms(1)], of a ?t]
  show ?thesis
  proof (cases "tm' = tm")
    case True
    then show ?thesis using assms(1) by simp
  next
    case False
    then have cb: "t_cb t \<noteq> None" and tm': "tm' = snd (addTimer_locked a ?tm)"
      using assms(2) t set_find_timer [OF tm_invD(1) [OF assms(1)]] tm_invD(3) [OF assms(1)]
      by (auto simp: reset_def Let_def split: if_splits prod.splits)
    show ?thesis unfolding tm'
      by (rule addTimer_locked_inv) (use rk cb tm_invD(3) [OF assms(1)] t in \<open>auto simp: live_def\<close>)
  qed
qed

lemma getNextTimer_inv [inv_intros]: "tm_inv tm \<Longrightarrow> tm_inv (snd (getNextTimer now tm))"
  by (cases "tm_timers tm = []") (simp_all add: tm_inv_def getNextTimer_def Let_def)

section \<open>Expiry\<close>

definition expire :: "u64 \<Rightarrow> Timer \<Rightarrow> Timer" where
  "expire now t = (if t_recurring t then t\<lparr>t_next := now + t_ms t\<rparr> else t\<lparr>t_cb := None\<rparr>)"

definition expire_all :: "u64 \<Rightarrow> nat list \<Rightarrow> timer_heap \<Rightarrow> timer_heap" where
  "expire_all now as h = (\<lambda>b. if b \<in> set as then map_option (expire now) (h b) else h b)"

definition recurring :: "timer_heap \<Rightarrow> nat \<Rightarrow> bool" where
  "recurring h a \<longleftrightarrow> (\<exists>t. h a = Some t \<and> t_recurring t)"

lemma expire_all_Cons:
  assumes "a \<notin> set as" "h a = Some t"
  shows "expire_all now (a # as) h = expire_all now as (h(a \<mapsto> expire now t))"
  using assms by (auto simp: expire_all_def)

lemma live_expire_all:
  "live (expire_all now as h) b \<longleftrightarrow> live h b \<and> (b \<in> set as \<longrightarrow> recurring h b)"
  by (cases "h b") (auto simp: live_def expire_all_def expire_def recurring_def)

lemma process_expired_ok:
  assumes "distinct as" "set as \<inter> set ts = {}" "\<forall>a \<in> set as. h a \<noteq> None"
    and "set_ok (timer_lt h) ts"
  shows "\<exists>ts'. process_expired now as h ts = (map (\<lambda>a. t_cb (the (h a))) as, expire_all now as h, ts')
    \<and> set_ok (timer_lt (expire_all now as h)) ts' \<and> set ts' = set ts \<union> {a \<in> set as. recurring h a}"
  using assms
proof (induction as arbitrary: h ts)
  case Nil
  then show ?case by (simp add: expire_all_def)
next
  case (Cons a as)
  then obtain t where t: "h a = Some t" by auto
  let ?h = "h(a \<mapsto> expire now t)"
  let ?ts = "if t_recurring t then set_insert (timer_lt ?h) a ts else ts"
  have a: "a \<notin> set ts" "a \<notin> set as" using Cons.prems by auto
  have ok: "set_ok (timer_lt ?h) ts" using Cons.prems(4) a(1) by (simp add: set_ok_fresh)
  note ins = set_insert_timer [OF ok a(1)]
  have ts: "set ?ts = set ts \<union> (if t_recurring t then {a} else {})" "set_ok (timer_lt ?h) ?ts"
    using ins ok by auto
  have "\<exists>ts'. process_expired now as ?h ?ts = (map (\<lambda>b. t_cb (the (?h b))) as, expire_all now as ?h, ts')
      \<and> set_ok (timer_lt (expire_all now as ?h)) ts' \<and> set ts' = set ?ts \<union> {b \<in> set as. recurring ?h b}"
  proof (rule Cons.IH [OF _ _ _ ts(2)])
    show "distinct as" "\<forall>b \<in> set as. ?h b \<noteq> None" using Cons.prems by auto
    show "set as \<inter> set ?ts = {}" unfolding ts(1) using Cons.prems by auto
  qed
  then obtain ts' where ts': "process_expired now as ?h ?ts
        = (map (\<lambda>b. t_cb (the (?h b))) as, expire_all now as ?h, ts')"
      "set_ok (timer_lt (expire_all now as ?h)) ts'" "set ts' = set ?ts \<union> {b \<in> set as. recurring ?h b}"
    by blast
  have "map (\<lambda>b. t_cb (the (?h b))) as = map (\<lambda>b. t_cb (the (h b))) as" using a(2) by auto
  moreover have "{b \<in> set as. recurring ?h b} = {b \<in> set as. recurring h b}"
    using a(2) by (auto simp: recurring_def)
  moreover have "set ts \<union> {b \<in> set (a # as). recurring h b}
      = set ?ts \<union> {b \<in> set as. recurring h b}"
    unfolding ts(1) using t by (auto simp: recurring_def)
  moreover have "process_expired now (a # as) h ts
      = (t_cb t # fst (process_expired now as ?h ?ts), snd (process_expired now as ?h ?ts))"
    using t by (simp add: expire_def Let_def split_beta)
  ultimately show ?case using ts' t expire_all_Cons [of a as h t now] a(2) by simp
qed

definition due :: "timer_heap \<Rightarrow> u64 \<times> nat \<Rightarrow> nat \<Rightarrow> bool" where
  "due h now a \<longleftrightarrow> \<not> Comparator (Some now) (Some (timer_key h a))"

lemma upper_bound_filter:
  assumes "set_ok (timer_lt h) ts"
  shows "upper_bound h now ts = (filter (due h now) ts, filter (\<lambda>a. \<not> due h now a) ts)"
proof -
  have ub: "upper_bound h now ts = (takeWhile (due h now) ts, drop (length (takeWhile (due h now) ts)) ts)" for ts
    by (simp add: upper_bound_def due_def [abs_def] Let_def)
  show ?thesis using assms unfolding ub
  proof (induction ts)
    case (Cons a ts)
    have "\<not> due h now b" if "b \<in> set ts" "\<not> due h now a" for b
      using that Cons.prems cmp.lt_trans by (auto simp: set_ok_def due_def timer_lt_def)
    then show ?case using Cons by (auto simp: set_ok_def filter_empty_conv)
  qed simp
qed

lemma due_iff:
  assumes "h a = Some t"
  shows "due h (now, p) a \<longleftrightarrow> t_next t < now \<or> t_next t = now \<and> a \<le> p"
  using assms by (auto simp: due_def Comparator_def timer_key_def)

definition expired_now :: "u64 \<Rightarrow> nat \<Rightarrow> TimerManager \<Rightarrow> nat list" where
  "expired_now now p tm =
     (if fst (detectClockRollover now tm) then tm_timers tm
      else filter (due (tm_heap tm) (now, p)) (tm_timers tm))"

lemma listExpiredCb_ok:
  assumes "tm_inv tm"
  shows "\<exists>tm'. listExpiredCb now p tm = Inr (map (\<lambda>a. t_cb (the (tm_heap tm a))) (expired_now now p tm), tm')
    \<and> tm_inv tm' \<and> tm_heap tm' = expire_all now (expired_now now p tm) (tm_heap tm)
    \<and> set (tm_timers tm') = (set (tm_timers tm) - set (expired_now now p tm))
        \<union> {a \<in> set (expired_now now p tm). recurring (tm_heap tm) a}"
proof (cases "tm_timers tm = []")
  case True
  then show ?thesis using assms by (auto simp: listExpiredCb_def expired_now_def expire_all_def)
next
  case False
  let ?h = "tm_heap tm" and ?ts = "tm_timers tm" and ?E = "expired_now now p tm"
  let ?R = "filter (\<lambda>a. a \<notin> set ?E) ?ts"
  note inv = tm_invD [OF assms]
  have E: "distinct ?E" "set ?E \<subseteq> set ?ts" using inv(2) by (auto simp: expired_now_def)
  have R: "set_ok (timer_lt ?h) ?R" using inv(1) by (simp add: set_ok_def sorted_wrt_filter)
  have heap: "\<forall>a \<in> set ?E. ?h a \<noteq> None" using E(2) inv(3) by (auto simp: live_def)
  obtain ts' where ts': "process_expired now ?E ?h ?R
        = (map (\<lambda>a. t_cb (the (?h a))) ?E, expire_all now ?E ?h, ts')"
      "set_ok (timer_lt (expire_all now ?E ?h)) ts'" "set ts' = set ?R \<union> {a \<in> set ?E. recurring ?h a}"
    using process_expired_ok [OF E(1) _ heap R, of now] by auto
  let ?tm' = "tm\<lparr>tm_previouseTime := now, tm_heap := expire_all now ?E ?h, tm_timers := ts'\<rparr>"
  have "tm_inv ?tm'"
    using ts'(2,3) inv(3) E(2) by (auto simp: tm_inv_def live_expire_all)
  moreover have sets: "set ts' = (set ?ts - set ?E) \<union> {a \<in> set ?E. recurring ?h a}"
    using ts'(3) by auto
  ultimately show ?thesis
  proof (cases "fst (detectClockRollover now tm)")
    case True
    then have "?E = ?ts" by (simp add: expired_now_def)
    then have "listExpiredCb now p tm = Inr (map (\<lambda>a. t_cb (the (?h a))) ?E, ?tm')"
      using True False ts'(1)
      by (simp add: listExpiredCb_def listExpiredCb_locked_def detectClockRollover_def split_beta)
    then show ?thesis using \<open>tm_inv ?tm'\<close> sets by simp
  next
    case F: False
    have roll: "detectClockRollover now tm = (False, tm\<lparr>tm_previouseTime := now\<rparr>)"
      using F by (simp add: detectClockRollover_def)
    have Ef: "?E = filter (due ?h (now, p)) ?ts" using F by (simp add: expired_now_def)
    have Rf: "?R = filter (\<lambda>a. \<not> due ?h (now, p) a) ?ts" unfolding Ef by (intro filter_cong) auto
    show ?thesis
    proof (cases "fst (timer_key ?h (hd ?ts)) > now")
      case True
      then have "\<not> due ?h (now, p) (hd ?ts)" by (auto simp: due_def Comparator_def split: prod.splits)
      then have "fst (upper_bound ?h (now, p) ?ts) = []" using False
        by (cases ?ts) (simp_all add: upper_bound_def due_def Let_def)
      then have "?E = []" unfolding Ef using upper_bound_filter [OF inv(1)] by simp
      then have same: "?tm' = tm\<lparr>tm_previouseTime := now, tm_timers := ts'\<rparr>" "ts' = ?ts"
        using ts'(1) by (auto simp: expire_all_def)
      then show ?thesis using True False roll \<open>tm_inv ?tm'\<close> \<open>?E = []\<close>
        by (auto simp: listExpiredCb_def listExpiredCb_locked_def expire_all_def tm_inv_def)
    next
      case N: False
      then have "listExpiredCb now p tm = Inr (map (\<lambda>a. t_cb (the (?h a))) ?E, ?tm')"
        using False roll ts'(1) upper_bound_filter [OF inv(1)] Ef Rf
        by (simp add: listExpiredCb_def listExpiredCb_locked_def)
      then show ?thesis using \<open>tm_inv ?tm'\<close> sets by simp
    qed
  qed
qed

lemma listExpiredCb_race: "tm_timers tm = [] \<Longrightarrow> \<not> fst (detectClockRollover now tm)
    \<Longrightarrow> listExpiredCb_locked now p tm = Inl IteratorEnd"
  by (simp add: listExpiredCb_locked_def detectClockRollover_def)

section \<open>Sleeping until the next timer\<close>

lemma hd_least:
  assumes "set_ok (timer_lt h) ts" "a \<in> set ts" "h a = Some t"
  shows "fst (timer_key h (hd ts)) \<le> t_next t"
proof (cases ts)
  case Nil
  then show ?thesis using assms by simp
next
  case (Cons b bs)
  then have "a = b \<or> timer_lt h b a" using assms by (auto simp: set_ok_def)
  then show ?thesis using Cons assms(3)
    by (auto simp: timer_lt_def Comparator_def timer_key_def split: if_splits)
qed

lemma getNextTimer_ok:
  assumes "tm_inv tm" "live (tm_heap tm) a" "tm_heap tm a = Some t"
  shows "fst (getNextTimer now tm) \<le> (if now \<ge> t_next t then 0 else t_next t - now)"
proof -
  have "a \<in> set (tm_timers tm)" using assms tm_invD(3) by blast
  then have ne: "tm_timers tm \<noteq> []" and le: "fst (timer_key (tm_heap tm) (hd (tm_timers tm))) \<le> t_next t"
    using hd_least [OF tm_invD(1) [OF assms(1)] _ assms(3)] by auto
  show ?thesis using ne le
    by (auto simp: getNextTimer_def Let_def word_le_nat_alt unat_sub_if' not_le)
qed

section \<open>Reachable managers\<close>

inductive tm_reach :: "TimerManager \<Rightarrow> bool" where
  init: "tm_reach (new_TimerManager now)"
| add: "tm_reach tm \<Longrightarrow> tm_heap tm addr = None \<Longrightarrow> tm_reach (snd (addTimer ms (Some cb) rec now addr tm))"
| cond: "tm_reach tm \<Longrightarrow> tm_heap tm addr = None
    \<Longrightarrow> tm_reach (snd (addConditiaonTimer ms cb w rec now addr tm))"
| cancel: "tm_reach tm \<Longrightarrow> cancel a tm = Inr (r, tm') \<Longrightarrow> tm_reach tm'"
| refresh: "tm_reach tm \<Longrightarrow> refresh now a tm = Inr (r, tm') \<Longrightarrow> tm_reach tm'"
| reset: "tm_reach tm \<Longrightarrow> reset ms from_now now a tm = Inr (rr, tm') \<Longrightarrow> tm_reach tm'"
| sleep: "tm_reach tm \<Longrightarrow> tm_reach (snd (getNextTimer now tm))"
| fire: "tm_reach tm \<Longrightarrow> listExpiredCb now p tm = Inr (cbs, tm') \<Longrightarrow> tm_reach tm'"

lemma tm_reach_inv: "tm_reach tm \<Longrightarrow> tm_inv tm"
proof (induction rule: tm_reach.induct)
  case (fire tm now p cbs tm')
  then show ?case using listExpiredCb_ok [OF fire.IH, of now p] by auto
qed (auto simp: addConditiaonTimer_def intro: inv_intros)

end
