(* ===== verification/IOManager_Lemmas.thy ===== *)
theory IOManager_Lemmas
  imports IOManager Timer_Lemmas
begin

text \<open>
  The invariant of the event loop: every context is consistent (an event is registered exactly when
  its slot says which scheduler gets which callback or fiber), the pending counter is the number of
  registered events, and the kernel's interest list mirrors the contexts. All operations keep it; the
  task of an event is delivered exactly once.
\<close>

section \<open>Contexts\<close>

definition slot_ok :: "bool \<Rightarrow> EventContext \<Rightarrow> bool" where
  "slot_ok registered e \<longleftrightarrow>
     (if registered then ec_scheduler e \<noteq> None \<and> (ec_cb e = None) \<noteq> (ec_fiber e = None)
      else e = empty_ctx)"

definition ctx_ok :: "nat \<Rightarrow> FdContext \<Rightarrow> bool" where
  "ctx_ok i c \<longleftrightarrow>
     fc_fd c = int i \<and> fc_events c \<in> {0, 1, 4, 5}
     \<and> slot_ok (fc_events c AND EV_READ \<noteq> 0) (fc_read c) \<and> slot_ok (fc_events c AND EV_WRITE \<noteq> 0) (fc_write c)"

definition weight :: "FdContext \<Rightarrow> nat" where
  "weight c = (if fc_events c AND EV_READ \<noteq> 0 then 1 else 0) + (if fc_events c AND EV_WRITE \<noteq> 0 then 1 else 0)"

definition reg :: "FdContext \<Rightarrow> u32 option" where
  "reg c = (if fc_events c = 0 then None else Some (EPOLLET OR fc_events c))"

definition slot_of :: "u32 \<Rightarrow> FdContext \<Rightarrow> EventContext" where
  "slot_of event c = (if event = EV_READ then fc_read c else fc_write c)"

definition task_of :: "u32 \<Rightarrow> FdContext \<Rightarrow> nat \<times> FiberAndThread" where
  "task_of event c =
     (let e = slot_of event c
      in (the (ec_scheduler e),
          if ec_cb e \<noteq> None then ft_of_cb (ec_cb e) (- 1) else ft_of_fiber (ec_fiber e) (- 1)))"

definition cleared :: "u32 \<Rightarrow> FdContext \<Rightarrow> FdContext" where
  "cleared event c = setContext event empty_ctx (c\<lparr>fc_events := fc_events c AND NOT event\<rparr>)"

definition is_event :: "u32 \<Rightarrow> bool" where
  "is_event e \<longleftrightarrow> e = EV_READ \<or> e = EV_WRITE"

lemma event_bits [simp]:
  "(1 :: u32) AND 4 = 0" "(4 :: u32) AND 1 = 0" "(5 :: u32) AND 1 = 1" "(5 :: u32) AND 4 = 4"
  "(1 :: u32) OR 4 = 5" "(4 :: u32) OR 1 = 5" "(5 :: u32) AND NOT 1 = 4" "(5 :: u32) AND NOT 4 = 1"
  "(4 :: u32) AND NOT 1 = 4" "(1 :: u32) AND NOT 4 = 1" "(5 :: u32) AND NOT 5 = 0" "(1 :: u32) AND NOT 5 = 0"
  "(4 :: u32) AND NOT 5 = 0" "(1 :: u32) AND 5 = 1" "(4 :: u32) AND 5 = 4"
  by code_simp+

lemma event_bits_neg [simp]:
  "(5 :: u32) AND - 2 = 4" "(5 :: u32) AND - 5 = 1" "(5 :: u32) AND - 6 = 0"
  "(4 :: u32) AND - 2 = 4" "(4 :: u32) AND - 5 = 0" "(4 :: u32) AND - 6 = 0"
  "(1 :: u32) AND - 2 = 0" "(1 :: u32) AND - 5 = 1" "(1 :: u32) AND - 6 = 0"
  by code_simp+

lemma setContext_events [simp]: "fc_events (setContext e x c) = fc_events c"
  by (simp add: setContext_def)

lemma is_eventE:
  assumes "is_event e"
  obtains "e = 1" | "e = 4"
  using assms by (auto simp: is_event_def ev_defs)

lemma ctx_okE:
  assumes "ctx_ok i c"
  obtains "fc_events c = 0" | "fc_events c = 1" | "fc_events c = 4" | "fc_events c = 5"
  using assms by (auto simp: ctx_ok_def)

lemma new_FdContext_ok: "ctx_ok i (new_FdContext i)" "weight (new_FdContext i) = 0" "reg (new_FdContext i) = None"
  "fc_events (new_FdContext i) = 0"
  by (simp_all add: ctx_ok_def new_FdContext_def slot_ok_def weight_def reg_def)

lemma cleared_ok:
  assumes "ctx_ok i c" "is_event event"
  shows "ctx_ok i (cleared event c)"
  using assms(2) by (rule is_eventE)
    (use assms(1) in \<open>auto elim!: ctx_okE simp: ctx_ok_def cleared_def setContext_def ev_defs slot_ok_def\<close>)

lemma cleared_events [simp]: "fc_events (cleared event c) = fc_events c AND NOT event"
  "fc_fd (cleared event c) = fc_fd c"
  by (simp_all add: cleared_def setContext_def)

lemma reg_cleared:
  "reg (cleared event c) =
     (if fc_events c AND NOT event = 0 then None else Some (EPOLLET OR (fc_events c AND NOT event)))"
  by (simp add: reg_def)

lemma cleared_weight:
  assumes "ctx_ok i c" "is_event event" "fc_events c AND event \<noteq> 0"
  shows "weight c = Suc (weight (cleared event c))"
  using assms(2) by (rule is_eventE)
    (use assms(1,3) in \<open>auto elim!: ctx_okE simp: weight_def ev_defs\<close>)

lemma triggerEvent_ok:
  assumes "ctx_ok i c" "is_event event" "fc_events c AND event \<noteq> 0"
  shows "triggerEvent event c = Inr (task_of event c, cleared event c)"
proof -
  have "slot_ok True (slot_of event c)"
    using assms by (auto simp: ctx_ok_def is_event_def slot_of_def ev_defs)
  then obtain s where "ec_scheduler (slot_of event c) = Some s"
      "(ec_cb (slot_of event c) = None) \<noteq> (ec_fiber (slot_of event c) = None)"
    by (auto simp: slot_ok_def)
  then show ?thesis using assms(2,3)
    by (auto simp: triggerEvent_def getContext_def setContext_def is_event_def slot_of_def task_of_def
        cleared_def empty_ctx_def ev_defs Let_def)
qed

lemma triggerEvent_unregistered: "fc_events c AND event = 0 \<Longrightarrow> triggerEvent event c = Inl AssertFail"
  by (simp add: triggerEvent_def)

section \<open>The whole manager\<close>

definition ctxs_inv :: "IOManager \<Rightarrow> bool" where
  "ctxs_inv io \<longleftrightarrow>
     (\<forall>i < length (io_fdContexts io). ctx_ok i (io_fdContexts io ! i))
     \<and> 32 \<le> length (io_fdContexts io)
     \<and> io_pendingEventCount io = of_nat (sum_list (map weight (io_fdContexts io)))"

definition kernel_inv :: "IOManager \<Rightarrow> bool" where
  "kernel_inv io \<longleftrightarrow>
     (\<forall>fd. io_kernel io fd =
        (if fd = io_tickleFd io then Some (EPOLLIN OR EPOLLET)
         else if 0 \<le> fd \<and> nat fd < length (io_fdContexts io) then reg (io_fdContexts io ! nat fd) else None))
     \<and> (\<forall>i < length (io_fdContexts io). int i = io_tickleFd io \<longrightarrow> fc_events (io_fdContexts io ! i) = 0)"

definition io_inv :: "IOManager \<Rightarrow> bool" where
  "io_inv io \<longleftrightarrow> ctxs_inv io \<and> kernel_inv io"

lemma ctxs_inv_nth: "ctxs_inv io \<Longrightarrow> i < length (io_fdContexts io) \<Longrightarrow> ctx_ok i (io_fdContexts io ! i)"
  by (simp add: ctxs_inv_def)

lemma weight_update:
  assumes "i < length cs"
  shows "sum_list (map weight (cs[i := c])) + weight (cs ! i) = sum_list (map weight cs) + weight c"
proof -
  have "weight (cs ! i) \<le> sum_list (map weight cs)"
    using assms by (intro member_le_sum_list) auto
  then show ?thesis using sum_list_update [of i "map weight cs" "weight c"] assms
    by (simp add: map_update)
qed

lemma ctxs_inv_put:
  assumes "ctxs_inv io" "i < length (io_fdContexts io)" "ctx_ok i c"
    and "io_fdContexts io' = (io_fdContexts io)[i := c]"
    and "io_pendingEventCount io' + of_nat (weight (io_fdContexts io ! i)) = io_pendingEventCount io + of_nat (weight c)"
  shows "ctxs_inv io'"
proof -
  have "(of_nat (sum_list (map weight (io_fdContexts io'))) :: u64) + of_nat (weight (io_fdContexts io ! i))
      = io_pendingEventCount io + of_nat (weight c)"
    using arg_cong [OF weight_update [OF assms(2), of c], of "of_nat :: nat \<Rightarrow> u64"] assms(1,4)
    by (simp add: ctxs_inv_def)
  then have "io_pendingEventCount io' = of_nat (sum_list (map weight (io_fdContexts io')))"
    using assms(5) by (metis add_right_cancel)
  then show ?thesis using assms by (auto simp: ctxs_inv_def nth_list_update)
qed

lemma new_weight_sum [simp]: "sum_list (map (weight \<circ> new_FdContext) xs) = 0"
  by (induction xs) (simp_all add: new_FdContext_ok)

lemma contextResize_new:
  "length (io_fdContexts io) \<le> i \<Longrightarrow> i < n \<Longrightarrow> io_fdContexts (contextResize n io) ! i = new_FdContext i"
  by (simp add: contextResize_def nth_append)

lemma contextResize_inv:
  assumes "io_inv io" "length (io_fdContexts io) \<le> n"
  shows "io_inv (contextResize n io)" "length (io_fdContexts (contextResize n io)) = n"
    "i < length (io_fdContexts io) \<Longrightarrow> io_fdContexts (contextResize n io) ! i = io_fdContexts io ! i"
proof -
  let ?cs = "io_fdContexts io"
  have cs: "io_fdContexts (contextResize n io) = ?cs @ map new_FdContext [length ?cs..<n]"
    using assms(2) by (simp add: contextResize_def)
  show len: "length (io_fdContexts (contextResize n io)) = n" using assms(2) by (simp add: cs)
  show "i < length ?cs \<Longrightarrow> io_fdContexts (contextResize n io) ! i = ?cs ! i" by (simp add: cs nth_append)
  have "ctxs_inv (contextResize n io)"
    using assms cs unfolding ctxs_inv_def io_inv_def
    by (auto simp: nth_append new_FdContext_ok contextResize_def)
  moreover have "kernel_inv (contextResize n io)"
    using assms cs unfolding kernel_inv_def io_inv_def
    by (auto simp: nth_append new_FdContext_ok contextResize_def)
  ultimately show "io_inv (contextResize n io)" by (simp add: io_inv_def)
qed

lemma io_start_simps [simp]:
  "io_fdContexts (io_start p) = map new_FdContext [0..<32]" "io_pendingEventCount (io_start p) = 0"
  "io_kernel (io_start p) = [p \<mapsto> EPOLLIN OR EPOLLET]" "io_tickleFd (io_start p) = p" "io_scheduled (io_start p) = []"
  by (simp_all add: io_start_def contextResize_def epoll_apply_def)

lemma io_start_inv: "io_inv (io_start p)"
  by (simp add: io_inv_def ctxs_inv_def kernel_inv_def new_FdContext_ok del: upt_rec_numeral)

lemma trigger_at_eq:
  assumes "ctxs_inv io" "i < length (io_fdContexts io)" "is_event event"
    and "fc_events (io_fdContexts io ! i) AND event \<noteq> 0"
  shows "trigger_at event i io = Inr (io\<lparr>io_fdContexts := (io_fdContexts io)[i := cleared event (io_fdContexts io ! i)],
      io_pendingEventCount := io_pendingEventCount io - 1,
      io_scheduled := io_scheduled io @ [task_of event (io_fdContexts io ! i)]\<rparr>)"
  using triggerEvent_ok [OF ctxs_inv_nth [OF assms(1,2)] assms(3,4)]
  by (simp add: trigger_at_def emit_def put_ctx_def)

lemma cleared_ctxs_inv:
  assumes "ctxs_inv io" "i < length (io_fdContexts io)" "is_event event"
    and "fc_events (io_fdContexts io ! i) AND event \<noteq> 0"
    and "io_fdContexts io' = (io_fdContexts io)[i := cleared event (io_fdContexts io ! i)]"
    and "io_pendingEventCount io' = io_pendingEventCount io - 1"
  shows "ctxs_inv io'"
proof (rule ctxs_inv_put [OF assms(1,2) _ assms(5)])
  note ok = ctxs_inv_nth [OF assms(1,2)]
  show "ctx_ok i (cleared event (io_fdContexts io ! i))" by (rule cleared_ok [OF ok assms(3)])
  show "io_pendingEventCount io' + of_nat (weight (io_fdContexts io ! i))
      = io_pendingEventCount io + of_nat (weight (cleared event (io_fdContexts io ! i)))"
    using cleared_weight [OF ok assms(3,4)] assms(6) by simp
qed

lemma kernel_inv_put:
  assumes "kernel_inv io" "i < length (io_fdContexts io)" "int i \<noteq> io_tickleFd io"
    and "io_fdContexts io' = (io_fdContexts io)[i := c]" "io_tickleFd io' = io_tickleFd io"
    and "io_kernel io' = (io_kernel io)(int i := reg c)"
  shows "kernel_inv io'"
  using assms by (auto simp: kernel_inv_def nth_list_update)

lemma registered_not_pipe:
  assumes "kernel_inv io" "i < length (io_fdContexts io)" "fc_events (io_fdContexts io ! i) \<noteq> 0"
  shows "int i \<noteq> io_tickleFd io"
  using assms by (auto simp: kernel_inv_def)

lemma and_nonzero: "(v AND e) \<noteq> 0 \<Longrightarrow> v \<noteq> (0 :: u32)"
  by auto

lemma deregister_kernel:
  "io_kernel (deregister fd left (EPOLLET OR left) io) =
     (io_kernel io)(fd := (if left = 0 then None else Some (EPOLLET OR left)))"
  by (simp add: deregister_def epoll_apply_def)

lemma deregister_simps [simp]:
  "io_fdContexts (deregister fd left m io) = io_fdContexts io"
  "io_pendingEventCount (deregister fd left m io) = io_pendingEventCount io"
  "io_scheduled (deregister fd left m io) = io_scheduled io"
  "io_tickleFd (deregister fd left m io) = io_tickleFd io"
  by (simp_all add: deregister_def epoll_apply_def)

lemma ctxs_inv_cong:
  "io_fdContexts io' = io_fdContexts io \<Longrightarrow> io_pendingEventCount io' = io_pendingEventCount io
     \<Longrightarrow> ctxs_inv io' = ctxs_inv io"
  by (simp add: ctxs_inv_def)

lemma resetContext_eq: "resetContext e = empty_ctx"
  by (cases e) (simp add: resetContext_def empty_ctx_def)

text \<open>The common precondition of the operations on one event of one descriptor.\<close>

definition registered :: "IOManager \<Rightarrow> nat \<Rightarrow> u32 \<Rightarrow> bool" where
  "registered io i event \<longleftrightarrow>
     i < length (io_fdContexts io) \<and> is_event event \<and> fc_events (io_fdContexts io ! i) AND event \<noteq> 0"

lemma cancelEvent_ok:
  assumes "io_inv io" "registered io i event"
  shows "\<exists>io'. cancelEvent (int i) event True io = Inr (True, io') \<and> io_inv io'
    \<and> io_fdContexts io' = (io_fdContexts io)[i := cleared event (io_fdContexts io ! i)]
    \<and> io_scheduled io' = io_scheduled io @ [task_of event (io_fdContexts io ! i)]"
proof -
  let ?c = "io_fdContexts io ! i"
  let ?io1 = "deregister (int i) (fc_events ?c AND NOT event) (EPOLLET OR fc_events ?c AND NOT event) io"
  have r: "i < length (io_fdContexts io)" "is_event event" "fc_events ?c AND event \<noteq> 0"
    using assms(2) by (simp_all add: registered_def)
  have c: "ctxs_inv io" "kernel_inv io" "ctxs_inv ?io1"
    using assms(1) ctxs_inv_cong [of ?io1 io] by (simp_all add: io_inv_def)
  let ?io2 = "?io1\<lparr>io_fdContexts := (io_fdContexts io)[i := cleared event ?c],
      io_pendingEventCount := io_pendingEventCount io - 1, io_scheduled := io_scheduled io @ [task_of event ?c]\<rparr>"
  have "cancelEvent (int i) event True io = Inr (True, ?io2)"
    using r trigger_at_eq [OF c(3), of i event] by (simp add: cancelEvent_def Let_def)
  moreover have "ctxs_inv ?io2" by (rule cleared_ctxs_inv [OF c(1) r]) simp_all
  moreover have "kernel_inv ?io2"
    by (rule kernel_inv_put [OF c(2) r(1) registered_not_pipe [OF c(2) r(1) and_nonzero [OF r(3)]],
        where c = "cleared event ?c"]) (simp_all add: deregister_kernel reg_cleared)
  ultimately show ?thesis by (auto simp: io_inv_def)
qed

lemma delEvent_ok:
  assumes "io_inv io" "registered io i event"
  shows "\<exists>io'. delEvent (int i) event True io = Inr (True, io') \<and> io_inv io'
    \<and> io_fdContexts io' = (io_fdContexts io)[i := cleared event (io_fdContexts io ! i)]
    \<and> io_scheduled io' = io_scheduled io"
proof -
  let ?c = "io_fdContexts io ! i"
  let ?io1 = "deregister (int i) (fc_events ?c AND NOT event) (EPOLLET OR fc_events ?c AND NOT event) io"
  have r: "i < length (io_fdContexts io)" "is_event event" "fc_events ?c AND event \<noteq> 0"
    using assms(2) by (simp_all add: registered_def)
  have c: "ctxs_inv io" "kernel_inv io" using assms(1) by (simp_all add: io_inv_def)
  let ?io2 = "?io1\<lparr>io_pendingEventCount := io_pendingEventCount io - 1,
      io_fdContexts := (io_fdContexts io)[i := cleared event ?c]\<rparr>"
  have "delEvent (int i) event True io = Inr (True, ?io2)"
    using r by (auto simp: delEvent_def getContext_def setContext_def resetContext_eq cleared_def
        put_ctx_def is_event_def Let_def ev_defs)
  moreover have "ctxs_inv ?io2" by (rule cleared_ctxs_inv [OF c(1) r]) simp_all
  moreover have "kernel_inv ?io2"
    by (rule kernel_inv_put [OF c(2) r(1) registered_not_pipe [OF c(2) r(1) and_nonzero [OF r(3)]],
        where c = "cleared event ?c"]) (simp_all add: deregister_kernel reg_cleared)
  ultimately show ?thesis by (auto simp: io_inv_def)
qed

text \<open>Triggering every event of a mask, as \<open>cancelAll\<close> and the idle loop do.\<close>

definition trigger_both :: "u32 \<Rightarrow> nat \<Rightarrow> IOManager \<Rightarrow> IOManager result" where
  "trigger_both msk i io = bindR (trigger_if msk EV_READ i io) (trigger_if msk EV_WRITE i)"

definition tasks_of :: "u32 \<Rightarrow> FdContext \<Rightarrow> (nat \<times> FiberAndThread) list" where
  "tasks_of msk c =
     (if msk AND EV_READ \<noteq> 0 then [task_of EV_READ c] else [])
     @ (if msk AND EV_WRITE \<noteq> 0 then [task_of EV_WRITE c] else [])"

lemma trigger_if_ok:
  assumes "ctxs_inv io" "i < length (io_fdContexts io)" "is_event event"
    and "msk AND event \<noteq> 0 \<longrightarrow> fc_events (io_fdContexts io ! i) AND event \<noteq> 0"
  shows "\<exists>io'. trigger_if msk event i io = Inr io' \<and> ctxs_inv io' \<and> io_kernel io' = io_kernel io \<and> io_tickleFd io' = io_tickleFd io
    \<and> io_fdContexts io' = (if msk AND event \<noteq> 0 then (io_fdContexts io)[i := cleared event (io_fdContexts io ! i)]
        else io_fdContexts io)
    \<and> io_scheduled io' = io_scheduled io @ (if msk AND event \<noteq> 0 then [task_of event (io_fdContexts io ! i)] else [])"
proof (cases "msk AND event = 0")
  case True
  then show ?thesis using assms(1) by (simp add: trigger_if_def)
next
  case False
  then have ev: "fc_events (io_fdContexts io ! i) AND event \<noteq> 0" using assms(4) by simp
  let ?io' = "io\<lparr>io_fdContexts := (io_fdContexts io)[i := cleared event (io_fdContexts io ! i)],
      io_pendingEventCount := io_pendingEventCount io - 1,
      io_scheduled := io_scheduled io @ [task_of event (io_fdContexts io ! i)]\<rparr>"
  have "ctxs_inv ?io'" by (rule cleared_ctxs_inv [OF assms(1-3) ev]) simp_all
  then show ?thesis using trigger_at_eq [OF assms(1-3) ev] False by (simp add: trigger_if_def)
qed

lemma cleared_other:
  "fc_events (cleared EV_READ c) AND EV_WRITE = fc_events c AND EV_WRITE"
  "task_of EV_WRITE (cleared EV_READ c) = task_of EV_WRITE c"
proof -
  have "(NOT EV_READ :: u32) AND EV_WRITE = EV_WRITE" unfolding ev_defs by code_simp
  then show "fc_events (cleared EV_READ c) AND EV_WRITE = fc_events c AND EV_WRITE"
    by (simp add: and.assoc)
  show "task_of EV_WRITE (cleared EV_READ c) = task_of EV_WRITE c"
    by (simp add: task_of_def slot_of_def cleared_def setContext_def ev_defs)
qed

lemma trigger_both_ok:
  assumes "ctxs_inv io" "i < length (io_fdContexts io)" "msk \<in> {0, 1, 4, 5}"
    and sub: "\<And>e. is_event e \<Longrightarrow> msk AND e \<noteq> 0 \<Longrightarrow> fc_events (io_fdContexts io ! i) AND e \<noteq> 0"
  shows "\<exists>io' c'. trigger_both msk i io = Inr io' \<and> ctxs_inv io' \<and> io_kernel io' = io_kernel io \<and> io_tickleFd io' = io_tickleFd io
    \<and> io_fdContexts io' = (io_fdContexts io)[i := c'] \<and> fc_events c' = fc_events (io_fdContexts io ! i) AND NOT msk
    \<and> io_scheduled io' = io_scheduled io @ tasks_of msk (io_fdContexts io ! i)"
proof -
  let ?c = "io_fdContexts io ! i"
  let ?c1 = "if msk AND EV_READ \<noteq> 0 then cleared EV_READ ?c else ?c"
  let ?c2 = "if msk AND EV_WRITE \<noteq> 0 then cleared EV_WRITE ?c1 else ?c1"
  have ev: "is_event EV_READ" "is_event EV_WRITE" by (simp_all add: is_event_def)
  obtain io1 where io1: "trigger_if msk EV_READ i io = Inr io1" "ctxs_inv io1" "io_kernel io1 = io_kernel io"
      "io_tickleFd io1 = io_tickleFd io"
      "io_fdContexts io1 = (io_fdContexts io)[i := ?c1]"
      "io_scheduled io1 = io_scheduled io @ (if msk AND EV_READ \<noteq> 0 then [task_of EV_READ ?c] else [])"
    using trigger_if_ok [OF assms(1,2) ev(1), of msk] sub [OF ev(1)] by (auto simp: list_update_id)
  have c1: "io_fdContexts io1 ! i = ?c1" "i < length (io_fdContexts io1)" using io1(5) assms(2) by simp_all
  have "msk AND EV_WRITE \<noteq> 0 \<longrightarrow> fc_events (io_fdContexts io1 ! i) AND EV_WRITE \<noteq> 0"
    using sub [OF ev(2)] unfolding c1(1) by (auto simp: cleared_other simp del: cleared_events)
  then obtain io2 where io2: "trigger_if msk EV_WRITE i io1 = Inr io2" "ctxs_inv io2" "io_kernel io2 = io_kernel io1"
      "io_tickleFd io2 = io_tickleFd io1"
      "io_fdContexts io2 = (io_fdContexts io)[i := ?c2]"
      "io_scheduled io2 = io_scheduled io1 @ (if msk AND EV_WRITE \<noteq> 0 then [task_of EV_WRITE ?c1] else [])"
    using trigger_if_ok [OF io1(2) c1(2) ev(2), of msk] c1(1) io1(5) by (auto split: if_splits)
  have sch: "io_scheduled io2 = io_scheduled io @ tasks_of msk ?c"
    using io1(6) io2(6) by (simp add: tasks_of_def cleared_other(2))
  have evs: "fc_events ?c2 = fc_events ?c AND NOT msk"
    using ctxs_inv_nth [OF assms(1,2)] assms(3) by (elim ctx_okE) (auto simp: ev_defs)
  have run: "trigger_both msk i io = Inr io2" using io1(1) io2(1) by (simp add: trigger_both_def)
  have ker: "io_kernel io2 = io_kernel io" "io_tickleFd io2 = io_tickleFd io" using io1(3,4) io2(3,4) by simp_all
  show ?thesis
    by (intro exI [of _ io2] exI [of _ ?c2] conjI) (fact run io2(2) ker io2(5) evs sch)+
qed

lemma real_events_range: "real_events m \<in> {0, 1, 4, 5}"
  by (simp add: real_events_def ev_defs Let_def)

text \<open>The idle loop may only see events that are registered: otherwise \<open>triggerEvent\<close> asserts.\<close>

definition subsumed :: "u32 \<Rightarrow> FdContext \<Rightarrow> bool" where
  "subsumed msk c \<longleftrightarrow> msk AND NOT (fc_events c) = 0"

lemma subsumedD:
  assumes "subsumed msk c" "msk AND e \<noteq> 0"
  shows "fc_events c AND e \<noteq> 0"
proof
  assume z: "fc_events c AND e = 0"
  have "msk AND e = (msk AND e AND fc_events c) OR (msk AND NOT (fc_events c) AND e)"
    by (rule bit_word_eqI) (auto simp: bit_simps)
  also have "msk AND e AND fc_events c = 0" using z by (metis and.commute and_zero_eq)
  also have "msk AND NOT (fc_events c) AND e = (msk AND NOT (fc_events c)) AND e" by (simp only: and.assoc)
  finally show False using assms by (simp add: subsumed_def)
qed

lemma process_event_ok:
  assumes "io_inv io" "i < length (io_fdContexts io)"
    and "fc_events (io_fdContexts io ! i) AND real_events msk \<noteq> 0" "subsumed (real_events msk) (io_fdContexts io ! i)"
  shows "\<exists>io'. process_event i msk True io = Inr io' \<and> io_inv io'
    \<and> io_scheduled io' = io_scheduled io @ tasks_of (real_events msk) (io_fdContexts io ! i)
    \<and> fc_events (io_fdContexts io' ! i) = fc_events (io_fdContexts io ! i) AND NOT (real_events msk)"
proof -
  let ?c = "io_fdContexts io ! i" and ?r = "real_events msk"
  let ?io1 = "deregister (fc_fd ?c) (fc_events ?c AND NOT ?r) (EPOLLET OR fc_events ?c AND NOT ?r) io"
  have c: "ctxs_inv io" "kernel_inv io" "ctxs_inv ?io1"
    using assms(1) ctxs_inv_cong [of ?io1 io] by (simp_all add: io_inv_def)
  have fd: "fc_fd ?c = int i" using ctxs_inv_nth [OF c(1) assms(2)] by (simp add: ctx_ok_def)
  obtain io' c' where io': "trigger_both ?r i ?io1 = Inr io'" "ctxs_inv io'" "io_kernel io' = io_kernel ?io1"
      "io_tickleFd io' = io_tickleFd io"
      "io_fdContexts io' = (io_fdContexts io)[i := c']" "fc_events c' = fc_events ?c AND NOT ?r"
      "io_scheduled io' = io_scheduled io @ tasks_of ?r ?c"
    using trigger_both_ok [OF c(3) _ real_events_range, of i msk] subsumedD [OF assms(4)] assms(2) by auto
  have "io_kernel io' = (io_kernel io)(int i := reg c')"
    by (simp add: io'(3,6) deregister_kernel reg_def fd)
  then have "kernel_inv io'" 
    by (rule kernel_inv_put [OF c(2) assms(2) registered_not_pipe [OF c(2) assms(2) and_nonzero [OF assms(3)]] io'(5,4)])
  then show ?thesis using io' assms(2,3)
    by (simp add: process_event_def trigger_both_def Let_def io_inv_def)
qed

lemma process_event_assert:
  assumes "io_inv io" "i < length (io_fdContexts io)"
    and "fc_events (io_fdContexts io ! i) AND real_events msk \<noteq> 0" "\<not> subsumed (real_events msk) (io_fdContexts io ! i)"
  shows "process_event i msk True io = Inl AssertFail"
proof -
  let ?c = "io_fdContexts io ! i" and ?r = "real_events msk"
  let ?io1 = "deregister (fc_fd ?c) (fc_events ?c AND NOT ?r) (EPOLLET OR fc_events ?c AND NOT ?r) io"
  have c: "ctxs_inv io" "ctxs_inv ?io1"
    using assms(1) ctxs_inv_cong [of ?io1 io] by (simp_all add: io_inv_def)
  have ok: "ctx_ok i ?c" by (rule ctxs_inv_nth [OF c(1) assms(2)])
  consider "fc_events ?c = 1" "?r = 5" | "fc_events ?c = 4" "?r = 5"
    using real_events_range [of msk] assms(3,4) ok
    by (elim ctx_okE) (auto simp: subsumed_def)
  then show ?thesis
  proof cases
    case 1
    have "trigger_if ?r EV_READ i ?io1 = Inr (?io1\<lparr>io_fdContexts := (io_fdContexts io)[i := cleared EV_READ ?c],
        io_pendingEventCount := io_pendingEventCount io - 1, io_scheduled := io_scheduled io @ [task_of EV_READ ?c]\<rparr>)"
      using trigger_at_eq [OF c(2), of i EV_READ] 1 assms(2)
      by (simp add: trigger_if_def is_event_def ev_defs)
    then show ?thesis using 1 assms(2)
      by (simp add: process_event_def Let_def)
         (simp add: trigger_if_def trigger_at_def triggerEvent_def ev_defs)
  next
    case 2
    then show ?thesis
      by (simp add: process_event_def Let_def trigger_if_def trigger_at_def triggerEvent_def ev_defs)
  qed
qed

lemma cancelAll_ok:
  assumes "io_inv io" "i < length (io_fdContexts io)" "fc_events (io_fdContexts io ! i) \<noteq> 0"
  shows "\<exists>io'. cancelAll (int i) True io = Inr (True, io') \<and> io_inv io'
    \<and> fc_events (io_fdContexts io' ! i) = 0
    \<and> io_scheduled io' = io_scheduled io @ tasks_of (fc_events (io_fdContexts io ! i)) (io_fdContexts io ! i)"
proof -
  let ?c = "io_fdContexts io ! i" and ?io1 = "epoll_apply CTL_DEL (int i) 0 io"
  have cs: "io_fdContexts ?io1 = io_fdContexts io" "io_scheduled ?io1 = io_scheduled io"
      "io_kernel ?io1 = (io_kernel io)(int i := None)" "io_tickleFd ?io1 = io_tickleFd io"
    by (simp_all add: epoll_apply_def)
  have c: "ctxs_inv io" "kernel_inv io" "ctxs_inv ?io1"
    using assms(1) ctxs_inv_cong [of ?io1 io] by (simp_all add: io_inv_def epoll_apply_def)
  have ok: "ctx_ok i ?c" by (rule ctxs_inv_nth [OF c(1) assms(2)])
  have ev: "is_event EV_READ" "is_event EV_WRITE" by (simp_all add: is_event_def)
  obtain io1 where io1: "trigger_if (fc_events ?c) EV_READ i ?io1 = Inr io1"
      "io_fdContexts io1 = (if fc_events ?c AND EV_READ \<noteq> 0 then (io_fdContexts io)[i := cleared EV_READ ?c] else io_fdContexts io)"
    using trigger_if_ok [OF c(3) _ ev(1), of i "fc_events ?c"] cs(1) assms(2) by auto
  then have "fc_events (io_fdContexts io1 ! i) AND EV_WRITE = fc_events ?c AND EV_WRITE"
    using assms(2) by (simp add: cleared_other(1) del: cleared_events)
  then have same: "trigger_if (fc_events (io_fdContexts io1 ! i)) EV_WRITE i io1 = trigger_if (fc_events ?c) EV_WRITE i io1"
    by (simp add: trigger_if_def)
  obtain io' c' where io': "trigger_both (fc_events ?c) i ?io1 = Inr io'" "ctxs_inv io'"
      "io_kernel io' = (io_kernel io)(int i := None)" "io_tickleFd io' = io_tickleFd io" "io_fdContexts io' = (io_fdContexts io)[i := c']"
      "fc_events c' = fc_events ?c AND NOT (fc_events ?c)" "io_scheduled io' = io_scheduled io @ tasks_of (fc_events ?c) ?c"
    using trigger_both_ok [OF c(3), of i "fc_events ?c"] cs ok assms(2) by (auto simp: ctx_ok_def)
  have z: "fc_events c' = 0" using io'(6) by simp
  then have "kernel_inv io'"
    using io'(3) by (intro kernel_inv_put [OF c(2) assms(2) registered_not_pipe [OF c(2) assms(2,3)] io'(5,4)]) (simp add: reg_def)
  moreover have "trigger_if (fc_events ?c) EV_WRITE i io1 = Inr io'"
    using io'(1) io1(1) by (simp add: trigger_both_def)
  ultimately show ?thesis using io' io1 same cs z assms(2,3)
    by (simp add: cancelAll_def Let_def io_inv_def)
qed

text \<open>What \<open>addEvent\<close> saw of the table's size still decides as it did: a table that held \<open>fd\<close> still does,
  and resizing to one and a half times \<open>fd\<close> does not shrink it.\<close>

definition size_seen :: "nat \<Rightarrow> int \<Rightarrow> IOManager \<Rightarrow> bool" where
  "size_seen seen fd io \<longleftrightarrow>
     (if int seen > fd then int (length (io_fdContexts io)) > fd
      else int (length (io_fdContexts io)) \<le> fd + fd div 2)"

lemma size_seen_same: "0 \<le> fd \<Longrightarrow> size_seen (length (io_fdContexts io)) fd io"
  by (simp add: size_seen_def) linarith

lemma grow_for_inv:
  assumes "io_inv io" "0 \<le> fd" "size_seen seen fd io"
  shows "io_inv (grow_for seen fd io)" "nat fd < length (io_fdContexts (grow_for seen fd io))"
    "nat fd < length (io_fdContexts io)
       \<Longrightarrow> io_fdContexts (grow_for seen fd io) ! nat fd = io_fdContexts io ! nat fd"
    "length (io_fdContexts io) \<le> nat fd \<Longrightarrow> io_fdContexts (grow_for seen fd io) ! nat fd = new_FdContext (nat fd)"
    "io_scheduled (grow_for seen fd io) = io_scheduled io" "io_tickleFd (grow_for seen fd io) = io_tickleFd io"
proof -
  have big: "length (io_fdContexts io) \<le> nat (fd + fd div 2)" "nat fd < nat (fd + fd div 2)" if "\<not> int seen > fd"
  proof -
    have "32 \<le> length (io_fdContexts io)" using assms(1) by (simp add: io_inv_def ctxs_inv_def)
    moreover have "int (length (io_fdContexts io)) \<le> fd + fd div 2" using that assms(3) by (simp add: size_seen_def)
    ultimately show "length (io_fdContexts io) \<le> nat (fd + fd div 2)" "nat fd < nat (fd + fd div 2)" by linarith+
  qed
  show "io_inv (grow_for seen fd io)" "nat fd < length (io_fdContexts io)
       \<Longrightarrow> io_fdContexts (grow_for seen fd io) ! nat fd = io_fdContexts io ! nat fd"
    using assms contextResize_inv [OF assms(1) big(1)] by (auto simp: grow_for_def)
  show "nat fd < length (io_fdContexts (grow_for seen fd io))"
    using assms contextResize_inv(2) [OF assms(1) big(1)] big(2)
    by (auto simp: grow_for_def size_seen_def split: if_splits)
  show "length (io_fdContexts io) \<le> nat fd \<Longrightarrow> io_fdContexts (grow_for seen fd io) ! nat fd = new_FdContext (nat fd)"
    using contextResize_new [OF _ big(2)] assms(2,3) by (auto simp: grow_for_def size_seen_def split: if_splits)
  show "io_scheduled (grow_for seen fd io) = io_scheduled io" "io_tickleFd (grow_for seen fd io) = io_tickleFd io"
    by (simp_all add: grow_for_def contextResize_def)
qed

lemma addEvent_ok:
  assumes "io_inv io" "0 \<le> fd" "is_event event" "cb \<noteq> None \<or> st = ST_EXEC"
    and "int (length (io_fdContexts io)) > fd \<longrightarrow> fc_events (io_fdContexts io ! nat fd) AND event = 0"
    and "size_seen seen fd io" "fd \<noteq> io_tickleFd io"
  shows "\<exists>io'. addEvent seen fd event cb (Some s) fiber st True io = Inr (0, io') \<and> io_inv io'
    \<and> registered io' (nat fd) event \<and> io_scheduled io' = io_scheduled io
    \<and> task_of event (io_fdContexts io' ! nat fd)
        = (s, if cb \<noteq> None then ft_of_cb cb (- 1) else ft_of_fiber (Some fiber) (- 1))"
proof -
  let ?i = "nat fd"
  define io1 where "io1 = grow_for seen fd io"
  note grow = grow_for_inv [OF assms(1,2,6), folded io1_def]
  note io1 = grow(1,2,5)
  let ?c = "io_fdContexts io1 ! ?i"
  have ok: "ctx_ok ?i ?c" using io1 ctxs_inv_nth by (simp add: io_inv_def)
  have none: "fc_events ?c AND event = 0"
  proof (cases "int (length (io_fdContexts io)) > fd")
    case True
    then show ?thesis using assms(2,5) grow(3) by simp
  next
    case False
    then show ?thesis using grow(4) by (simp add: new_FdContext_def)
  qed
  have kern: "fc_events ?c = 0 \<longrightarrow> io_kernel io1 fd = None"
    using io1(1,2) assms(2,7) grow(6) by (simp add: io_inv_def kernel_inv_def reg_def)
  have empty: "slot_of event ?c = empty_ctx"
    using ok none assms(3) by (auto simp: ctx_ok_def slot_ok_def slot_of_def is_event_def ev_defs)
  let ?e = "if cb \<noteq> None then empty_ctx\<lparr>ec_scheduler := Some s, ec_cb := cb\<rparr>
      else empty_ctx\<lparr>ec_scheduler := Some s, ec_fiber := Some fiber\<rparr>"
  let ?c1 = "setContext event ?e (?c\<lparr>fc_events := fc_events ?c OR event\<rparr>)"
  let ?io2 = "(epoll_apply (if fc_events ?c \<noteq> 0 then CTL_MOD else CTL_ADD) fd (EPOLLET OR fc_events ?c OR event) io1)
      \<lparr>io_pendingEventCount := io_pendingEventCount io1 + 1, io_fdContexts := (io_fdContexts io1)[?i := ?c1]\<rparr>"
  have run: "addEvent seen fd event cb (Some s) fiber st True io = Inr (0, ?io2)"
    using assms(2-4) io1(2) none empty kern unfolding addEvent_def io1_def [symmetric] Let_def
    by (auto simp: getContext_def is_event_def slot_of_def empty_ctx_def put_ctx_def epoll_apply_def ev_defs)
  have ok1: "ctx_ok ?i ?c1"
    using assms(3) by (rule is_eventE)
      (use ok none in \<open>auto elim!: ctx_okE simp: ctx_ok_def setContext_def slot_ok_def empty_ctx_def ev_defs\<close>)
  have ev1: "fc_events ?c1 = fc_events ?c OR event" by (simp add: setContext_def)
  have w: "weight ?c1 = Suc (weight ?c)"
    using assms(3) by (rule is_eventE)
      (use ok none in \<open>auto elim!: ctx_okE simp: weight_def setContext_def ev_defs\<close>)
  have "ctxs_inv ?io2"
    by (rule ctxs_inv_put [of io1 ?i ?c1]) (use io1 ok1 w in \<open>simp_all add: io_inv_def\<close>)
  moreover have "kernel_inv ?io2"
  proof (rule kernel_inv_put [of io1 ?i _ ?c1])
    have "fc_events ?c OR event \<noteq> 0" using assms(3) by (auto simp: is_event_def ev_defs or_eq_0_iff)
    then have "reg ?c1 = Some (EPOLLET OR fc_events ?c OR event)" by (simp only: reg_def ev1 if_False)
    then show "io_kernel ?io2 = (io_kernel io1)(int ?i := reg ?c1)"
      using assms(2) by (simp add: epoll_apply_def)
  qed (use io1 assms(2,7) grow(6) in \<open>simp_all add: io_inv_def epoll_apply_def\<close>)
  moreover have "registered ?io2 ?i event"
    using io1(2) assms(3) ok by (auto simp: registered_def ev1 is_event_def ev_defs elim!: ctx_okE)
  moreover have "task_of event (io_fdContexts ?io2 ! ?i)
        = (s, if cb \<noteq> None then ft_of_cb cb (- 1) else ft_of_fiber (Some fiber) (- 1))"
    using io1(2) assms(3) by (auto simp: task_of_def slot_of_def setContext_def empty_ctx_def is_event_def ev_defs Let_def)
  ultimately show ?thesis using run io1(3) by (auto simp: io_inv_def epoll_apply_def)
qed

section \<open>Refused calls and reachable managers\<close>

lemma unregistered_noop:
  assumes "0 \<le> fd" "int (length (io_fdContexts io)) > fd \<longrightarrow> fc_events (io_fdContexts io ! nat fd) AND event = 0"
  shows "delEvent fd event ok io = Inr (False, io)" "cancelEvent fd event ok io = Inr (False, io)"
  using assms by (auto simp: delEvent_def cancelEvent_def Let_def)

inductive io_reach :: "IOManager \<Rightarrow> bool" where
  init: "new_IOManager ok p = Inr io \<Longrightarrow> io_reach io"
| add: "io_reach io \<Longrightarrow> is_event ev \<Longrightarrow> size_seen seen fd io \<Longrightarrow> addEvent seen fd ev cb (Some s) f st ok io = Inr (r, io') \<Longrightarrow> io_reach io'"
| del: "io_reach io \<Longrightarrow> is_event ev \<Longrightarrow> delEvent fd ev ok io = Inr (b, io') \<Longrightarrow> io_reach io'"
| cancel: "io_reach io \<Longrightarrow> is_event ev \<Longrightarrow> cancelEvent fd ev ok io = Inr (b, io') \<Longrightarrow> io_reach io'"
| cancel_all: "io_reach io \<Longrightarrow> cancelAll fd ok io = Inr (b, io') \<Longrightarrow> io_reach io'"
| report: "io_reach io \<Longrightarrow> i < length (io_fdContexts io) \<Longrightarrow> process_event i msk ok io = Inr io' \<Longrightarrow> io_reach io'"

lemma addEvent_inv:
  assumes "io_inv io" "is_event ev" "size_seen seen fd io" "addEvent seen fd ev cb (Some s) f st ok io = Inr (r, io')"
  shows "io_inv io'"
proof -
  have fd: "0 \<le> fd" using assms(4) by (auto simp: addEvent_def split: if_splits)
  note grow = grow_for_inv [OF assms(1) fd assms(3)]
  show ?thesis
  proof (cases "ok \<and> fd \<noteq> io_tickleFd io")
    case True
    have free: "fc_events (io_fdContexts (grow_for seen fd io) ! nat fd) AND ev = 0"
      using assms(4) fd by (auto simp: addEvent_def Let_def result_iff split: if_splits)
    have "fc_events (io_fdContexts (grow_for seen fd io) ! nat fd) = 0 \<longrightarrow> io_kernel (grow_for seen fd io) fd = None"
      using grow(1,2,6) fd True by (simp add: io_inv_def kernel_inv_def reg_def)
    then have "cb \<noteq> None \<or> st = ST_EXEC"
      using assms(4) True by (auto simp: addEvent_def Let_def result_iff split: if_splits)
    moreover have "int (length (io_fdContexts io)) > fd \<longrightarrow> fc_events (io_fdContexts io ! nat fd) AND ev = 0"
      using grow(3) free fd by (auto simp: nat_less_iff)
    ultimately obtain io2 where "addEvent seen fd ev cb (Some s) f st True io = Inr (0, io2)" "io_inv io2"
      using addEvent_ok [OF assms(1) fd assms(2), of cb st seen s f] assms(3) True by blast
    then show ?thesis using assms(4) True by simp
  next
    case False
    have "\<not> ok \<or> fc_events (io_fdContexts (grow_for seen fd io) ! nat fd) = 0 \<and> io_kernel (grow_for seen fd io) fd \<noteq> None"
      using False grow(1,2,6) fd by (auto simp: io_inv_def kernel_inv_def)
    then have "io' = grow_for seen fd io"
      using assms(4) fd by (auto simp: addEvent_def Let_def result_iff split: if_splits)
    then show ?thesis using grow(1) by simp
  qed
qed

lemma delEvent_inv:
  assumes "io_inv io" "is_event ev" "delEvent fd ev ok io = Inr (b, io')"
  shows "io_inv io'"
proof (cases "ok \<and> 0 \<le> fd \<and> registered io (nat fd) ev")
  case True
  then show ?thesis using delEvent_ok [OF assms(1), of "nat fd" ev] assms(3) by auto
next
  case False
  then have "io' = io" using assms(2,3)
    by (simp add: delEvent_def registered_def Let_def nat_less_iff split: if_splits)
  then show ?thesis using assms(1) by simp
qed

lemma cancelEvent_inv:
  assumes "io_inv io" "is_event ev" "cancelEvent fd ev ok io = Inr (b, io')"
  shows "io_inv io'"
proof (cases "ok \<and> 0 \<le> fd \<and> registered io (nat fd) ev")
  case True
  then show ?thesis using cancelEvent_ok [OF assms(1), of "nat fd" ev] assms(3) by auto
next
  case False
  then have "io' = io" using assms(2,3)
    by (simp add: cancelEvent_def registered_def Let_def nat_less_iff split: if_splits)
  then show ?thesis using assms(1) by simp
qed

lemma cancelAll_inv:
  assumes "io_inv io" "cancelAll fd ok io = Inr (b, io')"
  shows "io_inv io'"
proof (cases "ok \<and> 0 \<le> fd \<and> nat fd < length (io_fdContexts io) \<and> fc_events (io_fdContexts io ! nat fd) \<noteq> 0")
  case True
  then show ?thesis using cancelAll_ok [OF assms(1), of "nat fd"] assms(2) by auto
next
  case False
  then have "io' = io" using assms(2)
    by (simp add: cancelAll_def Let_def nat_less_iff split: if_splits)
  then show ?thesis using assms(1) by simp
qed

lemma process_event_inv:
  assumes "io_inv io" "i < length (io_fdContexts io)" "process_event i msk ok io = Inr io'"
  shows "io_inv io'"
proof (cases "ok \<and> fc_events (io_fdContexts io ! i) AND real_events msk \<noteq> 0")
  case True
  then have "subsumed (real_events msk) (io_fdContexts io ! i)"
    using process_event_assert [OF assms(1,2), of msk] assms(3) by auto
  then show ?thesis using process_event_ok [OF assms(1,2), of msk] assms(3) True by auto
next
  case False
  then have "io' = io" using assms(3)
    by (simp add: process_event_def Let_def split: if_splits)
  then show ?thesis using assms(1) by simp
qed

lemma io_reach_inv: "io_reach io \<Longrightarrow> io_inv io"
  by (induction rule: io_reach.induct)
     (auto simp: new_IOManager_def result_iff intro: io_start_inv addEvent_inv delEvent_inv cancelEvent_inv cancelAll_inv process_event_inv)

text \<open>Two threads add events for descriptors beyond the table: the one that resizes last, with a size
  check from before the other's resize, cuts the table back to one and a half times its own
  descriptor; the contexts behind are gone while the kernel still reports to them.\<close>

lemma stale_size_shrinks:
  assumes "int seen \<le> fd" "fd + fd div 2 < int (length (io_fdContexts io))" "0 \<le> fd"
  shows "\<not> size_seen seen fd io" "length (io_fdContexts (grow_for seen fd io)) = nat (fd + fd div 2)"
    "length (io_fdContexts (grow_for seen fd io)) < length (io_fdContexts io)"
    "io_kernel (grow_for seen fd io) = io_kernel io"
  using assms by (auto simp: size_seen_def grow_for_def contextResize_def)

section \<open>Timeout\<close>

lemma clamp_timeout_ok:
  assumes "t < 2 ^ 31"
  shows "clamp_timeout t = min (uint t) MAX_TIMEOUT"
proof -
  have u: "uint t < 2 ^ 31" using assms by (simp add: word_less_def)
  have "uint (ucast t :: u32) = uint t" using u by (simp add: unsigned_ucast_eq take_bit_int_eq_self)
  moreover have "0 \<le> uint t" by simp
  have "- (2 ^ 31 :: int) \<le> 0" by simp
  then have "- (2 ^ 31) \<le> uint t" using \<open>0 \<le> uint t\<close> by (rule order_trans)
  then have "signed_take_bit 31 (uint t) = uint t" using u by (rule signed_take_bit_int_eq_self)
  ultimately have "sint (ucast t :: u32) = uint t" by (simp add: sint_uint)
  moreover have "t \<noteq> - 1" using assms by auto
  ultimately show ?thesis by (simp add: clamp_timeout_def min_def MAX_TIMEOUT_def)
qed

end
