(* ===== verification/Servlet.thy ===== *)
theory Servlet
  imports Http_Lemmas "HOL-Library.AList"
begin

text \<open>
  \<^verbatim>\<open>src/myhttp/http/servlet.h\<close> and \<^verbatim>\<open>servlet.cpp\<close>: the servlets and the dispatcher that selects one by
  the path of the request.  A servlet runs on the request, the response and the session it is given
  by pointer, so \<open>handle\<close> maps that triple to the returned \<open>int32_t\<close> and the updated triple; the state
  of the session is a type parameter.  A \<open>Servlet::ptr\<close> may be null, hence the options.  The
  \<open>unordered_map\<close> of exact paths is an association list (its order is never read), the vector of
  patterns a list in its order.  \<open>fnmatch\<close> of the C library is a parameter, true when it returns 0.
\<close>

section \<open>Servlets\<close>

type_synonym 's http_context = "HttpRequest \<times> HttpResponse \<times> 's"

type_synonym 's callback = "'s http_context \<Rightarrow> int \<times> 's http_context"

datatype 's servlet =
    FunctionServlet (m_cb: "'s callback")
  | NotFoundServlet (m_serverName: string)
  | DispatchServlet "'s dispatcher"
and 's dispatcher =
    Dispatch (m_datas: "(string \<times> 's servlet option) list")
             (m_globs: "(string \<times> 's servlet option) list")
             (m_default: "'s servlet option")

primrec getName :: "'s servlet \<Rightarrow> string" where
  "getName (FunctionServlet cb) = ''FunctionServlet''"
| "getName (NotFoundServlet n) = ''NotFoundServlet''"
| "getName (DispatchServlet d) = ''ServletDispatch''"

definition RSP_BODY :: string where
  "RSP_BODY = ''<html><head><title>404 Not Found'' @
     ''</title></head><body><h1>Not Found</h1><p>The requested URL /404/ was not found on this server.</p>'' @
     ''<hr><address>myhttp/1.0,0 Port 80</address></body></html>''"

definition NotFoundServlet_handle :: "'s callback" where
  "NotFoundServlet_handle = (\<lambda>(request, response, session).
     let response = response\<lparr>rs_status := 404\<rparr>;
         response = rs_setHeader response ''Server'' ''myhttp/1.0.0'';
         response = rs_setHeader response ''Content-Type'' ''text/html'';
         response = response\<lparr>rs_body := RSP_BODY\<rparr>
     in (0, request, response, session))"

section \<open>The dispatcher\<close>

definition ServletDispatch :: "'s dispatcher" where
  "ServletDispatch = Dispatch [] [] (Some (NotFoundServlet ''myhttp''))"

definition addServlet :: "'s dispatcher \<Rightarrow> string \<Rightarrow> 's servlet option \<Rightarrow> 's dispatcher" where
  "addServlet d uri slt = Dispatch (AList.update uri slt (m_datas d)) (m_globs d) (m_default d)"

definition addServlet_cb :: "'s dispatcher \<Rightarrow> string \<Rightarrow> 's callback \<Rightarrow> 's dispatcher" where
  "addServlet_cb d uri cb =
     Dispatch (AList.update uri (Some (FunctionServlet cb)) (m_datas d)) (m_globs d) (m_default d)"

text \<open>The loop that erases the first pattern equal to \<open>uri\<close> and breaks.\<close>

primrec erase_first :: "string \<Rightarrow> (string \<times> 'v) list \<Rightarrow> (string \<times> 'v) list" where
  "erase_first uri [] = []"
| "erase_first uri (it # its) = (if fst it = uri then its else it # erase_first uri its)"

definition addGlobServlet :: "'s dispatcher \<Rightarrow> string \<Rightarrow> 's servlet option \<Rightarrow> 's dispatcher" where
  "addGlobServlet d uri slt =
     Dispatch (m_datas d) (erase_first uri (m_globs d) @ [(uri, slt)]) (m_default d)"

definition addGlobServlet_cb :: "'s dispatcher \<Rightarrow> string \<Rightarrow> 's callback \<Rightarrow> 's dispatcher" where
  "addGlobServlet_cb d uri cb = addGlobServlet d uri (Some (FunctionServlet cb))"

definition delServlet :: "'s dispatcher \<Rightarrow> string \<Rightarrow> 's dispatcher" where
  "delServlet d uri = Dispatch (AList.delete uri (m_datas d)) (m_globs d) (m_default d)"

definition delGolbServlet :: "'s dispatcher \<Rightarrow> string \<Rightarrow> 's dispatcher" where
  "delGolbServlet d uri = Dispatch (m_datas d) (erase_first uri (m_globs d)) (m_default d)"

definition setDefault :: "'s dispatcher \<Rightarrow> 's servlet option \<Rightarrow> 's dispatcher" where
  "setDefault d v = Dispatch (m_datas d) (m_globs d) v"

definition getServlet :: "'s dispatcher \<Rightarrow> string \<Rightarrow> 's servlet option" where
  "getServlet d uri = (case map_of (m_datas d) uri of None \<Rightarrow> None | Some slt \<Rightarrow> slt)"

definition getGlobServlet :: "'s dispatcher \<Rightarrow> string \<Rightarrow> 's servlet option" where
  "getGlobServlet d uri =
     (case find (\<lambda>it. fst it = uri) (m_globs d) of None \<Rightarrow> None | Some it \<Rightarrow> snd it)"

definition getMatchedServlet ::
  "(string \<Rightarrow> string \<Rightarrow> bool) \<Rightarrow> 's dispatcher \<Rightarrow> string \<Rightarrow> 's servlet option" where
  "getMatchedServlet fnmatch d uri =
     (case map_of (m_datas d) uri of
        Some slt \<Rightarrow> slt
      | None \<Rightarrow>
         (case find (\<lambda>it. fnmatch (c_str (fst it)) (c_str uri)) (m_globs d) of
            Some it \<Rightarrow> snd it
          | None \<Rightarrow> m_default d))"

lemma map_of_size: "map_of m k = Some (Some x) \<Longrightarrow> size x < size_list (size_prod f (size_option size)) m"
  by (induction m) (auto split: if_splits)

lemma find_size:
  "find P m = Some it \<Longrightarrow> snd it = Some x \<Longrightarrow> size x < size_list (size_prod f (size_option size)) m"
  by (induction m) (auto split: if_splits)

lemma matched_size:
  "getMatchedServlet fnmatch d uri = Some x \<Longrightarrow> size x < size d"
  by (cases d) (auto simp: getMatchedServlet_def split: option.splits
      dest: map_of_size [where f = "\<lambda>_. 0"] find_size [where f = "\<lambda>_. 0"])

text \<open>\<open>Servlet::handle\<close> and its overrides.  The dispatcher ignores what the servlet returns.\<close>

function (sequential) servlet_handle ::
  "(string \<Rightarrow> string \<Rightarrow> bool) \<Rightarrow> 's servlet \<Rightarrow> 's callback" where
  "servlet_handle fnmatch (FunctionServlet cb) ctx = cb ctx"
| "servlet_handle fnmatch (NotFoundServlet n) ctx = NotFoundServlet_handle ctx"
| "servlet_handle fnmatch (DispatchServlet d) ctx =
     (case getMatchedServlet fnmatch d (rq_path (fst ctx)) of
        Some slt \<Rightarrow> (0, snd (servlet_handle fnmatch slt ctx))
      | None \<Rightarrow> (0, ctx))"
  by pat_completeness auto
termination
  by (relation "measure (\<lambda>(f, s, c). size s)") (auto dest: matched_size)

section \<open>Reachable dispatchers\<close>

inductive dp_reach :: "'s dispatcher \<Rightarrow> bool" where
  create: "dp_reach ServletDispatch"
| add: "dp_reach d \<Longrightarrow> dp_reach (addServlet d uri slt)"
| add_cb: "dp_reach d \<Longrightarrow> dp_reach (addServlet_cb d uri cb)"
| add_glob: "dp_reach d \<Longrightarrow> dp_reach (addGlobServlet d uri slt)"
| add_glob_cb: "dp_reach d \<Longrightarrow> dp_reach (addGlobServlet_cb d uri cb)"
| del: "dp_reach d \<Longrightarrow> dp_reach (delServlet d uri)"
| del_glob: "dp_reach d \<Longrightarrow> dp_reach (delGolbServlet d uri)"
| set_default: "dp_reach d \<Longrightarrow> dp_reach (setDefault d v)"

text \<open>A path and a pattern are registered at most once.\<close>

definition dp_inv :: "'s dispatcher \<Rightarrow> bool" where
  "dp_inv d \<longleftrightarrow> distinct (map fst (m_datas d)) \<and> distinct (map fst (m_globs d))"

lemma erase_first_filter:
  "distinct (map fst m) \<Longrightarrow> erase_first uri m = filter (\<lambda>it. fst it \<noteq> uri) m"
proof (induction m)
  case (Cons it m)
  have "filter (\<lambda>it. fst it \<noteq> fst i) m = m" if "fst i \<notin> fst ` set m" for i :: "string \<times> 'a"
    using that by (intro filter_True) (metis imageI)
  then show ?case using Cons by auto
qed simp

lemma map_of_filter_neq: "map_of (filter (\<lambda>it. fst it \<noteq> k) m) k' = (if k = k' then None else map_of m k')"
  by (induction m) auto

lemma map_of_snoc: "map_of (m @ [(k, v)]) k' = (case map_of m k' of None \<Rightarrow> if k = k' then Some v else None | Some x \<Rightarrow> Some x)"
  by (simp add: map_add_def split: option.splits)

lemmas dispatch_defs = addServlet_def addServlet_cb_def addGlobServlet_def addGlobServlet_cb_def
  delServlet_def delGolbServlet_def setDefault_def ServletDispatch_def

lemma dp_inv_add [inv_intros]: "dp_inv d \<Longrightarrow> dp_inv (addServlet d uri slt)"
  by (simp add: dp_inv_def dispatch_defs distinct_update)

lemma dp_inv_add_cb [inv_intros]: "dp_inv d \<Longrightarrow> dp_inv (addServlet_cb d uri cb)"
  by (simp add: dp_inv_def dispatch_defs distinct_update)

lemma dp_inv_del [inv_intros]: "dp_inv d \<Longrightarrow> dp_inv (delServlet d uri)"
  by (simp add: dp_inv_def dispatch_defs distinct_delete)

lemma dp_inv_del_glob [inv_intros]: "dp_inv d \<Longrightarrow> dp_inv (delGolbServlet d uri)"
  by (simp add: dp_inv_def dispatch_defs erase_first_filter distinct_map_filter)

lemma dp_inv_add_glob [inv_intros]: "dp_inv d \<Longrightarrow> dp_inv (addGlobServlet d uri slt)"
  by (auto simp: dp_inv_def dispatch_defs erase_first_filter distinct_map_filter)

lemma dp_reach_inv: "dp_reach d \<Longrightarrow> dp_inv d"
  by (induction rule: dp_reach.induct)
    (auto intro: inv_intros simp: addGlobServlet_cb_def, simp_all add: dp_inv_def dispatch_defs)

interpretation exact: kv_store "\<lambda>d. map_of (m_datas d)" addServlet delServlet dp_inv "(=)"
  by unfold_locales
    (simp_all add: inv_intros, simp_all add: addServlet_def delServlet_def update_conv delete_conv)

interpretation glob: kv_store "\<lambda>d. map_of (m_globs d)" addGlobServlet delGolbServlet dp_inv "(=)"
  by unfold_locales
    (simp_all add: inv_intros, simp_all add: addGlobServlet_def delGolbServlet_def dp_inv_def
      erase_first_filter map_of_filter_neq map_of_snoc del: map_of_append split: option.splits)

lemma find_is_map_of: "find (\<lambda>it. fst it = k) m = map_option (Pair k) (map_of m k)"
  by (induction m) auto

lemma getGlobServlet_eq: "getGlobServlet d uri = (case map_of (m_globs d) uri of None \<Rightarrow> None | Some s \<Rightarrow> s)"
  by (simp add: getGlobServlet_def find_is_map_of split: option.splits)

section \<open>Matching\<close>

lemma find_filter: "find P (filter Q xs) = find (\<lambda>x. Q x \<and> P x) xs"
  by (induction xs) auto

lemma find_append: "find P (xs @ ys) = (case find P xs of None \<Rightarrow> find P ys | Some x \<Rightarrow> Some x)"
  by (induction xs) auto

lemma matched_exact:
  "map_of (m_datas d) uri = Some slt \<Longrightarrow> getMatchedServlet fnmatch d uri = slt"
  by (simp add: getMatchedServlet_def)

text \<open>A pattern registered (again) comes behind all the others.\<close>

lemma matched_add_glob:
  assumes "dp_inv d" "map_of (m_datas d) uri = None"
  shows "getMatchedServlet fnmatch (addGlobServlet d pat slt) uri =
    (case find (\<lambda>it. fst it \<noteq> pat \<and> fnmatch (c_str (fst it)) (c_str uri)) (m_globs d) of
       Some it \<Rightarrow> snd it
     | None \<Rightarrow> if fnmatch (c_str pat) (c_str uri) then slt else m_default d)"
  using assms
  by (simp add: getMatchedServlet_def addGlobServlet_def dp_inv_def erase_first_filter find_append find_filter
      split: option.splits)

lemma matched_del_glob:
  assumes "dp_inv d" "map_of (m_datas d) uri = None"
  shows "getMatchedServlet fnmatch (delGolbServlet d pat) uri =
    (case find (\<lambda>it. fst it \<noteq> pat \<and> fnmatch (c_str (fst it)) (c_str uri)) (m_globs d) of
       Some it \<Rightarrow> snd it
     | None \<Rightarrow> m_default d)"
  using assms
  by (simp add: getMatchedServlet_def delGolbServlet_def dp_inv_def erase_first_filter find_filter
      split: option.splits)

lemma matched_none:
  assumes "map_of (m_datas d) uri = None"
    and "\<forall>it \<in> set (m_globs d). \<not> fnmatch (c_str (fst it)) (c_str uri)"
  shows "getMatchedServlet fnmatch d uri = m_default d"
proof -
  have "find (\<lambda>it. fnmatch (c_str (fst it)) (c_str uri)) (m_globs d) = None"
    using assms(2) by (auto simp: find_None_iff)
  then show ?thesis using assms(1) by (simp add: getMatchedServlet_def)
qed

section \<open>The 404 answer\<close>

lemma not_found_handle:
  assumes "map_ok CaseInsensitiLess (rs_headers response)"
  shows "\<exists>response'. NotFoundServlet_handle (request, response, session) = (0, request, response', session)
    \<and> rs_status response' = 404 \<and> rs_body response' = RSP_BODY
    \<and> rs_version response' = rs_version response \<and> rs_close response' = rs_close response
    \<and> rs_reason response' = rs_reason response
    \<and> map_ok CaseInsensitiLess (rs_headers response')
    \<and> (\<forall>k def. rs_getHead response' k def =
          (if same_name ''Content-Type'' k then ''text/html''
           else if same_name ''Server'' k then ''myhttp/1.0.0''
           else rs_getHead response k def))"
proof -
  let ?r1 = "rs_setHeader (response\<lparr>rs_status := 404\<rparr>) ''Server'' ''myhttp/1.0.0''"
  let ?r2 = "rs_setHeader ?r1 ''Content-Type'' ''text/html''"
  have ok0: "map_ok CaseInsensitiLess (rs_headers (response\<lparr>rs_status := 404\<rparr>))" using assms by simp
  note ok1 = rs_hdr.put_inv [OF ok0] and ok2 = rs_hdr.put_inv [OF rs_hdr.put_inv [OF ok0]]
  have "map_get CaseInsensitiLess k (rs_headers ?r2) =
    (if same_name ''Content-Type'' k then Some ''text/html'' else if same_name ''Server'' k then Some ''myhttp/1.0.0''
     else map_get CaseInsensitiLess k (rs_headers response))" for k
    using rs_hdr.get_put [OF ok1] rs_hdr.get_put [OF ok0] by simp
  then show ?thesis
    using ok2 by (simp add: NotFoundServlet_handle_def rs_getHead_def map_getOr_get) (simp add: rs_setHeader_def)
qed

end
