(* ===== verification/Address.thy ===== *)
theory Address
  imports Endian Cpp_String
begin

text \<open>
  \<^verbatim>\<open>src/myhttp/address.h\<close> and \<^verbatim>\<open>address.cpp\<close>: socket addresses of the four kinds, their comparison,
  their text, the arithmetic on network prefixes and the splitting of a host string into node and
  service.  Fields hold the integers as they are loaded from memory on the little-endian host, so a
  field in network order is converted by \<open>byteswapOnLittleEndian\<close> as in the code.  The resolver
  (\<open>getaddrinfo\<close>, \<open>getifaddrs\<close>, \<open>inet_pton\<close>) is a parameter: \<open>None\<close> is its error return.  A signed
  shift or subtraction without a defined result is an error value.
\<close>

section \<open>Masks and bit counting\<close>

definition CreateMask :: "u32 \<Rightarrow> 'a::len word result" where
  "CreateMask bits =
     (let sh = unat ((of_nat LENGTH('a) :: u64) - ucast bits)
      in if sh \<ge> 32 then Inl BadShift
         else if sh = 31 then Inl SignedOverflow
         else Inr (word_of_nat (2 ^ sh - 1)))"

lemma clear_lowest_less: "v \<noteq> 0 \<Longrightarrow> unat (v AND (v - 1)) < unat (v :: 'a::len word)"
proof -
  assume "v \<noteq> 0"
  then have "unat (v AND (v - 1)) \<le> unat (v - 1)"
    by (simp add: word_and_le1 flip: word_le_nat_alt)
  also have "\<dots> < unat v" using \<open>v \<noteq> 0\<close> by (simp add: unat_minus_one unat_gt_0)
  finally show ?thesis .
qed

function CountBytes_loop :: "'a::len word \<Rightarrow> u32 \<Rightarrow> u32" where
  "CountBytes_loop v result =
     (if v = 0 then result else CountBytes_loop (v AND (v - 1)) (result + 1))"
  by pat_completeness auto
termination
  by (relation "measure (\<lambda>(v, r). unat v)") (auto simp: clear_lowest_less)

declare CountBytes_loop.simps [simp del]

definition CountBytes :: "'a::len word \<Rightarrow> u32" where
  "CountBytes v = CountBytes_loop v 0"

section \<open>Address structures\<close>

definition AF_UNSPEC :: int where "AF_UNSPEC = 0"
definition AF_UNIX :: int where "AF_UNIX = 1"
definition AF_INET :: int where "AF_INET = 2"
definition AF_INET6 :: int where "AF_INET6 = 10"

record sockaddr =
  sa_family :: u16
  sa_data :: "u8 list"

record sockaddr_in =
  sin_family :: u16
  sin_port :: u16
  s_addr :: u32
  sin_zero :: "u8 list"

record sockaddr_in6 =
  sin6_family :: u16
  sin6_port :: u16
  sin6_flowinfo :: u32
  s6_addr :: "u8 list"
  sin6_scope_id :: u32

record sockaddr_un =
  sun_family :: u16
  sun_path :: string

datatype address =
    IPv4Address sockaddr_in
  | IPv6Address sockaddr_in6
  | UnixAddress sockaddr_un u32
  | UnknownAddress sockaddr

text \<open>Memory the resolver or the kernel hands out, told apart by its \<open>sa_family\<close>.\<close>

datatype raw_sockaddr = RawIn sockaddr_in | RawIn6 sockaddr_in6 | RawOther sockaddr

section \<open>IPv4\<close>

definition new_IPv4Address :: "u32 \<Rightarrow> u16 \<Rightarrow> sockaddr_in" where
  "new_IPv4Address addr port =
     \<lparr>sin_family = word_of_int AF_INET, sin_port = byteswapOnLittleEndian port,
      s_addr = byteswapOnLittleEndian addr, sin_zero = replicate 8 0\<rparr>"

definition IPv4Address_Create ::
  "(string \<Rightarrow> u32 option) \<Rightarrow> string \<Rightarrow> u16 \<Rightarrow> sockaddr_in option" where
  "IPv4Address_Create inet_pton addr port =
     (let rt = (new_IPv4Address 0 0)\<lparr>sin_port := byteswapOnLittleEndian port\<rparr>
      in case inet_pton addr of None \<Rightarrow> None | Some raw \<Rightarrow> Some (rt\<lparr>s_addr := raw\<rparr>))"

definition IPv4_insert :: "sockaddr_in \<Rightarrow> string" where
  "IPv4_insert a =
     (let addr = byteswapOnLittleEndian (s_addr a)
      in nat_to_string (unat (drop_bit 24 addr AND 0xff)) @ ''.''
         @ nat_to_string (unat (drop_bit 16 addr AND 0xff)) @ ''.''
         @ nat_to_string (unat (drop_bit 8 addr AND 0xff)) @ ''.''
         @ nat_to_string (unat (addr AND 0xff))
         @ '':'' @ nat_to_string (unat (byteswapOnLittleEndian (sin_port a))))"

definition IPv4_broadcastAddress :: "sockaddr_in \<Rightarrow> u32 \<Rightarrow> sockaddr_in option result" where
  "IPv4_broadcastAddress a prefix_len =
     (if prefix_len > 32 then Inr None
      else bindR (CreateMask prefix_len) (\<lambda>m.
        Inr (Some (a\<lparr>s_addr := s_addr a OR byteswapOnLittleEndian m\<rparr>))))"

definition IPv4_networdAddress :: "sockaddr_in \<Rightarrow> u32 \<Rightarrow> sockaddr_in option result" where
  "IPv4_networdAddress a prefix_len =
     (if prefix_len > 32 then Inr None
      else bindR (CreateMask prefix_len) (\<lambda>m.
        Inr (Some (a\<lparr>s_addr := s_addr a AND byteswapOnLittleEndian m\<rparr>))))"

definition IPv4_subnetMast :: "u32 \<Rightarrow> sockaddr_in result" where
  "IPv4_subnetMast prefix_len =
     bindR (CreateMask prefix_len) (\<lambda>m.
       Inr \<lparr>sin_family = word_of_int AF_INET, sin_port = 0, s_addr = NOT (byteswapOnLittleEndian m),
            sin_zero = replicate 8 0\<rparr>)"

definition IPv4_getPort :: "sockaddr_in \<Rightarrow> u16" where
  "IPv4_getPort a = byteswapOnLittleEndian (sin_port a)"

definition IPv4_setPort :: "sockaddr_in \<Rightarrow> u16 \<Rightarrow> sockaddr_in" where
  "IPv4_setPort a v = a\<lparr>sin_port := byteswapOnLittleEndian v\<rparr>"

section \<open>IPv6\<close>

definition new_IPv6Address :: sockaddr_in6 where
  "new_IPv6Address =
     \<lparr>sin6_family = word_of_int AF_INET6, sin6_port = 0, sin6_flowinfo = 0,
      s6_addr = replicate 16 0, sin6_scope_id = 0\<rparr>"

definition new_IPv6Address_bytes :: "u8 list \<Rightarrow> u16 \<Rightarrow> sockaddr_in6" where
  "new_IPv6Address_bytes addr port =
     new_IPv6Address\<lparr>sin6_port := byteswapOnLittleEndian port, s6_addr := take 16 addr\<rparr>"

definition IPv6Address_Create ::
  "(string \<Rightarrow> u8 list option) \<Rightarrow> string \<Rightarrow> u16 \<Rightarrow> sockaddr_in6 option" where
  "IPv6Address_Create inet_pton addr port =
     (let rt = new_IPv6Address\<lparr>sin6_port := byteswapOnLittleEndian port\<rparr>
      in case inet_pton addr of None \<Rightarrow> None | Some raw \<Rightarrow> Some (rt\<lparr>s6_addr := raw\<rparr>))"

text \<open>The eight groups as the code reads them, through a \<open>uint16_t*\<close>.\<close>

definition groups :: "sockaddr_in6 \<Rightarrow> u16 list" where
  "groups a = map (\<lambda>i. from_le [s6_addr a ! (2 * i), s6_addr a ! (2 * i + 1)]) [0..<8]"

definition hex_digit :: "nat \<Rightarrow> char" where
  "hex_digit d = char_of (if d < 10 then 48 + d else 87 + d)"

fun nat_to_hex :: "nat \<Rightarrow> string" where
  "nat_to_hex n = (if n < 16 then [hex_digit n] else nat_to_hex (n div 16) @ [hex_digit (n mod 16)])"

declare nat_to_hex.simps [simp del]

definition group_text :: "u16 \<Rightarrow> string" where
  "group_text g = nat_to_hex (unat (byteswapOnLittleEndian g))"

text \<open>The loop over the groups; \<open>addr\<close> is the array, \<open>is\<close> the indices still to visit.\<close>

fun IPv6_insert_loop :: "u16 list \<Rightarrow> nat list \<Rightarrow> bool \<Rightarrow> string \<Rightarrow> string \<times> bool" where
  "IPv6_insert_loop addr [] used_zeros os = (os, used_zeros)"
| "IPv6_insert_loop addr (i # is) used_zeros os =
     (if addr ! i = 0 \<and> \<not> used_zeros then IPv6_insert_loop addr is used_zeros os
      else let (os, used_zeros) =
             (if i \<noteq> 0 \<and> addr ! (i - 1) = 0 \<and> \<not> used_zeros then (os @ '':'', True) else (os, used_zeros));
             os = (if i \<noteq> 0 then os @ '':'' else os);
             os = os @ group_text (addr ! i)
           in IPv6_insert_loop addr is used_zeros os)"

definition IPv6_insert :: "sockaddr_in6 \<Rightarrow> string" where
  "IPv6_insert a =
     (let addr = groups a;
          (os, used_zeros) = IPv6_insert_loop addr [0..<8] False ''['';
          os = (if \<not> used_zeros \<and> addr ! 7 = 0 then os @ ''::'' else os)
      in os @ '']:'' @ nat_to_string (unat (byteswapOnLittleEndian (sin6_port a))))"

definition IPv6_broadcastAddress :: "sockaddr_in6 \<Rightarrow> u32 \<Rightarrow> sockaddr_in6 result" where
  "IPv6_broadcastAddress a prefix_len =
     (let k = unat prefix_len div 8
      in if k \<ge> 16 then Inl OutOfBounds
         else bindR (CreateMask (prefix_len mod 8)) (\<lambda>m.
           Inr (a\<lparr>s6_addr := foldl (\<lambda>bs i. bs[i := 0xff])
                    ((s6_addr a)[k := s6_addr a ! k OR m]) [k + 1..<16]\<rparr>)))"

definition IPv6_networdAddress :: "sockaddr_in6 \<Rightarrow> u32 \<Rightarrow> sockaddr_in6 result" where
  "IPv6_networdAddress a prefix_len =
     (let k = unat prefix_len div 8
      in if k \<ge> 16 then Inl OutOfBounds
         else bindR (CreateMask (prefix_len mod 8)) (\<lambda>m.
           Inr (a\<lparr>s6_addr := (s6_addr a)[k := s6_addr a ! k AND m]\<rparr>)))"

definition IPv6_subnetMast :: "u32 \<Rightarrow> sockaddr_in6 result" where
  "IPv6_subnetMast prefix_len =
     (let k = unat prefix_len div 8
      in if k \<ge> 16 then Inl OutOfBounds
         else bindR (CreateMask (prefix_len mod 8)) (\<lambda>m.
           Inr (new_IPv6Address\<lparr>s6_addr := foldl (\<lambda>bs i. bs[i := 0xff])
                    ((replicate 16 0)[k := NOT m]) [0..<k]\<rparr>)))"

definition IPv6_getPort :: "sockaddr_in6 \<Rightarrow> u16" where
  "IPv6_getPort a = byteswapOnLittleEndian (sin6_port a)"

definition IPv6_setPort :: "sockaddr_in6 \<Rightarrow> u16 \<Rightarrow> sockaddr_in6" where
  "IPv6_setPort a v = a\<lparr>sin6_port := byteswapOnLittleEndian v\<rparr>"

section \<open>Unix and unknown addresses\<close>

definition sun_path_size :: nat where "sun_path_size = 108"
definition sun_path_offset :: nat where "sun_path_offset = 2"
definition MAX_PATH_LEN :: nat where "MAX_PATH_LEN = sun_path_size - 1"

definition NUL :: char where "NUL = CHR 0x00"

definition new_UnixAddress :: address where
  "new_UnixAddress =
     UnixAddress \<lparr>sun_family = word_of_int AF_UNIX, sun_path = replicate sun_path_size NUL\<rparr>
       (word_of_nat (sun_path_offset + MAX_PATH_LEN))"

definition new_UnixAddress_path :: "string \<Rightarrow> address result" where
  "new_UnixAddress_path path =
     (let m_length = word_of_nat (length path + 1) :: u32;
          m_length = (if path \<noteq> [] \<and> hd path = NUL then m_length - 1 else m_length)
      in if unat m_length > sun_path_size then Inl (LogicError ''path too long'')
         else let n = unat m_length in
           Inr (UnixAddress
             \<lparr>sun_family = word_of_int AF_UNIX,
              sun_path = take n (path @ [NUL]) @ replicate (sun_path_size - n) NUL\<rparr>
             (m_length + word_of_nat sun_path_offset)))"

definition setAddrLen :: "address \<Rightarrow> u32 \<Rightarrow> address" where
  "setAddrLen a v = (case a of UnixAddress un len \<Rightarrow> UnixAddress un v | _ \<Rightarrow> a)"

definition Unix_insert :: "sockaddr_un \<Rightarrow> u32 \<Rightarrow> string result" where
  "Unix_insert un m_length =
     (if unat m_length > sun_path_offset \<and> sun_path un ! 0 = NUL
      then let n = unat m_length - sun_path_offset - 1
           in if n + 1 \<le> length (sun_path un) then Inr (CHR 0x5C # CHR ''0'' # take n (drop 1 (sun_path un)))
              else Inl OutOfBounds
      else if NUL \<in> set (sun_path un) then Inr (c_str (sun_path un)) else Inl OutOfBounds)"

definition new_UnknownAddress :: "int \<Rightarrow> address" where
  "new_UnknownAddress family = UnknownAddress \<lparr>sa_family = word_of_int family, sa_data = replicate 14 0\<rparr>"

section \<open>Addresses of any kind\<close>

definition getFamily :: "address \<Rightarrow> int" where
  "getFamily a =
     (case a of IPv4Address s \<Rightarrow> uint (sin_family s) | IPv6Address s \<Rightarrow> uint (sin6_family s)
      | UnixAddress s n \<Rightarrow> uint (sun_family s) | UnknownAddress s \<Rightarrow> uint (sa_family s))"

definition getAddrLen :: "address \<Rightarrow> u32" where
  "getAddrLen a =
     (case a of IPv4Address s \<Rightarrow> 16 | IPv6Address s \<Rightarrow> 28 | UnixAddress s n \<Rightarrow> n | UnknownAddress s \<Rightarrow> 16)"

text \<open>The bytes behind \<open>getAddr()\<close>.\<close>

definition getAddr :: "address \<Rightarrow> u8 list" where
  "getAddr a =
     (case a of
        IPv4Address s \<Rightarrow> le_bytes 2 (sin_family s) @ le_bytes 2 (sin_port s) @ le_bytes 4 (s_addr s) @ sin_zero s
      | IPv6Address s \<Rightarrow> le_bytes 2 (sin6_family s) @ le_bytes 2 (sin6_port s) @ le_bytes 4 (sin6_flowinfo s)
                        @ s6_addr s @ le_bytes 4 (sin6_scope_id s)
      | UnixAddress s n \<Rightarrow> le_bytes 2 (sun_family s) @ map of_char (sun_path s)
      | UnknownAddress s \<Rightarrow> le_bytes 2 (sa_family s) @ sa_data s)"

definition Address_insert :: "address \<Rightarrow> string result" where
  "Address_insert a =
     (case a of IPv4Address s \<Rightarrow> Inr (IPv4_insert s) | IPv6Address s \<Rightarrow> Inr (IPv6_insert s)
      | UnixAddress s n \<Rightarrow> Unix_insert s n
      | UnknownAddress s \<Rightarrow> Inr (''[UnknownAddress family='' @ nat_to_string (unat (sa_family s)) @ '']''))"

definition Address_toString :: "address \<Rightarrow> string result" where
  "Address_toString a = Address_insert a"

text \<open>\<open>memcmp\<close>: negative, zero or positive as the first differing byte, read as unsigned.\<close>

fun memcmp_bytes :: "u8 list \<Rightarrow> u8 list \<Rightarrow> int" where
  "memcmp_bytes (x # xs) (y # ys) = (if x = y then memcmp_bytes xs ys else uint x - uint y)"
| "memcmp_bytes _ _ = 0"

definition memcmp :: "u8 list \<Rightarrow> u8 list \<Rightarrow> nat \<Rightarrow> int result" where
  "memcmp a b n =
     (if n \<le> length a \<and> n \<le> length b then Inr (memcmp_bytes (take n a) (take n b)) else Inl OutOfBounds)"

definition Address_less :: "address \<Rightarrow> address \<Rightarrow> bool result" where
  "Address_less a b =
     (let minlen = min (getAddrLen a) (getAddrLen b)
      in bindR (memcmp (getAddr a) (getAddr b) (unat minlen)) (\<lambda>result.
           Inr (if result < 0 then True else if result > 0 then False
                else if getAddrLen a < getAddrLen b then True else False)))"

definition Address_eq :: "address \<Rightarrow> address \<Rightarrow> bool result" where
  "Address_eq a b =
     (if getAddrLen a = getAddrLen b
      then bindR (memcmp (getAddr a) (getAddr b) (unat (getAddrLen a))) (\<lambda>r. Inr (r = 0))
      else Inr False)"

definition Address_neq :: "address \<Rightarrow> address \<Rightarrow> bool result" where
  "Address_neq a b = bindR (Address_eq a b) (\<lambda>e. Inr (\<not> e))"

definition Address_Create :: "raw_sockaddr option \<Rightarrow> address option" where
  "Address_Create addr =
     (case addr of
        None \<Rightarrow> None
      | Some (RawIn s) \<Rightarrow> Some (IPv4Address s)
      | Some (RawIn6 s) \<Rightarrow> Some (IPv6Address s)
      | Some (RawOther s) \<Rightarrow> Some (UnknownAddress s))"

section \<open>Looking up\<close>

text \<open>\<open>memchr\<close>: the index of the first \<open>c\<close> in \<open>s\<close>.\<close>

primrec memchr :: "string \<Rightarrow> char \<Rightarrow> nat option" where
  "memchr [] c = None"
| "memchr (x # xs) c = (if x = c then Some 0 else map_option Suc (memchr xs c))"

text \<open>Node and service of \<open>Lookup\<close>.  Each block of the code is one step.\<close>

definition bracket_part :: "string \<Rightarrow> string \<times> string option" where
  "bracket_part host =
     (if host \<noteq> [] \<and> hd host = CHR ''[''
      then (case memchr (tl host) (CHR '']'') of
              None \<Rightarrow> ([], None)
            | Some e \<Rightarrow>
                (take e (tl host),
                 (case drop (Suc e) (tl host) of c # rest \<Rightarrow> if c = CHR '':'' then Some rest else None
                  | [] \<Rightarrow> None)))
      else ([], None))"

definition colon_part :: "string \<Rightarrow> string \<times> string option" where
  "colon_part host =
     (case memchr host (CHR '':'') of
        None \<Rightarrow> ([], None)
      | Some s \<Rightarrow>
          (if memchr (drop (Suc s) host) (CHR '':'') = None
           then (take s host, Some (drop (Suc s) host))
           else ([], Some (drop s host))))"

definition node_service :: "string \<Rightarrow> string \<times> string option" where
  "node_service host =
     (let (node, service) = bracket_part host;
          (node, service) = (if node = [] then colon_part host else (node, service))
      in (if node = [] then host else node, service))"

type_synonym getaddrinfo = "string \<Rightarrow> string option \<Rightarrow> int \<Rightarrow> int \<Rightarrow> int \<Rightarrow> raw_sockaddr option list option"

definition Lookup :: "getaddrinfo \<Rightarrow> string \<Rightarrow> int \<Rightarrow> int \<Rightarrow> int \<Rightarrow> address option list option" where
  "Lookup getaddrinfo host family type protocol =
     (let (node, service) = node_service host
      in map_option (map Address_Create)
           (getaddrinfo (c_str node) (map_option c_str service) family type protocol))"

definition LookupAny :: "getaddrinfo \<Rightarrow> string \<Rightarrow> int \<Rightarrow> int \<Rightarrow> int \<Rightarrow> address option result" where
  "LookupAny getaddrinfo host family type protocol =
     (case Lookup getaddrinfo host family type protocol of
        None \<Rightarrow> Inr None
      | Some [] \<Rightarrow> Inl OutOfBounds
      | Some (a # _) \<Rightarrow> Inr a)"

definition as_IPAddress :: "address option \<Rightarrow> address option" where
  "as_IPAddress a =
     (case a of Some (IPv4Address s) \<Rightarrow> a | Some (IPv6Address s) \<Rightarrow> a | _ \<Rightarrow> None)"

definition LookupAnyIPAddress :: "getaddrinfo \<Rightarrow> string \<Rightarrow> int \<Rightarrow> int \<Rightarrow> int \<Rightarrow> address option" where
  "LookupAnyIPAddress getaddrinfo host family type protocol =
     (case Lookup getaddrinfo host family type protocol of
        None \<Rightarrow> None
      | Some result \<Rightarrow>
          (case find (\<lambda>i. as_IPAddress i \<noteq> None) result of None \<Rightarrow> None | Some i \<Rightarrow> as_IPAddress i))"

definition setPort :: "address \<Rightarrow> u16 \<Rightarrow> address" where
  "setPort a v =
     (case a of IPv4Address s \<Rightarrow> IPv4Address (IPv4_setPort s v)
      | IPv6Address s \<Rightarrow> IPv6Address (IPv6_setPort s v) | _ \<Rightarrow> a)"

definition getPort :: "address \<Rightarrow> u16 option" where
  "getPort a =
     (case a of IPv4Address s \<Rightarrow> Some (IPv4_getPort s) | IPv6Address s \<Rightarrow> Some (IPv6_getPort s) | _ \<Rightarrow> None)"

definition IPAddress_Create ::
  "(string \<Rightarrow> raw_sockaddr option list option) \<Rightarrow> string \<Rightarrow> u16 \<Rightarrow> address option result" where
  "IPAddress_Create getaddrinfo_numeric addr port =
     (case getaddrinfo_numeric addr of
        None \<Rightarrow> Inr None
      | Some [] \<Rightarrow> Inl NullDeref
      | Some (ai # _) \<Rightarrow> Inr (map_option (\<lambda>rt. setPort rt port) (as_IPAddress (Address_Create ai))))"

section \<open>Interfaces\<close>

record ifaddrs =
  ifa_name :: string
  ifa_addr :: "raw_sockaddr option"
  ifa_netmask :: "raw_sockaddr option"

text \<open>\<open>std::multimap::insert\<close>: behind the entries with an equal key.\<close>

primrec multimap_insert :: "string \<Rightarrow> 'v \<Rightarrow> (string \<times> 'v) list \<Rightarrow> (string \<times> 'v) list" where
  "multimap_insert k v [] = [(k, v)]"
| "multimap_insert k v (e # es) =
     (if string_less k (fst e) then (k, v) # e # es else e # multimap_insert k v es)"

definition raw_family :: "raw_sockaddr \<Rightarrow> int" where
  "raw_family r =
     (case r of RawIn s \<Rightarrow> AF_INET | RawIn6 s \<Rightarrow> AF_INET6 | RawOther s \<Rightarrow> uint (sa_family s))"

definition interface_entry :: "ifaddrs \<Rightarrow> (address option \<times> u32) result" where
  "interface_entry ifa =
     (case ifa_addr ifa of
        Some (RawIn s) \<Rightarrow>
          (case ifa_netmask ifa of
             Some (RawIn m) \<Rightarrow> Inr (Address_Create (ifa_addr ifa), CountBytes (s_addr m))
           | _ \<Rightarrow> Inl NullDeref)
      | Some (RawIn6 s) \<Rightarrow>
          (case ifa_netmask ifa of
             Some (RawIn6 m) \<Rightarrow>
               Inr (Address_Create (ifa_addr ifa), foldl (\<lambda>n b. n + CountBytes b) 0 (s6_addr m))
           | _ \<Rightarrow> Inl NullDeref)
      | _ \<Rightarrow> Inr (None, NOT 0))"

fun interfaces_loop ::
  "ifaddrs list \<Rightarrow> int \<Rightarrow> (string \<times> address \<times> u32) list \<Rightarrow> (string \<times> address \<times> u32) list result" where
  "interfaces_loop [] family result = Inr result"
| "interfaces_loop (ifa # next) family result =
     (case ifa_addr ifa of
        None \<Rightarrow> Inl NullDeref
      | Some raw \<Rightarrow>
          if family \<noteq> AF_UNSPEC \<and> family \<noteq> raw_family raw then interfaces_loop next family result
          else bindR (interface_entry ifa) (\<lambda>(addr, prefix_length).
            interfaces_loop next family
              (case addr of None \<Rightarrow> result
               | Some a \<Rightarrow> multimap_insert (ifa_name ifa) (a, prefix_length) result)))"

definition GetInterfaceAddresses ::
  "ifaddrs list option \<Rightarrow> int \<Rightarrow> (string \<times> address \<times> u32) list option result" where
  "GetInterfaceAddresses getifaddrs family =
     (case getifaddrs of
        None \<Rightarrow> Inr None
      | Some results \<Rightarrow> bindR (interfaces_loop results family []) (\<lambda>result. Inr (Some result)))"

definition GetInterfaceAddresses_iface ::
  "ifaddrs list option \<Rightarrow> string \<Rightarrow> int \<Rightarrow> (address \<times> u32) list option result" where
  "GetInterfaceAddresses_iface getifaddrs iface family =
     (if iface = [] \<or> iface = ''*'' then
        Inr (Some ((if family = AF_INET \<or> family = AF_UNSPEC then [(IPv4Address (new_IPv4Address 0 0), 0)] else [])
          @ (if family = AF_INET6 \<or> family = AF_UNSPEC then [(IPv6Address new_IPv6Address, 0)] else [])))
      else bindR (GetInterfaceAddresses getifaddrs family) (\<lambda>results.
        case results of
          None \<Rightarrow> Inr None
        | Some results \<Rightarrow> Inr (Some (map snd (filter (\<lambda>e. fst e = iface) results)))))"

end
