(* ===== verification/Address_Lemmas.thy ===== *)
theory Address_Lemmas
  imports Address
begin

text \<open>
  Facts about \<open>Address\<close>: bit counting is the population count, the prefix masks, the order on
  addresses, the text of addresses and the splitting of host strings.
\<close>

section \<open>Bit counting\<close>

lemma bit_nat_less: "bit (n :: nat) k \<Longrightarrow> k < n"
proof -
  assume "bit n k"
  then have "2 ^ k \<le> n" by (cases "n < 2 ^ k") (auto simp: bit_iff_odd)
  then show ?thesis using less_exp [of k] by linarith
qed

lemma finite_nat_bits: "finite {k. bit (n :: nat) k}"
  by (rule finite_subset [of _ "{..<n}"]) (auto dest: bit_nat_less)

lemma card_bits_double:
  "card {k. bit (2 * m + (if b then 1 else 0) :: nat) k} = card {k. bit m k} + (if b then 1 else 0)"
proof -
  have "{k. bit (2 * m + (if b then 1 else 0)) k} = Suc ` {k. bit m k} \<union> (if b then {0} else {})"
  proof (rule set_eqI)
    fix k show "k \<in> {k. bit (2 * m + (if b then 1 else 0)) k} \<longleftrightarrow> k \<in> Suc ` {k. bit m k} \<union> (if b then {0} else {})"
      by (cases k) (auto simp: bit_0 bit_Suc)
  qed
  then show ?thesis using finite_nat_bits [of m] by (auto simp: card_image)
qed

lemma card_bits_clear_lowest:
  "n \<noteq> 0 \<Longrightarrow> card {k. bit (n :: nat) k} = Suc (card {k. bit (n AND (n - 1)) k})"
proof (induction n rule: less_induct)
  case (less n)
  show ?case
  proof (cases "even n")
    case True
    then obtain m where n: "n = 2 * m" by blast
    then have m: "m \<noteq> 0" "m < n" using less.prems by auto
    then obtain l where l: "m = Suc l" by (cases m) auto
    have "(2 * m) AND (2 * m - 1) = 2 * (m AND (m - 1))"
      using l and_rec [of "2 * m" "2 * m - 1"] by simp
    then show ?thesis
      using card_bits_double [of m False] card_bits_double [of "m AND (m - 1)" False] less.IH [OF m(2,1)] n
      by simp
  next
    case False
    then obtain m where n: "n = 2 * m + 1" by (blast elim: oddE)
    have "n AND (n - 1) = 2 * m" using n and_rec [of "2 * m + 1" "2 * m"] by simp
    then show ?thesis using card_bits_double [of m True] card_bits_double [of m False] n by simp
  qed
qed

lemma bits_unat: "{k. bit (unat (v :: 'a::len word)) k} = {k. bit v k}"
  by (simp add: bit_unsigned_iff)

lemma CountBytes_loop_card:
  "CountBytes_loop (v :: 'a::len word) r = r + word_of_nat (card {k. bit v k})"
proof (induction v r rule: CountBytes_loop.induct)
  case (1 v r)
  show ?case
  proof (cases "v = 0")
    case True
    then show ?thesis by (subst CountBytes_loop.simps) (simp add: bot_fun_def)
  next
    case False
    have "unat (v AND (v - 1)) = unat v AND (unat v - 1)"
      using False by (simp add: unsigned_and_eq unat_minus_one)
    then have "card {k. bit v k} = Suc (card {k. bit (v AND (v - 1)) k})"
      using card_bits_clear_lowest [of "unat v"] False by (simp add: unat_eq_0 flip: bits_unat)
    then show ?thesis using 1 False by (subst CountBytes_loop.simps) simp
  qed
qed

lemma CountBytes_card: "CountBytes v = word_of_nat (card {k. bit v k})"
  by (simp add: CountBytes_def CountBytes_loop_card)

section \<open>Prefix masks\<close>

lemma sub_small:
  assumes "n \<le> m" "m < 2 ^ 32"
  shows "unat ((word_of_nat m :: u64) - ucast (word_of_nat n :: u32)) = m - n"
proof -
  have "(ucast (word_of_nat n :: u32) :: u64) = word_of_nat n"
    using assms by (intro word_unat_eq_iff [THEN iffD2]) (simp add: unsigned_ucast_eq unat_of_nat_small take_bit_nat_eq_self)
  then have "(word_of_nat m :: u64) - ucast (word_of_nat n :: u32) = word_of_nat (m - n)"
    using assms(1) by simp
  then have "unat ((word_of_nat m :: u64) - ucast (word_of_nat n :: u32)) = unat (word_of_nat (m - n) :: u64)"
    by (simp only:)
  also have "\<dots> = m - n" using assms by (intro unat_of_nat_small) simp
  finally show ?thesis .
qed

lemma CreateMask_value:
  assumes "n \<le> LENGTH('a::len)" "LENGTH('a) \<le> n + 30" "LENGTH('a) < 2 ^ 32"
  shows "(CreateMask (word_of_nat n) :: 'a word result) = Inr (mask (LENGTH('a) - n))"
  using assms sub_small [OF assms(1,3)] by (auto simp: CreateMask_def Let_def mask_eq_exp_minus_1)

lemma CreateMask_undefined:
  assumes "n < 2"
  shows "(CreateMask (word_of_nat n) :: u32 result) = Inl (if n = 0 then BadShift else SignedOverflow)"
  using assms sub_small [of n 32] by (auto simp: CreateMask_def Let_def)

lemma byteswap_bitwise:
  fixes v w :: u32
  shows "byteswapOnLittleEndian (v OR w) = byteswapOnLittleEndian v OR byteswapOnLittleEndian w"
    "byteswapOnLittleEndian (v AND w) = byteswapOnLittleEndian v AND byteswapOnLittleEndian w"
    "byteswapOnLittleEndian (NOT v) = NOT (byteswapOnLittleEndian v)"
  by (auto simp: byteswapOnLittleEndian_def bit_eq_iff bit_byteswap bit_simps)

lemma byteswap32_twice [simp]: "byteswapOnLittleEndian (byteswapOnLittleEndian (v :: u32)) = v"
  by (rule byteswapOnLittleEndian_invol) simp

lemma byteswap16_twice [simp]: "byteswapOnLittleEndian (byteswapOnLittleEndian (v :: u16)) = v"
  by (rule byteswapOnLittleEndian_invol) simp

text \<open>The address as the integer a.b.c.d denotes.\<close>

definition ipv4_value :: "sockaddr_in \<Rightarrow> u32" where
  "ipv4_value a = byteswapOnLittleEndian (s_addr a)"

lemma ipv4_prefix_defined:
  assumes "2 \<le> n" "n \<le> 32"
  shows "IPv4_broadcastAddress a (word_of_nat n) = Inr (Some (a\<lparr>s_addr := s_addr a OR byteswapOnLittleEndian (mask (32 - n))\<rparr>))"
    "IPv4_networdAddress a (word_of_nat n) = Inr (Some (a\<lparr>s_addr := s_addr a AND byteswapOnLittleEndian (mask (32 - n))\<rparr>))"
    "\<exists>m. IPv4_subnetMast (word_of_nat n) = Inr m \<and> ipv4_value m = NOT (mask (32 - n))"
proof -
  have le: "(word_of_nat n :: u32) \<le> 32" using assms by (simp add: word_le_nat_alt unat_of_nat_small)
  have m: "(CreateMask (word_of_nat n) :: u32 result) = Inr (mask (32 - n))"
    using CreateMask_value [where ?'a = 32, of n] assms by simp
  show "IPv4_broadcastAddress a (word_of_nat n) = Inr (Some (a\<lparr>s_addr := s_addr a OR byteswapOnLittleEndian (mask (32 - n))\<rparr>))"
    "IPv4_networdAddress a (word_of_nat n) = Inr (Some (a\<lparr>s_addr := s_addr a AND byteswapOnLittleEndian (mask (32 - n))\<rparr>))"
    using le by (simp_all add: IPv4_broadcastAddress_def IPv4_networdAddress_def m not_less)
  show "\<exists>m. IPv4_subnetMast (word_of_nat n) = Inr m \<and> ipv4_value m = NOT (mask (32 - n))"
    by (simp add: IPv4_subnetMast_def m ipv4_value_def byteswap_bitwise)
qed

lemma card_bits_not_mask:
  assumes "k \<le> LENGTH('a::len)"
  shows "card {j. bit (NOT (mask k) :: 'a word) j} = LENGTH('a) - k"
proof -
  have "{j. bit (NOT (mask k) :: 'a word) j} = {k..<LENGTH('a)}"
    by (auto simp: bit_simps dest: bit_imp_le_length)
  then show ?thesis by simp
qed

section \<open>Order\<close>

definition addr_ok :: "address \<Rightarrow> bool" where
  "addr_ok a =
     (case a of IPv4Address s \<Rightarrow> length (sin_zero s) = 8 | IPv6Address s \<Rightarrow> length (s6_addr s) = 16
      | UnixAddress s n \<Rightarrow> length (sun_path s) = sun_path_size \<and> unat n \<le> sun_path_offset + sun_path_size
      | UnknownAddress s \<Rightarrow> length (sa_data s) = 14)"

definition addr_key :: "address \<Rightarrow> u8 list" where
  "addr_key a = take (unat (getAddrLen a)) (getAddr a)"

lemma addr_len_ok: "addr_ok a \<Longrightarrow> unat (getAddrLen a) \<le> length (getAddr a)"
  by (cases a) (simp_all add: addr_ok_def getAddrLen_def getAddr_def sun_path_size_def sun_path_offset_def)

lemma memcmp_bytes_lexord:
  "memcmp_bytes xs ys < 0 \<or> memcmp_bytes xs ys = 0 \<and> length xs < length ys \<longleftrightarrow> ord_class.lexordp xs ys"
proof (induction xs ys rule: memcmp_bytes.induct)
  case (1 x xs y ys)
  then show ?case by (cases "x = y") (auto simp: word_less_def word_uint_eq_iff)
qed (auto simp: neq_Nil_conv)

lemma memcmp_bytes_zero: "length xs = length ys \<Longrightarrow> memcmp_bytes xs ys = 0 \<longleftrightarrow> xs = ys"
  by (induction xs ys rule: memcmp_bytes.induct) (auto simp: word_uint_eq_iff)

lemma memcmp_bytes_take:
  "n = min (length xs) (length ys) \<Longrightarrow> memcmp_bytes (take n xs) (take n ys) = memcmp_bytes xs ys"
  by (induction xs ys arbitrary: n rule: memcmp_bytes.induct) auto

lemma memcmp_keys:
  assumes "addr_ok a" "addr_ok b"
  shows "memcmp (getAddr a) (getAddr b) (unat (min (getAddrLen a) (getAddrLen b))) = Inr (memcmp_bytes (addr_key a) (addr_key b))"
proof -
  let ?m = "unat (min (getAddrLen a) (getAddrLen b))"
  note len = addr_len_ok [OF assms(1)] addr_len_ok [OF assms(2)]
  have m: "?m = min (unat (getAddrLen a)) (unat (getAddrLen b))" by (simp add: min_def word_le_nat_alt)
  then have "?m = min (length (addr_key a)) (length (addr_key b))" using len by (simp add: addr_key_def)
  from memcmp_bytes_take [OF this] have "memcmp_bytes (take ?m (getAddr a)) (take ?m (getAddr b)) = memcmp_bytes (addr_key a) (addr_key b)"
    unfolding addr_key_def take_take m by simp
  then show ?thesis using len m by (auto simp: memcmp_def)
qed

lemma Address_less_key:
  assumes "addr_ok a" "addr_ok b"
  shows "Address_less a b = Inr (ord_class.lexordp (addr_key a) (addr_key b))"
proof -
  have "getAddrLen a < getAddrLen b \<longleftrightarrow> length (addr_key a) < length (addr_key b)"
    using addr_len_ok [OF assms(1)] addr_len_ok [OF assms(2)] by (simp add: addr_key_def word_less_nat_alt)
  then show ?thesis
    unfolding Address_less_def Let_def memcmp_keys [OF assms] memcmp_bytes_lexord [symmetric] by auto
qed

lemma Address_eq_key:
  assumes "addr_ok a" "addr_ok b"
  shows "Address_eq a b = Inr (addr_key a = addr_key b)"
proof (cases "getAddrLen a = getAddrLen b")
  case True
  then have len: "length (addr_key a) = length (addr_key b)"
    using addr_len_ok [OF assms(1)] addr_len_ok [OF assms(2)] by (simp add: addr_key_def)
  show ?thesis using memcmp_keys [OF assms] memcmp_bytes_zero [OF len] True by (simp add: Address_eq_def)
next
  case False
  then have "length (addr_key a) \<noteq> length (addr_key b)"
    using addr_len_ok [OF assms(1)] addr_len_ok [OF assms(2)] by (simp add: addr_key_def word_unat_eq_iff)
  then show ?thesis using False by (auto simp: Address_eq_def)
qed

section \<open>Text of IPv4 addresses\<close>

lemma digits_then_sep:
  assumes "all_digits u" "all_digits v" "digit_val c = None" "u @ c # x = v @ c # y"
  shows "u = v \<and> x = y"
proof -
  have "takeWhile (\<lambda>c. digit_val c \<noteq> None) (u @ c # x) = u" "takeWhile (\<lambda>c. digit_val c \<noteq> None) (v @ c # y) = v"
    using assms(1-3) by (auto simp: all_digits_def list_all_iff takeWhile_append)
  then show ?thesis using assms(4) by auto
qed

lemma nat_to_string_inj: "nat_to_string m = nat_to_string n \<longleftrightarrow> m = n"
  using dec_value_to_string by metis

lemma numbers_then_sep:
  assumes "digit_val c = None"
  shows "nat_to_string m @ c # x = nat_to_string n @ c # y \<longleftrightarrow> m = n \<and> x = y"
  using digits_then_sep [OF nat_to_string_digits nat_to_string_digits assms] nat_to_string_inj by blast

lemma word32_bytes:
  fixes v w :: u32
  shows "v = w \<longleftrightarrow> drop_bit 24 v AND 0xff = drop_bit 24 w AND 0xff \<and> drop_bit 16 v AND 0xff = drop_bit 16 w AND 0xff
    \<and> drop_bit 8 v AND 0xff = drop_bit 8 w AND 0xff \<and> v AND 0xff = w AND 0xff"
proof -
  have m: "(0xff :: u32) = mask 8" by (simp add: mask_eq_exp_minus_1)
  have byte: "bit v (8 * i + j) = bit w (8 * i + j)" if "drop_bit (8 * i) v AND mask 8 = drop_bit (8 * i) w AND mask 8" "j < 8" for i j
    using that(2) arg_cong [OF that(1), of "\<lambda>x. bit x j"] by (auto simp: bit_simps)
  have "v = w" if *: "drop_bit 24 v AND mask 8 = drop_bit 24 w AND mask 8" "drop_bit 16 v AND mask 8 = drop_bit 16 w AND mask 8"
    "drop_bit 8 v AND mask 8 = drop_bit 8 w AND mask 8" "v AND mask 8 = w AND mask 8"
  proof (rule bit_word_eqI)
    fix n assume "n < LENGTH(32)"
    then have "n div 8 = 0 \<or> n div 8 = 1 \<or> n div 8 = 2 \<or> n div 8 = 3" by auto
    then have "drop_bit (8 * (n div 8)) v AND mask 8 = drop_bit (8 * (n div 8)) w AND mask 8" using * by auto
    from byte [OF this, of "n mod 8"] show "bit v n = bit w n" by simp
  qed
  then show ?thesis unfolding m by blast
qed

lemma IPv4_insert_inj:
  "IPv4_insert a = IPv4_insert b \<longleftrightarrow> ipv4_value a = ipv4_value b \<and> IPv4_getPort a = IPv4_getPort b"
  unfolding IPv4_insert_def Let_def ipv4_value_def IPv4_getPort_def word32_bytes [of "byteswapOnLittleEndian (s_addr a)"]
  by (simp add: numbers_then_sep digit_val_def nat_to_string_inj conj_ac flip: word_unat_eq_iff)

section \<open>Text of IPv6 addresses\<close>

text \<open>Groups joined by colons.\<close>

fun colon_join :: "u16 list \<Rightarrow> string" where
  "colon_join [] = []"
| "colon_join [g] = group_text g"
| "colon_join (g # h # gs) = group_text g @ '':'' @ colon_join (h # gs)"

definition colon_each :: "u16 list \<Rightarrow> string" where
  "colon_each gs = concat (map (\<lambda>g. '':'' @ group_text g) gs)"

lemma colon_join_Cons: "colon_join (g # gs) = group_text g @ colon_each gs"
  by (induction gs arbitrary: g) (auto simp: colon_each_def)

text \<open>The text without brackets: the first run of zero groups is written as two colons.\<close>

definition ipv6_text :: "u16 list \<Rightarrow> string" where
  "ipv6_text gs =
     (let p = takeWhile (\<lambda>g. g \<noteq> 0) gs; r = dropWhile (\<lambda>g. g \<noteq> 0) gs
      in if r = [] then colon_join p
         else colon_join p @ ''::'' @ colon_join (dropWhile (\<lambda>g. g = 0) r))"

lemma insert_used:
  "0 < i \<Longrightarrow> IPv6_insert_loop addr [i..<length addr] True os = (os @ colon_each (drop i addr), True)"
proof (induction "length addr - i" arbitrary: i os)
  case 0
  then show ?case by (simp add: colon_each_def)
next
  case (Suc k)
  then have i: "i < length addr" by simp
  then show ?case using Suc.hyps(1) [of "Suc i"] Suc.hyps(2) Suc.prems
    by (simp add: upt_conv_Cons Cons_nth_drop_Suc [symmetric] colon_each_def)
qed

lemma insert_in_zeros:
  assumes "0 < i" "i \<le> length addr" "addr ! (i - 1) = 0"
  shows "IPv6_insert_loop addr [i..<length addr] False os =
    (let q = dropWhile (\<lambda>g. g = 0) (drop i addr) in if q = [] then (os, False) else (os @ ''::'' @ colon_join q, True))"
  using assms
proof (induction "length addr - i" arbitrary: i)
  case 0
  then show ?case by simp
next
  case (Suc k)
  then have i: "i < length addr" by simp
  show ?case
  proof (cases "addr ! i = 0")
    case True
    then show ?thesis using i Suc.hyps(1) [of "Suc i"] Suc.hyps(2) Suc.prems
      by (simp add: upt_conv_Cons Cons_nth_drop_Suc [symmetric])
  next
    case False
    then show ?thesis using i Suc.prems insert_used [of "Suc i" addr]
      by (simp add: upt_conv_Cons Cons_nth_drop_Suc [symmetric] colon_join_Cons)
  qed
qed

lemma insert_before_zeros:
  assumes "0 < i" "i \<le> length addr" "addr ! (i - 1) \<noteq> 0"
  shows "IPv6_insert_loop addr [i..<length addr] False os =
    (let p = takeWhile (\<lambda>g. g \<noteq> 0) (drop i addr); q = dropWhile (\<lambda>g. g = 0) (dropWhile (\<lambda>g. g \<noteq> 0) (drop i addr))
     in if q = [] then (os @ colon_each p, False) else (os @ colon_each p @ ''::'' @ colon_join q, True))"
  using assms
proof (induction "length addr - i" arbitrary: i os)
  case 0
  then show ?case by (simp add: colon_each_def)
next
  case (Suc k)
  then have i: "i < length addr" by simp
  show ?case
  proof (cases "addr ! i = 0")
    case True
    then show ?thesis using i insert_in_zeros [of "Suc i" addr os]
      by (simp add: upt_conv_Cons Cons_nth_drop_Suc [symmetric] colon_each_def)
  next
    case False
    have u: "[i..<length addr] = i # [Suc i..<length addr]" using i by (simp add: upt_conv_Cons)
    have d: "drop i addr = addr ! i # drop (Suc i) addr" using i by (simp add: Cons_nth_drop_Suc)
    have step: "IPv6_insert_loop addr [i..<length addr] False os =
        IPv6_insert_loop addr [Suc i..<length addr] False (os @ '':'' @ group_text (addr ! i))"
      unfolding u using False Suc.prems by simp
    have ih: "IPv6_insert_loop addr [Suc i..<length addr] False os' =
      (let p = takeWhile (\<lambda>g. g \<noteq> 0) (drop (Suc i) addr);
           q = dropWhile (\<lambda>g. g = 0) (dropWhile (\<lambda>g. g \<noteq> 0) (drop (Suc i) addr))
       in if q = [] then (os' @ colon_each p, False) else (os' @ colon_each p @ ''::'' @ colon_join q, True))" for os'
      by (rule Suc.hyps(1)) (use i False Suc.hyps(2) in simp_all)
    show ?thesis unfolding step ih d using False
      by (simp add: colon_each_def Let_def del: dropWhile_eq_Nil_conv)
  qed
qed

lemma insert_all:
  assumes "addr \<noteq> []"
  shows "IPv6_insert_loop addr [0..<length addr] False os =
    (let p = takeWhile (\<lambda>g. g \<noteq> 0) addr; q = dropWhile (\<lambda>g. g = 0) (dropWhile (\<lambda>g. g \<noteq> 0) addr)
     in if q = [] then (os @ colon_join p, False) else (os @ colon_join p @ ''::'' @ colon_join q, True))"
proof -
  have tw: "takeWhile P addr = (if P (addr ! 0) then addr ! 0 # takeWhile P (drop 1 addr) else [])"
    and dw: "dropWhile P addr = (if P (addr ! 0) then dropWhile P (drop 1 addr) else addr)" for P
    using assms by (cases addr; simp)+
  have u: "[0..<length addr] = 0 # [1..<length addr]" using assms by (simp add: upt_conv_Cons)
  have len: "1 \<le> length addr" using assms by (cases addr) auto
  show ?thesis
  proof (cases "addr ! 0 = 0")
    case True
    then show ?thesis using insert_in_zeros [of 1 addr os] len unfolding u tw dw
      by (simp add: dw Let_def del: dropWhile_eq_Nil_conv)
  next
    case False
    then show ?thesis using insert_before_zeros [of 1 addr "os @ group_text (addr ! 0)"] len unfolding u tw dw
      by (simp add: colon_join_Cons Let_def del: dropWhile_eq_Nil_conv)
  qed
qed

lemma dropWhile_zeros_Nil: "dropWhile (\<lambda>g. g = 0) r = [] \<Longrightarrow> r \<noteq> [] \<Longrightarrow> last r = (0 :: u16)"
  by (simp add: dropWhile_eq_Nil_conv)

lemma last_dropWhile: "dropWhile P xs \<noteq> [] \<Longrightarrow> last (dropWhile P xs) = last xs"
  by (metis last_appendR takeWhile_dropWhile_id)

lemma IPv6_insert_text:
  "IPv6_insert a = ''['' @ ipv6_text (groups a) @ '']:'' @ nat_to_string (unat (IPv6_getPort a))"
proof -
  let ?g = "groups a" and ?r = "dropWhile (\<lambda>g. g \<noteq> 0) (groups a)"
  have len: "length ?g = 8" by (simp add: groups_def)
  then have ne: "?g \<noteq> []" by auto
  have last: "last ?g = ?g ! 7" using last_conv_nth [OF ne] len by simp
  have zero: "?g ! 7 = 0" if "?r \<noteq> []" "dropWhile (\<lambda>g. g = 0) ?r = []"
    using dropWhile_zeros_Nil [OF that(2,1)] last_dropWhile [OF that(1)] last by simp
  have nonzero: "?g ! 7 \<noteq> 0" if "?r = []"
    using that last_in_set [OF ne] last by (auto simp: dropWhile_eq_Nil_conv)
  show ?thesis
    unfolding IPv6_insert_def Let_def insert_all [OF ne, unfolded len] IPv6_getPort_def ipv6_text_def
    using zero nonzero by (cases "?r = []"; cases "dropWhile (\<lambda>g. g = 0) ?r = []")
      (simp_all add: Let_def del: dropWhile_eq_Nil_conv)
qed

section \<open>Host strings\<close>

lemma memchr_None [simp]: "memchr s c = None \<longleftrightarrow> c \<notin> set s"
  by (induction s) auto

lemma memchr_first [simp]: "c \<notin> set u \<Longrightarrow> memchr (u @ c # v) c = Some (length u)"
  by (induction u) auto

lemma node_service_plain:
  assumes "CHR '':'' \<notin> set host" "host = [] \<or> hd host \<noteq> CHR ''[''"
  shows "node_service host = (host, None)"
proof -
  have "colon_part host = ([], None)" using memchr_None [of host "CHR '':''"] assms(1)
    by (simp add: colon_part_def del: memchr_None)
  then show ?thesis using assms(2) by (auto simp: node_service_def bracket_part_def)
qed

lemma node_service_port:
  assumes "CHR '':'' \<notin> set node" "node \<noteq> []" "hd node \<noteq> CHR ''[''" "CHR '':'' \<notin> set service"
  shows "node_service (node @ '':'' @ service) = (node, Some service)"
proof -
  have "memchr service (CHR '':'') = None" using assms(4) by simp
  then show ?thesis using assms by (simp add: node_service_def bracket_part_def colon_part_def)
qed

lemma node_service_bracket:
  assumes "CHR '']'' \<notin> set node" "node \<noteq> []"
  shows "node_service (''['' @ node @ '']'') = (node, None)"
    "node_service (''['' @ node @ '']:'' @ service) = (node, Some service)"
  using assms memchr_first [OF assms(1), of "[]"] memchr_first [OF assms(1), of "CHR '':'' # service"]
  by (simp_all add: node_service_def bracket_part_def)

text \<open>An IPv6 literal without brackets keeps its tail from the first colon on as the service.\<close>

lemma node_service_bare_ipv6:
  assumes "CHR '':'' \<notin> set u" "u = [] \<or> hd u \<noteq> CHR ''[''" "CHR '':'' \<in> set v"
  shows "node_service (u @ '':'' @ v) = (u @ '':'' @ v, Some ('':'' @ v))"
proof -
  have "memchr v (CHR '':'') \<noteq> None" using assms(3) by simp
  then show ?thesis using assms(1,2)
    by (cases u) (auto simp: node_service_def bracket_part_def colon_part_def memchr_first [of _ "[]", simplified])
qed

end
