(* ===== verification/FdManager.thy ===== *)
theory FdManager
  imports Cpp_Prelude
begin

text \<open>
  \<^verbatim>\<open>src/myhttp/fd_manager.h\<close> and \<^verbatim>\<open>fd_manager.cpp\<close>: the contexts the hooks keep per file descriptor
  and the table that holds them.  The descriptors of the kernel, as far as \<open>fstat\<close> and
  \<open>fcntl\<close> see them, are a map from numbers to kind and status flags; a descriptor outside it makes
  these calls return -1.  A \<open>FdCtx::ptr\<close> that \<open>get\<close> returns points to the entry of the table, so the
  setters are updates of the table.
\<close>

section \<open>Descriptors\<close>

record descriptor =
  d_socket :: bool
  d_flags :: u32

type_synonym kernel_fds = "int \<rightharpoonup> descriptor"

definition O_NONBLOCK :: u32 where "O_NONBLOCK = 0x800"

text \<open>The flags \<open>F_SETFL\<close> can change: \<open>O_APPEND\<close>, \<open>O_NONBLOCK\<close>, \<open>O_ASYNC\<close>, \<open>O_DIRECT\<close>, \<open>O_NOATIME\<close>.\<close>

definition SETFL_MASK :: u32 where "SETFL_MASK = 0x46C00"

definition fcntl_getfl :: "int \<Rightarrow> kernel_fds \<Rightarrow> u32" where
  "fcntl_getfl fd k = (case k fd of None \<Rightarrow> - 1 | Some d \<Rightarrow> d_flags d)"

definition fcntl_setfl :: "int \<Rightarrow> u32 \<Rightarrow> kernel_fds \<Rightarrow> u32 \<times> kernel_fds" where
  "fcntl_setfl fd arg k =
     (case k fd of
        None \<Rightarrow> (- 1, k)
      | Some d \<Rightarrow> (0, k(fd \<mapsto> d\<lparr>d_flags := (d_flags d AND NOT SETFL_MASK) OR (arg AND SETFL_MASK)\<rparr>)))"

section \<open>FdCtx\<close>

record FdCtx =
  m_isInit :: bool
  m_isSocket :: bool
  m_sysNonblock :: bool
  m_userNonblock :: bool
  m_isClosed :: bool
  m_fd :: int
  m_recvTimeout :: u64
  m_sendTimeout :: u64

definition FdCtx_init :: "kernel_fds \<Rightarrow> FdCtx \<Rightarrow> (bool \<times> FdCtx) \<times> kernel_fds" where
  "FdCtx_init k ctx =
     (if m_isInit ctx then ((True, ctx), k)
      else let ctx = ctx\<lparr>m_recvTimeout := - 1, m_sendTimeout := - 1\<rparr>;
               ctx = (case k (m_fd ctx) of
                        None \<Rightarrow> ctx\<lparr>m_isInit := False, m_isSocket := False\<rparr>
                      | Some d \<Rightarrow> ctx\<lparr>m_isInit := True, m_isSocket := d_socket d\<rparr>);
               (ctx, k) =
                 (if m_isSocket ctx
                  then let flags = fcntl_getfl (m_fd ctx) k;
                           k = (if flags AND O_NONBLOCK = 0
                                then snd (fcntl_setfl (m_fd ctx) (flags OR O_NONBLOCK) k) else k)
                       in (ctx\<lparr>m_sysNonblock := True\<rparr>, k)
                  else (ctx\<lparr>m_sysNonblock := False\<rparr>, k));
               ctx = ctx\<lparr>m_userNonblock := False, m_isClosed := False\<rparr>
           in ((m_isInit ctx, ctx), k))"

definition new_FdCtx :: "kernel_fds \<Rightarrow> int \<Rightarrow> FdCtx \<times> kernel_fds" where
  "new_FdCtx k fd =
     (let ((_, ctx), k) = FdCtx_init k
        \<lparr>m_isInit = False, m_isSocket = False, m_sysNonblock = False, m_userNonblock = False,
         m_isClosed = False, m_fd = fd, m_recvTimeout = - 1, m_sendTimeout = - 1\<rparr>
      in (ctx, k))"

definition FdCtx_close :: "FdCtx \<Rightarrow> bool" where
  "FdCtx_close ctx = True"

definition SO_RCVTIMEO :: int where "SO_RCVTIMEO = 20"
definition SO_SNDTIMEO :: int where "SO_SNDTIMEO = 21"

definition setTimeout :: "int \<Rightarrow> u64 \<Rightarrow> FdCtx \<Rightarrow> FdCtx" where
  "setTimeout type v ctx =
     (if type = SO_RCVTIMEO then ctx\<lparr>m_recvTimeout := v\<rparr> else ctx\<lparr>m_sendTimeout := v\<rparr>)"

definition getTimeout :: "int \<Rightarrow> FdCtx \<Rightarrow> u64" where
  "getTimeout type ctx = (if type = SO_RCVTIMEO then m_recvTimeout ctx else m_sendTimeout ctx)"

definition setUserNonblock :: "bool \<Rightarrow> FdCtx \<Rightarrow> FdCtx" where
  "setUserNonblock v ctx = ctx\<lparr>m_userNonblock := v\<rparr>"

definition setSysNonblock :: "bool \<Rightarrow> FdCtx \<Rightarrow> FdCtx" where
  "setSysNonblock v ctx = ctx\<lparr>m_sysNonblock := v\<rparr>"

section \<open>FdManager\<close>

type_synonym FdManager = "FdCtx option list"

definition new_FdManager :: FdManager where
  "new_FdManager = replicate 64 None"

text \<open>The element access of \<open>std::vector\<close> is unchecked: an index outside is the error.\<close>

definition fd_get :: "kernel_fds \<Rightarrow> FdManager \<Rightarrow> int \<Rightarrow> bool \<Rightarrow> (FdCtx option \<times> FdManager \<times> kernel_fds) result"
where
  "fd_get k m fd auto_create =
     (let create = (let (ctx, k') = new_FdCtx k fd
                    in if 0 \<le> fd \<and> fd < int (length m) then Inr (Some ctx, m[nat fd := Some ctx], k')
                       else Inl OutOfBounds)
      in if fd = - 1 then Inr (None, m, k)
         else if int (length m) \<le> fd then (if \<not> auto_create then Inr (None, m, k) else create)
         else if fd < 0 then Inl OutOfBounds
         else if m ! nat fd \<noteq> None \<or> \<not> auto_create then Inr (m ! nat fd, m, k)
         else create)"

definition fd_del :: "FdManager \<Rightarrow> int \<Rightarrow> FdManager" where
  "fd_del m fd = m"

text \<open>A setter applied through the pointer that \<open>get\<close> returned.\<close>

definition fd_update :: "FdManager \<Rightarrow> int \<Rightarrow> (FdCtx \<Rightarrow> FdCtx) \<Rightarrow> FdManager" where
  "fd_update m fd f = m[nat fd := map_option f (m ! nat fd)]"

section \<open>Lemmas\<close>

text \<open>An entry describes its own descriptor; on a socket the hook keeps the kernel flag set.\<close>

definition fd_entry_ok :: "int \<Rightarrow> FdCtx \<Rightarrow> bool" where
  "fd_entry_ok fd ctx \<longleftrightarrow> m_fd ctx = fd \<and> m_sysNonblock ctx = m_isSocket ctx \<and> \<not> m_isClosed ctx"

definition fdm_inv :: "FdManager \<Rightarrow> bool" where
  "fdm_inv m \<longleftrightarrow> length m = 64
     \<and> (\<forall>i < length m. case m ! i of None \<Rightarrow> True | Some ctx \<Rightarrow> fd_entry_ok (int i) ctx)"

lemma new_FdManager_inv [inv_intros]: "fdm_inv new_FdManager"
  by (simp add: fdm_inv_def new_FdManager_def)

lemma fdm_invD:
  assumes "fdm_inv m" "0 \<le> fd" "fd < 64" "m ! nat fd = Some ctx"
  shows "fd_entry_ok fd ctx"
proof -
  have "case m ! nat fd of None \<Rightarrow> True | Some ctx \<Rightarrow> fd_entry_ok (int (nat fd)) ctx"
    using assms(1-3) unfolding fdm_inv_def by auto
  then show ?thesis using assms(2,4) by simp
qed

lemma O_NONBLOCK_settable: "O_NONBLOCK AND SETFL_MASK = O_NONBLOCK"
  by (simp add: O_NONBLOCK_def SETFL_MASK_def)

lemma O_NONBLOCK_nonzero: "O_NONBLOCK \<noteq> 0"
  by (simp add: O_NONBLOCK_def)

lemma O_NONBLOCK_bit: "O_NONBLOCK = push_bit 11 1"
  by (simp add: O_NONBLOCK_def)

lemma bit_O_NONBLOCK [simp]: "bit O_NONBLOCK n \<longleftrightarrow> n = 11"
  by (auto simp: O_NONBLOCK_bit bit_simps simp del: push_bit_of_1)

text \<open>One bit masks: a flag is set or clear.\<close>

definition nonblocking :: "u32 \<Rightarrow> bool" where
  "nonblocking flags \<longleftrightarrow> flags AND O_NONBLOCK \<noteq> 0"

lemma nonblocking_bit: "nonblocking flags \<longleftrightarrow> bit flags 11"
  by (auto simp: nonblocking_def bit_eq_iff [of "flags AND O_NONBLOCK" 0] bit_and_iff)

lemma bit_SETFL_MASK: "bit SETFL_MASK 11"
  by (simp add: SETFL_MASK_def)

lemma new_FdCtx_ok:
  assumes "new_FdCtx k fd = (ctx, k')"
  shows "fd_entry_ok fd ctx" "m_isSocket ctx = (case k fd of None \<Rightarrow> False | Some d \<Rightarrow> d_socket d)"
    "m_isInit ctx = (k fd \<noteq> None)" "\<not> m_userNonblock ctx" "m_recvTimeout ctx = - 1" "m_sendTimeout ctx = - 1"
    "k' = (case k fd of None \<Rightarrow> k
           | Some d \<Rightarrow> if d_socket d \<and> \<not> nonblocking (d_flags d)
                       then snd (fcntl_setfl fd (d_flags d OR O_NONBLOCK) k) else k)"
  using assms
  by (auto simp: new_FdCtx_def FdCtx_init_def Let_def fd_entry_ok_def fcntl_getfl_def nonblocking_def
      split: option.splits if_splits)

lemma fd_get_cases:
  assumes "fdm_inv m"
  shows "fd_get k m fd auto_create =
    (if fd = - 1 \<or> 64 \<le> fd \<and> \<not> auto_create then Inr (None, m, k)
     else if fd < 0 \<or> 64 \<le> fd then Inl OutOfBounds
     else if m ! nat fd \<noteq> None \<or> \<not> auto_create then Inr (m ! nat fd, m, k)
     else let (ctx, k') = new_FdCtx k fd in Inr (Some ctx, m[nat fd := Some ctx], k'))"
  using assms by (auto simp: fd_get_def Let_def fdm_inv_def split: prod.splits)

lemma fd_get_inv:
  assumes "fdm_inv m" "fd_get k m fd auto_create = Inr (r, m', k')"
  shows "fdm_inv m'"
proof -
  have upd: "fdm_inv (m[nat fd := Some ctx])" if "new_FdCtx k fd = (ctx, k2)" "0 \<le> fd" "fd < 64" for ctx k2
    using assms(1) new_FdCtx_ok(1) [OF that(1)] that(2,3) by (auto simp: fdm_inv_def nth_list_update)
  then show ?thesis using assms unfolding fd_get_cases [OF assms(1)]
    by (auto simp: Let_def split: if_splits prod.splits)
qed

lemma fd_update_inv:
  assumes "fdm_inv m" "0 \<le> fd" "fd < 64" "\<And>ctx. fd_entry_ok fd ctx \<Longrightarrow> fd_entry_ok fd (f ctx)"
  shows "fdm_inv (fd_update m fd f)"
  using assms by (auto simp: fdm_inv_def fd_update_def nth_list_update split: option.splits)

end
