(* ===== verification/Ragel.thy ===== *)
theory Ragel
  imports Cpp_String
begin

text \<open>
  The code Ragel generates (\<^verbatim>\<open>http11_parser.rl.cc\<close>, \<^verbatim>\<open>httpclient_parser.rl.cc\<close>, \<^verbatim>\<open>uri.rl.cc\<close>): one \<open>switch\<close>
  over the state with gotos between labelled blocks.  A block is a state, with its tests on the
  character in order and the label taken when none applies, or a transition, with its actions and the state
  it enters.  \<open>ragel_exec\<close> runs the blocks over a buffer the way the gotos do.
\<close>

section \<open>Blocks\<close>

text \<open>\<open>St n\<close> is the label \<open>st\<open>n\<close>\<close>, \<open>Tr n\<close> the label \<open>tr\<open>n\<close>\<close>.  The tests of \<open>Case\<close> are intervals of the
  character or, for the characters listed first, of \<open>_widec\<close>.\<close>

datatype label = St nat | Tr nat

datatype 'a block =
    Case nat "int list" "(int \<times> int \<times> label) list" label
  | Trans nat "'a list" nat

text \<open>\<open>char\<close> is signed.\<close>

definition char_value :: "char \<Rightarrow> int" where
  "char_value c = (let n = of_char c in if n < 128 then n else n - 256)"

text \<open>A condition on \<open>uri_relaxed\<close> moves the character out of the range of \<open>char\<close>.\<close>

definition widec :: "bool \<Rightarrow> int list \<Rightarrow> int \<Rightarrow> int" where
  "widec relaxed ws v = (if v \<in> set ws then 128 + (v + 128) + (if relaxed then 256 else 0) else v)"

fun label_of :: "(int \<times> int \<times> label) list \<Rightarrow> label \<Rightarrow> int \<Rightarrow> label" where
  "label_of [] d v = d"
| "label_of ((lo, hi, l) # rows) d v = (if lo \<le> v \<and> v \<le> hi then l else label_of rows d v)"

fun find_case :: "'a block list \<Rightarrow> nat \<Rightarrow> (int list \<times> (int \<times> int \<times> label) list \<times> label) option" where
  "find_case [] n = None"
| "find_case (Case m ws rows d # bs) n = (if m = n then Some (ws, rows, d) else find_case bs n)"
| "find_case (Trans m as t # bs) n = find_case bs n"

fun transitions :: "'a block list \<Rightarrow> (nat \<times> 'a list \<times> nat) list" where
  "transitions [] = []"
| "transitions (Case m ws rows d # bs) = transitions bs"
| "transitions (Trans m as t # bs) = (m, as, t) # transitions bs"

fun target :: "(nat \<times> 'a list \<times> nat) list \<Rightarrow> label \<Rightarrow> ('a list \<times> nat) option" where
  "target ts (St n) = Some ([], n)"
| "target ts (Tr m) = map_of ts m"

text \<open>What state \<open>n\<close> does with a character: the actions of the transition and the state entered.\<close>

definition ragel_step :: "'a block list \<Rightarrow> bool \<Rightarrow> nat \<Rightarrow> char \<Rightarrow> ('a list \<times> nat) option" where
  "ragel_step bs relaxed n c =
     (case find_case bs n of
        None \<Rightarrow> None
      | Some (ws, rows, d) \<Rightarrow> target (transitions bs) (label_of rows d (widec relaxed ws (char_value c))))"

text \<open>A conversion to \<open>int\<close>.\<close>

definition to_int :: "int \<Rightarrow> int" where
  "to_int v = sint (word_of_int v :: u32)"

section \<open>Execution\<close>

text \<open>\<open>fbreak\<close> inside an action leaves the machine behind the current character.\<close>

fun run_actions :: "('a \<Rightarrow> nat \<Rightarrow> 'x \<Rightarrow> 'x result) \<Rightarrow> ('a \<Rightarrow> bool) \<Rightarrow> 'a list \<Rightarrow> nat \<Rightarrow> 'x \<Rightarrow> (bool \<times> 'x) result" where
  "run_actions act brk [] p x = Inr (False, x)"
| "run_actions act brk (a # as) p x =
     bindR (act a p x) (\<lambda>x. if brk a then Inr (True, x) else run_actions act brk as p x)"

text \<open>State, position, rest of the buffer.  The error state 0 keeps the position of the offending character; the
  end of the buffer keeps the state.\<close>

fun ragel_exec ::
  "(nat \<Rightarrow> char \<Rightarrow> ('a list \<times> nat) option) \<Rightarrow> ('a \<Rightarrow> nat \<Rightarrow> 'x \<Rightarrow> 'x result) \<Rightarrow> ('a \<Rightarrow> bool)
     \<Rightarrow> nat \<Rightarrow> nat \<Rightarrow> string \<Rightarrow> 'x \<Rightarrow> (nat \<times> nat \<times> 'x) result" where
  "ragel_exec step act brk cs p [] x = Inr (cs, p, x)"
| "ragel_exec step act brk cs p (c # s) x =
     (case step cs c of
        None \<Rightarrow> Inr (cs, p, x)
      | Some (as, cs') \<Rightarrow>
          if cs' = 0 then Inr (0, p, x)
          else bindR (run_actions act brk as p x) (\<lambda>(done, x).
                 if done then Inr (cs', p + 1, x) else ragel_exec step act brk cs' (p + 1) s x))"

section \<open>Lemmas\<close>

declare target.simps(2) [simp del]

lemma to_int_small: "- (2 ^ 31) \<le> v \<Longrightarrow> v < 2 ^ 31 \<Longrightarrow> to_int v = v"
  by (simp add: to_int_def signed_of_int signed_take_bit_int_eq_self)

lemma to_int_nat:
  assumes "n < 2 ^ 31"
  shows "to_int (int n) = int n"
proof (rule to_int_small)
  show "int n < 2 ^ 31" using assms by (metis of_nat_less_iff of_nat_numeral of_nat_power)
qed simp

lemma find_case_append:
  "find_case (xs @ ys) n = (case find_case xs n of None \<Rightarrow> find_case ys n | Some r \<Rightarrow> Some r)"
  by (induction xs n rule: find_case.induct) auto

text \<open>Looking a state up in a table of many parts: the parts that do not have it are skipped by their numbers.\<close>

fun numbers :: "'a block list \<Rightarrow> nat list" where
  "numbers [] = []"
| "numbers (Case m ws rows d # bs) = m # numbers bs"
| "numbers (Trans m as t # bs) = numbers bs"

lemma find_case_None: "n \<notin> set (numbers bs) \<Longrightarrow> find_case bs n = None"
  by (induction bs n rule: find_case.induct) auto

lemma transitions_append: "transitions (xs @ ys) = transitions xs @ transitions ys"
  by (induction xs rule: transitions.induct) auto

text \<open>A property of all transitions of a table, checked row by row.\<close>

fun all_steps :: "(nat \<Rightarrow> 'a list \<Rightarrow> nat \<Rightarrow> bool) \<Rightarrow> (nat \<times> 'a list \<times> nat) list \<Rightarrow> 'a block list \<Rightarrow> bool" where
  "all_steps P ts [] = True"
| "all_steps P ts (Trans m as t # bs) = all_steps P ts bs"
| "all_steps P ts (Case n ws rows d # bs) \<longleftrightarrow>
     list_all (\<lambda>l. case target ts l of None \<Rightarrow> False | Some (as, n') \<Rightarrow> P n as n') (d # map (\<lambda>(lo, hi, l). l) rows)
     \<and> all_steps P ts bs"

lemma all_steps_append: "all_steps P ts (xs @ ys) \<longleftrightarrow> all_steps P ts xs \<and> all_steps P ts ys"
  by (induction P ts xs rule: all_steps.induct) auto

lemma label_of_in: "label_of rows d v \<in> set (d # map (\<lambda>(lo, hi, l). l) rows)"
  by (induction rows d v rule: label_of.induct) auto

lemma all_steps_case:
  assumes "all_steps P ts bs" "find_case bs n = Some (ws, rows, d)"
  shows "\<exists>as n'. target ts (label_of rows d v) = Some (as, n') \<and> P n as n'"
  using assms
proof (induction bs n rule: find_case.induct)
  case (2 m ws' rows' d' bs n)
  show ?case
  proof (cases "m = n")
    case True
    then have "list_all (\<lambda>l. case target ts l of None \<Rightarrow> False | Some (as, n') \<Rightarrow> P n as n') (d # map (\<lambda>(lo, hi, l). l) rows)"
      using 2(2,3) by (simp add: list_all_iff)
    then have "case target ts (label_of rows d v) of None \<Rightarrow> False | Some (as, n') \<Rightarrow> P n as n'"
      using label_of_in [of rows d v] unfolding list_all_iff by blast
    then show ?thesis by (auto split: option.splits prod.splits)
  qed (use 2 in auto)
qed auto

lemma ragel_stepD:
  assumes "all_steps P (transitions bs) bs" "ragel_step bs relaxed n c = Some (as, n')"
  shows "P n as n'"
proof -
  obtain ws rows d where c: "find_case bs n = Some (ws, rows, d)"
      "target (transitions bs) (label_of rows d (widec relaxed ws (char_value c))) = Some (as, n')"
    using assms(2) by (auto simp: ragel_step_def split: option.splits prod.splits)
  show ?thesis using all_steps_case [OF assms(1) c(1)] c(2) by (metis option.inject prod.inject)
qed

text \<open>The position stays in the buffer.\<close>

lemma ragel_exec_position:
  "ragel_exec step act brk cs p s x = Inr (cs', p', x') \<Longrightarrow> p \<le> p' \<and> p' \<le> p + length s"
proof (induction step act brk cs p s x rule: ragel_exec.induct)
  case (2 step act brk cs p c s x)
  show ?case
  proof (cases "step cs c")
    case None
    then show ?thesis using 2(2) by simp
  next
    case (Some a)
    obtain as t where a: "a = (as, t)" by (cases a)
    show ?thesis
    proof (cases "t = 0")
      case True
      then show ?thesis using 2(2) Some a by simp
    next
      case False
      then obtain fin y where y: "run_actions act brk as p x = Inr (fin, y)" using 2(2) Some a by (auto simp: result_iff)
      show ?thesis
      proof (cases fin)
        case True
        then show ?thesis using 2(2) Some a False y by simp
      next
        case fin: False
        have "p + 1 \<le> p' \<and> p' \<le> p + 1 + length s"
          by (rule 2(1) [OF Some a [symmetric] False y refl fin]) (use 2(2) Some a False y fin in simp)
        then show ?thesis by simp
      qed
    qed
  qed
qed auto

text \<open>A loop that takes a stretch of characters without an action.\<close>

lemma ragel_exec_loop:
  assumes "\<And>c. c \<in> set w \<Longrightarrow> step n c = Some ([], n)" "n \<noteq> 0"
  shows "ragel_exec step act brk n p (w @ s) x = ragel_exec step act brk n (p + length w) s x"
  using assms(1)
proof (induction w arbitrary: p)
  case (Cons c w)
  then show ?case using assms(2) by simp
qed simp

text \<open>One step with actions that neither fail nor leave the machine.\<close>

lemma ragel_exec_step:
  assumes "step n c = Some (as, n')" "n' \<noteq> 0" "run_actions act brk as p x = Inr (False, y)"
  shows "ragel_exec step act brk n p (c # s) x = ragel_exec step act brk n' (Suc p) s y"
  using assms by simp

text \<open>The rule for an execution: \<open>I\<close> holds while it runs, \<open>J\<close> where it stops.\<close>

lemma ragel_exec_rule:
  assumes "I cs p x" "p + length s = e"
    and keep: "\<And>n p c x as t. step n c = Some (as, t) \<Longrightarrow> t \<noteq> 0 \<Longrightarrow> I n p x \<Longrightarrow> p < e
      \<Longrightarrow> \<exists>fin y. run_actions act brk as p x = Inr (fin, y) \<and> (if fin then J t (Suc p) y else I t (Suc p) y)"
    and halt: "\<And>n p x. I n p x \<Longrightarrow> J n p x"
    and stop: "\<And>n p x. I n p x \<Longrightarrow> J 0 p x"
  shows "\<exists>cs' p' x'. ragel_exec step act brk cs p s x = Inr (cs', p', x') \<and> p \<le> p' \<and> p' \<le> e \<and> J cs' p' x'"
  using assms(1,2)
proof (induction s arbitrary: cs p x)
  case Nil
  then show ?case using halt by auto
next
  case (Cons c s)
  show ?case
  proof (cases "step cs c")
    case None
    then show ?thesis using Cons.prems halt by auto
  next
    case (Some a)
    obtain as t where a: "a = (as, t)" by (cases a)
    show ?thesis
    proof (cases "t = 0")
      case True
      then show ?thesis using Some a Cons.prems stop by auto
    next
      case False
      obtain fin y where y: "run_actions act brk as p x = Inr (fin, y)" "if fin then J t (Suc p) y else I t (Suc p) y"
        using keep [OF Some [unfolded a] False Cons.prems(1)] Cons.prems(2) by auto
      show ?thesis
      proof (cases fin)
        case True
        then show ?thesis using y Some a False Cons.prems(2) by auto
      next
        case fin: False
        then have "I t (Suc p) y" "Suc p + length s = e" using y(2) Cons.prems(2) by simp_all
        from Cons.IH [OF this] show ?thesis using y(1) Some a False fin by auto
      qed
    qed
  qed
qed

section \<open>Character classes\<close>

text \<open>A class of characters, as intervals, and the labels a state takes on it: the tests are decided on the
  intervals.\<close>

definition in_class :: "(int \<times> int) list \<Rightarrow> char \<Rightarrow> bool" where
  "in_class cls c \<longleftrightarrow> list_ex (\<lambda>(lo, hi). lo \<le> char_value c \<and> char_value c \<le> hi) cls"

fun labels_on :: "(int \<Rightarrow> int \<Rightarrow> label \<Rightarrow> bool) \<Rightarrow> (int \<times> int \<times> label) list \<Rightarrow> label \<Rightarrow> int \<Rightarrow> int \<Rightarrow> bool" where
  "labels_on P [] d lo hi \<longleftrightarrow> P lo hi d"
| "labels_on P ((a, b, m) # rows) d lo hi =
     (if hi < a \<or> b < lo then labels_on P rows d lo hi
      else if \<not> P (if lo < a then a else lo) (if b < hi then b else hi) m then False
      else if lo < a \<and> b < hi then labels_on P rows d lo (a - 1) \<and> labels_on P rows d (b + 1) hi
      else if lo < a then labels_on P rows d lo (a - 1)
      else if b < hi then labels_on P rows d (b + 1) hi else True)"

lemma labels_on_label_of:
  "labels_on P rows d lo hi \<Longrightarrow> lo \<le> v \<Longrightarrow> v \<le> hi \<Longrightarrow> \<exists>a b. a \<le> v \<and> v \<le> b \<and> P a b (label_of rows d v)"
proof (induction P rows d lo hi rule: labels_on.induct)
  case (2 P a b m rows d lo hi)
  consider "hi < a \<or> b < lo" | "\<not> (hi < a \<or> b < lo)" "v < a" | "\<not> (hi < a \<or> b < lo)" "b < v"
    | "\<not> (hi < a \<or> b < lo)" "a \<le> v" "v \<le> b"
    by linarith
  then show ?case
  proof cases
    case 4
    then have "P (if lo < a then a else lo) (if b < hi then b else hi) m" using "2.prems"(1) by (simp split: if_splits)
    moreover have "(if lo < a then a else lo) \<le> v" "v \<le> (if b < hi then b else hi)" using 4 "2.prems"(2,3) by auto
    ultimately show ?thesis using 4 by auto
  qed (use 2 in \<open>auto split: if_splits\<close>)
qed auto

text \<open>The transitions of state \<open>n\<close> on a class, with the part of the class that takes each label.\<close>

fun class_labels ::
  "int list \<Rightarrow> (int \<times> int \<times> label) list \<Rightarrow> label \<Rightarrow> (int \<times> int) list \<Rightarrow> (int \<Rightarrow> int \<Rightarrow> label \<Rightarrow> bool) \<Rightarrow> bool" where
  "class_labels ws rows d cls P =
     list_all (\<lambda>(lo, hi). list_all (\<lambda>w. w < lo \<or> hi < w) ws \<and> labels_on P rows d lo hi) cls"

definition steps_in :: "'a block list \<Rightarrow> nat \<Rightarrow> (int \<times> int) list \<Rightarrow> (int \<Rightarrow> int \<Rightarrow> label \<Rightarrow> bool) \<Rightarrow> bool" where
  "steps_in bs n cls P =
     (case find_case bs n of None \<Rightarrow> False | Some (ws, rows, d) \<Rightarrow> class_labels ws rows d cls P)"

lemma steps_in:
  assumes "steps_in bs n cls P" "in_class cls c"
  shows "\<exists>a b l. a \<le> char_value c \<and> char_value c \<le> b \<and> P a b l \<and> ragel_step bs relaxed n c = target (transitions bs) l"
proof -
  obtain ws rows d where f: "find_case bs n = Some (ws, rows, d)" "class_labels ws rows d cls P"
    using assms(1) by (auto simp: steps_in_def split: option.splits)
  obtain lo hi where i: "(lo, hi) \<in> set cls" "lo \<le> char_value c" "char_value c \<le> hi"
    using assms(2) by (auto simp: in_class_def list_ex_iff)
  have "char_value c \<notin> set ws" "labels_on P rows d lo hi" using f(2) i by (fastforce simp: list_all_iff)+
  then have "\<exists>a b. a \<le> char_value c \<and> char_value c \<le> b \<and> P a b (label_of rows d (widec relaxed ws (char_value c)))"
    using labels_on_label_of i(2,3) by (simp add: widec_def)
  then show ?thesis using f(1) by (auto simp: ragel_step_def)
qed

text \<open>The same for all states of a set, checked block by block.\<close>

fun all_cases :: "(nat \<Rightarrow> int list \<Rightarrow> (int \<times> int \<times> label) list \<Rightarrow> label \<Rightarrow> bool) \<Rightarrow> 'a block list \<Rightarrow> bool" where
  "all_cases P [] = True"
| "all_cases P (Trans m as t # bs) = all_cases P bs"
| "all_cases P (Case n ws rows d # bs) \<longleftrightarrow> P n ws rows d \<and> all_cases P bs"

lemma all_cases_append: "all_cases P (xs @ ys) \<longleftrightarrow> all_cases P xs \<and> all_cases P ys"
  by (induction P xs rule: all_cases.induct) auto

lemma all_cases_find: "all_cases P bs \<Longrightarrow> find_case bs n = Some (ws, rows, d) \<Longrightarrow> P n ws rows d"
  by (induction bs n rule: find_case.induct) (auto split: if_splits)

lemma numbers_append: "numbers (xs @ ys) = numbers xs @ numbers ys"
  by (induction xs rule: numbers.induct) auto

lemma numbers_find: "n \<in> set (numbers bs) \<Longrightarrow> find_case bs n \<noteq> None"
  by (induction bs n rule: find_case.induct) auto

lemma all_cases_steps_in:
  assumes "all_cases (\<lambda>n ws rows d. if S n then class_labels ws rows d cls (P n) else True) bs" "S n" "n \<in> set (numbers bs)"
  shows "steps_in bs n cls (P n)"
  using all_cases_find [OF assms(1)] numbers_find [OF assms(3)] assms(2)
  by (auto simp: steps_in_def simp del: class_labels.simps)

text \<open>One label for the whole class.\<close>

definition steps_on :: "'a block list \<Rightarrow> nat \<Rightarrow> (int \<times> int) list \<Rightarrow> label \<Rightarrow> bool" where
  "steps_on bs n cls l \<longleftrightarrow> steps_in bs n cls (\<lambda>a b l'. l' = l)"

lemmas steps_on_simps = steps_on_def steps_in_def

lemma steps_on:
  assumes "steps_on bs n cls l" "in_class cls c"
  shows "ragel_step bs relaxed n c = target (transitions bs) l"
  using steps_in [OF assms [unfolded steps_on_def]] by metis

text \<open>Words over a class with percent escapes.\<close>

definition hex_class :: "(int \<times> int) list" where "hex_class = [(48, 57), (65, 70), (97, 102)]"

fun escaped :: "(int \<times> int) list \<Rightarrow> string \<Rightarrow> bool" where
  "escaped cls [] = True"
| "escaped cls (c # s) =
     (if c = CHR ''%'' then (case s of a # b # t \<Rightarrow> in_class hex_class a \<and> in_class hex_class b \<and> escaped cls t | _ \<Rightarrow> False)
      else in_class cls c \<and> escaped cls s)"

lemma int_char_range: "0 \<le> (of_char c :: int)" "(of_char c :: int) < 256"
proof -
  have "(of_char c :: int) = int (of_char c)" by (simp add: of_nat_of_char)
  then show "0 \<le> (of_char c :: int)" "(of_char c :: int) < 256" using nat_of_char_less_256 [of c] by simp_all
qed

lemma char_value_inj: "char_value a = char_value b \<longleftrightarrow> a = b"
proof
  assume "char_value a = char_value b"
  moreover have "(of_char a :: int) = of_char b \<or> 256 \<le> \<bar>of_char a - of_char b :: int\<bar>"
    if "char_value a = char_value b" using that by (simp add: char_value_def Let_def split: if_splits)
  moreover have "\<bar>of_char a - of_char b :: int\<bar> < 256"
    using int_char_range [of a] int_char_range [of b] by linarith
  ultimately show "a = b" by force
qed simp

lemma percent_class: "in_class [(37, 37)] CHR ''%''"
  by (simp add: in_class_def char_value_def Let_def)

lemma escaped_first:
  assumes "escaped cls w" "w \<noteq> []"
  shows "hd w = CHR ''%'' \<and> (\<exists>a b t. w = CHR ''%'' # a # b # t \<and> in_class hex_class a \<and> in_class hex_class b \<and> escaped cls t)
    \<or> in_class cls (hd w) \<and> escaped cls (tl w)"
proof -
  obtain c s where w: "w = c # s" using assms(2) by (cases w) auto
  show ?thesis
  proof (cases "c = CHR ''%''")
    case True
    have e: "case s of a # b # t \<Rightarrow> in_class hex_class a \<and> in_class hex_class b \<and> escaped cls t | _ \<Rightarrow> False"
      using assms(1) unfolding w escaped.simps if_P [OF True] .
    then obtain a b t where "s = a # b # t" by (cases s; cases "tl s") auto
    then show ?thesis using e w True by auto
  next
    case False
    have "in_class cls c \<and> escaped cls s" using assms(1) unfolding w escaped.simps if_not_P [OF False] .
    then show ?thesis using w by simp
  qed
qed

end
