(* ===== verification/Http11_Table.thy ===== *)
theory Http11_Table
  imports Ragel
begin

text \<open>
  The blocks of \<^verbatim>\<open>http11_parser.rl.cc\<close>, in the order of the file, and its actions.
\<close>

datatype http_action =
    A_mark | A_start_field | A_write_field | A_start_value | A_write_value | A_request_method | A_request_uri
  | A_fragment | A_start_query | A_query_string | A_http_version | A_request_path | A_done | A_xml | A_json

definition http_parser_blocks_1 :: "http_action block list" where
  "http_parser_blocks_1 = [
    Case 1 [] [(60, 60, Tr 2), (64, 64, Tr 3), (65, 90, Tr 0), (48, 57, Tr 0)] (St 0),
    Trans 0 [A_mark] 2,
    Case 2 [] [(32, 32, Tr 4), (65, 90, St 175), (48, 57, St 175)] (St 0),
    Trans 4 [A_request_method] 3,
    Case 3 [94, 123, 125] [
      (32, 32, Tr 6), (33, 33, Tr 7), (35, 35, Tr 8), (37, 37, Tr 9), (47, 47, Tr 10), (59, 59, Tr 7),
      (61, 61, Tr 7), (63, 63, Tr 11), (64, 64, Tr 7), (95, 95, Tr 7), (126, 126, Tr 7), (606, 606, Tr 7),
      (635, 635, Tr 7), (637, 637, Tr 7), (36, 57, Tr 7), (97, 122, Tr 12), (65, 90, Tr 12)
      ] (St 0),
    Trans 6 [A_mark, A_request_path, A_request_uri] 4,
    Trans 37 [A_request_path, A_request_uri] 4,
    Trans 43 [A_mark, A_fragment] 4,
    Trans 46 [A_fragment] 4,
    Trans 53 [A_start_query, A_query_string, A_request_uri] 4]"

definition http_parser_blocks_2 :: "http_action block list" where
  "http_parser_blocks_2 = [
    Trans 57 [A_query_string, A_request_uri] 4,
    Case 4 [] [(72, 72, Tr 13)] (St 0),
    Trans 13 [A_mark] 5,
    Case 5 [] [(84, 84, St 6)] (St 0),
    Case 6 [] [(84, 84, St 7)] (St 0),
    Case 7 [] [(80, 80, St 8)] (St 0),
    Case 8 [] [(47, 47, St 9)] (St 0),
    Case 9 [] [(49, 49, St 10)] (St 0),
    Case 10 [] [(46, 46, St 11)] (St 0),
    Case 11 [] [(48, 49, St 12)] (St 0),
    Case 12 [] [(10, 10, Tr 21), (13, 13, Tr 22)] (St 0),
    Trans 21 [A_http_version] 13,
    Trans 30 [A_start_value, A_write_value] 13,
    Trans 33 [A_write_value] 13,
    Case 13 [] [
      (10, 10, Tr 24), (13, 13, Tr 25), (33, 33, Tr 23), (124, 124, Tr 23), (126, 126, Tr 23), (1, 8, Tr 23),
      (35, 39, Tr 23), (11, 31, Tr 23), (45, 46, Tr 23), (94, 122, Tr 23), (65, 90, Tr 23), (48, 57, Tr 23),
      (42, 43, Tr 23)
      ] (St 0)]"

definition http_parser_blocks_3 :: "http_action block list" where
  "http_parser_blocks_3 = [
    Trans 23 [A_start_field] 14,
    Case 14 [] [
      (33, 33, St 14), (58, 58, Tr 27), (124, 124, St 14), (126, 126, St 14), (1, 8, St 14), (35, 39, St 14),
      (10, 31, St 14), (45, 46, St 14), (94, 122, St 14), (65, 90, St 14), (48, 57, St 14), (42, 43, St 14)
      ] (St 0),
    Trans 27 [A_write_field] 15,
    Trans 29 [A_start_value] 15,
    Case 15 [] [
      (0, 0, St 0), (9, 9, Tr 29), (10, 10, Tr 30), (13, 13, Tr 31), (32, 32, Tr 29), (127, 127, St 0)
      ] (Tr 28),
    Trans 28 [A_start_value] 16,
    Case 16 [] [(0, 0, St 0), (10, 10, Tr 33), (13, 13, Tr 34), (127, 127, St 0)] (St 16),
    Trans 22 [A_http_version] 17,
    Trans 31 [A_start_value, A_write_value] 17,
    Trans 34 [A_write_value] 17,
    Case 17 [] [(10, 10, St 13)] (St 0),
    Trans 24 [A_start_field, A_done] 348]"

definition http_parser_blocks_4 :: "http_action block list" where
  "http_parser_blocks_4 = [
    Trans 36 [A_done] 348,
    Case 348 [] [
      (33, 33, St 14), (58, 58, Tr 27), (124, 124, St 14), (126, 126, St 14), (1, 8, St 14), (35, 39, St 14),
      (10, 31, St 14), (45, 46, St 14), (94, 122, St 14), (65, 90, St 14), (48, 57, St 14), (42, 43, St 14)
      ] (St 0),
    Trans 25 [A_start_field] 18,
    Case 18 [] [
      (10, 10, Tr 36), (33, 33, St 14), (58, 58, Tr 27), (124, 124, St 14), (126, 126, St 14), (1, 8, St 14),
      (35, 39, St 14), (11, 31, St 14), (45, 46, St 14), (94, 122, St 14), (65, 90, St 14), (48, 57, St 14),
      (42, 43, St 14)
      ] (St 0),
    Trans 7 [A_mark] 19,
    Case 19 [94, 123, 125] [
      (32, 32, Tr 37), (33, 33, St 19), (35, 35, Tr 39), (37, 37, St 24), (47, 47, St 26), (59, 59, St 19),
      (61, 61, St 19), (63, 63, Tr 42), (95, 95, St 19), (126, 126, St 19), (606, 606, St 19),
      (635, 635, St 19), (637, 637, St 19), (36, 57, St 19), (97, 122, St 19), (64, 90, St 19)
      ] (St 0)]"

definition http_parser_blocks_5 :: "http_action block list" where
  "http_parser_blocks_5 = [
    Trans 8 [A_mark, A_request_path, A_request_uri] 20,
    Trans 39 [A_request_path, A_request_uri] 20,
    Trans 55 [A_start_query, A_query_string, A_request_uri] 20,
    Trans 59 [A_query_string, A_request_uri] 20,
    Case 20 [94, 123, 125] [
      (32, 32, Tr 43), (33, 33, Tr 44), (37, 37, Tr 45), (61, 61, Tr 44), (95, 95, Tr 44), (126, 126, Tr 44),
      (606, 606, Tr 44), (635, 635, Tr 44), (637, 637, Tr 44), (36, 59, Tr 44), (97, 122, Tr 44),
      (63, 90, Tr 44)
      ] (St 0),
    Trans 44 [A_mark] 21,
    Case 21 [94, 123, 125] [
      (32, 32, Tr 46), (33, 33, St 21), (37, 37, St 22), (61, 61, St 21), (95, 95, St 21), (126, 126, St 21),
      (606, 606, St 21), (635, 635, St 21), (637, 637, St 21), (36, 59, St 21), (97, 122, St 21),
      (63, 90, St 21)
      ] (St 0)]"

definition http_parser_blocks_6 :: "http_action block list" where
  "http_parser_blocks_6 = [
    Trans 45 [A_mark] 22,
    Case 22 [] [(48, 57, St 23), (97, 102, St 23), (65, 70, St 23)] (St 0),
    Case 23 [] [(48, 57, St 21), (97, 102, St 21), (65, 70, St 21)] (St 0),
    Trans 9 [A_mark] 24,
    Case 24 [] [(48, 57, St 25), (97, 102, St 25), (65, 70, St 25)] (St 0),
    Case 25 [] [(48, 57, St 19), (97, 102, St 19), (65, 70, St 19)] (St 0),
    Trans 203 [A_mark] 26,
    Case 26 [94, 123, 125] [
      (32, 32, Tr 37), (33, 33, St 26), (35, 35, Tr 39), (37, 37, St 27), (61, 61, St 26), (63, 63, Tr 42),
      (95, 95, St 26), (126, 126, St 26), (606, 606, St 26), (635, 635, St 26), (637, 637, St 26),
      (36, 59, St 26), (97, 122, St 26), (64, 90, St 26)
      ] (St 0),
    Trans 204 [A_mark] 27,
    Case 27 [] [(48, 57, St 28), (97, 102, St 28), (65, 70, St 28)] (St 0),
    Case 28 [] [(48, 57, St 26), (97, 102, St 26), (65, 70, St 26)] (St 0)]"

definition http_parser_blocks_7 :: "http_action block list" where
  "http_parser_blocks_7 = [
    Trans 11 [A_mark, A_request_path] 29,
    Trans 42 [A_request_path] 29,
    Case 29 [94, 123, 125] [
      (32, 32, Tr 53), (33, 33, Tr 54), (35, 35, Tr 55), (37, 37, Tr 56), (61, 61, Tr 54), (95, 95, Tr 54),
      (126, 126, Tr 54), (606, 606, Tr 54), (635, 635, Tr 54), (637, 637, Tr 54), (36, 59, Tr 54),
      (97, 122, Tr 54), (63, 90, Tr 54)
      ] (St 0),
    Trans 54 [A_start_query] 30,
    Case 30 [94, 123, 125] [
      (32, 32, Tr 57), (33, 33, St 30), (35, 35, Tr 59), (37, 37, St 31), (61, 61, St 30), (95, 95, St 30),
      (126, 126, St 30), (606, 606, St 30), (635, 635, St 30), (637, 637, St 30), (36, 59, St 30),
      (97, 122, St 30), (63, 90, St 30)
      ] (St 0),
    Trans 56 [A_start_query] 31,
    Case 31 [] [(48, 57, St 32), (97, 102, St 32), (65, 70, St 32)] (St 0),
    Case 32 [] [(48, 57, St 30), (97, 102, St 30), (65, 70, St 30)] (St 0)]"

definition http_parser_blocks_8 :: "http_action block list" where
  "http_parser_blocks_8 = [
    Trans 10 [A_mark] 33,
    Case 33 [94, 123, 125] [
      (32, 32, Tr 37), (33, 33, St 26), (35, 35, Tr 39), (37, 37, St 27), (47, 47, St 34), (61, 61, St 26),
      (63, 63, Tr 42), (95, 95, St 26), (126, 126, St 26), (606, 606, St 26), (635, 635, St 26),
      (637, 637, St 26), (36, 59, St 26), (97, 122, St 26), (64, 90, St 26)
      ] (St 0),
    Case 34 [94, 123, 125] [
      (32, 32, Tr 37), (33, 33, St 35), (35, 35, Tr 39), (37, 37, St 36), (47, 47, St 26), (58, 58, St 38),
      (61, 61, St 35), (63, 63, Tr 42), (64, 64, St 42), (91, 91, St 47), (95, 95, St 35), (126, 126, St 35),
      (606, 606, St 35), (635, 635, St 35), (637, 637, St 35), (36, 59, St 35), (97, 122, St 35),
      (65, 90, St 35)
      ] (St 0),
    Case 35 [94, 123, 125] [
      (32, 32, Tr 37), (33, 33, St 35), (35, 35, Tr 39), (37, 37, St 36), (47, 47, St 26), (58, 58, St 38),
      (61, 61, St 35), (63, 63, Tr 42), (64, 64, St 42), (95, 95, St 35), (126, 126, St 35), (606, 606, St 35),
      (635, 635, St 35), (637, 637, St 35), (36, 59, St 35), (97, 122, St 35), (65, 90, St 35)
      ] (St 0)]"

definition http_parser_blocks_9 :: "http_action block list" where
  "http_parser_blocks_9 = [
    Case 36 [] [(48, 57, St 37), (97, 102, St 37), (65, 70, St 37)] (St 0),
    Case 37 [] [(48, 57, St 35), (97, 102, St 35), (65, 70, St 35)] (St 0),
    Case 38 [94, 123, 125] [
      (32, 32, Tr 37), (33, 33, St 39), (35, 35, Tr 39), (37, 37, St 40), (47, 47, St 26), (61, 61, St 39),
      (63, 63, Tr 42), (64, 64, St 42), (95, 95, St 39), (126, 126, St 39), (606, 606, St 39),
      (635, 635, St 39), (637, 637, St 39), (48, 57, St 38), (36, 46, St 39), (97, 122, St 39),
      (65, 90, St 39), (58, 59, St 39)
      ] (St 0),
    Case 39 [94, 123, 125] [
      (33, 33, St 39), (37, 37, St 40), (61, 61, St 39), (64, 64, St 42), (95, 95, St 39), (126, 126, St 39),
      (606, 606, St 39), (635, 635, St 39), (637, 637, St 39), (36, 46, St 39), (97, 122, St 39),
      (65, 90, St 39), (48, 59, St 39)
      ] (St 0),
    Case 40 [] [(48, 57, St 41), (97, 102, St 41), (65, 70, St 41)] (St 0),
    Case 41 [] [(48, 57, St 39), (97, 102, St 39), (65, 70, St 39)] (St 0)]"

definition http_parser_blocks_10 :: "http_action block list" where
  "http_parser_blocks_10 = [
    Case 42 [94, 123, 125] [
      (32, 32, Tr 37), (33, 33, St 43), (35, 35, Tr 39), (37, 37, St 44), (47, 47, St 26), (58, 58, St 46),
      (61, 61, St 43), (63, 63, Tr 42), (91, 91, St 47), (95, 95, St 43), (126, 126, St 43), (606, 606, St 43),
      (635, 635, St 43), (637, 637, St 43), (36, 59, St 43), (97, 122, St 43), (65, 90, St 43)
      ] (St 0),
    Case 43 [94, 123, 125] [
      (32, 32, Tr 37), (33, 33, St 43), (35, 35, Tr 39), (37, 37, St 44), (47, 47, St 26), (58, 58, St 46),
      (61, 61, St 43), (63, 63, Tr 42), (95, 95, St 43), (126, 126, St 43), (606, 606, St 43),
      (635, 635, St 43), (637, 637, St 43), (36, 59, St 43), (97, 122, St 43), (65, 90, St 43)
      ] (St 0),
    Case 44 [] [(48, 57, St 45), (97, 102, St 45), (65, 70, St 45)] (St 0),
    Case 45 [] [(48, 57, St 43), (97, 102, St 43), (65, 70, St 43)] (St 0),
    Case 46 [] [(32, 32, Tr 37), (35, 35, Tr 39), (47, 47, St 26), (63, 63, Tr 42), (48, 57, St 46)] (St 0),
    Case 47 [] [
      (6, 6, St 48), (58, 58, St 167), (118, 118, St 169), (48, 57, St 91), (97, 102, St 91), (65, 70, St 91)
      ] (St 0)]"

definition http_parser_blocks_11 :: "http_action block list" where
  "http_parser_blocks_11 = [
    Case 48 [] [(48, 57, St 49), (97, 102, St 49), (65, 70, St 49)] (St 0),
    Case 49 [] [(58, 58, St 53), (48, 57, St 50), (97, 102, St 50), (65, 70, St 50)] (St 0),
    Case 50 [] [(58, 58, St 53), (48, 57, St 51), (97, 102, St 51), (65, 70, St 51)] (St 0),
    Case 51 [] [(58, 58, St 53), (48, 57, St 52), (97, 102, St 52), (65, 70, St 52)] (St 0),
    Case 52 [] [(58, 58, St 53)] (St 0),
    Case 53 [] [(49, 49, St 84), (50, 50, St 87), (48, 57, St 54), (97, 102, St 90), (65, 70, St 90)] (St 0),
    Case 54 [] [(46, 46, St 55), (58, 58, St 80), (48, 57, St 77), (97, 102, St 77), (65, 70, St 77)] (St 0),
    Case 55 [] [(49, 49, St 72), (50, 50, St 74), (48, 57, St 56)] (St 0),
    Case 56 [] [(46, 46, St 57)] (St 0),
    Case 57 [] [(49, 49, St 67), (50, 50, St 69), (48, 57, St 58)] (St 0),
    Case 58 [] [(46, 46, St 59)] (St 0),
    Case 59 [] [(49, 49, St 62), (50, 50, St 64), (48, 57, St 60)] (St 0)]"

definition http_parser_blocks_12 :: "http_action block list" where
  "http_parser_blocks_12 = [
    Case 60 [] [(93, 93, St 61)] (St 0),
    Case 61 [] [(32, 32, Tr 37), (35, 35, Tr 39), (47, 47, St 26), (58, 58, St 46), (63, 63, Tr 42)] (St 0),
    Case 62 [] [(93, 93, St 61), (48, 57, St 63)] (St 0),
    Case 63 [] [(93, 93, St 61), (48, 57, St 60)] (St 0),
    Case 64 [] [(48, 48, St 65), (53, 53, St 66), (93, 93, St 61)] (St 0),
    Case 65 [] [(48, 57, St 60)] (St 0),
    Case 66 [] [(48, 48, St 60)] (St 0),
    Case 67 [] [(46, 46, St 59), (48, 57, St 68)] (St 0),
    Case 68 [] [(46, 46, St 59), (48, 57, St 58)] (St 0),
    Case 69 [] [(46, 46, St 59), (48, 48, St 70), (53, 53, St 71)] (St 0),
    Case 70 [] [(48, 57, St 58)] (St 0),
    Case 71 [] [(48, 48, St 58)] (St 0),
    Case 72 [] [(46, 46, St 57), (48, 57, St 73)] (St 0),
    Case 73 [] [(46, 46, St 57), (48, 57, St 56)] (St 0),
    Case 74 [] [(46, 46, St 57), (48, 48, St 75), (53, 53, St 76)] (St 0),
    Case 75 [] [(48, 57, St 56)] (St 0),
    Case 76 [] [(48, 48, St 56)] (St 0)]"

definition http_parser_blocks_13 :: "http_action block list" where
  "http_parser_blocks_13 = [
    Case 77 [] [(58, 58, St 80), (48, 57, St 78), (97, 102, St 78), (65, 70, St 78)] (St 0),
    Case 78 [] [(58, 58, St 80), (48, 57, St 79), (97, 102, St 79), (65, 70, St 79)] (St 0),
    Case 79 [] [(58, 58, St 80)] (St 0),
    Case 80 [] [(48, 57, St 81), (97, 102, St 81), (65, 70, St 81)] (St 0),
    Case 81 [] [(93, 93, St 61), (48, 57, St 82), (97, 102, St 82), (65, 70, St 82)] (St 0),
    Case 82 [] [(93, 93, St 61), (48, 57, St 83), (97, 102, St 83), (65, 70, St 83)] (St 0),
    Case 83 [] [(93, 93, St 61), (48, 57, St 60), (97, 102, St 60), (65, 70, St 60)] (St 0),
    Case 84 [] [(46, 46, St 55), (58, 58, St 80), (48, 57, St 85), (97, 102, St 77), (65, 70, St 77)] (St 0),
    Case 85 [] [(46, 46, St 55), (58, 58, St 80), (48, 57, St 86), (97, 102, St 78), (65, 70, St 78)] (St 0),
    Case 86 [] [(46, 46, St 55), (58, 58, St 80), (48, 57, St 79), (97, 102, St 79), (65, 70, St 79)] (St 0)]"

definition http_parser_blocks_14 :: "http_action block list" where
  "http_parser_blocks_14 = [
    Case 87 [] [
      (46, 46, St 55), (48, 48, St 88), (53, 53, St 89), (58, 58, St 80), (49, 57, St 77), (97, 102, St 77),
      (65, 70, St 77)
      ] (St 0),
    Case 88 [] [(58, 58, St 80), (48, 57, St 86), (97, 102, St 78), (65, 70, St 78)] (St 0),
    Case 89 [] [(48, 48, St 86), (58, 58, St 80), (49, 57, St 78), (97, 102, St 78), (65, 70, St 78)] (St 0),
    Case 90 [] [(58, 58, St 80), (48, 57, St 77), (97, 102, St 77), (65, 70, St 77)] (St 0),
    Case 91 [] [(58, 58, St 95), (48, 57, St 92), (97, 102, St 92), (65, 70, St 92)] (St 0),
    Case 92 [] [(58, 58, St 95), (48, 57, St 93), (97, 102, St 93), (65, 70, St 93)] (St 0),
    Case 93 [] [(58, 58, St 95), (48, 57, St 94), (97, 102, St 94), (65, 70, St 94)] (St 0),
    Case 94 [] [(58, 58, St 95)] (St 0),
    Case 95 [] [(58, 58, St 166), (48, 57, St 96), (97, 102, St 96), (65, 70, St 96)] (St 0),
    Case 96 [] [(58, 58, St 100), (48, 57, St 97), (97, 102, St 97), (65, 70, St 97)] (St 0)]"

definition http_parser_blocks_15 :: "http_action block list" where
  "http_parser_blocks_15 = [
    Case 97 [] [(58, 58, St 100), (48, 57, St 98), (97, 102, St 98), (65, 70, St 98)] (St 0),
    Case 98 [] [(58, 58, St 100), (48, 57, St 99), (97, 102, St 99), (65, 70, St 99)] (St 0),
    Case 99 [] [(58, 58, St 100)] (St 0),
    Case 100 [] [(58, 58, St 165), (48, 57, St 101), (97, 102, St 101), (65, 70, St 101)] (St 0),
    Case 101 [] [(58, 58, St 105), (48, 57, St 102), (97, 102, St 102), (65, 70, St 102)] (St 0),
    Case 102 [] [(58, 58, St 105), (48, 57, St 103), (97, 102, St 103), (65, 70, St 103)] (St 0),
    Case 103 [] [(58, 58, St 105), (48, 57, St 104), (97, 102, St 104), (65, 70, St 104)] (St 0),
    Case 104 [] [(58, 58, St 105)] (St 0),
    Case 105 [] [(58, 58, St 164), (48, 57, St 106), (97, 102, St 106), (65, 70, St 106)] (St 0),
    Case 106 [] [(58, 58, St 110), (48, 57, St 107), (97, 102, St 107), (65, 70, St 107)] (St 0),
    Case 107 [] [(58, 58, St 110), (48, 57, St 108), (97, 102, St 108), (65, 70, St 108)] (St 0)]"

definition http_parser_blocks_16 :: "http_action block list" where
  "http_parser_blocks_16 = [
    Case 108 [] [(58, 58, St 110), (48, 57, St 109), (97, 102, St 109), (65, 70, St 109)] (St 0),
    Case 109 [] [(58, 58, St 110)] (St 0),
    Case 110 [] [(58, 58, St 163), (48, 57, St 111), (97, 102, St 111), (65, 70, St 111)] (St 0),
    Case 111 [] [(58, 58, St 115), (48, 57, St 112), (97, 102, St 112), (65, 70, St 112)] (St 0),
    Case 112 [] [(58, 58, St 115), (48, 57, St 113), (97, 102, St 113), (65, 70, St 113)] (St 0),
    Case 113 [] [(58, 58, St 115), (48, 57, St 114), (97, 102, St 114), (65, 70, St 114)] (St 0),
    Case 114 [] [(58, 58, St 115)] (St 0),
    Case 115 [] [(58, 58, St 151), (48, 57, St 116), (97, 102, St 116), (65, 70, St 116)] (St 0),
    Case 116 [] [(58, 58, St 120), (48, 57, St 117), (97, 102, St 117), (65, 70, St 117)] (St 0),
    Case 117 [] [(58, 58, St 120), (48, 57, St 118), (97, 102, St 118), (65, 70, St 118)] (St 0),
    Case 118 [] [(58, 58, St 120), (48, 57, St 119), (97, 102, St 119), (65, 70, St 119)] (St 0)]"

definition http_parser_blocks_17 :: "http_action block list" where
  "http_parser_blocks_17 = [
    Case 119 [] [(58, 58, St 120)] (St 0),
    Case 120 [] [(58, 58, St 150), (48, 57, St 121), (97, 102, St 121), (65, 70, St 121)] (St 0),
    Case 121 [] [(58, 58, St 125), (48, 57, St 122), (97, 102, St 122), (65, 70, St 122)] (St 0),
    Case 122 [] [(58, 58, St 125), (48, 57, St 123), (97, 102, St 123), (65, 70, St 123)] (St 0),
    Case 123 [] [(58, 58, St 125), (48, 57, St 124), (97, 102, St 124), (65, 70, St 124)] (St 0),
    Case 124 [] [(58, 58, St 125)] (St 0),
    Case 125 [] [(58, 58, St 126), (48, 57, St 121), (97, 102, St 121), (65, 70, St 121)] (St 0),
    Case 126 [] [
      (49, 49, St 143), (50, 50, St 146), (93, 93, St 61), (2, 3, St 48), (97, 102, St 149), (65, 70, St 149),
      (48, 57, St 127)
      ] (St 0),
    Case 127 [] [
      (46, 46, St 55), (58, 58, St 131), (93, 93, St 61), (48, 57, St 128), (97, 102, St 128), (65, 70, St 128)
      ] (St 0),
    Case 128 [] [(58, 58, St 131), (93, 93, St 61), (48, 57, St 129), (97, 102, St 129), (65, 70, St 129)] (St 0)]"

definition http_parser_blocks_18 :: "http_action block list" where
  "http_parser_blocks_18 = [
    Case 129 [] [(58, 58, St 131), (93, 93, St 61), (48, 57, St 130), (97, 102, St 130), (65, 70, St 130)] (St 0),
    Case 130 [] [(58, 58, St 131), (93, 93, St 61)] (St 0),
    Case 131 [] [(49, 49, St 136), (50, 50, St 139), (48, 57, St 132), (97, 102, St 142), (65, 70, St 142)] (St 0),
    Case 132 [] [
      (46, 46, St 55), (58, 58, St 80), (93, 93, St 61), (48, 57, St 133), (97, 102, St 133), (65, 70, St 133)
      ] (St 0),
    Case 133 [] [(58, 58, St 80), (93, 93, St 61), (48, 57, St 134), (97, 102, St 134), (65, 70, St 134)] (St 0),
    Case 134 [] [(58, 58, St 80), (93, 93, St 61), (48, 57, St 135), (97, 102, St 135), (65, 70, St 135)] (St 0),
    Case 135 [] [(58, 58, St 80), (93, 93, St 61)] (St 0),
    Case 136 [] [
      (46, 46, St 55), (58, 58, St 80), (93, 93, St 61), (48, 57, St 137), (97, 102, St 133), (65, 70, St 133)
      ] (St 0),
    Case 137 [] [
      (46, 46, St 55), (58, 58, St 80), (93, 93, St 61), (48, 57, St 138), (97, 102, St 134), (65, 70, St 134)
      ] (St 0),
    Case 138 [] [
      (46, 46, St 55), (58, 58, St 80), (93, 93, St 61), (48, 57, St 135), (97, 102, St 135), (65, 70, St 135)
      ] (St 0)]"

definition http_parser_blocks_19 :: "http_action block list" where
  "http_parser_blocks_19 = [
    Case 139 [] [
      (46, 46, St 55), (48, 48, St 140), (53, 53, St 141), (58, 58, St 80), (93, 93, St 61), (49, 57, St 133),
      (97, 102, St 133), (65, 70, St 133)
      ] (St 0),
    Case 140 [] [(58, 58, St 80), (93, 93, St 61), (48, 57, St 138), (97, 102, St 134), (65, 70, St 134)] (St 0),
    Case 141 [] [
      (48, 48, St 138), (58, 58, St 80), (93, 93, St 61), (49, 57, St 134), (97, 102, St 134), (65, 70, St 134)
      ] (St 0),
    Case 142 [] [(58, 58, St 80), (93, 93, St 61), (48, 57, St 133), (97, 102, St 133), (65, 70, St 133)] (St 0),
    Case 143 [] [
      (46, 46, St 55), (58, 58, St 131), (93, 93, St 61), (48, 57, St 144), (97, 102, St 128), (65, 70, St 128)
      ] (St 0),
    Case 144 [] [
      (46, 46, St 55), (58, 58, St 131), (93, 93, St 61), (48, 57, St 145), (97, 102, St 129), (65, 70, St 129)
      ] (St 0),
    Case 145 [] [
      (46, 46, St 55), (58, 58, St 131), (93, 93, St 61), (48, 57, St 130), (97, 102, St 130), (65, 70, St 130)
      ] (St 0),
    Case 146 [] [
      (46, 46, St 55), (48, 48, St 147), (53, 53, St 148), (58, 58, St 131), (93, 93, St 61), (49, 57, St 128),
      (97, 102, St 128), (65, 70, St 128)
      ] (St 0)]"

definition http_parser_blocks_20 :: "http_action block list" where
  "http_parser_blocks_20 = [
    Case 147 [] [(58, 58, St 131), (93, 93, St 61), (48, 57, St 145), (97, 102, St 129), (65, 70, St 129)] (St 0),
    Case 148 [] [
      (48, 48, St 145), (58, 58, St 131), (93, 93, St 61), (49, 57, St 129), (97, 102, St 129), (65, 70, St 129)
      ] (St 0),
    Case 149 [] [(58, 58, St 131), (93, 93, St 61), (48, 57, St 128), (97, 102, St 128), (65, 70, St 128)] (St 0),
    Case 150 [] [
      (49, 49, St 143), (50, 50, St 146), (2, 3, St 48), (97, 102, St 149), (65, 70, St 149), (48, 57, St 127)
      ] (St 0),
    Case 151 [] [
      (49, 49, St 156), (50, 50, St 159), (2, 3, St 48), (97, 102, St 162), (65, 70, St 162), (48, 57, St 152)
      ] (St 0),
    Case 152 [] [(46, 46, St 55), (58, 58, St 131), (48, 57, St 153), (97, 102, St 153), (65, 70, St 153)] (St 0),
    Case 153 [] [(58, 58, St 131), (48, 57, St 154), (97, 102, St 154), (65, 70, St 154)] (St 0),
    Case 154 [] [(58, 58, St 131), (48, 57, St 155), (97, 102, St 155), (65, 70, St 155)] (St 0),
    Case 155 [] [(58, 58, St 131)] (St 0)]"

definition http_parser_blocks_21 :: "http_action block list" where
  "http_parser_blocks_21 = [
    Case 156 [] [(46, 46, St 55), (58, 58, St 131), (48, 57, St 157), (97, 102, St 153), (65, 70, St 153)] (St 0),
    Case 157 [] [(46, 46, St 55), (58, 58, St 131), (48, 57, St 158), (97, 102, St 154), (65, 70, St 154)] (St 0),
    Case 158 [] [(46, 46, St 55), (58, 58, St 131), (48, 57, St 155), (97, 102, St 155), (65, 70, St 155)] (St 0),
    Case 159 [] [
      (46, 46, St 55), (48, 48, St 160), (53, 53, St 161), (58, 58, St 131), (49, 57, St 153),
      (97, 102, St 153), (65, 70, St 153)
      ] (St 0),
    Case 160 [] [(58, 58, St 131), (48, 57, St 158), (97, 102, St 154), (65, 70, St 154)] (St 0),
    Case 161 [] [(48, 48, St 158), (58, 58, St 131), (49, 57, St 154), (97, 102, St 154), (65, 70, St 154)] (St 0),
    Case 162 [] [(58, 58, St 131), (48, 57, St 153), (97, 102, St 153), (65, 70, St 153)] (St 0),
    Case 163 [] [(2, 3, St 48), (97, 102, St 49), (65, 70, St 49), (48, 57, St 49)] (St 0),
    Case 164 [] [(2, 3, St 48)] (St 0),
    Case 165 [] [(3, 3, St 48)] (St 0)]"

definition http_parser_blocks_22 :: "http_action block list" where
  "http_parser_blocks_22 = [
    Case 166 [] [(4, 4, St 48)] (St 0),
    Case 167 [] [(58, 58, St 168)] (St 0),
    Case 168 [] [
      (49, 49, St 143), (50, 50, St 146), (93, 93, St 61), (2, 5, St 48), (97, 102, St 149), (65, 70, St 149),
      (48, 57, St 127)
      ] (St 0),
    Case 169 [] [(48, 57, St 170), (97, 102, St 170), (65, 70, St 170)] (St 0),
    Case 170 [] [(46, 46, St 171), (48, 57, St 170), (97, 102, St 170), (65, 70, St 170)] (St 0),
    Case 171 [94, 123, 125] [
      (33, 33, St 172), (36, 36, St 172), (61, 61, St 172), (95, 95, St 172), (126, 126, St 172),
      (606, 606, St 172), (635, 635, St 172), (637, 637, St 172), (38, 46, St 172), (97, 122, St 172),
      (65, 90, St 172), (48, 59, St 172)
      ] (St 0),
    Case 172 [94, 123, 125] [
      (33, 33, St 172), (36, 36, St 172), (61, 61, St 172), (93, 93, St 61), (95, 95, St 172),
      (126, 126, St 172), (606, 606, St 172), (635, 635, St 172), (637, 637, St 172), (38, 46, St 172),
      (97, 122, St 172), (65, 90, St 172), (48, 59, St 172)
      ] (St 0)]"

definition http_parser_blocks_23 :: "http_action block list" where
  "http_parser_blocks_23 = [
    Trans 12 [A_mark] 173,
    Case 173 [94, 123, 125] [
      (32, 32, Tr 37), (33, 33, St 19), (35, 35, Tr 39), (37, 37, St 24), (43, 43, St 173), (47, 47, St 26),
      (58, 58, St 174), (59, 59, St 19), (61, 61, St 19), (63, 63, Tr 42), (64, 64, St 19), (95, 95, St 19),
      (126, 126, St 19), (606, 606, St 19), (635, 635, St 19), (637, 637, St 19), (36, 44, St 19),
      (97, 122, St 173), (65, 90, St 173), (45, 57, St 173)
      ] (St 0),
    Case 174 [94, 123, 125] [
      (32, 32, Tr 6), (33, 33, Tr 203), (35, 35, Tr 8), (37, 37, Tr 204), (47, 47, Tr 10), (61, 61, Tr 203),
      (63, 63, Tr 11), (95, 95, Tr 203), (126, 126, Tr 203), (606, 606, Tr 203), (635, 635, Tr 203),
      (637, 637, Tr 203), (36, 59, Tr 203), (97, 122, Tr 203), (64, 90, Tr 203)
      ] (St 0),
    Case 175 [] [(32, 32, Tr 4), (65, 90, St 176), (48, 57, St 176)] (St 0),
    Case 176 [] [(32, 32, Tr 4), (65, 90, St 177), (48, 57, St 177)] (St 0),
    Case 177 [] [(32, 32, Tr 4), (65, 90, St 178), (48, 57, St 178)] (St 0)]"

definition http_parser_blocks_24 :: "http_action block list" where
  "http_parser_blocks_24 = [
    Case 178 [] [(32, 32, Tr 4), (65, 90, St 179), (48, 57, St 179)] (St 0),
    Case 179 [] [(32, 32, Tr 4), (65, 90, St 180), (48, 57, St 180)] (St 0),
    Case 180 [] [(32, 32, Tr 4), (65, 90, St 181), (48, 57, St 181)] (St 0),
    Case 181 [] [(32, 32, Tr 4), (65, 90, St 182), (48, 57, St 182)] (St 0),
    Case 182 [] [(32, 32, Tr 4), (65, 90, St 183), (48, 57, St 183)] (St 0),
    Case 183 [] [(32, 32, Tr 4), (65, 90, St 184), (48, 57, St 184)] (St 0),
    Case 184 [] [(32, 32, Tr 4), (65, 90, St 185), (48, 57, St 185)] (St 0),
    Case 185 [] [(32, 32, Tr 4), (65, 90, St 186), (48, 57, St 186)] (St 0),
    Case 186 [] [(32, 32, Tr 4), (65, 90, St 187), (48, 57, St 187)] (St 0),
    Case 187 [] [(32, 32, Tr 4), (65, 90, St 188), (48, 57, St 188)] (St 0),
    Case 188 [] [(32, 32, Tr 4), (65, 90, St 189), (48, 57, St 189)] (St 0),
    Case 189 [] [(32, 32, Tr 4), (65, 90, St 190), (48, 57, St 190)] (St 0)]"

definition http_parser_blocks_25 :: "http_action block list" where
  "http_parser_blocks_25 = [
    Case 190 [] [(32, 32, Tr 4), (65, 90, St 191), (48, 57, St 191)] (St 0),
    Case 191 [] [(32, 32, Tr 4), (65, 90, St 192), (48, 57, St 192)] (St 0),
    Case 192 [] [(32, 32, Tr 4), (65, 90, St 193), (48, 57, St 193)] (St 0),
    Case 193 [] [(32, 32, Tr 4)] (St 0),
    Trans 2 [A_mark] 194,
    Case 194 [] [(45, 46, St 195), (97, 122, St 195), (65, 90, St 195), (48, 57, St 195)] (St 0),
    Case 195 [] [
      (32, 32, Tr 224), (47, 47, Tr 224), (62, 62, Tr 224), (9, 13, Tr 224), (97, 122, St 195),
      (65, 90, St 195), (45, 57, St 195)
      ] (St 0),
    Trans 224 [A_request_path] 196,
    Case 196 [] [(62, 62, St 197)] (St 196),
    Case 197 [] [(0, 0, Tr 227), (62, 62, St 197)] (St 196),
    Trans 227 [A_xml, A_done] 349]"

definition http_parser_blocks_26 :: "http_action block list" where
  "http_parser_blocks_26 = [
    Trans 235 [A_json, A_done] 349,
    Case 349 [] [] (St 0),
    Trans 3 [A_mark] 198,
    Case 198 [94, 123, 125] [
      (32, 32, Tr 228), (33, 33, St 202), (37, 37, St 203), (47, 47, St 208), (59, 59, St 202),
      (61, 61, St 202), (95, 95, St 202), (126, 126, St 202), (606, 606, St 202), (635, 635, St 202),
      (637, 637, St 202), (36, 57, St 202), (97, 122, St 202), (64, 90, St 202)
      ] (St 0),
    Trans 228 [A_request_path] 199,
    Case 199 [] [(123, 123, Tr 232)] (St 0),
    Trans 232 [A_mark] 200,
    Case 200 [] [(125, 125, St 201)] (St 200),
    Case 201 [] [(0, 0, Tr 235), (125, 125, St 201)] (St 200),
    Case 202 [94, 123, 125] [
      (32, 32, Tr 228), (33, 33, St 202), (37, 37, St 203), (47, 47, St 205), (59, 59, St 202),
      (61, 61, St 202), (95, 95, St 202), (126, 126, St 202), (606, 606, St 202), (635, 635, St 202),
      (637, 637, St 202), (36, 57, St 202), (97, 122, St 202), (64, 90, St 202)
      ] (St 0)]"

definition http_parser_blocks_27 :: "http_action block list" where
  "http_parser_blocks_27 = [
    Case 203 [] [(48, 57, St 204), (97, 102, St 204), (65, 70, St 204)] (St 0),
    Case 204 [] [(48, 57, St 202), (97, 102, St 202), (65, 70, St 202)] (St 0),
    Case 205 [94, 123, 125] [
      (32, 32, Tr 228), (33, 33, St 205), (37, 37, St 206), (61, 61, St 205), (95, 95, St 205),
      (126, 126, St 205), (606, 606, St 205), (635, 635, St 205), (637, 637, St 205), (36, 59, St 205),
      (97, 122, St 205), (64, 90, St 205)
      ] (St 0),
    Case 206 [] [(48, 57, St 207), (97, 102, St 207), (65, 70, St 207)] (St 0),
    Case 207 [] [(48, 57, St 205), (97, 102, St 205), (65, 70, St 205)] (St 0),
    Case 208 [94, 123, 125] [
      (32, 32, Tr 228), (33, 33, St 205), (37, 37, St 206), (47, 47, St 209), (61, 61, St 205),
      (95, 95, St 205), (126, 126, St 205), (606, 606, St 205), (635, 635, St 205), (637, 637, St 205),
      (36, 59, St 205), (97, 122, St 205), (64, 90, St 205)
      ] (St 0),
    Case 209 [94, 123, 125] [
      (32, 32, Tr 228), (33, 33, St 210), (37, 37, St 211), (47, 47, St 205), (58, 58, St 213),
      (61, 61, St 210), (64, 64, St 217), (91, 91, St 222), (95, 95, St 210), (126, 126, St 210),
      (606, 606, St 210), (635, 635, St 210), (637, 637, St 210), (36, 59, St 210), (97, 122, St 210),
      (65, 90, St 210)
      ] (St 0)]"

definition http_parser_blocks_28 :: "http_action block list" where
  "http_parser_blocks_28 = [
    Case 210 [94, 123, 125] [
      (32, 32, Tr 228), (33, 33, St 210), (37, 37, St 211), (47, 47, St 205), (58, 58, St 213),
      (61, 61, St 210), (64, 64, St 217), (95, 95, St 210), (126, 126, St 210), (606, 606, St 210),
      (635, 635, St 210), (637, 637, St 210), (36, 59, St 210), (97, 122, St 210), (65, 90, St 210)
      ] (St 0),
    Case 211 [] [(48, 57, St 212), (97, 102, St 212), (65, 70, St 212)] (St 0),
    Case 212 [] [(48, 57, St 210), (97, 102, St 210), (65, 70, St 210)] (St 0),
    Case 213 [94, 123, 125] [
      (32, 32, Tr 228), (33, 33, St 214), (37, 37, St 215), (47, 47, St 205), (61, 61, St 214),
      (64, 64, St 217), (95, 95, St 214), (126, 126, St 214), (606, 606, St 214), (635, 635, St 214),
      (637, 637, St 214), (48, 57, St 213), (36, 46, St 214), (97, 122, St 214), (65, 90, St 214),
      (58, 59, St 214)
      ] (St 0),
    Case 214 [94, 123, 125] [
      (33, 33, St 214), (37, 37, St 215), (61, 61, St 214), (64, 64, St 217), (95, 95, St 214),
      (126, 126, St 214), (606, 606, St 214), (635, 635, St 214), (637, 637, St 214), (36, 46, St 214),
      (97, 122, St 214), (65, 90, St 214), (48, 59, St 214)
      ] (St 0)]"

definition http_parser_blocks_29 :: "http_action block list" where
  "http_parser_blocks_29 = [
    Case 215 [] [(48, 57, St 216), (97, 102, St 216), (65, 70, St 216)] (St 0),
    Case 216 [] [(48, 57, St 214), (97, 102, St 214), (65, 70, St 214)] (St 0),
    Case 217 [94, 123, 125] [
      (32, 32, Tr 228), (33, 33, St 218), (37, 37, St 219), (47, 47, St 205), (58, 58, St 221),
      (61, 61, St 218), (91, 91, St 222), (95, 95, St 218), (126, 126, St 218), (606, 606, St 218),
      (635, 635, St 218), (637, 637, St 218), (36, 59, St 218), (97, 122, St 218), (65, 90, St 218)
      ] (St 0),
    Case 218 [94, 123, 125] [
      (32, 32, Tr 228), (33, 33, St 218), (37, 37, St 219), (47, 47, St 205), (58, 58, St 221),
      (61, 61, St 218), (95, 95, St 218), (126, 126, St 218), (606, 606, St 218), (635, 635, St 218),
      (637, 637, St 218), (36, 59, St 218), (97, 122, St 218), (65, 90, St 218)
      ] (St 0),
    Case 219 [] [(48, 57, St 220), (97, 102, St 220), (65, 70, St 220)] (St 0),
    Case 220 [] [(48, 57, St 218), (97, 102, St 218), (65, 70, St 218)] (St 0)]"

definition http_parser_blocks_30 :: "http_action block list" where
  "http_parser_blocks_30 = [
    Case 221 [] [(32, 32, Tr 228), (47, 47, St 205), (48, 57, St 221)] (St 0),
    Case 222 [] [
      (6, 6, St 223), (58, 58, St 342), (118, 118, St 344), (48, 57, St 266), (97, 102, St 266),
      (65, 70, St 266)
      ] (St 0),
    Case 223 [] [(48, 57, St 224), (97, 102, St 224), (65, 70, St 224)] (St 0),
    Case 224 [] [(58, 58, St 228), (48, 57, St 225), (97, 102, St 225), (65, 70, St 225)] (St 0),
    Case 225 [] [(58, 58, St 228), (48, 57, St 226), (97, 102, St 226), (65, 70, St 226)] (St 0),
    Case 226 [] [(58, 58, St 228), (48, 57, St 227), (97, 102, St 227), (65, 70, St 227)] (St 0),
    Case 227 [] [(58, 58, St 228)] (St 0),
    Case 228 [] [(49, 49, St 259), (50, 50, St 262), (48, 57, St 229), (97, 102, St 265), (65, 70, St 265)] (St 0),
    Case 229 [] [(46, 46, St 230), (58, 58, St 255), (48, 57, St 252), (97, 102, St 252), (65, 70, St 252)] (St 0),
    Case 230 [] [(49, 49, St 247), (50, 50, St 249), (48, 57, St 231)] (St 0),
    Case 231 [] [(46, 46, St 232)] (St 0)]"

definition http_parser_blocks_31 :: "http_action block list" where
  "http_parser_blocks_31 = [
    Case 232 [] [(49, 49, St 242), (50, 50, St 244), (48, 57, St 233)] (St 0),
    Case 233 [] [(46, 46, St 234)] (St 0),
    Case 234 [] [(49, 49, St 237), (50, 50, St 239), (48, 57, St 235)] (St 0),
    Case 235 [] [(93, 93, St 236)] (St 0),
    Case 236 [] [(32, 32, Tr 228), (47, 47, St 205), (58, 58, St 221)] (St 0),
    Case 237 [] [(93, 93, St 236), (48, 57, St 238)] (St 0),
    Case 238 [] [(93, 93, St 236), (48, 57, St 235)] (St 0),
    Case 239 [] [(48, 48, St 240), (53, 53, St 241), (93, 93, St 236)] (St 0),
    Case 240 [] [(48, 57, St 235)] (St 0),
    Case 241 [] [(48, 48, St 235)] (St 0),
    Case 242 [] [(46, 46, St 234), (48, 57, St 243)] (St 0),
    Case 243 [] [(46, 46, St 234), (48, 57, St 233)] (St 0),
    Case 244 [] [(46, 46, St 234), (48, 48, St 245), (53, 53, St 246)] (St 0),
    Case 245 [] [(48, 57, St 233)] (St 0),
    Case 246 [] [(48, 48, St 233)] (St 0),
    Case 247 [] [(46, 46, St 232), (48, 57, St 248)] (St 0),
    Case 248 [] [(46, 46, St 232), (48, 57, St 231)] (St 0)]"

definition http_parser_blocks_32 :: "http_action block list" where
  "http_parser_blocks_32 = [
    Case 249 [] [(46, 46, St 232), (48, 48, St 250), (53, 53, St 251)] (St 0),
    Case 250 [] [(48, 57, St 231)] (St 0),
    Case 251 [] [(48, 48, St 231)] (St 0),
    Case 252 [] [(58, 58, St 255), (48, 57, St 253), (97, 102, St 253), (65, 70, St 253)] (St 0),
    Case 253 [] [(58, 58, St 255), (48, 57, St 254), (97, 102, St 254), (65, 70, St 254)] (St 0),
    Case 254 [] [(58, 58, St 255)] (St 0),
    Case 255 [] [(48, 57, St 256), (97, 102, St 256), (65, 70, St 256)] (St 0),
    Case 256 [] [(93, 93, St 236), (48, 57, St 257), (97, 102, St 257), (65, 70, St 257)] (St 0),
    Case 257 [] [(93, 93, St 236), (48, 57, St 258), (97, 102, St 258), (65, 70, St 258)] (St 0),
    Case 258 [] [(93, 93, St 236), (48, 57, St 235), (97, 102, St 235), (65, 70, St 235)] (St 0),
    Case 259 [] [(46, 46, St 230), (58, 58, St 255), (48, 57, St 260), (97, 102, St 252), (65, 70, St 252)] (St 0),
    Case 260 [] [(46, 46, St 230), (58, 58, St 255), (48, 57, St 261), (97, 102, St 253), (65, 70, St 253)] (St 0)]"

definition http_parser_blocks_33 :: "http_action block list" where
  "http_parser_blocks_33 = [
    Case 261 [] [(46, 46, St 230), (58, 58, St 255), (48, 57, St 254), (97, 102, St 254), (65, 70, St 254)] (St 0),
    Case 262 [] [
      (46, 46, St 230), (48, 48, St 263), (53, 53, St 264), (58, 58, St 255), (49, 57, St 252),
      (97, 102, St 252), (65, 70, St 252)
      ] (St 0),
    Case 263 [] [(58, 58, St 255), (48, 57, St 261), (97, 102, St 253), (65, 70, St 253)] (St 0),
    Case 264 [] [(48, 48, St 261), (58, 58, St 255), (49, 57, St 253), (97, 102, St 253), (65, 70, St 253)] (St 0),
    Case 265 [] [(58, 58, St 255), (48, 57, St 252), (97, 102, St 252), (65, 70, St 252)] (St 0),
    Case 266 [] [(58, 58, St 270), (48, 57, St 267), (97, 102, St 267), (65, 70, St 267)] (St 0),
    Case 267 [] [(58, 58, St 270), (48, 57, St 268), (97, 102, St 268), (65, 70, St 268)] (St 0),
    Case 268 [] [(58, 58, St 270), (48, 57, St 269), (97, 102, St 269), (65, 70, St 269)] (St 0),
    Case 269 [] [(58, 58, St 270)] (St 0),
    Case 270 [] [(58, 58, St 341), (48, 57, St 271), (97, 102, St 271), (65, 70, St 271)] (St 0)]"

definition http_parser_blocks_34 :: "http_action block list" where
  "http_parser_blocks_34 = [
    Case 271 [] [(58, 58, St 275), (48, 57, St 272), (97, 102, St 272), (65, 70, St 272)] (St 0),
    Case 272 [] [(58, 58, St 275), (48, 57, St 273), (97, 102, St 273), (65, 70, St 273)] (St 0),
    Case 273 [] [(58, 58, St 275), (48, 57, St 274), (97, 102, St 274), (65, 70, St 274)] (St 0),
    Case 274 [] [(58, 58, St 275)] (St 0),
    Case 275 [] [(58, 58, St 340), (48, 57, St 276), (97, 102, St 276), (65, 70, St 276)] (St 0),
    Case 276 [] [(58, 58, St 280), (48, 57, St 277), (97, 102, St 277), (65, 70, St 277)] (St 0),
    Case 277 [] [(58, 58, St 280), (48, 57, St 278), (97, 102, St 278), (65, 70, St 278)] (St 0),
    Case 278 [] [(58, 58, St 280), (48, 57, St 279), (97, 102, St 279), (65, 70, St 279)] (St 0),
    Case 279 [] [(58, 58, St 280)] (St 0),
    Case 280 [] [(58, 58, St 339), (48, 57, St 281), (97, 102, St 281), (65, 70, St 281)] (St 0),
    Case 281 [] [(58, 58, St 285), (48, 57, St 282), (97, 102, St 282), (65, 70, St 282)] (St 0)]"

definition http_parser_blocks_35 :: "http_action block list" where
  "http_parser_blocks_35 = [
    Case 282 [] [(58, 58, St 285), (48, 57, St 283), (97, 102, St 283), (65, 70, St 283)] (St 0),
    Case 283 [] [(58, 58, St 285), (48, 57, St 284), (97, 102, St 284), (65, 70, St 284)] (St 0),
    Case 284 [] [(58, 58, St 285)] (St 0),
    Case 285 [] [(58, 58, St 338), (48, 57, St 286), (97, 102, St 286), (65, 70, St 286)] (St 0),
    Case 286 [] [(58, 58, St 290), (48, 57, St 287), (97, 102, St 287), (65, 70, St 287)] (St 0),
    Case 287 [] [(58, 58, St 290), (48, 57, St 288), (97, 102, St 288), (65, 70, St 288)] (St 0),
    Case 288 [] [(58, 58, St 290), (48, 57, St 289), (97, 102, St 289), (65, 70, St 289)] (St 0),
    Case 289 [] [(58, 58, St 290)] (St 0),
    Case 290 [] [(58, 58, St 326), (48, 57, St 291), (97, 102, St 291), (65, 70, St 291)] (St 0),
    Case 291 [] [(58, 58, St 295), (48, 57, St 292), (97, 102, St 292), (65, 70, St 292)] (St 0),
    Case 292 [] [(58, 58, St 295), (48, 57, St 293), (97, 102, St 293), (65, 70, St 293)] (St 0)]"

definition http_parser_blocks_36 :: "http_action block list" where
  "http_parser_blocks_36 = [
    Case 293 [] [(58, 58, St 295), (48, 57, St 294), (97, 102, St 294), (65, 70, St 294)] (St 0),
    Case 294 [] [(58, 58, St 295)] (St 0),
    Case 295 [] [(58, 58, St 325), (48, 57, St 296), (97, 102, St 296), (65, 70, St 296)] (St 0),
    Case 296 [] [(58, 58, St 300), (48, 57, St 297), (97, 102, St 297), (65, 70, St 297)] (St 0),
    Case 297 [] [(58, 58, St 300), (48, 57, St 298), (97, 102, St 298), (65, 70, St 298)] (St 0),
    Case 298 [] [(58, 58, St 300), (48, 57, St 299), (97, 102, St 299), (65, 70, St 299)] (St 0),
    Case 299 [] [(58, 58, St 300)] (St 0),
    Case 300 [] [(58, 58, St 301), (48, 57, St 296), (97, 102, St 296), (65, 70, St 296)] (St 0),
    Case 301 [] [
      (49, 49, St 318), (50, 50, St 321), (93, 93, St 236), (2, 3, St 223), (97, 102, St 324),
      (65, 70, St 324), (48, 57, St 302)
      ] (St 0),
    Case 302 [] [
      (46, 46, St 230), (58, 58, St 306), (93, 93, St 236), (48, 57, St 303), (97, 102, St 303),
      (65, 70, St 303)
      ] (St 0),
    Case 303 [] [(58, 58, St 306), (93, 93, St 236), (48, 57, St 304), (97, 102, St 304), (65, 70, St 304)] (St 0)]"

definition http_parser_blocks_37 :: "http_action block list" where
  "http_parser_blocks_37 = [
    Case 304 [] [(58, 58, St 306), (93, 93, St 236), (48, 57, St 305), (97, 102, St 305), (65, 70, St 305)] (St 0),
    Case 305 [] [(58, 58, St 306), (93, 93, St 236)] (St 0),
    Case 306 [] [(49, 49, St 311), (50, 50, St 314), (48, 57, St 307), (97, 102, St 317), (65, 70, St 317)] (St 0),
    Case 307 [] [
      (46, 46, St 230), (58, 58, St 255), (93, 93, St 236), (48, 57, St 308), (97, 102, St 308),
      (65, 70, St 308)
      ] (St 0),
    Case 308 [] [(58, 58, St 255), (93, 93, St 236), (48, 57, St 309), (97, 102, St 309), (65, 70, St 309)] (St 0),
    Case 309 [] [(58, 58, St 255), (93, 93, St 236), (48, 57, St 310), (97, 102, St 310), (65, 70, St 310)] (St 0),
    Case 310 [] [(58, 58, St 255), (93, 93, St 236)] (St 0),
    Case 311 [] [
      (46, 46, St 230), (58, 58, St 255), (93, 93, St 236), (48, 57, St 312), (97, 102, St 308),
      (65, 70, St 308)
      ] (St 0),
    Case 312 [] [
      (46, 46, St 230), (58, 58, St 255), (93, 93, St 236), (48, 57, St 313), (97, 102, St 309),
      (65, 70, St 309)
      ] (St 0),
    Case 313 [] [
      (46, 46, St 230), (58, 58, St 255), (93, 93, St 236), (48, 57, St 310), (97, 102, St 310),
      (65, 70, St 310)
      ] (St 0)]"

definition http_parser_blocks_38 :: "http_action block list" where
  "http_parser_blocks_38 = [
    Case 314 [] [
      (46, 46, St 230), (48, 48, St 315), (53, 53, St 316), (58, 58, St 255), (93, 93, St 236),
      (49, 57, St 308), (97, 102, St 308), (65, 70, St 308)
      ] (St 0),
    Case 315 [] [(58, 58, St 255), (93, 93, St 236), (48, 57, St 313), (97, 102, St 309), (65, 70, St 309)] (St 0),
    Case 316 [] [
      (48, 48, St 313), (58, 58, St 255), (93, 93, St 236), (49, 57, St 309), (97, 102, St 309),
      (65, 70, St 309)
      ] (St 0),
    Case 317 [] [(58, 58, St 255), (93, 93, St 236), (48, 57, St 308), (97, 102, St 308), (65, 70, St 308)] (St 0),
    Case 318 [] [
      (46, 46, St 230), (58, 58, St 306), (93, 93, St 236), (48, 57, St 319), (97, 102, St 303),
      (65, 70, St 303)
      ] (St 0),
    Case 319 [] [
      (46, 46, St 230), (58, 58, St 306), (93, 93, St 236), (48, 57, St 320), (97, 102, St 304),
      (65, 70, St 304)
      ] (St 0),
    Case 320 [] [
      (46, 46, St 230), (58, 58, St 306), (93, 93, St 236), (48, 57, St 305), (97, 102, St 305),
      (65, 70, St 305)
      ] (St 0),
    Case 321 [] [
      (46, 46, St 230), (48, 48, St 322), (53, 53, St 323), (58, 58, St 306), (93, 93, St 236),
      (49, 57, St 303), (97, 102, St 303), (65, 70, St 303)
      ] (St 0)]"

definition http_parser_blocks_39 :: "http_action block list" where
  "http_parser_blocks_39 = [
    Case 322 [] [(58, 58, St 306), (93, 93, St 236), (48, 57, St 320), (97, 102, St 304), (65, 70, St 304)] (St 0),
    Case 323 [] [
      (48, 48, St 320), (58, 58, St 306), (93, 93, St 236), (49, 57, St 304), (97, 102, St 304),
      (65, 70, St 304)
      ] (St 0),
    Case 324 [] [(58, 58, St 306), (93, 93, St 236), (48, 57, St 303), (97, 102, St 303), (65, 70, St 303)] (St 0),
    Case 325 [] [
      (49, 49, St 318), (50, 50, St 321), (2, 3, St 223), (97, 102, St 324), (65, 70, St 324), (48, 57, St 302)
      ] (St 0),
    Case 326 [] [
      (49, 49, St 331), (50, 50, St 334), (2, 3, St 223), (97, 102, St 337), (65, 70, St 337), (48, 57, St 327)
      ] (St 0),
    Case 327 [] [(46, 46, St 230), (58, 58, St 306), (48, 57, St 328), (97, 102, St 328), (65, 70, St 328)] (St 0),
    Case 328 [] [(58, 58, St 306), (48, 57, St 329), (97, 102, St 329), (65, 70, St 329)] (St 0),
    Case 329 [] [(58, 58, St 306), (48, 57, St 330), (97, 102, St 330), (65, 70, St 330)] (St 0),
    Case 330 [] [(58, 58, St 306)] (St 0)]"

definition http_parser_blocks_40 :: "http_action block list" where
  "http_parser_blocks_40 = [
    Case 331 [] [(46, 46, St 230), (58, 58, St 306), (48, 57, St 332), (97, 102, St 328), (65, 70, St 328)] (St 0),
    Case 332 [] [(46, 46, St 230), (58, 58, St 306), (48, 57, St 333), (97, 102, St 329), (65, 70, St 329)] (St 0),
    Case 333 [] [(46, 46, St 230), (58, 58, St 306), (48, 57, St 330), (97, 102, St 330), (65, 70, St 330)] (St 0),
    Case 334 [] [
      (46, 46, St 230), (48, 48, St 335), (53, 53, St 336), (58, 58, St 306), (49, 57, St 328),
      (97, 102, St 328), (65, 70, St 328)
      ] (St 0),
    Case 335 [] [(58, 58, St 306), (48, 57, St 333), (97, 102, St 329), (65, 70, St 329)] (St 0),
    Case 336 [] [(48, 48, St 333), (58, 58, St 306), (49, 57, St 329), (97, 102, St 329), (65, 70, St 329)] (St 0),
    Case 337 [] [(58, 58, St 306), (48, 57, St 328), (97, 102, St 328), (65, 70, St 328)] (St 0),
    Case 338 [] [(2, 3, St 223), (97, 102, St 224), (65, 70, St 224), (48, 57, St 224)] (St 0),
    Case 339 [] [(2, 3, St 223)] (St 0),
    Case 340 [] [(3, 3, St 223)] (St 0)]"

definition http_parser_blocks_41 :: "http_action block list" where
  "http_parser_blocks_41 = [
    Case 341 [] [(4, 4, St 223)] (St 0),
    Case 342 [] [(58, 58, St 343)] (St 0),
    Case 343 [] [
      (49, 49, St 318), (50, 50, St 321), (93, 93, St 236), (2, 5, St 223), (97, 102, St 324),
      (65, 70, St 324), (48, 57, St 302)
      ] (St 0),
    Case 344 [] [(48, 57, St 345), (97, 102, St 345), (65, 70, St 345)] (St 0),
    Case 345 [] [(46, 46, St 346), (48, 57, St 345), (97, 102, St 345), (65, 70, St 345)] (St 0),
    Case 346 [94, 123, 125] [
      (33, 33, St 347), (36, 36, St 347), (61, 61, St 347), (95, 95, St 347), (126, 126, St 347),
      (606, 606, St 347), (635, 635, St 347), (637, 637, St 347), (38, 46, St 347), (97, 122, St 347),
      (65, 90, St 347), (48, 59, St 347)
      ] (St 0),
    Case 347 [94, 123, 125] [
      (33, 33, St 347), (36, 36, St 347), (61, 61, St 347), (93, 93, St 236), (95, 95, St 347),
      (126, 126, St 347), (606, 606, St 347), (635, 635, St 347), (637, 637, St 347), (38, 46, St 347),
      (97, 122, St 347), (65, 90, St 347), (48, 59, St 347)
      ] (St 0)]"

definition http_parser_blocks :: "http_action block list" where
  "http_parser_blocks =
     http_parser_blocks_1 @ http_parser_blocks_2 @ http_parser_blocks_3 @ http_parser_blocks_4 @
     http_parser_blocks_5 @ http_parser_blocks_6 @ http_parser_blocks_7 @ http_parser_blocks_8 @
     http_parser_blocks_9 @ http_parser_blocks_10 @ http_parser_blocks_11 @ http_parser_blocks_12 @
     http_parser_blocks_13 @ http_parser_blocks_14 @ http_parser_blocks_15 @ http_parser_blocks_16 @
     http_parser_blocks_17 @ http_parser_blocks_18 @ http_parser_blocks_19 @ http_parser_blocks_20 @
     http_parser_blocks_21 @ http_parser_blocks_22 @ http_parser_blocks_23 @ http_parser_blocks_24 @
     http_parser_blocks_25 @ http_parser_blocks_26 @ http_parser_blocks_27 @ http_parser_blocks_28 @
     http_parser_blocks_29 @ http_parser_blocks_30 @ http_parser_blocks_31 @ http_parser_blocks_32 @
     http_parser_blocks_33 @ http_parser_blocks_34 @ http_parser_blocks_35 @ http_parser_blocks_36 @
     http_parser_blocks_37 @ http_parser_blocks_38 @ http_parser_blocks_39 @ http_parser_blocks_40 @
     http_parser_blocks_41"

section \<open>Lookups\<close>

text \<open>The transitions, and the states a request of one line and its headers goes through.\<close>

lemma http_transitions:
  "transitions http_parser_blocks = [
     (0, [A_mark], 2), (4, [A_request_method], 3), (6, [A_mark, A_request_path, A_request_uri], 4),
     (37, [A_request_path, A_request_uri], 4), (43, [A_mark, A_fragment], 4), (46, [A_fragment], 4),
     (53, [A_start_query, A_query_string, A_request_uri], 4), (57, [A_query_string, A_request_uri], 4),
     (13, [A_mark], 5), (21, [A_http_version], 13), (30, [A_start_value, A_write_value], 13),
     (33, [A_write_value], 13), (23, [A_start_field], 14), (27, [A_write_field], 15),
     (29, [A_start_value], 15), (28, [A_start_value], 16), (22, [A_http_version], 17),
     (31, [A_start_value, A_write_value], 17), (34, [A_write_value], 17), (24, [A_start_field, A_done], 348),
     (36, [A_done], 348), (25, [A_start_field], 18), (7, [A_mark], 19),
     (8, [A_mark, A_request_path, A_request_uri], 20), (39, [A_request_path, A_request_uri], 20),
     (55, [A_start_query, A_query_string, A_request_uri], 20), (59, [A_query_string, A_request_uri], 20),
     (44, [A_mark], 21), (45, [A_mark], 22), (9, [A_mark], 24), (203, [A_mark], 26), (204, [A_mark], 27),
     (11, [A_mark, A_request_path], 29), (42, [A_request_path], 29), (54, [A_start_query], 30),
     (56, [A_start_query], 31), (10, [A_mark], 33), (12, [A_mark], 173), (2, [A_mark], 194),
     (224, [A_request_path], 196), (227, [A_xml, A_done], 349), (235, [A_json, A_done], 349),
     (3, [A_mark], 198), (228, [A_request_path], 199), (232, [A_mark], 200)]"
  by code_simp

lemma http_targets [simp]:
  "target (transitions http_parser_blocks) (Tr 0) = Some ([A_mark], 2)"
  "target (transitions http_parser_blocks) (Tr 4) = Some ([A_request_method], 3)"
  "target (transitions http_parser_blocks) (Tr 6) = Some ([A_mark, A_request_path, A_request_uri], 4)"
  "target (transitions http_parser_blocks) (Tr 37) = Some ([A_request_path, A_request_uri], 4)"
  "target (transitions http_parser_blocks) (Tr 43) = Some ([A_mark, A_fragment], 4)"
  "target (transitions http_parser_blocks) (Tr 46) = Some ([A_fragment], 4)"
  "target (transitions http_parser_blocks) (Tr 53) = Some ([A_start_query, A_query_string, A_request_uri], 4)"
  "target (transitions http_parser_blocks) (Tr 57) = Some ([A_query_string, A_request_uri], 4)"
  "target (transitions http_parser_blocks) (Tr 13) = Some ([A_mark], 5)"
  "target (transitions http_parser_blocks) (Tr 21) = Some ([A_http_version], 13)"
  "target (transitions http_parser_blocks) (Tr 30) = Some ([A_start_value, A_write_value], 13)"
  "target (transitions http_parser_blocks) (Tr 33) = Some ([A_write_value], 13)"
  "target (transitions http_parser_blocks) (Tr 23) = Some ([A_start_field], 14)"
  "target (transitions http_parser_blocks) (Tr 27) = Some ([A_write_field], 15)"
  "target (transitions http_parser_blocks) (Tr 29) = Some ([A_start_value], 15)"
  "target (transitions http_parser_blocks) (Tr 28) = Some ([A_start_value], 16)"
  "target (transitions http_parser_blocks) (Tr 22) = Some ([A_http_version], 17)"
  "target (transitions http_parser_blocks) (Tr 31) = Some ([A_start_value, A_write_value], 17)"
  "target (transitions http_parser_blocks) (Tr 34) = Some ([A_write_value], 17)"
  "target (transitions http_parser_blocks) (Tr 24) = Some ([A_start_field, A_done], 348)"
  "target (transitions http_parser_blocks) (Tr 36) = Some ([A_done], 348)"
  "target (transitions http_parser_blocks) (Tr 25) = Some ([A_start_field], 18)"
  "target (transitions http_parser_blocks) (Tr 7) = Some ([A_mark], 19)"
  "target (transitions http_parser_blocks) (Tr 8) = Some ([A_mark, A_request_path, A_request_uri], 20)"
  "target (transitions http_parser_blocks) (Tr 39) = Some ([A_request_path, A_request_uri], 20)"
  "target (transitions http_parser_blocks) (Tr 55) = Some ([A_start_query, A_query_string, A_request_uri], 20)"
  "target (transitions http_parser_blocks) (Tr 59) = Some ([A_query_string, A_request_uri], 20)"
  "target (transitions http_parser_blocks) (Tr 44) = Some ([A_mark], 21)"
  "target (transitions http_parser_blocks) (Tr 45) = Some ([A_mark], 22)"
  "target (transitions http_parser_blocks) (Tr 9) = Some ([A_mark], 24)"
  "target (transitions http_parser_blocks) (Tr 203) = Some ([A_mark], 26)"
  "target (transitions http_parser_blocks) (Tr 204) = Some ([A_mark], 27)"
  "target (transitions http_parser_blocks) (Tr 11) = Some ([A_mark, A_request_path], 29)"
  "target (transitions http_parser_blocks) (Tr 42) = Some ([A_request_path], 29)"
  "target (transitions http_parser_blocks) (Tr 54) = Some ([A_start_query], 30)"
  "target (transitions http_parser_blocks) (Tr 56) = Some ([A_start_query], 31)"
  "target (transitions http_parser_blocks) (Tr 10) = Some ([A_mark], 33)"
  "target (transitions http_parser_blocks) (Tr 12) = Some ([A_mark], 173)"
  "target (transitions http_parser_blocks) (Tr 2) = Some ([A_mark], 194)"
  "target (transitions http_parser_blocks) (Tr 224) = Some ([A_request_path], 196)"
  "target (transitions http_parser_blocks) (Tr 227) = Some ([A_xml, A_done], 349)"
  "target (transitions http_parser_blocks) (Tr 235) = Some ([A_json, A_done], 349)"
  "target (transitions http_parser_blocks) (Tr 3) = Some ([A_mark], 198)"
  "target (transitions http_parser_blocks) (Tr 228) = Some ([A_request_path], 199)"
  "target (transitions http_parser_blocks) (Tr 232) = Some ([A_mark], 200)"
  by (simp_all add: target.simps http_transitions)

lemmas http_parts =
  http_parser_blocks_1_def http_parser_blocks_2_def http_parser_blocks_3_def http_parser_blocks_4_def
  http_parser_blocks_5_def http_parser_blocks_6_def http_parser_blocks_7_def http_parser_blocks_8_def
  http_parser_blocks_9_def http_parser_blocks_10_def http_parser_blocks_11_def http_parser_blocks_12_def
  http_parser_blocks_13_def http_parser_blocks_14_def http_parser_blocks_15_def http_parser_blocks_16_def
  http_parser_blocks_17_def http_parser_blocks_18_def http_parser_blocks_19_def http_parser_blocks_20_def
  http_parser_blocks_21_def http_parser_blocks_22_def http_parser_blocks_23_def http_parser_blocks_24_def
  http_parser_blocks_25_def http_parser_blocks_26_def http_parser_blocks_27_def http_parser_blocks_28_def
  http_parser_blocks_29_def http_parser_blocks_30_def http_parser_blocks_31_def http_parser_blocks_32_def
  http_parser_blocks_33_def http_parser_blocks_34_def http_parser_blocks_35_def http_parser_blocks_36_def
  http_parser_blocks_37_def http_parser_blocks_38_def http_parser_blocks_39_def http_parser_blocks_40_def
  http_parser_blocks_41_def

lemma http_numbers:
  "numbers http_parser_blocks_1 = [1, 2, 3]"
  "numbers http_parser_blocks_2 = [4, 5, 6, 7, 8, 9, 10, 11, 12, 13]"
  "numbers http_parser_blocks_3 = [14, 15, 16, 17]"
  "numbers http_parser_blocks_4 = [348, 18, 19]"
  "numbers http_parser_blocks_5 = [20, 21]"
  "numbers http_parser_blocks_6 = [22, 23, 24, 25, 26, 27, 28]"
  "numbers http_parser_blocks_7 = [29, 30, 31, 32]"
  "numbers http_parser_blocks_8 = [33, 34, 35]"
  "numbers http_parser_blocks_9 = [36, 37, 38, 39, 40, 41]"
  "numbers http_parser_blocks_10 = [42, 43, 44, 45, 46, 47]"
  "numbers http_parser_blocks_11 = [48, 49, 50, 51, 52, 53, 54, 55, 56, 57, 58, 59]"
  "numbers http_parser_blocks_12 = [60, 61, 62, 63, 64, 65, 66, 67, 68, 69, 70, 71, 72, 73, 74, 75, 76]"
  "numbers http_parser_blocks_13 = [77, 78, 79, 80, 81, 82, 83, 84, 85, 86]"
  "numbers http_parser_blocks_14 = [87, 88, 89, 90, 91, 92, 93, 94, 95, 96]"
  "numbers http_parser_blocks_15 = [97, 98, 99, 100, 101, 102, 103, 104, 105, 106, 107]"
  "numbers http_parser_blocks_16 = [108, 109, 110, 111, 112, 113, 114, 115, 116, 117, 118]"
  "numbers http_parser_blocks_17 = [119, 120, 121, 122, 123, 124, 125, 126, 127, 128]"
  "numbers http_parser_blocks_18 = [129, 130, 131, 132, 133, 134, 135, 136, 137, 138]"
  "numbers http_parser_blocks_19 = [139, 140, 141, 142, 143, 144, 145, 146]"
  "numbers http_parser_blocks_20 = [147, 148, 149, 150, 151, 152, 153, 154, 155]"
  "numbers http_parser_blocks_21 = [156, 157, 158, 159, 160, 161, 162, 163, 164, 165]"
  "numbers http_parser_blocks_22 = [166, 167, 168, 169, 170, 171, 172]"
  "numbers http_parser_blocks_23 = [173, 174, 175, 176, 177]"
  "numbers http_parser_blocks_24 = [178, 179, 180, 181, 182, 183, 184, 185, 186, 187, 188, 189]"
  "numbers http_parser_blocks_25 = [190, 191, 192, 193, 194, 195, 196, 197]"
  "numbers http_parser_blocks_26 = [349, 198, 199, 200, 201, 202]"
  "numbers http_parser_blocks_27 = [203, 204, 205, 206, 207, 208, 209]"
  "numbers http_parser_blocks_28 = [210, 211, 212, 213, 214]"
  "numbers http_parser_blocks_29 = [215, 216, 217, 218, 219, 220]"
  "numbers http_parser_blocks_30 = [221, 222, 223, 224, 225, 226, 227, 228, 229, 230, 231]"
  "numbers http_parser_blocks_31 = [
     232, 233, 234, 235, 236, 237, 238, 239, 240, 241, 242, 243, 244, 245, 246, 247, 248]"
  "numbers http_parser_blocks_32 = [249, 250, 251, 252, 253, 254, 255, 256, 257, 258, 259, 260]"
  "numbers http_parser_blocks_33 = [261, 262, 263, 264, 265, 266, 267, 268, 269, 270]"
  "numbers http_parser_blocks_34 = [271, 272, 273, 274, 275, 276, 277, 278, 279, 280, 281]"
  "numbers http_parser_blocks_35 = [282, 283, 284, 285, 286, 287, 288, 289, 290, 291, 292]"
  "numbers http_parser_blocks_36 = [293, 294, 295, 296, 297, 298, 299, 300, 301, 302, 303]"
  "numbers http_parser_blocks_37 = [304, 305, 306, 307, 308, 309, 310, 311, 312, 313]"
  "numbers http_parser_blocks_38 = [314, 315, 316, 317, 318, 319, 320, 321]"
  "numbers http_parser_blocks_39 = [322, 323, 324, 325, 326, 327, 328, 329, 330]"
  "numbers http_parser_blocks_40 = [331, 332, 333, 334, 335, 336, 337, 338, 339, 340]"
  "numbers http_parser_blocks_41 = [341, 342, 343, 344, 345, 346, 347]"
  by (simp_all add: http_parts)

lemmas http_lookup = http_parser_blocks_def find_case_append find_case_None http_numbers
lemma http_cases_1:
  "find_case http_parser_blocks 1 = Some ([], [
     (60, 60, Tr 2), (64, 64, Tr 3), (65, 90, Tr 0), (48, 57, Tr 0)], St 0)"
  "find_case http_parser_blocks 2 = Some ([], [(32, 32, Tr 4), (65, 90, St 175), (48, 57, St 175)], St 0)"
  "find_case http_parser_blocks 3 = Some ([94, 123, 125], [
     (32, 32, Tr 6), (33, 33, Tr 7), (35, 35, Tr 8), (37, 37, Tr 9), (47, 47, Tr 10), (59, 59, Tr 7),
     (61, 61, Tr 7), (63, 63, Tr 11), (64, 64, Tr 7), (95, 95, Tr 7), (126, 126, Tr 7), (606, 606, Tr 7),
     (635, 635, Tr 7), (637, 637, Tr 7), (36, 57, Tr 7), (97, 122, Tr 12), (65, 90, Tr 12)], St 0)"
  by (simp_all add: http_lookup http_parser_blocks_1_def)
lemma http_cases_2:
  "find_case http_parser_blocks 4 = Some ([], [(72, 72, Tr 13)], St 0)"
  "find_case http_parser_blocks 5 = Some ([], [(84, 84, St 6)], St 0)"
  "find_case http_parser_blocks 6 = Some ([], [(84, 84, St 7)], St 0)"
  "find_case http_parser_blocks 7 = Some ([], [(80, 80, St 8)], St 0)"
  "find_case http_parser_blocks 8 = Some ([], [(47, 47, St 9)], St 0)"
  "find_case http_parser_blocks 9 = Some ([], [(49, 49, St 10)], St 0)"
  "find_case http_parser_blocks 10 = Some ([], [(46, 46, St 11)], St 0)"
  "find_case http_parser_blocks 11 = Some ([], [(48, 49, St 12)], St 0)"
  "find_case http_parser_blocks 12 = Some ([], [(10, 10, Tr 21), (13, 13, Tr 22)], St 0)"
  "find_case http_parser_blocks 13 = Some ([], [
     (10, 10, Tr 24), (13, 13, Tr 25), (33, 33, Tr 23), (124, 124, Tr 23), (126, 126, Tr 23), (1, 8, Tr 23),
     (35, 39, Tr 23), (11, 31, Tr 23), (45, 46, Tr 23), (94, 122, Tr 23), (65, 90, Tr 23), (48, 57, Tr 23),
     (42, 43, Tr 23)], St 0)"
  by (simp_all add: http_lookup http_parser_blocks_2_def)
lemma http_cases_3:
  "find_case http_parser_blocks 14 = Some ([], [
     (33, 33, St 14), (58, 58, Tr 27), (124, 124, St 14), (126, 126, St 14), (1, 8, St 14), (35, 39, St 14),
     (10, 31, St 14), (45, 46, St 14), (94, 122, St 14), (65, 90, St 14), (48, 57, St 14), (42, 43, St 14)], St 0)"
  "find_case http_parser_blocks 15 = Some ([], [
     (0, 0, St 0), (9, 9, Tr 29), (10, 10, Tr 30), (13, 13, Tr 31), (32, 32, Tr 29), (127, 127, St 0)], Tr 28)"
  "find_case http_parser_blocks 16 = Some ([], [
     (0, 0, St 0), (10, 10, Tr 33), (13, 13, Tr 34), (127, 127, St 0)], St 16)"
  "find_case http_parser_blocks 17 = Some ([], [(10, 10, St 13)], St 0)"
  by (simp_all add: http_lookup http_parser_blocks_3_def)
lemma http_cases_4:
  "find_case http_parser_blocks 348 = Some ([], [
     (33, 33, St 14), (58, 58, Tr 27), (124, 124, St 14), (126, 126, St 14), (1, 8, St 14), (35, 39, St 14),
     (10, 31, St 14), (45, 46, St 14), (94, 122, St 14), (65, 90, St 14), (48, 57, St 14), (42, 43, St 14)], St 0)"
  "find_case http_parser_blocks 18 = Some ([], [
     (10, 10, Tr 36), (33, 33, St 14), (58, 58, Tr 27), (124, 124, St 14), (126, 126, St 14), (1, 8, St 14),
     (35, 39, St 14), (11, 31, St 14), (45, 46, St 14), (94, 122, St 14), (65, 90, St 14), (48, 57, St 14),
     (42, 43, St 14)], St 0)"
  "find_case http_parser_blocks 19 = Some ([94, 123, 125], [
     (32, 32, Tr 37), (33, 33, St 19), (35, 35, Tr 39), (37, 37, St 24), (47, 47, St 26), (59, 59, St 19),
     (61, 61, St 19), (63, 63, Tr 42), (95, 95, St 19), (126, 126, St 19), (606, 606, St 19),
     (635, 635, St 19), (637, 637, St 19), (36, 57, St 19), (97, 122, St 19), (64, 90, St 19)], St 0)"
  by (simp_all add: http_lookup http_parser_blocks_4_def)
lemma http_cases_5:
  "find_case http_parser_blocks 20 = Some ([94, 123, 125], [
     (32, 32, Tr 43), (33, 33, Tr 44), (37, 37, Tr 45), (61, 61, Tr 44), (95, 95, Tr 44), (126, 126, Tr 44),
     (606, 606, Tr 44), (635, 635, Tr 44), (637, 637, Tr 44), (36, 59, Tr 44), (97, 122, Tr 44),
     (63, 90, Tr 44)], St 0)"
  "find_case http_parser_blocks 21 = Some ([94, 123, 125], [
     (32, 32, Tr 46), (33, 33, St 21), (37, 37, St 22), (61, 61, St 21), (95, 95, St 21), (126, 126, St 21),
     (606, 606, St 21), (635, 635, St 21), (637, 637, St 21), (36, 59, St 21), (97, 122, St 21),
     (63, 90, St 21)], St 0)"
  by (simp_all add: http_lookup http_parser_blocks_5_def)
lemma http_cases_6:
  "find_case http_parser_blocks 22 = Some ([], [(48, 57, St 23), (97, 102, St 23), (65, 70, St 23)], St 0)"
  "find_case http_parser_blocks 23 = Some ([], [(48, 57, St 21), (97, 102, St 21), (65, 70, St 21)], St 0)"
  "find_case http_parser_blocks 24 = Some ([], [(48, 57, St 25), (97, 102, St 25), (65, 70, St 25)], St 0)"
  "find_case http_parser_blocks 25 = Some ([], [(48, 57, St 19), (97, 102, St 19), (65, 70, St 19)], St 0)"
  "find_case http_parser_blocks 26 = Some ([94, 123, 125], [
     (32, 32, Tr 37), (33, 33, St 26), (35, 35, Tr 39), (37, 37, St 27), (61, 61, St 26), (63, 63, Tr 42),
     (95, 95, St 26), (126, 126, St 26), (606, 606, St 26), (635, 635, St 26), (637, 637, St 26),
     (36, 59, St 26), (97, 122, St 26), (64, 90, St 26)], St 0)"
  "find_case http_parser_blocks 27 = Some ([], [(48, 57, St 28), (97, 102, St 28), (65, 70, St 28)], St 0)"
  "find_case http_parser_blocks 28 = Some ([], [(48, 57, St 26), (97, 102, St 26), (65, 70, St 26)], St 0)"
  by (simp_all add: http_lookup http_parser_blocks_6_def)
lemma http_cases_7:
  "find_case http_parser_blocks 29 = Some ([94, 123, 125], [
     (32, 32, Tr 53), (33, 33, Tr 54), (35, 35, Tr 55), (37, 37, Tr 56), (61, 61, Tr 54), (95, 95, Tr 54),
     (126, 126, Tr 54), (606, 606, Tr 54), (635, 635, Tr 54), (637, 637, Tr 54), (36, 59, Tr 54),
     (97, 122, Tr 54), (63, 90, Tr 54)], St 0)"
  "find_case http_parser_blocks 30 = Some ([94, 123, 125], [
     (32, 32, Tr 57), (33, 33, St 30), (35, 35, Tr 59), (37, 37, St 31), (61, 61, St 30), (95, 95, St 30),
     (126, 126, St 30), (606, 606, St 30), (635, 635, St 30), (637, 637, St 30), (36, 59, St 30),
     (97, 122, St 30), (63, 90, St 30)], St 0)"
  "find_case http_parser_blocks 31 = Some ([], [(48, 57, St 32), (97, 102, St 32), (65, 70, St 32)], St 0)"
  by (simp_all add: http_lookup http_parser_blocks_7_def)
lemma http_cases_8:
  "find_case http_parser_blocks 33 = Some ([94, 123, 125], [
     (32, 32, Tr 37), (33, 33, St 26), (35, 35, Tr 39), (37, 37, St 27), (47, 47, St 34), (61, 61, St 26),
     (63, 63, Tr 42), (95, 95, St 26), (126, 126, St 26), (606, 606, St 26), (635, 635, St 26),
     (637, 637, St 26), (36, 59, St 26), (97, 122, St 26), (64, 90, St 26)], St 0)"
  by (simp_all add: http_lookup http_parser_blocks_8_def)
lemma http_cases_23:
  "find_case http_parser_blocks 175 = Some ([], [(32, 32, Tr 4), (65, 90, St 176), (48, 57, St 176)], St 0)"
  "find_case http_parser_blocks 176 = Some ([], [(32, 32, Tr 4), (65, 90, St 177), (48, 57, St 177)], St 0)"
  "find_case http_parser_blocks 177 = Some ([], [(32, 32, Tr 4), (65, 90, St 178), (48, 57, St 178)], St 0)"
  by (simp_all add: http_lookup http_parser_blocks_23_def)
lemma http_cases_24:
  "find_case http_parser_blocks 178 = Some ([], [(32, 32, Tr 4), (65, 90, St 179), (48, 57, St 179)], St 0)"
  "find_case http_parser_blocks 179 = Some ([], [(32, 32, Tr 4), (65, 90, St 180), (48, 57, St 180)], St 0)"
  "find_case http_parser_blocks 180 = Some ([], [(32, 32, Tr 4), (65, 90, St 181), (48, 57, St 181)], St 0)"
  "find_case http_parser_blocks 181 = Some ([], [(32, 32, Tr 4), (65, 90, St 182), (48, 57, St 182)], St 0)"
  "find_case http_parser_blocks 182 = Some ([], [(32, 32, Tr 4), (65, 90, St 183), (48, 57, St 183)], St 0)"
  "find_case http_parser_blocks 183 = Some ([], [(32, 32, Tr 4), (65, 90, St 184), (48, 57, St 184)], St 0)"
  "find_case http_parser_blocks 184 = Some ([], [(32, 32, Tr 4), (65, 90, St 185), (48, 57, St 185)], St 0)"
  "find_case http_parser_blocks 185 = Some ([], [(32, 32, Tr 4), (65, 90, St 186), (48, 57, St 186)], St 0)"
  "find_case http_parser_blocks 186 = Some ([], [(32, 32, Tr 4), (65, 90, St 187), (48, 57, St 187)], St 0)"
  "find_case http_parser_blocks 187 = Some ([], [(32, 32, Tr 4), (65, 90, St 188), (48, 57, St 188)], St 0)"
  "find_case http_parser_blocks 188 = Some ([], [(32, 32, Tr 4), (65, 90, St 189), (48, 57, St 189)], St 0)"
  "find_case http_parser_blocks 189 = Some ([], [(32, 32, Tr 4), (65, 90, St 190), (48, 57, St 190)], St 0)"
  by (simp_all add: http_lookup http_parser_blocks_24_def)
lemma http_cases_25:
  "find_case http_parser_blocks 190 = Some ([], [(32, 32, Tr 4), (65, 90, St 191), (48, 57, St 191)], St 0)"
  "find_case http_parser_blocks 191 = Some ([], [(32, 32, Tr 4), (65, 90, St 192), (48, 57, St 192)], St 0)"
  "find_case http_parser_blocks 192 = Some ([], [(32, 32, Tr 4), (65, 90, St 193), (48, 57, St 193)], St 0)"
  "find_case http_parser_blocks 193 = Some ([], [(32, 32, Tr 4)], St 0)"
  by (simp_all add: http_lookup http_parser_blocks_25_def)
lemma http_cases_26:
  "find_case http_parser_blocks 349 = Some ([], [], St 0)"
  by (simp_all add: http_lookup http_parser_blocks_26_def)
lemmas http_cases =
  http_cases_1 http_cases_2 http_cases_3 http_cases_4 http_cases_5 http_cases_6 http_cases_7
  http_cases_8 http_cases_23 http_cases_24 http_cases_25 http_cases_26

end
