(* ===== verification/HttpParser.thy ===== *)
theory HttpParser
  imports Http_Lemmas
begin

text \<open>
  \<^verbatim>\<open>src/myhttp/http/http_parser.h\<close> and \<^verbatim>\<open>http_parser.cpp\<close>: the objects that collect what the generated
  state machines recognise.  A machine (\<^verbatim>\<open>http11_parser.rl.cc\<close>, \<^verbatim>\<open>httpclient_parser.rl.cc\<close>, generated by
  Ragel) is a parameter: its state is the type variable, \<open>execute\<close> maps state and buffer to the number of
  bytes read, the new state and the callbacks made in order.  A callback gets a pointer into the buffer
  and a length; here it gets the index.  \<open>boost::lexical_cast\<close> is a parameter as in \<open>Http\<close>.
\<close>

section \<open>Limits\<close>

record parser_limits =
  s_http_request_buffer_size :: u64
  s_http_request_max_body_size :: u64
  s_http_response_buffer_size :: u64
  s_http_response_max_body_size :: u64

definition default_limits :: parser_limits where
  "default_limits =
     \<lparr>s_http_request_buffer_size = 4 * 1024, s_http_request_max_body_size = 64 * 1024 * 1024,
      s_http_response_buffer_size = 4 * 1024, s_http_response_max_body_size = 64 * 1024 * 1024\<rparr>"

text \<open>The configuration variables and what their listeners, run in the order of their registration, do on
  a change to \<open>nv\<close>.\<close>

datatype limit_var = request_buffer_size | request_max_body_size | response_buffer_size | response_max_body_size

definition limits_changed :: "limit_var \<Rightarrow> u64 \<Rightarrow> parser_limits \<Rightarrow> parser_limits" where
  "limits_changed var nv l =
     (case var of
        request_buffer_size \<Rightarrow> l\<lparr>s_http_request_buffer_size := nv, s_http_request_max_body_size := nv\<rparr>
      | request_max_body_size \<Rightarrow> l
      | response_buffer_size \<Rightarrow> l\<lparr>s_http_response_buffer_size := nv, s_http_response_max_body_size := nv\<rparr>
      | response_max_body_size \<Rightarrow> l)"

section \<open>Requests\<close>

record 'p HttpRequestParser =
  rp_parser :: 'p
  rp_data :: HttpRequest
  rp_error :: int

datatype request_event =
    E_request_method nat nat
  | E_request_uri nat nat
  | E_fragment nat nat
  | E_request_path nat nat
  | E_query_string nat nat
  | E_http_version nat nat
  | E_header_done nat nat
  | E_http_field nat nat nat nat

text \<open>\<open>std::string(at, length)\<close> of a text in the buffer throws \<open>length_error\<close> when the length cannot be that
  of a string; otherwise the text must lie in the bytes received.\<close>

definition str_at :: "string \<Rightarrow> nat \<Rightarrow> nat \<Rightarrow> string" where
  "str_at data at len = take len (drop at data)"

definition std_string :: "string \<Rightarrow> nat \<Rightarrow> nat \<Rightarrow> string result" where
  "std_string data at len =
     (if 2 ^ 62 \<le> len then Inl (LogicError ''basic_string::_M_create'')
      else if at + len \<le> length data then Inr (str_at data at len) else Inl OutOfBounds)"

text \<open>The comparisons with the names of the methods stop at the character behind the text, which no name has:
  it must have been received.\<close>

definition on_request_method :: "string \<Rightarrow> nat \<Rightarrow> nat \<Rightarrow> 'p HttpRequestParser \<Rightarrow> 'p HttpRequestParser result" where
  "on_request_method data at len p =
     (let m = CharsToHttpMethod (c_str (drop at data))
      in if \<not> at + len < length data then Inl OutOfBounds
         else if m = HTT_INVALID_METHOD then Inr (p\<lparr>rp_error := 1000\<rparr>)
         else Inr (p\<lparr>rp_data := (rp_data p)\<lparr>rq_method := m\<rparr>\<rparr>))"

definition on_request_uri :: "string \<Rightarrow> nat \<Rightarrow> nat \<Rightarrow> 'p HttpRequestParser \<Rightarrow> 'p HttpRequestParser result" where
  "on_request_uri data at len p = Inr p"

definition on_request_fragment :: "string \<Rightarrow> nat \<Rightarrow> nat \<Rightarrow> 'p HttpRequestParser \<Rightarrow> 'p HttpRequestParser result" where
  "on_request_fragment data at len p =
     bindR (std_string data at len) (\<lambda>s. Inr (p\<lparr>rp_data := (rp_data p)\<lparr>rq_fragment := s\<rparr>\<rparr>))"

definition on_request_path :: "string \<Rightarrow> nat \<Rightarrow> nat \<Rightarrow> 'p HttpRequestParser \<Rightarrow> 'p HttpRequestParser result" where
  "on_request_path data at len p =
     bindR (std_string data at len) (\<lambda>s. Inr (p\<lparr>rp_data := (rp_data p)\<lparr>rq_path := s\<rparr>\<rparr>))"

definition on_request_query :: "string \<Rightarrow> nat \<Rightarrow> nat \<Rightarrow> 'p HttpRequestParser \<Rightarrow> 'p HttpRequestParser result" where
  "on_request_query data at len p =
     bindR (std_string data at len) (\<lambda>s. Inr (p\<lparr>rp_data := (rp_data p)\<lparr>rq_query := s\<rparr>\<rparr>))"

text \<open>The version both parsers accept: \<open>strncmp\<close> with the length of the text, so any prefix will do.\<close>

definition version_at :: "string \<Rightarrow> nat \<Rightarrow> nat \<Rightarrow> u8 option result" where
  "version_at data at len =
     (if \<not> at + len \<le> length data then Inl OutOfBounds
      else Inr (if strncmp_eq (c_str (drop at data)) ''HTTP/1.1'' len then Some 0x11
      else if strncmp_eq (c_str (drop at data)) ''HTTP/1.0'' len then Some 0x10
      else None))"

definition on_request_version :: "string \<Rightarrow> nat \<Rightarrow> nat \<Rightarrow> 'p HttpRequestParser \<Rightarrow> 'p HttpRequestParser result" where
  "on_request_version data at len p =
     bindR (version_at data at len) (\<lambda>version. case version of
        None \<Rightarrow> Inr (p\<lparr>rp_error := 1001\<rparr>)
      | Some v \<Rightarrow> Inr (p\<lparr>rp_data := (rp_data p)\<lparr>rq_version := v\<rparr>\<rparr>))"

definition on_request_header_done :: "string \<Rightarrow> nat \<Rightarrow> nat \<Rightarrow> 'p HttpRequestParser \<Rightarrow> 'p HttpRequestParser result" where
  "on_request_header_done data at len p = Inr p"

definition on_request_http_field ::
  "string \<Rightarrow> nat \<Rightarrow> nat \<Rightarrow> nat \<Rightarrow> nat \<Rightarrow> 'p HttpRequestParser \<Rightarrow> 'p HttpRequestParser result" where
  "on_request_http_field data field flen val vlen p =
     (if flen = 0 then Inr (p\<lparr>rp_error := 1002\<rparr>)
      else bindR (std_string data field flen) (\<lambda>k. bindR (std_string data val vlen) (\<lambda>v.
        Inr (p\<lparr>rp_data := setHeader (rp_data p) k v\<rparr>))))"

primrec request_callback :: "string \<Rightarrow> request_event \<Rightarrow> 'p HttpRequestParser \<Rightarrow> 'p HttpRequestParser result" where
  "request_callback data (E_request_method at len) = on_request_method data at len"
| "request_callback data (E_request_uri at len) = on_request_uri data at len"
| "request_callback data (E_fragment at len) = on_request_fragment data at len"
| "request_callback data (E_request_path at len) = on_request_path data at len"
| "request_callback data (E_query_string at len) = on_request_query data at len"
| "request_callback data (E_http_version at len) = on_request_version data at len"
| "request_callback data (E_header_done at len) = on_request_header_done data at len"
| "request_callback data (E_http_field f fl v vl) = on_request_http_field data f fl v vl"

text \<open>The callbacks of one execution, up to an exception.\<close>

primrec callbacks :: "('e \<Rightarrow> 'a \<Rightarrow> 'a result) \<Rightarrow> 'e list \<Rightarrow> 'a \<Rightarrow> 'a result" where
  "callbacks f [] p = Inr p"
| "callbacks f (e # es) p = bindR (f e p) (callbacks f es)"

text \<open>A generated machine: initial state, execution, error and end.  Execution returns the bytes read, the new
  state and the callbacks made; it fails when an assertion does.\<close>

record ('p, 'e) machine =
  mc_init :: 'p
  mc_execute :: "'p \<Rightarrow> string \<Rightarrow> (nat \<times> 'p \<times> 'e list) result"
  mc_has_error :: "'p \<Rightarrow> bool"
  mc_is_finished :: "'p \<Rightarrow> bool"

definition mc_finish :: "('p, 'e) machine \<Rightarrow> 'p \<Rightarrow> int" where
  "mc_finish mc p = (if mc_has_error mc p then - 1 else if mc_is_finished mc p then 1 else 0)"

definition new_HttpRequestParser :: "('p, request_event) machine \<Rightarrow> 'p HttpRequestParser" where
  "new_HttpRequestParser mc =
     \<lparr>rp_parser = mc_init mc, rp_data = new_HttpRequest 0x11 True, rp_error = 0\<rparr>"

text \<open>\<open>execute\<close> returns the number of bytes read; \<open>memmove\<close> leaves the rest at the start of the buffer.\<close>

definition request_execute ::
  "('p, request_event) machine \<Rightarrow> string \<Rightarrow> 'p HttpRequestParser \<Rightarrow> (nat \<times> string \<times> 'p HttpRequestParser) result" where
  "request_execute mc data p =
     bindR (mc_execute mc (rp_parser p) data) (\<lambda>(n, p', evs).
     bindR (callbacks (request_callback data) evs p) (\<lambda>p.
       Inr (n, drop n data, p\<lparr>rp_parser := p'\<rparr>)))"

definition request_isFinished :: "('p, request_event) machine \<Rightarrow> 'p HttpRequestParser \<Rightarrow> int" where
  "request_isFinished mc p = mc_finish mc (rp_parser p)"

definition request_hasError :: "('p, request_event) machine \<Rightarrow> 'p HttpRequestParser \<Rightarrow> bool" where
  "request_hasError mc p \<longleftrightarrow> rp_error p \<noteq> 0 \<or> mc_has_error mc (rp_parser p)"

definition request_getContentLength :: "(string \<Rightarrow> u64 option) \<Rightarrow> 'p HttpRequestParser \<Rightarrow> u64" where
  "request_getContentLength lexical_cast p = getAs lexical_cast (rq_headers (rp_data p)) ''content-length'' 0"

section \<open>Responses\<close>

record 'p HttpResponseParser =
  sp_parser :: 'p
  sp_data :: HttpResponse
  sp_error :: int

datatype response_event =
    E_reason_phrase nat nat
  | E_status_code nat nat
  | E_chunk_size nat nat
  | E_response_version nat nat
  | E_response_header_done nat nat
  | E_last_chunk nat nat
  | E_response_field nat nat nat nat

text \<open>\<open>atoi\<close>: white space, a sign, digits; \<open>int\<close> arithmetic, cast to the enumeration.\<close>

definition c_isspace :: "char \<Rightarrow> bool" where
  "c_isspace c \<longleftrightarrow> of_char c = (32 :: nat) \<or> (9 \<le> (of_char c :: nat) \<and> of_char c \<le> (13 :: nat))"

definition atoi :: "string \<Rightarrow> int" where
  "atoi s =
     (let s = dropWhile c_isspace s;
          neg = (s \<noteq> [] \<and> hd s = CHR ''-'');
          s = (if s \<noteq> [] \<and> (hd s = CHR ''-'' \<or> hd s = CHR ''+'') then tl s else s);
          v = int (dec_value (takeWhile (\<lambda>c. digit_val c \<noteq> None) s))
      in if neg then - v else v)"

definition on_response_reason :: "string \<Rightarrow> nat \<Rightarrow> nat \<Rightarrow> 'p HttpResponseParser \<Rightarrow> 'p HttpResponseParser result" where
  "on_response_reason data at len p =
     bindR (std_string data at len) (\<lambda>s. Inr (p\<lparr>sp_data := (sp_data p)\<lparr>rs_reason := s\<rparr>\<rparr>))"

definition on_response_status :: "string \<Rightarrow> nat \<Rightarrow> nat \<Rightarrow> 'p HttpResponseParser \<Rightarrow> 'p HttpResponseParser result" where
  "on_response_status data at len p =
     Inr (p\<lparr>sp_data := (sp_data p)\<lparr>rs_status := word_of_int (atoi (c_str (drop at data)))\<rparr>\<rparr>)"

definition on_response_chunk :: "string \<Rightarrow> nat \<Rightarrow> nat \<Rightarrow> 'p HttpResponseParser \<Rightarrow> 'p HttpResponseParser result" where
  "on_response_chunk data at len p =
     bindR (std_string data at len) (\<lambda>s. Inr (p\<lparr>sp_data := (sp_data p)\<lparr>rs_reason := s\<rparr>\<rparr>))"

definition on_response_version :: "string \<Rightarrow> nat \<Rightarrow> nat \<Rightarrow> 'p HttpResponseParser \<Rightarrow> 'p HttpResponseParser result" where
  "on_response_version data at len p =
     bindR (version_at data at len) (\<lambda>version. case version of
        None \<Rightarrow> Inr (p\<lparr>sp_error := 1001\<rparr>)
      | Some v \<Rightarrow> Inr (p\<lparr>sp_data := (sp_data p)\<lparr>rs_version := v\<rparr>\<rparr>))"

definition on_response_header_done :: "string \<Rightarrow> nat \<Rightarrow> nat \<Rightarrow> 'p HttpResponseParser \<Rightarrow> 'p HttpResponseParser result" where
  "on_response_header_done data at len p = Inr p"

definition on_response_last_chunk :: "string \<Rightarrow> nat \<Rightarrow> nat \<Rightarrow> 'p HttpResponseParser \<Rightarrow> 'p HttpResponseParser result" where
  "on_response_last_chunk data at len p = Inr p"

definition on_response_http_field ::
  "string \<Rightarrow> nat \<Rightarrow> nat \<Rightarrow> nat \<Rightarrow> nat \<Rightarrow> 'p HttpResponseParser \<Rightarrow> 'p HttpResponseParser result" where
  "on_response_http_field data field flen val vlen p =
     (if flen = 0 then Inr (p\<lparr>sp_error := 1002\<rparr>)
      else bindR (std_string data field flen) (\<lambda>k. bindR (std_string data val vlen) (\<lambda>v.
        Inr (p\<lparr>sp_data := rs_setHeader (sp_data p) k v\<rparr>))))"

primrec response_callback :: "string \<Rightarrow> response_event \<Rightarrow> 'p HttpResponseParser \<Rightarrow> 'p HttpResponseParser result" where
  "response_callback data (E_reason_phrase at len) = on_response_reason data at len"
| "response_callback data (E_status_code at len) = on_response_status data at len"
| "response_callback data (E_chunk_size at len) = on_response_chunk data at len"
| "response_callback data (E_response_version at len) = on_response_version data at len"
| "response_callback data (E_response_header_done at len) = on_response_header_done data at len"
| "response_callback data (E_last_chunk at len) = on_response_last_chunk data at len"
| "response_callback data (E_response_field f fl v vl) = on_response_http_field data f fl v vl"

definition new_HttpResponseParser :: "('p, response_event) machine \<Rightarrow> 'p HttpResponseParser" where
  "new_HttpResponseParser mc =
     \<lparr>sp_parser = mc_init mc, sp_data = new_HttpResponse 0x11 True, sp_error = 0\<rparr>"

definition response_execute ::
  "('p, response_event) machine \<Rightarrow> string \<Rightarrow> bool \<Rightarrow> 'p HttpResponseParser \<Rightarrow> (nat \<times> string \<times> 'p HttpResponseParser) result" where
  "response_execute mc data chunck p =
     (let p = (if chunck then p\<lparr>sp_parser := mc_init mc\<rparr> else p)
      in bindR (mc_execute mc (sp_parser p) data) (\<lambda>(n, p', evs).
         bindR (callbacks (response_callback data) evs p) (\<lambda>p.
           Inr (n, drop n data, p\<lparr>sp_parser := p'\<rparr>))))"

definition response_isFinished :: "('p, response_event) machine \<Rightarrow> 'p HttpResponseParser \<Rightarrow> int" where
  "response_isFinished mc p = mc_finish mc (sp_parser p)"

definition response_hasError :: "('p, response_event) machine \<Rightarrow> 'p HttpResponseParser \<Rightarrow> bool" where
  "response_hasError mc p \<longleftrightarrow> sp_error p \<noteq> 0 \<or> mc_has_error mc (sp_parser p)"

definition response_getContentLength :: "(string \<Rightarrow> u64 option) \<Rightarrow> 'p HttpResponseParser \<Rightarrow> u64" where
  "response_getContentLength lexical_cast p = getAs lexical_cast (rs_headers (sp_data p)) ''content-length'' 0"

section \<open>Errors and headers\<close>

text \<open>The callbacks that are an error: an unknown method, a text that is no prefix of a known version, a
  field without a name.\<close>

definition bad_event :: "string \<Rightarrow> request_event \<Rightarrow> bool" where
  "bad_event data ev =
     (case ev of
        E_request_method at len \<Rightarrow> CharsToHttpMethod (c_str (drop at data)) = HTT_INVALID_METHOD
      | E_http_version at len \<Rightarrow> version_at data at len = Inr None
      | E_http_field f fl v vl \<Rightarrow> fl = 0
      | _ \<Rightarrow> False)"

definition field_of :: "string \<Rightarrow> request_event \<Rightarrow> (string \<times> string) list" where
  "field_of data ev =
     (case ev of E_http_field f fl v vl \<Rightarrow> if fl = 0 then [] else [(str_at data f fl, str_at data v vl)] | _ \<Rightarrow> [])"

text \<open>The callbacks that throw: a text whose length wrapped around.  The callbacks whose text lies in the bytes
  received.\<close>

definition throws :: "request_event \<Rightarrow> bool" where
  "throws ev =
     (case ev of
        E_fragment at len \<Rightarrow> 2 ^ 62 \<le> len
      | E_request_path at len \<Rightarrow> 2 ^ 62 \<le> len
      | E_query_string at len \<Rightarrow> 2 ^ 62 \<le> len
      | E_http_field f fl v vl \<Rightarrow> fl \<noteq> 0 \<and> (2 ^ 62 \<le> fl \<or> 2 ^ 62 \<le> vl)
      | _ \<Rightarrow> False)"

definition in_buffer :: "nat \<Rightarrow> request_event \<Rightarrow> bool" where
  "in_buffer n ev =
     (case ev of
        E_request_method at len \<Rightarrow> at + len < n
      | E_fragment at len \<Rightarrow> at + len \<le> n
      | E_request_path at len \<Rightarrow> at + len \<le> n
      | E_query_string at len \<Rightarrow> at + len \<le> n
      | E_http_version at len \<Rightarrow> at + len \<le> n
      | E_http_field f fl v vl \<Rightarrow> fl = 0 \<or> f + fl \<le> n \<and> v + vl \<le> n
      | _ \<Rightarrow> True)"

lemmas request_callback_defs = on_request_method_def on_request_uri_def on_request_fragment_def on_request_path_def
  on_request_query_def on_request_version_def on_request_header_done_def on_request_http_field_def std_string_def version_at_def

definition returns :: "string \<Rightarrow> request_event \<Rightarrow> bool" where
  "returns data ev \<longleftrightarrow> \<not> throws ev \<and> in_buffer (length data) ev"

lemma callback_returns: "(\<exists>q. request_callback data ev p = Inr q) \<longleftrightarrow> returns data ev"
  by (cases ev) (auto simp: request_callback_defs throws_def in_buffer_def returns_def Let_def result_iff split: if_splits)

lemma callback_error:
  "request_callback data ev p = Inr q \<Longrightarrow> rp_error q = 0 \<longleftrightarrow> rp_error p = 0 \<and> \<not> bad_event data ev"
  by (cases ev) (auto simp: request_callback_defs bad_event_def Let_def split: option.splits if_splits)

lemma callback_headers:
  "request_callback data ev p = Inr q \<Longrightarrow> rq_headers (rp_data q) = rq_headers (rq_hdr.puts (rp_data p) (field_of data ev))"
  by (cases ev) (auto simp: request_callback_defs field_of_def rq_hdr.puts_def Let_def split: option.splits if_splits)

lemma callback_keeps_machine: "request_callback data ev p = Inr q \<Longrightarrow> rp_parser q = rp_parser p"
  by (cases ev) (auto simp: request_callback_defs Let_def split: option.splits if_splits)

lemma callbacks_return: "(\<exists>q. callbacks (request_callback data) evs p = Inr q) \<longleftrightarrow> list_all (returns data) evs"
proof (induction evs arbitrary: p)
  case (Cons ev evs)
  show ?case
  proof (cases "returns data ev")
    case False
    then have "\<not> (\<exists>q. request_callback data ev p = Inr q)" by (simp only: callback_returns) simp
    then show ?thesis using False by (auto simp: result_iff)
  next
    case True
    then obtain q where "request_callback data ev p = Inr q" using callback_returns by blast
    then show ?thesis using True Cons.IH [of q] by simp
  qed
qed simp

lemma callbacks_error:
  "callbacks (request_callback data) evs p = Inr q \<Longrightarrow>
   rp_error q = 0 \<longleftrightarrow> rp_error p = 0 \<and> \<not> list_ex (bad_event data) evs"
proof (induction evs arbitrary: p)
  case (Cons ev evs)
  obtain p1 where p1: "request_callback data ev p = Inr p1" "callbacks (request_callback data) evs p1 = Inr q"
    using Cons.prems by (auto simp: result_iff)
  show ?case using Cons.IH [OF p1(2)] callback_error [OF p1(1)] by auto
qed simp

lemma callbacks_keep_machine: "callbacks (request_callback data) evs p = Inr q \<Longrightarrow> rp_parser q = rp_parser p"
proof (induction evs arbitrary: p)
  case (Cons ev evs)
  then obtain p1 where "request_callback data ev p = Inr p1" "callbacks (request_callback data) evs p1 = Inr q"
    by (auto simp: result_iff)
  then show ?case using Cons.IH callback_keeps_machine by fastforce
qed simp

lemma puts_Cons: "rq_hdr.puts r ((k, v) # kvs) = rq_hdr.puts (setHeader r k v) kvs"
  by (simp add: rq_hdr.puts_def)

lemma puts_headers_cong:
  "rq_headers a = rq_headers b \<Longrightarrow> rq_headers (rq_hdr.puts a kvs) = rq_headers (rq_hdr.puts b kvs)"
proof (induction kvs arbitrary: a b)
  case Nil
  then show ?case by (simp add: rq_hdr.puts_def)
next
  case (Cons kv kvs)
  obtain k v where kv: "kv = (k, v)" by (cases kv)
  have "rq_headers (setHeader a k v) = rq_headers (setHeader b k v)" by (simp add: setHeader_def Cons.prems)
  then show ?case unfolding kv puts_Cons by (rule Cons.IH)
qed

lemma puts_append: "rq_hdr.puts r (xs @ ys) = rq_hdr.puts (rq_hdr.puts r xs) ys"
  by (simp add: rq_hdr.puts_def)

lemma callbacks_headers:
  "callbacks (request_callback data) evs p = Inr q \<Longrightarrow>
     rq_headers (rp_data q) = rq_headers (rq_hdr.puts (rp_data p) (concat (map (field_of data) evs)))"
proof (induction evs arbitrary: p)
  case Nil
  then show ?case by (simp add: rq_hdr.puts_def)
next
  case (Cons ev evs)
  obtain p1 where p1: "request_callback data ev p = Inr p1" "callbacks (request_callback data) evs p1 = Inr q"
    using Cons.prems by (auto simp: result_iff)
  have "rq_headers (rp_data q) = rq_headers (rq_hdr.puts (rp_data p1) (concat (map (field_of data) evs)))"
    by (rule Cons.IH [OF p1(2)])
  also have "\<dots> = rq_headers (rq_hdr.puts (rq_hdr.puts (rp_data p) (field_of data ev)) (concat (map (field_of data) evs)))"
    by (rule puts_headers_cong) (rule callback_headers [OF p1(1)])
  finally show ?case by (simp only: puts_append list.map concat.simps)
qed

lemma callbacks_map_ok:
  "callbacks (request_callback data) evs p = Inr q \<Longrightarrow> map_ok CaseInsensitiLess (rq_headers (rp_data p)) \<Longrightarrow>
   map_ok CaseInsensitiLess (rq_headers (rp_data q))"
  by (simp add: callbacks_headers rq_hdr.puts_inv)

lemma strncmp_eq_prefixes:
  "strncmp_eq s t n \<longleftrightarrow> take n s = take n t"
  by (induction s t n rule: strncmp_eq.induct) auto

text \<open>The version check accepts every prefix: an empty text counts as version 1.1.\<close>

lemma version_at_prefix:
  "at + len \<le> length data \<Longrightarrow>
   version_at data at len = Inr (Some 0x11) \<longleftrightarrow> take len (c_str (drop at data)) = take len ''HTTP/1.1''"
  by (simp add: version_at_def strncmp_eq_prefixes)

end
