(* ===== verification/Http11.thy ===== *)
theory Http11
  imports Http11_Table HttpParser
begin

text \<open>
  \<^verbatim>\<open>http11_parser.rl.cc\<close> around its blocks: the parser object, the actions, initialisation and execution.
  A \<open>size_t\<close> is a natural number; differences wrap at 64 bits.  All callbacks are set, as the constructor of
  \<open>HttpRequestParser\<close> does.
\<close>

section \<open>Definitions\<close>

record http_parser =
  hp_cs :: nat
  hp_body_start :: nat
  hp_content_len :: int
  hp_nread :: nat
  hp_mark :: nat
  hp_field_start :: nat
  hp_field_len :: nat
  hp_query_start :: nat
  hp_xml_sent :: int
  hp_json_sent :: int
  hp_uri_relaxed :: int

definition http_parser_start :: nat where "http_parser_start = 1"
definition http_parser_first_final :: nat where "http_parser_first_final = 348"
definition http_parser_error :: nat where "http_parser_error = 0"

text \<open>\<open>query_start\<close> and \<open>uri_relaxed\<close> are not initialised.\<close>

definition http_parser_init :: "http_parser \<Rightarrow> http_parser" where
  "http_parser_init q =
     q\<lparr>hp_cs := http_parser_start, hp_body_start := 0, hp_content_len := 0, hp_mark := 0, hp_nread := 0,
       hp_field_len := 0, hp_field_start := 0, hp_xml_sent := 0, hp_json_sent := 0\<rparr>"

text \<open>\<open>LEN\<close>: the distance from a mark to the current character, as a \<open>size_t\<close>.\<close>

definition LEN :: "nat \<Rightarrow> nat \<Rightarrow> nat" where
  "LEN at fpc = (if at \<le> fpc then fpc - at else 2 ^ 64 - (at - fpc))"

text \<open>The actions at position \<open>p\<close> of a buffer of \<open>len\<close> bytes, on the parser and the callbacks made so far.\<close>

fun http_action :: "nat \<Rightarrow> http_action \<Rightarrow> nat \<Rightarrow> http_parser \<times> request_event list \<Rightarrow> (http_parser \<times> request_event list) result" where
  "http_action len A_mark p (q, evs) = Inr (q\<lparr>hp_mark := p\<rparr>, evs)"
| "http_action len A_start_field p (q, evs) = Inr (q\<lparr>hp_field_start := p\<rparr>, evs)"
| "http_action len A_write_field p (q, evs) = Inr (q\<lparr>hp_field_len := LEN (hp_field_start q) p\<rparr>, evs)"
| "http_action len A_start_value p (q, evs) = Inr (q\<lparr>hp_mark := p\<rparr>, evs)"
| "http_action len A_write_value p (q, evs) =
     Inr (q, evs @ [E_http_field (hp_field_start q) (hp_field_len q) (hp_mark q) (LEN (hp_mark q) p)])"
| "http_action len A_request_method p (q, evs) = Inr (q, evs @ [E_request_method (hp_mark q) (LEN (hp_mark q) p)])"
| "http_action len A_request_uri p (q, evs) = Inr (q, evs @ [E_request_uri (hp_mark q) (LEN (hp_mark q) p)])"
| "http_action len A_fragment p (q, evs) = Inr (q, evs @ [E_fragment (hp_mark q) (LEN (hp_mark q) p)])"
| "http_action len A_start_query p (q, evs) = Inr (q\<lparr>hp_query_start := p\<rparr>, evs)"
| "http_action len A_query_string p (q, evs) =
     Inr (q, evs @ [E_query_string (hp_query_start q) (LEN (hp_query_start q) p)])"
| "http_action len A_http_version p (q, evs) = Inr (q, evs @ [E_http_version (hp_mark q) (LEN (hp_mark q) p)])"
| "http_action len A_request_path p (q, evs) = Inr (q, evs @ [E_request_path (hp_mark q) (LEN (hp_mark q) p)])"
| "http_action len A_done p (q, evs) =
     (if hp_xml_sent q \<noteq> 0 \<or> hp_json_sent q \<noteq> 0
      then Inr (q\<lparr>hp_body_start := hp_mark q, hp_content_len := int p - int (hp_mark q) + 1\<rparr>, evs)
      else Inr (q\<lparr>hp_body_start := p + 1\<rparr>, evs @ [E_header_done (p + 1) (len - p - 1)]))"
| "http_action len A_xml p (q, evs) = Inr (q\<lparr>hp_xml_sent := 1\<rparr>, evs)"
| "http_action len A_json p (q, evs) = Inr (q\<lparr>hp_json_sent := 1\<rparr>, evs)"

definition http_step :: "bool \<Rightarrow> nat \<Rightarrow> char \<Rightarrow> (http_action list \<times> nat) option" where
  "http_step relaxed = ragel_step http_parser_blocks relaxed"

definition http_parser_exec ::
  "http_parser \<Rightarrow> string \<Rightarrow> (nat \<times> nat \<times> http_parser \<times> request_event list) result" where
  "http_parser_exec q buffer =
     ragel_exec (http_step (hp_uri_relaxed q \<noteq> 0)) (http_action (length buffer)) (\<lambda>a. a = A_done) (hp_cs q) 0 buffer (q, [])"

text \<open>\<open>execute\<close> starts every mark anew, whatever the state of the machine.\<close>

definition http_parser_execute :: "http_parser \<Rightarrow> string \<Rightarrow> (nat \<times> http_parser \<times> request_event list) result" where
  "http_parser_execute q buffer =
     (let len = length buffer
      in if len = 0 then Inr (0, q, [])
         else bindR (assertR (int len = to_int (int len)) AssertFail) (\<lambda>_.
           bindR (http_parser_exec (q\<lparr>hp_nread := 0, hp_mark := 0, hp_field_len := 0, hp_field_start := 0\<rparr>) buffer)
           (\<lambda>(cs, p, r, evs).
              bindR (assertR (p \<le> len) AssertFail) (\<lambda>_.
              let r = (if hp_cs q \<noteq> http_parser_error then r\<lparr>hp_cs := cs\<rparr> else r);
                  r = r\<lparr>hp_nread := hp_nread r + p\<rparr>
              in bindR (assertR (hp_nread r \<le> len \<and> hp_body_start r \<le> len \<and> hp_mark r < len
                     \<and> hp_field_len r \<le> len \<and> hp_field_start r < len) AssertFail) (\<lambda>_.
                 Inr (hp_nread r, r, evs))))))"

definition http_parser_has_error :: "http_parser \<Rightarrow> bool" where
  "http_parser_has_error q \<longleftrightarrow> hp_cs q = http_parser_error"

definition http_parser_is_finished :: "http_parser \<Rightarrow> bool" where
  "http_parser_is_finished q \<longleftrightarrow> hp_cs q \<ge> http_parser_first_final"

text \<open>The machine of \<open>HttpRequestParser\<close>; \<open>q\<close> is the memory its parser is constructed in.\<close>

definition http_machine :: "http_parser \<Rightarrow> (http_parser, request_event) machine" where
  "http_machine q =
     \<lparr>mc_init = http_parser_init q, mc_execute = http_parser_execute,
      mc_has_error = http_parser_has_error, mc_is_finished = http_parser_is_finished\<rparr>"

section \<open>What an execution leaves\<close>

text \<open>Along a list of actions: whether \<open>field_len\<close> belongs to \<open>field_start\<close>, and whether \<open>query_start\<close> lies in
  the current buffer.  A list that reports a field or a query without it is rejected.\<close>

fun flow :: "http_action list \<Rightarrow> bool \<Rightarrow> bool \<Rightarrow> (bool \<times> bool) option" where
  "flow [] f g = Some (f, g)"
| "flow (a # as) f g =
     (case a of
        A_start_field \<Rightarrow> flow as False g
      | A_write_field \<Rightarrow> flow as True g
      | A_write_value \<Rightarrow> if f then flow as f g else None
      | A_start_query \<Rightarrow> flow as f True
      | A_query_string \<Rightarrow> if g then flow as f g else None
      | A_done \<Rightarrow> if as = [] then Some (True, g) else None
      | _ \<Rightarrow> flow as f g)"

text \<open>Only inside a field name is \<open>field_len\<close> stale; only inside a query does the machine need \<open>query_start\<close>.\<close>

definition in_name :: "nat \<Rightarrow> bool" where "in_name n \<longleftrightarrow> n = 14 \<or> n = 18"
definition in_query :: "nat \<Rightarrow> bool" where "in_query n \<longleftrightarrow> n = 30 \<or> n = 31 \<or> n = 32"

definition flow_ok :: "nat \<Rightarrow> http_action list \<Rightarrow> nat \<Rightarrow> bool" where
  "flow_ok n as n' \<longleftrightarrow>
     n' = 0 \<or> (case flow as (\<not> in_name n) (in_query n) of
        None \<Rightarrow> False
      | Some (f, g) \<Rightarrow> (in_name n' \<or> f) \<and> (in_query n' \<longrightarrow> g))
     \<and> (A_done \<in> set as \<longleftrightarrow> 348 \<le> n')"

lemma http_flow: "all_steps flow_ok (transitions http_parser_blocks) http_parser_blocks"
  unfolding http_parser_blocks_def [THEN arg_cong [where f = "all_steps flow_ok (transitions http_parser_blocks)"]] all_steps_append
  by (intro conjI; simp add: http_parts flow_ok_def in_name_def in_query_def)

text \<open>Marks and callbacks stay in the buffer; the length of a query wraps around when \<open>query_start\<close> counts from
  an earlier buffer and lies behind the current character, which \<open>g\<close> excludes.\<close>

definition inside :: "nat \<Rightarrow> bool \<Rightarrow> request_event \<Rightarrow> bool" where
  "inside len g ev =
     (case ev of
        E_http_field f fl v vl \<Rightarrow> f + fl \<le> len \<and> v + vl \<le> len
      | E_query_string at n \<Rightarrow> at + n \<le> len \<or> \<not> g \<and> 2 ^ 62 \<le> n
      | E_request_method at n \<Rightarrow> at + n < len
      | E_request_uri at n \<Rightarrow> at + n \<le> len
      | E_fragment at n \<Rightarrow> at + n \<le> len
      | E_request_path at n \<Rightarrow> at + n \<le> len
      | E_http_version at n \<Rightarrow> at + n \<le> len
      | E_header_done at n \<Rightarrow> at + n \<le> len)"

definition marks_ok :: "nat \<Rightarrow> bool \<Rightarrow> nat \<Rightarrow> bool \<Rightarrow> bool \<Rightarrow> http_parser \<times> request_event list \<Rightarrow> bool" where
  "marks_ok len qok p f g x \<longleftrightarrow>
     (let q = fst x
      in hp_nread q = 0 \<and> hp_mark q \<le> p \<and> hp_mark q < len \<and> hp_field_start q \<le> p \<and> hp_field_start q < len \<and> hp_field_len q \<le> len
         \<and> (f \<longrightarrow> hp_field_start q + hp_field_len q \<le> p) \<and> (qok \<and> g \<longrightarrow> hp_query_start q \<le> p)
         \<and> (g \<longrightarrow> hp_query_start q < 2 ^ 31)
         \<and> list_all (inside len qok) (snd x))"

lemma marks_ok_weaken: "marks_ok len qok p f g x \<Longrightarrow> (f' \<longrightarrow> f) \<Longrightarrow> (g' \<longrightarrow> g) \<Longrightarrow> p \<le> p' \<Longrightarrow> marks_ok len qok p' f' g' x"
  by (auto simp: marks_ok_def Let_def)

lemma LEN_cases: "at < 2 ^ 31 \<Longrightarrow> at + LEN at p = p \<or> 2 ^ 62 \<le> LEN at p"
  by (auto simp: LEN_def)

lemma LEN_le: "at \<le> p \<Longrightarrow> LEN at p = p - at"
  by (simp add: LEN_def)

definition fresh_after :: "http_action \<Rightarrow> bool \<Rightarrow> bool" where
  "fresh_after a f \<longleftrightarrow> (if a = A_start_field then False else f \<or> a = A_write_field)"

lemma flow_Cons:
  "flow (a # as) f g = Some fg \<Longrightarrow> a \<noteq> A_done \<Longrightarrow> flow as (fresh_after a f) (g \<or> a = A_start_query) = Some fg"
  "flow (A_done # as) f g = Some fg \<Longrightarrow> as = []"
  "flow (A_write_value # as) f g = Some fg \<Longrightarrow> f"
  "flow (A_query_string # as) f g = Some fg \<Longrightarrow> g"
  by (cases a; simp add: fresh_after_def split: if_splits)+

lemma marks_okD:
  assumes "marks_ok len qok p f g (q, evs)"
  shows "hp_mark q \<le> p" "hp_mark q < len" "hp_field_start q \<le> p" "hp_field_start q < len" "hp_field_len q \<le> len"
    "f \<Longrightarrow> hp_field_start q + hp_field_len q \<le> p" "qok \<Longrightarrow> g \<Longrightarrow> hp_query_start q \<le> p" "g \<Longrightarrow> hp_query_start q < 2 ^ 31" "list_all (inside len qok) evs"
    "hp_nread q = 0"
  using assms by (simp_all add: marks_ok_def)

lemma action_keeps:
  assumes "p < len" "len < 2 ^ 31" "marks_ok len qok p f g (q, evs)" "flow (a # as) f g = Some fg"
  shows "\<exists>y. http_action len a p (q, evs) = Inr y \<and> marks_ok len qok p (fresh_after a f) (g \<or> a = A_start_query) y
    \<and> (a \<noteq> A_done \<longrightarrow> hp_body_start (fst y) = hp_body_start q) \<and> (a = A_done \<longrightarrow> hp_body_start (fst y) \<le> len)"
proof -
  note m = marks_okD [OF assms(3)]
  show ?thesis
  proof (cases a)
    case A_write_value
    then have f using assms(4) flow_Cons(3) by blast
    then show ?thesis using A_write_value assms(1) m by (simp add: marks_ok_def inside_def fresh_after_def LEN_le)
  next
    case A_query_string
    then have g using assms(4) flow_Cons(4) by blast
    then show ?thesis using A_query_string assms(1) m LEN_cases [of "hp_query_start q" p]
      by (cases qok) (auto simp: marks_ok_def inside_def fresh_after_def LEN_le)
  next
    case A_done
    then show ?thesis using assms(1) m by (simp add: marks_ok_def inside_def fresh_after_def)
  qed (use assms(1,2) m in \<open>simp_all add: marks_ok_def inside_def fresh_after_def LEN_le\<close>)
qed

lemma actions_keep:
  assumes "p < len" "len < 2 ^ 31" "marks_ok len qok p f g x" "flow as f g = Some (f', g')"
  shows "\<exists>y. run_actions (http_action len) (\<lambda>a. a = A_done) as p x = Inr (A_done \<in> set as, y)
    \<and> (if A_done \<in> set as then marks_ok len qok p False False y \<and> hp_body_start (fst y) \<le> len
       else marks_ok len qok p f' g' y \<and> hp_body_start (fst y) = hp_body_start (fst x))"
  using assms(3,4)
proof (induction as arbitrary: f g x)
  case (Cons a as)
  obtain q evs where x: "x = (q, evs)" by (cases x)
  obtain y where y: "http_action len a p (q, evs) = Inr y" "marks_ok len qok p (fresh_after a f) (g \<or> a = A_start_query) y"
      "a \<noteq> A_done \<longrightarrow> hp_body_start (fst y) = hp_body_start q" "a = A_done \<longrightarrow> hp_body_start (fst y) \<le> len"
    using action_keeps [OF assms(1,2) Cons.prems(1) [unfolded x] Cons.prems(2)] by blast
  show ?case
  proof (cases "a = A_done")
    case True
    then show ?thesis using y marks_ok_weaken [OF y(2), of False False p] x by simp
  next
    case False
    obtain z where "run_actions (http_action len) (\<lambda>a. a = A_done) as p y = Inr (A_done \<in> set as, z)"
        "if A_done \<in> set as then marks_ok len qok p False False z \<and> hp_body_start (fst z) \<le> len
         else marks_ok len qok p f' g' z \<and> hp_body_start (fst z) = hp_body_start (fst y)"
      using Cons.IH [OF y(2) flow_Cons(1) [OF Cons.prems(2) False]] by blast
    then show ?thesis using False y(1,3) x by simp
  qed
qed simp

text \<open>An execution succeeds.  All its callbacks lie in the buffer, except that the length of a query may wrap around
  when the execution starts inside one.\<close>

lemma http_parser_exec_ok:
  assumes "buffer \<noteq> []" "hp_nread q = 0" "hp_mark q = 0" "hp_field_start q = 0" "hp_field_len q = 0" "hp_body_start q \<le> length buffer"
    and "length buffer < 2 ^ 31" "in_query (hp_cs q) \<longrightarrow> hp_query_start q < 2 ^ 31"
  shows "\<exists>cs p r evs. http_parser_exec q buffer = Inr (cs, p, r, evs) \<and> p \<le> length buffer
    \<and> marks_ok (length buffer) (\<not> in_query (hp_cs q)) p False False (r, evs) \<and> hp_body_start r \<le> length buffer
    \<and> (cs < 348 \<longrightarrow> hp_body_start r = hp_body_start q) \<and> (in_query cs \<longrightarrow> hp_query_start r < 2 ^ 31)"
proof -
  let ?len = "length buffer" and ?qok = "\<not> in_query (hp_cs q)"
  let ?I = "\<lambda>n p x. marks_ok ?len ?qok p (\<not> in_name n) (in_query n) x \<and> hp_body_start (fst x) = hp_body_start q"
  let ?J = "\<lambda>n p x. marks_ok ?len ?qok p False False x \<and> hp_body_start (fst x) \<le> ?len
    \<and> (n < 348 \<longrightarrow> hp_body_start (fst x) = hp_body_start q) \<and> (in_query n \<longrightarrow> hp_query_start (fst x) < 2 ^ 31)"
  have "0 < ?len" using assms(1) by simp
  have "\<exists>cs p x. http_parser_exec q buffer = Inr (cs, p, x) \<and> 0 \<le> p \<and> p \<le> ?len \<and> ?J cs p x"
    unfolding http_parser_exec_def
  proof (rule ragel_exec_rule [where I = ?I])
    show "?I (hp_cs q) 0 (q, [])" using assms \<open>0 < ?len\<close> by (auto simp: marks_ok_def)
    show "0 + length buffer = ?len" by simp
    show "?J n p x" "?J 0 p x" if "?I n p x" for n p x
      using that marks_ok_weaken [of ?len ?qok p _ _ x False False p] assms(6)
      by (auto simp: in_query_def marks_ok_def Let_def)
    show "\<exists>fin y. run_actions (http_action ?len) (\<lambda>a. a = A_done) as p x = Inr (fin, y)
        \<and> (if fin then ?J t (Suc p) y else ?I t (Suc p) y)"
      if st: "http_step (hp_uri_relaxed q \<noteq> 0) n c = Some (as, t)" "t \<noteq> 0" "?I n p x" "p < ?len" for n p c x as t
    proof -
      have "flow_ok n as t" by (rule ragel_stepD [OF http_flow]) (use st(1) in \<open>simp add: http_step_def\<close>)
      then obtain f g where fg: "flow as (\<not> in_name n) (in_query n) = Some (f, g)" "in_name t \<or> f" "in_query t \<longrightarrow> g"
          "A_done \<in> set as \<longleftrightarrow> 348 \<le> t"
        using st(2) by (auto simp: flow_ok_def split: option.splits)
      obtain y where y: "run_actions (http_action ?len) (\<lambda>a. a = A_done) as p x = Inr (A_done \<in> set as, y)"
          "if A_done \<in> set as then marks_ok ?len ?qok p False False y \<and> hp_body_start (fst y) \<le> ?len
           else marks_ok ?len ?qok p f g y \<and> hp_body_start (fst y) = hp_body_start (fst x)"
        using actions_keep [OF st(4) assms(7) conjunct1 [OF st(3)] fg(1)] by blast
      show ?thesis
      proof (cases "A_done \<in> set as")
        case True
        then show ?thesis using y fg(4) marks_ok_weaken [of ?len ?qok p False False y False False "Suc p"]
          by (auto simp: in_query_def)
      next
        case False
        then have "marks_ok ?len ?qok p f g y" using y(2) by simp
        then have "marks_ok ?len ?qok (Suc p) (\<not> in_name t) (in_query t) y"
          by (rule marks_ok_weaken) (use fg(2,3) in auto)
        then show ?thesis using y False st(3) by auto
      qed
    qed
  qed
  then show ?thesis by auto
qed

text \<open>The assertions of \<open>execute\<close> hold on buffers an \<open>int\<close> can measure as long as the machine is not run on behind
  its end.\<close>

lemma http_parser_execute_ok:
  assumes "hp_body_start q \<le> length buffer" "length buffer < 2 ^ 31" "in_query (hp_cs q) \<longrightarrow> hp_query_start q < 2 ^ 31"
  shows "\<exists>n r evs. http_parser_execute q buffer = Inr (n, r, evs) \<and> n \<le> length buffer
    \<and> (\<not> http_parser_is_finished r \<longrightarrow> hp_body_start r = hp_body_start q)
    \<and> (in_query (hp_cs r) \<longrightarrow> hp_query_start r < 2 ^ 31)
    \<and> list_all (inside (length buffer) (\<not> in_query (hp_cs q))) evs"
proof (cases "buffer = []")
  case True
  then show ?thesis using assms(3) by (simp add: http_parser_execute_def)
next
  case False
  let ?q = "q\<lparr>hp_nread := 0, hp_mark := 0, hp_field_len := 0, hp_field_start := 0\<rparr>"
  show ?thesis
  proof (cases "hp_cs q = 0")
    case True
    have "find_case http_parser_blocks 0 = None" by (simp add: http_lookup)
    then have "http_parser_exec ?q buffer = Inr (0, 0, ?q, [])"
      using True False by (cases buffer) (simp_all add: http_parser_exec_def http_step_def ragel_step_def)
    then show ?thesis
      using assms(1) True False to_int_nat [OF assms(2)]
      by (simp add: in_query_def http_parser_execute_def Let_def http_parser_error_def http_parser_is_finished_def)
  next
    case run: False
    obtain cs p r evs where e: "http_parser_exec ?q buffer = Inr (cs, p, r, evs)" "p \<le> length buffer"
        "marks_ok (length buffer) (\<not> in_query (hp_cs q)) p False False (r, evs)" "hp_body_start r \<le> length buffer"
        "cs < 348 \<longrightarrow> hp_body_start r = hp_body_start q" "in_query cs \<longrightarrow> hp_query_start r < 2 ^ 31"
      using http_parser_exec_ok [OF False, of ?q] assms by auto
    show ?thesis
      using e(1,2,4,5,6) marks_okD [OF e(3)] False run to_int_nat [OF assms(2)]
      by (simp add: http_parser_execute_def Let_def http_parser_is_finished_def http_parser_first_final_def http_parser_error_def)
  qed
qed

end
