(* ===== verification/Ragel_Run.thy ===== *)
theory Ragel_Run
  imports Ragel HttpParser
begin

text \<open>
  Reasoning forward through an execution of a generated machine.  \<open>reach\<close> says how far it has come: the state,
  what is left of the buffer, the parser, and the object behind the callbacks made so far.  What the machines
  promise is that an action adds callbacks behind those already made.
\<close>

section \<open>Positions\<close>

abbreviation position :: "string \<Rightarrow> string \<Rightarrow> nat" where
  "position data s \<equiv> length data - length s"

lemma drop_position: "suffix s data \<Longrightarrow> drop (position data s) data = s"
  by (auto simp: suffix_def)

lemma std_text: "suffix (w @ s) data \<Longrightarrow> length data < 2 ^ 31 \<Longrightarrow> std_string data (position data (w @ s)) (length w) = Inr w"
  by (auto simp: std_string_def str_at_def suffix_def)

lemma callbacks_append: "callbacks f (xs @ ys) P = bindR (callbacks f xs P) (callbacks f ys)"
  by (induction xs arbitrary: P) (auto simp: bindR_def split: sum.splits)

section \<open>Executions\<close>

locale ragel_run =
  fixes step :: "nat \<Rightarrow> char \<Rightarrow> ('a list \<times> nat) option"
    and act :: "string \<Rightarrow> 'a \<Rightarrow> nat \<Rightarrow> 'q \<times> 'e list \<Rightarrow> ('q \<times> 'e list) result"
    and brk :: "'a \<Rightarrow> bool"
    and cb :: "string \<Rightarrow> 'e \<Rightarrow> 'p \<Rightarrow> 'p result"
  assumes act_appends: "act data a p (q, evs) = Inr (q', evs') \<Longrightarrow> \<exists>new. evs' = evs @ new"
begin

definition reach :: "string \<Rightarrow> nat \<Rightarrow> 'q \<Rightarrow> 'p \<Rightarrow> nat \<Rightarrow> string \<Rightarrow> 'q \<Rightarrow> 'p \<Rightarrow> bool" where
  "reach data cs q0 P0 n s q P \<longleftrightarrow>
     (\<exists>p evs. p + length s = length data \<and> drop p data = s
        \<and> ragel_exec step (act data) brk cs 0 data (q0, []) = ragel_exec step (act data) brk n p s (q, evs)
        \<and> callbacks (cb data) evs P0 = Inr P)"

lemma reach_start: "reach data cs q0 P0 cs data q0 P0"
  unfolding reach_def by (intro exI [of _ 0] exI [of _ "[]"]) simp

lemma reach_suffix: "reach data cs q0 P0 n s q P \<Longrightarrow> suffix s data"
  unfolding reach_def by (metis suffix_drop)

lemma reach_step:
  assumes "reach data cs q0 P0 n (c # s) q P" "step n c = Some (as, n')" "n' \<noteq> 0"
    and "\<And>evs. run_actions (act data) brk as (position data (c # s)) (q, evs) = Inr (False, q', evs @ new)"
    and "callbacks (cb data) new P = Inr P'"
  shows "reach data cs q0 P0 n' s q' P'"
proof -
  obtain p evs where p: "p + length (c # s) = length data" "drop p data = c # s"
      "ragel_exec step (act data) brk cs 0 data (q0, []) = ragel_exec step (act data) brk n p (c # s) (q, evs)"
      "callbacks (cb data) evs P0 = Inr P"
    using assms(1) unfolding reach_def by blast
  have pos: "position data (c # s) = p" using p(1) by linarith
  have "callbacks (cb data) (evs @ new) P0 = Inr P'" using p(4) assms(5) by (simp add: callbacks_append)
  moreover have "drop (Suc p) data = s" using p(2) by (metis drop_Suc list.sel(3) tl_drop)
  moreover have "ragel_exec step (act data) brk n p (c # s) (q, evs) = ragel_exec step (act data) brk n' (Suc p) s (q', evs @ new)"
    using assms(2,3,4) pos by (intro ragel_exec_step) auto
  ultimately show ?thesis using p(1,3) unfolding reach_def
    by (intro exI [of _ "Suc p"] exI [of _ "evs @ new"]) simp
qed

text \<open>A step that leaves the machine.\<close>

lemma reach_break:
  assumes "reach data cs q0 P0 n (c # s) q P" "step n c = Some (as, n')" "n' \<noteq> 0"
    and "\<And>evs. run_actions (act data) brk as (position data (c # s)) (q, evs) = Inr (True, q', evs @ new)"
    and "callbacks (cb data) new P = Inr P'"
  shows "\<exists>evs. ragel_exec step (act data) brk cs 0 data (q0, []) = Inr (n', position data s, q', evs)
    \<and> callbacks (cb data) evs P0 = Inr P'"
proof -
  obtain p evs where p: "p + length (c # s) = length data"
      "ragel_exec step (act data) brk cs 0 data (q0, []) = ragel_exec step (act data) brk n p (c # s) (q, evs)"
      "callbacks (cb data) evs P0 = Inr P"
    using assms(1) unfolding reach_def by blast
  have "position data (c # s) = p" "position data s = Suc p" using p(1) by simp_all
  then show ?thesis using p(2,3) assms(2-) by (intro exI [of _ "evs @ new"]) (simp add: callbacks_append)
qed

text \<open>The end of the buffer, and the error state.\<close>

lemma reach_end:
  assumes "reach data cs q0 P0 n [] q P"
  shows "\<exists>evs. ragel_exec step (act data) brk cs 0 data (q0, []) = Inr (n, length data, q, evs) \<and> callbacks (cb data) evs P0 = Inr P"
  using assms unfolding reach_def by auto

lemma reach_error:
  assumes "reach data cs q0 P0 n (c # s) q P" "step n c = Some (as, 0)"
  shows "\<exists>evs. ragel_exec step (act data) brk cs 0 data (q0, []) = Inr (0, position data (c # s), q, evs)
    \<and> callbacks (cb data) evs P0 = Inr P"
proof -
  obtain p evs where p: "p + length (c # s) = length data"
      "ragel_exec step (act data) brk cs 0 data (q0, []) = ragel_exec step (act data) brk n p (c # s) (q, evs)"
      "callbacks (cb data) evs P0 = Inr P"
    using assms(1) unfolding reach_def by blast
  have "position data (c # s) = p" using p(1) by simp
  then show ?thesis using p(2,3) assms(2) by (intro exI [of _ evs]) simp
qed

text \<open>An execution keeps the callbacks already made, so one that throws ends it.\<close>

lemma actions_append: "run_actions (act data) brk as p (q, evs) = Inr (fin, q', evs') \<Longrightarrow> \<exists>new. evs' = evs @ new"
proof (induction as arbitrary: q evs)
  case (Cons a as)
  obtain q1 evs1 where a: "act data a p (q, evs) = Inr (q1, evs1)" using Cons.prems by (auto simp: result_iff)
  obtain new where n: "evs1 = evs @ new" using act_appends [OF a] by blast
  show ?case
  proof (cases "brk a")
    case True
    then show ?thesis using Cons.prems a n by auto
  next
    case False
    then have "run_actions (act data) brk as p (q1, evs1) = Inr (fin, q', evs')" using Cons.prems a by simp
    from Cons.IH [OF this] show ?thesis using n by auto
  qed
qed simp

lemma exec_append: "ragel_exec step (act data) brk cs p s (q, evs) = Inr (cs', p', q', evs') \<Longrightarrow> \<exists>new. evs' = evs @ new"
proof (induction s arbitrary: cs p q evs)
  case (Cons c s)
  show ?case
  proof (cases "step cs c")
    case None
    then show ?thesis using Cons.prems by simp
  next
    case (Some a)
    obtain as t where a: "a = (as, t)" by (cases a)
    show ?thesis
    proof (cases "t = 0")
      case True
      then show ?thesis using Cons.prems Some a by simp
    next
      case False
      then obtain fin q1 evs1 where r: "run_actions (act data) brk as p (q, evs) = Inr (fin, q1, evs1)"
        using Cons.prems Some a by (auto simp: result_iff)
      obtain new where n: "evs1 = evs @ new" using actions_append [OF r] by blast
      show ?thesis
      proof (cases fin)
        case True
        then show ?thesis using Cons.prems Some a False r n by auto
      next
        case fin: False
        have "ragel_exec step (act data) brk t (Suc p) s (q1, evs1) = Inr (cs', p', q', evs')"
          using Cons.prems Some a False r fin by simp
        from Cons.IH [OF this] show ?thesis using n by auto
      qed
    qed
  qed
qed simp

lemma reach_throws:
  assumes "reach data cs q0 P0 n (c # s) q P" "step n c = Some (as, n')" "n' \<noteq> 0"
    and "\<And>evs. run_actions (act data) brk as (position data (c # s)) (q, evs) = Inr (False, q', evs @ ev # new)"
    and "cb data ev P = Inl e" "ragel_exec step (act data) brk cs 0 data (q0, []) = Inr (cs', p', q2, evs2)"
  shows "callbacks (cb data) evs2 P0 = Inl e"
proof -
  obtain p evs where p: "p + length (c # s) = length data"
      "ragel_exec step (act data) brk cs 0 data (q0, []) = ragel_exec step (act data) brk n p (c # s) (q, evs)"
      "callbacks (cb data) evs P0 = Inr P"
    using assms(1) unfolding reach_def by blast
  have "position data (c # s) = p" using p(1) by simp
  then have "ragel_exec step (act data) brk n' (Suc p) s (q', evs @ ev # new) = Inr (cs', p', q2, evs2)"
    using p(2) assms(2,3,4,6) by simp
  then obtain more where "evs2 = evs @ ev # new @ more" using exec_append by fastforce
  then show ?thesis using p(3) assms(5) by (simp add: callbacks_append)
qed

text \<open>Steps without actions: one, and a stretch of characters within a set of states.\<close>

lemma reach_quiet:
  assumes "reach data cs q0 P0 n (c # s) q P" "step n c = Some ([], n')" "n' \<noteq> 0"
  shows "reach data cs q0 P0 n' s q P"
  by (rule reach_step [OF assms, where new = "[]"]) simp_all

lemma reach_within:
  assumes "reach data cs q0 P0 n (w @ s) q P" "n \<in> S" "0 \<notin> S"
    and "\<And>n c. n \<in> S \<Longrightarrow> c \<in> set w \<Longrightarrow> \<exists>n' \<in> S. step n c = Some ([], n')"
  shows "\<exists>n' \<in> S. reach data cs q0 P0 n' s q P"
  using assms(1,2,4)
proof (induction w arbitrary: n)
  case (Cons c w)
  obtain n' where n': "n' \<in> S" "step n c = Some ([], n')" using Cons.prems(2,3) by fastforce
  have "n' \<noteq> 0" using n'(1) assms(3) by metis
  then have "reach data cs q0 P0 n' (w @ s) q P" using reach_quiet [OF _ n'(2)] Cons.prems(1) by simp
  from Cons.IH [OF this n'(1)] show ?case using Cons.prems(3) by auto
qed auto

end

end
