(* ===== verification/Http11_Segments.thy ===== *)
theory Http11_Segments
  imports Http11 Ragel_Run Http_Lemmas
begin

text \<open>
  What the request machine does with a well-formed request in one buffer: segment by segment, from the method
  to the end of the headers, with the callbacks of \<open>HttpRequestParser\<close>.
\<close>

section \<open>The text of a request\<close>

text \<open>The characters of methods, paths, queries, field names and field values, as intervals.\<close>

definition method_class :: "(int \<times> int) list" where "method_class = [(65, 90), (48, 57)]"
definition path_class :: "(int \<times> int) list" where
  "path_class = [(33, 33), (36, 36), (38, 59), (61, 61), (64, 90), (95, 95), (97, 122), (126, 126)]"
definition path_first_class :: "(int \<times> int) list" where
  "path_first_class = [(33, 33), (36, 36), (38, 46), (48, 59), (61, 61), (64, 90), (95, 95), (97, 122), (126, 126)]"
definition query_class :: "(int \<times> int) list" where
  "query_class = [(33, 33), (36, 36), (38, 59), (61, 61), (63, 90), (95, 95), (97, 122), (126, 126)]"
definition token_class :: "(int \<times> int) list" where
  "token_class = [(33, 33), (35, 39), (42, 43), (45, 46), (48, 57), (65, 90), (94, 122), (124, 124), (126, 126)]"
definition value_class :: "(int \<times> int) list" where
  "value_class = [(- 128, - 1), (1, 9), (11, 12), (14, 126)]"
definition value_first_class :: "(int \<times> int) list" where
  "value_first_class = [(- 128, - 1), (1, 8), (11, 12), (14, 31), (33, 126)]"

lemmas class_defs = method_class_def path_class_def path_first_class_def query_class_def token_class_def value_class_def
  value_first_class_def hex_class_def

definition path_ok :: "string \<Rightarrow> bool" where
  "path_ok p \<longleftrightarrow> (case p of [] \<Rightarrow> False
     | c # w \<Rightarrow> c = CHR ''/'' \<and> escaped path_class w \<and> (w = [] \<or> hd w \<noteq> CHR ''/''))"

definition name_ok :: "string \<Rightarrow> bool" where
  "name_ok k \<longleftrightarrow> k \<noteq> [] \<and> list_all (in_class token_class) k"

definition value_ok :: "string \<Rightarrow> bool" where
  "value_ok v \<longleftrightarrow> list_all (in_class value_class) v \<and> (v = [] \<or> in_class value_first_class (hd v))"

section \<open>Steps\<close>

lemma class_step:
  assumes "steps_on http_parser_blocks n cls l" "target (transitions http_parser_blocks) l = Some (as, n')" "in_class cls c"
  shows "http_step rlx n c = Some (as, n')"
  using steps_on [OF assms(1,3)] assms(2) by (simp add: http_step_def)

lemma char_step:
  assumes "steps_on http_parser_blocks n [(char_value c, char_value c)] l" "target (transitions http_parser_blocks) l = Some (as, n')"
  shows "http_step rlx n c = Some (as, n')"
  by (rule class_step [OF assms]) (simp add: in_class_def)

lemma method_rows:
  "steps_on http_parser_blocks (Suc 0) method_class (Tr 0)" "steps_on http_parser_blocks 2 method_class (St 175)"
  "175 \<le> n \<Longrightarrow> n < 193 \<Longrightarrow> steps_on http_parser_blocks n method_class (St (Suc n))"
  "n = 2 \<or> 175 \<le> n \<and> n < 194 \<Longrightarrow> steps_on http_parser_blocks n [(32, 32)] (Tr 4)"
proof -
  show "steps_on http_parser_blocks (Suc 0) method_class (Tr 0)"
    by (simp add: steps_on_simps class_defs http_cases_1(1) [unfolded One_nat_def])
  show "steps_on http_parser_blocks 2 method_class (St 175)"
    by (simp add: steps_on_simps class_defs http_cases_1)
  have "\<forall>n \<in> set [175..<193]. steps_on http_parser_blocks n method_class (St (Suc n))"
    by (simp add: upt_conv_Cons steps_on_simps class_defs http_cases_23 http_cases_24 http_cases_25)
  then show "175 \<le> n \<Longrightarrow> n < 193 \<Longrightarrow> steps_on http_parser_blocks n method_class (St (Suc n))"
    unfolding set_upt by (metis atLeastLessThan_iff)
  have "\<forall>n \<in> set [175..<194]. steps_on http_parser_blocks n [(32, 32)] (Tr 4)" "steps_on http_parser_blocks 2 [(32, 32)] (Tr 4)"
    by (simp_all add: upt_conv_Cons steps_on_simps class_defs http_cases_1 http_cases_23 http_cases_24 http_cases_25)
  then show "n = 2 \<or> 175 \<le> n \<and> n < 194 \<Longrightarrow> steps_on http_parser_blocks n [(32, 32)] (Tr 4)"
    unfolding set_upt by (metis atLeastLessThan_iff)
qed

lemma path_rows:
  "steps_on http_parser_blocks 3 [(47, 47)] (Tr 10)"
  "steps_on http_parser_blocks 33 path_first_class (St 26)" "steps_on http_parser_blocks 26 path_class (St 26)"
  "n = 26 \<or> n = 33 \<Longrightarrow> steps_on http_parser_blocks n [(37, 37)] (St 27)"
  "steps_on http_parser_blocks 27 hex_class (St 28)" "steps_on http_parser_blocks 28 hex_class (St 26)"
  "n = 26 \<or> n = 33 \<Longrightarrow> steps_on http_parser_blocks n [(32, 32)] (Tr 37)"
  "n = 26 \<or> n = 33 \<Longrightarrow> steps_on http_parser_blocks n [(63, 63)] (Tr 42)"
  "n = 26 \<or> n = 33 \<Longrightarrow> steps_on http_parser_blocks n [(35, 35)] (Tr 39)"
  by (auto simp: steps_on_simps class_defs http_cases_1(3) http_cases_6 http_cases_8)

lemma http_case_32:
  "find_case http_parser_blocks 32 = Some ([], [(48, 57, St 30), (97, 102, St 30), (65, 70, St 30)], St 0)"
  by (simp add: http_lookup http_parser_blocks_7_def)

lemma query_rows:
  "steps_on http_parser_blocks 29 query_class (Tr 54)" "steps_on http_parser_blocks 29 [(37, 37)] (Tr 56)"
  "steps_on http_parser_blocks 30 query_class (St 30)" "steps_on http_parser_blocks 30 [(37, 37)] (St 31)"
  "steps_on http_parser_blocks 31 hex_class (St 32)" "steps_on http_parser_blocks 32 hex_class (St 30)"
  "steps_on http_parser_blocks 30 [(32, 32)] (Tr 57)" "steps_on http_parser_blocks 30 [(35, 35)] (Tr 59)"
  by (simp_all add: steps_on_simps class_defs http_cases_7 http_case_32)

lemma fragment_rows:
  "steps_on http_parser_blocks 20 query_class (Tr 44)" "steps_on http_parser_blocks 20 [(37, 37)] (Tr 45)"
  "steps_on http_parser_blocks 21 query_class (St 21)" "steps_on http_parser_blocks 21 [(37, 37)] (St 22)"
  "steps_on http_parser_blocks 22 hex_class (St 23)" "steps_on http_parser_blocks 23 hex_class (St 21)"
  "steps_on http_parser_blocks 21 [(32, 32)] (Tr 46)"
  by (simp_all add: steps_on_simps class_defs http_cases_5 http_cases_6)

lemma version_rows:
  "steps_on http_parser_blocks 4 [(72, 72)] (Tr 13)" "steps_on http_parser_blocks 5 [(84, 84)] (St 6)"
  "steps_on http_parser_blocks 6 [(84, 84)] (St 7)" "steps_on http_parser_blocks 7 [(80, 80)] (St 8)"
  "steps_on http_parser_blocks 8 [(47, 47)] (St 9)" "steps_on http_parser_blocks 9 [(49, 49)] (St 10)"
  "steps_on http_parser_blocks 10 [(46, 46)] (St 11)" "steps_on http_parser_blocks 11 [(48, 49)] (St 12)"
  "steps_on http_parser_blocks 12 [(13, 13)] (Tr 22)" "steps_on http_parser_blocks 17 [(10, 10)] (St 13)"
  by (simp_all add: steps_on_simps http_cases_2 http_cases_3)

lemma field_rows:
  "steps_on http_parser_blocks 13 token_class (Tr 23)" "steps_on http_parser_blocks 14 token_class (St 14)"
  "steps_on http_parser_blocks 14 [(58, 58)] (Tr 27)" "steps_on http_parser_blocks 15 [(32, 32)] (Tr 29)"
  "steps_on http_parser_blocks 15 value_first_class (Tr 28)" "steps_on http_parser_blocks 15 [(13, 13)] (Tr 31)"
  "steps_on http_parser_blocks 16 value_class (St 16)" "steps_on http_parser_blocks 16 [(13, 13)] (Tr 34)"
  "steps_on http_parser_blocks 13 [(13, 13)] (Tr 25)" "steps_on http_parser_blocks 18 [(10, 10)] (Tr 36)"
  by (simp_all add: steps_on_simps class_defs http_cases_2(10) http_cases_3 http_cases_4(2))

section \<open>Segments\<close>

text \<open>An execution on \<open>data\<close> that has come to state \<open>n\<close> with \<open>s\<close> left to read, the parser \<open>q\<close>, and \<open>P\<close> after the
  callbacks so far; no \<open>xml\<close> or \<open>json\<close> message.\<close>

lemma http_action_appends: "http_action len a p (q, evs) = Inr (q', evs') \<Longrightarrow> \<exists>new. evs' = evs @ new"
  by (cases "a = A_done"; cases "hp_xml_sent q = 0 \<and> hp_json_sent q = 0") (cases a; auto)+

interpretation http_run: ragel_run "http_step rlx" "\<lambda>data. http_action (length data)" "\<lambda>a. a = A_done" request_callback for rlx
  by unfold_locales (rule http_action_appends)

definition reach ::
  "bool \<times> string \<times> http_parser \<times> 'p HttpRequestParser \<Rightarrow> nat \<Rightarrow> string \<Rightarrow> http_parser \<Rightarrow> 'p HttpRequestParser \<Rightarrow> bool" where
  "reach E n s q P \<longleftrightarrow>
     (case E of (rlx, data, q0, P0) \<Rightarrow>
        http_run.reach rlx data (hp_cs q0) q0 P0 n s q P \<and> hp_xml_sent q = 0 \<and> hp_json_sent q = 0)"

lemma hreach_start: "hp_xml_sent q0 = 0 \<Longrightarrow> hp_json_sent q0 = 0 \<Longrightarrow> reach (rlx, data, q0, P0) (hp_cs q0) data q0 P0"
  by (simp add: reach_def http_run.reach_start)

lemma hreach_step:
  assumes "reach (rlx, data, q0, P0) n (c # s) q P" "http_step rlx n c = Some (as, n')" "n' \<noteq> 0"
    and "\<And>evs. run_actions (http_action (length data)) (\<lambda>a. a = A_done) as (position data (c # s)) (q, evs) = Inr (False, q', evs @ new)"
    and "callbacks (request_callback data) new P = Inr P'" "hp_xml_sent q' = hp_xml_sent q" "hp_json_sent q' = hp_json_sent q"
  shows "reach (rlx, data, q0, P0) n' s q' P'"
  using assms http_run.reach_step [of rlx data "hp_cs q0" q0 P0 n c s q P as n' q' new P'] by (simp add: reach_def)

lemma hreach_quiet:
  assumes "reach E n (c # s) q P" "\<And>rlx. http_step rlx n c = Some ([], n')" "n' \<noteq> 0"
  shows "reach E n' s q P"
  using assms by (cases E) (auto intro: hreach_step [where new = "[]"])

lemma hreach_loop:
  assumes "reach E n (w @ s) q P" "steps_on http_parser_blocks n cls (St n)" "n \<noteq> 0" "list_all (in_class cls) w"
  shows "reach E n s q P"
  using assms(1,4)
proof (induction w)
  case (Cons c w)
  have c: "in_class cls c" using Cons.prems(2) by simp
  have "reach E n (w @ s) q P"
    by (rule hreach_quiet [OF _ class_step [OF assms(2) _ c] assms(3)]) (use Cons.prems(1) in simp_all)
  then show ?case using Cons by simp
qed simp

text \<open>A word with escapes, read from \<open>n0\<close> (which is left at the first character) or in the loop at \<open>n\<close>.\<close>

lemma hreach_escaped:
  assumes "steps_on http_parser_blocks n cls (St n)" "steps_on http_parser_blocks n [(37, 37)] (St n1)"
    "steps_on http_parser_blocks n1 hex_class (St n2)" "steps_on http_parser_blocks n2 hex_class (St n)" "0 < n" "0 < n1" "0 < n2"
  shows "reach E n (w @ s) q P \<Longrightarrow> escaped cls w \<Longrightarrow> reach E n s q P"
proof (induction w rule: length_induct)
  case (1 w)
  show ?case
  proof (cases w)
    case (Cons c v)
    show ?thesis
    proof (cases "c = CHR ''%''")
      case True
      then obtain a b t where v: "v = a # b # t" "in_class hex_class a" "in_class hex_class b" "escaped cls t"
        using 1 Cons by (auto split: list.splits)
      have "reach E n1 (a # b # t @ s) q P"
        by (rule hreach_quiet [OF _ class_step [OF assms(2) _ percent_class]]) (use 1(2) Cons True v(1) assms(6) in simp_all)
      then have "reach E n2 (b # t @ s) q P"
        by (rule hreach_quiet [OF _ class_step [OF assms(3) _ v(2)]]) (use assms(7) in simp_all)
      then have "reach E n (t @ s) q P"
        by (rule hreach_quiet [OF _ class_step [OF assms(4) _ v(3)]]) (use assms(5) in simp_all)
      then show ?thesis using 1(1) [rule_format, of t] Cons v by simp
    next
      case False
      then have c: "in_class cls c" using 1(3) Cons by simp
      have "reach E n (v @ s) q P"
        by (rule hreach_quiet [OF _ class_step [OF assms(1) _ c]]) (use 1(2) Cons assms(5) in simp_all)
      then show ?thesis using 1(1) [rule_format, of v] 1(3) Cons False by simp
    qed
  qed (use 1 in simp)
qed

text \<open>Texts between two positions.\<close>

lemma hreach_suffix: "reach (rlx, data, q0, P0) n s q P \<Longrightarrow> suffix s data"
  using http_run.reach_suffix by (auto simp: reach_def)

lemma LEN_position: "suffix (w @ s) data \<Longrightarrow> LEN (position data (w @ s)) (position data s) = length w"
  by (auto simp: suffix_def LEN_def)

lemma before_last: "suffix (w @ CHR '' '' # s) data \<Longrightarrow> length data - Suc (length w + length s) + length w < length data"
  by (auto simp: suffix_def)

lemma std_at:
  "suffix (w @ s) data \<Longrightarrow> length data < 2 ^ 31 \<Longrightarrow>
   std_string data (position data (w @ s)) (LEN (position data (w @ s)) (position data s)) = Inr w"
  using LEN_position std_text by metis

lemma hreach_class:
  assumes "reach E n (c # s) q P" "steps_on http_parser_blocks n cls (St n')" "in_class cls c" "0 < n'"
  shows "reach E n' s q P"
  by (rule hreach_quiet [OF assms(1) class_step [OF assms(2) _ assms(3)]]) (use assms(4) in simp_all)

text \<open>A transition that only sets a mark.\<close>

lemma hreach_mark:
  assumes "reach (rlx, data, q0, P0) n (c # s) q P" "steps_on http_parser_blocks n cls l" "in_class cls c"
    "target (transitions http_parser_blocks) l = Some ([A_mark], n')" "0 < n'"
  shows "reach (rlx, data, q0, P0) n' s (q\<lparr>hp_mark := position data (c # s)\<rparr>) P"
  by (rule hreach_step [OF assms(1) class_step [OF assms(2,4,3)], where new = "[]"]) (use assms(5) in simp_all)

text \<open>A transition that reports the text since the mark.\<close>

lemma hreach_event:
  assumes "reach (rlx, data, q0, P0) n (c # s) q P" "steps_on http_parser_blocks n [(char_value c, char_value c)] l"
    "target (transitions http_parser_blocks) l = Some (as, n')" "0 < n'"
    "\<And>evs. run_actions (http_action (length data)) (\<lambda>a. a = A_done) as (position data (c # s)) (q, evs) = Inr (False, q, evs @ new)"
    "callbacks (request_callback data) new P = Inr P'"
  shows "reach (rlx, data, q0, P0) n' s q P'"
  by (rule hreach_step [OF assms(1) char_step [OF assms(2,3)], where new = new]) (use assms(4-) in simp_all)

subsection \<open>Method\<close>

lemma method_names:
  "list_all (\<lambda>m. m = MSEARCH \<or> (case HttpMethodToString m of Inl e \<Rightarrow> False
     | Inr s \<Rightarrow> s \<noteq> [] \<and> length s \<le> 20 \<and> list_all (in_class method_class) s)) (map fst HTTP_METHOD_MAP)"
  by code_simp

lemma method_name:
  assumes "HttpMethodToString m = Inr s" "m \<noteq> MSEARCH"
  shows "s \<noteq> []" "length s \<le> 20" "list_all (in_class method_class) s" "m \<noteq> HTT_INVALID_METHOD" "StringToHttpMethod s = m"
proof -
  show m: "m \<noteq> HTT_INVALID_METHOD" using assms(1) HttpMethodToString_invalid by auto
  from method_names method_table_complete [OF m] assms
  show "s \<noteq> []" "length s \<le> 20" "list_all (in_class method_class) s" by (auto simp: list_all_iff)
  show "StringToHttpMethod s = m" using method_name_roundtrip [OF m] assms(1) by auto
qed

lemma c_str_append: "prefix (c_str a) (c_str (a @ b))"
  unfolding c_str_def by (induction a) auto

definition method_state :: "nat \<Rightarrow> nat" where "method_state k = (if k = 0 then 2 else 174 + k)"

lemma hreach_method_chars:
  "reach E (method_state k) (w @ s) q P \<Longrightarrow> list_all (in_class method_class) w \<Longrightarrow> k + length w \<le> 19 \<Longrightarrow>
   reach E (method_state (k + length w)) s q P"
proof (induction w arbitrary: k)
  case (Cons c w)
  have st: "steps_on http_parser_blocks (method_state k) method_class (St (method_state (Suc k)))"
    using method_rows(2) method_rows(3) [of "method_state k"] Cons.prems(3) by (auto simp: method_state_def)
  have "reach E (method_state (Suc k)) (w @ s) q P"
    by (rule hreach_class [OF _ st, where c = c]) (use Cons.prems in \<open>simp_all add: method_state_def\<close>)
  from Cons.IH [OF this] show ?case using Cons.prems by simp
qed simp

lemma hreach_method:
  assumes "reach (rlx, data, q0, P0) 1 (w @ '' '' @ s) q P" "HttpMethodToString m = Inr w" "m \<noteq> MSEARCH"
  shows "\<exists>q'. reach (rlx, data, q0, P0) 3 s q' (P\<lparr>rp_data := (rp_data P)\<lparr>rq_method := m\<rparr>\<rparr>)"
proof -
  note w = method_name [OF assms(2,3)]
  let ?q = "q\<lparr>hp_mark := position data (w @ '' '' @ s)\<rparr>" and ?n = "method_state (length w - 1)"
  obtain c v where cv: "w = c # v" using w(1) by (cases w) auto
  have c: "in_class method_class c" using w(3) cv by simp
  have "reach (rlx, data, q0, P0) (method_state 0) (v @ '' '' @ s) ?q P"
    using hreach_mark [OF assms(1) [unfolded cv One_nat_def append_Cons] method_rows(1) c] cv by (simp add: method_state_def)
  then have r: "reach (rlx, data, q0, P0) ?n (CHR '' '' # s) ?q P"
    using hreach_method_chars [of _ 0 v "CHR '' '' # s"] w(2,3) cv by simp
  have n: "steps_on http_parser_blocks ?n [(char_value CHR '' '', char_value CHR '' '')] (Tr 4)"
    using method_rows(4) [of ?n] w(2) cv
    by (cases v) (simp_all add: method_state_def char_value_def Let_def)
  have d: "drop (position data (w @ '' '' @ s)) data = w @ '' '' @ s" by (rule drop_position [OF hreach_suffix [OF assms(1)]])
  have "CharsToHttpMethod (c_str (w @ '' '' @ s)) = m"
  proof -
    obtain lit where "(m, lit) \<in> set HTTP_METHOD_MAP" "prefix lit (c_str w)"
      using w(5) StringToHttpMethod_prefix [OF w(4)] by blast
    then have "StringToHttpMethod (w @ '' '' @ s) = m"
      using StringToHttpMethod_prefix [OF w(4)] c_str_append [of w "'' '' @ s"] by (meson prefix_order.trans)
    then show ?thesis by (simp add: StringToHttpMethod_def)
  qed
  then have "callbacks (request_callback data) [E_request_method (hp_mark ?q) (LEN (hp_mark ?q) (position data (CHR '' '' # s)))] P
      = Inr (P\<lparr>rp_data := (rp_data P)\<lparr>rq_method := m\<rparr>\<rparr>)"
    using d w(4) LEN_position [OF hreach_suffix [OF assms(1)]] before_last [of w s data] hreach_suffix [OF assms(1)]
    by (simp add: on_request_method_def)
  then have "reach (rlx, data, q0, P0) 3 s ?q (P\<lparr>rp_data := (rp_data P)\<lparr>rq_method := m\<rparr>\<rparr>)"
    by (intro hreach_event [OF r n, where as = "[A_request_method]"
          and new = "[E_request_method (hp_mark ?q) (LEN (hp_mark ?q) (position data (CHR '' '' # s)))]"]) simp_all
  then show ?thesis by blast
qed

subsection \<open>Target\<close>

lemma char_values [simp]:
  "char_value CHR '' '' = 32" "char_value CHR ''?'' = 63" "char_value CHR ''#'' = 35" "char_value CHR ''/'' = 47"
  "char_value CHR 0x0D = 13" "char_value CHR 0x0A = 10" "char_value CHR '':'' = 58" "char_value CHR ''H'' = 72"
  "char_value CHR ''T'' = 84" "char_value CHR ''P'' = 80" "char_value CHR ''1'' = 49" "char_value CHR ''0'' = 48" "char_value CHR ''.'' = 46"
  by (simp_all add: char_value_def)

lemma path_first: "in_class path_class c \<Longrightarrow> char_value c \<noteq> 47 \<Longrightarrow> in_class path_first_class c"
  by (simp add: in_class_def class_defs) presburger

lemma hreach_path:
  assumes "reach (rlx, data, q0, P0) 3 (path @ s) q P" "path_ok path"
  shows "\<exists>n. (n = 26 \<or> n = 33 \<and> path = ''/'') \<and> reach (rlx, data, q0, P0) n s (q\<lparr>hp_mark := position data (path @ s)\<rparr>) P"
proof -
  obtain w where w: "path = CHR ''/'' # w" "escaped path_class w" "w = [] \<or> hd w \<noteq> CHR ''/''"
    using assms(2) by (auto simp: path_ok_def split: list.splits)
  let ?q = "q\<lparr>hp_mark := position data (path @ s)\<rparr>"
  have r: "reach (rlx, data, q0, P0) 33 (w @ s) ?q P"
    using hreach_mark [OF assms(1) [unfolded w(1) append_Cons] path_rows(1)] w(1) by (simp add: in_class_def)
  note esc = hreach_escaped [OF path_rows(3) path_rows(4) [of 26] path_rows(5,6), simplified]
  show ?thesis
  proof (cases "w = []")
    case False
    have "reach (rlx, data, q0, P0) 26 s ?q P"
      using escaped_first [OF w(2) False]
    proof (elim disjE conjE exE)
      fix a b t
      assume t: "w = CHR ''%'' # a # b # t" "in_class hex_class a" "in_class hex_class b" "escaped path_class t"
      have "reach (rlx, data, q0, P0) 27 (a # b # t @ s) ?q P"
        by (rule hreach_class [OF _ path_rows(4) [of 33] percent_class]) (use r t(1) in simp_all)
      then have "reach (rlx, data, q0, P0) 28 (b # t @ s) ?q P" by (rule hreach_class [OF _ path_rows(5) t(2)]) simp
      then have "reach (rlx, data, q0, P0) 26 (t @ s) ?q P" by (rule hreach_class [OF _ path_rows(6) t(3)]) simp
      then show ?thesis using esc t(4) by blast
    next
      assume c: "in_class path_class (hd w)" "escaped path_class (tl w)"
      have "char_value (hd w) \<noteq> 47" using w(3) False char_value_inj by fastforce
      then have f: "in_class path_first_class (hd w)" by (rule path_first [OF c(1)])
      have "hd w # tl w = w" using False by simp
      then have "reach (rlx, data, q0, P0) 33 (hd w # tl w @ s) ?q P" using r by (metis append_Cons)
      then have "reach (rlx, data, q0, P0) 26 (tl w @ s) ?q P" by (rule hreach_class [OF _ path_rows(2) f]) simp
      then show ?thesis using esc c(2) by blast
    qed
    then show ?thesis by blast
  qed (use r w(1) in auto)
qed

text \<open>The three ends of a path.\<close>

lemma hreach_path_end:
  assumes "reach (rlx, data, q0, P0) n (c # s) q P" "n = 26 \<or> n = 33" "hp_mark q = position data (path @ c # s)"
    "suffix (path @ c # s) data" "length data < 2 ^ 31" and l: "c = CHR '' '' \<and> n' = 4 \<or> c = CHR ''?'' \<and> n' = 29 \<or> c = CHR ''#'' \<and> n' = 20"
  shows "reach (rlx, data, q0, P0) n' s q (P\<lparr>rp_data := (rp_data P)\<lparr>rq_path := path\<rparr>\<rparr>)"
proof -
  let ?p = "position data (c # s)"
  note at = std_at [OF assms(4,5)]
  from l show ?thesis
  proof (elim disjE conjE)
    assume c: "c = CHR '' ''" "n' = 4"
    show ?thesis
      by (rule hreach_event [OF assms(1), where l = "Tr 37" and as = "[A_request_path, A_request_uri]"
            and new = "[E_request_path (hp_mark q) (LEN (hp_mark q) ?p), E_request_uri (hp_mark q) (LEN (hp_mark q) ?p)]"])
        (use path_rows(7) [OF assms(2)] at assms(3) c in \<open>simp_all add: on_request_path_def on_request_uri_def\<close>)
  next
    assume c: "c = CHR ''?''" "n' = 29"
    show ?thesis
      by (rule hreach_event [OF assms(1), where l = "Tr 42" and as = "[A_request_path]"
            and new = "[E_request_path (hp_mark q) (LEN (hp_mark q) ?p)]"])
        (use path_rows(8) [OF assms(2)] at assms(3) c in \<open>simp_all add: on_request_path_def\<close>)
  next
    assume c: "c = CHR ''#''" "n' = 20"
    show ?thesis
      by (rule hreach_event [OF assms(1), where l = "Tr 39" and as = "[A_request_path, A_request_uri]"
            and new = "[E_request_path (hp_mark q) (LEN (hp_mark q) ?p), E_request_uri (hp_mark q) (LEN (hp_mark q) ?p)]"])
        (use path_rows(9) [OF assms(2)] at assms(3) c in \<open>simp_all add: on_request_path_def on_request_uri_def\<close>)
  qed
qed

text \<open>A word with escapes whose first character sets a mark.\<close>

lemma hreach_marked_word:
  assumes "reach (rlx, data, q0, P0) n0 (w @ s) q P" "escaped cls w" "w \<noteq> []"
    "steps_on http_parser_blocks n0 cls l" "target (transitions http_parser_blocks) l = Some (as, n)"
    "steps_on http_parser_blocks n0 [(37, 37)] l1" "target (transitions http_parser_blocks) l1 = Some (as, n1)"
    and loop: "steps_on http_parser_blocks n cls (St n)" "steps_on http_parser_blocks n [(37, 37)] (St n1)"
    "steps_on http_parser_blocks n1 hex_class (St n2)" "steps_on http_parser_blocks n2 hex_class (St n)" "0 < n" "0 < n1" "0 < n2"
    and act: "\<And>evs. run_actions (http_action (length data)) (\<lambda>a. a = A_done) as (position data (w @ s)) (q, evs) = Inr (False, q', evs)"
    and "hp_xml_sent q' = hp_xml_sent q" "hp_json_sent q' = hp_json_sent q"
  shows "reach (rlx, data, q0, P0) n s q' P"
proof -
  have first: "reach (rlx, data, q0, P0) n' (v @ s) q' P"
    if "w = c # v" "steps_on http_parser_blocks n0 cs m" "in_class cs c" "target (transitions http_parser_blocks) m = Some (as, n')" "0 < n'"
    for c v cs m n'
    by (rule hreach_step [where new = "[]", OF _ class_step [OF that(2,4,3)]]) (use assms(1) act that assms(16,17) in simp_all)
  note esc = hreach_escaped [OF loop]
  show ?thesis
    using escaped_first [OF assms(2,3)]
  proof (elim disjE conjE exE)
    fix a b t
    assume t: "w = CHR ''%'' # a # b # t" "in_class hex_class a" "in_class hex_class b" "escaped cls t"
    have "reach (rlx, data, q0, P0) n1 (a # b # t @ s) q' P"
      using first [OF t(1) assms(6) percent_class assms(7)] loop(6) by simp
    then have "reach (rlx, data, q0, P0) n2 (b # t @ s) q' P" by (rule hreach_class [OF _ loop(3) t(2) loop(7)])
    then have "reach (rlx, data, q0, P0) n (t @ s) q' P" by (rule hreach_class [OF _ loop(4) t(3) loop(5)])
    then show ?thesis using esc t(4) by blast
  next
    assume c: "in_class cls (hd w)" "escaped cls (tl w)"
    have "reach (rlx, data, q0, P0) n (tl w @ s) q' P"
      by (rule first [OF _ assms(4) c(1) assms(5) loop(5)]) (use assms(3) in simp)
    then show ?thesis using esc c(2) by blast
  qed
qed

lemma hreach_query:
  assumes "reach (rlx, data, q0, P0) 29 (w @ c # s) q P" "escaped query_class w" "w \<noteq> []" "length data < 2 ^ 31"
    and l: "c = CHR '' '' \<and> n' = 4 \<and> l = Tr 57 \<or> c = CHR ''#'' \<and> n' = 20 \<and> l = Tr 59"
  shows "\<exists>q'. reach (rlx, data, q0, P0) n' s q' (P\<lparr>rp_data := (rp_data P)\<lparr>rq_query := w\<rparr>\<rparr>)"
proof -
  let ?q = "q\<lparr>hp_query_start := position data (w @ c # s)\<rparr>" and ?p = "position data (c # s)"
  have r: "reach (rlx, data, q0, P0) 30 (c # s) ?q P"
    by (rule hreach_marked_word [OF assms(1-3) query_rows(1) _ query_rows(2) _ query_rows(3-6), where as = "[A_start_query]"]) simp_all
  note at = std_at [OF hreach_suffix [OF assms(1)] assms(4)]
  have st: "steps_on http_parser_blocks 30 [(char_value c, char_value c)] l"
    "target (transitions http_parser_blocks) l = Some ([A_query_string, A_request_uri], n')" "0 < n'"
    using l query_rows(7,8) by auto
  have "reach (rlx, data, q0, P0) n' s ?q (P\<lparr>rp_data := (rp_data P)\<lparr>rq_query := w\<rparr>\<rparr>)"
    by (rule hreach_event [OF r st, where new = "[E_query_string (hp_query_start ?q) (LEN (hp_query_start ?q) ?p),
          E_request_uri (hp_mark ?q) (LEN (hp_mark ?q) ?p)]"])
      (use at in \<open>simp_all add: on_request_query_def on_request_uri_def\<close>)
  then show ?thesis by blast
qed

lemma hreach_fragment:
  assumes "reach (rlx, data, q0, P0) 20 (w @ '' '' @ s) q P" "escaped query_class w" "w \<noteq> []" "length data < 2 ^ 31"
  shows "\<exists>q'. reach (rlx, data, q0, P0) 4 s q' (P\<lparr>rp_data := (rp_data P)\<lparr>rq_fragment := w\<rparr>\<rparr>)"
proof -
  let ?q = "q\<lparr>hp_mark := position data (w @ '' '' @ s)\<rparr>" and ?p = "position data ('' '' @ s)"
  have r: "reach (rlx, data, q0, P0) 21 (CHR '' '' # s) ?q P"
    by (rule hreach_marked_word [OF _ assms(2,3) fragment_rows(1) _ fragment_rows(2) _ fragment_rows(3-6), where as = "[A_mark]"])
      (use assms(1) in simp_all)
  note at = std_at [OF hreach_suffix [OF assms(1)] assms(4)]
  have "reach (rlx, data, q0, P0) 4 s ?q (P\<lparr>rp_data := (rp_data P)\<lparr>rq_fragment := w\<rparr>\<rparr>)"
    by (rule hreach_event [OF r, where l = "Tr 46" and as = "[A_fragment]" and new = "[E_fragment (hp_mark ?q) (LEN (hp_mark ?q) ?p)]"])
      (use at fragment_rows(7) in \<open>simp_all add: on_request_fragment_def\<close>)
  then show ?thesis by blast
qed

subsection \<open>Version\<close>

lemma version_char: "d = CHR ''0'' \<or> d = CHR ''1'' \<Longrightarrow> in_class [(48, 49)] d"
  by (auto simp: in_class_def)

lemma version_text:
  "version_at data at 8 = Inr (if d = CHR ''1'' then Some 0x11 else Some 0x10)"
  if "drop at data = ''HTTP/1.'' @ d # s" "d = CHR ''0'' \<or> d = CHR ''1''"
proof -
  have "at + 8 \<le> length data" using arg_cong [OF that(1), of length] by simp
  then show ?thesis using that by (auto simp: version_at_def c_str_def numeral_eq_Suc)
qed

lemma hreach_version:
  assumes "reach (rlx, data, q0, P0) 4 (''HTTP/1.'' @ d # crlf @ s) q P" "d = CHR ''0'' \<or> d = CHR ''1''"
  shows "\<exists>q'. reach (rlx, data, q0, P0) 13 s q' (P\<lparr>rp_data := (rp_data P)\<lparr>rq_version := if d = CHR ''1'' then 0x11 else 0x10\<rparr>\<rparr>)"
proof -
  let ?E = "(rlx, data, q0, P0)" and ?t = "''HTTP/1.'' @ d # crlf @ s" and ?s = "CHR 0x0A # s"
  let ?q = "q\<lparr>hp_mark := position data ?t\<rparr>"
  have "reach ?E 5 (''TTP/1.'' @ d # crlf @ s) ?q P"
    using hreach_mark [OF assms(1) [simplified] version_rows(1)] by (simp add: in_class_def)
  then have "reach ?E 6 (''TP/1.'' @ d # crlf @ s) ?q P"
    by (intro hreach_class [OF _ version_rows(2), where c = "CHR ''T''"]) (simp_all add: in_class_def)
  then have "reach ?E 7 (''P/1.'' @ d # crlf @ s) ?q P"
    by (intro hreach_class [OF _ version_rows(3), where c = "CHR ''T''"]) (simp_all add: in_class_def)
  then have "reach ?E 8 (''/1.'' @ d # crlf @ s) ?q P"
    by (intro hreach_class [OF _ version_rows(4), where c = "CHR ''P''"]) (simp_all add: in_class_def)
  then have "reach ?E 9 (''1.'' @ d # crlf @ s) ?q P"
    by (intro hreach_class [OF _ version_rows(5), where c = "CHR ''/''"]) (simp_all add: in_class_def)
  then have "reach ?E 10 (''.'' @ d # crlf @ s) ?q P"
    by (intro hreach_class [OF _ version_rows(6), where c = "CHR ''1''"]) (simp_all add: in_class_def)
  then have "reach ?E 11 (d # crlf @ s) ?q P"
    by (intro hreach_class [OF _ version_rows(7), where c = "CHR ''.''"]) (simp_all add: in_class_def)
  then have r: "reach ?E 12 (CHR 0x0D # ?s) ?q P"
    by (intro hreach_class [OF _ version_rows(8) version_char [OF assms(2)]]) (simp_all add: crlf_def)
  have len: "LEN (position data ?t) (position data (CHR 0x0D # ?s)) = 8"
    using LEN_position [of "''HTTP/1.'' @ [d]" "CHR 0x0D # ?s" data] hreach_suffix [OF assms(1)] by (simp add: crlf_def)
  have "reach ?E 17 ?s ?q (P\<lparr>rp_data := (rp_data P)\<lparr>rq_version := if d = CHR ''1'' then 0x11 else 0x10\<rparr>\<rparr>)"
    by (rule hreach_event [OF r, where l = "Tr 22" and as = "[A_http_version]"
          and new = "[E_http_version (hp_mark ?q) (LEN (hp_mark ?q) (position data (CHR 0x0D # ?s)))]"])
      (use version_rows(9) version_text [OF drop_position [OF hreach_suffix [OF assms(1)]] assms(2)] len assms(2)
       in \<open>auto simp: on_request_version_def\<close>)
  then have "reach ?E 13 s ?q (P\<lparr>rp_data := (rp_data P)\<lparr>rq_version := if d = CHR ''1'' then 0x11 else 0x10\<rparr>\<rparr>)"
    by (intro hreach_class [OF _ version_rows(10), where c = "CHR 0x0A"]) (simp_all add: in_class_def)
  then show ?thesis by blast
qed

subsection \<open>Header fields\<close>

text \<open>Spaces before a value only move the mark.\<close>

lemma hreach_spaces:
  assumes "reach E 15 (sp @ s) q P" "list_all (\<lambda>c. c = CHR '' '') sp"
  shows "\<exists>q'. reach E 15 s q' P \<and> hp_field_start q' = hp_field_start q \<and> hp_field_len q' = hp_field_len q"
  using assms
proof (induction sp arbitrary: q)
  case (Cons c sp)
  obtain rlx data q0 P0 where E: "E = (rlx, data, q0, P0)" by (cases E)
  let ?q = "q\<lparr>hp_mark := position data (c # sp @ s)\<rparr>"
  have "reach E 15 (sp @ s) ?q P"
    unfolding E
    by (rule hreach_step [OF Cons.prems(1) [unfolded E append_Cons] class_step [OF field_rows(4), where as = "[A_start_value]"], where new = "[]"])
      (use Cons.prems(2) in \<open>simp_all add: in_class_def\<close>)
  from Cons.IH [OF this] show ?case using Cons.prems(2) by simp
qed auto

lemma hreach_value:
  assumes "reach (rlx, data, q0, P0) 15 (v @ crlf @ s) q P" "value_ok v" "length data < 2 ^ 31"
    "callbacks (request_callback data)
      [E_http_field (hp_field_start q) (hp_field_len q) (position data (v @ crlf @ s)) (length v)] P = Inr P'"
  shows "\<exists>q'. reach (rlx, data, q0, P0) 13 s q' P'"
proof -
  let ?q = "q\<lparr>hp_mark := position data (v @ crlf @ s)\<rparr>"
  note len = LEN_position [OF hreach_suffix [OF assms(1)]]
  have "reach (rlx, data, q0, P0) 17 (CHR 0x0A # s) ?q P'"
  proof (cases v)
    case Nil
    show ?thesis
      by (rule hreach_step [OF _ class_step [OF field_rows(6), where as = "[A_start_value, A_write_value]"], where c = "CHR 0x0D"
            and new = "[E_http_field (hp_field_start q) (hp_field_len q) (position data (v @ crlf @ s)) (length v)]"])
        (use assms(1,4) Nil in \<open>simp_all add: in_class_def crlf_def LEN_le\<close>)
  next
    case (Cons c w)
    have c: "in_class value_first_class c" "list_all (in_class value_class) w" using assms(2) Cons by (auto simp: value_ok_def)
    have "reach (rlx, data, q0, P0) 16 (w @ crlf @ s) ?q P"
      by (rule hreach_step [OF assms(1) [unfolded Cons append_Cons] class_step [OF field_rows(5) _ c(1), where as = "[A_start_value]"], where new = "[]"])
        (simp_all add: Cons)
    then have r: "reach (rlx, data, q0, P0) 16 (CHR 0x0D # CHR 0x0A # s) ?q P"
      using hreach_loop [OF _ field_rows(7) _ c(2)] by (simp add: crlf_def)
    show ?thesis
      by (rule hreach_event [OF r, where l = "Tr 34" and as = "[A_write_value]"
            and new = "[E_http_field (hp_field_start q) (hp_field_len q) (position data (v @ crlf @ s)) (length v)]"])
        (use assms(4) field_rows(8) len in \<open>simp_all add: crlf_def\<close>)
  qed
  then have "reach (rlx, data, q0, P0) 13 s ?q P'"
    by (rule hreach_class [OF _ version_rows(10)]) (simp_all add: in_class_def)
  then show ?thesis by blast
qed

lemma hreach_field:
  assumes "reach (rlx, data, q0, P0) 13 (k @ '':'' @ sp @ v @ crlf @ s) q P" "name_ok k" "list_all (\<lambda>c. c = CHR '' '') sp"
    "value_ok v" "length data < 2 ^ 31"
  shows "\<exists>q'. reach (rlx, data, q0, P0) 13 s q' (P\<lparr>rp_data := setHeader (rp_data P) k v\<rparr>)"
proof -
  let ?E = "(rlx, data, q0, P0)" and ?t = "CHR '':'' # sp @ v @ crlf @ s"
  let ?q1 = "q\<lparr>hp_field_start := position data (k @ ?t)\<rparr>"
  let ?q2 = "?q1\<lparr>hp_field_len := length k\<rparr>"
  have suf: "suffix (k @ ?t) data" using hreach_suffix [OF assms(1)] by simp
  obtain c w where k: "k = c # w" "in_class token_class c" "list_all (in_class token_class) w"
    using assms(2) by (cases k) (auto simp: name_ok_def)
  have "reach ?E 14 (w @ ?t) ?q1 P"
    by (rule hreach_step [OF _ class_step [OF field_rows(1) _ k(2), where as = "[A_start_field]"], where new = "[]"])
      (use assms(1) k(1) in simp_all)
  then have "reach ?E 14 ?t ?q1 P" using hreach_loop [OF _ field_rows(2) _ k(3)] by simp
  then have "reach ?E 15 (sp @ v @ crlf @ s) ?q2 P"
    by (rule hreach_step [OF _ class_step [OF field_rows(3), where as = "[A_write_field]"], where new = "[]"])
      (use LEN_position [OF suf] in \<open>simp_all add: in_class_def\<close>)
  then obtain q3 where q3: "reach ?E 15 (v @ crlf @ s) q3 P" "hp_field_start q3 = position data (k @ ?t)" "hp_field_len q3 = length k"
    using hreach_spaces [OF _ assms(3)] by fastforce
  have "callbacks (request_callback data)
      [E_http_field (hp_field_start q3) (hp_field_len q3) (position data (v @ crlf @ s)) (length v)] P
      = Inr (P\<lparr>rp_data := setHeader (rp_data P) k v\<rparr>)"
    using std_text [OF suf assms(5)] std_text [OF hreach_suffix [OF q3(1)] assms(5)] q3(2,3) k(1)
    by (simp add: on_request_http_field_def)
  then show ?thesis using hreach_value [OF q3(1) assms(4,5)] by blast
qed

text \<open>A list of fields: name, spaces before the value, value.\<close>

fun field_text :: "string \<times> string \<times> string \<Rightarrow> string" where
  "field_text (k, sp, v) = k @ '':'' @ sp @ v @ crlf"

fun field_ok :: "string \<times> string \<times> string \<Rightarrow> bool" where
  "field_ok (k, sp, v) \<longleftrightarrow> name_ok k \<and> list_all (\<lambda>c. c = CHR '' '') sp \<and> value_ok v"

lemma hreach_fields:
  assumes "reach (rlx, data, q0, P0) 13 (concat (map field_text fs) @ s) q P" "list_all field_ok fs" "length data < 2 ^ 31"
  shows "\<exists>q'. reach (rlx, data, q0, P0) 13 s q' (P\<lparr>rp_data := rq_hdr.puts (rp_data P) (map (\<lambda>(k, sp, v). (k, v)) fs)\<rparr>)"
  using assms(1,2)
proof (induction fs arbitrary: q P)
  case Nil
  then show ?case by (auto simp: rq_hdr.puts_def)
next
  case (Cons f fs)
  obtain k sp v where f: "f = (k, sp, v)" by (cases f)
  obtain q' where "reach (rlx, data, q0, P0) 13 (concat (map field_text fs) @ s) q' (P\<lparr>rp_data := setHeader (rp_data P) k v\<rparr>)"
    using hreach_field [of rlx data q0 P0 k sp v "concat (map field_text fs) @ s" q P] Cons.prems f assms(3)
    by auto
  from Cons.IH [OF this] show ?case using Cons.prems(2) f by (simp add: puts_Cons)
qed

lemma hreach_end:
  assumes "reach (rlx, data, q0, P0) 13 (crlf @ s) q P"
  shows "\<exists>q' evs. ragel_exec (http_step rlx) (http_action (length data)) (\<lambda>a. a = A_done) (hp_cs q0) 0 data (q0, [])
      = Inr (348, position data s, q', evs) \<and> callbacks (request_callback data) evs P0 = Inr P"
proof -
  let ?q = "q\<lparr>hp_field_start := position data (crlf @ s)\<rparr>"
  have "reach (rlx, data, q0, P0) 18 (CHR 0x0A # s) ?q P"
    by (rule hreach_step [OF _ class_step [OF field_rows(9), where as = "[A_start_field]"], where new = "[]" and c = "CHR 0x0D"])
      (use assms in \<open>simp_all add: in_class_def crlf_def\<close>)
  then have r: "http_run.reach rlx data (hp_cs q0) q0 P0 18 (CHR 0x0A # s) ?q P" "hp_xml_sent q = 0" "hp_json_sent q = 0"
    by (simp_all add: reach_def)
  have st: "http_step rlx 18 CHR 0x0A = Some ([A_done], 348)"
    by (rule class_step [OF field_rows(10)]) (simp_all add: in_class_def)
  let ?p = "position data (CHR 0x0A # s)"
  have "\<exists>evs. ragel_exec (http_step rlx) (http_action (length data)) (\<lambda>a. a = A_done) (hp_cs q0) 0 data (q0, [])
      = Inr (348, position data s, ?q\<lparr>hp_body_start := ?p + 1\<rparr>, evs) \<and> callbacks (request_callback data) evs P0 = Inr P"
    by (rule http_run.reach_break [OF r(1) st, where new = "[E_header_done (?p + 1) (length data - ?p - 1)]"])
      (use r(2,3) in \<open>simp_all add: on_request_header_done_def\<close>)
  then show ?thesis by blast
qed

end
