(* ===== verification/Http11_Request.thy ===== *)
theory Http11_Request
  imports Http11_Segments
begin

text \<open>
  The request machine on whole heads: it reads back what \<open>HttpRequest::dump\<close> writes, and loses or refuses a
  target that two reads cut.
\<close>

section \<open>A whole request\<close>

text \<open>Method, target, version digit, fields, what follows the head.\<close>

definition target_text :: "string \<Rightarrow> string \<Rightarrow> string \<Rightarrow> string" where
  "target_text path query fragment =
     path @ (if query = [] then [] else ''?'') @ query @ (if fragment = [] then [] else ''#'') @ fragment"

definition request_text :: "string \<Rightarrow> string \<Rightarrow> char \<Rightarrow> (string \<times> string \<times> string) list \<Rightarrow> string" where
  "request_text m tgt d fs = m @ '' '' @ tgt @ '' HTTP/1.'' @ d # crlf @ concat (map field_text fs) @ crlf"

definition target_ok :: "string \<Rightarrow> string \<Rightarrow> string \<Rightarrow> bool" where
  "target_ok path query fragment \<longleftrightarrow> path_ok path \<and> escaped query_class query \<and> escaped query_class fragment"

lemma hreach_target:
  assumes "reach (rlx, data, q0, P0) 3 (target_text path query fragment @ '' '' @ s) q P" "target_ok path query fragment"
    "length data < 2 ^ 31" "rq_query (rp_data P) = []" "rq_fragment (rp_data P) = []"
  shows "\<exists>q'. reach (rlx, data, q0, P0) 4 s q'
    (P\<lparr>rp_data := (rp_data P)\<lparr>rq_path := path, rq_query := query, rq_fragment := fragment\<rparr>\<rparr>)"
proof -
  let ?E = "(rlx, data, q0, P0)" and ?f = "if fragment = [] then CHR '' '' # s else CHR ''#'' # fragment @ '' '' @ s"
  let ?q = "if query = [] then ?f else CHR ''?'' # query @ ?f"
  have ok: "path_ok path" "escaped query_class query" "escaped query_class fragment" using assms(2) by (auto simp: target_ok_def)
  have t: "target_text path query fragment @ '' '' @ s = path @ ?q" by (simp add: target_text_def)
  note r0 = assms(1) [unfolded t]
  define P1 where "P1 = P\<lparr>rp_data := (rp_data P)\<lparr>rq_path := path\<rparr>\<rparr>"
  define P2 where "P2 = P1\<lparr>rp_data := (rp_data P1)\<lparr>rq_query := query\<rparr>\<rparr>"
  define P3 where "P3 = P2\<lparr>rp_data := (rp_data P2)\<lparr>rq_fragment := fragment\<rparr>\<rparr>"
  have same: "query = [] \<Longrightarrow> P2 = P1" "fragment = [] \<Longrightarrow> P3 = P2"
    using assms(4,5) by (simp_all add: P1_def P2_def P3_def)
  obtain n where n: "n = 26 \<or> n = 33" "reach ?E n ?q (q\<lparr>hp_mark := position data (path @ ?q)\<rparr>) P"
    using hreach_path [OF r0 ok(1)] by auto
  note suf = hreach_suffix [OF r0]
  have path_end: "reach ?E n' u (q\<lparr>hp_mark := position data (path @ ?q)\<rparr>) P1"
    if "?q = c # u" "c = CHR '' '' \<and> n' = 4 \<or> c = CHR ''?'' \<and> n' = 29 \<or> c = CHR ''#'' \<and> n' = 20" for c u n'
  proof -
    have a: "reach ?E n (c # u) (q\<lparr>hp_mark := position data (path @ ?q)\<rparr>) P"
      and b: "suffix (path @ c # u) data"
      using n(2) suf unfolding that(1) .
    show ?thesis
      unfolding P1_def by (rule hreach_path_end [OF a n(1) _ b assms(3) that(2)]) (simp add: that(1))
  qed
  have frag: "\<exists>q'. reach ?E 4 s q' P3" if "reach ?E 20 (fragment @ '' '' @ s) q1 P2" "fragment \<noteq> []" for q1
    using hreach_fragment [OF that(1) ok(3) that(2) assms(3)] unfolding P3_def by blast
  have "\<exists>q'. reach ?E 4 s q' P3"
  proof (cases "query = []")
    case True
    show ?thesis
    proof (cases "fragment = []")
      case f: True
      then have "reach ?E 4 s (q\<lparr>hp_mark := position data (path @ ?q)\<rparr>) P1" by (intro path_end) (simp_all add: True)
      then show ?thesis using same True f by auto
    next
      case f: False
      then have "reach ?E 20 (fragment @ '' '' @ s) (q\<lparr>hp_mark := position data (path @ ?q)\<rparr>) P1"
        by (intro path_end) (simp_all add: True)
      then show ?thesis using frag f same(1) [OF True] by metis
    qed
  next
    case False
    then have r: "reach ?E 29 (query @ ?f) (q\<lparr>hp_mark := position data (path @ ?q)\<rparr>) P1" by (intro path_end) simp_all
    show ?thesis
    proof (cases "fragment = []")
      case f: True
      then show ?thesis
        using hreach_query [OF _ ok(2) False assms(3), where c = "CHR '' ''" and n' = 4 and l = "Tr 57"] r same(2)
        unfolding P2_def by auto
    next
      case f: False
      then have "reach ?E 29 (query @ CHR ''#'' # fragment @ '' '' @ s) (q\<lparr>hp_mark := position data (path @ ?q)\<rparr>) P1"
        using r by simp
      from hreach_query [OF this ok(2) False assms(3), where n' = 20 and l = "Tr 59"]
      obtain q2 where "reach ?E 20 (fragment @ '' '' @ s) q2 P2" unfolding P2_def by blast
      then show ?thesis using frag f by blast
    qed
  qed
  then show ?thesis by (simp add: P1_def P2_def P3_def)
qed

text \<open>The request the parser has after the head.\<close>

definition parsed_request :: "HttpMethod \<Rightarrow> string \<Rightarrow> string \<Rightarrow> string \<Rightarrow> char \<Rightarrow> (string \<times> string \<times> string) list \<Rightarrow> HttpRequest" where
  "parsed_request m path query fragment d fs =
     rq_hdr.puts ((new_HttpRequest (if d = CHR ''1'' then 0x11 else 0x10) True)
         \<lparr>rq_method := m, rq_path := path, rq_query := query, rq_fragment := fragment\<rparr>)
       (map (\<lambda>(k, sp, v). (k, v)) fs)"

lemma request_text_read:
  assumes "HttpMethodToString m = Inr w" "m \<noteq> MSEARCH" "target_ok path query fragment" "d = CHR ''0'' \<or> d = CHR ''1''"
    "list_all field_ok fs" "length data < 2 ^ 31"
    and data: "data = request_text w (target_text path query fragment) d fs @ body"
    and q0: "hp_cs q0 = 1" "hp_xml_sent q0 = 0" "hp_json_sent q0 = 0" "rp_data P0 = new_HttpRequest 0x11 True"
  shows "\<exists>q evs. ragel_exec (http_step rlx) (http_action (length data)) (\<lambda>a. a = A_done) (hp_cs q0) 0 data (q0, [])
      = Inr (348, length data - length body, q, evs)
      \<and> callbacks (request_callback data) evs P0 = Inr (P0\<lparr>rp_data := parsed_request m path query fragment d fs\<rparr>)"
proof -
  let ?E = "(rlx, data, q0, P0)" and ?fs = "concat (map field_text fs) @ crlf @ body"
  let ?v = "''HTTP/1.'' @ d # crlf @ ?fs"
  have data': "data = w @ '' '' @ target_text path query fragment @ '' '' @ ?v"
    unfolding data request_text_def by simp
  define P1 where "P1 = P0\<lparr>rp_data := (rp_data P0)\<lparr>rq_method := m\<rparr>\<rparr>"
  define P2 where "P2 = P1\<lparr>rp_data := (rp_data P1)\<lparr>rq_path := path, rq_query := query, rq_fragment := fragment\<rparr>\<rparr>"
  define P3 where "P3 = P2\<lparr>rp_data := (rp_data P2)\<lparr>rq_version := if d = CHR ''1'' then 0x11 else 0x10\<rparr>\<rparr>"
  have "reach ?E 1 (w @ '' '' @ target_text path query fragment @ '' '' @ ?v) q0 P0"
    using hreach_start [OF q0(2,3), of rlx data P0] unfolding q0(1) data' [symmetric] .
  then obtain q1 where "reach ?E 3 (target_text path query fragment @ '' '' @ ?v) q1 P1"
    using hreach_method [OF _ assms(1,2)] unfolding P1_def by blast
  then obtain q2 where "reach ?E 4 ?v q2 P2"
    using hreach_target [OF _ assms(3,6)] q0(4) unfolding P2_def P1_def by (fastforce simp: new_HttpRequest_def)
  then obtain q3 where "reach ?E 13 ?fs q3 P3"
    using hreach_version [OF _ assms(4)] unfolding P3_def by blast
  then obtain q4 where r: "reach ?E 13 (crlf @ body) q4 (P3\<lparr>rp_data := rq_hdr.puts (rp_data P3) (map (\<lambda>(k, sp, v). (k, v)) fs)\<rparr>)"
    using hreach_fields [OF _ assms(5,6)] by blast
  have "P3\<lparr>rp_data := rq_hdr.puts (rp_data P3) (map (\<lambda>(k, sp, v). (k, v)) fs)\<rparr>
      = P0\<lparr>rp_data := parsed_request m path query fragment d fs\<rparr>"
    using q0(4) by (simp add: P3_def P2_def P1_def parsed_request_def new_HttpRequest_def)
  then show ?thesis using hreach_end [OF r] by simp
qed

text \<open>\<open>execute\<close> from what the blocks do.\<close>

lemma http_parser_execute_exec:
  assumes "buffer \<noteq> []" "hp_cs q \<noteq> 0" "hp_body_start q \<le> length buffer" "length buffer < 2 ^ 31"
    and "in_query (hp_cs q) \<longrightarrow> hp_query_start q < 2 ^ 31"
    and "http_parser_exec (q\<lparr>hp_nread := 0, hp_mark := 0, hp_field_len := 0, hp_field_start := 0\<rparr>) buffer = Inr (cs, p, r, evs)"
  shows "http_parser_execute q buffer = Inr (p, r\<lparr>hp_cs := cs, hp_nread := p\<rparr>, evs)"
proof -
  let ?q = "q\<lparr>hp_nread := 0, hp_mark := 0, hp_field_len := 0, hp_field_start := 0\<rparr>"
  have "marks_ok (length buffer) (\<not> in_query (hp_cs q)) p False False (r, evs)" "p \<le> length buffer" "hp_body_start r \<le> length buffer"
    using http_parser_exec_ok [OF assms(1), of ?q] assms(3-6) by auto
  then show ?thesis
    using assms(1,2,6) to_int_nat [OF assms(4)] marks_okD [of "length buffer" "\<not> in_query (hp_cs q)" p False False r evs]
    by (simp add: http_parser_execute_def Let_def http_parser_error_def)
qed

text \<open>A well-formed head, in one buffer: the parser is finished without error, has the request, and leaves what
  follows the head.\<close>

theorem head_read:
  assumes "HttpMethodToString m = Inr w" "m \<noteq> MSEARCH" "target_ok path query fragment" "d = CHR ''0'' \<or> d = CHR ''1''"
    "list_all field_ok fs" "length data < 2 ^ 31" "data = request_text w (target_text path query fragment) d fs @ body"
  shows "\<exists>p. request_execute (http_machine q) data (new_HttpRequestParser (http_machine q)) = Inr (length data - length body, body, p)
    \<and> request_isFinished (http_machine q) p = 1 \<and> \<not> request_hasError (http_machine q) p
    \<and> rp_data p = parsed_request m path query fragment d fs"
proof -
  let ?q = "http_parser_init q" and ?P = "new_HttpRequestParser (http_machine q)"
  let ?q' = "?q\<lparr>hp_nread := 0, hp_mark := 0, hp_field_len := 0, hp_field_start := 0\<rparr>"
  obtain r evs where e: "http_parser_exec ?q' data = Inr (348, length data - length body, r, evs)"
      "callbacks (request_callback data) evs ?P = Inr (?P\<lparr>rp_data := parsed_request m path query fragment d fs\<rparr>)"
    using request_text_read [OF assms, of ?q' ?P "hp_uri_relaxed ?q \<noteq> 0"]
    by (auto simp: http_parser_exec_def http_parser_init_def http_parser_start_def new_HttpRequestParser_def http_machine_def)
  have "data \<noteq> []" unfolding assms(7) request_text_def by (simp add: crlf_def)
  then have x: "http_parser_execute ?q data = Inr (length data - length body, r\<lparr>hp_cs := 348, hp_nread := length data - length body\<rparr>, evs)"
    by (intro http_parser_execute_exec e(1) assms(6)) (simp_all add: http_parser_init_def http_parser_start_def in_query_def)
  have "drop (length data - length body) data = body" unfolding assms(7) by simp
  then show ?thesis
    using e(2) x
    by (simp add: request_execute_def http_machine_def new_HttpRequestParser_def request_isFinished_def request_hasError_def
        mc_finish_def http_parser_has_error_def http_parser_is_finished_def http_parser_error_def http_parser_first_final_def)
qed

section \<open>Reading a dump\<close>

text \<open>The fields \<open>HttpRequest::dump\<close> writes.\<close>

definition dump_fields :: "HttpRequest \<Rightarrow> (string \<times> string \<times> string) list" where
  "dump_fields r =
     (''connection'', '' '', if rq_close r then ''close'' else ''keep-alive'')
     # map (\<lambda>(k, v). (k, [], v)) (filter (\<lambda>(k, v). strcasecmp k ''connection'' \<noteq> 0) (rq_headers r))
     @ (if rq_body r = [] then [] else [(''content-length'', '' '', nat_to_string (length (rq_body r)))])"

lemma dump_text:
  assumes "HttpMethodToString (rq_method r) = Inr w" "rq_version r = 0x10 \<and> d = CHR ''0'' \<or> rq_version r = 0x11 \<and> d = CHR ''1''"
  shows "HttpRequest_dump r
    = Inr (request_text w (target_text (rq_path r) (rq_query r) (rq_fragment r)) d (dump_fields r) @ rq_body r)"
proof -
  have v: "version_string (rq_version r) = ''HTTP/1.'' @ [d]"
  proof -
    have "nat_to_string 0 = ''0''" "nat_to_string 1 = ''1''" by code_simp+
    then show ?thesis using assms(2) by (auto simp: version_string_def)
  qed
  have h: "dump_headers '':'' hs = concat (map field_text (map (\<lambda>(k, v). (k, [], v)) (filter (\<lambda>(k, v). strcasecmp k ''connection'' \<noteq> 0) hs)))" for hs
    by (induction hs) (auto simp: dump_headers_def)
  show ?thesis
    using assms(1) by (simp add: HttpRequest_dump_def request_text_def target_text_def dump_fields_def v h close_string_def dump_body_def)
qed

definition dumps_well :: "HttpRequest \<Rightarrow> bool" where
  "dumps_well r \<longleftrightarrow>
     rq_method r \<notin> {MSEARCH, HTT_INVALID_METHOD} \<and> rq_version r \<in> {0x10, 0x11}
     \<and> target_ok (rq_path r) (rq_query r) (rq_fragment r) \<and> list_all (\<lambda>(k, v). name_ok k \<and> value_ok v) (rq_headers r)"

lemma digit_chars: "digit_val c \<noteq> None \<Longrightarrow> in_class [(48, 57)] c"
proof -
  assume "digit_val c \<noteq> None"
  then have "48 \<le> int (of_char c)" "int (of_char c) \<le> 57" by (auto simp: digit_val_def split: if_splits)
  then show ?thesis by (simp add: of_nat_of_char in_class_def char_value_def Let_def)
qed

lemma digits_value: "all_digits s \<Longrightarrow> value_ok s"
proof -
  assume "all_digits s"
  then have "list_all (in_class [(48, 57)]) s" using digit_chars by (auto simp: all_digits_def list_all_iff)
  then have "list_all (in_class value_class) s" "list_all (in_class value_first_class) s"
    by (auto simp: list_all_iff in_class_def class_defs)
  then show ?thesis by (cases s) (simp_all add: value_ok_def)
qed

lemma dump_fields_ok: "list_all (\<lambda>(k, v). name_ok k \<and> value_ok v) (rq_headers r) \<Longrightarrow> list_all field_ok (dump_fields r)"
proof -
  assume h: "list_all (\<lambda>(k, v). name_ok k \<and> value_ok v) (rq_headers r)"
  have "name_ok ''connection''" "value_ok ''close''" "value_ok ''keep-alive''" "name_ok ''content-length''" by code_simp+
  moreover have "value_ok (nat_to_string n)" for n by (rule digits_value [OF nat_to_string_digits])
  ultimately show ?thesis using h by (auto simp: dump_fields_def list_all_iff)
qed

text \<open>The parser reads back what \<open>HttpRequest::dump\<close> writes, except that it takes \<open>connection\<close> and
  \<open>content-length\<close> for ordinary fields and leaves the body in the buffer.\<close>

definition reread :: "HttpRequest \<Rightarrow> HttpRequest" where
  "reread r =
     rq_hdr.puts (r\<lparr>rq_close := True, rq_headers := [], rq_body := [], rq_params := [], rq_cookies := []\<rparr>)
       (map (\<lambda>(k, sp, v). (k, v)) (dump_fields r))"

lemma dump_head_read:
  assumes "dumps_well r" "HttpRequest_dump r = Inr data"
  obtains head where "data = head @ rq_body r" "head \<noteq> []"
    and "\<forall>x. length (head @ x) < 2 ^ 31 \<longrightarrow>
      (\<exists>p. request_execute (http_machine q) (head @ x) (new_HttpRequestParser (http_machine q)) = Inr (length head, x, p)
        \<and> request_isFinished (http_machine q) p = 1 \<and> \<not> request_hasError (http_machine q) p \<and> rp_data p = reread r)"
proof -
  obtain w where w: "HttpMethodToString (rq_method r) = Inr w"
    using assms(1) method_name_roundtrip by (auto simp: dumps_well_def)
  obtain d where d: "d = CHR ''0'' \<or> d = CHR ''1''" "rq_version r = 0x10 \<and> d = CHR ''0'' \<or> rq_version r = 0x11 \<and> d = CHR ''1''"
    using assms(1) by (auto simp: dumps_well_def)
  let ?head = "request_text w (target_text (rq_path r) (rq_query r) (rq_fragment r)) d (dump_fields r)"
  have "parsed_request (rq_method r) (rq_path r) (rq_query r) (rq_fragment r) d (dump_fields r) = reread r"
    using d(2) by (cases r) (auto simp: parsed_request_def reread_def new_HttpRequest_def)
  moreover have "data = ?head @ rq_body r" using dump_text [OF w d(2)] assms(2) by simp
  moreover have "?head \<noteq> []" unfolding request_text_def by simp
  ultimately show ?thesis
    using that [of ?head] head_read [OF w _ _ d(1) dump_fields_ok _ refl, of "rq_path r" "rq_query r" "rq_fragment r" r _ q]
      assms(1) by (simp add: dumps_well_def)
qed

lemma dump_read:
  assumes "dumps_well r" "HttpRequest_dump r = Inr data" "length data < 2 ^ 31"
  shows "\<exists>p. request_execute (http_machine q) data (new_HttpRequestParser (http_machine q))
      = Inr (length data - length (rq_body r), rq_body r, p)
    \<and> request_isFinished (http_machine q) p = 1 \<and> \<not> request_hasError (http_machine q) p \<and> rp_data p = reread r"
  using dump_head_read [OF assms(1,2), of q] assms(3) by (metis add_diff_cancel_right' length_append)

section \<open>A head in two pieces\<close>

text \<open>What an execution that comes to the end of its buffer in state \<open>n\<close> leaves.\<close>

lemma request_execute_open:
  assumes "reach (hp_uri_relaxed q \<noteq> 0, data, q\<lparr>hp_nread := 0, hp_mark := 0, hp_field_len := 0, hp_field_start := 0\<rparr>, P) n [] r P'"
    and "rp_parser P = q" "data \<noteq> []" "hp_cs q \<noteq> 0" "hp_body_start q \<le> length data" "length data < 2 ^ 31"
    and "\<not> in_query (hp_cs q)"
  shows "request_execute (http_machine q0) data P
    = Inr (length data, [], P'\<lparr>rp_parser := r\<lparr>hp_cs := n, hp_nread := length data\<rparr>\<rparr>)
    \<and> (n < 348 \<longrightarrow> hp_body_start r = hp_body_start q)"
proof -
  let ?q = "q\<lparr>hp_nread := 0, hp_mark := 0, hp_field_len := 0, hp_field_start := 0\<rparr>"
  obtain evs where e: "http_parser_exec ?q data = Inr (n, length data, r, evs)" "callbacks (request_callback data) evs P = Inr P'"
    using assms(1) http_run.reach_end by (fastforce simp: reach_def http_parser_exec_def)
  show ?thesis
    using http_parser_execute_exec [OF assms(3-6) _ e(1)] http_parser_exec_ok [OF assms(3), of ?q] e assms(2,5,6,7)
    by (auto simp: request_execute_def http_machine_def)
qed

lemma request_execute_done:
  assumes "reach (hp_uri_relaxed q \<noteq> 0, data, q\<lparr>hp_nread := 0, hp_mark := 0, hp_field_len := 0, hp_field_start := 0\<rparr>, P) 13 (crlf @ body) r P'"
    and "rp_parser P = q" "hp_cs q \<noteq> 0" "hp_body_start q \<le> length data" "length data < 2 ^ 31" "rp_error P' = 0"
    and "\<not> in_query (hp_cs q)"
  shows "\<exists>p. request_execute (http_machine q0) data P = Inr (length data - length body, body, p)
    \<and> request_isFinished (http_machine q0) p = 1 \<and> \<not> request_hasError (http_machine q0) p \<and> rp_data p = rp_data P'"
proof -
  let ?q = "q\<lparr>hp_nread := 0, hp_mark := 0, hp_field_len := 0, hp_field_start := 0\<rparr>"
  obtain r evs where e: "http_parser_exec ?q data = Inr (348, length data - length body, r, evs)"
      "callbacks (request_callback data) evs P = Inr P'"
    using hreach_end [OF assms(1)] by (auto simp: http_parser_exec_def)
  have d: "suffix (crlf @ body) data" by (rule hreach_suffix [OF assms(1)])
  then have "drop (length data - length body) data = body" "data \<noteq> []" by (auto simp: suffix_def crlf_def)
  then show ?thesis
    using http_parser_execute_exec [OF _ assms(3-5) _ e(1)] e(2) assms(2,6,7)
    by (simp add: request_execute_def http_machine_def request_isFinished_def request_hasError_def mc_finish_def
        http_parser_has_error_def http_parser_is_finished_def http_parser_error_def http_parser_first_final_def)
qed

text \<open>A read that ends inside the path: the marks of the next execution start anew, and the path is what the
  second read holds of it.\<close>

lemma path_in_two_reads:
  assumes "HttpMethodToString m = Inr w" "m \<noteq> MSEARCH" "path_ok p1" "p1 \<noteq> ''/''" "escaped path_class p2"
    "d = CHR ''0'' \<or> d = CHR ''1''" "list_all field_ok fs"
    and "data1 = w @ '' '' @ p1" "data2 = p2 @ '' HTTP/1.'' @ d # crlf @ concat (map field_text fs) @ crlf @ body"
    and "length data1 < 2 ^ 31" "length data2 < 2 ^ 31"
  shows "\<exists>p p'. request_execute (http_machine q) data1 (new_HttpRequestParser (http_machine q)) = Inr (length data1, [], p)
    \<and> request_isFinished (http_machine q) p = 0 \<and> request_execute (http_machine q) data2 p = Inr (length data2 - length body, body, p')
    \<and> request_isFinished (http_machine q) p' = 1 \<and> \<not> request_hasError (http_machine q) p'
    \<and> rp_data p' = parsed_request m p2 [] [] d fs"
proof -
  let ?q = "http_parser_init q" and ?P = "new_HttpRequestParser (http_machine q)"
  let ?r = "\<lambda>q :: http_parser. q\<lparr>hp_nread := 0, hp_mark := 0, hp_field_len := 0, hp_field_start := 0\<rparr>"
  let ?E = "(hp_uri_relaxed ?q \<noteq> 0, data1, ?r ?q, ?P)"
  define P1 where "P1 = ?P\<lparr>rp_data := (rp_data ?P)\<lparr>rq_method := m\<rparr>\<rparr>"
  have "reach ?E 1 (w @ '' '' @ p1) (?r ?q) ?P"
    using hreach_start [of "?r ?q" _ data1 ?P] assms(8) by (simp add: http_parser_init_def http_parser_start_def)
  from hreach_method [OF this assms(1,2)] obtain q1 where "reach ?E 3 p1 q1 P1" unfolding P1_def by blast
  then have "reach ?E 3 (p1 @ []) q1 P1" by simp
  then obtain q2 where q2: "reach ?E 26 [] q2 P1" using hreach_path [OF _ assms(3), of _ _ _ _ "[]"] assms(4) by blast
  have "data1 \<noteq> []" using assms(8) by simp
  let ?p = "P1\<lparr>rp_parser := q2\<lparr>hp_cs := 26, hp_nread := length data1\<rparr>\<rparr>"
  have x1: "request_execute (http_machine q) data1 ?P = Inr (length data1, [], ?p)" and body0: "hp_body_start q2 = 0"
    using request_execute_open [OF q2, of q] \<open>data1 \<noteq> []\<close> assms(10)
    by (simp_all add: in_query_def new_HttpRequestParser_def http_machine_def http_parser_init_def http_parser_start_def)
  have xj: "hp_xml_sent q2 = 0" "hp_json_sent q2 = 0" using q2 by (simp_all add: reach_def)
  let ?v = "''HTTP/1.'' @ d # crlf @ concat (map field_text fs) @ crlf @ body"
  let ?F = "(hp_uri_relaxed (rp_parser ?p) \<noteq> 0, data2, ?r (rp_parser ?p), ?p)"
  have d2: "data2 = p2 @ CHR '' '' # ?v" using assms(9) by simp
  have "reach ?F 26 (p2 @ CHR '' '' # ?v) (?r (rp_parser ?p)) ?p"
    using hreach_start [of "?r (rp_parser ?p)" _ data2 ?p] xj d2 by simp
  then have "reach ?F 26 (CHR '' '' # ?v) (?r (rp_parser ?p)) ?p"
    using hreach_escaped [OF path_rows(3) path_rows(4) [of 26] path_rows(5,6)] assms(5) by fastforce
  then have "reach ?F 4 ?v (?r (rp_parser ?p)) (?p\<lparr>rp_data := (rp_data ?p)\<lparr>rq_path := p2\<rparr>\<rparr>)"
    by (rule hreach_path_end) (use d2 assms(11) in simp_all)
  then obtain q3 where "reach ?F 13 (concat (map field_text fs) @ crlf @ body) q3
      (?p\<lparr>rp_data := (rp_data ?p)\<lparr>rq_path := p2, rq_version := if d = CHR ''1'' then 0x11 else 0x10\<rparr>\<rparr>)"
    using hreach_version [OF _ assms(6)] by fastforce
  then obtain q4 P4 where q4: "reach ?F 13 (crlf @ body) q4 P4"
      "P4 = ?p\<lparr>rp_data := parsed_request m p2 [] [] d fs\<rparr>"
    using hreach_fields [OF _ assms(7,11)]
    by (fastforce simp: parsed_request_def P1_def new_HttpRequestParser_def new_HttpRequest_def)
  have "\<exists>p'. request_execute (http_machine q) data2 ?p = Inr (length data2 - length body, body, p')
      \<and> request_isFinished (http_machine q) p' = 1 \<and> \<not> request_hasError (http_machine q) p' \<and> rp_data p' = rp_data P4"
    by (rule request_execute_done [OF q4(1)]) (use body0 q4(2) assms(11) in \<open>simp_all add: P1_def new_HttpRequestParser_def in_query_def\<close>)
  then show ?thesis
    using x1 q4(2) by (auto simp: request_isFinished_def http_machine_def mc_finish_def http_parser_has_error_def
        http_parser_is_finished_def http_parser_error_def http_parser_first_final_def)
qed

text \<open>A read that ends inside the query: \<open>query_start\<close> still counts from the first buffer, the length of the
  text wraps around, and the \<open>std::string\<close> of the callback throws.\<close>

lemma request_execute_throws:
  assumes "reach (hp_uri_relaxed q \<noteq> 0, data, q\<lparr>hp_nread := 0, hp_mark := 0, hp_field_len := 0, hp_field_start := 0\<rparr>, P) n (c # s) r P'"
    and "\<And>rlx. http_step rlx n c = Some (as, n')" "n' \<noteq> 0"
    and act: "\<And>evs. run_actions (http_action (length data)) (\<lambda>a. a = A_done) as (position data (c # s)) (r, evs) = Inr (False, r', evs @ ev # new)"
    and cb: "request_callback data ev P' = Inl e"
    and "rp_parser P = q" "hp_cs q \<noteq> 0" "hp_body_start q \<le> length data" "length data < 2 ^ 31"
    and "in_query (hp_cs q) \<longrightarrow> hp_query_start q < 2 ^ 31"
  shows "request_execute (http_machine q0) data P = Inl e"
proof -
  let ?q = "q\<lparr>hp_nread := 0, hp_mark := 0, hp_field_len := 0, hp_field_start := 0\<rparr>" and ?x = "ragel_exec (http_step (hp_uri_relaxed q \<noteq> 0))"
  have ne: "data \<noteq> []" using hreach_suffix [OF assms(1)] by auto
  obtain cs' p' r2 evs2 where x: "http_parser_exec ?q data = Inr (cs', p', r2, evs2)"
    using http_parser_exec_ok [OF ne, of ?q] assms(8-10) by auto
  have "callbacks (request_callback data) evs2 P = Inl e"
    by (rule http_run.reach_throws [OF _ assms(2,3) act cb])
      (use assms(1) x in \<open>auto simp: reach_def http_parser_exec_def\<close>)
  then show ?thesis
    using http_parser_execute_exec [OF ne assms(7-10) x] assms(6) by (simp add: request_execute_def http_machine_def)
qed

lemma query_in_two_reads:
  assumes "HttpMethodToString m = Inr w" "m \<noteq> MSEARCH" "path_ok path" "escaped query_class q1" "q1 \<noteq> []" "escaped query_class q2"
    and "data1 = w @ '' '' @ path @ ''?'' @ q1" "data2 = q2 @ '' '' @ rest" "length q2 < length w + length path + 2"
    and "length data1 < 2 ^ 31" "length data2 < 2 ^ 31"
  shows "\<exists>p. request_execute (http_machine q) data1 (new_HttpRequestParser (http_machine q)) = Inr (length data1, [], p)
    \<and> request_isFinished (http_machine q) p = 0
    \<and> request_execute (http_machine q) data2 p = Inl (LogicError ''basic_string::_M_create'')"
proof -
  let ?q = "http_parser_init q" and ?P = "new_HttpRequestParser (http_machine q)"
  let ?r = "\<lambda>q :: http_parser. q\<lparr>hp_nread := 0, hp_mark := 0, hp_field_len := 0, hp_field_start := 0\<rparr>"
  let ?E = "(hp_uri_relaxed ?q \<noteq> 0, data1, ?r ?q, ?P)"
  have "reach ?E 1 (w @ '' '' @ path @ ''?'' @ q1) (?r ?q) ?P"
    using hreach_start [of "?r ?q" _ data1 ?P] assms(7) by (simp add: http_parser_init_def http_parser_start_def)
  from hreach_method [OF this assms(1,2)] obtain r1 P1 where "reach ?E 3 (path @ CHR ''?'' # q1) r1 P1" by auto
  then obtain n r2 where r2: "reach ?E n (CHR ''?'' # q1) r2 P1" "n = 26 \<or> n = 33" "hp_mark r2 = position data1 (path @ CHR ''?'' # q1)"
    using hreach_path [OF _ assms(3)] by fastforce
  have "suffix (path @ CHR ''?'' # q1) data1" using assms(7) by (auto simp: suffix_def)
  from hreach_path_end [OF r2 this assms(10), of 29]
  obtain P2 where P2: "reach ?E 29 (q1 @ []) r2 P2" by auto
  let ?r3 = "r2\<lparr>hp_query_start := position data1 q1\<rparr>"
  have r3: "reach ?E 30 [] ?r3 P2"
    by (rule hreach_marked_word [OF P2 assms(4,5) query_rows(1) _ query_rows(2) _ query_rows(3-6), where as = "[A_start_query]"]) simp_all
  let ?p = "P2\<lparr>rp_parser := ?r3\<lparr>hp_cs := 30, hp_nread := length data1\<rparr>\<rparr>"
  have x1: "request_execute (http_machine q) data1 ?P = Inr (length data1, [], ?p)" and body0: "hp_body_start ?r3 = 0"
    using request_execute_open [OF r3, of q] assms(7,10)
    by (simp_all add: in_query_def new_HttpRequestParser_def http_machine_def http_parser_init_def http_parser_start_def)
  have xj: "hp_xml_sent r2 = 0" "hp_json_sent r2 = 0" using r3 by (simp_all add: reach_def)
  let ?F = "(hp_uri_relaxed (rp_parser ?p) \<noteq> 0, data2, ?r (rp_parser ?p), ?p)"
  have "reach ?F 30 (q2 @ CHR '' '' # rest) (?r (rp_parser ?p)) ?p"
    using hreach_start [of "?r (rp_parser ?p)" _ data2 ?p] xj assms(8) by simp
  then have s: "reach ?F 30 (CHR '' '' # rest) (?r (rp_parser ?p)) ?p"
    using hreach_escaped [OF query_rows(3-6)] assms(6) by fastforce
  have st: "\<And>rlx. http_step rlx 30 CHR '' '' = Some ([A_query_string, A_request_uri], 4)"
    by (rule class_step [OF query_rows(7)]) (simp_all add: in_class_def)
  have "LEN (position data1 q1) (position data2 (CHR '' '' # rest)) \<ge> 2 ^ 62"
    using assms(7-11) by (auto simp: LEN_def)
  then have cb: "request_callback data2 (E_query_string (hp_query_start (?r (rp_parser ?p)))
      (LEN (hp_query_start (?r (rp_parser ?p))) (position data2 (CHR '' '' # rest)))) ?p = Inl (LogicError ''basic_string::_M_create'')"
    by (simp add: on_request_query_def std_string_def)
  have qs: "position data1 q1 < 2 ^ 31" using assms(10) by simp
  have "request_execute (http_machine q) data2 ?p = Inl (LogicError ''basic_string::_M_create'')"
    by (rule request_execute_throws [OF s st _ _ cb]) (use body0 assms(10,11) qs in simp_all)
  then show ?thesis
    using x1 by (auto simp: request_isFinished_def http_machine_def mc_finish_def http_parser_has_error_def
        http_parser_is_finished_def http_parser_error_def http_parser_first_final_def)
qed

end
