(* ===== verification/Httpclient_Table.thy ===== *)
theory Httpclient_Table
  imports Ragel
begin

text \<open>
  The blocks of \<^verbatim>\<open>httpclient_parser.rl.cc\<close>: responses and chunk heads.  Actions by their names in
  \<^verbatim>\<open>httpclient_parser.rl\<close>.
\<close>

datatype client_action =
    B_mark | B_start_field | B_write_field | B_start_value | B_write_content_len | B_write_connection_close
  | B_write_value | B_reason_phrase | B_status_code | B_http_version | B_chunk_size | B_trans_chunked
  | B_done

definition client_blocks_1 :: "client_action block list" where
  "client_blocks_1 = [
    Case 1 [] [(72, 72, Tr 2), (48, 57, Tr 0), (97, 102, Tr 0), (65, 70, Tr 0)] (St 0),
    Trans 0 [B_mark] 2,
    Case 2 [] [
      (10, 10, Tr 3), (13, 13, Tr 4), (59, 59, Tr 6), (48, 57, St 2), (97, 102, St 2), (65, 70, St 2)
      ] (St 0),
    Trans 3 [B_chunk_size, B_done] 120,
    Trans 7 [B_done] 120,
    Trans 9 [B_write_field, B_start_value, B_write_value, B_done] 120,
    Trans 15 [B_write_value, B_done] 120,
    Trans 74 [B_write_connection_close, B_done] 120,
    Case 120 [] [] (St 0),
    Trans 4 [B_chunk_size] 3]"

definition client_blocks_2 :: "client_action block list" where
  "client_blocks_2 = [
    Trans 10 [B_write_field, B_start_value, B_write_value] 3,
    Trans 16 [B_write_value] 3,
    Trans 75 [B_write_connection_close] 3,
    Case 3 [] [(10, 10, Tr 7)] (St 0),
    Trans 6 [B_chunk_size] 4,
    Trans 12 [B_write_field, B_start_value, B_write_value] 4,
    Trans 18 [B_write_value] 4,
    Case 4 [] [
      (33, 33, Tr 8), (124, 124, Tr 8), (126, 126, Tr 8), (42, 43, Tr 8), (35, 39, Tr 8), (48, 57, Tr 8),
      (94, 122, Tr 8), (65, 90, Tr 8), (45, 46, Tr 8)
      ] (St 0),
    Trans 8 [B_start_field] 5,
    Case 5 [] [
      (10, 10, Tr 9), (13, 13, Tr 10), (33, 33, St 5), (59, 59, Tr 12), (61, 61, Tr 13), (124, 124, St 5),
      (126, 126, St 5), (42, 43, St 5), (35, 39, St 5), (48, 57, St 5), (94, 122, St 5), (65, 90, St 5),
      (45, 46, St 5)
      ] (St 0),
    Trans 13 [B_write_field, B_start_value] 6]"

definition client_blocks_3 :: "client_action block list" where
  "client_blocks_3 = [
    Case 6 [] [
      (33, 33, Tr 14), (124, 124, Tr 14), (126, 126, Tr 14), (42, 43, Tr 14), (35, 39, Tr 14), (48, 57, Tr 14),
      (94, 122, Tr 14), (65, 90, Tr 14), (45, 46, Tr 14)
      ] (St 0),
    Trans 14 [B_start_value] 7,
    Case 7 [] [
      (10, 10, Tr 15), (13, 13, Tr 16), (33, 33, St 7), (59, 59, Tr 18), (124, 124, St 7), (126, 126, St 7),
      (42, 43, St 7), (35, 39, St 7), (48, 57, St 7), (94, 122, St 7), (65, 90, St 7), (45, 46, St 7)
      ] (St 0),
    Trans 2 [B_mark] 8,
    Case 8 [] [(84, 84, St 9)] (St 0),
    Case 9 [] [(84, 84, St 10)] (St 0),
    Case 10 [] [(80, 80, St 11)] (St 0),
    Case 11 [] [(47, 47, St 12)] (St 0),
    Case 12 [] [(48, 57, St 13)] (St 0),
    Case 13 [] [(46, 46, St 14), (48, 57, St 13)] (St 0),
    Case 14 [] [(48, 57, St 15)] (St 0),
    Case 15 [] [(32, 32, Tr 26), (48, 57, St 15)] (St 0),
    Trans 26 [B_http_version] 16,
    Case 16 [] [(48, 57, Tr 27)] (St 0)]"

definition client_blocks_4 :: "client_action block list" where
  "client_blocks_4 = [
    Trans 27 [B_mark] 17,
    Case 17 [] [(32, 32, Tr 28), (48, 57, St 17)] (St 0),
    Trans 28 [B_status_code] 18,
    Case 18 [] [(10, 10, St 0)] (Tr 30),
    Trans 30 [B_mark] 19,
    Case 19 [] [(10, 10, Tr 32), (13, 13, Tr 33)] (St 19),
    Trans 45 [B_write_value] 20,
    Trans 32 [B_reason_phrase] 20,
    Trans 42 [B_start_value, B_write_value] 20,
    Trans 111 [B_write_value, B_trans_chunked] 20,
    Trans 113 [B_trans_chunked] 20,
    Trans 158 [B_write_content_len, B_write_value] 20,
    Case 20 [] [
      (10, 10, Tr 7), (13, 13, St 3), (33, 33, Tr 35), (67, 67, Tr 36), (84, 84, Tr 37), (99, 99, Tr 36),
      (116, 116, Tr 37), (124, 124, Tr 35), (126, 126, Tr 35), (42, 43, Tr 35), (35, 39, Tr 35),
      (48, 57, Tr 35), (94, 122, Tr 35), (65, 90, Tr 35), (45, 46, Tr 35)
      ] (St 0),
    Trans 35 [B_start_field] 21,
    Trans 76 [B_write_connection_close, B_start_field] 21]"

definition client_blocks_5 :: "client_action block list" where
  "client_blocks_5 = [
    Case 21 [] [
      (33, 33, St 21), (58, 58, Tr 39), (124, 124, St 21), (126, 126, St 21), (42, 43, St 21), (35, 39, St 21),
      (48, 57, St 21), (94, 122, St 21), (65, 90, St 21), (45, 46, St 21)
      ] (St 0),
    Trans 41 [B_start_value] 22,
    Trans 39 [B_write_field] 22,
    Case 22 [] [(10, 10, Tr 42), (13, 13, Tr 43), (32, 32, Tr 41), (9, 12, Tr 41)] (Tr 40),
    Trans 40 [B_start_value] 23,
    Case 23 [] [(10, 10, Tr 45), (13, 13, Tr 46)] (St 23),
    Trans 46 [B_write_value] 24,
    Trans 33 [B_reason_phrase] 24,
    Trans 43 [B_start_value, B_write_value] 24,
    Trans 159 [B_write_content_len, B_write_value] 24,
    Case 24 [] [(10, 10, St 20)] (St 0),
    Trans 36 [B_start_field] 25,
    Trans 77 [B_write_connection_close, B_start_field] 25,
    Case 25 [] [
      (33, 33, St 21), (58, 58, Tr 39), (79, 79, St 26), (111, 111, St 26), (124, 124, St 21),
      (126, 126, St 21), (42, 43, St 21), (35, 39, St 21), (48, 57, St 21), (94, 122, St 21), (65, 90, St 21),
      (45, 46, St 21)
      ] (St 0)]"

definition client_blocks_6 :: "client_action block list" where
  "client_blocks_6 = [
    Case 26 [] [
      (33, 33, St 21), (58, 58, Tr 39), (78, 78, St 27), (110, 110, St 27), (124, 124, St 21),
      (126, 126, St 21), (42, 43, St 21), (35, 39, St 21), (48, 57, St 21), (94, 122, St 21), (65, 90, St 21),
      (45, 46, St 21)
      ] (St 0),
    Case 27 [] [
      (33, 33, St 21), (58, 58, Tr 39), (78, 78, St 28), (84, 84, St 101), (110, 110, St 28),
      (116, 116, St 101), (124, 124, St 21), (126, 126, St 21), (42, 43, St 21), (35, 39, St 21),
      (48, 57, St 21), (94, 122, St 21), (65, 90, St 21), (45, 46, St 21)
      ] (St 0),
    Case 28 [] [
      (33, 33, St 21), (58, 58, Tr 39), (69, 69, St 29), (101, 101, St 29), (124, 124, St 21),
      (126, 126, St 21), (42, 43, St 21), (35, 39, St 21), (48, 57, St 21), (94, 122, St 21), (65, 90, St 21),
      (45, 46, St 21)
      ] (St 0),
    Case 29 [] [
      (33, 33, St 21), (58, 58, Tr 39), (67, 67, St 30), (99, 99, St 30), (124, 124, St 21), (126, 126, St 21),
      (42, 43, St 21), (35, 39, St 21), (48, 57, St 21), (94, 122, St 21), (65, 90, St 21), (45, 46, St 21)
      ] (St 0),
    Case 30 [] [
      (33, 33, St 21), (58, 58, Tr 39), (84, 84, St 31), (116, 116, St 31), (124, 124, St 21),
      (126, 126, St 21), (42, 43, St 21), (35, 39, St 21), (48, 57, St 21), (94, 122, St 21), (65, 90, St 21),
      (45, 46, St 21)
      ] (St 0)]"

definition client_blocks_7 :: "client_action block list" where
  "client_blocks_7 = [
    Case 31 [] [
      (33, 33, St 21), (58, 58, Tr 39), (73, 73, St 32), (105, 105, St 32), (124, 124, St 21),
      (126, 126, St 21), (42, 43, St 21), (35, 39, St 21), (48, 57, St 21), (94, 122, St 21), (65, 90, St 21),
      (45, 46, St 21)
      ] (St 0),
    Case 32 [] [
      (33, 33, St 21), (58, 58, Tr 39), (79, 79, St 33), (111, 111, St 33), (124, 124, St 21),
      (126, 126, St 21), (42, 43, St 21), (35, 39, St 21), (48, 57, St 21), (94, 122, St 21), (65, 90, St 21),
      (45, 46, St 21)
      ] (St 0),
    Case 33 [] [
      (33, 33, St 21), (58, 58, Tr 39), (78, 78, St 34), (110, 110, St 34), (124, 124, St 21),
      (126, 126, St 21), (42, 43, St 21), (35, 39, St 21), (48, 57, St 21), (94, 122, St 21), (65, 90, St 21),
      (45, 46, St 21)
      ] (St 0),
    Case 34 [] [
      (33, 33, St 21), (58, 58, Tr 58), (124, 124, St 21), (126, 126, St 21), (42, 43, St 21), (35, 39, St 21),
      (48, 57, St 21), (94, 122, St 21), (65, 90, St 21), (45, 46, St 21)
      ] (St 0),
    Trans 59 [B_start_value] 35,
    Trans 58 [B_write_field] 35,
    Case 35 [] [
      (10, 10, Tr 60), (13, 13, Tr 61), (32, 32, Tr 59), (67, 67, Tr 62), (99, 99, Tr 62), (9, 12, Tr 59)
      ] (Tr 40)]"

definition client_blocks_8 :: "client_action block list" where
  "client_blocks_8 = [
    Trans 60 [B_start_value, B_write_value] 36,
    Case 36 [] [
      (10, 10, Tr 64), (13, 13, St 89), (32, 32, St 37), (33, 33, Tr 35), (67, 67, Tr 66), (84, 84, Tr 37),
      (99, 99, Tr 66), (116, 116, Tr 37), (124, 124, Tr 35), (126, 126, Tr 35), (9, 12, St 37),
      (42, 43, Tr 35), (35, 39, Tr 35), (48, 57, Tr 35), (94, 122, Tr 35), (65, 90, Tr 35), (45, 46, Tr 35)
      ] (St 0),
    Case 37 [] [(32, 32, St 37), (67, 67, St 38), (99, 99, St 38), (9, 13, St 37)] (St 0),
    Case 38 [] [(76, 76, St 39), (108, 108, St 39)] (St 0),
    Case 39 [] [(79, 79, St 40), (111, 111, St 40)] (St 0),
    Case 40 [] [(83, 83, St 41), (115, 115, St 41)] (St 0),
    Case 41 [] [(69, 69, St 42), (101, 101, St 42)] (St 0),
    Case 42 [] [(10, 10, St 43), (13, 13, St 88)] (St 0),
    Trans 136 [B_write_value] 43,
    Case 43 [] [
      (10, 10, Tr 74), (13, 13, Tr 75), (33, 33, Tr 76), (67, 67, Tr 77), (84, 84, Tr 78), (99, 99, Tr 77),
      (116, 116, Tr 78), (124, 124, Tr 76), (126, 126, Tr 76), (42, 43, Tr 76), (35, 39, Tr 76),
      (48, 57, Tr 76), (94, 122, Tr 76), (65, 90, Tr 76), (45, 46, Tr 76)
      ] (St 0)]"

definition client_blocks_9 :: "client_action block list" where
  "client_blocks_9 = [
    Trans 37 [B_start_field] 44,
    Trans 78 [B_write_connection_close, B_start_field] 44,
    Case 44 [] [
      (33, 33, St 21), (58, 58, Tr 39), (82, 82, St 45), (114, 114, St 45), (124, 124, St 21),
      (126, 126, St 21), (42, 43, St 21), (35, 39, St 21), (48, 57, St 21), (94, 122, St 21), (65, 90, St 21),
      (45, 46, St 21)
      ] (St 0),
    Case 45 [] [
      (33, 33, St 21), (58, 58, Tr 39), (65, 65, St 46), (97, 97, St 46), (124, 124, St 21), (126, 126, St 21),
      (42, 43, St 21), (35, 39, St 21), (48, 57, St 21), (94, 122, St 21), (66, 90, St 21), (45, 46, St 21)
      ] (St 0),
    Case 46 [] [
      (33, 33, St 21), (58, 58, Tr 39), (78, 78, St 47), (110, 110, St 47), (124, 124, St 21),
      (126, 126, St 21), (42, 43, St 21), (35, 39, St 21), (48, 57, St 21), (94, 122, St 21), (65, 90, St 21),
      (45, 46, St 21)
      ] (St 0),
    Case 47 [] [
      (33, 33, St 21), (58, 58, Tr 39), (83, 83, St 48), (115, 115, St 48), (124, 124, St 21),
      (126, 126, St 21), (42, 43, St 21), (35, 39, St 21), (48, 57, St 21), (94, 122, St 21), (65, 90, St 21),
      (45, 46, St 21)
      ] (St 0),
    Case 48 [] [
      (33, 33, St 21), (58, 58, Tr 39), (70, 70, St 49), (102, 102, St 49), (124, 124, St 21),
      (126, 126, St 21), (42, 43, St 21), (35, 39, St 21), (48, 57, St 21), (94, 122, St 21), (65, 90, St 21),
      (45, 46, St 21)
      ] (St 0)]"

definition client_blocks_10 :: "client_action block list" where
  "client_blocks_10 = [
    Case 49 [] [
      (33, 33, St 21), (58, 58, Tr 39), (69, 69, St 50), (101, 101, St 50), (124, 124, St 21),
      (126, 126, St 21), (42, 43, St 21), (35, 39, St 21), (48, 57, St 21), (94, 122, St 21), (65, 90, St 21),
      (45, 46, St 21)
      ] (St 0),
    Case 50 [] [
      (33, 33, St 21), (58, 58, Tr 39), (82, 82, St 51), (114, 114, St 51), (124, 124, St 21),
      (126, 126, St 21), (42, 43, St 21), (35, 39, St 21), (48, 57, St 21), (94, 122, St 21), (65, 90, St 21),
      (45, 46, St 21)
      ] (St 0),
    Case 51 [] [
      (33, 33, St 21), (45, 45, St 52), (46, 46, St 21), (58, 58, Tr 39), (124, 124, St 21), (126, 126, St 21),
      (42, 43, St 21), (35, 39, St 21), (94, 122, St 21), (65, 90, St 21), (48, 57, St 21)
      ] (St 0),
    Case 52 [] [
      (33, 33, St 21), (58, 58, Tr 39), (69, 69, St 53), (101, 101, St 53), (124, 124, St 21),
      (126, 126, St 21), (42, 43, St 21), (35, 39, St 21), (48, 57, St 21), (94, 122, St 21), (65, 90, St 21),
      (45, 46, St 21)
      ] (St 0),
    Case 53 [] [
      (33, 33, St 21), (58, 58, Tr 39), (78, 78, St 54), (110, 110, St 54), (124, 124, St 21),
      (126, 126, St 21), (42, 43, St 21), (35, 39, St 21), (48, 57, St 21), (94, 122, St 21), (65, 90, St 21),
      (45, 46, St 21)
      ] (St 0)]"

definition client_blocks_11 :: "client_action block list" where
  "client_blocks_11 = [
    Case 54 [] [
      (33, 33, St 21), (58, 58, Tr 39), (67, 67, St 55), (99, 99, St 55), (124, 124, St 21), (126, 126, St 21),
      (42, 43, St 21), (35, 39, St 21), (48, 57, St 21), (94, 122, St 21), (65, 90, St 21), (45, 46, St 21)
      ] (St 0),
    Case 55 [] [
      (33, 33, St 21), (58, 58, Tr 39), (79, 79, St 56), (111, 111, St 56), (124, 124, St 21),
      (126, 126, St 21), (42, 43, St 21), (35, 39, St 21), (48, 57, St 21), (94, 122, St 21), (65, 90, St 21),
      (45, 46, St 21)
      ] (St 0),
    Case 56 [] [
      (33, 33, St 21), (58, 58, Tr 39), (68, 68, St 57), (100, 100, St 57), (124, 124, St 21),
      (126, 126, St 21), (42, 43, St 21), (35, 39, St 21), (48, 57, St 21), (94, 122, St 21), (65, 90, St 21),
      (45, 46, St 21)
      ] (St 0),
    Case 57 [] [
      (33, 33, St 21), (58, 58, Tr 39), (73, 73, St 58), (105, 105, St 58), (124, 124, St 21),
      (126, 126, St 21), (42, 43, St 21), (35, 39, St 21), (48, 57, St 21), (94, 122, St 21), (65, 90, St 21),
      (45, 46, St 21)
      ] (St 0),
    Case 58 [] [
      (33, 33, St 21), (58, 58, Tr 39), (78, 78, St 59), (110, 110, St 59), (124, 124, St 21),
      (126, 126, St 21), (42, 43, St 21), (35, 39, St 21), (48, 57, St 21), (94, 122, St 21), (65, 90, St 21),
      (45, 46, St 21)
      ] (St 0)]"

definition client_blocks_12 :: "client_action block list" where
  "client_blocks_12 = [
    Case 59 [] [
      (33, 33, St 21), (58, 58, Tr 39), (71, 71, St 60), (103, 103, St 60), (124, 124, St 21),
      (126, 126, St 21), (42, 43, St 21), (35, 39, St 21), (48, 57, St 21), (94, 122, St 21), (65, 90, St 21),
      (45, 46, St 21)
      ] (St 0),
    Case 60 [] [
      (33, 33, St 21), (58, 58, Tr 95), (124, 124, St 21), (126, 126, St 21), (42, 43, St 21), (35, 39, St 21),
      (48, 57, St 21), (94, 122, St 21), (65, 90, St 21), (45, 46, St 21)
      ] (St 0),
    Trans 96 [B_start_value] 61,
    Trans 95 [B_write_field] 61,
    Case 61 [] [
      (10, 10, Tr 97), (13, 13, Tr 98), (32, 32, Tr 96), (67, 67, Tr 99), (99, 99, Tr 99), (9, 12, Tr 96)
      ] (Tr 40),
    Trans 97 [B_start_value, B_write_value] 62,
    Case 62 [] [
      (10, 10, Tr 101), (13, 13, St 72), (32, 32, St 63), (33, 33, Tr 35), (67, 67, Tr 103), (84, 84, Tr 37),
      (99, 99, Tr 103), (116, 116, Tr 37), (124, 124, Tr 35), (126, 126, Tr 35), (9, 12, St 63),
      (42, 43, Tr 35), (35, 39, Tr 35), (48, 57, Tr 35), (94, 122, Tr 35), (65, 90, Tr 35), (45, 46, Tr 35)
      ] (St 0),
    Case 63 [] [(32, 32, St 63), (67, 67, Tr 104), (99, 99, Tr 104), (9, 13, St 63)] (St 0)]"

definition client_blocks_13 :: "client_action block list" where
  "client_blocks_13 = [
    Trans 104 [B_start_value] 64,
    Case 64 [] [(72, 72, St 65), (104, 104, St 65)] (St 0),
    Case 65 [] [(85, 85, St 66), (117, 117, St 66)] (St 0),
    Case 66 [] [(78, 78, St 67), (110, 110, St 67)] (St 0),
    Case 67 [] [(75, 75, St 68), (107, 107, St 68)] (St 0),
    Case 68 [] [(69, 69, St 69), (101, 101, St 69)] (St 0),
    Case 69 [] [(68, 68, St 70), (100, 100, St 70)] (St 0),
    Case 70 [] [(10, 10, Tr 111), (13, 13, Tr 112)] (St 0),
    Trans 112 [B_write_value] 71,
    Case 71 [] [(10, 10, Tr 113)] (St 0),
    Trans 101 [B_done] 121,
    Case 121 [] [(32, 32, St 63), (67, 67, Tr 104), (99, 99, Tr 104), (9, 13, St 63)] (St 0),
    Case 72 [] [(10, 10, Tr 101), (32, 32, St 63), (67, 67, Tr 104), (99, 99, Tr 104), (9, 13, St 63)] (St 0),
    Trans 103 [B_start_value, B_start_field] 73,
    Case 73 [] [
      (33, 33, St 21), (58, 58, Tr 39), (72, 72, St 74), (79, 79, St 26), (104, 104, St 74), (111, 111, St 26),
      (124, 124, St 21), (126, 126, St 21), (42, 43, St 21), (35, 39, St 21), (48, 57, St 21),
      (94, 122, St 21), (65, 90, St 21), (45, 46, St 21)
      ] (St 0)]"

definition client_blocks_14 :: "client_action block list" where
  "client_blocks_14 = [
    Case 74 [] [
      (33, 33, St 21), (58, 58, Tr 39), (85, 85, St 75), (117, 117, St 75), (124, 124, St 21),
      (126, 126, St 21), (42, 43, St 21), (35, 39, St 21), (48, 57, St 21), (94, 122, St 21), (65, 90, St 21),
      (45, 46, St 21)
      ] (St 0),
    Case 75 [] [
      (33, 33, St 21), (58, 58, Tr 39), (78, 78, St 76), (110, 110, St 76), (124, 124, St 21),
      (126, 126, St 21), (42, 43, St 21), (35, 39, St 21), (48, 57, St 21), (94, 122, St 21), (65, 90, St 21),
      (45, 46, St 21)
      ] (St 0),
    Case 76 [] [
      (33, 33, St 21), (58, 58, Tr 39), (75, 75, St 77), (107, 107, St 77), (124, 124, St 21),
      (126, 126, St 21), (42, 43, St 21), (35, 39, St 21), (48, 57, St 21), (94, 122, St 21), (65, 90, St 21),
      (45, 46, St 21)
      ] (St 0),
    Case 77 [] [
      (33, 33, St 21), (58, 58, Tr 39), (69, 69, St 78), (101, 101, St 78), (124, 124, St 21),
      (126, 126, St 21), (42, 43, St 21), (35, 39, St 21), (48, 57, St 21), (94, 122, St 21), (65, 90, St 21),
      (45, 46, St 21)
      ] (St 0),
    Case 78 [] [
      (33, 33, St 21), (58, 58, Tr 39), (68, 68, St 79), (100, 100, St 79), (124, 124, St 21),
      (126, 126, St 21), (42, 43, St 21), (35, 39, St 21), (48, 57, St 21), (94, 122, St 21), (65, 90, St 21),
      (45, 46, St 21)
      ] (St 0)]"

definition client_blocks_15 :: "client_action block list" where
  "client_blocks_15 = [
    Case 79 [] [
      (10, 10, Tr 111), (13, 13, Tr 112), (33, 33, St 21), (58, 58, Tr 39), (124, 124, St 21),
      (126, 126, St 21), (42, 43, St 21), (35, 39, St 21), (48, 57, St 21), (94, 122, St 21), (65, 90, St 21),
      (45, 46, St 21)
      ] (St 0),
    Trans 98 [B_start_value, B_write_value] 80,
    Case 80 [] [(10, 10, St 62), (32, 32, St 63), (67, 67, Tr 104), (99, 99, Tr 104), (9, 13, St 63)] (St 0),
    Trans 99 [B_start_value] 81,
    Case 81 [] [(10, 10, Tr 45), (13, 13, Tr 46), (72, 72, St 82), (104, 104, St 82)] (St 23),
    Case 82 [] [(10, 10, Tr 45), (13, 13, Tr 46), (85, 85, St 83), (117, 117, St 83)] (St 23),
    Case 83 [] [(10, 10, Tr 45), (13, 13, Tr 46), (78, 78, St 84), (110, 110, St 84)] (St 23),
    Case 84 [] [(10, 10, Tr 45), (13, 13, Tr 46), (75, 75, St 85), (107, 107, St 85)] (St 23),
    Case 85 [] [(10, 10, Tr 45), (13, 13, Tr 46), (69, 69, St 86), (101, 101, St 86)] (St 23),
    Case 86 [] [(10, 10, Tr 45), (13, 13, Tr 46), (68, 68, St 87), (100, 100, St 87)] (St 23),
    Case 87 [] [(10, 10, Tr 111), (13, 13, Tr 112)] (St 23),
    Trans 137 [B_write_value] 88,
    Case 88 [] [(10, 10, St 43)] (St 0)]"

definition client_blocks_16 :: "client_action block list" where
  "client_blocks_16 = [
    Trans 64 [B_done] 122,
    Case 122 [] [(32, 32, St 37), (67, 67, St 38), (99, 99, St 38), (9, 13, St 37)] (St 0),
    Case 89 [] [(10, 10, Tr 64), (32, 32, St 37), (67, 67, St 38), (99, 99, St 38), (9, 13, St 37)] (St 0),
    Trans 66 [B_start_field] 90,
    Case 90 [] [
      (33, 33, St 21), (58, 58, Tr 39), (76, 76, St 91), (79, 79, St 26), (108, 108, St 91), (111, 111, St 26),
      (124, 124, St 21), (126, 126, St 21), (42, 43, St 21), (35, 39, St 21), (48, 57, St 21),
      (94, 122, St 21), (65, 90, St 21), (45, 46, St 21)
      ] (St 0),
    Case 91 [] [
      (33, 33, St 21), (58, 58, Tr 39), (79, 79, St 92), (111, 111, St 92), (124, 124, St 21),
      (126, 126, St 21), (42, 43, St 21), (35, 39, St 21), (48, 57, St 21), (94, 122, St 21), (65, 90, St 21),
      (45, 46, St 21)
      ] (St 0),
    Case 92 [] [
      (33, 33, St 21), (58, 58, Tr 39), (83, 83, St 93), (115, 115, St 93), (124, 124, St 21),
      (126, 126, St 21), (42, 43, St 21), (35, 39, St 21), (48, 57, St 21), (94, 122, St 21), (65, 90, St 21),
      (45, 46, St 21)
      ] (St 0),
    Case 93 [] [
      (33, 33, St 21), (58, 58, Tr 39), (69, 69, St 94), (101, 101, St 94), (124, 124, St 21),
      (126, 126, St 21), (42, 43, St 21), (35, 39, St 21), (48, 57, St 21), (94, 122, St 21), (65, 90, St 21),
      (45, 46, St 21)
      ] (St 0)]"

definition client_blocks_17 :: "client_action block list" where
  "client_blocks_17 = [
    Case 94 [] [
      (10, 10, St 43), (13, 13, St 88), (33, 33, St 21), (58, 58, Tr 39), (124, 124, St 21), (126, 126, St 21),
      (42, 43, St 21), (35, 39, St 21), (48, 57, St 21), (94, 122, St 21), (65, 90, St 21), (45, 46, St 21)
      ] (St 0),
    Trans 61 [B_start_value, B_write_value] 95,
    Case 95 [] [(10, 10, St 36), (32, 32, St 37), (67, 67, St 38), (99, 99, St 38), (9, 13, St 37)] (St 0),
    Trans 62 [B_start_value] 96,
    Case 96 [] [(10, 10, Tr 45), (13, 13, Tr 46), (76, 76, St 97), (108, 108, St 97)] (St 23),
    Case 97 [] [(10, 10, Tr 45), (13, 13, Tr 46), (79, 79, St 98), (111, 111, St 98)] (St 23),
    Case 98 [] [(10, 10, Tr 45), (13, 13, Tr 46), (83, 83, St 99), (115, 115, St 99)] (St 23),
    Case 99 [] [(10, 10, Tr 45), (13, 13, Tr 46), (69, 69, St 100), (101, 101, St 100)] (St 23),
    Case 100 [] [(10, 10, Tr 136), (13, 13, Tr 137)] (St 23),
    Case 101 [] [
      (33, 33, St 21), (58, 58, Tr 39), (69, 69, St 102), (101, 101, St 102), (124, 124, St 21),
      (126, 126, St 21), (42, 43, St 21), (35, 39, St 21), (48, 57, St 21), (94, 122, St 21), (65, 90, St 21),
      (45, 46, St 21)
      ] (St 0),
    Case 102 [] [
      (33, 33, St 21), (58, 58, Tr 39), (78, 78, St 103), (110, 110, St 103), (124, 124, St 21),
      (126, 126, St 21), (42, 43, St 21), (35, 39, St 21), (48, 57, St 21), (94, 122, St 21), (65, 90, St 21),
      (45, 46, St 21)
      ] (St 0)]"

definition client_blocks_18 :: "client_action block list" where
  "client_blocks_18 = [
    Case 103 [] [
      (33, 33, St 21), (58, 58, Tr 39), (84, 84, St 104), (116, 116, St 104), (124, 124, St 21),
      (126, 126, St 21), (42, 43, St 21), (35, 39, St 21), (48, 57, St 21), (94, 122, St 21), (65, 90, St 21),
      (45, 46, St 21)
      ] (St 0),
    Case 104 [] [
      (33, 33, St 21), (45, 45, St 105), (46, 46, St 21), (58, 58, Tr 39), (124, 124, St 21),
      (126, 126, St 21), (42, 43, St 21), (35, 39, St 21), (94, 122, St 21), (65, 90, St 21), (48, 57, St 21)
      ] (St 0),
    Case 105 [] [
      (33, 33, St 21), (58, 58, Tr 39), (76, 76, St 106), (108, 108, St 106), (124, 124, St 21),
      (126, 126, St 21), (42, 43, St 21), (35, 39, St 21), (48, 57, St 21), (94, 122, St 21), (65, 90, St 21),
      (45, 46, St 21)
      ] (St 0),
    Case 106 [] [
      (33, 33, St 21), (58, 58, Tr 39), (69, 69, St 107), (101, 101, St 107), (124, 124, St 21),
      (126, 126, St 21), (42, 43, St 21), (35, 39, St 21), (48, 57, St 21), (94, 122, St 21), (65, 90, St 21),
      (45, 46, St 21)
      ] (St 0),
    Case 107 [] [
      (33, 33, St 21), (58, 58, Tr 39), (78, 78, St 108), (110, 110, St 108), (124, 124, St 21),
      (126, 126, St 21), (42, 43, St 21), (35, 39, St 21), (48, 57, St 21), (94, 122, St 21), (65, 90, St 21),
      (45, 46, St 21)
      ] (St 0)]"

definition client_blocks_19 :: "client_action block list" where
  "client_blocks_19 = [
    Case 108 [] [
      (33, 33, St 21), (58, 58, Tr 39), (71, 71, St 109), (103, 103, St 109), (124, 124, St 21),
      (126, 126, St 21), (42, 43, St 21), (35, 39, St 21), (48, 57, St 21), (94, 122, St 21), (65, 90, St 21),
      (45, 46, St 21)
      ] (St 0),
    Case 109 [] [
      (33, 33, St 21), (58, 58, Tr 39), (84, 84, St 110), (116, 116, St 110), (124, 124, St 21),
      (126, 126, St 21), (42, 43, St 21), (35, 39, St 21), (48, 57, St 21), (94, 122, St 21), (65, 90, St 21),
      (45, 46, St 21)
      ] (St 0),
    Case 110 [] [
      (33, 33, St 21), (58, 58, Tr 39), (72, 72, St 111), (104, 104, St 111), (124, 124, St 21),
      (126, 126, St 21), (42, 43, St 21), (35, 39, St 21), (48, 57, St 21), (94, 122, St 21), (65, 90, St 21),
      (45, 46, St 21)
      ] (St 0),
    Case 111 [] [
      (33, 33, St 21), (58, 58, Tr 148), (124, 124, St 21), (126, 126, St 21), (42, 43, St 21),
      (35, 39, St 21), (48, 57, St 21), (94, 122, St 21), (65, 90, St 21), (45, 46, St 21)
      ] (St 0),
    Trans 149 [B_start_value] 112,
    Trans 148 [B_write_field] 112,
    Case 112 [] [(10, 10, Tr 150), (13, 13, Tr 151), (32, 32, Tr 149), (48, 57, Tr 152), (9, 12, Tr 149)] (Tr 40)]"

definition client_blocks_20 :: "client_action block list" where
  "client_blocks_20 = [
    Trans 150 [B_start_value, B_write_value] 113,
    Case 113 [] [
      (10, 10, Tr 154), (13, 13, St 116), (32, 32, St 114), (33, 33, Tr 35), (67, 67, Tr 36), (84, 84, Tr 37),
      (99, 99, Tr 36), (116, 116, Tr 37), (124, 124, Tr 35), (126, 126, Tr 35), (9, 12, St 114),
      (42, 43, Tr 35), (35, 39, Tr 35), (48, 57, Tr 156), (94, 122, Tr 35), (65, 90, Tr 35), (45, 46, Tr 35)
      ] (St 0),
    Case 114 [] [(32, 32, St 114), (48, 57, Tr 157), (9, 13, St 114)] (St 0),
    Trans 157 [B_start_value] 115,
    Case 115 [] [(10, 10, Tr 158), (13, 13, Tr 159), (48, 57, St 115)] (St 0),
    Trans 154 [B_done] 123,
    Case 123 [] [(32, 32, St 114), (48, 57, Tr 157), (9, 13, St 114)] (St 0),
    Case 116 [] [(10, 10, Tr 154), (32, 32, St 114), (48, 57, Tr 157), (9, 13, St 114)] (St 0),
    Trans 156 [B_start_value, B_start_field] 117,
    Case 117 [] [
      (10, 10, Tr 158), (13, 13, Tr 159), (33, 33, St 21), (58, 58, Tr 39), (124, 124, St 21),
      (126, 126, St 21), (42, 43, St 21), (35, 39, St 21), (48, 57, St 117), (94, 122, St 21), (65, 90, St 21),
      (45, 46, St 21)
      ] (St 0)]"

definition client_blocks_21 :: "client_action block list" where
  "client_blocks_21 = [
    Trans 151 [B_start_value, B_write_value] 118,
    Case 118 [] [(10, 10, St 113), (32, 32, St 114), (48, 57, Tr 157), (9, 13, St 114)] (St 0),
    Trans 152 [B_start_value] 119,
    Case 119 [] [(10, 10, Tr 158), (13, 13, Tr 159), (48, 57, St 119)] (St 23)]"

definition client_blocks :: "client_action block list" where
  "client_blocks =
     client_blocks_1 @ client_blocks_2 @ client_blocks_3 @ client_blocks_4 @ client_blocks_5 @
     client_blocks_6 @ client_blocks_7 @ client_blocks_8 @ client_blocks_9 @ client_blocks_10 @
     client_blocks_11 @ client_blocks_12 @ client_blocks_13 @ client_blocks_14 @ client_blocks_15 @
     client_blocks_16 @ client_blocks_17 @ client_blocks_18 @ client_blocks_19 @ client_blocks_20 @
     client_blocks_21"

section \<open>Looking blocks up\<close>

lemma client_transitions:
  "transitions client_blocks = [
     (0, [B_mark], 2), (3, [B_chunk_size, B_done], 120), (7, [B_done], 120),
     (9, [B_write_field, B_start_value, B_write_value, B_done], 120), (15, [B_write_value, B_done], 120),
     (74, [B_write_connection_close, B_done], 120), (4, [B_chunk_size], 3),
     (10, [B_write_field, B_start_value, B_write_value], 3), (16, [B_write_value], 3),
     (75, [B_write_connection_close], 3), (6, [B_chunk_size], 4),
     (12, [B_write_field, B_start_value, B_write_value], 4), (18, [B_write_value], 4),
     (8, [B_start_field], 5), (13, [B_write_field, B_start_value], 6), (14, [B_start_value], 7),
     (2, [B_mark], 8), (26, [B_http_version], 16), (27, [B_mark], 17), (28, [B_status_code], 18),
     (30, [B_mark], 19), (45, [B_write_value], 20), (32, [B_reason_phrase], 20),
     (42, [B_start_value, B_write_value], 20), (111, [B_write_value, B_trans_chunked], 20),
     (113, [B_trans_chunked], 20), (158, [B_write_content_len, B_write_value], 20),
     (35, [B_start_field], 21), (76, [B_write_connection_close, B_start_field], 21),
     (41, [B_start_value], 22), (39, [B_write_field], 22), (40, [B_start_value], 23),
     (46, [B_write_value], 24), (33, [B_reason_phrase], 24), (43, [B_start_value, B_write_value], 24),
     (159, [B_write_content_len, B_write_value], 24), (36, [B_start_field], 25),
     (77, [B_write_connection_close, B_start_field], 25), (59, [B_start_value], 35),
     (58, [B_write_field], 35), (60, [B_start_value, B_write_value], 36), (136, [B_write_value], 43),
     (37, [B_start_field], 44), (78, [B_write_connection_close, B_start_field], 44),
     (96, [B_start_value], 61), (95, [B_write_field], 61), (97, [B_start_value, B_write_value], 62),
     (104, [B_start_value], 64), (112, [B_write_value], 71), (101, [B_done], 121),
     (103, [B_start_value, B_start_field], 73), (98, [B_start_value, B_write_value], 80),
     (99, [B_start_value], 81), (137, [B_write_value], 88), (64, [B_done], 122), (66, [B_start_field], 90),
     (61, [B_start_value, B_write_value], 95), (62, [B_start_value], 96), (149, [B_start_value], 112),
     (148, [B_write_field], 112), (150, [B_start_value, B_write_value], 113), (157, [B_start_value], 115),
     (154, [B_done], 123), (156, [B_start_value, B_start_field], 117),
     (151, [B_start_value, B_write_value], 118), (152, [B_start_value], 119)]"
  by code_simp

lemma client_targets [simp]:
  "target (transitions client_blocks) (Tr 0) = Some ([B_mark], 2)"
  "target (transitions client_blocks) (Tr 3) = Some ([B_chunk_size, B_done], 120)"
  "target (transitions client_blocks) (Tr 7) = Some ([B_done], 120)"
  "target (transitions client_blocks) (Tr 9) = Some ([B_write_field, B_start_value, B_write_value, B_done], 120)"
  "target (transitions client_blocks) (Tr 15) = Some ([B_write_value, B_done], 120)"
  "target (transitions client_blocks) (Tr 74) = Some ([B_write_connection_close, B_done], 120)"
  "target (transitions client_blocks) (Tr 4) = Some ([B_chunk_size], 3)"
  "target (transitions client_blocks) (Tr 10) = Some ([B_write_field, B_start_value, B_write_value], 3)"
  "target (transitions client_blocks) (Tr 16) = Some ([B_write_value], 3)"
  "target (transitions client_blocks) (Tr 75) = Some ([B_write_connection_close], 3)"
  "target (transitions client_blocks) (Tr 6) = Some ([B_chunk_size], 4)"
  "target (transitions client_blocks) (Tr 12) = Some ([B_write_field, B_start_value, B_write_value], 4)"
  "target (transitions client_blocks) (Tr 18) = Some ([B_write_value], 4)"
  "target (transitions client_blocks) (Tr 8) = Some ([B_start_field], 5)"
  "target (transitions client_blocks) (Tr 13) = Some ([B_write_field, B_start_value], 6)"
  "target (transitions client_blocks) (Tr 14) = Some ([B_start_value], 7)"
  "target (transitions client_blocks) (Tr 2) = Some ([B_mark], 8)"
  "target (transitions client_blocks) (Tr 26) = Some ([B_http_version], 16)"
  "target (transitions client_blocks) (Tr 27) = Some ([B_mark], 17)"
  "target (transitions client_blocks) (Tr 28) = Some ([B_status_code], 18)"
  "target (transitions client_blocks) (Tr 30) = Some ([B_mark], 19)"
  "target (transitions client_blocks) (Tr 45) = Some ([B_write_value], 20)"
  "target (transitions client_blocks) (Tr 32) = Some ([B_reason_phrase], 20)"
  "target (transitions client_blocks) (Tr 42) = Some ([B_start_value, B_write_value], 20)"
  "target (transitions client_blocks) (Tr 111) = Some ([B_write_value, B_trans_chunked], 20)"
  "target (transitions client_blocks) (Tr 113) = Some ([B_trans_chunked], 20)"
  "target (transitions client_blocks) (Tr 158) = Some ([B_write_content_len, B_write_value], 20)"
  "target (transitions client_blocks) (Tr 35) = Some ([B_start_field], 21)"
  "target (transitions client_blocks) (Tr 76) = Some ([B_write_connection_close, B_start_field], 21)"
  "target (transitions client_blocks) (Tr 41) = Some ([B_start_value], 22)"
  "target (transitions client_blocks) (Tr 39) = Some ([B_write_field], 22)"
  "target (transitions client_blocks) (Tr 40) = Some ([B_start_value], 23)"
  "target (transitions client_blocks) (Tr 46) = Some ([B_write_value], 24)"
  "target (transitions client_blocks) (Tr 33) = Some ([B_reason_phrase], 24)"
  "target (transitions client_blocks) (Tr 43) = Some ([B_start_value, B_write_value], 24)"
  "target (transitions client_blocks) (Tr 159) = Some ([B_write_content_len, B_write_value], 24)"
  "target (transitions client_blocks) (Tr 36) = Some ([B_start_field], 25)"
  "target (transitions client_blocks) (Tr 77) = Some ([B_write_connection_close, B_start_field], 25)"
  "target (transitions client_blocks) (Tr 59) = Some ([B_start_value], 35)"
  "target (transitions client_blocks) (Tr 58) = Some ([B_write_field], 35)"
  "target (transitions client_blocks) (Tr 60) = Some ([B_start_value, B_write_value], 36)"
  "target (transitions client_blocks) (Tr 136) = Some ([B_write_value], 43)"
  "target (transitions client_blocks) (Tr 37) = Some ([B_start_field], 44)"
  "target (transitions client_blocks) (Tr 78) = Some ([B_write_connection_close, B_start_field], 44)"
  "target (transitions client_blocks) (Tr 96) = Some ([B_start_value], 61)"
  "target (transitions client_blocks) (Tr 95) = Some ([B_write_field], 61)"
  "target (transitions client_blocks) (Tr 97) = Some ([B_start_value, B_write_value], 62)"
  "target (transitions client_blocks) (Tr 104) = Some ([B_start_value], 64)"
  "target (transitions client_blocks) (Tr 112) = Some ([B_write_value], 71)"
  "target (transitions client_blocks) (Tr 101) = Some ([B_done], 121)"
  "target (transitions client_blocks) (Tr 103) = Some ([B_start_value, B_start_field], 73)"
  "target (transitions client_blocks) (Tr 98) = Some ([B_start_value, B_write_value], 80)"
  "target (transitions client_blocks) (Tr 99) = Some ([B_start_value], 81)"
  "target (transitions client_blocks) (Tr 137) = Some ([B_write_value], 88)"
  "target (transitions client_blocks) (Tr 64) = Some ([B_done], 122)"
  "target (transitions client_blocks) (Tr 66) = Some ([B_start_field], 90)"
  "target (transitions client_blocks) (Tr 61) = Some ([B_start_value, B_write_value], 95)"
  "target (transitions client_blocks) (Tr 62) = Some ([B_start_value], 96)"
  "target (transitions client_blocks) (Tr 149) = Some ([B_start_value], 112)"
  "target (transitions client_blocks) (Tr 148) = Some ([B_write_field], 112)"
  "target (transitions client_blocks) (Tr 150) = Some ([B_start_value, B_write_value], 113)"
  "target (transitions client_blocks) (Tr 157) = Some ([B_start_value], 115)"
  "target (transitions client_blocks) (Tr 154) = Some ([B_done], 123)"
  "target (transitions client_blocks) (Tr 156) = Some ([B_start_value, B_start_field], 117)"
  "target (transitions client_blocks) (Tr 151) = Some ([B_start_value, B_write_value], 118)"
  "target (transitions client_blocks) (Tr 152) = Some ([B_start_value], 119)"
  by (simp_all add: client_transitions target.simps)

lemmas client_parts =
  client_blocks_1_def client_blocks_2_def client_blocks_3_def client_blocks_4_def client_blocks_5_def
  client_blocks_6_def client_blocks_7_def client_blocks_8_def client_blocks_9_def client_blocks_10_def
  client_blocks_11_def client_blocks_12_def client_blocks_13_def client_blocks_14_def
  client_blocks_15_def client_blocks_16_def client_blocks_17_def client_blocks_18_def
  client_blocks_19_def client_blocks_20_def client_blocks_21_def

lemma client_numbers:
  "numbers client_blocks_1 = [1, 2, 120]"
  "numbers client_blocks_2 = [3, 4, 5]"
  "numbers client_blocks_3 = [6, 7, 8, 9, 10, 11, 12, 13, 14, 15, 16]"
  "numbers client_blocks_4 = [17, 18, 19, 20]"
  "numbers client_blocks_5 = [21, 22, 23, 24, 25]"
  "numbers client_blocks_6 = [26, 27, 28, 29, 30]"
  "numbers client_blocks_7 = [31, 32, 33, 34, 35]"
  "numbers client_blocks_8 = [36, 37, 38, 39, 40, 41, 42, 43]"
  "numbers client_blocks_9 = [44, 45, 46, 47, 48]"
  "numbers client_blocks_10 = [49, 50, 51, 52, 53]"
  "numbers client_blocks_11 = [54, 55, 56, 57, 58]"
  "numbers client_blocks_12 = [59, 60, 61, 62, 63]"
  "numbers client_blocks_13 = [64, 65, 66, 67, 68, 69, 70, 71, 121, 72, 73]"
  "numbers client_blocks_14 = [74, 75, 76, 77, 78]"
  "numbers client_blocks_15 = [79, 80, 81, 82, 83, 84, 85, 86, 87, 88]"
  "numbers client_blocks_16 = [122, 89, 90, 91, 92, 93]"
  "numbers client_blocks_17 = [94, 95, 96, 97, 98, 99, 100, 101, 102]"
  "numbers client_blocks_18 = [103, 104, 105, 106, 107]"
  "numbers client_blocks_19 = [108, 109, 110, 111, 112]"
  "numbers client_blocks_20 = [113, 114, 115, 123, 116, 117]"
  "numbers client_blocks_21 = [118, 119]"
  by (simp_all add:
    client_blocks_1_def client_blocks_2_def client_blocks_3_def client_blocks_4_def client_blocks_5_def
    client_blocks_6_def client_blocks_7_def client_blocks_8_def client_blocks_9_def client_blocks_10_def
    client_blocks_11_def client_blocks_12_def client_blocks_13_def client_blocks_14_def
    client_blocks_15_def client_blocks_16_def client_blocks_17_def client_blocks_18_def
    client_blocks_19_def client_blocks_20_def client_blocks_21_def)
lemmas client_lookup = client_blocks_def find_case_append find_case_None client_numbers
lemma client_cases_1:
  "find_case client_blocks 1 = Some ([], [
     (72, 72, Tr 2), (48, 57, Tr 0), (97, 102, Tr 0), (65, 70, Tr 0)], St 0)"
  "find_case client_blocks 2 = Some ([], [
     (10, 10, Tr 3), (13, 13, Tr 4), (59, 59, Tr 6), (48, 57, St 2), (97, 102, St 2), (65, 70, St 2)], St 0)"
  "find_case client_blocks 120 = Some ([], [], St 0)"
  by (simp_all add: client_lookup client_blocks_1_def)
lemma client_cases_2:
  "find_case client_blocks 3 = Some ([], [(10, 10, Tr 7)], St 0)"
  by (simp_all add: client_lookup client_blocks_2_def)
lemma client_cases_3:
  "find_case client_blocks 8 = Some ([], [(84, 84, St 9)], St 0)"
  "find_case client_blocks 9 = Some ([], [(84, 84, St 10)], St 0)"
  "find_case client_blocks 10 = Some ([], [(80, 80, St 11)], St 0)"
  "find_case client_blocks 11 = Some ([], [(47, 47, St 12)], St 0)"
  "find_case client_blocks 12 = Some ([], [(48, 57, St 13)], St 0)"
  "find_case client_blocks 13 = Some ([], [(46, 46, St 14), (48, 57, St 13)], St 0)"
  "find_case client_blocks 14 = Some ([], [(48, 57, St 15)], St 0)"
  "find_case client_blocks 15 = Some ([], [(32, 32, Tr 26), (48, 57, St 15)], St 0)"
  "find_case client_blocks 16 = Some ([], [(48, 57, Tr 27)], St 0)"
  by (simp_all add: client_lookup client_blocks_3_def)
lemma client_cases_4:
  "find_case client_blocks 17 = Some ([], [(32, 32, Tr 28), (48, 57, St 17)], St 0)"
  "find_case client_blocks 18 = Some ([], [(10, 10, St 0)], Tr 30)"
  "find_case client_blocks 19 = Some ([], [(10, 10, Tr 32), (13, 13, Tr 33)], St 19)"
  "find_case client_blocks 20 = Some ([], [
     (10, 10, Tr 7), (13, 13, St 3), (33, 33, Tr 35), (67, 67, Tr 36), (84, 84, Tr 37), (99, 99, Tr 36),
     (116, 116, Tr 37), (124, 124, Tr 35), (126, 126, Tr 35), (42, 43, Tr 35), (35, 39, Tr 35),
     (48, 57, Tr 35), (94, 122, Tr 35), (65, 90, Tr 35), (45, 46, Tr 35)], St 0)"
  by (simp_all add: client_lookup client_blocks_4_def)
lemma client_cases_5:
  "find_case client_blocks 21 = Some ([], [
     (33, 33, St 21), (58, 58, Tr 39), (124, 124, St 21), (126, 126, St 21), (42, 43, St 21),
     (35, 39, St 21), (48, 57, St 21), (94, 122, St 21), (65, 90, St 21), (45, 46, St 21)], St 0)"
  "find_case client_blocks 22 = Some ([], [
     (10, 10, Tr 42), (13, 13, Tr 43), (32, 32, Tr 41), (9, 12, Tr 41)], Tr 40)"
  "find_case client_blocks 23 = Some ([], [(10, 10, Tr 45), (13, 13, Tr 46)], St 23)"
  "find_case client_blocks 24 = Some ([], [(10, 10, St 20)], St 0)"
  "find_case client_blocks 25 = Some ([], [
     (33, 33, St 21), (58, 58, Tr 39), (79, 79, St 26), (111, 111, St 26), (124, 124, St 21),
     (126, 126, St 21), (42, 43, St 21), (35, 39, St 21), (48, 57, St 21), (94, 122, St 21), (65, 90, St 21),
     (45, 46, St 21)], St 0)"
  by (simp_all add: client_lookup client_blocks_5_def)
lemma client_cases_7:
  "find_case client_blocks 34 = Some ([], [
     (33, 33, St 21), (58, 58, Tr 58), (124, 124, St 21), (126, 126, St 21), (42, 43, St 21),
     (35, 39, St 21), (48, 57, St 21), (94, 122, St 21), (65, 90, St 21), (45, 46, St 21)], St 0)"
  "find_case client_blocks 35 = Some ([], [
     (10, 10, Tr 60), (13, 13, Tr 61), (32, 32, Tr 59), (67, 67, Tr 62), (99, 99, Tr 62), (9, 12, Tr 59)], Tr 40)"
  by (simp_all add: client_lookup client_blocks_7_def)
lemma client_cases_8:
  "find_case client_blocks 36 = Some ([], [
     (10, 10, Tr 64), (13, 13, St 89), (32, 32, St 37), (33, 33, Tr 35), (67, 67, Tr 66), (84, 84, Tr 37),
     (99, 99, Tr 66), (116, 116, Tr 37), (124, 124, Tr 35), (126, 126, Tr 35), (9, 12, St 37),
     (42, 43, Tr 35), (35, 39, Tr 35), (48, 57, Tr 35), (94, 122, Tr 35), (65, 90, Tr 35), (45, 46, Tr 35)], St 0)"
  "find_case client_blocks 37 = Some ([], [
     (32, 32, St 37), (67, 67, St 38), (99, 99, St 38), (9, 13, St 37)], St 0)"
  "find_case client_blocks 43 = Some ([], [
     (10, 10, Tr 74), (13, 13, Tr 75), (33, 33, Tr 76), (67, 67, Tr 77), (84, 84, Tr 78), (99, 99, Tr 77),
     (116, 116, Tr 78), (124, 124, Tr 76), (126, 126, Tr 76), (42, 43, Tr 76), (35, 39, Tr 76),
     (48, 57, Tr 76), (94, 122, Tr 76), (65, 90, Tr 76), (45, 46, Tr 76)], St 0)"
  by (simp_all add: client_lookup client_blocks_8_def)
lemma client_cases_13:
  "find_case client_blocks 71 = Some ([], [(10, 10, Tr 113)], St 0)"
  "find_case client_blocks 121 = Some ([], [
     (32, 32, St 63), (67, 67, Tr 104), (99, 99, Tr 104), (9, 13, St 63)], St 0)"
  by (simp_all add: client_lookup client_blocks_13_def)
lemma client_cases_15:
  "find_case client_blocks 88 = Some ([], [(10, 10, St 43)], St 0)"
  by (simp_all add: client_lookup client_blocks_15_def)
lemma client_cases_16:
  "find_case client_blocks 122 = Some ([], [
     (32, 32, St 37), (67, 67, St 38), (99, 99, St 38), (9, 13, St 37)], St 0)"
  by (simp_all add: client_lookup client_blocks_16_def)
lemma client_cases_17:
  "find_case client_blocks 95 = Some ([], [
     (10, 10, St 36), (32, 32, St 37), (67, 67, St 38), (99, 99, St 38), (9, 13, St 37)], St 0)"
  by (simp_all add: client_lookup client_blocks_17_def)
lemma client_cases_20:
  "find_case client_blocks 113 = Some ([], [
     (10, 10, Tr 154), (13, 13, St 116), (32, 32, St 114), (33, 33, Tr 35), (67, 67, Tr 36), (84, 84, Tr 37),
     (99, 99, Tr 36), (116, 116, Tr 37), (124, 124, Tr 35), (126, 126, Tr 35), (9, 12, St 114),
     (42, 43, Tr 35), (35, 39, Tr 35), (48, 57, Tr 156), (94, 122, Tr 35), (65, 90, Tr 35), (45, 46, Tr 35)], St 0)"
  "find_case client_blocks 114 = Some ([], [(32, 32, St 114), (48, 57, Tr 157), (9, 13, St 114)], St 0)"
  "find_case client_blocks 115 = Some ([], [(10, 10, Tr 158), (13, 13, Tr 159), (48, 57, St 115)], St 0)"
  "find_case client_blocks 123 = Some ([], [(32, 32, St 114), (48, 57, Tr 157), (9, 13, St 114)], St 0)"
  "find_case client_blocks 116 = Some ([], [
     (10, 10, Tr 154), (32, 32, St 114), (48, 57, Tr 157), (9, 13, St 114)], St 0)"
  "find_case client_blocks 117 = Some ([], [
     (10, 10, Tr 158), (13, 13, Tr 159), (33, 33, St 21), (58, 58, Tr 39), (124, 124, St 21),
     (126, 126, St 21), (42, 43, St 21), (35, 39, St 21), (48, 57, St 117), (94, 122, St 21),
     (65, 90, St 21), (45, 46, St 21)], St 0)"
  by (simp_all add: client_lookup client_blocks_20_def)
lemma client_cases_21:
  "find_case client_blocks 118 = Some ([], [
     (10, 10, St 113), (32, 32, St 114), (48, 57, Tr 157), (9, 13, St 114)], St 0)"
  by (simp_all add: client_lookup client_blocks_21_def)
lemmas client_cases =
  client_cases_1 client_cases_2 client_cases_3 client_cases_4 client_cases_5 client_cases_7
  client_cases_8 client_cases_13 client_cases_15 client_cases_16 client_cases_17 client_cases_20
  client_cases_21

end
