(* ===== verification/ByteStream.thy ===== *)
theory ByteStream
  imports ByteArray_Views
begin

text \<open>
  \<^verbatim>\<open>src/myhttp/stream.h\<close> and \<^verbatim>\<open>stream.cpp\<close>: the loops that repeat \<open>read\<close> and \<open>write\<close> of a stream until a
  given number of bytes is transferred.  The virtual \<open>read\<close> and \<open>write\<close> are parameters; they return an
  \<open>int\<close> (a 32-bit word), which the loops assign to a \<open>size_t\<close>, so a negative result becomes a huge
  length.  Offsets and lengths are 64-bit words and wrap.  The loops need not end, hence
  \<open>partial_function\<close>: \<open>None\<close> is a loop that never returns.
\<close>

section \<open>Loops\<close>

text \<open>Storing at \<open>buffer + offset\<close>, and the bytes from \<open>buffer + offset\<close> on.\<close>

definition poke :: "u8 list \<Rightarrow> u64 \<Rightarrow> u8 list \<Rightarrow> u8 list result" where
  "poke buffer offset bs =
     (if bs = [] then Inr buffer
      else if unat offset + length bs \<le> length buffer then Inr (overlay buffer (unat offset) bs)
      else Inl OutOfBounds)"

definition peek :: "u8 list \<Rightarrow> u64 \<Rightarrow> u64 \<Rightarrow> u8 list result" where
  "peek buffer offset n =
     (if unat offset + unat n \<le> length buffer then Inr (take (unat n) (drop (unat offset) buffer))
      else Inl OutOfBounds)"

partial_function (option) readFixSize_loop ::
  "('s \<Rightarrow> u64 \<Rightarrow> (u32 \<times> u8 list) \<times> 's) \<Rightarrow> u64 \<Rightarrow> 's \<Rightarrow> u8 list \<Rightarrow> u64 \<Rightarrow> u64 \<Rightarrow> (u32 \<times> u8 list \<times> 's) result option"
where
  "readFixSize_loop rd n s buffer offset left =
     (if left > 0 then
        case rd s left of ((r, bs), s) \<Rightarrow>
          (case poke buffer offset bs of
             Inl e \<Rightarrow> Some (Inl e)
           | Inr buffer \<Rightarrow>
               (let len = scast r :: u64
                in if len \<le> 0 then Some (Inr (ucast len, buffer, s))
                   else readFixSize_loop rd n s buffer (offset + len) (left - len)))
      else Some (Inr (ucast n, buffer, s)))"

definition readFixSize ::
  "('s \<Rightarrow> u64 \<Rightarrow> (u32 \<times> u8 list) \<times> 's) \<Rightarrow> 's \<Rightarrow> u8 list \<Rightarrow> u64 \<Rightarrow> (u32 \<times> u8 list \<times> 's) result option" where
  "readFixSize rd s buffer n = readFixSize_loop rd n s buffer 0 n"

partial_function (option) writeFixSize_loop ::
  "('s \<Rightarrow> u8 list \<Rightarrow> u32 \<times> 's) \<Rightarrow> u64 \<Rightarrow> 's \<Rightarrow> u8 list \<Rightarrow> u64 \<Rightarrow> u64 \<Rightarrow> (u32 \<times> 's) result option"
where
  "writeFixSize_loop wr n s buffer offset left =
     (if left > 0 then
        case peek buffer offset left of
          Inl e \<Rightarrow> Some (Inl e)
        | Inr bs \<Rightarrow>
            (case wr s bs of (r, s) \<Rightarrow>
               (let len = scast r :: u64
                in if len \<le> 0 then Some (Inr (ucast len, s))
                   else writeFixSize_loop wr n s buffer (offset + len) (left - len)))
      else Some (Inr (ucast n, s)))"

definition writeFixSize ::
  "('s \<Rightarrow> u8 list \<Rightarrow> u32 \<times> 's) \<Rightarrow> 's \<Rightarrow> u8 list \<Rightarrow> u64 \<Rightarrow> (u32 \<times> 's) result option" where
  "writeFixSize wr s buffer n = writeFixSize_loop wr n s buffer 0 n"

text \<open>The overloads on a \<open>ByteArray\<close> have one body; \<open>io\<close> is the stream's \<open>read\<close> or \<open>write\<close>.\<close>

partial_function (option) fixSize_ba_loop ::
  "('s \<Rightarrow> bytearray \<Rightarrow> u64 \<Rightarrow> (u32 \<times> bytearray \<times> 's) result) \<Rightarrow> u64 \<Rightarrow> 's \<Rightarrow> bytearray \<Rightarrow> u64
     \<Rightarrow> (u32 \<times> bytearray \<times> 's) result option"
where
  "fixSize_ba_loop io n s ba left =
     (if left > 0 then
        case io s ba left of
          Inl e \<Rightarrow> Some (Inl e)
        | Inr (r, ba, s) \<Rightarrow>
            (let len = scast r :: u64
             in if len \<le> 0 then Some (Inr (ucast len, ba, s)) else fixSize_ba_loop io n s ba (left - len))
      else Some (Inr (ucast n, ba, s)))"

definition readFixSize_ba ::
  "('s \<Rightarrow> bytearray \<Rightarrow> u64 \<Rightarrow> (u32 \<times> bytearray \<times> 's) result) \<Rightarrow> 's \<Rightarrow> bytearray \<Rightarrow> u64
     \<Rightarrow> (u32 \<times> bytearray \<times> 's) result option" where
  "readFixSize_ba rd s ba n = fixSize_ba_loop rd n s ba n"

definition writeFixSize_ba ::
  "('s \<Rightarrow> bytearray \<Rightarrow> u64 \<Rightarrow> (u32 \<times> bytearray \<times> 's) result) \<Rightarrow> 's \<Rightarrow> bytearray \<Rightarrow> u64
     \<Rightarrow> (u32 \<times> bytearray \<times> 's) result option" where
  "writeFixSize_ba wr s ba n = fixSize_ba_loop wr n s ba n"

section \<open>Contracts of a stream\<close>

lemma scast_small:
  assumes "k < 2 ^ 31"
  shows "(scast (word_of_nat k :: u32) :: u64) = word_of_nat k"
proof -
  have "sint (word_of_nat k :: u32) = int k"
    using assms by (simp add: signed_of_nat signed_take_bit_int_eq_self)
  then show ?thesis by (simp add: scast_eq)
qed

lemma sub_word_of_nat:
  fixes left :: u64
  assumes "k \<le> unat left"
  shows "unat (left - word_of_nat k) = unat left - k"
proof -
  have "left - word_of_nat k = word_of_nat (unat left - k)" using assms by simp
  then show ?thesis using unsigned_less [of left, where ?'a = nat] by (simp only: unat_of_nat) (simp add: less_imp_diff_less)
qed

text \<open>What one round of a loop does to offset and rest, when the stream reports \<open>k\<close> bytes.\<close>

lemma chunk_words:
  fixes offset left :: u64
  assumes "0 < k" "k \<le> unat left" "k < 2 ^ 31" "unat offset + unat left < 2 ^ 64"
  shows "(scast (word_of_nat k :: u32) :: u64) = word_of_nat k" "(word_of_nat k :: u64) \<noteq> 0"
    "unat (offset + word_of_nat k) = unat offset + k" "unat (left - word_of_nat k) = unat left - k"
proof -
  have kn: "unat (word_of_nat k :: u64) = k" using assms(3) by (intro unat_of_nat_small) simp
  show "(scast (word_of_nat k :: u32) :: u64) = word_of_nat k" by (rule scast_small [OF assms(3)])
  show "(word_of_nat k :: u64) \<noteq> 0" using kn assms(1) by force
  show "unat (offset + word_of_nat k) = unat offset + k"
    using assms kn by (subst unat_add_lem [THEN iffD1]) simp_all
  show "unat (left - word_of_nat k) = unat left - k" by (rule sub_word_of_nat [OF assms(2)])
qed

lemma take_take_drop: "k \<le> m \<Longrightarrow> take k xs @ take (m - k) (drop k xs) = take m xs"
  by (metis le_add_diff_inverse take_add)

text \<open>A source of bytes: a read delivers some, not necessarily all, of what is pending, and reports the end
  by 0.\<close>

locale byte_source =
  fixes rd :: "'s \<Rightarrow> u64 \<Rightarrow> (u32 \<times> u8 list) \<times> 's"
    and pending :: "'s \<Rightarrow> u8 list"
  assumes rd_data: "pending s \<noteq> [] \<Longrightarrow> 0 < n \<Longrightarrow>
      \<exists>k s'. rd s n = ((word_of_nat k, take k (pending s)), s') \<and> 0 < k \<and> k \<le> unat n \<and> k \<le> length (pending s)
        \<and> k < 2 ^ 31 \<and> pending s' = drop k (pending s)"
    and rd_end: "pending s = [] \<Longrightarrow> \<exists>s'. rd s n = ((0, []), s') \<and> pending s' = []"
begin

lemma loop_ok:
  assumes "unat offset + unat left \<le> length buffer" "length buffer < 2 ^ 64"
  shows "\<exists>s'. readFixSize_loop rd n s buffer offset left =
      Some (Inr (if unat left \<le> length (pending s) then ucast n else 0,
                 overlay buffer (unat offset) (take (unat left) (pending s)), s'))
    \<and> pending s' = drop (unat left) (pending s)"
  using assms
proof (induction "unat left" arbitrary: left offset buffer s rule: less_induct)
  case less
  show ?case
  proof (cases "left = 0")
    case True
    then show ?thesis by (subst readFixSize_loop.simps) simp
  next
    case False
    then have pos: "left > 0" "unat left > 0" by (simp_all add: word_neq_0_conv unat_gt_0)
    show ?thesis
    proof (cases "pending s = []")
      case True
      then obtain s' where "rd s left = ((0, []), s')" "pending s' = []" using rd_end by blast
      then show ?thesis using True pos by (subst readFixSize_loop.simps) (simp add: poke_def)
    next
      case ne: False
      then obtain k s' where k: "rd s left = ((word_of_nat k, take k (pending s)), s')" "0 < k" "k \<le> unat left"
          "k \<le> length (pending s)" "k < 2 ^ 31" "pending s' = drop k (pending s)"
        using rd_data [OF ne pos(1)] by blast
      let ?buf = "overlay buffer (unat offset) (take k (pending s))"
      have fit: "unat offset + k \<le> length buffer" using k(3) less.prems(1) by linarith
      then have poke: "poke buffer offset (take k (pending s)) = Inr ?buf" using k(2,4) by (simp add: poke_def)
      have "unat offset + unat left < 2 ^ 64" using less.prems by linarith
      note cw = chunk_words [OF k(2,3,5) this]
      have buf: "length ?buf = length buffer" using fit k(4) by simp
      have step: "readFixSize_loop rd n s buffer offset left =
          readFixSize_loop rd n s' ?buf (offset + word_of_nat k) (left - word_of_nat k)"
        by (subst readFixSize_loop.simps) (use pos k(1) poke cw in \<open>simp add: Let_def\<close>)
      obtain s2 where ih: "readFixSize_loop rd n s' ?buf (offset + word_of_nat k) (left - word_of_nat k) =
          Some (Inr (if unat (left - word_of_nat k) \<le> length (pending s') then ucast n else 0,
             overlay ?buf (unat (offset + word_of_nat k)) (take (unat (left - word_of_nat k)) (pending s')), s2))"
          "pending s2 = drop (unat (left - word_of_nat k)) (pending s')"
        using less.hyps [of "left - word_of_nat k" "offset + word_of_nat k" ?buf s'] cw buf k(2,3) pos less.prems
        by auto
      have "overlay ?buf (unat offset + length (take k (pending s))) (take (unat left - k) (drop k (pending s)))
          = overlay buffer (unat offset) (take k (pending s) @ take (unat left - k) (drop k (pending s)))"
        using less.prems(1) k(3,4) by (intro overlay_overlay) simp
      then show ?thesis using step ih k(3,4,6) cw take_take_drop [OF k(3), of "pending s"] by (auto simp: le_diff_conv2)
    qed
  qed
qed

lemma readFixSize_ok:
  assumes "unat n \<le> length buffer" "length buffer < 2 ^ 64"
  shows "\<exists>s'. readFixSize rd s buffer n =
      Some (Inr (if unat n \<le> length (pending s) then ucast n else 0, overlay buffer 0 (take (unat n) (pending s)), s'))
    \<and> pending s' = drop (unat n) (pending s)"
  using loop_ok [of 0 n buffer n s] assms by (simp add: readFixSize_def)

end

text \<open>A sink: a write accepts a non-empty prefix of what it is given.\<close>

locale byte_sink =
  fixes wr :: "'s \<Rightarrow> u8 list \<Rightarrow> u32 \<times> 's"
    and sent :: "'s \<Rightarrow> u8 list"
  assumes wr_some: "bs \<noteq> [] \<Longrightarrow>
      \<exists>k s'. wr s bs = (word_of_nat k, s') \<and> 0 < k \<and> k \<le> length bs \<and> k < 2 ^ 31 \<and> sent s' = sent s @ take k bs"
begin

lemma loop_ok:
  assumes "unat offset + unat left \<le> length buffer" "length buffer < 2 ^ 64"
  shows "\<exists>s'. writeFixSize_loop wr n s buffer offset left = Some (Inr (ucast n, s'))
    \<and> sent s' = sent s @ take (unat left) (drop (unat offset) buffer)"
  using assms(1)
proof (induction "unat left" arbitrary: left offset s rule: less_induct)
  case less
  show ?case
  proof (cases "left = 0")
    case True
    then show ?thesis by (subst writeFixSize_loop.simps) simp
  next
    case False
    then have pos: "left > 0" "unat left > 0" by (simp_all add: word_neq_0_conv unat_gt_0)
    let ?bs = "take (unat left) (drop (unat offset) buffer)"
    have len: "length ?bs = unat left" using less.prems by simp
    then have "?bs \<noteq> []" using pos(2) by auto
    then obtain k s' where k: "wr s ?bs = (word_of_nat k, s')" "0 < k" "k \<le> unat left" "k < 2 ^ 31" "sent s' = sent s @ take k ?bs"
      using wr_some [of ?bs s] len by auto
    have "unat offset + unat left < 2 ^ 64" using less.prems assms(2) by linarith
    note cw = chunk_words [OF k(2,3,4) this]
    have step: "writeFixSize_loop wr n s buffer offset left =
        writeFixSize_loop wr n s' buffer (offset + word_of_nat k) (left - word_of_nat k)"
      by (subst writeFixSize_loop.simps) (use pos k(1) cw less.prems in \<open>simp add: Let_def peek_def\<close>)
    obtain s2 where "writeFixSize_loop wr n s' buffer (offset + word_of_nat k) (left - word_of_nat k) = Some (Inr (ucast n, s2))"
        "sent s2 = sent s' @ take (unat (left - word_of_nat k)) (drop (unat (offset + word_of_nat k)) buffer)"
      using less.hyps [of "left - word_of_nat k" "offset + word_of_nat k" s'] cw k(2,3) pos less.prems by auto
    then show ?thesis
      using step cw k(3,5) take_take_drop [OF k(3), of "drop (unat offset) buffer"] by (auto simp: add.commute)
  qed
qed

lemma writeFixSize_ok:
  assumes "unat n \<le> length buffer" "length buffer < 2 ^ 64"
  shows "\<exists>s'. writeFixSize wr s buffer n = Some (Inr (ucast n, s')) \<and> sent s' = sent s @ take (unat n) buffer"
  using loop_ok [of 0 n buffer n s] assms by (simp add: writeFixSize_def)

end

text \<open>What every read keeps, the loop over the reads keeps; likewise for writes.\<close>

lemma readFixSize_loop_keeps:
  assumes "readFixSize_loop rd n s buffer offset left = Some (Inr (r, buf, s'))" "\<And>s n. f (snd (rd s n)) = f s"
  shows "f s' = f s"
proof -
  have "(\<forall>s n. f (snd (rd s n)) = f s)
      \<longrightarrow> (\<forall>q c t. (Inr (r, buf, s') :: (u32 \<times> u8 list \<times> 'a) result) = Inr (q, c, t) \<longrightarrow> f t = f s)"
  proof (rule readFixSize_loop.raw_induct [where P = "\<lambda>rd n s buffer offset left y.
      (\<forall>s n. f (snd (rd s n)) = f s) \<longrightarrow> (\<forall>q c t. y = Inr (q, c, t) \<longrightarrow> f t = f s)", OF _ assms(1)], intro impI allI, goal_cases)
    case (1 g rd n s buffer offset left y q c t)
    obtain r1 bs s1 where rd: "rd s left = ((r1, bs), s1)" by (metis surj_pair)
    then have "f s1 = f s" using 1(3) by (metis snd_conv)
    show ?case
    proof (cases "left > 0 \<and> (\<exists>b1. poke buffer offset bs = Inr b1) \<and> (scast r1 :: u64) \<noteq> 0")
      case True
      then obtain b1 where "left > 0" "poke buffer offset bs = Inr b1" "(scast r1 :: u64) \<noteq> 0" by blast
      then have "g rd n s1 b1 (offset + scast r1) (left - scast r1) = Some y" using 1(2) rd by (simp add: Let_def)
      from 1(1) [OF this] show ?thesis using 1(3,4) \<open>f s1 = f s\<close> by simp
    next
      case False
      then have "t = s \<or> t = s1" using 1(2) rd unfolding 1(4) by (auto simp: Let_def split: if_splits sum.splits)
      then show ?thesis using \<open>f s1 = f s\<close> by blast
    qed
  qed
  then show ?thesis using assms(2) by blast
qed

lemma writeFixSize_loop_keeps:
  assumes "writeFixSize_loop wr n s buffer offset left = Some (Inr (r, s'))" "\<And>s bs. f (snd (wr s bs)) = f s"
  shows "f s' = f s"
proof -
  have "(\<forall>s bs. f (snd (wr s bs)) = f s)
      \<longrightarrow> (\<forall>q t. (Inr (r, s') :: (u32 \<times> 'a) result) = Inr (q, t) \<longrightarrow> f t = f s)"
  proof (rule writeFixSize_loop.raw_induct [where P = "\<lambda>wr n s buffer offset left y.
      (\<forall>s bs. f (snd (wr s bs)) = f s) \<longrightarrow> (\<forall>q t. y = Inr (q, t) \<longrightarrow> f t = f s)", OF _ assms(1)], intro impI allI, goal_cases)
    case (1 g wr n s buffer offset left y q t)
    show ?case
    proof (cases "left > 0 \<and> (\<exists>bs. peek buffer offset left = Inr bs)")
      case True
      then obtain bs where bs: "left > 0" "peek buffer offset left = Inr bs" by blast
      have "f (snd (wr s bs)) = f s" using 1(3) by blast
      then show ?thesis using 1(1) [of wr n "snd (wr s bs)"] 1(2-4) bs
        by (cases "wr s bs") (auto split: if_splits simp: Let_def)
    next
      case False
      then show ?thesis using 1(2,4) by (auto split: if_splits sum.splits)
    qed
  qed
  then show ?thesis using assms(2) by blast
qed

text \<open>Both directions of a stream, which do not disturb each other.\<close>

locale byte_stream = byte_source rd pending + byte_sink wr sent
  for rd :: "'s \<Rightarrow> u64 \<Rightarrow> (u32 \<times> u8 list) \<times> 's"
    and pending :: "'s \<Rightarrow> u8 list"
    and wr :: "'s \<Rightarrow> u8 list \<Rightarrow> u32 \<times> 's"
    and sent :: "'s \<Rightarrow> u8 list" +
  assumes rd_sent: "sent (snd (rd s n)) = sent s"
    and wr_pending: "pending (snd (wr s bs)) = pending s"
begin

lemma readFixSize_sent: "readFixSize rd s buffer n = Some (Inr (r, buf, s')) \<Longrightarrow> sent s' = sent s"
  unfolding readFixSize_def by (erule readFixSize_loop_keeps [where f = sent]) (rule rd_sent)

lemma writeFixSize_pending: "writeFixSize wr s buffer n = Some (Inr (r, s')) \<Longrightarrow> pending s' = pending s"
  unfolding writeFixSize_def by (erule writeFixSize_loop_keeps [where f = pending]) (rule wr_pending)

end

section \<open>A stream that fails\<close>

text \<open>A read that returns -1 is taken for a huge length: the loop goes on with one byte more to read at
  one byte before, until the 64-bit rest has wrapped to 0, and then reports success.\<close>

lemma loop_all_fail:
  assumes "\<And>m. rd s m = ((- 1, []), s)"
  shows "readFixSize_loop rd n s buffer offset left = Some (Inr (ucast n, buffer, s))"
proof (induction "2 ^ 64 - unat left" arbitrary: left offset rule: less_induct)
  case less
  show ?case
  proof (cases "left = 0")
    case True
    then show ?thesis by (subst readFixSize_loop.simps) simp
  next
    case False
    have m1: "(scast (- 1 :: u32) :: u64) = - 1" by simp
    have step: "readFixSize_loop rd n s buffer offset left = readFixSize_loop rd n s buffer (offset - 1) (left + 1)"
      by (subst readFixSize_loop.simps) (use False assms m1 in \<open>simp add: poke_def Let_def word_neq_0_conv\<close>)
    show ?thesis
    proof (cases "left + 1 = 0")
      case True
      then show ?thesis using step by (subst (asm) (2) readFixSize_loop.simps) simp
    next
      case False
      then have "unat (left + 1) = Suc (unat left)" by (simp add: unatSuc add.commute)
      then show ?thesis using step less.hyps [of "left + 1"] unsigned_less [of left, where ?'a = nat] by simp
    qed
  qed
qed

lemma readFixSize_all_fail:
  "(\<And>m. rd s m = ((- 1, []), s)) \<Longrightarrow> readFixSize rd s buffer n = Some (Inr (ucast n, buffer, s))"
  by (simp add: readFixSize_def loop_all_fail)

text \<open>After one failed read the next one may fill one byte more than was asked for, before the buffer.\<close>

lemma readFixSize_underrun:
  assumes "0 < n" "n \<noteq> - 1" "rd s n = ((- 1, []), s1)" "rd s1 (n + 1) = ((r, bs), s2)" "bs \<noteq> []" "length buffer < 2 ^ 63"
  shows "readFixSize rd s buffer n = Some (Inl OutOfBounds)"
proof -
  have m1: "(scast (- 1 :: u32) :: u64) = - 1" by simp
  have step: "readFixSize rd s buffer n = readFixSize_loop rd n s1 buffer (- 1) (n + 1)"
    unfolding readFixSize_def by (subst readFixSize_loop.simps) (use assms(1,3) m1 in \<open>simp add: poke_def Let_def\<close>)
  have "n + 1 > 0" using assms(2) by (metis add.commute eq_neg_iff_add_eq_0 word_neq_0_conv)
  moreover have "unat (- 1 :: u64) = 2 ^ 64 - 1" by (simp add: unsigned_minus_1_eq_mask mask_eq_exp_minus_1)
  then have "poke buffer (- 1) bs = Inl OutOfBounds" using assms(5,6) by (simp add: poke_def)
  ultimately have "readFixSize_loop rd n s1 buffer (- 1) (n + 1) = Some (Inl OutOfBounds)"
    by (subst readFixSize_loop.simps) (use assms(4) in simp)
  then show ?thesis using step by simp
qed

end
