(* ===== verification/Hook.thy ===== *)
theory Hook
  imports FdManager IOManager_Lemmas Timer_Lemmas "HOL-Library.Signed_Division"
begin

text \<open>
  \<^verbatim>\<open>src/myhttp/hook.cpp\<close>: the replacements of blocking system calls.  A call that would block
  registers the descriptor with the \<open>IOManager\<close>, arms a timer when the context of the descriptor has a
  timeout, and yields the fiber until the event or the timer fires.  What the kernel answers is an
  argument: the results of the successive attempts, and for every wait whether \<open>epoll_ctl\<close>
  succeeded and what woke the fiber.  Running out of these scripts means that the call has not
  returned (\<open>None\<close>).  The yield of the fiber and its resumption are represented by that script: the
  code after \<open>YieldToHold\<close> runs once the event is no longer registered.  The dynamic lookup of the original functions (\<open>hook_init\<close>) is not represented.
\<close>

section \<open>Status flags\<close>

record hook_world =
  t_hook_enable :: bool
  hw_fds :: FdManager
  hw_kernel :: kernel_fds

definition set_hook_enable :: "bool \<Rightarrow> hook_world \<Rightarrow> hook_world" where
  "set_hook_enable flag w = w\<lparr>t_hook_enable := flag\<rparr>"

definition is_hook_enable :: "hook_world \<Rightarrow> bool" where
  "is_hook_enable w = t_hook_enable w"

text \<open>The context \<open>get(fd)\<close> finds, without creating one.\<close>

definition find_ctx :: "int \<Rightarrow> hook_world \<Rightarrow> FdCtx option result" where
  "find_ctx fd w = bindR (fd_get (hw_kernel w) (hw_fds w) fd False) (\<lambda>(ctx, m, k). Inr ctx)"

text \<open>The three groups of commands of \<open>fcntl\<close>; \<open>fcntl_f\<close> stands for the commands passed on unchanged.\<close>

datatype 'c fcntl_cmd = F_SETFL u32 | F_GETFL | F_OTHER 'c

definition managed_socket :: "FdCtx option \<Rightarrow> bool" where
  "managed_socket ctx = (case ctx of None \<Rightarrow> False | Some c \<Rightarrow> \<not> m_isClosed c \<and> m_isSocket c)"

definition hook_fcntl ::
  "(int \<Rightarrow> 'c \<Rightarrow> kernel_fds \<Rightarrow> u32 \<times> kernel_fds) \<Rightarrow> int \<Rightarrow> 'c fcntl_cmd \<Rightarrow> hook_world \<Rightarrow> (u32 \<times> hook_world) result" where
  "hook_fcntl fcntl_f fd cmd w =
     (case cmd of
        F_SETFL arg \<Rightarrow>
          bindR (find_ctx fd w) (\<lambda>ctx.
            if \<not> managed_socket ctx
            then let (r, k) = fcntl_setfl fd arg (hw_kernel w) in Inr (r, w\<lparr>hw_kernel := k\<rparr>)
            else let m = fd_update (hw_fds w) fd (setUserNonblock (arg AND O_NONBLOCK \<noteq> 0));
                     arg = (if m_sysNonblock (the ctx) then arg OR O_NONBLOCK else arg AND NOT O_NONBLOCK);
                     (r, k) = fcntl_setfl fd arg (hw_kernel w)
                 in Inr (r, w\<lparr>hw_fds := m, hw_kernel := k\<rparr>))
      | F_GETFL \<Rightarrow>
          (let arg = fcntl_getfl fd (hw_kernel w)
           in bindR (find_ctx fd w) (\<lambda>ctx.
                Inr (if \<not> managed_socket ctx then arg
                     else if m_userNonblock (the ctx) then arg OR O_NONBLOCK else arg AND NOT O_NONBLOCK, w)))
      | F_OTHER c \<Rightarrow> (let (r, k) = fcntl_f fd c (hw_kernel w) in Inr (r, w\<lparr>hw_kernel := k\<rparr>)))"

definition ioctl_fionbio :: "int \<Rightarrow> bool \<Rightarrow> kernel_fds \<Rightarrow> u32 \<times> kernel_fds" where
  "ioctl_fionbio fd v k =
     (case k fd of
        None \<Rightarrow> (- 1, k)
      | Some d \<Rightarrow>
          (0, k(fd \<mapsto> d\<lparr>d_flags := (if v then d_flags d OR O_NONBLOCK else d_flags d AND NOT O_NONBLOCK)\<rparr>)))"

definition hook_ioctl_fionbio :: "int \<Rightarrow> int \<Rightarrow> hook_world \<Rightarrow> (u32 \<times> hook_world) result" where
  "hook_ioctl_fionbio fd arg w =
     (let user_nonblock = (arg \<noteq> 0); (r, k) = ioctl_fionbio fd (arg \<noteq> 0) (hw_kernel w)
      in bindR (find_ctx fd w) (\<lambda>ctx.
           if \<not> managed_socket ctx then Inr (r, w\<lparr>hw_kernel := k\<rparr>)
           else Inr (r, w\<lparr>hw_fds := fd_update (hw_fds w) fd (setUserNonblock user_nonblock), hw_kernel := k\<rparr>)))"

section \<open>Timeouts and descriptors\<close>

definition SOL_SOCKET :: int where "SOL_SOCKET = 1"

text \<open>\<open>setsockopt\<close> with a \<open>timeval\<close>; \<open>rt\<close> is what \<open>setsockopt_f\<close> returns.\<close>

definition hook_setsockopt :: "int \<Rightarrow> int \<Rightarrow> int \<Rightarrow> int \<times> int \<Rightarrow> int \<Rightarrow> hook_world \<Rightarrow> (int \<times> hook_world) result" where
  "hook_setsockopt fd level optname tv rt w =
     (if \<not> t_hook_enable w then Inr (rt, w)
      else if level = SOL_SOCKET \<and> (optname = SO_RCVTIMEO \<or> optname = SO_SNDTIMEO) then
        bindR (find_ctx fd w) (\<lambda>ctx.
          case ctx of
            None \<Rightarrow> Inr (rt, w)
          | Some c \<Rightarrow>
              (let v = fst tv * 1000 + snd tv sdiv 1000
               in if v < - (2 ^ 63) \<or> 2 ^ 63 \<le> v then Inl SignedOverflow
                  else Inr (rt, w\<lparr>hw_fds := fd_update (hw_fds w) fd (setTimeout optname (word_of_int v))\<rparr>)))
      else Inr (rt, w))"

text \<open>\<open>fd\<close> is what \<open>socket_f\<close> or \<open>accept\<close> returned, already known to the kernel.\<close>

definition hook_socket :: "int \<Rightarrow> hook_world \<Rightarrow> (int \<times> hook_world) result" where
  "hook_socket fd w =
     (if \<not> t_hook_enable w then Inr (fd, w)
      else if fd = - 1 then Inr (fd, w)
      else bindR (fd_get (hw_kernel w) (hw_fds w) fd True) (\<lambda>(ctx, m, k).
        Inr (fd, w\<lparr>hw_fds := m, hw_kernel := k\<rparr>)))"

definition hook_accept_done :: "int \<Rightarrow> hook_world \<Rightarrow> (int \<times> hook_world) result" where
  "hook_accept_done fd w =
     (if fd \<ge> 0
      then bindR (fd_get (hw_kernel w) (hw_fds w) fd True) (\<lambda>(ctx, m, k).
        Inr (fd, w\<lparr>hw_fds := m, hw_kernel := k\<rparr>))
      else Inr (fd, w))"

definition close_f :: "int \<Rightarrow> kernel_fds \<Rightarrow> int \<times> kernel_fds" where
  "close_f fd k = (if k fd = None then (- 1, k) else (0, k(fd := None)))"

definition hook_close ::
  "int \<Rightarrow> bool \<Rightarrow> hook_world \<Rightarrow> IOManager option \<Rightarrow> (int \<times> hook_world \<times> IOManager option) result" where
  "hook_close fd ctl_ok w iom =
     (let (r, k) = close_f fd (hw_kernel w)
      in if \<not> t_hook_enable w then Inr (r, w\<lparr>hw_kernel := k\<rparr>, iom)
         else bindR (find_ctx fd w) (\<lambda>ctx.
           if ctx = None then Inr (r, w\<lparr>hw_kernel := k\<rparr>, iom)
           else bindR (case iom of None \<Rightarrow> Inr None
                       | Some io \<Rightarrow> bindR (cancelAll fd ctl_ok io) (\<lambda>(b, io). Inr (Some io))) (\<lambda>iom.
             Inr (r, w\<lparr>hw_fds := fd_del (hw_fds w) fd, hw_kernel := k\<rparr>, iom))))"

section \<open>Waiting\<close>

definition EINTR :: int where "EINTR = 4"
definition EBADF :: int where "EBADF = 9"
definition EAGAIN :: int where "EAGAIN = 11"
definition EINPROGRESS :: int where "EINPROGRESS = 115"
definition ETIMEDOUT :: int where "ETIMEDOUT = 110"

lemmas errno_defs = EINTR_def EBADF_def EAGAIN_def EINPROGRESS_def ETIMEDOUT_def

text \<open>The call: descriptor, event, timeout, scheduler and fiber of the caller, and the name of its
  \<open>timer_info\<close>.\<close>

record io_call =
  ic_fd :: int
  ic_event :: u32
  ic_timeout :: u64
  ic_sched :: nat
  ic_fiber :: nat
  ic_info :: nat

text \<open>What other threads do while the call waits, one step at a time: an epoll report for the descriptor
  (with the outcome of the \<open>epoll_ctl\<close> that follows), a round of the loop that takes the expired timers
  and hands their callbacks to the scheduler, the run of a timer callback of this call that was handed
  over, and a \<open>cancelEvent\<close> of the same event by anybody else.\<close>

datatype wait_step = Report u32 bool | Expire u64 nat | Run_timer bool | Interrupt bool

text \<open>One wait: clock and address of its timer, the steps between arming the timer and \<open>addEvent\<close>, the
  outcome of \<open>epoll_ctl\<close> with its \<open>errno\<close>, and the steps up to the moment the fiber runs again.\<close>

record wait =
  w_now :: u64
  w_addr :: nat
  w_before :: "wait_step list"
  w_ctl :: bool
  w_errno :: int
  w_steps :: "wait_step list"

text \<open>\<open>Waiting\<close>: the steps are over and nothing has handed the fiber to its scheduler; the call has not
  returned.\<close>

datatype wait_result = Add_failed | Woken | Timed_out | Waiting

text \<open>The third component counts the timer callbacks of this call that were handed to the scheduler and
  have not run: a retry shares its \<open>timer_info\<close> with the waits before it.\<close>

type_synonym io_world = "IOManager \<times> TimerManager \<times> nat"

record wait_state =
  v_io :: IOManager
  v_tm :: TimerManager
  v_queued :: nat
  v_cancelled :: bool
  v_woken :: bool

definition cancel_opt :: "nat option \<Rightarrow> TimerManager \<Rightarrow> TimerManager result" where
  "cancel_opt timer tm =
     (case timer of None \<Rightarrow> Inr tm | Some a \<Rightarrow> bindR (cancel a tm) (\<lambda>(b, tm). Inr tm))"

text \<open>The callback of the timer, when the \<open>timer_info\<close> is alive and not yet cancelled.\<close>

definition timeout_callback :: "io_call \<Rightarrow> bool \<Rightarrow> IOManager \<Rightarrow> (bool \<times> IOManager) result" where
  "timeout_callback c ctl_ok io = cancelEvent (ic_fd c) (ic_event c) ctl_ok io"

definition still_registered :: "io_call \<Rightarrow> IOManager \<Rightarrow> bool" where
  "still_registered c io \<longleftrightarrow>
     nat (ic_fd c) < length (io_fdContexts io) \<and> fc_events (io_fdContexts io ! nat (ic_fd c)) AND ic_event c \<noteq> 0"

text \<open>Whoever takes the event off the context hands the fiber to its scheduler.\<close>

definition see :: "io_call \<Rightarrow> IOManager \<Rightarrow> wait_state \<Rightarrow> wait_state" where
  "see c io v =
     v\<lparr>v_io := io, v_woken := v_woken v \<or> still_registered c (v_io v) \<and> \<not> still_registered c io\<rparr>"

definition run_step :: "io_call \<Rightarrow> wait_step \<Rightarrow> wait_state \<Rightarrow> wait_state result" where
  "run_step c st v =
     (case st of
        Report msk ok \<Rightarrow>
          if nat (ic_fd c) < length (io_fdContexts (v_io v))
          then bindR (process_event (nat (ic_fd c)) msk ok (v_io v)) (\<lambda>io. Inr (see c io v))
          else Inr v
      | Expire now now_addr \<Rightarrow>
          bindR (listExpiredCb now now_addr (v_tm v)) (\<lambda>(cbs, tm).
            Inr (v\<lparr>v_tm := tm,
              v_queued := v_queued v
                + length (filter (\<lambda>cb. cb = Some (OnTimer_bound (ic_info c) (ic_info c))) cbs)\<rparr>))
      | Run_timer ok \<Rightarrow>
          if v_queued v = 0 then Inr v
          else if v_cancelled v then Inr (v\<lparr>v_queued := v_queued v - 1\<rparr>)
          else bindR (timeout_callback c ok (v_io v)) (\<lambda>(b, io).
            Inr (see c io (v\<lparr>v_queued := v_queued v - 1, v_cancelled := True\<rparr>)))
      | Interrupt ok \<Rightarrow>
          bindR (cancelEvent (ic_fd c) (ic_event c) ok (v_io v)) (\<lambda>(b, io). Inr (see c io v)))"

primrec run_steps :: "io_call \<Rightarrow> wait_step list \<Rightarrow> wait_state \<Rightarrow> wait_state result" where
  "run_steps c [] v = Inr v"
| "run_steps c (st # sts) v = bindR (run_step c st v) (run_steps c sts)"

text \<open>The size that \<open>addEvent\<close> sees of the table is the size it finds: no other thread resizes the table
  between its two critical sections here.\<close>

definition wait_event :: "io_call \<Rightarrow> wait \<Rightarrow> io_world \<Rightarrow> (wait_result \<times> io_world) result" where
  "wait_event c x = (\<lambda>(io, tm, q).
     let armed = ic_timeout c \<noteq> - 1;
         timer = (if armed then Some (w_addr x) else None);
         tm = (if armed
               then snd (addConditiaonTimer (ic_timeout c) (ic_info c) (ic_info c) False (w_now x) (w_addr x) tm)
               else tm)
     in bindR (run_steps c (w_before x) \<lparr>v_io = io, v_tm = tm, v_queued = q, v_cancelled = False, v_woken = False\<rparr>) (\<lambda>v.
        bindR (addEvent (length (io_fdContexts (v_io v))) (ic_fd c) (ic_event c) None (Some (ic_sched c))
                 (ic_fiber c) ST_EXEC (w_ctl x) (v_io v)) (\<lambda>(rt, io).
          if rt \<noteq> 0 then bindR (cancel_opt timer (v_tm v)) (\<lambda>tm. Inr (Add_failed, io, tm, v_queued v))
          else bindR (run_steps c (w_steps x) (v\<lparr>v_io := io, v_woken := False\<rparr>)) (\<lambda>v.
            if \<not> v_woken v then Inr (Waiting, v_io v, v_tm v, v_queued v)
            else bindR (cancel_opt timer (v_tm v)) (\<lambda>tm.
              Inr (if v_cancelled v then Timed_out else Woken, v_io v, tm, v_queued v))))))"

section \<open>do_io\<close>

text \<open>Attempts are pairs of return value and \<open>errno\<close>; interrupted ones are repeated at once.\<close>

fun eintr_loop :: "(int \<times> int) list \<Rightarrow> ((int \<times> int) \<times> (int \<times> int) list) option" where
  "eintr_loop [] = None"
| "eintr_loop ((n, errno) # rest) =
     (if n = - 1 \<and> errno = EINTR then eintr_loop rest else Some ((n, errno), rest))"

fun do_io_retry ::
  "io_call \<Rightarrow> (int \<times> int) list \<Rightarrow> wait list \<Rightarrow> io_world \<Rightarrow> ((int \<times> int) \<times> io_world) result option" where
  "do_io_retry c attempts [] w =
     (case eintr_loop attempts of
        None \<Rightarrow> None
      | Some ((n, errno), rest) \<Rightarrow> if n = - 1 \<and> errno = EAGAIN then None else Some (Inr ((n, errno), w)))"
| "do_io_retry c attempts (x # xs) w =
     (case eintr_loop attempts of
        None \<Rightarrow> None
      | Some ((n, errno), rest) \<Rightarrow>
          if n = - 1 \<and> errno = EAGAIN
          then (case wait_event c x w of
                  Inl e \<Rightarrow> Some (Inl e)
                | Inr (r, w) \<Rightarrow>
                    (case r of
                       Add_failed \<Rightarrow> Some (Inr ((- 1, w_errno x), w))
                     | Timed_out \<Rightarrow> Some (Inr ((- 1, ETIMEDOUT), w))
                     | Waiting \<Rightarrow> None
                     | Woken \<Rightarrow> do_io_retry c rest xs w))
          else Some (Inr ((n, errno), w)))"

definition do_io ::
  "int \<Rightarrow> io_call \<Rightarrow> (int \<times> int) list \<Rightarrow> wait list \<Rightarrow> hook_world \<Rightarrow> io_world \<Rightarrow> ((int \<times> int) \<times> io_world) result option" where
  "do_io timeout_so c attempts ws hw w =
     (let direct = (case attempts of [] \<Rightarrow> None | r # _ \<Rightarrow> Some (Inr (r, w)))
      in if \<not> t_hook_enable hw then direct
         else case find_ctx (ic_fd c) hw of
           Inl e \<Rightarrow> Some (Inl e)
         | Inr None \<Rightarrow> direct
         | Inr (Some ctx) \<Rightarrow>
             if m_isClosed ctx then Some (Inr ((- 1, EBADF), w))
             else if \<not> m_isSocket ctx \<or> m_userNonblock ctx then direct
             else do_io_retry (c\<lparr>ic_timeout := getTimeout timeout_so ctx\<rparr>) attempts ws w)"

text \<open>\<open>first\<close> is the result of \<open>connect_f\<close>, \<open>so_error\<close> what \<open>getsockopt\<close> reports (\<open>None\<close>: it fails with the
  given \<open>errno\<close>).\<close>

definition connect_with_timeout ::
  "io_call \<Rightarrow> u64 \<Rightarrow> int \<times> int \<Rightarrow> wait \<Rightarrow> int option \<times> int \<Rightarrow> hook_world \<Rightarrow> io_world \<Rightarrow> ((int \<times> int) \<times> io_world) result option" where
  "connect_with_timeout c timeout_ms first x so_error hw w =
     (if \<not> t_hook_enable hw then Some (Inr (first, w))
      else case find_ctx (ic_fd c) hw of
        Inl e \<Rightarrow> Some (Inl e)
      | Inr None \<Rightarrow> Some (Inr ((- 1, EBADF), w))
      | Inr (Some ctx) \<Rightarrow>
          if m_isClosed ctx then Some (Inr ((- 1, EBADF), w))
          else if \<not> m_isSocket ctx \<or> m_userNonblock ctx then Some (Inr (first, w))
          else if fst first = 0 then Some (Inr ((0, snd first), w))
          else if fst first \<noteq> - 1 \<or> snd first \<noteq> EINPROGRESS then Some (Inr (first, w))
          else case wait_event (c\<lparr>ic_event := EV_WRITE, ic_timeout := timeout_ms\<rparr>) x w of
            Inl e \<Rightarrow> Some (Inl e)
          | Inr (Waiting, w) \<Rightarrow> None
          | Inr (Timed_out, w) \<Rightarrow> Some (Inr ((- 1, ETIMEDOUT), w))
          | Inr (_, w) \<Rightarrow>
              (case fst so_error of
                 None \<Rightarrow> Some (Inr ((- 1, snd so_error), w))
               | Some error \<Rightarrow> Some (Inr (if error = 0 then (0, snd so_error) else (- 1, error), w))))"

section \<open>Sleeping\<close>

definition sleep_ms :: "u32 \<Rightarrow> u64" where
  "sleep_ms seconds = ucast (seconds * 1000)"

definition usleep_ms :: "u32 \<Rightarrow> u64" where
  "usleep_ms usec = ucast (usec div 1000)"

definition nanosleep_ms :: "int \<Rightarrow> int \<Rightarrow> u64 result" where
  "nanosleep_ms tv_sec tv_nsec =
     (let ms = tv_sec * 1000 + tv_nsec sdiv 1000 sdiv 1000
      in if ms < - (2 ^ 63) \<or> 2 ^ 63 \<le> ms then Inl SignedOverflow
         else Inr (scast (word_of_int ms :: u32)))"

text \<open>The common tail: arm a timer that schedules the fiber, then yield.\<close>

definition sleep_fiber :: "u64 \<Rightarrow> nat \<Rightarrow> u64 \<Rightarrow> nat \<Rightarrow> nat \<Rightarrow> TimerManager \<Rightarrow> fiber_world \<Rightarrow> (TimerManager \<times> fiber_world) result"
where
  "sleep_fiber ms task now addr fresh tm fw =
     (let tm = snd (addTimer ms (Some (Fn task)) False now addr tm)
      in bindR (YieldToHold fresh fw) (\<lambda>fw. Inr (tm, fw)))"

definition hook_sleep ::
  "bool \<Rightarrow> u32 \<Rightarrow> nat \<Rightarrow> u64 \<Rightarrow> nat \<Rightarrow> nat \<Rightarrow> TimerManager \<Rightarrow> fiber_world \<Rightarrow> (TimerManager \<times> fiber_world) result" where
  "hook_sleep enable seconds task now addr fresh tm fw =
     (if \<not> enable then Inr (tm, fw) else sleep_fiber (sleep_ms seconds) task now addr fresh tm fw)"

definition hook_usleep ::
  "bool \<Rightarrow> u32 \<Rightarrow> nat \<Rightarrow> u64 \<Rightarrow> nat \<Rightarrow> nat \<Rightarrow> TimerManager \<Rightarrow> fiber_world \<Rightarrow> (TimerManager \<times> fiber_world) result" where
  "hook_usleep enable usec task now addr fresh tm fw =
     (if \<not> enable then Inr (tm, fw) else sleep_fiber (usleep_ms usec) task now addr fresh tm fw)"

definition hook_nanosleep ::
  "bool \<Rightarrow> int \<Rightarrow> int \<Rightarrow> nat \<Rightarrow> u64 \<Rightarrow> nat \<Rightarrow> nat \<Rightarrow> TimerManager \<Rightarrow> fiber_world \<Rightarrow> (TimerManager \<times> fiber_world) result" where
  "hook_nanosleep enable tv_sec tv_nsec task now addr fresh tm fw =
     (if \<not> enable then Inr (tm, fw)
      else bindR (nanosleep_ms tv_sec tv_nsec) (\<lambda>ms. sleep_fiber ms task now addr fresh tm fw))"

end
