(* ===== verification/Hook_Lemmas.thy ===== *)
theory Hook_Lemmas
  imports Hook
begin

text \<open>
  Facts about the hooks: the view of \<open>O_NONBLOCK\<close> a program gets, timeouts, and the retry loop of
  \<open>do_io\<close>, which neither leaks a registration nor shows \<open>EINTR\<close> or \<open>EAGAIN\<close> to its caller.
\<close>

section \<open>Status flags\<close>

text \<open>A managed socket: below the table size, with a context that says socket, known to the kernel.\<close>

definition hooked_socket :: "hook_world \<Rightarrow> int \<Rightarrow> FdCtx \<Rightarrow> descriptor \<Rightarrow> bool" where
  "hooked_socket w fd ctx d \<longleftrightarrow>
     fdm_inv (hw_fds w) \<and> 0 \<le> fd \<and> fd < 64 \<and> hw_fds w ! nat fd = Some ctx \<and> m_isSocket ctx
     \<and> hw_kernel w fd = Some d"

lemma find_ctx_eq:
  assumes "fdm_inv (hw_fds w)" "0 \<le> fd" "fd < 64"
  shows "find_ctx fd w = Inr (hw_fds w ! nat fd)"
  using assms by (simp add: find_ctx_def fd_get_cases)

lemma fd_update_nth:
  assumes "fdm_inv m" "0 \<le> fd" "fd < 64"
  shows "fd_update m fd f ! nat fd = map_option f (m ! nat fd)"
  using assms by (simp add: fd_update_def fdm_inv_def)

lemma hooked_socketD:
  assumes "hooked_socket w fd ctx d"
  shows "find_ctx fd w = Inr (Some ctx)" "managed_socket (Some ctx)" "m_sysNonblock ctx" "fd_entry_ok fd ctx"
proof -
  show e: "fd_entry_ok fd ctx" using assms fdm_invD [of "hw_fds w" fd ctx] by (auto simp: hooked_socket_def)
  show "find_ctx fd w = Inr (Some ctx)" using assms find_ctx_eq by (simp add: hooked_socket_def)
  show "managed_socket (Some ctx)" "m_sysNonblock ctx"
    using assms e by (auto simp: hooked_socket_def managed_socket_def fd_entry_ok_def)
qed

lemma entry_setUserNonblock: "fd_entry_ok fd ctx \<Longrightarrow> fd_entry_ok fd (setUserNonblock v ctx)"
  by (simp add: fd_entry_ok_def setUserNonblock_def)

lemma entry_setTimeout: "fd_entry_ok fd ctx \<Longrightarrow> fd_entry_ok fd (setTimeout ty v ctx)"
  by (simp add: fd_entry_ok_def setTimeout_def)

lemma bit_setfl:
  "bit ((old AND NOT SETFL_MASK) OR (arg AND SETFL_MASK)) n \<longleftrightarrow> (if bit SETFL_MASK n then bit arg n else bit old n)"
  for old arg :: u32
  by (auto simp: bit_simps dest: bit_imp_le_length)

lemma setfl_step:
  fixes arg :: u32
  assumes "hooked_socket w fd ctx d"
  defines "d' \<equiv> d\<lparr>d_flags := (d_flags d AND NOT SETFL_MASK) OR ((arg OR O_NONBLOCK) AND SETFL_MASK)\<rparr>"
    and "ctx' \<equiv> setUserNonblock (nonblocking arg) ctx"
  shows "\<exists>w'. hook_fcntl fcntl_f fd (F_SETFL arg) w = Inr (0, w') \<and> hooked_socket w' fd ctx' d'
    \<and> t_hook_enable w' = t_hook_enable w"
proof -
  note D = hooked_socketD [OF assms(1)]
  let ?w' = "w\<lparr>hw_fds := fd_update (hw_fds w) fd (setUserNonblock (nonblocking arg)), hw_kernel := (hw_kernel w)(fd \<mapsto> d')\<rparr>"
  have h: "fdm_inv (hw_fds w)" "0 \<le> fd" "fd < 64" "hw_fds w ! nat fd = Some ctx" "hw_kernel w fd = Some d" "m_isSocket ctx"
    using assms(1) by (auto simp: hooked_socket_def)
  have "hook_fcntl fcntl_f fd (F_SETFL arg) w = Inr (0, ?w')"
    using D h(5) by (simp add: hook_fcntl_def fcntl_setfl_def nonblocking_def d'_def)
  moreover have "hooked_socket ?w' fd ctx' d'"
    using h fd_update_nth [OF h(1-3)] fd_update_inv [OF h(1-3) entry_setUserNonblock]
    by (simp add: hooked_socket_def ctx'_def) (simp add: setUserNonblock_def)
  ultimately show ?thesis by auto
qed

lemma getfl_value:
  assumes "hooked_socket w fd ctx d"
  shows "hook_fcntl fcntl_f fd F_GETFL w =
    Inr (if m_userNonblock ctx then d_flags d OR O_NONBLOCK else d_flags d AND NOT O_NONBLOCK, w)"
  using hooked_socketD [OF assms] assms by (simp add: hook_fcntl_def hooked_socket_def fcntl_getfl_def)

lemma flags_seen:
  fixes old arg :: u32
  defines "new \<equiv> (old AND NOT SETFL_MASK) OR ((arg OR O_NONBLOCK) AND SETFL_MASK)"
  shows "nonblocking new"
    "(if nonblocking arg then new OR O_NONBLOCK else new AND NOT O_NONBLOCK) AND SETFL_MASK = arg AND SETFL_MASK"
proof -
  show "nonblocking new" by (simp add: nonblocking_bit new_def bit_setfl bit_SETFL_MASK bit_simps)
  show "(if nonblocking arg then new OR O_NONBLOCK else new AND NOT O_NONBLOCK) AND SETFL_MASK = arg AND SETFL_MASK"
    by (rule bit_word_eqI) (auto simp: nonblocking_bit new_def bit_setfl bit_or_iff bit_and_iff bit_not_iff)
qed

lemma ioctl_step:
  assumes "hooked_socket w fd ctx d"
  shows "\<exists>w'. hook_ioctl_fionbio fd 0 w = Inr (0, w')
    \<and> hooked_socket w' fd (setUserNonblock False ctx) (d\<lparr>d_flags := d_flags d AND NOT O_NONBLOCK\<rparr>)"
proof -
  note D = hooked_socketD [OF assms]
  have h: "fdm_inv (hw_fds w)" "0 \<le> fd" "fd < 64" "hw_fds w ! nat fd = Some ctx" "hw_kernel w fd = Some d" "m_isSocket ctx"
    using assms by (auto simp: hooked_socket_def)
  show ?thesis
    using D h fd_update_nth [OF h(1-3)] fd_update_inv [OF h(1-3) entry_setUserNonblock]
    by (simp add: hook_ioctl_fionbio_def ioctl_fionbio_def hooked_socket_def) (simp add: setUserNonblock_def)
qed

lemma not_nonblocking_cleared: "\<not> nonblocking (v AND NOT O_NONBLOCK)"
  by (simp add: nonblocking_bit bit_simps)

section \<open>Timeouts\<close>

lemma setsockopt_step:
  assumes "fdm_inv (hw_fds w)" "0 \<le> fd" "fd < 64" "hw_fds w ! nat fd = Some ctx" "t_hook_enable w"
    and "ty = SO_RCVTIMEO \<or> ty = SO_SNDTIMEO" "0 \<le> sec" "sec < 2 ^ 31" "0 \<le> usec" "usec < 2 ^ 31"
  shows "\<exists>w'. hook_setsockopt fd SOL_SOCKET ty (sec, usec) rt w = Inr (rt, w') \<and> fdm_inv (hw_fds w')
    \<and> hw_fds w' ! nat fd = Some (setTimeout ty (word_of_int (sec * 1000 + usec div 1000)) ctx)"
proof -
  have "usec sdiv 1000 = usec div 1000" using assms(9) by (cases "usec = 0") (auto simp: signed_divide_int_def sgn_if)
  moreover have "\<not> sec * 1000 + usec div 1000 < - (2 ^ 63)" "\<not> 2 ^ 63 \<le> sec * 1000 + usec div 1000"
    using assms by simp_all
  ultimately show ?thesis
    using assms find_ctx_eq [OF assms(1-3)] fd_update_nth [OF assms(1-3)] fd_update_inv [OF assms(1-3) entry_setTimeout]
    by (simp add: hook_setsockopt_def Let_def)
qed

lemma getTimeout_set:
  assumes "ty = SO_RCVTIMEO \<or> ty = SO_SNDTIMEO" "ty' = SO_RCVTIMEO \<or> ty' = SO_SNDTIMEO"
  shows "getTimeout ty' (setTimeout ty v ctx) = (if ty' = ty then v else getTimeout ty' ctx)"
  using assms by (auto simp: getTimeout_def setTimeout_def SO_RCVTIMEO_def SO_SNDTIMEO_def)

section \<open>Sleeping\<close>

lemma sleep_ms_value: "unat (sleep_ms s) = (unat s * 1000) mod 2 ^ 32"
  by (simp add: sleep_ms_def unsigned_ucast_eq unat_word_ariths take_bit_nat_eq_self)

lemma usleep_ms_value: "unat (usleep_ms s) = unat s div 1000"
proof -
  have "unat s < 2 ^ LENGTH(32)" by (rule unsigned_less)
  then have "unat s div 1000 < 2 ^ 64" by simp
  then show ?thesis by (simp add: usleep_ms_def unsigned_ucast_eq unat_div take_bit_nat_eq_self)
qed

section \<open>The retry loop\<close>

lemma eintr_loop_result: "eintr_loop as = Some ((n, e), rest) \<Longrightarrow> \<not> (n = - 1 \<and> e = EINTR)"
  by (induction as rule: eintr_loop.induct) (auto split: if_splits)

text \<open>The event of the call is free: nobody waits for it on this descriptor.\<close>

definition event_free :: "io_call \<Rightarrow> IOManager \<Rightarrow> bool" where
  "event_free c io \<longleftrightarrow> \<not> still_registered c io"

lemma trigger_at_frame:
  assumes "trigger_at ev i io = Inr io'"
  shows "length (io_fdContexts io') = length (io_fdContexts io) \<and> io_tickleFd io' = io_tickleFd io"
proof -
  obtain t c where "triggerEvent ev (io_fdContexts io ! i) = Inr (t, c)"
    using assms by (cases "triggerEvent ev (io_fdContexts io ! i)") (auto simp: trigger_at_def)
  then show ?thesis using assms by (auto simp: trigger_at_def emit_def put_ctx_def)
qed

lemma trigger_if_frame:
  assumes "trigger_if msk ev i io = Inr io'"
  shows "length (io_fdContexts io') = length (io_fdContexts io) \<and> io_tickleFd io' = io_tickleFd io"
  using assms trigger_at_frame [of ev i io io'] by (cases "msk AND ev = 0") (simp_all add: trigger_if_def)

lemma process_event_frame:
  assumes "process_event i msk ok io = Inr io'"
  shows "length (io_fdContexts io') = length (io_fdContexts io) \<and> io_tickleFd io' = io_tickleFd io"
proof (cases "fc_events (io_fdContexts io ! i) AND real_events msk = 0 \<or> \<not> ok")
  case True
  then have "io' = io" using assms by (simp add: process_event_def Let_def split: if_splits)
  then show ?thesis by simp
next
  case False
  then obtain io1 where "trigger_if (real_events msk) EV_READ i
      (deregister (fc_fd (io_fdContexts io ! i)) (fc_events (io_fdContexts io ! i) AND NOT (real_events msk))
        (EPOLLET OR fc_events (io_fdContexts io ! i) AND NOT (real_events msk)) io) = Inr io1"
      "trigger_if (real_events msk) EV_WRITE i io1 = Inr io'"
    using assms by (auto simp: process_event_def Let_def result_iff)
  from trigger_if_frame [OF this(1)] trigger_if_frame [OF this(2)] show ?thesis by simp
qed

lemma cancelEvent_frame:
  assumes "cancelEvent fd ev ok io = Inr (b, io')"
  shows "length (io_fdContexts io') = length (io_fdContexts io) \<and> io_tickleFd io' = io_tickleFd io"
proof (cases "fd \<ge> int (length (io_fdContexts io)) \<or> fc_events (io_fdContexts io ! nat fd) AND ev = 0 \<or> \<not> ok")
  case True
  then have "io' = io" using assms by (simp add: cancelEvent_def Let_def split: if_splits)
  then show ?thesis by simp
next
  case False
  let ?l = "fc_events (io_fdContexts io ! nat fd) AND NOT ev"
  have "trigger_at ev (nat fd) (deregister fd ?l (EPOLLET OR ?l) io) = Inr io'"
    using assms False
    by (cases "trigger_at ev (nat fd) (deregister fd ?l (EPOLLET OR ?l) io)")
       (simp_all add: cancelEvent_def Let_def split: if_splits)
  from trigger_at_frame [OF this] show ?thesis by simp
qed

lemma process_event_step:
  assumes "io_inv io" "i < length (io_fdContexts io)" "process_event i msk ok io = Inr io'"
  shows "io_inv io'" "io_tickleFd io' = io_tickleFd io"
    "fc_events (io_fdContexts io' ! i) AND e \<noteq> 0 \<longrightarrow> fc_events (io_fdContexts io ! i) AND e \<noteq> 0"
    "length (io_fdContexts io') = length (io_fdContexts io)"
proof -
  show "io_inv io'" by (rule process_event_inv [OF assms])
  show "io_tickleFd io' = io_tickleFd io" "length (io_fdContexts io') = length (io_fdContexts io)"
    using process_event_frame [OF assms(3)] by simp_all
  show "fc_events (io_fdContexts io' ! i) AND e \<noteq> 0 \<longrightarrow> fc_events (io_fdContexts io ! i) AND e \<noteq> 0"
  proof (cases "ok \<and> fc_events (io_fdContexts io ! i) AND real_events msk \<noteq> 0")
    case True
    then have "subsumed (real_events msk) (io_fdContexts io ! i)"
      using process_event_assert [OF assms(1,2), of msk] assms(3) by auto
    then have "fc_events (io_fdContexts io' ! i) = fc_events (io_fdContexts io ! i) AND NOT (real_events msk)"
      using process_event_ok [OF assms(1,2), of msk] assms(3) True by auto
    then have "fc_events (io_fdContexts io' ! i) AND e = (fc_events (io_fdContexts io ! i) AND e) AND NOT (real_events msk)"
      by (simp add: and.assoc and.commute and.left_commute)
    then show ?thesis by auto
  next
    case False
    then have "io' = io" using assms(3) by (simp add: process_event_def Let_def split: if_splits)
    then show ?thesis by simp
  qed
qed

lemma cancelEvent_step:
  assumes "io_inv io" "is_event ev" "cancelEvent fd ev ok io = Inr (b, io')"
  shows "io_inv io'" "io_tickleFd io' = io_tickleFd io" "length (io_fdContexts io') = length (io_fdContexts io)"
    "fc_events (io_fdContexts io' ! nat fd) AND ev \<noteq> 0 \<longrightarrow> fc_events (io_fdContexts io ! nat fd) AND ev \<noteq> 0"
proof -
  show "io_inv io'" by (rule cancelEvent_inv [OF assms])
  show "io_tickleFd io' = io_tickleFd io" "length (io_fdContexts io') = length (io_fdContexts io)"
    using cancelEvent_frame [OF assms(3)] by simp_all
  show "fc_events (io_fdContexts io' ! nat fd) AND ev \<noteq> 0 \<longrightarrow> fc_events (io_fdContexts io ! nat fd) AND ev \<noteq> 0"
  proof (cases "fc_events (io_fdContexts io ! nat fd) AND ev = 0")
    case True
    then have "io' = io" using assms(3) by (simp add: cancelEvent_def Let_def split: if_splits)
    then show ?thesis by simp
  qed simp
qed

lemma see_ok:
  assumes "io_tickleFd io = io_tickleFd (v_io v)" "still_registered c io \<longrightarrow> still_registered c (v_io v)" "io_inv io"
  shows "io_inv (v_io (see c io v)) \<and> io_tickleFd (v_io (see c io v)) = io_tickleFd (v_io v)
    \<and> (still_registered c (v_io (see c io v)) \<longrightarrow> still_registered c (v_io v))
    \<and> (v_woken (see c io v) \<longleftrightarrow> v_woken v \<or> still_registered c (v_io v) \<and> \<not> still_registered c (v_io (see c io v)))"
  using assms by (simp add: see_def)

lemma cancel_see_ok:
  assumes "io_inv (v_io v)" "is_event (ic_event c)" "cancelEvent (ic_fd c) (ic_event c) ok (v_io v) = Inr (b, io)"
  shows "io_inv (v_io (see c io v)) \<and> io_tickleFd (v_io (see c io v)) = io_tickleFd (v_io v)
    \<and> (still_registered c (v_io (see c io v)) \<longrightarrow> still_registered c (v_io v))
    \<and> (v_woken (see c io v) \<longleftrightarrow> v_woken v \<or> still_registered c (v_io v) \<and> \<not> still_registered c (v_io (see c io v)))"
proof (rule see_ok)
  note st = cancelEvent_step [OF assms]
  show "io_tickleFd io = io_tickleFd (v_io v)" "io_inv io" by (fact st(2), fact st(1))
  show "still_registered c io \<longrightarrow> still_registered c (v_io v)" using st(3,4) by (simp add: still_registered_def)
qed

lemma run_step_ok:
  assumes "io_inv (v_io v)" "is_event (ic_event c)" "run_step c st v = Inr v'"
  shows "io_inv (v_io v') \<and> io_tickleFd (v_io v') = io_tickleFd (v_io v)
    \<and> (still_registered c (v_io v') \<longrightarrow> still_registered c (v_io v))
    \<and> (v_woken v' \<longleftrightarrow> v_woken v \<or> still_registered c (v_io v) \<and> \<not> still_registered c (v_io v'))"
proof (cases st)
  case (Report msk ok)
  show ?thesis
  proof (cases "nat (ic_fd c) < length (io_fdContexts (v_io v))")
    case True
    then obtain io where io: "process_event (nat (ic_fd c)) msk ok (v_io v) = Inr io" "v' = see c io v"
      using assms(3) Report
      by (cases "process_event (nat (ic_fd c)) msk ok (v_io v)") (simp_all add: run_step_def)
    note st = process_event_step [OF assms(1) True io(1)]
    show ?thesis unfolding io(2)
      by (rule see_ok [OF st(2) _ st(1)]) (use st(3) [of "ic_event c"] st(4) in \<open>simp add: still_registered_def\<close>)
  next
    case False
    then show ?thesis using assms(1,3) Report by (simp add: run_step_def)
  qed
next
  case (Expire now a)
  then show ?thesis using assms(1,3)
    by (cases "listExpiredCb now a (v_tm v)") (auto simp: run_step_def)
next
  case (Run_timer ok)
  show ?thesis
  proof (cases "v_queued v = 0 \<or> v_cancelled v")
    case True
    then show ?thesis using assms(1,3) Run_timer by (auto simp: run_step_def split: if_splits)
  next
    case False
    let ?v = "v\<lparr>v_queued := v_queued v - 1, v_cancelled := True\<rparr>"
    obtain b io where io: "cancelEvent (ic_fd c) (ic_event c) ok (v_io ?v) = Inr (b, io)" "v' = see c io ?v"
      using assms(3) Run_timer False
      by (cases "cancelEvent (ic_fd c) (ic_event c) ok (v_io v)") (auto simp: run_step_def timeout_callback_def)
    show ?thesis using cancel_see_ok [OF _ assms(2) io(1)] assms(1) unfolding io(2) by simp
  qed
next
  case (Interrupt ok)
  then obtain b io where io: "cancelEvent (ic_fd c) (ic_event c) ok (v_io v) = Inr (b, io)" "v' = see c io v"
    using assms(3) by (cases "cancelEvent (ic_fd c) (ic_event c) ok (v_io v)") (auto simp: run_step_def)
  show ?thesis unfolding io(2) by (rule cancel_see_ok [OF assms(1,2) io(1)])
qed

lemma run_steps_ok:
  assumes "io_inv (v_io v)" "is_event (ic_event c)" "run_steps c sts v = Inr v'"
  shows "io_inv (v_io v') \<and> io_tickleFd (v_io v') = io_tickleFd (v_io v)
    \<and> (still_registered c (v_io v') \<longrightarrow> still_registered c (v_io v))
    \<and> (v_woken v' \<longleftrightarrow> v_woken v \<or> still_registered c (v_io v) \<and> \<not> still_registered c (v_io v'))"
  using assms(1,3)
proof (induction sts arbitrary: v)
  case (Cons st sts)
  then obtain v1 where v1: "run_step c st v = Inr v1" "run_steps c sts v1 = Inr v'" by (auto simp: result_iff)
  note ok = run_step_ok [OF Cons.prems(1) assms(2) v1(1)]
  have "io_inv (v_io v1)" using ok by blast
  from Cons.IH [OF this v1(2)] ok show ?case by auto
qed simp

lemma addEvent_outcome:
  assumes "io_inv io" "is_event ev" "0 \<le> fd" "size_seen seen fd io"
    and "addEvent seen fd ev cb (Some s) f st ok io = Inr (rt, io')"
  shows "io_inv io'" "io_tickleFd io' = io_tickleFd io" "nat fd < length (io_fdContexts io')"
    "rt \<noteq> 0 \<Longrightarrow> (\<not> ok \<or> fd = io_tickleFd io) \<and> io' = grow_for seen fd io"
    "rt = 0 \<Longrightarrow> ok"
proof -
  note grow = grow_for_inv [OF assms(1,3,4)]
  show "io_inv io'" by (rule addEvent_inv [OF assms(1,2,4,5)])
  show "io_tickleFd io' = io_tickleFd io"
    using assms(5) grow(6)
    by (auto simp: addEvent_def Let_def result_iff put_ctx_def epoll_apply_def split: if_splits)
  show "nat fd < length (io_fdContexts io')"
    using assms(5) by (auto simp: addEvent_def Let_def result_iff put_ctx_def epoll_apply_def split: if_splits)
  have "fd = io_tickleFd io \<or> fc_events (io_fdContexts (grow_for seen fd io) ! nat fd) \<noteq> 0
      \<or> io_kernel (grow_for seen fd io) fd = None"
    using grow(1,2,6) assms(3) by (simp add: io_inv_def kernel_inv_def reg_def)
  then show "rt \<noteq> 0 \<Longrightarrow> (\<not> ok \<or> fd = io_tickleFd io) \<and> io' = grow_for seen fd io"
    using assms(5) by (auto simp: addEvent_def Let_def result_iff split: if_splits)
  show "rt = 0 \<Longrightarrow> ok" using assms(5) by (auto simp: addEvent_def Let_def result_iff split: if_splits)
qed

lemma event_free_grow:
  assumes "io_inv io" "0 \<le> ic_fd c" "size_seen seen (ic_fd c) io" "event_free c io"
  shows "event_free c (grow_for seen (ic_fd c) io)"
  using grow_for_inv [OF assms(1-3)] assms(4)
  by (cases "nat (ic_fd c) < length (io_fdContexts io)") (auto simp: event_free_def still_registered_def new_FdContext_ok)

lemma wait_event_ok:
  assumes "io_inv io" "is_event (ic_event c)" "0 \<le> ic_fd c" "event_free c io"
    and "wait_event c x (io, tm, q) = Inr (r, io', tm', q')" "r \<noteq> Waiting"
  shows "io_inv io' \<and> event_free c io' \<and> io_tickleFd io' = io_tickleFd io
    \<and> (r = Add_failed \<longrightarrow> \<not> w_ctl x \<or> ic_fd c = io_tickleFd io)"
proof -
  define tm1 where "tm1 = (if ic_timeout c \<noteq> - 1
      then snd (addConditiaonTimer (ic_timeout c) (ic_info c) (ic_info c) False (w_now x) (w_addr x) tm) else tm)"
  let ?v0 = "\<lparr>v_io = io, v_tm = tm1, v_queued = q, v_cancelled = False, v_woken = False\<rparr>"
  obtain v where v: "run_steps c (w_before x) ?v0 = Inr v"
    using assms(5) by (auto simp: wait_event_def Let_def result_iff tm1_def)
  have 1: "io_inv (v_io v)" "event_free c (v_io v)" "io_tickleFd (v_io v) = io_tickleFd io"
    using run_steps_ok [OF _ assms(2) v] assms(1,4) by (auto simp: event_free_def)
  let ?seen = "length (io_fdContexts (v_io v))"
  obtain rt io1 where add: "addEvent ?seen (ic_fd c) (ic_event c) None (Some (ic_sched c)) (ic_fiber c) ST_EXEC
      (w_ctl x) (v_io v) = Inr (rt, io1)"
    using assms(5) v by (auto simp: wait_event_def Let_def result_iff tm1_def)
  note out = addEvent_outcome [OF 1(1) assms(2,3) size_seen_same [OF assms(3)] add]
  show ?thesis
  proof (cases "rt = 0")
    case False
    then have "io' = io1" "r = Add_failed"
      using assms(5) v add by (auto simp: wait_event_def Let_def result_iff tm1_def)
    then show ?thesis
      using out(1,2) out(4) [OF False] 1 event_free_grow [OF 1(1) assms(3) size_seen_same [OF assms(3)] 1(2)] by auto
  next
    case True
    then obtain v' where v': "run_steps c (w_steps x) (v\<lparr>v_io := io1, v_woken := False\<rparr>) = Inr v'"
        "v_woken v'" "io' = v_io v'" "r \<noteq> Add_failed"
      using assms(5,6) v add by (auto simp: wait_event_def Let_def result_iff tm1_def split: if_splits)
    then show ?thesis
      using run_steps_ok [OF _ assms(2) v'(1)] out(1,2) 1(3) by (auto simp: event_free_def)
  qed
qed

lemma do_io_retry_ok:
  assumes "io_inv io" "is_event (ic_event c)" "0 \<le> ic_fd c" "event_free c io"
    and "do_io_retry c attempts ws (io, tm, q) = Some (Inr ((n, e), io', tm', q'))"
  shows "io_inv io' \<and> event_free c io' \<and>
    (n = - 1 \<and> (e = EINTR \<or> e = EAGAIN)
       \<longrightarrow> (\<exists>x \<in> set ws. w_errno x = e \<and> (\<not> w_ctl x \<or> ic_fd c = io_tickleFd io)))"
  using assms(1,4,5)
proof (induction ws arbitrary: attempts io tm q)
  case Nil
  then show ?case by (auto split: option.splits if_splits dest: eintr_loop_result)
next
  case (Cons x xs)
  obtain n0 e0 rest where a: "eintr_loop attempts = Some ((n0, e0), rest)"
    using Cons.prems(3) by (auto split: option.splits)
  show ?case
  proof (cases "n0 = - 1 \<and> e0 = EAGAIN")
    case False
    then show ?thesis using a Cons.prems eintr_loop_result [OF a] by auto
  next
    case True
    then obtain r io1 tm1 q1 where w: "wait_event c x (io, tm, q) = Inr (r, io1, tm1, q1)" "r \<noteq> Waiting"
      using a Cons.prems(3) by (auto split: sum.splits wait_result.splits)
    note inv1 = wait_event_ok [OF Cons.prems(1) assms(2,3) Cons.prems(2) w]
    show ?thesis
    proof (cases "r = Woken")
      case True
      then have "do_io_retry c rest xs (io1, tm1, q1) = Some (Inr ((n, e), io', tm', q'))"
        using a w \<open>n0 = - 1 \<and> e0 = EAGAIN\<close> Cons.prems(3) by simp
      from Cons.IH [OF _ _ this] inv1 show ?thesis by auto
    next
      case False
      then show ?thesis using a w \<open>n0 = - 1 \<and> e0 = EAGAIN\<close> Cons.prems(3) inv1
        by (cases r) (auto simp: errno_defs)
    qed
  qed
qed

section \<open>Progress\<close>

text \<open>A wait that ends by a report of exactly the event of the call, before its timer expires.\<close>

definition woken_by_event :: "io_call \<Rightarrow> wait \<Rightarrow> bool" where
  "woken_by_event c x \<longleftrightarrow>
     w_ctl x \<and> w_before x = []
     \<and> (case w_steps x of [Report msk ok] \<Rightarrow> ok \<and> real_events msk = ic_event c | _ \<Rightarrow> False)"

lemma single_report_cases [case_names report other]:
  obtains msk ok where "sts = [Report msk ok]"
  | "(case sts of [Report msk ok] \<Rightarrow> ok \<and> real_events msk = e | _ \<Rightarrow> False) = False"
  by (cases sts; cases "hd sts"; cases "tl sts") auto

lemma and_not_self: "(v AND NOT e) AND e = (0 :: u32)"
  by (simp add: and.assoc)

lemma arm_and_cancel:
  assumes "tm_inv tm" "tm_heap tm a = None"
  shows "\<exists>tm'. cancel a (snd (addConditiaonTimer ms f g False now a tm)) = Inr (True, tm')
    \<and> tm_inv tm' \<and> (\<forall>b. b \<noteq> a \<longrightarrow> tm_heap tm' b = tm_heap tm b)"
proof -
  let ?tm1 = "snd (addConditiaonTimer ms f g False now a tm)"
  have inv: "tm_inv ?tm1" unfolding addConditiaonTimer_def by (rule addTimer_inv [OF assms])
  have heap: "tm_heap ?tm1 = (tm_heap tm)(a \<mapsto> new_Timer ms (Some (OnTimer_bound g f)) False now)"
    by (simp add: addConditiaonTimer_def addTimer_def addTimer_locked_def Let_def)
  then have c: "cancel a ?tm1 = Inr (True, ?tm1\<lparr>tm_heap := (tm_heap ?tm1)(a \<mapsto>
      (new_Timer ms (Some (OnTimer_bound g f)) False now)\<lparr>t_cb := None\<rparr>), tm_timers := remove1 a (tm_timers ?tm1)\<rparr>)"
    using cancel_eq [OF inv, of a] by (simp add: new_Timer_def)
  show ?thesis using c cancel_inv [OF inv c] by (auto simp: heap)
qed

lemma expire_own:
  assumes "tm_inv tm" "tm_heap tm a = None" "now0 + ms < now \<or> now0 + ms = now \<and> a \<le> p"
  shows "\<exists>cbs tm' tm''. listExpiredCb now p (snd (addConditiaonTimer ms f g False now0 a tm)) = Inr (cbs, tm')
    \<and> Some (OnTimer_bound g f) \<in> set cbs \<and> cancel a tm' = Inr (False, tm'') \<and> tm_inv tm''"
proof -
  let ?tm1 = "snd (addConditiaonTimer ms f g False now0 a tm)"
  let ?t = "new_Timer ms (Some (OnTimer_bound g f)) False now0"
  have inv: "tm_inv ?tm1" unfolding addConditiaonTimer_def by (rule addTimer_inv [OF assms(1,2)])
  have heap: "tm_heap ?tm1 = (tm_heap tm)(a \<mapsto> ?t)"
    by (simp add: addConditiaonTimer_def addTimer_def addTimer_locked_def Let_def)
  have a: "a \<in> set (tm_timers ?tm1)" using tm_invD(3) [OF inv] by (simp add: heap new_Timer_def)
  have "due (tm_heap ?tm1) (now, p) a" using due_iff [of "tm_heap ?tm1" a ?t now p] assms(3) by (simp add: heap new_Timer_def)
  then have e: "a \<in> set (expired_now now p ?tm1)" using a by (simp add: expired_now_def)
  obtain tm' where tm': "listExpiredCb now p ?tm1 = Inr (map (\<lambda>b. t_cb (the (tm_heap ?tm1 b))) (expired_now now p ?tm1), tm')"
      "tm_inv tm'" "tm_heap tm' = expire_all now (expired_now now p ?tm1) (tm_heap ?tm1)"
    using listExpiredCb_ok [OF inv, of now p] by blast
  have "t_cb (the (tm_heap ?tm1 a)) = Some (OnTimer_bound g f)" by (simp add: heap new_Timer_def)
  then have "Some (OnTimer_bound g f) \<in> set (map (\<lambda>b. t_cb (the (tm_heap ?tm1 b))) (expired_now now p ?tm1))"
    using image_eqI [of "Some (OnTimer_bound g f)" "\<lambda>b. t_cb (the (tm_heap ?tm1 b))" a, OF _ e] by simp
  moreover have "cancel a tm' = Inr (False, tm')"
    using cancel_eq [OF tm'(2), of a "expire now ?t"] e by (simp add: tm'(3) expire_all_def heap expire_def new_Timer_def)
  ultimately show ?thesis using tm'(1,2) by blast
qed

lemma add_then_event:
  assumes "io_inv io" "is_event (ic_event c)" "0 \<le> ic_fd c" "event_free c io" "ic_fd c \<noteq> io_tickleFd io"
  shows "\<exists>io1. addEvent (length (io_fdContexts io)) (ic_fd c) (ic_event c) None (Some (ic_sched c)) (ic_fiber c)
        ST_EXEC True io = Inr (0, io1)
    \<and> io_inv io1 \<and> io_tickleFd io1 = io_tickleFd io \<and> nat (ic_fd c) < length (io_fdContexts io1) \<and> still_registered c io1
    \<and> (\<forall>msk. real_events msk = ic_event c \<longrightarrow>
         (\<exists>io2. process_event (nat (ic_fd c)) msk True io1 = Inr io2 \<and> io_inv io2 \<and> \<not> still_registered c io2
           \<and> io_tickleFd io2 = io_tickleFd io))
    \<and> (\<exists>io2. cancelEvent (ic_fd c) (ic_event c) True io1 = Inr (True, io2) \<and> io_inv io2 \<and> \<not> still_registered c io2)"
proof -
  let ?i = "nat (ic_fd c)" and ?seen = "length (io_fdContexts io)"
  note seen = size_seen_same [OF assms(3), of io]
  have free: "int (length (io_fdContexts io)) > ic_fd c \<longrightarrow> fc_events (io_fdContexts io ! ?i) AND ic_event c = 0"
    using assms(3,4) by (auto simp: event_free_def still_registered_def nat_less_iff)
  obtain io1 where add: "addEvent ?seen (ic_fd c) (ic_event c) None (Some (ic_sched c)) (ic_fiber c) ST_EXEC True io = Inr (0, io1)"
      "io_inv io1" "registered io1 ?i (ic_event c)"
    using addEvent_ok [OF assms(1,3,2) _ free seen assms(5), of None ST_EXEC] by auto
  have tick: "io_tickleFd io1 = io_tickleFd io" by (rule addEvent_outcome(2) [OF assms(1,2,3) seen add(1)])
  have len: "?i < length (io_fdContexts io1)" and s1: "still_registered c io1"
    using add(3) by (simp_all add: registered_def still_registered_def)
  have "\<exists>io2. process_event ?i msk True io1 = Inr io2 \<and> io_inv io2 \<and> \<not> still_registered c io2
      \<and> io_tickleFd io2 = io_tickleFd io" if m: "real_events msk = ic_event c" for msk
  proof -
    have ev: "fc_events (io_fdContexts io1 ! ?i) AND real_events msk \<noteq> 0" using add(3) m by (auto simp: registered_def)
    have sub: "subsumed (real_events msk) (io_fdContexts io1 ! ?i)"
      using add(2,3) m ctxs_inv_nth [of io1 ?i]
      by (auto simp: subsumed_def registered_def io_inv_def is_event_def elim!: ctx_okE simp: ev_defs)
    obtain io2 where p: "process_event ?i msk True io1 = Inr io2" "io_inv io2"
        "fc_events (io_fdContexts io2 ! ?i) = fc_events (io_fdContexts io1 ! ?i) AND NOT (real_events msk)"
      using process_event_ok [OF add(2) len ev sub] by auto
    then show ?thesis using m tick process_event_step(2) [OF add(2) len p(1)]
      by (auto simp: still_registered_def and_not_self)
  qed
  moreover obtain io2 where "cancelEvent (ic_fd c) (ic_event c) True io1 = Inr (True, io2)" "io_inv io2"
      "io_fdContexts io2 = (io_fdContexts io1)[?i := cleared (ic_event c) (io_fdContexts io1 ! ?i)]"
    using cancelEvent_ok [OF add(2,3)] assms(3) by auto
  moreover from this(3) have "\<not> still_registered c io2" using len by (simp add: still_registered_def and_not_self)
  ultimately show ?thesis using add(1,2) tick len s1 by blast
qed

lemma wait_event_woken:
  assumes "io_inv io" "is_event (ic_event c)" "0 \<le> ic_fd c" "event_free c io" "ic_fd c \<noteq> io_tickleFd io"
    and "tm_inv tm" "tm_heap tm (w_addr x) = None" "woken_by_event c x"
  shows "\<exists>io' tm'. wait_event c x (io, tm, q) = Inr (Woken, io', tm', q) \<and> io_inv io' \<and> event_free c io'
    \<and> io_tickleFd io' = io_tickleFd io \<and> tm_inv tm' \<and> (\<forall>b. b \<noteq> w_addr x \<longrightarrow> tm_heap tm' b = tm_heap tm b)"
proof -
  obtain msk where x: "w_ctl x" "w_before x = []" "w_steps x = [Report msk True]" "real_events msk = ic_event c"
    using assms(8) by (cases "w_steps x" rule: single_report_cases) (auto simp: woken_by_event_def)
  obtain io1 io2 where add: "addEvent (length (io_fdContexts io)) (ic_fd c) (ic_event c) None (Some (ic_sched c)) (ic_fiber c)
        ST_EXEC True io = Inr (0, io1)" "nat (ic_fd c) < length (io_fdContexts io1)" "still_registered c io1"
      and p: "process_event (nat (ic_fd c)) msk True io1 = Inr io2" "io_inv io2" "\<not> still_registered c io2"
        "io_tickleFd io2 = io_tickleFd io"
    using add_then_event [OF assms(1-5)] x(4) by blast
  let ?armed = "ic_timeout c \<noteq> - 1"
  let ?tm1 = "snd (addConditiaonTimer (ic_timeout c) (ic_info c) (ic_info c) False (w_now x) (w_addr x) tm)"
  have "\<exists>tm'. tm_inv tm' \<and> (\<forall>b. b \<noteq> w_addr x \<longrightarrow> tm_heap tm' b = tm_heap tm b)
      \<and> cancel_opt (if ?armed then Some (w_addr x) else None) (if ?armed then ?tm1 else tm) = Inr tm'"
  proof (cases ?armed)
    case True
    then show ?thesis
      using arm_and_cancel [OF assms(6,7), of "ic_timeout c" "ic_info c" "ic_info c" "w_now x"]
      by (auto simp: cancel_opt_def)
  next
    case False
    then show ?thesis using assms(6) by (simp add: cancel_opt_def)
  qed
  then obtain tm' where tm': "tm_inv tm'" "\<forall>b. b \<noteq> w_addr x \<longrightarrow> tm_heap tm' b = tm_heap tm b"
      "cancel_opt (if ?armed then Some (w_addr x) else None) (if ?armed then ?tm1 else tm) = Inr tm'" by blast
  have "wait_event c x (io, tm, q) = Inr (Woken, io2, tm', q)"
    using x add p(1,3) tm'(3) by (simp add: wait_event_def Let_def run_step_def see_def)
  then show ?thesis using p(2-4) tm'(1,2) by (auto simp: event_free_def)
qed

text \<open>A wait whose timer expires and whose callback runs before the fiber does, alone or after the event
  was reported.\<close>

definition timed_out_by :: "io_call \<Rightarrow> wait \<Rightarrow> u64 \<Rightarrow> nat \<Rightarrow> bool" where
  "timed_out_by c x now p \<longleftrightarrow>
     w_ctl x \<and> w_before x = [] \<and> ic_timeout c \<noteq> - 1
     \<and> (w_now x + ic_timeout c < now \<or> w_now x + ic_timeout c = now \<and> w_addr x \<le> p)
     \<and> (w_steps x = [Expire now p, Run_timer True]
        \<or> (\<exists>msk ok. w_steps x = [Report msk True, Expire now p, Run_timer ok] \<and> real_events msk = ic_event c))"

lemma wait_event_timed_out:
  assumes "io_inv io" "is_event (ic_event c)" "0 \<le> ic_fd c" "event_free c io" "ic_fd c \<noteq> io_tickleFd io"
    and "tm_inv tm" "tm_heap tm (w_addr x) = None" "timed_out_by c x now p"
  shows "\<exists>io' tm' q'. wait_event c x (io, tm, q) = Inr (Timed_out, io', tm', q') \<and> io_inv io' \<and> event_free c io'"
proof -
  have x: "w_ctl x" "w_before x = []" "ic_timeout c \<noteq> - 1"
      "w_now x + ic_timeout c < now \<or> w_now x + ic_timeout c = now \<and> w_addr x \<le> p"
    using assms(8) by (simp_all add: timed_out_by_def)
  obtain io1 where add: "addEvent (length (io_fdContexts io)) (ic_fd c) (ic_event c) None (Some (ic_sched c)) (ic_fiber c)
        ST_EXEC True io = Inr (0, io1)" "io_inv io1" "nat (ic_fd c) < length (io_fdContexts io1)" "still_registered c io1"
      and rep: "\<forall>msk. real_events msk = ic_event c \<longrightarrow> (\<exists>io2. process_event (nat (ic_fd c)) msk True io1 = Inr io2
           \<and> io_inv io2 \<and> \<not> still_registered c io2)"
      and can: "\<exists>io2. cancelEvent (ic_fd c) (ic_event c) True io1 = Inr (True, io2) \<and> io_inv io2 \<and> \<not> still_registered c io2"
    using add_then_event [OF assms(1-5)] by blast
  obtain cbs tm1 tm2 where ex: "listExpiredCb now p (snd (addConditiaonTimer (ic_timeout c) (ic_info c) (ic_info c) False
        (w_now x) (w_addr x) tm)) = Inr (cbs, tm1)"
      "Some (OnTimer_bound (ic_info c) (ic_info c)) \<in> set cbs" "cancel (w_addr x) tm1 = Inr (False, tm2)"
    using expire_own [OF assms(6,7) x(4), of "ic_info c" "ic_info c"] by blast
  have n: "filter (\<lambda>cb. cb = Some (OnTimer_bound (ic_info c) (ic_info c))) cbs \<noteq> []"
    using ex(2) by (auto simp: filter_empty_conv)
  show ?thesis
  proof (cases "w_steps x = [Expire now p, Run_timer True]")
    case True
    obtain io2 where "cancelEvent (ic_fd c) (ic_event c) True io1 = Inr (True, io2)" "io_inv io2" "\<not> still_registered c io2"
      using can by blast
    then show ?thesis using x True add(1,4) ex n
      by (simp add: wait_event_def Let_def run_step_def see_def cancel_opt_def timeout_callback_def event_free_def)
  next
    case False
    then obtain msk ok where m: "w_steps x = [Report msk True, Expire now p, Run_timer ok]" "real_events msk = ic_event c"
      using assms(8) by (auto simp: timed_out_by_def)
    obtain io2 where io2: "process_event (nat (ic_fd c)) msk True io1 = Inr io2" "io_inv io2" "\<not> still_registered c io2"
      using rep m(2) by blast
    have "cancelEvent (ic_fd c) (ic_event c) ok io2 = Inr (False, io2)"
      using io2(3) assms(3) by (auto simp: cancelEvent_def still_registered_def Let_def nat_less_iff)
    then show ?thesis using x m(1) add(1,3,4) io2 ex n
      by (simp add: wait_event_def Let_def run_step_def see_def cancel_opt_def timeout_callback_def event_free_def)
  qed
qed

text \<open>The attempts of a call whose waits all end by the event: before each wait any number of
  interrupted attempts and one that would block, in the end an attempt with a result.\<close>

fun blocked_attempts :: "nat list \<Rightarrow> (int \<times> int) list \<Rightarrow> (int \<times> int) list" where
  "blocked_attempts [] final = final"
| "blocked_attempts (k # ks) final = replicate k (- 1, EINTR) @ (- 1, EAGAIN) # blocked_attempts ks final"

lemma eintr_loop_skip: "eintr_loop (replicate k (- 1, EINTR) @ as) = eintr_loop as"
  by (induction k) simp_all

lemma do_io_progress:
  assumes "io_inv io" "is_event (ic_event c)" "0 \<le> ic_fd c" "event_free c io" "ic_fd c \<noteq> io_tickleFd io" "tm_inv tm"
    and "list_all (woken_by_event c) ws" "distinct (map w_addr ws)" "\<forall>x \<in> set ws. tm_heap tm (w_addr x) = None"
    and "length ks = length ws" "\<not> (n = - 1 \<and> (e = EINTR \<or> e = EAGAIN))"
  shows "\<exists>io' tm'. do_io_retry c (blocked_attempts ks (replicate k (- 1, EINTR) @ [(n, e)])) ws (io, tm, q)
       = Some (Inr ((n, e), io', tm', q))
    \<and> io_inv io' \<and> event_free c io' \<and> tm_inv tm'"
  using assms(1,4-10)
proof (induction ws arbitrary: io tm ks)
  case Nil
  have "eintr_loop [(n, e)] = Some ((n, e), [])" using assms(11) by auto
  then show ?case using Nil assms(11) by (auto simp: eintr_loop_skip simp del: eintr_loop.simps)
next
  case (Cons x xs)
  then obtain j js where ks: "ks = j # js" "length js = length xs" by (cases ks) auto
  have x: "woken_by_event c x" "tm_heap tm (w_addr x) = None" using Cons.prems(5,7) by simp_all
  from wait_event_woken [OF Cons.prems(1) assms(2,3) Cons.prems(2,3,4) x(2,1), of q]
  obtain io1 tm1 where io1: "wait_event c x (io, tm, q) = Inr (Woken, io1, tm1, q)" "io_inv io1" "event_free c io1"
      "io_tickleFd io1 = io_tickleFd io" "tm_inv tm1" "\<forall>b. b \<noteq> w_addr x \<longrightarrow> tm_heap tm1 b = tm_heap tm b"
    by blast
  have "\<forall>y \<in> set xs. tm_heap tm1 (w_addr y) = None" using Cons.prems(6,7) io1(6) by (auto simp: image_iff)
  then show ?case
    using Cons.IH [OF io1(2,3) _ io1(5) _ _ _ ks(2)] Cons.prems(3,5,6) io1(1,4) ks(1)
    by (simp add: eintr_loop_skip) (simp add: errno_defs)
qed

lemma do_io_timed_out:
  assumes "io_inv io" "is_event (ic_event c)" "0 \<le> ic_fd c" "event_free c io" "ic_fd c \<noteq> io_tickleFd io"
    and "tm_inv tm" "tm_heap tm (w_addr x) = None" "timed_out_by c x now p"
  shows "\<exists>io' tm' q'. do_io_retry c (replicate k (- 1, EINTR) @ (- 1, EAGAIN) # rest) (x # xs) (io, tm, q)
      = Some (Inr ((- 1, ETIMEDOUT), io', tm', q')) \<and> io_inv io' \<and> event_free c io'"
proof -
  obtain io' tm' q' where w: "wait_event c x (io, tm, q) = Inr (Timed_out, io', tm', q')" "io_inv io'" "event_free c io'"
    using wait_event_timed_out [OF assms] by blast
  have "eintr_loop ((- 1, EAGAIN) # rest) = Some ((- 1, EAGAIN), rest)" by (simp add: errno_defs)
  then show ?thesis using w by (auto simp: eintr_loop_skip simp del: eintr_loop.simps)
qed

end
