(* ===== verification/Socket.thy ===== *)
theory Socket
  imports Hook_Lemmas Address_Lemmas
begin

text \<open>
  \<^verbatim>\<open>src/myhttp/socket.h\<close> and \<^verbatim>\<open>socket.cpp\<close>.  The system calls made by one operation answer as the
  record \<open>sys\<close> says; what the operation asks of the kernel is returned as a list of \<open>sys_call\<close>s in
  order.  The calls of \<open>send\<close> and \<open>recv\<close> (the hooks) are parameters of the operations that make them.
  \<open>getpeername\<close> and \<open>getsockname\<close> fill the address object they are given: a successful call is a
  function on that object with the length it reports.
\<close>

section \<open>Data\<close>

record Socket =
  m_sock :: int
  m_family :: int
  m_type :: int
  m_protocol :: int
  m_isConnected :: bool
  m_localAddress :: "address option"
  m_remoteAddress :: "address option"

definition TCP :: int where "TCP = 1"
definition UDP :: int where "UDP = 2"

type_synonym fill = "((address \<Rightarrow> address) \<times> u32) option"

record sys =
  sys_socket :: int
  sys_bind :: int
  sys_connect :: int
  sys_listen :: int
  sys_accept :: int
  sys_getpeername :: fill
  sys_getsockname :: fill

datatype sys_call =
    C_setsockopt int int int
  | C_bind int
  | C_connect int u64
  | C_listen int int
  | C_close int

definition IPPROTO_TCP :: int where "IPPROTO_TCP = 6"
definition SO_REUSEADDR :: int where "SO_REUSEADDR = 2"
definition TCP_NODELAY :: int where "TCP_NODELAY = 1"

section \<open>Construction\<close>

definition new_Socket :: "int \<Rightarrow> int \<Rightarrow> int \<Rightarrow> Socket" where
  "new_Socket family type protocol =
     \<lparr>m_sock = - 1, m_family = family, m_type = type, m_protocol = protocol, m_isConnected = False,
      m_localAddress = None, m_remoteAddress = None\<rparr>"

definition isValid :: "Socket \<Rightarrow> bool" where
  "isValid s \<longleftrightarrow> m_sock s \<noteq> - 1"

definition initSock :: "Socket \<Rightarrow> sys_call list" where
  "initSock s =
     C_setsockopt (m_sock s) SOL_SOCKET SO_REUSEADDR
     # (if m_type s = TCP then [C_setsockopt (m_sock s) IPPROTO_TCP TCP_NODELAY] else [])"

definition newSock :: "sys \<Rightarrow> Socket \<Rightarrow> Socket \<times> sys_call list" where
  "newSock os s =
     (let s = s\<lparr>m_sock := sys_socket os\<rparr> in (s, if m_sock s \<noteq> - 1 then initSock s else []))"

definition CreateTCP :: "address \<Rightarrow> Socket" where
  "CreateTCP a = new_Socket (getFamily a) TCP 0"

definition CreateUDP :: "sys \<Rightarrow> address \<Rightarrow> Socket \<times> sys_call list" where
  "CreateUDP os a =
     (let (s, cs) = newSock os (new_Socket (getFamily a) UDP 0) in (s\<lparr>m_isConnected := True\<rparr>, cs))"

definition CreateTCPSocket :: Socket where "CreateTCPSocket = new_Socket AF_INET TCP 0"
definition CreateUDPSocket :: Socket where "CreateUDPSocket = new_Socket AF_INET UDP 0"
definition CreateTCPSocket6 :: Socket where "CreateTCPSocket6 = new_Socket AF_INET6 TCP 0"
definition CreateUDPSocket6 :: Socket where "CreateUDPSocket6 = new_Socket AF_INET6 UDP 0"
definition CreateUnixTCPSocket :: Socket where "CreateUnixTCPSocket = new_Socket AF_UNIX TCP 0"
definition CreateUnixUDPSocket :: Socket where "CreateUnixUDPSocket = new_Socket AF_UNIX UDP 0"

section \<open>Addresses\<close>

text \<open>The \<open>switch\<close> over the family; the case \<open>AF_UNIX\<close> falls through to the default.\<close>

definition blank_address :: "int \<Rightarrow> address" where
  "blank_address family =
     (if family = AF_INET then IPv4Address (new_IPv4Address 0 0)
      else if family = AF_INET6 then IPv6Address new_IPv6Address
      else new_UnknownAddress family)"

definition ask_address :: "int \<Rightarrow> fill \<Rightarrow> (address \<times> bool) result" where
  "ask_address family fill =
     (case fill of
        None \<Rightarrow> Inr (new_UnknownAddress family, False)
      | Some (f, addrlen) \<Rightarrow>
          let a = f (blank_address family)
          in if family = AF_UNIX
             then (case a of UnixAddress un n \<Rightarrow> Inr (setAddrLen a addrlen, True) | _ \<Rightarrow> Inl NullDeref)
             else Inr (a, True))"

definition getRemoteAddress :: "sys \<Rightarrow> Socket \<Rightarrow> (address \<times> Socket) result" where
  "getRemoteAddress os s =
     (case m_remoteAddress s of
        Some a \<Rightarrow> Inr (a, s)
      | None \<Rightarrow>
          bindR (ask_address (m_family s) (sys_getpeername os)) (\<lambda>(a, keep).
            Inr (a, if keep then s\<lparr>m_remoteAddress := Some a\<rparr> else s)))"

definition getLocalAddress :: "sys \<Rightarrow> Socket \<Rightarrow> (address \<times> Socket) result" where
  "getLocalAddress os s =
     (case m_localAddress s of
        Some a \<Rightarrow> Inr (a, s)
      | None \<Rightarrow>
          bindR (ask_address (m_family s) (sys_getsockname os)) (\<lambda>(a, keep).
            Inr (a, if keep then s\<lparr>m_localAddress := Some a\<rparr> else s)))"

section \<open>Life cycle\<close>

definition Socket_close :: "Socket \<Rightarrow> bool \<times> Socket \<times> sys_call list" where
  "Socket_close s =
     (if \<not> m_isConnected s \<and> m_sock s = - 1 then (True, s, [])
      else let s = s\<lparr>m_isConnected := False\<rparr>
           in if m_sock s \<noteq> - 1 then (False, s\<lparr>m_sock := - 1\<rparr>, [C_close (m_sock s)]) else (False, s, []))"

text \<open>The part \<open>bind\<close> and \<open>connect\<close> start with: make a descriptor when there is none, compare families.\<close>

definition prepare :: "sys \<Rightarrow> address \<Rightarrow> Socket \<Rightarrow> bool \<times> Socket \<times> sys_call list" where
  "prepare os a s =
     (let (s, cs) = (if \<not> isValid s then newSock os s else (s, []))
      in (isValid s \<and> getFamily a = m_family s, s, cs))"

definition Socket_bind :: "sys \<Rightarrow> address \<Rightarrow> Socket \<Rightarrow> (bool \<times> Socket \<times> sys_call list) result" where
  "Socket_bind os a s =
     (let (ok, s, cs) = prepare os a s
      in if \<not> ok then Inr (False, s, cs)
         else let cs = cs @ [C_bind (m_sock s)]
              in if sys_bind os \<noteq> 0 then Inr (False, s, cs)
                 else bindR (getLocalAddress os s) (\<lambda>(_, s). Inr (True, s, cs)))"

definition Socket_connect :: "sys \<Rightarrow> address \<Rightarrow> u64 \<Rightarrow> Socket \<Rightarrow> (bool \<times> Socket \<times> sys_call list) result" where
  "Socket_connect os a timeout_ms s =
     (let (ok, s, cs) = prepare os a s
      in if \<not> ok then Inr (False, s, cs)
         else let cs = cs @ [C_connect (m_sock s) timeout_ms]
              in if sys_connect os \<noteq> 0
                 then let (_, s, cs') = Socket_close s in Inr (False, s, cs @ cs')
                 else bindR (getRemoteAddress os (s\<lparr>m_isConnected := True\<rparr>)) (\<lambda>(_, s).
                      bindR (getLocalAddress os s) (\<lambda>(_, s). Inr (True, s, cs))))"

definition Socket_listen :: "sys \<Rightarrow> int \<Rightarrow> Socket \<Rightarrow> bool \<times> sys_call list" where
  "Socket_listen os backlog s =
     (if \<not> isValid s then (False, []) else (sys_listen os = 0, [C_listen (m_sock s) backlog]))"

text \<open>\<open>ctx\<close> is the context \<open>FdMgr\<close> has for the new descriptor.\<close>

definition Socket_init :: "sys \<Rightarrow> FdCtx option \<Rightarrow> int \<Rightarrow> Socket \<Rightarrow> (bool \<times> Socket \<times> sys_call list) result" where
  "Socket_init os ctx sock s =
     (case ctx of
        None \<Rightarrow> Inr (False, s, [])
      | Some c \<Rightarrow>
          if m_isSocket c \<and> \<not> m_isClosed c
          then let s = s\<lparr>m_sock := sock, m_isConnected := True\<rparr>; cs = initSock s
               in bindR (getLocalAddress os s) (\<lambda>(_, s).
                  bindR (getRemoteAddress os s) (\<lambda>(_, s). Inr (True, s, cs)))
          else Inr (False, s, []))"

definition Socket_accept :: "sys \<Rightarrow> FdCtx option \<Rightarrow> Socket \<Rightarrow> (Socket option \<times> sys_call list) result" where
  "Socket_accept os ctx s =
     (if sys_accept os = - 1 then Inr (None, [])
      else bindR (Socket_init os ctx (sys_accept os) (new_Socket (m_family s) (m_type s) (m_protocol s)))
        (\<lambda>(ok, sock, cs). Inr (if ok then Some sock else None, cs)))"

section \<open>Transfer\<close>

text \<open>\<open>send_f\<close> and \<open>recv_f\<close> are the (hooked) calls on a descriptor; \<open>'k\<close> is the state they act on.\<close>

definition Socket_send :: "(int \<Rightarrow> 'b \<Rightarrow> 'k \<Rightarrow> int \<times> 'k) \<Rightarrow> Socket \<Rightarrow> 'b \<Rightarrow> 'k \<Rightarrow> int \<times> 'k" where
  "Socket_send send_f s buffer k = (if m_isConnected s then send_f (m_sock s) buffer k else (- 1, k))"

definition Socket_recv ::
  "(int \<Rightarrow> nat \<Rightarrow> 'k \<Rightarrow> (int \<times> u8 list) \<times> 'k) \<Rightarrow> Socket \<Rightarrow> nat \<Rightarrow> 'k \<Rightarrow> (int \<times> u8 list) \<times> 'k" where
  "Socket_recv recv_f s n k = (if m_isConnected s then recv_f (m_sock s) n k else ((- 1, []), k))"

definition Socket_sendTo ::
  "(int \<Rightarrow> 'b \<Rightarrow> address \<Rightarrow> 'k \<Rightarrow> int \<times> 'k) \<Rightarrow> Socket \<Rightarrow> 'b \<Rightarrow> address \<Rightarrow> 'k \<Rightarrow> int \<times> 'k" where
  "Socket_sendTo sendto_f s buffer to k = (if m_isConnected s then sendto_f (m_sock s) buffer to k else (- 1, k))"

definition Socket_recvFrom ::
  "(int \<Rightarrow> nat \<Rightarrow> address \<Rightarrow> 'k \<Rightarrow> (int \<times> u8 list \<times> address) \<times> 'k) \<Rightarrow> Socket \<Rightarrow> nat \<Rightarrow> address \<Rightarrow> 'k
     \<Rightarrow> (int \<times> u8 list \<times> address) \<times> 'k" where
  "Socket_recvFrom recvfrom_f s n from k =
     (if m_isConnected s then recvfrom_f (m_sock s) n from k else ((- 1, [], from), k))"

section \<open>Options\<close>

definition timeval_of :: "int \<Rightarrow> int \<times> int" where
  "timeval_of v = (sint (word_of_int (v sdiv 1000) :: u32), sint (word_of_int (v smod 1000 * 1000) :: u32))"

definition setSendTimeout :: "int \<Rightarrow> int \<Rightarrow> Socket \<Rightarrow> hook_world \<Rightarrow> hook_world result" where
  "setSendTimeout v rt s w =
     bindR (hook_setsockopt (m_sock s) SOL_SOCKET SO_SNDTIMEO (timeval_of v) rt w) (\<lambda>(_, w). Inr w)"

definition setRecvTimeout :: "int \<Rightarrow> int \<Rightarrow> Socket \<Rightarrow> hook_world \<Rightarrow> hook_world result" where
  "setRecvTimeout v rt s w =
     bindR (hook_setsockopt (m_sock s) SOL_SOCKET SO_RCVTIMEO (timeval_of v) rt w) (\<lambda>(_, w). Inr w)"

definition getSendTimeout :: "Socket \<Rightarrow> hook_world \<Rightarrow> int result" where
  "getSendTimeout s w =
     bindR (find_ctx (m_sock s) w) (\<lambda>ctx.
       Inr (case ctx of None \<Rightarrow> - 1 | Some c \<Rightarrow> sint (getTimeout SO_SNDTIMEO c)))"

definition getRecvTimeout :: "Socket \<Rightarrow> hook_world \<Rightarrow> int result" where
  "getRecvTimeout s w =
     bindR (find_ctx (m_sock s) w) (\<lambda>ctx.
       Inr (case ctx of None \<Rightarrow> - 1 | Some c \<Rightarrow> sint (getTimeout SO_RCVTIMEO c)))"

text \<open>\<open>getError\<close>: \<open>None\<close> when \<open>getsockopt\<close> fails.\<close>

definition Socket_getError :: "int option \<Rightarrow> int" where
  "Socket_getError so_error = (case so_error of None \<Rightarrow> - 1 | Some e \<Rightarrow> e)"

definition cancelRead :: "bool \<Rightarrow> Socket \<Rightarrow> IOManager \<Rightarrow> (bool \<times> IOManager) result" where
  "cancelRead ctl_ok s io = cancelEvent (m_sock s) EV_READ ctl_ok io"

definition cancelWrite :: "bool \<Rightarrow> Socket \<Rightarrow> IOManager \<Rightarrow> (bool \<times> IOManager) result" where
  "cancelWrite ctl_ok s io = cancelEvent (m_sock s) EV_WRITE ctl_ok io"

definition cancelAccept :: "bool \<Rightarrow> Socket \<Rightarrow> IOManager \<Rightarrow> (bool \<times> IOManager) result" where
  "cancelAccept ctl_ok s io = cancelEvent (m_sock s) EV_READ ctl_ok io"

definition Socket_cancelAll :: "bool \<Rightarrow> Socket \<Rightarrow> IOManager \<Rightarrow> (bool \<times> IOManager) result" where
  "Socket_cancelAll ctl_ok s io = cancelAll (m_sock s) ctl_ok io"

section \<open>Descriptors are closed exactly once\<close>

definition owned :: "Socket \<Rightarrow> int list" where
  "owned s = (if m_sock s = - 1 then [] else [m_sock s])"

definition closed_by :: "sys_call list \<Rightarrow> int list" where
  "closed_by cs = concat (map (\<lambda>c. case c of C_close fd \<Rightarrow> [fd] | _ \<Rightarrow> []) cs)"

definition sk_inv :: "Socket \<Rightarrow> bool" where
  "sk_inv s \<longleftrightarrow> (m_isConnected s \<longrightarrow> m_sock s \<noteq> - 1)"

text \<open>The descriptors an operation starts from: its own, or the one it has to make.\<close>

definition opened :: "sys \<Rightarrow> Socket \<Rightarrow> int list" where
  "opened os s = (if isValid s then owned s else if sys_socket os = - 1 then [] else [sys_socket os])"

lemma closed_by_simps [simp]:
  "closed_by [] = []"
  "closed_by (c # cs) = (case c of C_close fd \<Rightarrow> [fd] | _ \<Rightarrow> []) @ closed_by cs"
  "closed_by (cs @ ds) = closed_by cs @ closed_by ds"
  by (simp_all add: closed_by_def)

lemma closed_by_initSock [simp]: "closed_by (initSock s) = []"
  by (simp add: initSock_def)

lemma address_keeps:
  "getRemoteAddress os s = Inr (a, s') \<Longrightarrow> m_sock s' = m_sock s \<and> m_isConnected s' = m_isConnected s"
  "getLocalAddress os s = Inr (a, s') \<Longrightarrow> m_sock s' = m_sock s \<and> m_isConnected s' = m_isConnected s"
  by (auto simp: getRemoteAddress_def getLocalAddress_def result_iff split: option.splits if_splits)

lemma close_ok:
  assumes "Socket_close s = (b, s', cs)"
  shows "owned s = closed_by cs" "owned s' = []" "sk_inv s'" "\<not> m_isConnected s'"
  using assms by (auto simp: Socket_close_def Let_def owned_def sk_inv_def split: if_splits)

lemma prepare_ok:
  assumes "prepare os a s = (ok, s', cs)"
  shows "opened os s = owned s'" "closed_by cs = []" "m_isConnected s' = m_isConnected s"
    "ok \<Longrightarrow> m_sock s' \<noteq> - 1" "sk_inv s \<Longrightarrow> sk_inv s'"
  using assms
  by (auto simp: prepare_def newSock_def opened_def owned_def isValid_def sk_inv_def Let_def split: if_splits)

lemma connect_ok:
  assumes "Socket_connect os a t s = Inr (b, s', cs)" "sk_inv s"
  shows "opened os s = closed_by cs @ owned s'" "sk_inv s'" "b \<Longrightarrow> m_isConnected s'" "sys_connect os \<noteq> 0 \<Longrightarrow> \<not> b"
proof -
  obtain ok s1 cs1 where p: "prepare os a s = (ok, s1, cs1)" by (cases "prepare os a s") auto
  note P = prepare_ok [OF p]
  have "opened os s = closed_by cs @ owned s' \<and> sk_inv s' \<and> (b \<longrightarrow> m_isConnected s') \<and> (sys_connect os \<noteq> 0 \<longrightarrow> \<not> b)"
  proof (cases "ok \<and> sys_connect os = 0")
    case True
    then obtain a1 s2 a2 where "getRemoteAddress os (s1\<lparr>m_isConnected := True\<rparr>) = Inr (a1, s2)"
        "getLocalAddress os s2 = Inr (a2, s')" "b" "cs = cs1 @ [C_connect (m_sock s1) t]"
      using assms(1) p by (auto simp: Socket_connect_def Let_def result_iff)
    then show ?thesis using address_keeps P True by (auto simp: owned_def sk_inv_def dest!: address_keeps)
  next
    case False
    then show ?thesis using assms p P
      by (auto simp: Socket_connect_def Let_def close_ok split: if_splits prod.splits dest: close_ok)
  qed
  then show "opened os s = closed_by cs @ owned s'" "sk_inv s'" "b \<Longrightarrow> m_isConnected s'" "sys_connect os \<noteq> 0 \<Longrightarrow> \<not> b"
    by auto
qed

section \<open>Timeouts\<close>

lemma sint_of_int_small: "- (2 ^ 31) \<le> v \<Longrightarrow> v < 2 ^ 31 \<Longrightarrow> sint (word_of_int v :: u32) = v"
  by (simp add: signed_of_int signed_take_bit_int_eq_self)

lemma timeval_of_small:
  assumes "0 \<le> v" "v < 2 ^ 31 * 1000"
  shows "timeval_of v = (v div 1000, v mod 1000 * 1000)"
proof -
  have "v sdiv 1000 = v div 1000" "v smod 1000 = v mod 1000"
    using assms(1) by (cases "v = 0"; auto simp: signed_divide_int_def signed_modulo_int_def sgn_if minus_div_mult_eq_mod)+
  moreover have "v div 1000 < 2 ^ 31" "0 \<le> v div 1000" "v mod 1000 * 1000 < 2 ^ 31" using assms by auto
  ultimately show ?thesis using sint_of_int_small [of "v div 1000"] sint_of_int_small [of "v mod 1000 * 1000"]
    by (simp add: timeval_of_def)
qed

lemma timeout_roundtrip:
  assumes "fdm_inv (hw_fds w)" "0 \<le> m_sock s" "m_sock s < 64" "hw_fds w ! nat (m_sock s) = Some ctx" "t_hook_enable w"
    and "0 \<le> v" "v < 2 ^ 31 * 1000"
  shows "\<exists>w'. setRecvTimeout v rt s w = Inr w' \<and> getRecvTimeout s w' = Inr v \<and> getSendTimeout s w' = getSendTimeout s w"
    "\<exists>w'. setSendTimeout v rt s w = Inr w' \<and> getSendTimeout s w' = Inr v \<and> getRecvTimeout s w' = getRecvTimeout s w"
proof -
  have tv: "0 \<le> v div 1000" "v div 1000 < 2 ^ 31" "0 \<le> v mod 1000 * 1000" "v mod 1000 * 1000 < 2 ^ 31"
    using assms(6,7) by auto
  have sum: "v div 1000 * 1000 + v mod 1000 * 1000 div 1000 = v" by simp
  have sv: "sint (word_of_int v :: u64) = v"
    using assms(6,7) by (simp add: signed_of_int signed_take_bit_int_eq_self)
  note step = setsockopt_step [OF assms(1-5) _ tv, of _ rt, unfolded sum]
  show "\<exists>w'. setRecvTimeout v rt s w = Inr w' \<and> getRecvTimeout s w' = Inr v \<and> getSendTimeout s w' = getSendTimeout s w"
    using step [of SO_RCVTIMEO] find_ctx_eq [OF _ assms(2,3)] assms(1,4) sv
    by (auto simp: setRecvTimeout_def getRecvTimeout_def getSendTimeout_def timeval_of_small [OF assms(6,7)]
        getTimeout_set SO_RCVTIMEO_def SO_SNDTIMEO_def)
  show "\<exists>w'. setSendTimeout v rt s w = Inr w' \<and> getSendTimeout s w' = Inr v \<and> getRecvTimeout s w' = getRecvTimeout s w"
    using step [of SO_SNDTIMEO] find_ctx_eq [OF _ assms(2,3)] assms(1,4) sv
    by (auto simp: setSendTimeout_def getRecvTimeout_def getSendTimeout_def timeval_of_small [OF assms(6,7)]
        getTimeout_set SO_RCVTIMEO_def SO_SNDTIMEO_def)
qed

section \<open>Addresses of a connection\<close>

lemma connect_unix_null:
  assumes "m_family s = AF_UNIX" "getFamily a = AF_UNIX" "m_remoteAddress s = None" "m_sock s \<noteq> - 1" "sys_connect os = 0"
    and "sys_getpeername os = Some (f, n)" "f (new_UnknownAddress AF_UNIX) = UnknownAddress raw"
  shows "Socket_connect os a t s = Inl NullDeref"
  using assms
  by (simp add: Socket_connect_def prepare_def isValid_def getRemoteAddress_def ask_address_def blank_address_def
      AF_UNIX_def AF_INET_def AF_INET6_def)

text \<open>\<open>close\<close> keeps the cached addresses, so a second connection reports the first peer.\<close>

lemma reconnect_keeps_peer:
  assumes "m_remoteAddress s = Some peer" "Socket_close s = (b, s1, cs1)" "Socket_connect os a t s1 = Inr (True, s2, cs2)"
  shows "getRemoteAddress os s2 = Inr (peer, s2)"
proof -
  have r1: "m_remoteAddress s1 = Some peer" using assms(1,2) by (auto simp: Socket_close_def Let_def split: if_splits)
  obtain ok s0 cs where p: "prepare os a s1 = (ok, s0, cs)" by (cases "prepare os a s1") auto
  then have "m_remoteAddress s0 = Some peer" using r1
    by (auto simp: prepare_def newSock_def Let_def split: if_splits)
  then have "m_remoteAddress s2 = Some peer" using assms(3) p
    by (auto simp: Socket_connect_def Let_def result_iff getRemoteAddress_def getLocalAddress_def
        split: if_splits option.splits prod.splits)
  then show ?thesis by (simp add: getRemoteAddress_def)
qed

end
