(* ===== verification/SocketStream.thy ===== *)
theory SocketStream
  imports ByteStream Socket
begin

text \<open>
  \<^verbatim>\<open>src/myhttp/socket_stream.h\<close> and \<^verbatim>\<open>socket_stream.cpp\<close>: the stream over a socket.  The calls on the
  descriptor are the parameters of \<open>Socket\<close>; their \<open>ssize_t\<close> results are cut to \<open>int\<close> on return.  The
  overloads on a \<open>ByteArray\<close> hand the kernel the scatter-gather vectors of the array: a receive stores
  the bytes through them (\<open>scatter\<close>), a send takes the bytes they denote (\<open>gather\<close>).
\<close>

section \<open>Definitions\<close>

definition SocketStream_isConnected :: "Socket option \<Rightarrow> bool" where
  "SocketStream_isConnected sock = (case sock of None \<Rightarrow> False | Some s \<Rightarrow> m_isConnected s)"

definition SocketStream_read ::
  "(int \<Rightarrow> nat \<Rightarrow> 'k \<Rightarrow> (int \<times> u8 list) \<times> 'k) \<Rightarrow> Socket option \<Rightarrow> 'k \<Rightarrow> u64 \<Rightarrow> (u32 \<times> u8 list) \<times> 'k" where
  "SocketStream_read recv_f sock k n =
     (if \<not> SocketStream_isConnected sock then ((- 1, []), k)
      else let ((rt, bs), k) = Socket_recv recv_f (the sock) (unat n) k in ((word_of_int rt, bs), k))"

definition SocketStream_write ::
  "(int \<Rightarrow> u8 list \<Rightarrow> 'k \<Rightarrow> int \<times> 'k) \<Rightarrow> Socket option \<Rightarrow> 'k \<Rightarrow> u8 list \<Rightarrow> u32 \<times> 'k" where
  "SocketStream_write send_f sock k bs =
     (if \<not> SocketStream_isConnected sock then (- 1, k)
      else let (rt, k) = Socket_send send_f (the sock) bs k in (word_of_int rt, k))"

fun scatter :: "node list \<Rightarrow> iovec list \<Rightarrow> u8 list \<Rightarrow> node list result" where
  "scatter ns [] bs = (if bs = [] then Inr ns else Inl OutOfBounds)"
| "scatter ns ((i, off, n) # iovs) bs =
     bindR (memcpy_to (ns ! i) off (take n bs)) (\<lambda>nd. scatter (ns[i := nd]) iovs (drop n bs))"

definition SocketStream_read_ba ::
  "(int \<Rightarrow> nat \<Rightarrow> 'k \<Rightarrow> (int \<times> u8 list) \<times> 'k) \<Rightarrow> Socket option \<Rightarrow> 'k \<Rightarrow> bytearray \<Rightarrow> u64 \<Rightarrow> (u32 \<times> bytearray \<times> 'k) result"
where
  "SocketStream_read_ba recv_f sock k ba n =
     (if \<not> SocketStream_isConnected sock then Inr (- 1, ba, k)
      else bindR (getWriteBuffers ba (unat n)) (\<lambda>((len, iovs), ba).
        let ((rt, bs), k) = Socket_recv recv_f (the sock) (iov_total iovs) k; r = word_of_int rt :: u32
        in bindR (scatter (m_root ba) iovs bs) (\<lambda>ns.
             let ba = ba\<lparr>m_root := ns\<rparr>
             in if sint r > 0
                then bindR (setPosition ba (m_position ba + nat (sint r))) (\<lambda>ba. Inr (r, ba, k))
                else Inr (r, ba, k))))"

definition SocketStream_write_ba ::
  "(int \<Rightarrow> cell list \<Rightarrow> 'k \<Rightarrow> int \<times> 'k) \<Rightarrow> Socket option \<Rightarrow> 'k \<Rightarrow> bytearray \<Rightarrow> u64 \<Rightarrow> (u32 \<times> bytearray \<times> 'k) result"
where
  "SocketStream_write_ba send_f sock k ba n =
     (if \<not> SocketStream_isConnected sock then Inr (- 1, ba, k)
      else bindR (getReadBuffers ba (unat n)) (\<lambda>(len, iovs).
        let (rt, k) = Socket_send send_f (the sock) (gather (m_root ba) iovs) k; r = word_of_int rt :: u32
        in if sint r > 0
           then bindR (setPosition ba (m_position ba + nat (sint r))) (\<lambda>ba. Inr (r, ba, k))
           else Inr (r, ba, k)))"

definition SocketStream_close :: "Socket option \<Rightarrow> Socket option \<times> sys_call list" where
  "SocketStream_close sock =
     (case sock of None \<Rightarrow> (None, []) | Some s \<Rightarrow> let (_, s, cs) = Socket_close s in (Some s, cs))"

definition SocketStream_delete :: "bool \<Rightarrow> Socket option \<Rightarrow> Socket option \<times> sys_call list" where
  "SocketStream_delete owner sock = (if owner then SocketStream_close sock else (sock, []))"

section \<open>Scatter\<close>

text \<open>The vectors describe one contiguous stretch of the contents, starting at \<open>p\<close>.\<close>

fun iov_span :: "nat \<Rightarrow> nat \<Rightarrow> iovec list \<Rightarrow> nat \<Rightarrow> bool" where
  "iov_span b len [] p = True"
| "iov_span b len ((i, off, n) # iovs) p \<longleftrightarrow>
     i < len \<and> i * b + off = p \<and> off + n \<le> b \<and> iov_span b len iovs (p + n)"

lemma iov_loop_span:
  assumes "nodes_ok b ns" "i < length ns" "npos \<le> b" "ncap = b - npos" "iov_loop ns i npos ncap n = Inr iovs"
  shows "iov_span b (length ns) iovs (i * b + npos)"
  using assms
proof (induction ns i npos ncap n arbitrary: iovs rule: iov_loop.induct)
  case (1 ns i npos ncap n)
  consider "n = 0" | "n \<noteq> 0" "ncap \<ge> n" | "n \<noteq> 0" "\<not> ncap \<ge> n" by blast
  then show ?case
  proof cases
    case 3
    then obtain j iovs' where j: "next_node ns i = Some j" "iov_loop ns j 0 (nd_size (ns ! j)) (n - ncap) = Inr iovs'"
        "iovs = (i, npos, ncap) # iovs'"
      using "1.prems"(5) by (subst (asm) iov_loop.simps) (auto simp: result_iff split: option.splits)
    then have jl: "j = Suc i" "j < length ns" by (auto simp: next_node_def split: if_splits)
    then have "nd_size (ns ! j) = b" using nodes_ok_nth [OF "1.prems"(1)] by (simp add: node_ok_def)
    then have "iov_span b (length ns) iovs' (j * b + 0)"
      using "1.IH" [OF 3 j(1) "1.prems"(1) jl(2), of iovs'] j(2) by simp
    then show ?thesis using j(3) jl "1.prems" by (simp add: ac_simps)
  qed (use "1.prems" in \<open>subst (asm) iov_loop.simps, auto\<close>)+
qed

lemma scatter_ok:
  assumes "nodes_ok b ns" "iov_span b (length ns) iovs p" "length bs \<le> iov_total iovs"
    and "p + iov_total iovs \<le> length ns * b"
  shows "\<exists>ns'. scatter ns iovs bs = Inr ns' \<and> nodes_ok b ns' \<and> length ns' = length ns
    \<and> flat ns' = overlay (flat ns) p (map Some bs)"
  using assms
proof (induction ns iovs bs arbitrary: p rule: scatter.induct)
  case (1 ns bs)
  then show ?case by (simp add: iov_total_def)
next
  case (2 ns i off n iovs bs)
  have i: "i < length ns" "i * b + off = p" "off + length (take n bs) \<le> b" using "2.prems"(2) by auto
  obtain nd where nd: "memcpy_to (ns ! i) off (take n bs) = Inr nd" "node_ok b nd"
      "flat (ns[i := nd]) = overlay (flat ns) (i * b + off) (map Some (take n bs))"
    using flat_poke [OF "2.prems"(1) i(1,3)] by blast
  have ok: "nodes_ok b (ns[i := nd])" using "2.prems"(1) nd(2) set_update_subset_insert [of ns i nd]
    by (auto simp: nodes_ok_def list_all_iff)
  have tot: "iov_total ((i, off, n) # iovs) = n + iov_total iovs" by (simp add: iov_total_def)
  obtain ns' where ns': "scatter (ns[i := nd]) iovs (drop n bs) = Inr ns'" "nodes_ok b ns'" "length ns' = length ns"
      "flat ns' = overlay (flat (ns[i := nd])) (p + n) (map Some (drop n bs))"
    using "2.IH" [of nd "p + n"] nd(1) ok "2.prems" tot le_diff_conv [of "length bs" n "iov_total iovs"]
    by (auto simp: add.commute)
  have "overlay (flat (ns[i := nd])) (p + n) (map Some (drop n bs)) = overlay (flat ns) p (map Some bs)"
  proof (cases "length bs \<le> n")
    case True
    then show ?thesis using nd(3) i(2) by simp
  next
    case False
    have "p + length (map Some (take n bs)) + length (map Some (drop n bs)) \<le> length (flat ns)"
      using length_flat [OF "2.prems"(1)] "2.prems"(3,4) by simp
    from overlay_overlay [OF this] show ?thesis using nd(3) i(2) False by (simp flip: map_append)
  qed
  then show ?case using nd(1) ns' by simp
qed

section \<open>Reading into and writing from a ByteArray\<close>

lemma getWriteBuffers_span:
  assumes "ba_inv ba" "room_for ba len"
  shows "\<exists>iovs g. getWriteBuffers ba len = Inr ((len, iovs), g) \<and> iov_total iovs = len \<and> written ba [] g
    \<and> m_position g + len \<le> m_capacity g \<and> iov_span (m_baseSize g) (length (m_root g)) iovs (m_position g)"
proof (cases "len = 0")
  case True
  then show ?thesis using written_refl [OF assms(1)] ba_invD(5,6) [OF assms(1)]
    by (auto simp: getWriteBuffers_def iov_total_def)
next
  case False
  define g where "g = grow ba (new_nodes ba len)"
  have g: "ba_inv g" unfolding g_def by (rule grow_inv [OF assms(1)])
  have "len \<le> getCapacity ba + new_nodes ba len * m_baseSize ba"
    using room_for_new_nodes [OF ba_invD(1) [OF assms(1)], of len] assms(2) by blast
  then have le: "m_position g + len \<le> m_capacity g"
    using ba_invD(5,6) [OF assms(1)] by (simp add: g_def getCapacity_def)
  then have lt: "m_position g < m_capacity g" using False by simp
  obtain iovs where iovs:
    "iov_loop (m_root g) (m_position g div m_baseSize g) (m_position g mod m_baseSize g)
       (m_baseSize g - m_position g mod m_baseSize g) len = Inr iovs" "iov_total iovs = len"
    using iov_at_position [OF g le] False by blast
  have "getWriteBuffers ba len = Inr ((len, iovs), g)"
    using False ba_invD(1) [OF g] le deref_cursor [OF g] position_index [OF g] iovs(1)
      addCapacity_eq [OF assms(1)]
    by (simp add: getWriteBuffers_def Let_def flip: g_def)
  moreover have "iov_span (m_baseSize g) (length (m_root g)) iovs (m_position g)"
    using iov_loop_span [OF ba_invD(3) [OF g] position_index(1) [OF g lt] _ refl iovs(1)] ba_invD(1) [OF g]
    by (simp add: less_imp_le)
  moreover have "written ba [] g" using g ba_invD(5) [OF assms(1)] by (simp add: written_def g_def)
  ultimately show ?thesis using iovs(2) le by blast
qed

lemma sint_small: "n < 2 ^ 31 \<Longrightarrow> sint (word_of_int (int n) :: u32) = int n"
  by (rule sint_of_int_small) auto

lemma stored_ok:
  assumes "ba_inv g" "nodes_ok (m_baseSize g) ns" "length ns = length (m_root g)"
    and "flat ns = overlay (flat (m_root g)) (m_position g) (map Some bs)" "m_position g + length bs \<le> m_capacity g"
  shows "\<exists>ba'. setPosition (g\<lparr>m_root := ns\<rparr>) (m_position g + length bs) = Inr ba' \<and> written g bs ba'"
proof -
  let ?g = "g\<lparr>m_root := ns\<rparr>"
  note gD = ba_invD [OF assms(1)]
  have "ba_inv ?g" using gD assms(2,3) by (auto simp: ba_inv_def)
  from setPosition_ok [OF this, of "m_position g + length bs"] assms(5)
  show ?thesis using gD assms(2-5)
    by (auto simp: written_def ba_inv_def contents_def)
qed

text \<open>A receive through the vectors has the effect of \<open>ByteArray::write\<close> of the received bytes.\<close>

lemma SocketStream_read_ba_ok:
  assumes "ba_inv ba" "room_for ba (unat n)" "m_isConnected s"
    and "recv_f (m_sock s) (unat n) k = ((int (length bs), bs), k')" "length bs \<le> unat n" "length bs < 2 ^ 31"
  shows "\<exists>ba'. SocketStream_read_ba recv_f (Some s) k ba n = Inr (word_of_nat (length bs), ba', k') \<and> written ba bs ba'"
proof -
  obtain iovs g where g: "getWriteBuffers ba (unat n) = Inr ((unat n, iovs), g)" "iov_total iovs = unat n" "written ba [] g"
      "m_position g + unat n \<le> m_capacity g" "iov_span (m_baseSize g) (length (m_root g)) iovs (m_position g)"
    using getWriteBuffers_span [OF assms(1,2)] by blast
  have gi: "ba_inv g" using g(3) by (rule written_inv)
  note gD = ba_invD [OF gi]
  obtain ns where ns: "scatter (m_root g) iovs bs = Inr ns" "nodes_ok (m_baseSize g) ns" "length ns = length (m_root g)"
      "flat ns = overlay (flat (m_root g)) (m_position g) (map Some bs)"
    using scatter_ok [OF gD(3) g(5), of bs] g(2,4) gD(4) assms(5) by auto
  obtain ba' where ba': "setPosition (g\<lparr>m_root := ns\<rparr>) (m_position g + length bs) = Inr ba'" "written g bs ba'"
    using stored_ok [OF gi ns(2-4)] g(4) assms(5) by fastforce
  have w: "written ba bs ba'" using written_trans [OF assms(1) g(3) ba'(2)] by simp
  have rt: "(word_of_int (int (length bs)) :: u32) = word_of_nat (length bs)" by simp
  show ?thesis
  proof (cases "bs = []")
    case True
    have "scatter (m_root g) iovs [] = Inr ns" "flat ns = flat (m_root g)" using ns True by simp_all
    then have "written ba [] (g\<lparr>m_root := ns\<rparr>)"
      using g(3) gD ns(2,3) by (auto simp: written_def ba_inv_def contents_def)
    then show ?thesis using True g(1,2) ns(1) assms(3,4)
      by (auto simp: SocketStream_read_ba_def SocketStream_isConnected_def Socket_recv_def Let_def)
  next
    case False
    have "SocketStream_read_ba recv_f (Some s) k ba n = Inr (word_of_nat (length bs), ba', k')"
      using False g(1,2) ns(1) assms(3,4) ba'(1) sint_small [OF assms(6)]
      by (simp add: SocketStream_read_ba_def SocketStream_isConnected_def Socket_recv_def Let_def)
    then show ?thesis using w by blast
  qed
qed

lemma SocketStream_write_ba_ok:
  assumes "ba_inv ba" "m_isConnected s"
    and "send_f (m_sock s) (take (unat n) (readable ba)) k = (int m, k')" "m \<le> min (unat n) (getReadSize ba)" "m < 2 ^ 31"
  shows "SocketStream_write_ba send_f (Some s) k ba n = Inr (word_of_nat m, advance ba m, k')"
proof -
  obtain iovs where iovs: "getReadBuffers ba (unat n) = Inr (min (unat n) (getReadSize ba), iovs)"
      "gather (m_root ba) iovs = take (unat n) (readable ba)"
    using getReadBuffers_ok [OF assms(1)] by blast
  have le: "m_position ba + m \<le> m_capacity ba" using assms(4) ba_invD(5,6) [OF assms(1)] unfolding getReadSize_def by linarith
  have "max (m_size ba) (m_position ba + m) = m_size ba"
    using assms(4) ba_invD(5) [OF assms(1)] unfolding getReadSize_def by linarith
  then have "setPosition ba (m_position ba + m) = Inr (advance ba m)"
    using setPosition_ok [OF assms(1) le] by (simp add: advance_def)
  moreover have "advance ba 0 = ba" using assms(1) by (simp add: advance_def ba_inv_def)
  ultimately show ?thesis
    using assms(2,3) iovs sint_small [OF assms(5)]
    by (cases "m = 0") (simp_all add: SocketStream_write_ba_def SocketStream_isConnected_def Socket_send_def)
qed

text \<open>What \<open>written\<close> says determines position, size and the bytes up to the size.\<close>

lemma take_pad:
  assumes "m \<le> length xs + r" "m \<le> length xs + q"
  shows "take m (xs @ replicate r x) = take m (xs @ replicate q x)"
proof -
  have "min (m - length xs) r = m - length xs" "min (m - length xs) q = m - length xs" using assms by linarith+
  then show ?thesis by simp
qed

lemma take_overlay:
  assumes "take m xs = take m ys" "p + length bs \<le> m" "m \<le> length xs" "m \<le> length ys"
  shows "take m (overlay xs p bs) = take m (overlay ys p bs)"
proof -
  have "take p xs = take p ys" using arg_cong [OF assms(1), of "take p"] assms(2) by (simp add: min_absorb1)
  moreover have "drop (p + length bs) (take m xs) = drop (p + length bs) (take m ys)" using assms(1) by simp
  ultimately show ?thesis using assms(2-4) by (simp add: overlay_def take_drop add.commute)
qed

lemma written_same:
  assumes "ba_inv ba" "written ba bs b1" "written ba bs b2"
  shows "take (m_size b1) (contents b1) = take (m_size b2) (contents b2)"
proof -
  let ?m = "max (m_size ba) (m_position ba + length bs)"
  let ?pad = "\<lambda>b. contents ba @ replicate (m_capacity b - m_capacity ba) None"
  have "length (contents ba) = m_capacity ba" using assms(1) by (rule ba_invD(8))
  moreover have "?m \<le> m_capacity b1" "?m \<le> m_capacity b2" "m_capacity ba \<le> m_capacity b1" "m_capacity ba \<le> m_capacity b2"
    using assms(2,3) ba_invD(6) [of b1] ba_invD(6) [of b2] by (auto simp: written_def)
  ultimately have "take ?m (overlay (?pad b1) (m_position ba) (map Some bs)) = take ?m (overlay (?pad b2) (m_position ba) (map Some bs))"
    by (intro take_overlay take_pad) simp_all
  then show ?thesis using assms(2,3) by (simp add: written_def)
qed

section \<open>The socket stream keeps the contracts of a stream\<close>

text \<open>A connected TCP socket as the manual pages describe it: \<open>recv\<close> delivers a non-empty prefix of the
  pending bytes or 0 at the end, \<open>send\<close> takes a non-empty prefix of its argument.\<close>

locale tcp_socket =
  fixes recv_f :: "int \<Rightarrow> nat \<Rightarrow> 'k \<Rightarrow> (int \<times> u8 list) \<times> 'k"
    and send_f :: "int \<Rightarrow> u8 list \<Rightarrow> 'k \<Rightarrow> int \<times> 'k"
    and s :: Socket
    and incoming :: "'k \<Rightarrow> u8 list"
    and outgoing :: "'k \<Rightarrow> u8 list"
  assumes connected: "m_isConnected s"
    and recv_data: "incoming k \<noteq> [] \<Longrightarrow> 0 < n \<Longrightarrow>
      \<exists>m k'. recv_f (m_sock s) n k = ((int m, take m (incoming k)), k') \<and> 0 < m \<and> m \<le> n \<and> m \<le> length (incoming k)
        \<and> m < 2 ^ 31 \<and> incoming k' = drop m (incoming k)"
    and recv_end: "incoming k = [] \<Longrightarrow> \<exists>k'. recv_f (m_sock s) n k = ((0, []), k') \<and> incoming k' = []"
    and send_some: "bs \<noteq> [] \<Longrightarrow>
      \<exists>m k'. send_f (m_sock s) bs k = (int m, k') \<and> 0 < m \<and> m \<le> length bs \<and> m < 2 ^ 31
        \<and> outgoing k' = outgoing k @ take m bs"
    and recv_outgoing: "outgoing (snd (recv_f (m_sock s) n k)) = outgoing k"
    and send_incoming: "incoming (snd (send_f (m_sock s) bs k)) = incoming k"

sublocale tcp_socket \<subseteq> source: byte_source "SocketStream_read recv_f (Some s)" incoming
proof unfold_locales
  fix k n
  show "\<exists>m k'. SocketStream_read recv_f (Some s) k n = ((word_of_nat m, take m (incoming k)), k') \<and> 0 < m \<and> m \<le> unat n
      \<and> m \<le> length (incoming k) \<and> m < 2 ^ 31 \<and> incoming k' = drop m (incoming k)" if "incoming k \<noteq> []" "0 < n"
  proof -
    have "0 < unat n" using that(2) by (simp add: unat_gt_0 word_neq_0_conv)
    from recv_data [OF that(1) this] show ?thesis
      using connected by (auto simp: SocketStream_read_def SocketStream_isConnected_def Socket_recv_def)
  qed
  show "\<exists>k'. SocketStream_read recv_f (Some s) k n = ((0, []), k') \<and> incoming k' = []" if "incoming k = []"
    using recv_end [OF that, of "unat n"] connected
    by (auto simp: SocketStream_read_def SocketStream_isConnected_def Socket_recv_def)
qed

sublocale tcp_socket \<subseteq> sink: byte_sink "SocketStream_write send_f (Some s)" outgoing
proof unfold_locales
  fix bs k
  show "\<exists>m k'. SocketStream_write send_f (Some s) k bs = (word_of_nat m, k') \<and> 0 < m \<and> m \<le> length bs \<and> m < 2 ^ 31
      \<and> outgoing k' = outgoing k @ take m bs" if "bs \<noteq> []"
    using send_some [OF that, of k] connected
    by (auto simp: SocketStream_write_def SocketStream_isConnected_def Socket_send_def)
qed

sublocale tcp_socket \<subseteq> stream: byte_stream "SocketStream_read recv_f (Some s)" incoming "SocketStream_write send_f (Some s)" outgoing
proof unfold_locales
  show "outgoing (snd (SocketStream_read recv_f (Some s) k n)) = outgoing k" for k n
    using recv_outgoing [of "unat n" k] connected
    by (auto simp: SocketStream_read_def SocketStream_isConnected_def Socket_recv_def split: prod.split)
  show "incoming (snd (SocketStream_write send_f (Some s) k bs)) = incoming k" for k bs
    using send_incoming [of bs k] connected
    by (auto simp: SocketStream_write_def SocketStream_isConnected_def Socket_send_def split: prod.split)
qed

context tcp_socket
begin

lemma is_stream:
  "byte_stream (SocketStream_read recv_f (Some s)) incoming (SocketStream_write send_f (Some s)) outgoing"
  by (rule stream.byte_stream_axioms)

text \<open>The loops over a connected socket transfer exactly the bytes asked for, however the kernel cuts them.\<close>

lemma readFixSize_exact:
  assumes "unat n \<le> length buffer" "length buffer < 2 ^ 64"
  shows "\<exists>k'. readFixSize (SocketStream_read recv_f (Some s)) k buffer n =
      Some (Inr (if unat n \<le> length (incoming k) then ucast n else 0, overlay buffer 0 (take (unat n) (incoming k)), k'))
    \<and> incoming k' = drop (unat n) (incoming k) \<and> outgoing k' = outgoing k"
  using source.readFixSize_ok [OF assms, of k] stream.readFixSize_sent [of k buffer n] by blast

lemma writeFixSize_exact:
  assumes "unat n \<le> length buffer" "length buffer < 2 ^ 64"
  shows "\<exists>k'. writeFixSize (SocketStream_write send_f (Some s)) k buffer n = Some (Inr (ucast n, k'))
    \<and> outgoing k' = outgoing k @ take (unat n) buffer \<and> incoming k' = incoming k"
  using sink.writeFixSize_ok [OF assms, of k] stream.writeFixSize_pending [of k buffer n] by blast

end

text \<open>A loopback connection that moves at most 1024 bytes per call.\<close>

type_synonym loopback = "u8 list \<times> u8 list"

definition loop_recv :: "int \<Rightarrow> nat \<Rightarrow> loopback \<Rightarrow> (int \<times> u8 list) \<times> loopback" where
  "loop_recv fd n = (\<lambda>(inp, out).
     let m = min (min n 1024) (length inp) in ((int m, take m inp), drop m inp, out))"

definition loop_send :: "int \<Rightarrow> u8 list \<Rightarrow> loopback \<Rightarrow> int \<times> loopback" where
  "loop_send fd bs = (\<lambda>(inp, out). let m = min 1024 (length bs) in (int m, inp, out @ take m bs))"

definition loop_socket :: Socket where
  "loop_socket = CreateTCPSocket\<lparr>m_sock := 5, m_isConnected := True\<rparr>"

interpretation loopback: tcp_socket loop_recv loop_send loop_socket fst snd
proof unfold_locales
  show "m_isConnected loop_socket" by (simp add: loop_socket_def)
next
  fix k :: loopback and n :: nat
  assume *: "fst k \<noteq> []" "0 < n"
  obtain inp out where k: "k = (inp, out)" by (cases k)
  let ?m = "min (min n 1024) (length inp)"
  have "loop_recv (m_sock loop_socket) n k = ((int ?m, take ?m (fst k)), drop ?m inp, out)"
    by (simp add: loop_recv_def k Let_def)
  moreover have "0 < ?m" "?m \<le> n" "?m \<le> length (fst k)" "?m < 2 ^ 31" using * by (auto simp: k)
  ultimately show "\<exists>m k'. loop_recv (m_sock loop_socket) n k = ((int m, take m (fst k)), k') \<and> 0 < m \<and> m \<le> n
      \<and> m \<le> length (fst k) \<and> m < 2 ^ 31 \<and> fst k' = drop m (fst k)"
    by (intro exI [of _ ?m] exI [of _ "(drop ?m inp, out)"]) (simp add: k)
next
  fix k :: loopback and n :: nat
  show "fst k = [] \<Longrightarrow> \<exists>k'. loop_recv (m_sock loop_socket) n k = ((0, []), k') \<and> fst k' = []"
    by (cases k) (simp add: loop_recv_def)
next
  fix bs :: "u8 list" and k :: loopback
  assume *: "bs \<noteq> []"
  obtain inp out where k: "k = (inp, out)" by (cases k)
  let ?m = "min 1024 (length bs)"
  have "loop_send (m_sock loop_socket) bs k = (int ?m, inp, out @ take ?m bs)" by (simp add: loop_send_def k Let_def)
  moreover have "0 < ?m" "?m \<le> length bs" "?m < 2 ^ 31" using * by auto
  ultimately show "\<exists>m k'. loop_send (m_sock loop_socket) bs k = (int m, k') \<and> 0 < m \<and> m \<le> length bs \<and> m < 2 ^ 31
      \<and> snd k' = snd k @ take m bs"
    by (intro exI [of _ ?m] exI [of _ "(inp, out @ take ?m bs)"]) (simp add: k)
next
  show "snd (snd (loop_recv (m_sock loop_socket) n k)) = snd k" for n :: nat and k :: loopback
    by (cases k) (simp add: loop_recv_def Let_def)
  show "fst (snd (loop_send (m_sock loop_socket) bs k)) = fst k" for bs :: "u8 list" and k :: loopback
    by (cases k) (simp add: loop_send_def Let_def)
qed

end
