(* ===== verification/HttpSession.thy ===== *)
theory HttpSession
  imports HttpParser SocketStream
begin

text \<open>
  \<^verbatim>\<open>src/myhttp/http/http_session.h\<close> and \<^verbatim>\<open>http_session.cpp\<close>: the server side of a connection.  \<open>rd\<close> and
  \<open>wr\<close> are the \<open>read\<close> and \<open>write\<close> of the stream the session is (\<open>SocketStream\<close>), \<open>mc\<close> is the generated
  request machine.  The loop of \<open>recvRequest\<close> goes on as long as bytes arrive, so it may not end: \<open>None\<close>.
  The buffer is the list of its valid bytes, \<open>offset\<close> their number.  \<open>body.resize\<close> throws for a length no string can have;
  below that, allocation succeeds.
\<close>

section \<open>Definitions\<close>

definition to_chars :: "u8 list \<Rightarrow> string" where
  "to_chars bs = map (\<lambda>b. char_of (unat b)) bs"

definition of_chars :: "string \<Rightarrow> u8 list" where
  "of_chars s = map (\<lambda>c. of_char c) s"

text \<open>The loop, over the \<open>execute\<close>, \<open>hasError\<close> and \<open>isFinished\<close> of a parser: a parser when the head is
  complete, \<open>None\<close> for the early returns of \<open>nullptr\<close>, an error when \<open>execute\<close> throws or aborts.\<close>

partial_function (option) recv_head_loop ::
  "(string \<Rightarrow> 'q \<Rightarrow> (nat \<times> string \<times> 'q) result) \<Rightarrow> ('q \<Rightarrow> bool) \<Rightarrow> ('q \<Rightarrow> int)
     \<Rightarrow> ('s \<Rightarrow> u64 \<Rightarrow> (u32 \<times> u8 list) \<times> 's) \<Rightarrow> u64 \<Rightarrow> 'q \<Rightarrow> string \<Rightarrow> int \<Rightarrow> 's
     \<Rightarrow> (('q \<times> string \<times> int) option \<times> 's) result option"
where
  "recv_head_loop execute hasError isFinished rd buff_size parser data offset s =
     (case rd s (buff_size - word_of_int offset) of ((r, bs), s) \<Rightarrow>
        (let len = sint r
         in if len \<le> 0 then Some (Inr (None, s))
            else (let len = len + offset
                  in (case execute (data @ to_chars bs) parser of
                       Inl e \<Rightarrow> Some (Inl e)
                     | Inr (nparser, data, parser) \<Rightarrow>
                       if hasError parser then Some (Inr (None, s))
                       else (let offset = len - int nparser
                             in if offset = sint (ucast buff_size :: u32) then Some (Inr (None, s))
                                else if isFinished parser \<noteq> 0 then Some (Inr (Some (parser, data, offset), s))
                                else recv_head_loop execute hasError isFinished rd buff_size parser data offset s)))))"

text \<open>The body of \<open>n > 0\<close> bytes: \<open>body.resize(n)\<close>, which throws \<open>length_error\<close> beyond \<open>max_size()\<close>, then what is
  already in the buffer, then \<open>readFixSize\<close> for the rest.\<close>

definition resize_error :: cpp_error where
  "resize_error = LogicError ''basic_string::_M_replace_aux''"

definition recv_fixed_body ::
  "('s \<Rightarrow> u64 \<Rightarrow> (u32 \<times> u8 list) \<times> 's) \<Rightarrow> int \<Rightarrow> string \<Rightarrow> int \<Rightarrow> 's \<Rightarrow> (string option \<times> 's) result option" where
  "recv_fixed_body rd n data offset s =
     (if 2 ^ 62 \<le> n then Some (Inl resize_error) else
      let head = (if n \<ge> offset then take (nat offset) data else take (nat n) data);
          n = n - offset
      in if n > 0 then
           (case readFixSize rd s (replicate (nat n) 0) (word_of_int n) of
              None \<Rightarrow> None
            | Some (Inl e) \<Rightarrow> Some (Inl e)
            | Some (Inr (r, buf, s)) \<Rightarrow>
                if sint r \<le> 0 then Some (Inr (None, s)) else Some (Inr (Some (head @ to_chars buf), s)))
         else Some (Inr (Some head, s)))"

definition recv_body ::
  "(string \<Rightarrow> u64 option) \<Rightarrow> ('s \<Rightarrow> u64 \<Rightarrow> (u32 \<times> u8 list) \<times> 's) \<Rightarrow> 'p HttpRequestParser \<Rightarrow> string \<Rightarrow> int \<Rightarrow> 's
     \<Rightarrow> (HttpRequest option \<times> 's) result option" where
  "recv_body lexical_cast rd parser data offset s =
     (let n = sint (request_getContentLength lexical_cast parser)
      in if n > 0 then
           map_option (map_sum id (apfst (map_option (\<lambda>body. (rp_data parser)\<lparr>rq_body := body\<rparr>))))
             (recv_fixed_body rd n data offset s)
         else Some (Inr (Some (rp_data parser), s)))"

definition recvRequest ::
  "('p, request_event) machine \<Rightarrow> (string \<Rightarrow> u64 option) \<Rightarrow> parser_limits \<Rightarrow> ('s \<Rightarrow> u64 \<Rightarrow> (u32 \<times> u8 list) \<times> 's) \<Rightarrow> 's
     \<Rightarrow> (HttpRequest option \<times> 's) result option" where
  "recvRequest mc lexical_cast limits rd s =
     (case recv_head_loop (request_execute mc) (request_hasError mc) (request_isFinished mc) rd
         (s_http_request_buffer_size limits) (new_HttpRequestParser mc) [] 0 s of
        None \<Rightarrow> None
      | Some (Inl e) \<Rightarrow> Some (Inl e)
      | Some (Inr (None, s)) \<Rightarrow> Some (Inr (None, s))
      | Some (Inr (Some (parser, data, offset), s)) \<Rightarrow> recv_body lexical_cast rd parser data offset s)"

definition sendResponse ::
  "('s \<Rightarrow> u8 list \<Rightarrow> u32 \<times> 's) \<Rightarrow> HttpResponse \<Rightarrow> 's \<Rightarrow> (u32 \<times> 's) result option" where
  "sendResponse wr rsp s =
     (let data = of_chars (HttpResponse_dump rsp) in writeFixSize wr s data (word_of_nat (length data)))"

section \<open>Lemmas\<close>

lemma to_of_chars [simp]: "to_chars (of_chars s) = s"
proof -
  have "unat (of_char c :: u8) = of_char c" for c
    using unat_of_nat_small [of "of_char c" , where ?'a = 8] by (simp add: of_nat_of_char)
  then show ?thesis by (simp add: to_chars_def of_chars_def comp_def)
qed

lemma length_to_chars [simp]: "length (to_chars bs) = length bs"
  by (simp add: to_chars_def)

lemma to_chars_append [simp]: "to_chars (xs @ ys) = to_chars xs @ to_chars ys"
  by (simp add: to_chars_def)

lemma to_chars_take: "to_chars (take n bs) = take n (to_chars bs)"
  by (simp add: to_chars_def take_map)

lemma overlay_full: "length xs = length ys \<Longrightarrow> overlay xs 0 ys = ys"
  by (simp add: overlay_def)

lemma recv_head_loop_keeps:
  assumes "recv_head_loop ex err fin rd buff_size parser data offset s = Some (Inr (r, s'))" "\<And>s n. f (snd (rd s n)) = f s"
  shows "f s' = f s"
proof -
  have "(\<forall>s n. f (snd (rd s n)) = f s) \<longrightarrow>
      (\<forall>q t. (Inr (r, s') :: (('a \<times> string \<times> int) option \<times> 'b) result) = Inr (q, t) \<longrightarrow> f t = f s)"
  proof (rule recv_head_loop.raw_induct [where P = "\<lambda>ex err fin rd buff_size parser data offset s y.
      (\<forall>s n. f (snd (rd s n)) = f s) \<longrightarrow> (\<forall>q t. y = Inr (q, t) \<longrightarrow> f t = f s)", OF _ assms(1)], intro impI allI, goal_cases)
    case (1 g ex err fin rd buff_size parser data offset s y z t)
    obtain q bs s1 where rd: "rd s (buff_size - word_of_int offset) = ((q, bs), s1)" by (metis surj_pair)
    then have s1: "f s1 = f s" using 1(3) by (metis snd_conv)
    show ?case
    proof (cases "ex (data @ to_chars bs) parser")
      case (Inl e)
      then show ?thesis using 1(2,4) s1 unfolding rd Let_def by (auto split: if_splits)
    next
      case (Inr w)
      obtain np d1 p1 where w: "w = (np, d1, p1)" by (cases w)
      have "t = s1 \<or> g ex err fin rd buff_size p1 d1 (sint q + offset - int np) s1 = Some y"
        using 1(2,4) Inr unfolding rd Let_def w by (auto split: if_splits)
      then show ?thesis using 1(1) 1(3,4) s1 by metis
    qed
  qed
  then show ?thesis using assms(2) by blast
qed

lemma fixed_body_keeps:
  assumes "recv_fixed_body rd n data offset s = Some (Inr (r, s'))" "\<And>s n. f (snd (rd s n)) = f s"
  shows "f s' = f s"
  using assms(1) readFixSize_loop_keeps [where f = f and rd = rd, OF _ assms(2)]
  by (auto simp: recv_fixed_body_def readFixSize_def Let_def split: if_splits option.splits sum.splits)

text \<open>What a generated machine promises: it reads at most the buffer, and \<open>execute\<close> moves the rest to the front.\<close>

definition consumes :: "(string \<Rightarrow> 'q \<Rightarrow> (nat \<times> string \<times> 'q) result) \<Rightarrow> bool" where
  "consumes ex \<longleftrightarrow> (\<forall>d p n d' p'. ex d p = Inr (n, d', p') \<longrightarrow> n \<le> length d \<and> d' = drop n d)"

definition reads_buffer :: "('p, 'e, 'z) machine_scheme \<Rightarrow> bool" where
  "reads_buffer mc \<longleftrightarrow> (\<forall>p d n p' evs. mc_execute mc p d = Inr (n, p', evs) \<longrightarrow> n \<le> length d)"

lemma request_consumes: "reads_buffer mc \<Longrightarrow> consumes (request_execute mc)"
  unfolding consumes_def reads_buffer_def request_execute_def by (auto simp: result_iff) blast

lemma response_consumes: "reads_buffer mc \<Longrightarrow> consumes (\<lambda>d. response_execute mc d chunck)"
  unfolding consumes_def reads_buffer_def response_execute_def by (auto simp: result_iff Let_def) blast+

lemma map_sum_Inr_iff: "map_sum id g z = Inr y \<longleftrightarrow> (\<exists>x. z = Inr x \<and> g x = y)"
  by (cases z) auto

lemma sint_ucast_small:
  fixes n :: u64
  assumes "unat n < 2 ^ 31"
  shows "sint (ucast n :: u32) = int (unat n)"
proof -
  have "int (unat n) < 2 ^ 31" using assms of_nat_less_iff [where ?'a = int, of "unat n" "2 ^ 31"] by simp
  then have "uint n < 2 ^ 31" by (simp only: uint_nat)
  moreover have "- (2 ^ 31) \<le> uint n" by (rule order_trans [OF _ uint_ge_0]) simp
  ultimately show ?thesis by (simp add: signed_ucast_eq signed_take_bit_int_eq_self)
qed

text \<open>The loop over the head as \<open>recvRequest\<close> starts it, when it has found the end of the head: the parser, the rest of
  the buffer and the stream, together an end of the input.\<close>

definition head_parsed ::
  "('p, request_event) machine \<Rightarrow> parser_limits \<Rightarrow> ('s \<Rightarrow> u64 \<Rightarrow> (u32 \<times> u8 list) \<times> 's) \<Rightarrow> ('s \<Rightarrow> u8 list) \<Rightarrow> 's
     \<Rightarrow> 'p HttpRequestParser \<Rightarrow> nat \<Rightarrow> bool" where
  "head_parsed mc limits rd pending s parser j \<longleftrightarrow>
     \<not> request_hasError mc parser \<and> request_isFinished mc parser \<noteq> 0
     \<and> (\<exists>data s1. recv_head_loop (request_execute mc) (request_hasError mc) (request_isFinished mc) rd
          (s_http_request_buffer_size limits) (new_HttpRequestParser mc) [] 0 s
          = Some (Inr (Some (parser, data, int (length data)), s1))
        \<and> data @ to_chars (pending s1) = drop j (to_chars (pending s)))"

lemma small_body: "n < 2 ^ 62 \<longleftrightarrow> \<not> (2 ^ 62 :: int) \<le> int n"
  by (simp add: not_le)

context byte_source
begin

text \<open>The body is exactly the next \<open>n\<close> bytes of buffer and stream; bytes of the buffer behind the body are
  dropped.  A rest whose length has the sign bit of an \<open>int\<close> set counts as an error.\<close>

lemma fixed_body_buffered:
  assumes "n \<le> length data" "n < 2 ^ 62"
  shows "recv_fixed_body rd (int n) data (int (length data)) s = Some (Inr (Some (take n data), s))"
  using assms small_body [of n] by (auto simp: recv_fixed_body_def Let_def)

lemma fixed_body_rest:
  assumes "n < 2 ^ 62" "length data < n"
  defines "m \<equiv> n - length data"
  shows "\<exists>s'. recv_fixed_body rd (int n) data (int (length data)) s =
      Some (Inr (if m \<le> length (pending s) \<and> 0 < sint (ucast (word_of_nat m :: u64) :: u32)
                 then Some (take n (data @ to_chars (pending s))) else None, s'))
    \<and> pending s' = drop m (pending s)"
proof -
  have "m < 2 ^ LENGTH(64)" using assms(1) by (simp add: m_def)
  then have m: "unat (word_of_nat m :: u64) = m" by (rule unat_of_nat_small)
  have md: "int n - int (length data) = int m" using assms(2) by (simp add: m_def)
  obtain s' where s': "readFixSize rd s (replicate m 0) (word_of_nat m) =
      Some (Inr (if m \<le> length (pending s) then ucast (word_of_nat m :: u64) else 0,
                 overlay (replicate m 0) 0 (take m (pending s)), s'))"
      "pending s' = drop m (pending s)"
    using readFixSize_ok [of "word_of_nat m" "replicate m 0" s] m \<open>m < _\<close> by auto
  have "recv_fixed_body rd (int n) data (int (length data)) s =
      (case readFixSize rd s (replicate m 0) (word_of_nat m) of
         None \<Rightarrow> None
       | Some (Inl e) \<Rightarrow> Some (Inl e)
       | Some (Inr (r, buf, s)) \<Rightarrow>
           if sint r \<le> 0 then Some (Inr (None, s)) else Some (Inr (Some (data @ to_chars buf), s)))"
    using assms(2) md assms(1) [unfolded small_body] unfolding recv_fixed_body_def by (simp del: of_nat_diff)
  moreover have "data @ to_chars (overlay (replicate m 0) 0 (take m (pending s))) = take n (data @ to_chars (pending s))"
    if "m \<le> length (pending s)"
    using that assms(2) by (simp add: overlay_full to_chars_take m_def)
  ultimately show ?thesis using s' by (auto simp: not_le)
qed

lemma fixed_body_ok:
  assumes "n < 2 ^ 62"
  shows "\<exists>body s'. recv_fixed_body rd (int n) data (int (length data)) s = Some (Inr (body, s'))
    \<and> length (pending s') \<le> length (pending s)
    \<and> (case body of None \<Rightarrow> True
       | Some b \<Rightarrow> b = take n (data @ to_chars (pending s)) \<and> length b = n)"
proof (cases "n \<le> length data")
  case True
  then show ?thesis using fixed_body_buffered [OF True assms] by simp
next
  case False
  then show ?thesis using fixed_body_rest [of n data s] assms by (fastforce simp: min_def split: if_splits)
qed

lemma fixed_body_too_long: "2 ^ 62 \<le> n \<Longrightarrow> recv_fixed_body rd n data offset s = Some (Inl resize_error)"
  by (simp add: recv_fixed_body_def)

text \<open>The loop over the head ends, and what is left in buffer and stream is an end of what was there.\<close>

definition unread :: "string \<Rightarrow> 's \<Rightarrow> string" where
  "unread data s = data @ to_chars (pending s)"

definition head_done ::
  "('q \<Rightarrow> bool) \<Rightarrow> ('q \<Rightarrow> int) \<Rightarrow> u64 \<Rightarrow> string \<Rightarrow> ('q \<times> string \<times> int) option \<Rightarrow> 's \<Rightarrow> bool" where
  "head_done err fin buff_size input r s' \<longleftrightarrow>
     (case r of None \<Rightarrow> True
      | Some (parser', data', offset) \<Rightarrow>
          offset = int (length data') \<and> \<not> err parser' \<and> fin parser' \<noteq> 0
          \<and> length data' < unat buff_size \<and> (\<exists>j. unread data' s' = drop j input))"

lemma head_done_drop: "head_done err fin buff_size (drop j input) r s' \<Longrightarrow> head_done err fin buff_size input r s'"
  by (auto simp: head_done_def split: option.splits)

lemma recv_head_loop_ok:
  assumes "consumes ex" "length data < unat buff_size" "unat buff_size < 2 ^ 31"
  shows "(\<exists>e d q. recv_head_loop ex err fin rd buff_size parser data (int (length data)) s = Some (Inl e) \<and> ex d q = Inl e)
    \<or> (\<exists>r s'. recv_head_loop ex err fin rd buff_size parser data (int (length data)) s = Some (Inr (r, s'))
      \<and> head_done err fin buff_size (unread data s) r s' \<and> (r \<noteq> None \<longrightarrow> length (pending s') < length (pending s)))"
  using assms(2)
proof (induction "length (pending s)" arbitrary: s parser data rule: less_induct)
  case less
  let ?n = "buff_size - word_of_int (int (length data)) :: u64"
  have un: "unat ?n = unat buff_size - length data"
    using sub_word_of_nat [of "length data" buff_size] less.prems by simp
  then have n: "0 < ?n" using less.prems by (simp add: unat_gt_0 word_neq_0_conv [symmetric] flip: unat_eq_zero)
  show ?case
  proof (cases "pending s = []")
    case True
    then obtain s' where "rd s ?n = ((0, []), s')" using rd_end by blast
    then show ?thesis by (subst recv_head_loop.simps) (simp add: head_done_def)
  next
    case False
    then obtain k s1 where k: "rd s ?n = ((word_of_nat k, take k (pending s)), s1)" "0 < k" "k \<le> unat ?n"
        "k \<le> length (pending s)" "k < 2 ^ 31" "pending s1 = drop k (pending s)"
      using rd_data [OF False n] by blast
    have sk: "sint (word_of_nat k :: u32) = int k" using k(5) by (simp add: signed_of_nat signed_take_bit_int_eq_self)
    let ?d = "data @ to_chars (take k (pending s))"
    show ?thesis
    proof (cases "ex ?d parser")
      case (Inl e)
      have "recv_head_loop ex err fin rd buff_size parser data (int (length data)) s = Some (Inl e)"
        by (subst recv_head_loop.simps) (use k(1,2) sk Inl in \<open>simp add: Let_def\<close>)
      then show ?thesis using Inl by blast
    next
    case (Inr w)
    then obtain np d1 p1 where ex: "ex ?d parser = Inr (np, d1, p1)" by (cases w) auto
    then have d1: "np \<le> length ?d" "d1 = drop np ?d" using assms(1) unfolding consumes_def by blast+
    have off: "int k + int (length data) - int np = int (length d1)" using d1 k(4) by simp
    have "unread data s = ?d @ to_chars (pending s1)"
      using to_chars_append [of "take k (pending s)" "drop k (pending s)"] by (simp add: unread_def k(6))
    then have u1: "unread d1 s1 = drop np (unread data s)" using d1 by (simp add: unread_def)
    have step: "recv_head_loop ex err fin rd buff_size parser data (int (length data)) s =
        (if err p1 then Some (Inr (None, s1))
         else if int (length d1) = int (unat buff_size) then Some (Inr (None, s1))
         else if fin p1 \<noteq> 0 then Some (Inr (Some (p1, d1, int (length d1)), s1))
         else recv_head_loop ex err fin rd buff_size p1 d1 (int (length d1)) s1)"
      by (subst recv_head_loop.simps) (use k(1,2) sk ex sint_ucast_small [OF assms(3)] off in \<open>simp add: Let_def\<close>)
    have shorter: "length (pending s1) < length (pending s)" using k(2,4,6) by simp
    have "length d1 \<le> unat buff_size" using d1 k(3,4) un less.prems by simp
    moreover have "(\<exists>e d q. recv_head_loop ex err fin rd buff_size p1 d1 (int (length d1)) s1 = Some (Inl e) \<and> ex d q = Inl e)
      \<or> (\<exists>r s'. recv_head_loop ex err fin rd buff_size p1 d1 (int (length d1)) s1 = Some (Inr (r, s'))
        \<and> head_done err fin buff_size (unread data s) r s' \<and> (r \<noteq> None \<longrightarrow> length (pending s') < length (pending s)))"
      if small: "length d1 < unat buff_size"
      using less.hyps [OF shorter small, of p1] shorter head_done_drop [of err fin buff_size np "unread data s"] less_trans
      unfolding u1 by blast
    ultimately show ?thesis using step u1 shorter by (auto simp: head_done_def le_less)
    qed
  qed
qed

lemma recv_head_loop_start:
  assumes "consumes ex" "0 < unat buff_size" "unat buff_size < 2 ^ 31"
  shows "(\<exists>e d q. recv_head_loop ex err fin rd buff_size parser [] 0 s = Some (Inl e) \<and> ex d q = Inl e)
    \<or> (\<exists>r s'. recv_head_loop ex err fin rd buff_size parser [] 0 s = Some (Inr (r, s'))
      \<and> head_done err fin buff_size (to_chars (pending s)) r s' \<and> (r \<noteq> None \<longrightarrow> length (pending s') < length (pending s)))"
  using recv_head_loop_ok [OF assms(1), of "[]" buff_size err fin parser s] assms(2,3)
  by (simp only: unread_def list.size(3) int_ops(1) append_Nil simp_thms)

text \<open>\<open>recvRequest\<close> always ends, with an exception of the parser, with that of \<open>body.resize\<close> for a content length no
  string can have, or by returning.  A request it returns was parsed without error; with a positive content
  length its body has that length and stands in the input directly behind the head.\<close>

lemma recvRequest_ok:
  assumes nread: "reads_buffer mc"
    and size: "0 < s_http_request_buffer_size limits" "s_http_request_buffer_size limits < 2 ^ 31"
  shows "(\<exists>e d q. recvRequest mc cast limits rd s = Some (Inl e) \<and> request_execute mc d q = Inl e)
   \<or> (\<exists>parser j. recvRequest mc cast limits rd s = Some (Inl resize_error) \<and> head_parsed mc limits rd pending s parser j
        \<and> 2 ^ 62 \<le> sint (request_getContentLength cast parser))
   \<or> (\<exists>r s'. recvRequest mc cast limits rd s = Some (Inr (r, s'))
    \<and> (r \<noteq> None \<longrightarrow> length (pending s') < length (pending s))
    \<and> (case r of None \<Rightarrow> True
       | Some req \<Rightarrow> \<exists>parser j. head_parsed mc limits rd pending s parser j
           \<and> (let n = sint (request_getContentLength cast parser)
              in if n > 0 then req = (rp_data parser)\<lparr>rq_body := take (nat n) (drop j (to_chars (pending s)))\<rparr>
                   \<and> length (rq_body req) = nat n
                 else req = rp_data parser)))"
    (is "_ \<or> ?resize \<or> (\<exists>r s'. ?returned r s')")
proof -
  let ?bs = "s_http_request_buffer_size limits"
  have bs: "0 < unat ?bs" "unat ?bs < 2 ^ 31"
    using size word_less_nat_alt [of 0 ?bs] word_less_nat_alt [of ?bs "2 ^ 31"] by simp_all
  let ?head = "recv_head_loop (request_execute mc) (request_hasError mc) (request_isFinished mc) rd ?bs
        (new_HttpRequestParser mc) [] 0 s"
  consider e d q where "?head = Some (Inl e)" "request_execute mc d q = Inl e"
    | r s1 where "?head = Some (Inr (r, s1))"
      "head_done (request_hasError mc) (request_isFinished mc) ?bs (to_chars (pending s)) r s1"
      "r \<noteq> None \<longrightarrow> length (pending s1) < length (pending s)"
    using recv_head_loop_start [OF request_consumes [OF nread] bs] by blast
  then show ?thesis
  proof cases
  case 1
  then show ?thesis by (auto simp: recvRequest_def)
  next
  case (2 r s1)
  note r = 2
  show ?thesis
  proof (rule disjI2, cases r)
    case None
    then show "?resize \<or> (\<exists>r s'. ?returned r s')" using r by (simp add: recvRequest_def)
  next
    case (Some q)
    then have shorter: "length (pending s1) < length (pending s)" using r(3) by simp
    from Some obtain parser data j where q: "r = Some (parser, data, int (length data))"
        "\<not> request_hasError mc parser \<and> request_isFinished mc parser \<noteq> 0"
        "data @ to_chars (pending s1) = drop j (to_chars (pending s))"
      using r(2) by (cases q) (auto simp: head_done_def unread_def)
    have parsed: "head_parsed mc limits rd pending s parser j"
      using q r(1) unfolding head_parsed_def by blast
    let ?c = "request_getContentLength cast parser"
    have eq: "recvRequest mc cast limits rd s = recv_body cast rd parser data (int (length data)) s1"
      using r(1) q(1) by (simp add: recvRequest_def)
    show "?resize \<or> (\<exists>r s'. ?returned r s')"
    proof (cases "2 ^ 62 \<le> sint ?c")
      case True
      then have "recvRequest mc cast limits rd s = Some (Inl resize_error)"
        unfolding eq recv_body_def by (simp add: fixed_body_too_long)
      then show ?thesis using True parsed by blast
    next
    case fits: False
    show "?resize \<or> (\<exists>r s'. ?returned r s')"
    proof (rule disjI2, cases "sint ?c \<le> 0")
      case True
      then show "\<exists>r s'. ?returned r s'" using parsed shorter unfolding eq recv_body_def
        by (auto intro!: exI [of _ parser] exI [of _ j])
    next
      case False
      define n where "n = nat (sint ?c)"
      have n: "n < 2 ^ 62" "sint ?c = int n" using False fits by (auto simp: n_def nat_less_iff)
      obtain body s2 where b: "recv_fixed_body rd (int n) data (int (length data)) s1 = Some (Inr (body, s2))"
          "length (pending s2) \<le> length (pending s1)"
          "case body of None \<Rightarrow> True | Some b \<Rightarrow> b = take n (drop j (to_chars (pending s))) \<and> length b = n"
        using fixed_body_ok [OF n(1), of data s1] unfolding q(3) by blast
      show "\<exists>r s'. ?returned r s'"
      proof (cases body)
        case None
        then have "recvRequest mc cast limits rd s = Some (Inr (None, s2))"
          using b(1) n(2) False by (simp add: eq recv_body_def)
        then show ?thesis by auto
      next
        case (Some bd)
        then have r: "recvRequest mc cast limits rd s = Some (Inr (Some ((rp_data parser)\<lparr>rq_body := bd\<rparr>), s2))"
          using b(1) n(2) False by (simp add: eq recv_body_def)
        have "length (pending s2) < length (pending s)" using b(2) shorter by simp
        moreover have "bd = take n (drop j (to_chars (pending s))) \<and> length bd = n"
          using b(3) unfolding Some option.case .
        moreover have "nat (sint ?c) = n" "sint ?c > 0" using n(2) False by simp_all
        ultimately have "case Some ((rp_data parser)\<lparr>rq_body := bd\<rparr>) of None \<Rightarrow> True
            | Some req \<Rightarrow> \<exists>parser j. head_parsed mc limits rd pending s parser j
           \<and> (let n = sint (request_getContentLength cast parser)
              in if n > 0 then req = (rp_data parser)\<lparr>rq_body := take (nat n) (drop j (to_chars (pending s)))\<rparr>
                   \<and> length (rq_body req) = nat n
                 else req = rp_data parser)"
          using parsed unfolding option.case Let_def by (intro exI [of _ parser] exI [of _ j]) (metis HttpRequest.select_convs(7) HttpRequest.update_convs(7) HttpRequest.surjective)
        then show ?thesis using r \<open>length (pending s2) < _\<close> by blast
      qed
    qed
    qed
  qed
  qed
qed

end

context byte_stream
begin

lemma fixed_body_sent:
  "recv_fixed_body rd n data offset s = Some (Inr (r, s')) \<Longrightarrow> sent s' = sent s"
  by (erule fixed_body_keeps [where f = sent]) (rule rd_sent)

lemma recvRequest_sent:
  assumes "recvRequest mc cast limits rd s = Some (Inr (r, s'))"
  shows "sent s' = sent s"
proof -
  obtain q s1 where q: "recv_head_loop (request_execute mc) (request_hasError mc) (request_isFinished mc) rd
      (s_http_request_buffer_size limits) (new_HttpRequestParser mc) [] 0 s = Some (Inr (q, s1))"
    using assms by (auto simp: recvRequest_def split: option.splits sum.splits)
  have s1: "sent s1 = sent s" using q by (rule recv_head_loop_keeps [where f = sent]) (rule rd_sent)
  have "sent s' = sent s1"
  proof (cases q)
    case None
    then show ?thesis using assms q by (simp add: recvRequest_def)
  next
    case (Some p)
    then show ?thesis using assms q
      by (cases p) (auto simp: recvRequest_def recv_body_def Let_def map_sum_Inr_iff split: if_splits dest!: fixed_body_sent)
  qed
  then show ?thesis using s1 by simp
qed

lemma sendResponse_ok:
  assumes "length (HttpResponse_dump rsp) < 2 ^ 64"
  shows "\<exists>r s'. sendResponse wr rsp s = Some (Inr (r, s')) \<and> sent s' = sent s @ of_chars (HttpResponse_dump rsp)
    \<and> pending s' = pending s"
proof -
  let ?d = "of_chars (HttpResponse_dump rsp)"
  have "length ?d < 2 ^ LENGTH(64)" using assms by (simp add: of_chars_def)
  then have n: "unat (word_of_nat (length ?d) :: u64) = length ?d" by (rule unat_of_nat_small)
  obtain s' where s': "writeFixSize wr s ?d (word_of_nat (length ?d)) = Some (Inr (ucast (word_of_nat (length ?d) :: u64), s'))"
      "sent s' = sent s @ ?d"
    using writeFixSize_ok [of "word_of_nat (length ?d)" ?d s] assms unfolding n by (auto simp: of_chars_def)
  then show ?thesis using writeFixSize_pending [OF s'(1)] by (simp add: sendResponse_def Let_def)
qed

end

end
