(* ===== verification/TcpServer.thy ===== *)
theory TcpServer
  imports Socket "HOL-Library.Multiset"
begin

text \<open>
  \<^verbatim>\<open>src/myhttp/tcp_server.h\<close> and \<^verbatim>\<open>tcp_server.cpp\<close>.  Listening sockets are held by \<open>shared_ptr\<close>s of the
  server alone, so an element leaving \<open>m_socks\<close>, or a socket going out of scope, runs \<open>~Socket\<close>, which is
  \<open>close\<close>.  What is handed to \<open>schedule\<close> is returned as a list of tasks in order; a task runs when the
  scheduler picks it.  Each socket operation comes with the answers of the kernel it meets.
\<close>

section \<open>Definitions\<close>

record TcpServer =
  m_socks :: "Socket list"
  ts_recvTimeout :: u64
  ts_name :: string
  m_isStop :: bool

datatype server_task = T_startAccept Socket | T_handleClient Socket | T_stop

definition new_TcpServer :: "u64 \<Rightarrow> TcpServer" where
  "new_TcpServer read_timeout = \<lparr>m_socks = [], ts_recvTimeout = read_timeout, ts_name = ''sylar/1.0.0'', m_isStop = True\<rparr>"

definition SOMAXCONN :: int where "SOMAXCONN = 4096"

text \<open>\<open>~Socket\<close>, and what \<open>clear\<close> does to the sockets of a vector.\<close>

definition delete_Socket :: "Socket \<Rightarrow> sys_call list" where
  "delete_Socket s = snd (snd (Socket_close s))"

definition delete_Sockets :: "Socket list \<Rightarrow> sys_call list" where
  "delete_Sockets ss = concat (map delete_Socket ss)"

text \<open>One round of the loop of \<open>bind\<close>: the socket when it listens, and the calls made.\<close>

definition bind_one :: "sys \<Rightarrow> address \<Rightarrow> (Socket option \<times> sys_call list) result" where
  "bind_one os addr =
     bindR (Socket_bind os addr (CreateTCP addr)) (\<lambda>(ok, sock, cs).
       if \<not> ok then Inr (None, cs @ delete_Socket sock)
       else let (ok, cs') = Socket_listen os SOMAXCONN sock
            in if \<not> ok then Inr (None, cs @ cs' @ delete_Socket sock) else Inr (Some sock, cs @ cs'))"

primrec bind_loop :: "(sys \<times> address) list \<Rightarrow> Socket list \<Rightarrow> address list \<Rightarrow> sys_call list
    \<Rightarrow> (Socket list \<times> address list \<times> sys_call list) result" where
  "bind_loop [] socks fails cs = Inr (socks, fails, cs)"
| "bind_loop (x # xs) socks fails cs =
     bindR (bind_one (fst x) (snd x)) (\<lambda>(r, cs').
       case r of
         None \<Rightarrow> bind_loop xs socks (fails @ [snd x]) (cs @ cs')
       | Some sock \<Rightarrow> bind_loop xs (socks @ [sock]) fails (cs @ cs'))"

definition TcpServer_bind ::
  "(sys \<times> address) list \<Rightarrow> address list \<Rightarrow> TcpServer \<Rightarrow> (bool \<times> address list \<times> TcpServer \<times> sys_call list) result" where
  "TcpServer_bind addrs fails sv =
     bindR (bind_loop addrs (m_socks sv) fails []) (\<lambda>(socks, fails, cs).
       if fails \<noteq> [] then Inr (False, fails, sv\<lparr>m_socks := []\<rparr>, cs @ delete_Sockets socks)
       else Inr (True, fails, sv\<lparr>m_socks := socks\<rparr>, cs))"

definition TcpServer_bind1 :: "sys \<Rightarrow> address \<Rightarrow> TcpServer \<Rightarrow> (bool \<times> TcpServer \<times> sys_call list) result" where
  "TcpServer_bind1 os addr sv = bindR (TcpServer_bind [(os, addr)] [] sv) (\<lambda>(ok, _, sv, cs). Inr (ok, sv, cs))"

text \<open>The accept loop.  Each element of the script is one round: whether \<open>m_isStop\<close> is set when the loop
  looks, the answers of the kernel to \<open>accept\<close>, the context of the new descriptor and the result of the
  \<open>setsockopt\<close>.  The script ends where the fiber waits in \<open>accept\<close>.\<close>

record accept_round =
  ar_stop :: bool
  ar_sys :: sys
  ar_ctx :: "FdCtx option"
  ar_rt :: int

fun startAccept ::
  "u64 \<Rightarrow> accept_round list \<Rightarrow> Socket \<Rightarrow> hook_world \<Rightarrow> (server_task list \<times> bool \<times> hook_world) result" where
  "startAccept timeout [] sock w = Inr ([], False, w)"
| "startAccept timeout (x # xs) sock w =
     (if ar_stop x then Inr ([], True, w)
      else bindR (Socket_accept (ar_sys x) (ar_ctx x) sock) (\<lambda>(client, _).
        case client of
          None \<Rightarrow> startAccept timeout xs sock w
        | Some c \<Rightarrow>
            bindR (setRecvTimeout (sint timeout) (ar_rt x) c w) (\<lambda>w.
              bindR (startAccept timeout xs sock w) (\<lambda>(ts, ended, w). Inr (T_handleClient c # ts, ended, w)))))"

definition TcpServer_start :: "TcpServer \<Rightarrow> bool \<times> TcpServer \<times> server_task list" where
  "TcpServer_start sv =
     (if \<not> m_isStop sv then (True, sv, [])
      else (True, sv\<lparr>m_isStop := False\<rparr>, map T_startAccept (m_socks sv)))"

definition TcpServer_stop :: "TcpServer \<Rightarrow> TcpServer \<times> server_task list" where
  "TcpServer_stop sv = (sv\<lparr>m_isStop := True\<rparr>, [T_stop])"

text \<open>The task \<open>stop\<close> schedules: \<open>cancelAll\<close> and \<open>close\<close> on every socket, then \<open>clear\<close>.\<close>

fun stop_loop :: "bool \<Rightarrow> Socket list \<Rightarrow> IOManager \<Rightarrow> (sys_call list \<times> IOManager) result" where
  "stop_loop ctl_ok [] io = Inr ([], io)"
| "stop_loop ctl_ok (s # ss) io =
     bindR (Socket_cancelAll ctl_ok s io) (\<lambda>(_, io).
       bindR (stop_loop ctl_ok ss io) (\<lambda>(cs, io). Inr (snd (snd (Socket_close s)) @ cs, io)))"

definition stop_task :: "bool \<Rightarrow> TcpServer \<Rightarrow> IOManager \<Rightarrow> (TcpServer \<times> sys_call list \<times> IOManager) result" where
  "stop_task ctl_ok sv io =
     bindR (stop_loop ctl_ok (m_socks sv) io) (\<lambda>(cs, io). Inr (sv\<lparr>m_socks := []\<rparr>, cs, io))"

section \<open>Descriptors of the server\<close>

definition owned_all :: "Socket list \<Rightarrow> int list" where
  "owned_all ss = concat (map owned ss)"

definition opened_by :: "(sys \<times> address) list \<Rightarrow> int list" where
  "opened_by xs = concat (map (\<lambda>(os, a). opened os (CreateTCP a)) xs)"

lemma owned_all_simps [simp]:
  "owned_all [] = []" "owned_all (s # ss) = owned s @ owned_all ss" "owned_all (ss @ ts) = owned_all ss @ owned_all ts"
  by (simp_all add: owned_all_def)

lemma delete_closes [simp]: "closed_by (delete_Socket s) = owned s"
  using close_ok(1) [of s] by (metis delete_Socket_def prod.collapse)

lemma delete_all_closes [simp]: "closed_by (delete_Sockets ss) = owned_all ss"
  by (induction ss) (simp_all add: delete_Sockets_def)

lemma bind_ok:
  assumes "Socket_bind os a s = Inr (b, s', cs)"
  shows "opened os s = owned s'" "closed_by cs = []" "b \<Longrightarrow> m_sock s' \<noteq> - 1"
proof -
  obtain ok s1 cs1 where p: "prepare os a s = (ok, s1, cs1)" by (cases "prepare os a s") auto
  note P = prepare_ok [OF p]
  have "owned s' = owned s1 \<and> closed_by cs = closed_by cs1 \<and> (b \<longrightarrow> ok \<and> m_sock s' = m_sock s1)"
    using assms p by (auto simp: Socket_bind_def Let_def owned_def result_iff split: if_splits dest!: address_keeps)
  then show "opened os s = owned s'" "closed_by cs = []" "b \<Longrightarrow> m_sock s' \<noteq> - 1" using P by auto
qed

text \<open>Every descriptor a round makes is in the socket it returns or is closed.\<close>

lemma bind_one_ok:
  assumes "bind_one os a = Inr (r, cs)"
  shows "opened os (CreateTCP a) = closed_by cs @ (case r of None \<Rightarrow> [] | Some s \<Rightarrow> owned s)"
    "r = Some s \<Longrightarrow> m_sock s \<noteq> - 1 \<and> C_listen (m_sock s) SOMAXCONN \<in> set cs"
proof -
  obtain b s1 cs1 where b: "Socket_bind os a (CreateTCP a) = Inr (b, s1, cs1)"
    using assms by (auto simp: bind_one_def result_iff)
  note B = bind_ok [OF b]
  show "opened os (CreateTCP a) = closed_by cs @ (case r of None \<Rightarrow> [] | Some s \<Rightarrow> owned s)"
    using assms b B by (auto simp: bind_one_def Socket_listen_def Let_def split: if_splits)
  show "r = Some s \<Longrightarrow> m_sock s \<noteq> - 1 \<and> C_listen (m_sock s) SOMAXCONN \<in> set cs"
    using assms b B by (auto simp: bind_one_def Socket_listen_def Let_def isValid_def split: if_splits)
qed

text \<open>What a run of the loop did: \<open>bound\<close> are the sockets it added, \<open>failed\<close> the addresses.\<close>

lemma bind_loop_ok:
  assumes "bind_loop xs socks fails cs = Inr (socks', fails', cs')"
  shows "\<exists>bound failed made. socks' = socks @ bound \<and> fails' = fails @ failed \<and> cs' = cs @ made
    \<and> length bound + length failed = length xs \<and> list_all (\<lambda>s. m_sock s \<noteq> - 1) bound
    \<and> mset (opened_by xs) = mset (closed_by made) + mset (owned_all bound)"
  using assms
proof (induction xs arbitrary: socks fails cs)
  case (Cons x xs)
  obtain r c1 where r: "bind_one (fst x) (snd x) = Inr (r, c1)" using Cons.prems by (auto simp: result_iff)
  note R = bind_one_ok [OF r]
  have op: "opened_by (x # xs) = opened (fst x) (CreateTCP (snd x)) @ opened_by xs"
    by (simp add: opened_by_def split: prod.split)
  show ?case
  proof (cases r)
    case None
    then have "bind_loop xs socks (fails @ [snd x]) (cs @ c1) = Inr (socks', fails', cs')" using Cons.prems r by simp
    from Cons.IH [OF this] obtain bound failed made where *: "socks' = socks @ bound"
        "fails' = fails @ [snd x] @ failed" "cs' = cs @ c1 @ made" "length bound + length failed = length xs"
        "list_all (\<lambda>s. m_sock s \<noteq> - 1) bound" "mset (opened_by xs) = mset (closed_by made) + mset (owned_all bound)"
      by auto
    then show ?thesis using R(1) None op
      by (intro exI [of _ bound] exI [of _ "[snd x] @ failed"] exI [of _ "c1 @ made"]) simp
  next
    case (Some s)
    then have "bind_loop xs (socks @ [s]) fails (cs @ c1) = Inr (socks', fails', cs')" using Cons.prems r by simp
    from Cons.IH [OF this] obtain bound failed made where *: "socks' = socks @ [s] @ bound"
        "fails' = fails @ failed" "cs' = cs @ c1 @ made" "length bound + length failed = length xs"
        "list_all (\<lambda>s. m_sock s \<noteq> - 1) bound" "mset (opened_by xs) = mset (closed_by made) + mset (owned_all bound)"
      by auto
    then show ?thesis using R(1) R(2) [of s] Some op
      by (intro exI [of _ "[s] @ bound"] exI [of _ failed] exI [of _ "c1 @ made"]) simp
  qed
qed (simp add: opened_by_def)

lemma TcpServer_bind_ok:
  assumes "TcpServer_bind addrs [] sv = Inr (ok, fails, sv', cs)"
  shows "ok \<longleftrightarrow> fails = []"
    "ok \<Longrightarrow> length (m_socks sv') = length (m_socks sv) + length addrs
        \<and> (\<exists>bound. m_socks sv' = m_socks sv @ bound \<and> list_all (\<lambda>s. m_sock s \<noteq> - 1) bound)"
    "\<not> ok \<Longrightarrow> m_socks sv' = []"
    "mset (owned_all (m_socks sv)) + mset (opened_by addrs) = mset (closed_by cs) + mset (owned_all (m_socks sv'))"
proof -
  obtain socks cs1 where l: "bind_loop addrs (m_socks sv) [] [] = Inr (socks, fails, cs1)"
      and res: "(ok, sv', cs) = (if fails \<noteq> [] then (False, sv\<lparr>m_socks := []\<rparr>, cs1 @ delete_Sockets socks)
                                 else (True, sv\<lparr>m_socks := socks\<rparr>, cs1))"
    using assms by (auto simp: TcpServer_bind_def result_iff split: if_splits)
  obtain bound where b: "socks = m_socks sv @ bound" "length bound + length fails = length addrs"
      "list_all (\<lambda>s. m_sock s \<noteq> - 1) bound" "mset (opened_by addrs) = mset (closed_by cs1) + mset (owned_all bound)"
    using bind_loop_ok [OF l] by auto
  show "ok \<longleftrightarrow> fails = []" "\<not> ok \<Longrightarrow> m_socks sv' = []" using res by (auto split: if_splits)
  show "ok \<Longrightarrow> length (m_socks sv') = length (m_socks sv) + length addrs
        \<and> (\<exists>bound. m_socks sv' = m_socks sv @ bound \<and> list_all (\<lambda>s. m_sock s \<noteq> - 1) bound)"
    using res b by (auto split: if_splits)
  show "mset (owned_all (m_socks sv)) + mset (opened_by addrs) = mset (closed_by cs) + mset (owned_all (m_socks sv'))"
    using res b by (auto split: if_splits simp: ac_simps)
qed

section \<open>Start and stop\<close>

text \<open>Once \<open>m_isStop\<close> is seen no client is taken; before, every accepted client is handed on, in order, with
  the receive timeout of the server.\<close>

lemma startAccept_stop: "ar_stop x \<Longrightarrow> startAccept t (x # xs) sock w = Inr ([], True, w)"
  by simp

lemma stop_loop_closes:
  "stop_loop ctl_ok ss io = Inr (cs, io') \<Longrightarrow> closed_by cs = owned_all ss"
proof (induction ss arbitrary: io cs)
  case (Cons s ss)
  then show ?case using delete_closes [of s] by (fastforce simp: result_iff delete_Socket_def)
qed simp

lemma stop_task_ok:
  "stop_task ctl_ok sv io = Inr (sv', cs, io') \<Longrightarrow> m_socks sv' = [] \<and> closed_by cs = owned_all (m_socks sv)"
  by (auto simp: stop_task_def result_iff dest: stop_loop_closes)

end
