(* ===== verification/Uri.thy ===== *)
theory Uri
  imports Address
begin

text \<open>
  \<^verbatim>\<open>src/myhttp/uri.h\<close> and the hand-written methods of \<^verbatim>\<open>uri.rl\<close> (as they stand at the end of
  \<^verbatim>\<open>uri.rl.cc\<close>).  The generated machine behind \<open>Uri::Create\<close> is a parameter of the definitions that call
  it.  \<open>int32_t\<close> is a 32-bit word.
\<close>

section \<open>Definitions\<close>

record Uri =
  m_scheme :: string
  m_userinfo :: string
  m_host :: string
  m_port :: u32
  m_path :: string
  m_query :: string
  m_fragment :: string

definition new_Uri :: Uri where
  "new_Uri = \<lparr>m_scheme = [], m_userinfo = [], m_host = [], m_port = 0, m_path = [], m_query = [], m_fragment = []\<rparr>"

definition Uri_isDefaultPort :: "Uri \<Rightarrow> bool" where
  "Uri_isDefaultPort u =
     (if m_port u = 0 then True
      else if m_scheme u = ''http'' \<or> m_scheme u = ''ws'' then m_port u = 80
      else if m_scheme u = ''https'' \<or> m_scheme u = ''wss'' then m_port u = 443
      else False)"

definition Uri_getPath :: "Uri \<Rightarrow> string" where
  "Uri_getPath u = (if m_path u = [] then ''/'' else m_path u)"

definition Uri_getPort :: "Uri \<Rightarrow> u32" where
  "Uri_getPort u =
     (if m_port u \<noteq> 0 then m_port u
      else if m_scheme u = ''http'' \<or> m_scheme u = ''ws'' then 80
      else if m_scheme u = ''https'' \<or> m_scheme u = ''wss'' then 443
      else m_port u)"

definition Uri_dump :: "Uri \<Rightarrow> string" where
  "Uri_dump u =
     m_scheme u @ ''://'' @ m_userinfo u @ (if m_userinfo u = [] then [] else ''@'') @ m_host u
     @ (if Uri_isDefaultPort u then [] else '':'' @ int_to_string (sint (m_port u)))
     @ Uri_getPath u
     @ (if m_query u = [] then [] else ''?'') @ m_query u
     @ (if m_fragment u = [] then [] else ''#'') @ m_fragment u"

definition Uri_toString :: "Uri \<Rightarrow> string" where
  "Uri_toString u = Uri_dump u"

text \<open>\<open>LookupAnyIPAddress\<close> with its default family, type and protocol; the port is cut to 16 bits.\<close>

definition Uri_createAddress :: "getaddrinfo \<Rightarrow> Uri \<Rightarrow> address option" where
  "Uri_createAddress getaddrinfo u =
     map_option (\<lambda>addr. setPort addr (ucast (Uri_getPort u))) (LookupAnyIPAddress getaddrinfo (m_host u) AF_UNSPEC 0 0)"

text \<open>Path, query and fragment as the connection pool joins them.\<close>

definition Uri_target :: "Uri \<Rightarrow> string" where
  "Uri_target u =
     Uri_getPath u @ (if m_query u = [] then [] else ''?'') @ m_query u
     @ (if m_fragment u = [] then [] else ''#'') @ m_fragment u"

section \<open>Lemmas\<close>

lemma dump_target: "\<exists>authority. Uri_dump u = m_scheme u @ ''://'' @ authority @ Uri_target u"
  by (simp add: Uri_dump_def Uri_target_def)

lemma default_port_iff:
  "m_port u \<noteq> 0 \<Longrightarrow> Uri_isDefaultPort u \<longleftrightarrow> m_port u = Uri_getPort (u\<lparr>m_port := 0\<rparr>)"
  by (auto simp: Uri_isDefaultPort_def Uri_getPort_def)

lemma createAddress_port:
  assumes "Uri_createAddress ga u = Some a" "unat (Uri_getPort u) < 2 ^ 16"
  shows "\<exists>p. getPort a = Some p \<and> unat p = unat (Uri_getPort u)"
proof -
  obtain b where b: "LookupAnyIPAddress ga (m_host u) AF_UNSPEC 0 0 = Some b" "a = setPort b (ucast (Uri_getPort u))"
    using assms(1) by (auto simp: Uri_createAddress_def)
  have "as_IPAddress (Some b) = Some b"
    using b(1) by (auto simp: LookupAnyIPAddress_def as_IPAddress_def split: option.splits address.splits)
  then have "getPort a = Some (ucast (Uri_getPort u))"
    unfolding b(2)
    by (auto simp: as_IPAddress_def setPort_def getPort_def IPv4_getPort_def IPv4_setPort_def IPv6_getPort_def
        IPv6_setPort_def byteswapOnLittleEndian_invol split: address.splits)
  moreover have "unat (ucast (Uri_getPort u) :: u16) = unat (Uri_getPort u)"
    using assms(2) by (simp add: unsigned_ucast_eq take_bit_nat_eq_self)
  ultimately show ?thesis by blast
qed

end
