(* ===== verification/HttpConnection.thy ===== *)
theory HttpConnection
  imports HttpSession TcpServer Uri
begin

text \<open>
  \<^verbatim>\<open>src/myhttp/http/http_connection.h\<close> and \<^verbatim>\<open>http_connection.cpp\<close>: the client side of a connection and the
  pool of connections.  The generated response machine is the parameter \<open>mc\<close> with the fields the code
  reads from it (\<open>chunk_info\<close>); everything a request meets outside the program is the record
  \<open>client_env\<close>.  A connection owns its socket, so deleting it is \<open>~Socket\<close>.
\<close>

section \<open>Results\<close>

datatype HttpResult_Error =
    OK | INVALID_URL | INVALID_HOST | CONNECT_FAIL | SEND_CLOSE_BY_PEER | SEND_SOCKET_ERROR | TIMEOUT
  | CREATE_SOCKET_ERROR | POOL_GET_CONNECTION | POOL_INVALID_CONNECTION

primrec error_number :: "HttpResult_Error \<Rightarrow> nat" where
  "error_number OK = 0" | "error_number INVALID_URL = 1" | "error_number INVALID_HOST = 2"
| "error_number CONNECT_FAIL = 3" | "error_number SEND_CLOSE_BY_PEER = 4" | "error_number SEND_SOCKET_ERROR = 5"
| "error_number TIMEOUT = 6" | "error_number CREATE_SOCKET_ERROR = 7" | "error_number POOL_GET_CONNECTION = 8"
| "error_number POOL_INVALID_CONNECTION = 9"

record HttpResult =
  hr_result :: HttpResult_Error
  hr_response :: "HttpResponse option"
  hr_error :: string

definition HttpResult_toString :: "HttpResult \<Rightarrow> string" where
  "HttpResult_toString r =
     ''[HttpResult result='' @ nat_to_string (error_number (hr_result r)) @ '' error='' @ hr_error r
     @ '' response='' @ (case hr_response r of Some rsp \<Rightarrow> HttpResponse_toString rsp | None \<Rightarrow> ''nullptr'') @ '']''"

definition http_fail :: "HttpResult_Error \<Rightarrow> string \<Rightarrow> HttpResult" where
  "http_fail e msg = \<lparr>hr_result = e, hr_response = None, hr_error = msg\<rparr>"

section \<open>Receiving a response\<close>

text \<open>The fields of \<open>httpclient_parser\<close> the code reads.\<close>

record 'p chunk_info =
  ci_chunked :: "'p \<Rightarrow> bool"
  ci_content_len :: "'p \<Rightarrow> int"
  ci_chunks_done :: "'p \<Rightarrow> bool"

text \<open>The \<open>while(left > 0)\<close> loop for a chunk that is not yet in the buffer.\<close>

partial_function (option) recv_chunk_rest ::
  "('s \<Rightarrow> u64 \<Rightarrow> (u32 \<times> u8 list) \<times> 's) \<Rightarrow> int \<Rightarrow> int \<Rightarrow> string \<Rightarrow> 's \<Rightarrow> (string option \<times> 's) option"
where
  "recv_chunk_rest rd buff_size left body s =
     (if left > 0 then
        (case rd s (word_of_int (if left > buff_size then buff_size else left)) of ((r, bs), s) \<Rightarrow>
           if sint r \<le> 0 then Some (None, s)
           else recv_chunk_rest rd buff_size (left - sint r) (body @ to_chars bs) s)
      else Some (Some body, s))"

text \<open>What follows the head of a chunk: two bytes are cut off the end of the buffered bytes, then the chunk is
  taken from the buffer or completed from the stream.  \<open>append\<close> with a negative length throws.\<close>

definition recv_chunk_data ::
  "('s \<Rightarrow> u64 \<Rightarrow> (u32 \<times> u8 list) \<times> 's) \<Rightarrow> int \<Rightarrow> int \<Rightarrow> string \<Rightarrow> int \<Rightarrow> string \<Rightarrow> 's
     \<Rightarrow> ((string \<times> string) option \<times> 's) result option" where
  "recv_chunk_data rd buff_size content_len body len data s =
     (let len = len - 2
      in if content_len \<le> len then
           (if content_len < 0 then Some (Inl NegativeSize)
            else Some (Inr (Some (body @ take (nat content_len) data, drop (nat content_len) (take (nat len) data)), s)))
         else if len < 0 then Some (Inl NegativeSize)
         else (case recv_chunk_rest rd buff_size (content_len - len) (body @ take (nat len) data) s of
                 None \<Rightarrow> None
               | Some (None, s) \<Rightarrow> Some (Inr (None, s))
               | Some (Some body, s) \<Rightarrow> Some (Inr (Some (body, []), s))))"

partial_function (option) recv_chunks ::
  "('p, response_event) machine \<Rightarrow> 'p chunk_info \<Rightarrow> ('s \<Rightarrow> u64 \<Rightarrow> (u32 \<times> u8 list) \<times> 's) \<Rightarrow> u64
     \<Rightarrow> 'p HttpResponseParser \<Rightarrow> string \<Rightarrow> string \<Rightarrow> 's \<Rightarrow> (('p HttpResponseParser \<times> string) option \<times> 's) result option"
where
  "recv_chunks mc ci rd buff_size parser body data s =
     (case recv_head_loop (\<lambda>d. response_execute mc d True) (response_hasError mc) (response_isFinished mc) rd
         buff_size parser data (int (length data)) s of
        None \<Rightarrow> None
      | Some (Inl e) \<Rightarrow> Some (Inl e)
      | Some (Inr (None, s)) \<Rightarrow> Some (Inr (None, s))
      | Some (Inr (Some (parser, data, len), s)) \<Rightarrow>
          (case recv_chunk_data rd (sint (ucast buff_size :: u32)) (ci_content_len ci (sp_parser parser)) body len data s of
             None \<Rightarrow> None
           | Some (Inl e) \<Rightarrow> Some (Inl e)
           | Some (Inr (None, s)) \<Rightarrow> Some (Inr (None, s))
           | Some (Inr (Some (body, data), s)) \<Rightarrow>
               if ci_chunks_done ci (sp_parser parser) then Some (Inr (Some (parser, body), s))
               else recv_chunks mc ci rd buff_size parser body data s))"

definition recvResponse ::
  "('p, response_event) machine \<Rightarrow> 'p chunk_info \<Rightarrow> (string \<Rightarrow> u64 option) \<Rightarrow> parser_limits
     \<Rightarrow> ('s \<Rightarrow> u64 \<Rightarrow> (u32 \<times> u8 list) \<times> 's) \<Rightarrow> 's \<Rightarrow> (HttpResponse option \<times> 's) result option" where
  "recvResponse mc ci lexical_cast limits rd s =
     (let buff_size = s_http_response_buffer_size limits
      in case recv_head_loop (\<lambda>d. response_execute mc d False) (response_hasError mc) (response_isFinished mc) rd
             buff_size (new_HttpResponseParser mc) [] 0 s of
           None \<Rightarrow> None
         | Some (Inl e) \<Rightarrow> Some (Inl e)
         | Some (Inr (None, s)) \<Rightarrow> Some (Inr (None, s))
         | Some (Inr (Some (parser, data, offset), s)) \<Rightarrow>
             if ci_chunked ci (sp_parser parser)
             then map_option (map_sum id (apfst (map_option (\<lambda>(parser, body). (sp_data parser)\<lparr>rs_body := body\<rparr>))))
                    (recv_chunks mc ci rd buff_size parser [] data s)
             else (let n = sint (response_getContentLength lexical_cast parser)
                   in if n > 0
                      then map_option (map_sum id (apfst (map_option (\<lambda>body. (sp_data parser)\<lparr>rs_body := body\<rparr>))))
                             (recv_fixed_body rd n data offset s)
                      else Some (Inr (Some (sp_data parser), s))))"

definition sendRequest ::
  "('s \<Rightarrow> u8 list \<Rightarrow> u32 \<times> 's) \<Rightarrow> HttpRequest \<Rightarrow> 's \<Rightarrow> (u32 \<times> 's) result option" where
  "sendRequest wr req s =
     (case HttpRequest_dump req of
        Inl e \<Rightarrow> Some (Inl e)
      | Inr text \<Rightarrow> let data = of_chars text in writeFixSize wr s data (word_of_nat (length data)))"

section \<open>One exchange\<close>

record ('p, 'k) client_env =
  ce_getaddrinfo :: getaddrinfo
  ce_sys :: sys
  ce_setsockopt :: int
  ce_recv :: "int \<Rightarrow> nat \<Rightarrow> 'k \<Rightarrow> (int \<times> u8 list) \<times> 'k"
  ce_send :: "int \<Rightarrow> u8 list \<Rightarrow> 'k \<Rightarrow> int \<times> 'k"
  ce_machine :: "('p, response_event) machine"
  ce_chunks :: "'p chunk_info"
  ce_cast :: "string \<Rightarrow> u64 option"
  ce_limits :: parser_limits
  ce_errno :: "int \<times> string"

text \<open>Sending and receiving, as \<open>DoRequest\<close> and \<open>doRequest\<close> end; \<open>peer\<close> is the text of the remote address,
  which is only computed for an error.\<close>

definition peer_fail ::
  "HttpResult_Error \<Rightarrow> string \<Rightarrow> string result \<Rightarrow> string \<Rightarrow> 'k \<Rightarrow> (HttpResult \<times> 'k) result" where
  "peer_fail e before peer after k = bindR peer (\<lambda>text. Inr (http_fail e (before @ text @ after), k))"

definition exchange ::
  "('p, 'k) client_env \<Rightarrow> string result \<Rightarrow> HttpRequest \<Rightarrow> u64 \<Rightarrow> Socket \<Rightarrow> 'k \<Rightarrow> (HttpResult \<times> 'k) result option" where
  "exchange env peer req timeout_ms sock k =
     (case sendRequest (SocketStream_write (ce_send env) (Some sock)) req k of
        None \<Rightarrow> None
      | Some (Inl e) \<Rightarrow> Some (Inl e)
      | Some (Inr (rt, k)) \<Rightarrow>
          if sint rt = 0 then Some (peer_fail SEND_CLOSE_BY_PEER ''send request closed by peer: '' peer [] k)
          else if sint rt < 0 then
            Some (peer_fail SEND_SOCKET_ERROR ''send request socket error errno= '' peer ('' errstr='' @ snd (ce_errno env)) k)
          else (case recvResponse (ce_machine env) (ce_chunks env) (ce_cast env) (ce_limits env)
                    (SocketStream_read (ce_recv env) (Some sock)) k of
                  None \<Rightarrow> None
                | Some (Inl e) \<Rightarrow> Some (Inl e)
                | Some (Inr (None, k)) \<Rightarrow>
                    Some (peer_fail TIMEOUT ''recv response timeout: '' peer
                      ('' timeout_ms:'' @ nat_to_string (unat timeout_ms)) k)
                | Some (Inr (Some rsp, k)) \<Rightarrow> Some (Inr (\<lparr>hr_result = OK, hr_response = Some rsp, hr_error = ''ok''\<rparr>, k))))"

text \<open>The loop over the headers: the flag \<open>has_host\<close> and the request.\<close>

definition add_header :: "string \<times> string \<Rightarrow> bool \<times> HttpRequest \<Rightarrow> bool \<times> HttpRequest" where
  "add_header = (\<lambda>(k, v) (has_host, req).
     if strcasecmp k ''connection'' = 0
     then (has_host, if strcasecmp v ''keep-alive'' = 0 then req\<lparr>rq_close := False\<rparr> else req)
     else (if \<not> has_host \<and> strcasecmp k ''host'' = 0 then v \<noteq> [] else has_host, setHeader req k v))"

definition add_headers :: "MapType \<Rightarrow> string \<Rightarrow> HttpRequest \<Rightarrow> HttpRequest" where
  "add_headers headers host req =
     (let (has_host, req) = fold add_header headers (False, req)
      in if has_host then req else setHeader req ''Host'' host)"

section \<open>HttpConnection\<close>

text \<open>\<open>DoRequest(req, uri, timeout_ms)\<close>; the calls include those of the destructors of socket and connection.\<close>

definition Connection_DoRequest ::
  "('p, 'k) client_env \<Rightarrow> HttpRequest \<Rightarrow> Uri \<Rightarrow> u64 \<Rightarrow> hook_world \<Rightarrow> 'k
     \<Rightarrow> (HttpResult \<times> sys_call list \<times> hook_world \<times> 'k) result option" where
  "Connection_DoRequest env req uri timeout_ms w k =
     (case Uri_createAddress (ce_getaddrinfo env) uri of
        None \<Rightarrow> Some (Inr (http_fail INVALID_HOST (''invalid host: '' @ m_host uri), [], w, k))
      | Some addr \<Rightarrow>
          (case Socket_connect (ce_sys env) addr (- 1) (CreateTCP addr) of
             Inl e \<Rightarrow> Some (Inl e)
           | Inr (False, sock, cs) \<Rightarrow>
               Some (bindR (peer_fail CONNECT_FAIL ''connect fail: '' (Address_toString addr) [] k) (\<lambda>(res, k).
                 Inr (res, cs @ delete_Socket sock, w, k)))
           | Inr (True, sock, cs) \<Rightarrow>
               (case setRecvTimeout (sint timeout_ms) (ce_setsockopt env) sock w of
                  Inl e \<Rightarrow> Some (Inl e)
                | Inr w \<Rightarrow>
                    map_option (map_sum id (\<lambda>(res, k). (res, cs @ delete_Socket sock, w, k)))
                      (exchange env (Address_toString addr) req timeout_ms sock k))))"

definition Connection_DoRequest_uri ::
  "('p, 'k) client_env \<Rightarrow> HttpMethod \<Rightarrow> Uri \<Rightarrow> u64 \<Rightarrow> MapType \<Rightarrow> string \<Rightarrow> hook_world \<Rightarrow> 'k
     \<Rightarrow> (HttpResult \<times> sys_call list \<times> hook_world \<times> 'k) result option" where
  "Connection_DoRequest_uri env method uri timeout_ms headers body =
     (let req = (new_HttpRequest 0x11 True)\<lparr>rq_path := Uri_getPath uri, rq_query := m_query uri, rq_fragment := m_fragment uri,
                  rq_method := method\<rparr>;
          req = (add_headers headers (m_host uri) req)\<lparr>rq_body := body\<rparr>
      in Connection_DoRequest env req uri timeout_ms)"

definition Connection_DoRequest_url ::
  "(string \<Rightarrow> Uri option) \<Rightarrow> ('p, 'k) client_env \<Rightarrow> HttpMethod \<Rightarrow> string \<Rightarrow> u64 \<Rightarrow> MapType \<Rightarrow> string \<Rightarrow> hook_world \<Rightarrow> 'k
     \<Rightarrow> (HttpResult \<times> sys_call list \<times> hook_world \<times> 'k) result option" where
  "Connection_DoRequest_url Uri_Create env method url timeout_ms headers body w k =
     (case Uri_Create url of
        None \<Rightarrow> Some (Inr (http_fail INVALID_URL (''invalid url: '' @ url), [], w, k))
      | Some uri \<Rightarrow> Connection_DoRequest_uri env method uri timeout_ms headers body w k)"

definition Connection_DoGet ::
  "(string \<Rightarrow> Uri option) \<Rightarrow> ('p, 'k) client_env \<Rightarrow> string \<Rightarrow> u64 \<Rightarrow> MapType \<Rightarrow> string \<Rightarrow> hook_world \<Rightarrow> 'k
     \<Rightarrow> (HttpResult \<times> sys_call list \<times> hook_world \<times> 'k) result option" where
  "Connection_DoGet Uri_Create env = Connection_DoRequest_url Uri_Create env GET"

definition Connection_DoPost ::
  "(string \<Rightarrow> Uri option) \<Rightarrow> ('p, 'k) client_env \<Rightarrow> string \<Rightarrow> u64 \<Rightarrow> MapType \<Rightarrow> string \<Rightarrow> hook_world \<Rightarrow> 'k
     \<Rightarrow> (HttpResult \<times> sys_call list \<times> hook_world \<times> 'k) result option" where
  "Connection_DoPost Uri_Create env = Connection_DoRequest_url Uri_Create env POST"

section \<open>The pool\<close>

record connection =
  cn_sock :: Socket
  m_createTime :: u64
  m_request :: u64

definition new_HttpConnection :: "Socket \<Rightarrow> connection" where
  "new_HttpConnection sock = \<lparr>cn_sock = sock, m_createTime = 0, m_request = 0\<rparr>"

definition isConnected :: "connection \<Rightarrow> bool" where
  "isConnected c = SocketStream_isConnected (Some (cn_sock c))"

definition delete_HttpConnection :: "connection \<Rightarrow> sys_call list" where
  "delete_HttpConnection c = snd (SocketStream_delete True (Some (cn_sock c)))"

record HttpConnectionPool =
  hp_host :: string
  hp_vhost :: string
  hp_port :: u32
  m_maxSize :: u32
  m_maxAliveTime :: u32
  m_maxRequest :: u32
  m_conns :: "connection list"
  m_total :: u32

definition new_HttpConnectionPool :: "string \<Rightarrow> string \<Rightarrow> u32 \<Rightarrow> u32 \<Rightarrow> u32 \<Rightarrow> u32 \<Rightarrow> HttpConnectionPool" where
  "new_HttpConnectionPool host vhost port max_size alive_time max_request =
     \<lparr>hp_host = host, hp_vhost = vhost, hp_port = port, m_maxSize = max_size, m_maxAliveTime = alive_time,
      m_maxRequest = max_request, m_conns = [], m_total = 0\<rparr>"

text \<open>The loop of \<open>getConnection\<close>: invalid connections, the one found, and what stays in the list.\<close>

fun scan_conns :: "u64 \<Rightarrow> u32 \<Rightarrow> connection list \<Rightarrow> connection list \<times> connection option \<times> connection list" where
  "scan_conns now_ms alive [] = ([], None, [])"
| "scan_conns now_ms alive (conn # conns) =
     (if \<not> isConnected conn \<or> m_createTime conn + ucast alive > now_ms
      then let (invalid, ptr, rest) = scan_conns now_ms alive conns in (conn # invalid, ptr, rest)
      else ([], Some conn, conns))"

definition getConnection ::
  "getaddrinfo \<Rightarrow> sys \<Rightarrow> u64 \<Rightarrow> HttpConnectionPool \<Rightarrow> (connection option \<times> HttpConnectionPool \<times> sys_call list) result" where
  "getConnection getaddrinfo os now_ms pool =
     (let (invalid, ptr, rest) = scan_conns now_ms (m_maxAliveTime pool) (m_conns pool);
          cs = concat (map delete_HttpConnection invalid);
          pool = pool\<lparr>m_conns := rest, m_total := m_total pool - word_of_nat (length invalid)\<rparr>
      in case ptr of
           Some conn \<Rightarrow> Inr (Some conn, pool, cs)
         | None \<Rightarrow>
             (case LookupAnyIPAddress getaddrinfo (hp_host pool) AF_UNSPEC 0 0 of
                None \<Rightarrow> Inr (None, pool, cs)
              | Some addr \<Rightarrow>
                  (let addr = setPort addr (ucast (hp_port pool))
                   in bindR (Socket_connect os addr (- 1) (CreateTCP addr)) (\<lambda>(ok, sock, cs').
                        if \<not> ok then Inr (None, pool, cs @ cs' @ delete_Socket sock)
                        else Inr (Some (new_HttpConnection sock), pool\<lparr>m_total := m_total pool + 1\<rparr>, cs @ cs')))))"

text \<open>The deleter of the \<open>shared_ptr\<close> that \<open>getConnection\<close> returns.\<close>

definition ReleasePtr :: "u64 \<Rightarrow> connection \<Rightarrow> HttpConnectionPool \<Rightarrow> HttpConnectionPool \<times> sys_call list" where
  "ReleasePtr now_ms ptr pool =
     (let ptr = ptr\<lparr>m_request := m_request ptr + 1\<rparr>
      in if \<not> isConnected ptr \<or> m_createTime ptr + ucast (m_maxAliveTime pool) \<ge> now_ms \<or> m_request ptr > ucast (m_maxRequest pool)
         then (pool\<lparr>m_total := m_total pool - 1\<rparr>, delete_HttpConnection ptr)
         else (pool\<lparr>m_conns := m_conns pool @ [ptr]\<rparr>, []))"

text \<open>\<open>doRequest(req, timeout_ms)\<close>: \<open>now\<close> is the clock when the connection is taken and when it is released.  A
  connection always has a socket, so \<open>POOL_INVALID_CONNECTION\<close> does not occur.  The address that
  \<open>getRemoteAddress\<close> may cache while a message is made is left out.\<close>

definition Pool_doRequest ::
  "('p, 'k) client_env \<Rightarrow> HttpRequest \<Rightarrow> u64 \<Rightarrow> u64 \<times> u64 \<Rightarrow> hook_world \<Rightarrow> HttpConnectionPool \<Rightarrow> 'k
     \<Rightarrow> (HttpResult \<times> HttpConnectionPool \<times> sys_call list \<times> hook_world \<times> 'k) result option" where
  "Pool_doRequest env req timeout_ms now w pool k =
     (case getConnection (ce_getaddrinfo env) (ce_sys env) (fst now) pool of
        Inl e \<Rightarrow> Some (Inl e)
      | Inr (None, pool, cs) \<Rightarrow>
          Some (Inr (http_fail POOL_GET_CONNECTION
            (''pool host: '' @ hp_host pool @ '' port:'' @ nat_to_string (unat (hp_port pool))), pool, cs, w, k))
      | Inr (Some conn, pool, cs) \<Rightarrow>
          (case setRecvTimeout (sint timeout_ms) (ce_setsockopt env) (cn_sock conn) w of
             Inl e \<Rightarrow> Some (Inl e)
           | Inr w \<Rightarrow>
               map_option (map_sum id (\<lambda>(res, k).
                   let (pool, cs') = ReleasePtr (snd now) conn pool in (res, pool, cs @ cs', w, k)))
                 (exchange env (bindR (getRemoteAddress (ce_sys env) (cn_sock conn)) (\<lambda>(a, _). Address_toString a))
                    req timeout_ms (cn_sock conn) k)))"

definition Pool_doRequest_url ::
  "('p, 'k) client_env \<Rightarrow> HttpMethod \<Rightarrow> string \<Rightarrow> u64 \<Rightarrow> MapType \<Rightarrow> string \<Rightarrow> u64 \<times> u64 \<Rightarrow> hook_world
     \<Rightarrow> HttpConnectionPool \<Rightarrow> 'k \<Rightarrow> (HttpResult \<times> HttpConnectionPool \<times> sys_call list \<times> hook_world \<times> 'k) result option" where
  "Pool_doRequest_url env method url timeout_ms headers body now w pool =
     (let req = (new_HttpRequest 0x11 True)\<lparr>rq_path := url, rq_method := method, rq_close := True\<rparr>;
          req = (add_headers headers (if hp_vhost pool = [] then hp_host pool else hp_vhost pool) req)\<lparr>rq_body := body\<rparr>
      in Pool_doRequest env req timeout_ms now w pool)"

definition Pool_doRequest_uri ::
  "('p, 'k) client_env \<Rightarrow> HttpMethod \<Rightarrow> Uri \<Rightarrow> u64 \<Rightarrow> MapType \<Rightarrow> string \<Rightarrow> u64 \<times> u64 \<Rightarrow> hook_world
     \<Rightarrow> HttpConnectionPool \<Rightarrow> 'k \<Rightarrow> (HttpResult \<times> HttpConnectionPool \<times> sys_call list \<times> hook_world \<times> 'k) result option" where
  "Pool_doRequest_uri env method uri = Pool_doRequest_url env method (Uri_target uri)"

definition Pool_doGet ::
  "('p, 'k) client_env \<Rightarrow> string \<Rightarrow> u64 \<Rightarrow> MapType \<Rightarrow> string \<Rightarrow> u64 \<times> u64 \<Rightarrow> hook_world
     \<Rightarrow> HttpConnectionPool \<Rightarrow> 'k \<Rightarrow> (HttpResult \<times> HttpConnectionPool \<times> sys_call list \<times> hook_world \<times> 'k) result option" where
  "Pool_doGet env = Pool_doRequest_url env GET"

definition Pool_doPost ::
  "('p, 'k) client_env \<Rightarrow> string \<Rightarrow> u64 \<Rightarrow> MapType \<Rightarrow> string \<Rightarrow> u64 \<times> u64 \<Rightarrow> hook_world
     \<Rightarrow> HttpConnectionPool \<Rightarrow> 'k \<Rightarrow> (HttpResult \<times> HttpConnectionPool \<times> sys_call list \<times> hook_world \<times> 'k) result option" where
  "Pool_doPost env = Pool_doRequest_url env POST"

end
