(* ===== verification/Httpclient.thy ===== *)
theory Httpclient
  imports Httpclient_Table HttpConnection
begin

text \<open>
  \<^verbatim>\<open>httpclient_parser.rl.cc\<close> around its blocks: the parser object, the actions, initialisation and execution.
  A \<open>size_t\<close> is a natural number, \<open>int\<close> keeps its 32 bits.  All callbacks are set, as the constructor of
  \<open>HttpResponseParser\<close> does; the callers put the NUL behind the buffer that \<open>execute\<close> asserts.
\<close>

section \<open>Definitions\<close>

record httpclient_parser =
  cp_cs :: nat
  cp_body_start :: nat
  cp_content_len :: int
  cp_status :: int
  cp_chunked :: int
  cp_chunks_done :: int
  cp_close :: int
  cp_nread :: nat
  cp_mark :: nat
  cp_field_start :: nat
  cp_field_len :: nat

definition httpclient_parser_start :: nat where "httpclient_parser_start = 1"
definition httpclient_parser_first_final :: nat where "httpclient_parser_first_final = 120"
definition httpclient_parser_error :: nat where "httpclient_parser_error = 0"

text \<open>\<open>status\<close> is not initialised.\<close>

definition httpclient_parser_init :: "httpclient_parser \<Rightarrow> httpclient_parser" where
  "httpclient_parser_init q =
     q\<lparr>cp_cs := httpclient_parser_start, cp_body_start := 0, cp_content_len := - 1, cp_chunked := 0, cp_chunks_done := 0,
       cp_mark := 0, cp_nread := 0, cp_field_len := 0, cp_field_start := 0, cp_close := 0\<rparr>"

text \<open>\<open>strtol\<close> of the C library in base 10 or 16: white space, a sign, for base 16 a prefix \<open>0x\<close>, digits; the value
  saturates at the bounds of \<open>long\<close>.\<close>

definition digit_in :: "nat \<Rightarrow> char \<Rightarrow> nat option" where
  "digit_in base c =
     (let n = of_char c;
          v = (if 48 \<le> n \<and> n \<le> 57 then n - 48
               else if 65 \<le> n \<and> n \<le> 90 then n - 55
               else if 97 \<le> n \<and> n \<le> 122 then n - 87 else base)
      in if v < base then Some v else None)"

definition strtol :: "nat \<Rightarrow> string \<Rightarrow> int" where
  "strtol base s =
     (let s = dropWhile c_isspace (c_str s);
          neg = (s \<noteq> [] \<and> hd s = CHR ''-'');
          s = (if s \<noteq> [] \<and> (hd s = CHR ''-'' \<or> hd s = CHR ''+'') then tl s else s);
          s = (if base = 16 \<and> (take 2 s = ''0x'' \<or> take 2 s = ''0X'') then drop 2 s else s);
          v = int (foldl (\<lambda>a c. base * a + the (digit_in base c)) 0 (takeWhile (\<lambda>c. digit_in base c \<noteq> None) s))
      in max (- (2 ^ 63)) (min (2 ^ 63 - 1) (if neg then - v else v)))"

text \<open>The distance from a mark to the current character, as a \<open>size_t\<close>.\<close>

definition client_LEN :: "nat \<Rightarrow> nat \<Rightarrow> nat" where
  "client_LEN at fpc = (if at \<le> fpc then fpc - at else 2 ^ 64 - (at - fpc))"

fun client_action ::
  "string \<Rightarrow> client_action \<Rightarrow> nat \<Rightarrow> httpclient_parser \<times> response_event list
     \<Rightarrow> (httpclient_parser \<times> response_event list) result" where
  "client_action buffer B_mark p (q, evs) = Inr (q\<lparr>cp_mark := p\<rparr>, evs)"
| "client_action buffer B_start_field p (q, evs) = Inr (q\<lparr>cp_field_start := p\<rparr>, evs)"
| "client_action buffer B_write_field p (q, evs) = Inr (q\<lparr>cp_field_len := client_LEN (cp_field_start q) p\<rparr>, evs)"
| "client_action buffer B_start_value p (q, evs) = Inr (q\<lparr>cp_mark := p\<rparr>, evs)"
| "client_action buffer B_write_content_len p (q, evs) =
     Inr (q\<lparr>cp_content_len := to_int (strtol 10 (drop (cp_mark q) buffer))\<rparr>, evs)"
| "client_action buffer B_write_connection_close p (q, evs) = Inr (q\<lparr>cp_close := 1\<rparr>, evs)"
| "client_action buffer B_write_value p (q, evs) =
     Inr (q, evs @ [E_response_field (cp_field_start q) (cp_field_len q) (cp_mark q) (client_LEN (cp_mark q) p)])"
| "client_action buffer B_reason_phrase p (q, evs) = Inr (q, evs @ [E_reason_phrase (cp_mark q) (client_LEN (cp_mark q) p)])"
| "client_action buffer B_status_code p (q, evs) =
     Inr (q\<lparr>cp_status := to_int (strtol 10 (drop (cp_mark q) buffer))\<rparr>,
       evs @ [E_status_code (cp_mark q) (client_LEN (cp_mark q) p)])"
| "client_action buffer B_http_version p (q, evs) =
     Inr (q, evs @ [E_response_version (cp_mark q) (client_LEN (cp_mark q) p)])"
| "client_action buffer B_chunk_size p (q, evs) =
     (let n = to_int (strtol 16 (drop (cp_mark q) buffer));
          q = q\<lparr>cp_chunked := 1, cp_content_len := n, cp_chunks_done := if n \<le> 0 then 1 else 0\<rparr>
      in Inr (q, evs @ [if cp_chunks_done q \<noteq> 0 then E_last_chunk (cp_mark q) (client_LEN (cp_mark q) p)
                        else E_chunk_size (cp_mark q) (client_LEN (cp_mark q) p)]))"
| "client_action buffer B_trans_chunked p (q, evs) = Inr (q\<lparr>cp_chunked := 1\<rparr>, evs)"
| "client_action buffer B_done p (q, evs) =
     Inr (q\<lparr>cp_body_start := p + 1\<rparr>, evs @ [E_response_header_done (p + 1) (length buffer - p - 1)])"

definition client_step :: "nat \<Rightarrow> char \<Rightarrow> (client_action list \<times> nat) option" where
  "client_step = ragel_step client_blocks False"

definition httpclient_parser_exec ::
  "httpclient_parser \<Rightarrow> string \<Rightarrow> (nat \<times> nat \<times> httpclient_parser \<times> response_event list) result" where
  "httpclient_parser_exec q buffer =
     ragel_exec client_step (client_action buffer) (\<lambda>a. a = B_done) (cp_cs q) 0 buffer (q, [])"

definition httpclient_parser_execute ::
  "httpclient_parser \<Rightarrow> string \<Rightarrow> (nat \<times> httpclient_parser \<times> response_event list) result" where
  "httpclient_parser_execute q buffer =
     (let len = length buffer
      in bindR (assertR (int len = to_int (int len)) AssertFail) (\<lambda>_.
         bindR (httpclient_parser_exec (q\<lparr>cp_nread := 0, cp_mark := 0, cp_field_len := 0, cp_field_start := 0\<rparr>) buffer)
           (\<lambda>(cs, p, r, evs).
              let r = r\<lparr>cp_cs := cs\<rparr>;
                  r = r\<lparr>cp_nread := cp_nread r + p\<rparr>
              in bindR (assertR (p \<le> len \<and> cp_nread r \<le> len \<and> cp_body_start r \<le> len) AssertFail) (\<lambda>_.
                 Inr (cp_nread r, r, evs)))))"

definition httpclient_parser_has_error :: "httpclient_parser \<Rightarrow> bool" where
  "httpclient_parser_has_error q \<longleftrightarrow> cp_cs q = httpclient_parser_error"

definition httpclient_parser_is_finished :: "httpclient_parser \<Rightarrow> bool" where
  "httpclient_parser_is_finished q \<longleftrightarrow> cp_cs q = httpclient_parser_first_final"

text \<open>The machine of \<open>HttpResponseParser\<close>; \<open>q\<close> is the memory its parser is constructed in.\<close>

definition client_machine :: "httpclient_parser \<Rightarrow> (httpclient_parser, response_event) machine" where
  "client_machine q =
     \<lparr>mc_init = httpclient_parser_init q, mc_execute = httpclient_parser_execute,
      mc_has_error = httpclient_parser_has_error, mc_is_finished = httpclient_parser_is_finished\<rparr>"

definition client_chunks :: "httpclient_parser chunk_info" where
  "client_chunks =
     \<lparr>ci_chunked = (\<lambda>q. cp_chunked q \<noteq> 0), ci_content_len = cp_content_len, ci_chunks_done = (\<lambda>q. cp_chunks_done q \<noteq> 0)\<rparr>"

section \<open>What an execution leaves\<close>

text \<open>Marks stay in the buffer.  The texts of all callbacks do, except the names of fields.\<close>

definition client_inside :: "nat \<Rightarrow> response_event \<Rightarrow> bool" where
  "client_inside len ev =
     (case ev of
        E_response_field f fl v vl \<Rightarrow> f \<le> len \<and> v + vl \<le> len
      | E_reason_phrase at n \<Rightarrow> at + n \<le> len
      | E_status_code at n \<Rightarrow> at + n \<le> len
      | E_chunk_size at n \<Rightarrow> at + n \<le> len
      | E_response_version at n \<Rightarrow> at + n \<le> len
      | E_response_header_done at n \<Rightarrow> at + n \<le> len
      | E_last_chunk at n \<Rightarrow> at + n \<le> len)"

definition client_marks :: "nat \<Rightarrow> nat \<Rightarrow> httpclient_parser \<times> response_event list \<Rightarrow> bool" where
  "client_marks len p x \<longleftrightarrow>
     cp_nread (fst x) = 0 \<and> cp_mark (fst x) \<le> p \<and> cp_field_start (fst x) \<le> p \<and> list_all (client_inside len) (snd x)"

lemma client_marks_weaken: "client_marks len p x \<Longrightarrow> p \<le> p' \<Longrightarrow> client_marks len p' x"
  by (auto simp: client_marks_def)

lemma client_action_ok:
  assumes "p < length buffer" "client_marks (length buffer) p x"
  shows "\<exists>y. client_action buffer a p x = Inr y \<and> client_marks (length buffer) p y
    \<and> (a \<noteq> B_done \<longrightarrow> cp_body_start (fst y) = cp_body_start (fst x)) \<and> (a = B_done \<longrightarrow> cp_body_start (fst y) = p + 1)"
  using assms by (cases x; cases a) (simp_all add: client_marks_def client_inside_def client_LEN_def Let_def)

lemma client_actions_ok:
  assumes "p < length buffer" "client_marks (length buffer) p x"
  shows "\<exists>y. run_actions (client_action buffer) (\<lambda>a. a = B_done) as p x = Inr (B_done \<in> set as, y)
    \<and> client_marks (length buffer) p y
    \<and> cp_body_start (fst y) = (if B_done \<in> set as then p + 1 else cp_body_start (fst x))"
  using assms(2)
proof (induction as arbitrary: x)
  case (Cons a as)
  obtain y where y: "client_action buffer a p x = Inr y" "client_marks (length buffer) p y"
      "a \<noteq> B_done \<longrightarrow> cp_body_start (fst y) = cp_body_start (fst x)" "a = B_done \<longrightarrow> cp_body_start (fst y) = p + 1"
    using client_action_ok [OF assms(1) Cons.prems] by blast
  show ?case
  proof (cases "a = B_done")
    case True
    then show ?thesis using y by simp
  next
    case False
    obtain z where "run_actions (client_action buffer) (\<lambda>a. a = B_done) as p y = Inr (B_done \<in> set as, z)"
        "client_marks (length buffer) p z" "cp_body_start (fst z) = (if B_done \<in> set as then p + 1 else cp_body_start (fst y))"
      using Cons.IH [OF y(2)] by blast
    then show ?thesis using y False by (intro exI [of _ z]) simp
  qed
qed simp

text \<open>The final states are entered by \<open>done\<close> and only by it.\<close>

lemma client_final: "all_steps (\<lambda>n as t. t = 0 \<or> (B_done \<in> set as \<longleftrightarrow> 120 \<le> t)) (transitions client_blocks) client_blocks"
  unfolding client_blocks_def [THEN arg_cong [where f = "all_steps P (transitions client_blocks)" for P]] all_steps_append
  by (intro conjI; simp add: client_parts)

lemma client_exec_ok:
  assumes "cp_nread q = 0" "cp_mark q = 0" "cp_field_start q = 0" "cp_body_start q \<le> length buffer"
  shows "\<exists>cs p r evs. httpclient_parser_exec q buffer = Inr (cs, p, r, evs) \<and> p \<le> length buffer
    \<and> client_marks (length buffer) p (r, evs) \<and> cp_body_start r \<le> length buffer
    \<and> (cs < 120 \<longrightarrow> cp_body_start r = cp_body_start q)"
proof -
  let ?I = "\<lambda>(n :: nat) p x. client_marks (length buffer) p x \<and> cp_body_start (fst x) = cp_body_start q"
  let ?J = "\<lambda>n p x. client_marks (length buffer) p x \<and> cp_body_start (fst x) \<le> length buffer
    \<and> (n < 120 \<longrightarrow> cp_body_start (fst x) = cp_body_start q)"
  have "\<exists>cs p x. httpclient_parser_exec q buffer = Inr (cs, p, x) \<and> 0 \<le> p \<and> p \<le> length buffer \<and> ?J cs p x"
    unfolding httpclient_parser_exec_def
  proof (rule ragel_exec_rule [where I = ?I])
    show "?I (cp_cs q) 0 (q, [])" using assms by (simp add: client_marks_def)
    show "?J n p x" "?J 0 p x" if "?I n p x" for n p x using that assms(4) by auto
    show "\<exists>fin y. run_actions (client_action buffer) (\<lambda>a. a = B_done) as p x = Inr (fin, y)
        \<and> (if fin then ?J t (Suc p) y else ?I t (Suc p) y)"
      if st: "client_step n c = Some (as, t)" "t \<noteq> 0" "?I n p x" "p < length buffer" for n p c x as t
    proof -
      have "B_done \<in> set as \<longleftrightarrow> 120 \<le> t" using ragel_stepD [OF client_final st(1) [unfolded client_step_def]] st(2) by simp
      moreover obtain y where y: "run_actions (client_action buffer) (\<lambda>a. a = B_done) as p x = Inr (B_done \<in> set as, y)"
          "client_marks (length buffer) p y" "cp_body_start (fst y) = (if B_done \<in> set as then p + 1 else cp_body_start (fst x))"
        using client_actions_ok [OF st(4) conjunct1 [OF st(3)], of as] by blast
      moreover have "client_marks (length buffer) (Suc p) y" by (rule client_marks_weaken [OF y(2)]) simp
      ultimately show ?thesis using st(3,4) by auto
    qed
  qed simp
  then show ?thesis by auto
qed

text \<open>The assertions of \<open>execute\<close> hold on buffers an \<open>int\<close> can measure as long as no earlier end of a head lies
  behind the buffer.\<close>

lemma client_execute_ok:
  assumes "cp_body_start q \<le> length buffer" "length buffer < 2 ^ 31"
  shows "\<exists>n r evs. httpclient_parser_execute q buffer = Inr (n, r, evs) \<and> n \<le> length buffer
    \<and> (cp_cs r < 120 \<longrightarrow> cp_body_start r = cp_body_start q) \<and> list_all (client_inside (length buffer)) evs"
proof -
  let ?q = "q\<lparr>cp_nread := 0, cp_mark := 0, cp_field_len := 0, cp_field_start := 0\<rparr>"
  obtain cs p r evs where e: "httpclient_parser_exec ?q buffer = Inr (cs, p, r, evs)" "p \<le> length buffer"
      "client_marks (length buffer) p (r, evs)" "cp_body_start r \<le> length buffer"
      "cs < 120 \<longrightarrow> cp_body_start r = cp_body_start q"
    using client_exec_ok [of ?q buffer] assms(1) by auto
  show ?thesis using e to_int_nat [OF assms(2)] by (simp add: httpclient_parser_execute_def Let_def client_marks_def)
qed

end
