(* ===== verification/Httpclient_Phases.thy ===== *)
theory Httpclient_Phases
  imports Httpclient Ragel_Run Http11_Segments
begin

text \<open>
  The states of the response machine that a line of the head runs through, found by checks over its blocks.
\<close>

section \<open>Steps\<close>

text \<open>The states of a field name, of the blanks before a value, of a value, behind its CR, and at the start of a
  line, for fields other than \<open>Transfer-Encoding\<close>, whose name runs through the states 44 to 60.\<close>

definition name_state :: "nat \<Rightarrow> bool" where
  "name_state n \<longleftrightarrow> n = 21 \<or> 25 \<le> n \<and> n \<le> 34 \<or> 44 \<le> n \<and> n \<le> 60 \<or> 101 \<le> n \<and> n \<le> 111"
definition blank_state :: "nat \<Rightarrow> bool" where "blank_state n \<longleftrightarrow> n = 22 \<or> n = 35 \<or> n = 112"
definition value_state :: "nat \<Rightarrow> bool" where "value_state n \<longleftrightarrow> n = 23 \<or> 96 \<le> n \<and> n \<le> 100 \<or> n = 119"
definition cr_state :: "nat \<Rightarrow> bool" where "cr_state n \<longleftrightarrow> n = 24 \<or> n = 88"
definition line_state :: "nat \<Rightarrow> bool" where "line_state n \<longleftrightarrow> n = 20 \<or> n = 43"

lemmas state_defs = name_state_def blank_state_def value_state_def cr_state_def line_state_def

definition first_class :: "(int \<times> int) list" where "first_class = [(- 128, - 1), (1, 8), (14, 31), (33, 126)]"
definition reason_class :: "(int \<times> int) list" where "reason_class = [(- 128, 9), (11, 12), (14, 127)]"

lemmas client_class_defs = class_defs first_class_def reason_class_def

text \<open>The characters that lead through the name of \<open>Transfer-Encoding\<close>: letter \<open>i\<close> in either case.\<close>

definition te_codes :: "(int \<times> int) list" where
  "te_codes = [(116, 84), (114, 82), (97, 65), (110, 78), (115, 83), (102, 70), (101, 69), (114, 82), (45, 45), (101, 69), (110, 78),
     (99, 67), (111, 79), (100, 68), (105, 73), (110, 78), (103, 71)]"

definition te_char :: "nat \<Rightarrow> int \<Rightarrow> int \<Rightarrow> bool" where
  "te_char i lo hi \<longleftrightarrow> lo = hi \<and> (lo = fst (te_codes ! i) \<or> lo = snd (te_codes ! i))"

definition goes :: "(int \<Rightarrow> int \<Rightarrow> client_action list \<Rightarrow> nat \<Rightarrow> bool) \<Rightarrow> int \<Rightarrow> int \<Rightarrow> label \<Rightarrow> bool" where
  "goes P lo hi l = (case target (transitions client_blocks) l of None \<Rightarrow> False | Some (as, n') \<Rightarrow> P lo hi as n')"

lemma client_step_in:
  assumes "steps_in client_blocks n cls (goes P)" "in_class cls c"
  shows "\<exists>lo hi as n'. lo \<le> char_value c \<and> char_value c \<le> hi \<and> P lo hi as n' \<and> client_step n c = Some (as, n')"
proof -
  obtain lo hi l where l: "lo \<le> char_value c" "char_value c \<le> hi" "goes P lo hi l"
      "client_step n c = target (transitions client_blocks) l"
    using steps_in [OF assms, of False] unfolding client_step_def by blast
  then show ?thesis by (auto simp: goes_def split: option.splits)
qed

text \<open>All phases of a field, checked over the blocks.\<close>

lemmas client_checks = client_blocks_def [THEN arg_cong [where f = "all_cases P" for P]] all_cases_append

lemma name_check:
  "all_cases (\<lambda>n ws rows d. if name_state n then class_labels ws rows d token_class
     (goes (\<lambda>lo hi as n'. as = [] \<and> name_state n' \<and> (if 44 \<le> n' \<and> n' \<le> 60 then Suc n = n' \<and> 44 \<le> n \<and> te_char (n' - 44) lo hi else True)))
     else True) client_blocks"
  unfolding client_checks
  by (intro conjI; simp add: client_parts name_state_def token_class_def goes_def te_char_def te_codes_def)

lemma colon_check:
  "all_cases (\<lambda>n ws rows d. if name_state n then class_labels ws rows d [(58, 58)]
     (goes (\<lambda>lo hi as n'. as = [B_write_field] \<and> (if n = 60 then True else blank_state n'))) else True) client_blocks"
  unfolding client_checks by (intro conjI; simp add: client_parts name_state_def blank_state_def goes_def)

lemma blank_check:
  "all_cases (\<lambda>n ws rows d. if blank_state n then class_labels ws rows d [(32, 32)]
     (goes (\<lambda>lo hi as n'. as = [B_start_value] \<and> blank_state n')) else True) client_blocks"
  "all_cases (\<lambda>n ws rows d. if blank_state n then class_labels ws rows d first_class
     (goes (\<lambda>lo hi as n'. as = [B_start_value] \<and> value_state n')) else True) client_blocks"
  unfolding client_checks
  by (intro conjI; simp add: client_parts blank_state_def value_state_def first_class_def goes_def)+

lemma value_check:
  "all_cases (\<lambda>n ws rows d. if value_state n then class_labels ws rows d value_class
     (goes (\<lambda>lo hi as n'. as = [] \<and> value_state n')) else True) client_blocks"
  "all_cases (\<lambda>n ws rows d. if value_state n then class_labels ws rows d [(13, 13)]
     (goes (\<lambda>lo hi as n'. (as = [B_write_value] \<or> as = [B_write_content_len, B_write_value]) \<and> cr_state n')) else True) client_blocks"
  unfolding client_checks by (intro conjI; simp add: client_parts cr_state_def value_state_def value_class_def goes_def)+

lemma line_check:
  "all_cases (\<lambda>n ws rows d. if cr_state n then class_labels ws rows d [(10, 10)]
     (goes (\<lambda>lo hi as n'. as = [] \<and> line_state n')) else True) client_blocks"
  "all_cases (\<lambda>n ws rows d. if line_state n then class_labels ws rows d token_class
     (goes (\<lambda>lo hi as n'. (as = [B_start_field] \<or> as = [B_write_connection_close, B_start_field]) \<and> name_state n'
        \<and> (if 44 \<le> n' \<and> n' \<le> 60 then n' = 44 \<and> te_char 0 lo hi else True))) else True) client_blocks"
  "all_cases (\<lambda>n ws rows d. if line_state n then class_labels ws rows d [(13, 13)]
     (goes (\<lambda>lo hi as n'. (as = [] \<or> as = [B_write_connection_close]) \<and> n' = 3)) else True) client_blocks"
  unfolding client_checks
  by (intro conjI; simp add: client_parts cr_state_def line_state_def name_state_def token_class_def goes_def te_char_def te_codes_def)+

lemma state_numbers:
  assumes "name_state n \<or> blank_state n \<or> value_state n \<or> cr_state n \<or> line_state n"
  shows "n \<in> set (numbers client_blocks)"
proof -
  have "set [20..<36] \<union> set [43..<61] \<union> set [88..<120] \<subseteq> set (numbers client_blocks)"
    by (simp add: client_blocks_def numbers_append client_numbers upt_rec_numeral)
  moreover have "n \<in> set [20..<36] \<union> set [43..<61] \<union> set [88..<120]"
    using assms unfolding state_defs set_upt by auto
  ultimately show ?thesis by blast
qed

text \<open>The steps.\<close>

definition te_match :: "nat \<Rightarrow> char \<Rightarrow> bool" where
  "te_match i c \<longleftrightarrow> char_value c = fst (te_codes ! i) \<or> char_value c = snd (te_codes ! i)"

lemma te_charD: "te_char i lo hi \<Longrightarrow> lo \<le> char_value c \<Longrightarrow> char_value c \<le> hi \<Longrightarrow> te_match i c"
  by (auto simp: te_char_def te_match_def)

lemma name_step:
  assumes "name_state n" "in_class token_class c"
  shows "\<exists>n'. client_step n c = Some ([], n') \<and> name_state n' \<and> (44 \<le> n' \<and> n' \<le> 60 \<longrightarrow> Suc n = n' \<and> 44 \<le> n \<and> te_match (n' - 44) c)"
  using client_step_in [OF all_cases_steps_in [OF name_check assms(1) state_numbers] assms(2)] assms(1) te_charD
  by (fastforce split: if_splits)

lemma colon_step:
  assumes "name_state n" "n \<noteq> 60"
  shows "\<exists>n'. client_step n CHR '':'' = Some ([B_write_field], n') \<and> blank_state n'"
  using client_step_in [OF all_cases_steps_in [OF colon_check assms(1) state_numbers], of "CHR '':''"] assms
  by (auto simp: in_class_def)

lemma blank_step:
  assumes "blank_state n"
  shows "\<exists>n'. client_step n CHR '' '' = Some ([B_start_value], n') \<and> blank_state n'"
    "in_class first_class c \<Longrightarrow> \<exists>n'. client_step n c = Some ([B_start_value], n') \<and> value_state n'"
  using client_step_in [OF all_cases_steps_in [OF blank_check(1) assms state_numbers], of "CHR '' ''"]
    client_step_in [OF all_cases_steps_in [OF blank_check(2) assms state_numbers], of c] assms
  by (auto simp: in_class_def)

lemma value_step:
  assumes "value_state n"
  shows "in_class value_class c \<Longrightarrow> \<exists>n'. client_step n c = Some ([], n') \<and> value_state n'"
    "\<exists>as n'. client_step n CHR 0x0D = Some (as, n') \<and> (as = [B_write_value] \<or> as = [B_write_content_len, B_write_value]) \<and> cr_state n'"
  using client_step_in [OF all_cases_steps_in [OF value_check(1) assms state_numbers], of c]
    client_step_in [OF all_cases_steps_in [OF value_check(2) assms state_numbers], of "CHR 0x0D"] assms
  by (auto simp: in_class_def)

lemma cr_step:
  assumes "cr_state n"
  shows "\<exists>n'. client_step n CHR 0x0A = Some ([], n') \<and> line_state n'"
  using client_step_in [OF all_cases_steps_in [OF line_check(1) assms state_numbers], of "CHR 0x0A"] assms
  by (auto simp: in_class_def)

lemma line_step:
  assumes "line_state n"
  shows "in_class token_class c \<Longrightarrow> \<exists>as n'. client_step n c = Some (as, n')
      \<and> (as = [B_start_field] \<or> as = [B_write_connection_close, B_start_field]) \<and> name_state n'
      \<and> (44 \<le> n' \<and> n' \<le> 60 \<longrightarrow> n' = 44 \<and> te_match 0 c)"
    "\<exists>as. client_step n CHR 0x0D = Some (as, 3) \<and> (as = [] \<or> as = [B_write_connection_close])"
proof -
  show "\<exists>as. client_step n CHR 0x0D = Some (as, 3) \<and> (as = [] \<or> as = [B_write_connection_close])"
    using client_step_in [OF all_cases_steps_in [OF line_check(3) assms state_numbers], of "CHR 0x0D"] assms
    by (auto simp: in_class_def)
  assume "in_class token_class c"
  then show "\<exists>as n'. client_step n c = Some (as, n')
      \<and> (as = [B_start_field] \<or> as = [B_write_connection_close, B_start_field]) \<and> name_state n'
      \<and> (44 \<le> n' \<and> n' \<le> 60 \<longrightarrow> n' = 44 \<and> te_match 0 c)"
    using client_step_in [OF all_cases_steps_in [OF line_check(2) assms state_numbers], of c] assms te_charD
    by (fastforce split: if_splits)
qed

end
