(* ===== verification/Httpclient_Response.thy ===== *)
theory Httpclient_Response
  imports Httpclient_Phases
begin

text \<open>
  The response machine on whole heads, with the callbacks of \<open>HttpResponseParser\<close>: it reads back what
  \<open>HttpResponse::dump\<close> writes.  Heads of chunks, and heads it does not finish.
\<close>

section \<open>Segments\<close>

lemma client_action_appends: "client_action data a p (q, evs) = Inr (q', evs') \<Longrightarrow> \<exists>new. evs' = evs @ new"
  by (cases a) (auto simp: Let_def)

interpretation client_run: ragel_run client_step client_action "\<lambda>a. a = B_done" response_callback
  by unfold_locales (rule client_action_appends)

text \<open>An execution that has come to state \<open>n\<close> without a sign of chunks.\<close>

definition creach ::
  "string \<times> httpclient_parser \<times> 'p HttpResponseParser \<Rightarrow> nat \<Rightarrow> string \<Rightarrow> httpclient_parser \<Rightarrow> 'p HttpResponseParser \<Rightarrow> bool" where
  "creach E n s q P \<longleftrightarrow>
     (case E of (data, q0, P0) \<Rightarrow> client_run.reach data (cp_cs q0) q0 P0 n s q P \<and> cp_chunked q = cp_chunked q0)"

lemma creach_start: "creach (data, q0, P0) (cp_cs q0) data q0 P0"
  by (simp add: creach_def client_run.reach_start)

lemma creach_suffix: "creach (data, q0, P0) n s q P \<Longrightarrow> suffix s data"
  using client_run.reach_suffix by (auto simp: creach_def)

lemma creach_step:
  assumes "creach (data, q0, P0) n (c # s) q P" "client_step n c = Some (as, n')" "n' \<noteq> 0"
    and "\<And>evs. run_actions (client_action data) (\<lambda>a. a = B_done) as (position data (c # s)) (q, evs) = Inr (False, q', evs @ new)"
    and "callbacks (response_callback data) new P = Inr P'" "cp_chunked q' = cp_chunked q"
  shows "creach (data, q0, P0) n' s q' P'"
  using assms client_run.reach_step [of data "cp_cs q0" q0 P0 n c s q P as n' q' new P'] by (simp add: creach_def)

lemma creach_quiet:
  assumes "creach E n (c # s) q P" "client_step n c = Some ([], n')" "n' \<noteq> 0"
  shows "creach E n' s q P"
  using assms by (cases E) (auto intro: creach_step [where new = "[]"])

lemma client_LEN_position: "suffix (w @ s) data \<Longrightarrow> client_LEN (position data (w @ s)) (position data s) = length w"
  by (auto simp: suffix_def client_LEN_def)

lemma creach_within:
  assumes "creach (data, q0, P0) n (w @ s) q P" "S n" "\<not> S 0" "list_all (in_class cls) w"
    and "\<And>n c. S n \<Longrightarrow> in_class cls c \<Longrightarrow> \<exists>n'. client_step n c = Some ([], n') \<and> S n'"
  shows "\<exists>n'. S n' \<and> creach (data, q0, P0) n' s q P"
proof -
  have "\<exists>n' \<in> Collect S. client_run.reach data (cp_cs q0) q0 P0 n' s q P"
  proof (rule client_run.reach_within [where n = n and w = w])
    show "client_run.reach data (cp_cs q0) q0 P0 n (w @ s) q P" using assms(1) by (simp add: creach_def)
    show "\<exists>n' \<in> Collect S. client_step n c = Some ([], n')" if "n \<in> Collect S" "c \<in> set w" for n c
      using assms(5) [of n c] assms(4) that by (auto simp: list_all_iff)
  qed (use assms(2,3) in auto)
  then show ?thesis using assms(1) by (auto simp: creach_def)
qed

subsection \<open>Status line\<close>

lemma client_class_step:
  assumes "steps_on client_blocks n cls l" "target (transitions client_blocks) l = Some (as, n')" "in_class cls c"
  shows "client_step n c = Some (as, n')"
  using steps_on [OF assms(1,3)] assms(2) by (simp add: client_step_def)

definition digit_class :: "(int \<times> int) list" where "digit_class = [(48, 57)]"

lemma status_rows:
  "steps_on client_blocks (Suc 0) [(72, 72)] (Tr 2)" "steps_on client_blocks 8 [(84, 84)] (St 9)"
  "steps_on client_blocks 9 [(84, 84)] (St 10)" "steps_on client_blocks 10 [(80, 80)] (St 11)"
  "steps_on client_blocks 11 [(47, 47)] (St 12)" "steps_on client_blocks 12 digit_class (St 13)"
  "steps_on client_blocks 13 [(46, 46)] (St 14)" "steps_on client_blocks 14 digit_class (St 15)"
  "steps_on client_blocks 15 [(32, 32)] (Tr 26)" "steps_on client_blocks 16 digit_class (Tr 27)"
  "steps_on client_blocks 17 digit_class (St 17)" "steps_on client_blocks 17 [(32, 32)] (Tr 28)"
  "steps_on client_blocks 18 reason_class (Tr 30)" "steps_on client_blocks 19 reason_class (St 19)"
  "steps_on client_blocks 19 [(13, 13)] (Tr 33)"
  by (simp_all add: steps_on_simps digit_class_def reason_class_def client_cases client_cases_1(1) [unfolded One_nat_def])

lemma creach_class:
  assumes "creach E n (c # s) q P" "steps_on client_blocks n cls (St n')" "in_class cls c" "0 < n'"
  shows "creach E n' s q P"
proof -
  obtain data q0 P0 where E: "E = (data, q0, P0)" by (cases E)
  show ?thesis
    using assms(1) unfolding E
    by (rule creach_step [OF _ client_class_step [OF assms(2) _ assms(3), where as = "[]"], where new = "[]"]) (use assms(4) in simp_all)
qed

lemma creach_loop:
  assumes "creach E n (w @ s) q P" "steps_on client_blocks n cls (St n)" "list_all (in_class cls) w" "0 < n"
  shows "creach E n s q P"
  using assms(1,3)
proof (induction w)
  case (Cons c w)
  have "creach E n (w @ s) q P"
    by (rule creach_class [OF _ assms(2) _ assms(4), where c = c]) (use Cons.prems in simp_all)
  then show ?case using Cons by simp
qed simp

text \<open>A word whose first character sets the mark and whose end reports it.\<close>

lemma creach_word:
  assumes "creach (data, q0, P0) n0 (w @ c # s) q P" "w \<noteq> []" "list_all (in_class cls) w"
    and "steps_on client_blocks n0 cls l0" "target (transitions client_blocks) l0 = Some ([B_mark], n)"
    and "steps_on client_blocks n cls (St n)" "0 < n"
  shows "creach (data, q0, P0) n (c # s) (q\<lparr>cp_mark := position data (w @ c # s)\<rparr>) P"
proof -
  obtain a v where w: "w = a # v" "in_class cls a" "list_all (in_class cls) v" using assms(2,3) by (cases w) auto
  have "creach (data, q0, P0) n (v @ c # s) (q\<lparr>cp_mark := position data (w @ c # s)\<rparr>) P"
    by (rule creach_step [OF assms(1) [unfolded w(1) append_Cons] client_class_step [OF assms(4,5) w(2)], where new = "[]"])
      (use assms(7) w(1) in simp_all)
  then show ?thesis by (rule creach_loop [OF _ assms(6) w(3) assms(7)])
qed

lemma creach_version:
  assumes "creach (data, q0, P0) 1 (''HTTP/1.'' @ d # '' '' @ s) q P" "d = CHR ''0'' \<or> d = CHR ''1''"
  shows "\<exists>q'. creach (data, q0, P0) 16 s q' (P\<lparr>sp_data := (sp_data P)\<lparr>rs_version := if d = CHR ''1'' then 0x11 else 0x10\<rparr>\<rparr>)"
proof -
  let ?E = "(data, q0, P0)" and ?t = "''HTTP/1.'' @ d # '' '' @ s"
  let ?q = "q\<lparr>cp_mark := position data ?t\<rparr>"
  have d: "in_class digit_class d" "in_class digit_class CHR ''1''" using assms(2) by (auto simp: in_class_def digit_class_def)
  have "creach ?E 8 (''TTP/1.'' @ d # '' '' @ s) ?q P"
    by (rule creach_step [OF _ client_class_step [OF status_rows(1), where as = "[B_mark]"], where new = "[]" and c = "CHR ''H''"])
      (use assms(1) in \<open>simp_all add: in_class_def\<close>)
  then have "creach ?E 9 (''TP/1.'' @ d # '' '' @ s) ?q P"
    by (intro creach_class [OF _ status_rows(2), where c = "CHR ''T''"]) (simp_all add: in_class_def)
  then have "creach ?E 10 (''P/1.'' @ d # '' '' @ s) ?q P"
    by (intro creach_class [OF _ status_rows(3), where c = "CHR ''T''"]) (simp_all add: in_class_def)
  then have "creach ?E 11 (''/1.'' @ d # '' '' @ s) ?q P"
    by (intro creach_class [OF _ status_rows(4), where c = "CHR ''P''"]) (simp_all add: in_class_def)
  then have "creach ?E 12 (''1.'' @ d # '' '' @ s) ?q P"
    by (intro creach_class [OF _ status_rows(5), where c = "CHR ''/''"]) (simp_all add: in_class_def)
  then have "creach ?E 13 (''.'' @ d # '' '' @ s) ?q P"
    by (intro creach_class [OF _ status_rows(6) d(2)]) simp_all
  then have "creach ?E 14 (d # '' '' @ s) ?q P"
    by (intro creach_class [OF _ status_rows(7), where c = "CHR ''.''"]) (simp_all add: in_class_def)
  then have r: "creach ?E 15 (CHR '' '' # s) ?q P"
    by (intro creach_class [OF _ status_rows(8) d(1)]) simp_all
  have len: "client_LEN (position data ?t) (position data (CHR '' '' # s)) = 8"
    using client_LEN_position [of "''HTTP/1.'' @ [d]" "CHR '' '' # s" data] creach_suffix [OF assms(1)] by simp
  have "creach ?E 16 s ?q (P\<lparr>sp_data := (sp_data P)\<lparr>rs_version := if d = CHR ''1'' then 0x11 else 0x10\<rparr>\<rparr>)"
    by (rule creach_step [OF r client_class_step [OF status_rows(9), where as = "[B_http_version]"],
          where new = "[E_response_version (cp_mark ?q) (client_LEN (cp_mark ?q) (position data (CHR '' '' # s)))]"])
      (use version_text [OF drop_position [OF creach_suffix [OF assms(1)]] assms(2)] len assms(2)
       in \<open>auto simp: on_response_version_def in_class_def\<close>)
  then show ?thesis by blast
qed

text \<open>\<open>atoi\<close> on digits with a blank behind them.\<close>

lemma atoi_digits:
  assumes "all_digits w" "w \<noteq> []"
  shows "atoi (c_str (w @ '' '' @ s)) = int (dec_value w)"
proof -
  have ch: "digit_val c \<noteq> None \<Longrightarrow> \<not> c_isspace c \<and> c \<noteq> CHR ''-'' \<and> c \<noteq> CHR ''+'' \<and> of_char c \<noteq> (0 :: nat)" for c
    by (auto simp: digit_val_def c_isspace_def split: if_splits)
  have "c_str (w @ '' '' @ s) = w @ CHR '' '' # c_str s"
    using assms(1) ch by (auto simp: c_str_def all_digits_def list_all_iff takeWhile_append2)
  moreover have "takeWhile (\<lambda>c. digit_val c \<noteq> None) (w @ CHR '' '' # c_str s) = w"
    using assms(1) by (subst takeWhile_append2) (auto simp: all_digits_def list_all_iff digit_val_def)
  moreover have "dropWhile c_isspace (w @ CHR '' '' # c_str s) = w @ CHR '' '' # c_str s"
    and "hd (w @ CHR '' '' # c_str s) \<noteq> CHR ''-''" "hd (w @ CHR '' '' # c_str s) \<noteq> CHR ''+''"
    using assms ch [of "hd w"] by (cases w; simp add: all_digits_def)+
  ultimately show ?thesis by (simp add: atoi_def Let_def)
qed

lemma digits_class: "all_digits w \<Longrightarrow> list_all (in_class digit_class) w"
proof -
  have "in_class digit_class c" if "digit_val c \<noteq> None" for c
  proof -
    have "48 \<le> int (of_char c)" "int (of_char c) \<le> 57" using that by (auto simp: digit_val_def split: if_splits)
    then show ?thesis by (simp add: of_nat_of_char in_class_def digit_class_def char_value_def Let_def)
  qed
  then show "all_digits w \<Longrightarrow> list_all (in_class digit_class) w" by (auto simp: all_digits_def list_all_iff)
qed

lemma creach_status:
  assumes "creach (data, q0, P0) 16 (w @ '' '' @ s) q P" "all_digits w" "w \<noteq> []"
  shows "\<exists>q'. creach (data, q0, P0) 18 s q' (P\<lparr>sp_data := (sp_data P)\<lparr>rs_status := word_of_nat (dec_value w)\<rparr>\<rparr>)"
proof -
  let ?E = "(data, q0, P0)" and ?q = "q\<lparr>cp_mark := position data (w @ '' '' @ s)\<rparr>"
  have r: "creach ?E 17 (CHR '' '' # s) ?q P"
    using creach_word [OF _ assms(3) digits_class [OF assms(2)] status_rows(10) _ status_rows(11), of data q0 P0 "CHR '' ''" s q P] assms(1)
    by simp
  have "creach ?E 18 s (?q\<lparr>cp_status := to_int (strtol 10 (drop (cp_mark ?q) data))\<rparr>)
      (P\<lparr>sp_data := (sp_data P)\<lparr>rs_status := word_of_nat (dec_value w)\<rparr>\<rparr>)"
    by (rule creach_step [OF r client_class_step [OF status_rows(12), where as = "[B_status_code]"],
          where new = "[E_status_code (cp_mark ?q) (client_LEN (cp_mark ?q) (position data (CHR '' '' # s)))]"])
      (use drop_position [OF creach_suffix [OF assms(1)]] atoi_digits [OF assms(2,3)]
       in \<open>simp_all add: on_response_status_def in_class_def\<close>)
  then show ?thesis by blast
qed

lemma creach_reason:
  assumes "creach (data, q0, P0) 18 (w @ crlf @ s) q P" "list_all (in_class reason_class) w" "w \<noteq> []" "length data < 2 ^ 31"
  shows "\<exists>q'. creach (data, q0, P0) 20 s q' (P\<lparr>sp_data := (sp_data P)\<lparr>rs_reason := w\<rparr>\<rparr>)"
proof -
  let ?E = "(data, q0, P0)" and ?q = "q\<lparr>cp_mark := position data (w @ crlf @ s)\<rparr>" and ?s = "CHR 0x0A # s"
  let ?P = "P\<lparr>sp_data := (sp_data P)\<lparr>rs_reason := w\<rparr>\<rparr>"
  have r: "creach ?E 19 (CHR 0x0D # ?s) ?q P"
    using creach_word [OF _ assms(3,2) status_rows(13) _ status_rows(14), of data q0 P0 "CHR 0x0D" ?s q P] assms(1)
    by (simp add: crlf_def)
  have r': "creach ?E 24 ?s ?q ?P"
    by (rule creach_step [OF r client_class_step [OF status_rows(15), where as = "[B_reason_phrase]"],
          where new = "[E_reason_phrase (cp_mark ?q) (client_LEN (cp_mark ?q) (position data (CHR 0x0D # ?s)))]"])
      (use client_LEN_position [OF creach_suffix [OF assms(1)]] std_text [OF creach_suffix [OF assms(1)] assms(4)]
       in \<open>simp_all add: on_response_reason_def in_class_def crlf_def\<close>)
  have st: "client_step 24 CHR 0x0A = Some ([], 20)" by (simp add: client_step_def ragel_step_def client_cases widec_def char_value_def)
  have "creach ?E 20 s ?q ?P" by (rule creach_quiet [OF r' st]) simp
  then show ?thesis by blast
qed

subsection \<open>Fields\<close>

text \<open>The states of \<open>Transfer-Encoding\<close> are those behind a beginning of that name.\<close>

definition te_prefix :: "nat \<Rightarrow> string \<Rightarrow> bool" where
  "te_prefix n w \<longleftrightarrow> (44 \<le> n \<and> n \<le> 60 \<longrightarrow> length w = n - 43 \<and> (\<forall>i < length w. te_match i (w ! i)))"

lemma creach_name:
  assumes "creach (data, q0, P0) n (w @ s) q P" "name_state n" "te_prefix n v" "list_all (in_class token_class) w"
  shows "\<exists>n'. name_state n' \<and> te_prefix n' (v @ w) \<and> creach (data, q0, P0) n' s q P"
  using assms
proof (induction w arbitrary: n v)
  case (Cons c w)
  obtain n1 where n1: "client_step n c = Some ([], n1)" "name_state n1"
      "44 \<le> n1 \<and> n1 \<le> 60 \<longrightarrow> Suc n = n1 \<and> 44 \<le> n \<and> te_match (n1 - 44) c"
    using name_step [OF Cons.prems(2), of c] Cons.prems(4) by auto
  have "te_prefix n1 (v @ [c])"
    using Cons.prems(3) n1(3) by (auto simp: te_prefix_def nth_append less_Suc_eq)
  moreover have "creach (data, q0, P0) n1 (w @ s) q P"
    by (rule creach_step [OF _ n1(1), where new = "[]"]) (use Cons.prems(1) n1(2) in \<open>auto simp: name_state_def\<close>)
  ultimately show ?case using Cons.IH [OF _ n1(2), of "v @ [c]"] Cons.prems(4) by simp
qed auto

lemma te_prefix_name:
  assumes "te_prefix 60 w"
  shows "strcasecmp w ''transfer-encoding'' = 0"
proof -
  let ?l = "''transfer-encoding''" and ?u = "''TRANSFER-ENCODING''"
  have codes: "te_codes = zip (map char_value ?l) (map char_value ?u)" by code_simp
  have low: "map char_tolower ?l = ?l" "map char_tolower ?u = ?l" "c_str ?l = ?l" by code_simp+
  have nul: "list_all (\<lambda>c. of_char c \<noteq> (0 :: nat)) ?l" "list_all (\<lambda>c. of_char c \<noteq> (0 :: nat)) ?u" by code_simp+
  have len: "length w = 17" "length ?l = 17" "length ?u = 17" using assms by (simp_all add: te_prefix_def)
  have w: "w ! i = ?l ! i \<or> w ! i = ?u ! i" if "i < 17" for i
  proof -
    have "te_match i (w ! i)" using assms that by (simp add: te_prefix_def)
    moreover have "te_codes ! i = (char_value (?l ! i), char_value (?u ! i))"
      using that len(2,3) by (simp only: codes nth_zip nth_map length_map)
    ultimately show ?thesis by (simp only: te_match_def fst_conv snd_conv char_value_inj)
  qed
  have "map char_tolower w = ?l"
  proof (rule nth_equalityI)
    show "length (map char_tolower w) = length ?l" using len by simp
    fix i assume "i < length (map char_tolower w)"
    then have i: "i < 17" using len(1) by simp
    have "char_tolower (?l ! i) = ?l ! i" "char_tolower (?u ! i) = ?l ! i"
      using low(1,2) i len(2,3) nth_map [of i ?l char_tolower] nth_map [of i ?u char_tolower] by metis+
    then show "map char_tolower w ! i = ?l ! i" using w [OF i] i len(1) by auto
  qed
  moreover have "c_str w = w"
  proof -
    have "of_char c \<noteq> (0 :: nat)" if cw: "c \<in> set w" for c
    proof -
      obtain i where i: "i < 17" "c = w ! i" using cw unfolding in_set_conv_nth len(1) by blast
      have "of_char (?l ! i) \<noteq> (0 :: nat)" "of_char (?u ! i) \<noteq> (0 :: nat)" using nul i(1) unfolding list_all_length len by blast+
      then show ?thesis using w [OF i(1)] i(2) by (elim disjE) (simp_all only: simp_thms)
    qed
    then show ?thesis by (simp add: c_str_def takeWhile_eq_all_conv)
  qed
  moreover have "c_str x = x \<Longrightarrow> casekey x = map of_char (map char_tolower x)" for x by (simp add: casekey_def)
  ultimately have "casekey w = casekey ?l" using low(1,3) by (simp only:)
  then show ?thesis using strcasecmp_zero by blast
qed

definition cvalue_ok :: "string \<Rightarrow> bool" where
  "cvalue_ok v \<longleftrightarrow> v \<noteq> [] \<and> list_all (in_class value_class) v \<and> in_class first_class (hd v)"

lemma creach_field_name:
  assumes "creach (data, q0, P0) n (k @ '':'' @ s) q P" "line_state n" "name_ok k" "strcasecmp k ''transfer-encoding'' \<noteq> 0"
  shows "\<exists>n' q'. blank_state n' \<and> creach (data, q0, P0) n' s q' P
    \<and> cp_field_start q' = position data (k @ '':'' @ s) \<and> cp_field_len q' = length k"
proof -
  let ?E = "(data, q0, P0)" and ?t = "CHR '':'' # s"
  have suf: "suffix (k @ ?t) data" using creach_suffix [OF assms(1)] by simp
  obtain c w where k: "k = c # w" "in_class token_class c" "list_all (in_class token_class) w"
    using assms(3) by (cases k) (auto simp: name_ok_def)
  obtain as n1 where n1: "client_step n c = Some (as, n1)" "as = [B_start_field] \<or> as = [B_write_connection_close, B_start_field]"
      "name_state n1" "44 \<le> n1 \<and> n1 \<le> 60 \<longrightarrow> n1 = 44 \<and> te_match 0 c"
    using line_step(1) [OF assms(2) k(2)] by blast
  define q1 where "q1 = (if as = [B_start_field] then q else q\<lparr>cp_close := 1\<rparr>)\<lparr>cp_field_start := position data (k @ ?t)\<rparr>"
  have r0: "creach ?E n (c # w @ ?t) q P" and "n1 \<noteq> 0" using assms(1) k(1) n1(3) by (auto simp: name_state_def)
  then have "creach ?E n1 (w @ ?t) q1 P"
    by (intro creach_step [OF r0 n1(1), where new = "[]"]) (use n1(2) k(1) in \<open>auto simp: q1_def\<close>)
  moreover have "te_prefix n1 [c]" using n1(4) by (auto simp: te_prefix_def)
  ultimately obtain n2 where n2: "name_state n2" "te_prefix n2 k" "creach ?E n2 ?t q1 P"
    using creach_name [OF _ n1(3) _ k(3), of data q0 P0 ?t q1 P "[c]"] k(1) by auto
  have "n2 \<noteq> 60" using te_prefix_name n2(2) assms(4) by blast
  then obtain n3 where n3: "client_step n2 CHR '':'' = Some ([B_write_field], n3)" "blank_state n3"
    using colon_step [OF n2(1)] by blast
  then have "n3 \<noteq> 0" by (auto simp: blank_state_def)
  then have "creach ?E n3 s (q1\<lparr>cp_field_len := length k\<rparr>) P"
    by (intro creach_step [OF n2(3) n3(1), where new = "[]"]) (use client_LEN_position [OF suf] in \<open>simp_all add: q1_def\<close>)
  then show ?thesis using n3(2) by (intro exI [of _ n3] exI [of _ "q1\<lparr>cp_field_len := length k\<rparr>"]) (simp add: q1_def)
qed

lemma creach_field_value:
  assumes "creach (data, q0, P0) n (v @ crlf @ s) q P" "blank_state n" "cvalue_ok v"
    and "callbacks (response_callback data)
      [E_response_field (cp_field_start q) (cp_field_len q) (position data (v @ crlf @ s)) (length v)] P = Inr P'"
  shows "\<exists>n' q'. line_state n' \<and> creach (data, q0, P0) n' s q' P'"
proof -
  let ?E = "(data, q0, P0)" and ?q = "q\<lparr>cp_mark := position data (v @ crlf @ s)\<rparr>"
  obtain b u where v: "v = b # u" "in_class first_class b" "list_all (in_class value_class) u"
    using assms(3) by (cases v) (auto simp: cvalue_ok_def)
  obtain n5 where n5: "client_step n b = Some ([B_start_value], n5)" "value_state n5"
    using blank_step(2) [OF assms(2) v(2)] by blast
  have r0: "creach ?E n (b # u @ crlf @ s) q P" and "n5 \<noteq> 0" using assms(1) v(1) n5(2) by (auto simp: value_state_def)
  then have r5: "creach ?E n5 (u @ crlf @ s) ?q P"
    by (intro creach_step [OF r0 n5(1), where new = "[]"]) (simp_all add: v(1))
  have "\<exists>n'. value_state n' \<and> creach ?E n' (crlf @ s) ?q P"
    by (rule creach_within [OF r5 n5(2) _ v(3) value_step(1)]) (simp_all add: value_state_def)
  then obtain n6 where n6: "value_state n6" "creach ?E n6 (CHR 0x0D # CHR 0x0A # s) ?q P" by (auto simp: crlf_def)
  obtain as n7 where n7: "client_step n6 CHR 0x0D = Some (as, n7)" "as = [B_write_value] \<or> as = [B_write_content_len, B_write_value]"
      "cr_state n7"
    using value_step(2) [OF n6(1)] by blast
  define q7 where "q7 = (if as = [B_write_value] then ?q else ?q\<lparr>cp_content_len := to_int (strtol 10 (drop (cp_mark ?q) data))\<rparr>)"
  let ?ev = "E_response_field (cp_field_start q) (cp_field_len q) (position data (v @ crlf @ s)) (length v)"
  have len: "client_LEN (position data (v @ crlf @ s)) (position data (CHR 0x0D # CHR 0x0A # s)) = length v"
    using client_LEN_position [OF creach_suffix [OF assms(1)]] by (simp add: crlf_def)
  have "n7 \<noteq> 0" using n7(3) by (auto simp: cr_state_def)
  then have "creach ?E n7 (CHR 0x0A # s) q7 P'"
    by (intro creach_step [OF n6(2) n7(1), where new = "[?ev]"])
      (use n7(2) len assms(4) in \<open>auto simp: q7_def simp del: length_append\<close>)
  then show ?thesis using creach_quiet cr_step [OF n7(3)] by (metis line_state_def zero_neq_numeral)
qed

lemma creach_field:
  assumes "creach (data, q0, P0) n (k @ '': '' @ v @ crlf @ s) q P" "line_state n" "name_ok k" "strcasecmp k ''transfer-encoding'' \<noteq> 0"
    "cvalue_ok v" "length data < 2 ^ 31"
  shows "\<exists>n' q'. line_state n' \<and> creach (data, q0, P0) n' s q' (P\<lparr>sp_data := rs_setHeader (sp_data P) k v\<rparr>)"
proof -
  let ?E = "(data, q0, P0)" and ?t = "CHR '' '' # v @ crlf @ s"
  have "creach ?E n (k @ '':'' @ ?t) q P" using assms(1) by simp
  from creach_field_name [OF this assms(2-4)] obtain n1 q1 where n1: "blank_state n1" "creach ?E n1 ?t q1 P"
      "cp_field_start q1 = position data (k @ '':'' @ ?t)" "cp_field_len q1 = length k" by blast
  obtain n2 where n2: "client_step n1 CHR '' '' = Some ([B_start_value], n2)" "blank_state n2"
    using blank_step(1) [OF n1(1)] by blast
  let ?q = "q1\<lparr>cp_mark := position data ?t\<rparr>"
  have "n2 \<noteq> 0" using n2(2) by (auto simp: blank_state_def)
  then have r2: "creach ?E n2 (v @ crlf @ s) ?q P" by (intro creach_step [OF n1(2) n2(1), where new = "[]"]) simp_all
  have suf: "suffix (k @ '':'' @ ?t) data" "suffix (v @ crlf @ s) data"
    using creach_suffix [OF assms(1)] creach_suffix [OF r2] by simp_all
  have "k \<noteq> []" using assms(3) by (simp add: name_ok_def)
  then have "callbacks (response_callback data)
      [E_response_field (cp_field_start ?q) (cp_field_len ?q) (position data (v @ crlf @ s)) (length v)] P
      = Inr (P\<lparr>sp_data := rs_setHeader (sp_data P) k v\<rparr>)"
    using std_text [OF suf(1) assms(6)] std_text [OF suf(2) assms(6)] n1(3,4) by (simp add: on_response_http_field_def)
  then show ?thesis using creach_field_value [OF r2 n2(2) assms(5)] by blast
qed

lemma creach_fields:
  assumes "creach (data, q0, P0) n (concat (map (\<lambda>(k, v). k @ '': '' @ v @ crlf) fs) @ s) q P" "line_state n"
    "list_all (\<lambda>(k, v). name_ok k \<and> strcasecmp k ''transfer-encoding'' \<noteq> 0 \<and> cvalue_ok v) fs" "length data < 2 ^ 31"
  shows "\<exists>n' q'. line_state n' \<and> creach (data, q0, P0) n' s q' (P\<lparr>sp_data := rs_hdr.puts (sp_data P) fs\<rparr>)"
  using assms(1-3)
proof (induction fs arbitrary: n q P)
  case Nil
  then show ?case by (auto simp: rs_hdr.puts_def)
next
  case (Cons f fs)
  obtain k v where f: "f = (k, v)" by (cases f)
  obtain n' q' where n': "line_state n'" "creach (data, q0, P0) n' (concat (map (\<lambda>(k, v). k @ '': '' @ v @ crlf) fs) @ s) q'
      (P\<lparr>sp_data := rs_setHeader (sp_data P) k v\<rparr>)"
    using creach_field [of data q0 P0 n k v "concat (map (\<lambda>(k, v). k @ '': '' @ v @ crlf) fs) @ s" q P] Cons.prems f assms(4)
    by auto
  show ?case using Cons.IH [OF n'(2,1)] Cons.prems(3) f by (simp add: rs_hdr.puts_def)
qed

lemma creach_end:
  assumes "creach (data, q0, P0) n (crlf @ s) q P" "line_state n"
  shows "\<exists>q' evs. httpclient_parser_exec q0 data = Inr (120, position data s, q', evs)
    \<and> callbacks (response_callback data) evs P0 = Inr P \<and> cp_chunked q' = cp_chunked q0"
proof -
  obtain as where as: "client_step n CHR 0x0D = Some (as, 3)" "as = [] \<or> as = [B_write_connection_close]"
    using line_step(2) [OF assms(2)] by blast
  define q1 where "q1 = (if as = [] then q else q\<lparr>cp_close := 1\<rparr>)"
  have r0: "creach (data, q0, P0) n (CHR 0x0D # CHR 0x0A # s) q P" using assms(1) by (simp add: crlf_def)
  have "creach (data, q0, P0) 3 (CHR 0x0A # s) q1 P"
    by (rule creach_step [OF r0 as(1), where new = "[]"]) (use as(2) in \<open>auto simp: q1_def\<close>)
  then have r: "client_run.reach data (cp_cs q0) q0 P0 3 (CHR 0x0A # s) q1 P" "cp_chunked q1 = cp_chunked q0"
    by (simp_all add: creach_def)
  have st: "client_step 3 CHR 0x0A = Some ([B_done], 120)"
    by (simp add: client_step_def ragel_step_def client_cases widec_def)
  let ?p = "position data (CHR 0x0A # s)"
  have "\<exists>evs. ragel_exec client_step (client_action data) (\<lambda>a. a = B_done) (cp_cs q0) 0 data (q0, [])
      = Inr (120, position data s, q1\<lparr>cp_body_start := ?p + 1\<rparr>, evs) \<and> callbacks (response_callback data) evs P0 = Inr P"
    by (rule client_run.reach_break [OF r(1) st, where new = "[E_response_header_done (?p + 1) (length data - ?p - 1)]"])
      (simp_all add: on_response_header_done_def)
  then show ?thesis using r(2) by (auto simp: httpclient_parser_exec_def)
qed

section \<open>A whole response\<close>

lemma client_execute_exec:
  assumes "cp_body_start q \<le> length buffer" "length buffer < 2 ^ 31"
    and "httpclient_parser_exec (q\<lparr>cp_nread := 0, cp_mark := 0, cp_field_len := 0, cp_field_start := 0\<rparr>) buffer = Inr (cs, p, r, evs)"
  shows "httpclient_parser_execute q buffer = Inr (p, r\<lparr>cp_cs := cs, cp_nread := p\<rparr>, evs)"
proof -
  let ?q = "q\<lparr>cp_nread := 0, cp_mark := 0, cp_field_len := 0, cp_field_start := 0\<rparr>"
  have "client_marks (length buffer) p (r, evs)" "p \<le> length buffer" "cp_body_start r \<le> length buffer"
    using client_exec_ok [of ?q buffer] assms(1,3) by auto
  then show ?thesis
    using assms(3) to_int_nat [OF assms(2)] by (simp add: httpclient_parser_execute_def Let_def client_marks_def)
qed

definition response_text :: "char \<Rightarrow> string \<Rightarrow> string \<Rightarrow> (string \<times> string) list \<Rightarrow> string" where
  "response_text d status reason fs =
     ''HTTP/1.'' @ d # '' '' @ status @ '' '' @ reason @ crlf @ concat (map (\<lambda>(k, v). k @ '': '' @ v @ crlf) fs) @ crlf"

definition cfield_ok :: "string \<times> string \<Rightarrow> bool" where
  "cfield_ok = (\<lambda>(k, v). name_ok k \<and> strcasecmp k ''transfer-encoding'' \<noteq> 0 \<and> cvalue_ok v)"

definition parsed_response :: "char \<Rightarrow> string \<Rightarrow> string \<Rightarrow> (string \<times> string) list \<Rightarrow> HttpResponse" where
  "parsed_response d status reason fs =
     rs_hdr.puts ((new_HttpResponse (if d = CHR ''1'' then 0x11 else 0x10) True)
       \<lparr>rs_status := word_of_nat (dec_value status), rs_reason := reason\<rparr>) fs"

text \<open>A well-formed head, in one buffer.\<close>

lemma response_head_read:
  assumes "d = CHR ''0'' \<or> d = CHR ''1''" "all_digits status" "status \<noteq> []" "list_all (in_class reason_class) reason" "reason \<noteq> []"
    "list_all cfield_ok fs" "length data < 2 ^ 31" "data = response_text d status reason fs @ body"
  shows "\<exists>p. response_execute (client_machine q) data False (new_HttpResponseParser (client_machine q))
      = Inr (length data - length body, body, p)
    \<and> response_isFinished (client_machine q) p = 1 \<and> \<not> response_hasError (client_machine q) p
    \<and> sp_data p = parsed_response d status reason fs \<and> \<not> ci_chunked client_chunks (sp_parser p)"
proof -
  let ?q = "httpclient_parser_init q" and ?P = "new_HttpResponseParser (client_machine q)"
  let ?q' = "?q\<lparr>cp_nread := 0, cp_mark := 0, cp_field_len := 0, cp_field_start := 0\<rparr>"
  let ?E = "(data, ?q', ?P)" and ?fs = "concat (map (\<lambda>(k, v). k @ '': '' @ v @ crlf) fs) @ crlf @ body"
  have big: "length data < 2 ^ 31" using assms(7) by simp
  define P1 where "P1 = ?P\<lparr>sp_data := (sp_data ?P)\<lparr>rs_version := if d = CHR ''1'' then 0x11 else 0x10\<rparr>\<rparr>"
  define P2 where "P2 = P1\<lparr>sp_data := (sp_data P1)\<lparr>rs_status := word_of_nat (dec_value status)\<rparr>\<rparr>"
  define P3 where "P3 = P2\<lparr>sp_data := (sp_data P2)\<lparr>rs_reason := reason\<rparr>\<rparr>"
  have "creach ?E 1 (''HTTP/1.'' @ d # '' '' @ status @ '' '' @ reason @ crlf @ ?fs) ?q' ?P"
    using creach_start [of data ?q' ?P] assms(8) by (simp add: httpclient_parser_init_def httpclient_parser_start_def response_text_def)
  from creach_version [OF this assms(1)] obtain q1 where "creach ?E 16 (status @ '' '' @ reason @ crlf @ ?fs) q1 P1" unfolding P1_def by blast
  from creach_status [OF this assms(2,3)] obtain q2 where "creach ?E 18 (reason @ crlf @ ?fs) q2 P2" unfolding P2_def by blast
  from creach_reason [OF this assms(4,5) big] obtain q3 where "creach ?E 20 ?fs q3 P3" unfolding P3_def by blast
  moreover have "line_state 20" by (simp add: line_state_def)
  ultimately obtain n4 q4
    where "line_state n4" "creach ?E n4 (crlf @ body) q4 (P3\<lparr>sp_data := rs_hdr.puts (sp_data P3) fs\<rparr>)"
    using creach_fields [OF _ _ assms(6) [unfolded cfield_ok_def] big] by blast
  from creach_end [OF this(2,1)] obtain r evs where e: "httpclient_parser_exec ?q' data = Inr (120, length data - length body, r, evs)"
      "callbacks (response_callback data) evs ?P = Inr (P3\<lparr>sp_data := rs_hdr.puts (sp_data P3) fs\<rparr>)" "cp_chunked r = 0"
    by (auto simp: httpclient_parser_init_def)
  have x: "httpclient_parser_execute ?q data = Inr (length data - length body, r\<lparr>cp_cs := 120, cp_nread := length data - length body\<rparr>, evs)"
    by (rule client_execute_exec [OF _ assms(7) e(1)]) (simp add: httpclient_parser_init_def)
  have "drop (length data - length body) data = body" unfolding assms(8) by simp
  moreover have "sp_data (P3\<lparr>sp_data := rs_hdr.puts (sp_data P3) fs\<rparr>) = parsed_response d status reason fs" "sp_error P3 = 0"
    by (simp_all add: P3_def P2_def P1_def parsed_response_def new_HttpResponseParser_def new_HttpResponse_def)
  ultimately show ?thesis
    using e(2,3) x
    by (simp add: response_execute_def client_machine_def new_HttpResponseParser_def response_isFinished_def response_hasError_def
        mc_finish_def httpclient_parser_has_error_def httpclient_parser_is_finished_def httpclient_parser_error_def
        httpclient_parser_first_final_def client_chunks_def)
qed

section \<open>Reading a dump\<close>

definition phrase :: "HttpResponse \<Rightarrow> string" where
  "phrase r = (if rs_reason r = [] then HttpStatusToString (rs_status r) else rs_reason r)"

text \<open>The fields \<open>HttpResponse::dump\<close> writes.\<close>

definition rs_dump_fields :: "HttpResponse \<Rightarrow> (string \<times> string) list" where
  "rs_dump_fields r =
     filter (\<lambda>(k, v). strcasecmp k ''connection'' \<noteq> 0) (rs_headers r)
     @ (''connection'', if rs_close r then ''close'' else ''keep-alive'')
     # (if rs_body r = [] then [] else [(''content-length'', nat_to_string (length (rs_body r)))])"

lemma version_chars:
  "v = 0x10 \<and> d = CHR ''0'' \<or> v = 0x11 \<and> d = CHR ''1'' \<Longrightarrow> version_string v = ''HTTP/1.'' @ [d]"
proof -
  have "nat_to_string 0 = ''0''" "nat_to_string 1 = ''1''" by code_simp+
  then show "v = 0x10 \<and> d = CHR ''0'' \<or> v = 0x11 \<and> d = CHR ''1'' \<Longrightarrow> version_string v = ''HTTP/1.'' @ [d]"
    by (auto simp: version_string_def)
qed

lemma rs_dump_text:
  assumes "rs_version r = 0x10 \<and> d = CHR ''0'' \<or> rs_version r = 0x11 \<and> d = CHR ''1''"
  shows "HttpResponse_dump r = response_text d (nat_to_string (unat (rs_status r))) (phrase r) (rs_dump_fields r) @ rs_body r"
proof -
  have h: "dump_headers '': '' hs = concat (map (\<lambda>(k, v). k @ '': '' @ v @ crlf) (filter (\<lambda>(k, v). strcasecmp k ''connection'' \<noteq> 0) hs))" for hs
    by (induction hs) (auto simp: dump_headers_def)
  show ?thesis
    by (simp add: HttpResponse_dump_def response_text_def version_chars [OF assms] h rs_dump_fields_def phrase_def close_string_def dump_body_def)
qed

definition rs_dumps_well :: "HttpResponse \<Rightarrow> bool" where
  "rs_dumps_well r \<longleftrightarrow>
     rs_version r \<in> {0x10, 0x11} \<and> list_all (in_class reason_class) (rs_reason r)
     \<and> list_all (\<lambda>(k, v). name_ok k \<and> cvalue_ok v \<and> strcasecmp k ''transfer-encoding'' \<noteq> 0) (rs_headers r)"

lemma status_phrases: "list_all (\<lambda>(c, msg). msg \<noteq> [] \<and> list_all (in_class reason_class) msg) HTTP_STATUS_MAP"
  by code_simp

lemma phrase_ok: "list_all (in_class reason_class) (rs_reason r) \<Longrightarrow> phrase r \<noteq> [] \<and> list_all (in_class reason_class) (phrase r)"
proof -
  have unknown: "list_all (in_class reason_class) ''<unknown>''" by code_simp
  have "HttpStatusToString s \<noteq> [] \<and> list_all (in_class reason_class) (HttpStatusToString s)" for s
  proof (cases "map_of HTTP_STATUS_MAP s")
    case None
    then show ?thesis using unknown by (simp add: HttpStatusToString_def)
  next
    case (Some msg)
    then show ?thesis using status_phrases map_of_SomeD [OF Some] by (auto simp: HttpStatusToString_def list_all_iff)
  qed
  then show "list_all (in_class reason_class) (rs_reason r) \<Longrightarrow> phrase r \<noteq> [] \<and> list_all (in_class reason_class) (phrase r)"
    by (simp add: phrase_def)
qed

lemma digits_cvalue:
  assumes "all_digits w" "w \<noteq> []"
  shows "cvalue_ok w"
proof -
  have "list_all (in_class digit_class) w" by (rule digits_class [OF assms(1)])
  then have "list_all (in_class value_class) w" "list_all (in_class first_class) w"
    by (auto simp: list_all_iff in_class_def digit_class_def client_class_defs)
  then show ?thesis using assms(2) by (cases w) (simp_all add: cvalue_ok_def)
qed

lemma rs_dump_fields_ok: "rs_dumps_well r \<Longrightarrow> list_all cfield_ok (rs_dump_fields r)"
proof -
  assume r: "rs_dumps_well r"
  have "cfield_ok (''connection'', ''close'')" "cfield_ok (''connection'', ''keep-alive'')"
    "name_ok ''content-length''" "strcasecmp ''content-length'' ''transfer-encoding'' \<noteq> 0"
    by code_simp+
  moreover have "cvalue_ok (nat_to_string n)" for n by (rule digits_cvalue [OF nat_to_string_digits]) simp
  ultimately show ?thesis
    using r by (auto simp: rs_dumps_well_def rs_dump_fields_def list_all_iff cfield_ok_def split: prod.splits)
qed

text \<open>What the parser has after reading a dump: the reason is never empty, \<open>connection\<close> and \<open>content-length\<close> are
  ordinary fields, \<open>close\<close> keeps its default.\<close>

definition rs_reread :: "HttpResponse \<Rightarrow> HttpResponse" where
  "rs_reread r = rs_hdr.puts (r\<lparr>rs_reason := phrase r, rs_close := True, rs_headers := [], rs_body := []\<rparr>) (rs_dump_fields r)"

lemma response_head_dump_read:
  assumes "rs_dumps_well r"
  obtains head where "HttpResponse_dump r = head @ rs_body r" "head \<noteq> []"
    and "\<forall>x. length (head @ x) < 2 ^ 31 \<longrightarrow>
      (\<exists>p. response_execute (client_machine q) (head @ x) False (new_HttpResponseParser (client_machine q)) = Inr (length head, x, p)
        \<and> response_isFinished (client_machine q) p = 1 \<and> \<not> response_hasError (client_machine q) p
        \<and> sp_data p = rs_reread r \<and> \<not> ci_chunked client_chunks (sp_parser p))"
proof -
  obtain d where d: "d = CHR ''0'' \<or> d = CHR ''1''" "rs_version r = 0x10 \<and> d = CHR ''0'' \<or> rs_version r = 0x11 \<and> d = CHR ''1''"
    using assms by (auto simp: rs_dumps_well_def)
  let ?head = "response_text d (nat_to_string (unat (rs_status r))) (phrase r) (rs_dump_fields r)"
  have "parsed_response d (nat_to_string (unat (rs_status r))) (phrase r) (rs_dump_fields r) = rs_reread r"
    using d(2) by (cases r) (auto simp: parsed_response_def rs_reread_def new_HttpResponse_def dec_value_to_string)
  moreover have "?head \<noteq> []" unfolding response_text_def by simp
  ultimately show ?thesis
    using that [of ?head] rs_dump_text [OF d(2)] phrase_ok assms
      response_head_read [OF d(1) nat_to_string_digits _ _ _ rs_dump_fields_ok [OF assms] _ refl, of "unat (rs_status r)" "phrase r" _ q]
    by (simp add: rs_dumps_well_def)
qed

lemma response_dump_read:
  assumes "rs_dumps_well r" "length (HttpResponse_dump r) < 2 ^ 31"
  shows "\<exists>p. response_execute (client_machine q) (HttpResponse_dump r) False (new_HttpResponseParser (client_machine q))
      = Inr (length (HttpResponse_dump r) - length (rs_body r), rs_body r, p)
    \<and> response_isFinished (client_machine q) p = 1 \<and> \<not> response_hasError (client_machine q) p
    \<and> sp_data p = rs_reread r \<and> \<not> ci_chunked client_chunks (sp_parser p)"
  using response_head_dump_read [OF assms(1), of q] assms(2) by (metis add_diff_cancel_right' length_append)

section \<open>A head the parser does not take for finished\<close>

text \<open>An empty \<open>connection\<close> field as the last one: the machine runs the action for the end of the head but stops in a
  final state other than \<open>first_final\<close>, the only one \<open>is_finished\<close> knows.  Executed again on a buffer whose first
  byte does not continue that field, the machine stops at once; when the buffer is shorter than the head, the
  assertion on \<open>body_start\<close> fails.\<close>

definition odd_text :: "char \<Rightarrow> string \<Rightarrow> string \<Rightarrow> (string \<times> string) list \<Rightarrow> string" where
  "odd_text d status reason fs =
     ''HTTP/1.'' @ d # '' '' @ status @ '' '' @ reason @ crlf @ concat (map (\<lambda>(k, v). k @ '': '' @ v @ crlf) fs)
     @ ''Connection:'' @ crlf @ crlf"

text \<open>A blank or a \<open>c\<close>, the beginning of \<open>close\<close>.\<close>

definition continues_connection :: "char \<Rightarrow> bool" where
  "continues_connection c \<longleftrightarrow> in_class [(32, 32), (67, 67), (99, 99), (9, 13)] c"

lemma odd_cases_6:
  "find_case client_blocks 26 = Some ([], [
     (33, 33, St 21), (58, 58, Tr 39), (78, 78, St 27), (110, 110, St 27), (124, 124, St 21), (126, 126, St
     21), (42, 43, St 21), (35, 39, St 21), (48, 57, St 21), (94, 122, St 21), (65, 90, St 21), (45, 46, St
     21)], St 0)"
  "find_case client_blocks 27 = Some ([], [
     (33, 33, St 21), (58, 58, Tr 39), (78, 78, St 28), (84, 84, St 101), (110, 110, St 28), (116, 116, St
     101), (124, 124, St 21), (126, 126, St 21), (42, 43, St 21), (35, 39, St 21), (48, 57, St 21),
     (94, 122, St 21), (65, 90, St 21), (45, 46, St 21)], St 0)"
  "find_case client_blocks 28 = Some ([], [
     (33, 33, St 21), (58, 58, Tr 39), (69, 69, St 29), (101, 101, St 29), (124, 124, St 21), (126, 126, St
     21), (42, 43, St 21), (35, 39, St 21), (48, 57, St 21), (94, 122, St 21), (65, 90, St 21), (45, 46, St
     21)], St 0)"
  "find_case client_blocks 29 = Some ([], [
     (33, 33, St 21), (58, 58, Tr 39), (67, 67, St 30), (99, 99, St 30), (124, 124, St 21), (126, 126, St 21),
     (42, 43, St 21), (35, 39, St 21), (48, 57, St 21), (94, 122, St 21), (65, 90, St 21), (45, 46, St 21)], St 0)"
  "find_case client_blocks 30 = Some ([], [
     (33, 33, St 21), (58, 58, Tr 39), (84, 84, St 31), (116, 116, St 31), (124, 124, St 21), (126, 126, St
     21), (42, 43, St 21), (35, 39, St 21), (48, 57, St 21), (94, 122, St 21), (65, 90, St 21), (45, 46, St
     21)], St 0)"
  by (simp_all add: client_lookup client_blocks_6_def)

lemma odd_cases_7:
  "find_case client_blocks 31 = Some ([], [
     (33, 33, St 21), (58, 58, Tr 39), (73, 73, St 32), (105, 105, St 32), (124, 124, St 21), (126, 126, St
     21), (42, 43, St 21), (35, 39, St 21), (48, 57, St 21), (94, 122, St 21), (65, 90, St 21), (45, 46, St
     21)], St 0)"
  "find_case client_blocks 32 = Some ([], [
     (33, 33, St 21), (58, 58, Tr 39), (79, 79, St 33), (111, 111, St 33), (124, 124, St 21), (126, 126, St
     21), (42, 43, St 21), (35, 39, St 21), (48, 57, St 21), (94, 122, St 21), (65, 90, St 21), (45, 46, St
     21)], St 0)"
  "find_case client_blocks 33 = Some ([], [
     (33, 33, St 21), (58, 58, Tr 39), (78, 78, St 34), (110, 110, St 34), (124, 124, St 21), (126, 126, St
     21), (42, 43, St 21), (35, 39, St 21), (48, 57, St 21), (94, 122, St 21), (65, 90, St 21), (45, 46, St
     21)], St 0)"
  "find_case client_blocks 34 = Some ([], [
     (33, 33, St 21), (58, 58, Tr 58), (124, 124, St 21), (126, 126, St 21), (42, 43, St 21), (35, 39, St 21),
     (48, 57, St 21), (94, 122, St 21), (65, 90, St 21), (45, 46, St 21)], St 0)"
  by (simp_all add: client_lookup client_blocks_7_def)

lemma odd_cases_16:
  "find_case client_blocks 89 = Some ([], [
     (10, 10, Tr 64), (32, 32, St 37), (67, 67, St 38), (99, 99, St 38), (9, 13, St 37)], St 0)"
  "find_case client_blocks 122 = Some ([], [
     (32, 32, St 37), (67, 67, St 38), (99, 99, St 38), (9, 13, St 37)], St 0)"
  by (simp_all add: client_lookup client_blocks_16_def)

lemma odd_start:
  assumes "line_state n"
  shows "\<exists>as. client_step n CHR ''C'' = Some (as, 25) \<and> (as = [B_start_field] \<or> as = [B_write_connection_close, B_start_field])"
  using assms by (auto simp: line_state_def client_step_def ragel_step_def client_cases widec_def char_value_def)

lemma odd_steps:
  "client_step 25 CHR ''o'' = Some ([], 26)"
  "client_step 26 CHR ''n'' = Some ([], 27)" "client_step 27 CHR ''n'' = Some ([], 28)"
  "client_step 28 CHR ''e'' = Some ([], 29)" "client_step 29 CHR ''c'' = Some ([], 30)"
  "client_step 30 CHR ''t'' = Some ([], 31)" "client_step 31 CHR ''i'' = Some ([], 32)"
  "client_step 32 CHR ''o'' = Some ([], 33)" "client_step 33 CHR ''n'' = Some ([], 34)"
  "client_step 34 CHR '':'' = Some ([B_write_field], 35)" "client_step 35 CHR 0x0D = Some ([B_start_value, B_write_value], 95)"
  "client_step 95 CHR 0x0A = Some ([], 36)" "client_step 36 CHR 0x0D = Some ([], 89)"
  "client_step 89 CHR 0x0A = Some ([B_done], 122)"
  by (simp_all add: client_step_def ragel_step_def client_cases odd_cases_6 odd_cases_7 odd_cases_16 widec_def char_value_def)

lemma odd_stop: "\<not> continues_connection c \<Longrightarrow> client_step 122 c = Some ([], 0)"
  by (auto simp: continues_connection_def in_class_def client_step_def ragel_step_def client_cases odd_cases_16 widec_def)

lemma odd_field_reach:
  assumes "creach (data, q0, P0) n (''Connection:'' @ crlf @ crlf @ x) q P" "line_state n" "length data < 2 ^ 31"
  shows "\<exists>q' P'. creach (data, q0, P0) 89 (CHR 0x0A # x) q' P' \<and> sp_error P' = sp_error P"
proof -
  let ?E = "(data, q0, P0)" and ?fs = "''Connection:'' @ crlf @ crlf @ x"
  obtain as where as: "client_step n CHR ''C'' = Some (as, 25)" "as = [B_start_field] \<or> as = [B_write_connection_close, B_start_field]"
    using odd_start [OF assms(2)] by blast
  define q3 where "q3 = (if as = [B_start_field] then q else q\<lparr>cp_close := 1\<rparr>)"
  let ?q4 = "q3\<lparr>cp_field_start := position data ?fs\<rparr>" and ?q5 = "q3\<lparr>cp_field_start := position data ?fs, cp_field_len := 10\<rparr>"
  have "creach ?E n (CHR ''C'' # ''onnection:'' @ crlf @ crlf @ x) q P" using assms(1) by simp
  then have "creach ?E 25 (''onnection:'' @ crlf @ crlf @ x) ?q4 P"
    by (rule creach_step [OF _ as(1), where new = "[]"]) (use as(2) in \<open>auto simp: q3_def\<close>)
  then have "creach ?E 26 (''nnection:'' @ crlf @ crlf @ x) ?q4 P" using creach_quiet [OF _ odd_steps(1)] by simp
  then have "creach ?E 27 (''nection:'' @ crlf @ crlf @ x) ?q4 P" using creach_quiet [OF _ odd_steps(2)] by simp
  then have "creach ?E 28 (''ection:'' @ crlf @ crlf @ x) ?q4 P" using creach_quiet [OF _ odd_steps(3)] by simp
  then have "creach ?E 29 (''ction:'' @ crlf @ crlf @ x) ?q4 P" using creach_quiet [OF _ odd_steps(4)] by simp
  then have "creach ?E 30 (''tion:'' @ crlf @ crlf @ x) ?q4 P" using creach_quiet [OF _ odd_steps(5)] by simp
  then have "creach ?E 31 (''ion:'' @ crlf @ crlf @ x) ?q4 P" using creach_quiet [OF _ odd_steps(6)] by simp
  then have "creach ?E 32 (''on:'' @ crlf @ crlf @ x) ?q4 P" using creach_quiet [OF _ odd_steps(7)] by simp
  then have "creach ?E 33 (''n:'' @ crlf @ crlf @ x) ?q4 P" using creach_quiet [OF _ odd_steps(8)] by simp
  then have "creach ?E 34 ('':'' @ crlf @ crlf @ x) ?q4 P" using creach_quiet [OF _ odd_steps(9)] by simp
  then have "creach ?E 34 (CHR '':'' # crlf @ crlf @ x) ?q4 P" by simp
  then have "creach ?E 35 (crlf @ crlf @ x) ?q5 P"
    by (rule creach_step [OF _ odd_steps(10), where new = "[]"])
      (use client_LEN_position [of "''Connection''" "'':'' @ crlf @ crlf @ x" data] creach_suffix [OF assms(1)] in simp_all)
  then have r: "creach ?E 35 (CHR 0x0D # CHR 0x0A # crlf @ x) ?q5 P" by (simp add: crlf_def)
  let ?p = "position data (CHR 0x0D # CHR 0x0A # crlf @ x)"
  have name: "std_string data (position data ?fs) 10 = Inr ''Connection''"
  proof -
    have l: "length ''Connection'' = 10" by simp
    have "suffix (''Connection'' @ '':'' @ crlf @ crlf @ x) data" using creach_suffix [OF assms(1)] by simp
    from std_text [OF this assms(3)] show ?thesis unfolding l by simp
  qed
  have val: "std_string data ?p 0 = Inr []" by (simp add: std_string_def str_at_def)
  have "creach ?E 95 (CHR 0x0A # crlf @ x) (?q5\<lparr>cp_mark := ?p\<rparr>) (P\<lparr>sp_data := rs_setHeader (sp_data P) ''Connection'' []\<rparr>)"
    by (rule creach_step [OF r odd_steps(11), where new = "[E_response_field (position data ?fs) 10 ?p 0]"])
      (use name val in \<open>simp_all add: client_LEN_def on_response_http_field_def\<close>)
  then obtain q6 P6 where q6: "creach ?E 95 (CHR 0x0A # crlf @ x) q6 P6" "sp_error P6 = sp_error P" by fastforce
  then have "creach ?E 36 (CHR 0x0D # CHR 0x0A # x) q6 P6" using creach_quiet [OF _ odd_steps(12)] by (simp add: crlf_def)
  then have "creach ?E 89 (CHR 0x0A # x) q6 P6" using creach_quiet [OF _ odd_steps(13)] by simp
  then show ?thesis using q6(2) by blast
qed

lemma odd_head_reach:
  fixes q :: httpclient_parser
  defines "P0 \<equiv> new_HttpResponseParser (client_machine q)"
    and "q0 \<equiv> (httpclient_parser_init q)\<lparr>cp_nread := 0, cp_mark := 0, cp_field_len := 0, cp_field_start := 0\<rparr>"
  assumes "d = CHR ''0'' \<or> d = CHR ''1''" "all_digits status" "status \<noteq> []" "list_all (in_class reason_class) reason" "reason \<noteq> []"
    "list_all cfield_ok fs" "length data < 2 ^ 31" "data = odd_text d status reason fs @ x"
  shows "\<exists>q' P. creach (data, q0, P0) 89 (CHR 0x0A # x) q' P \<and> sp_error P = 0"
proof -
  let ?E = "(data, q0, P0)" and ?c = "''Connection:'' @ crlf @ crlf @ x"
  let ?fs = "concat (map (\<lambda>(k, v). k @ '': '' @ v @ crlf) fs) @ ?c"
  have "creach ?E 1 (''HTTP/1.'' @ d # '' '' @ status @ '' '' @ reason @ crlf @ ?fs) q0 P0"
    using creach_start [of data q0 P0] assms(10)
    by (simp add: q0_def httpclient_parser_init_def httpclient_parser_start_def odd_text_def)
  from creach_version [OF this assms(3)] obtain q1 P1 where "creach ?E 16 (status @ '' '' @ reason @ crlf @ ?fs) q1 P1" "sp_error P1 = 0"
    by (auto simp: P0_def new_HttpResponseParser_def)
  then obtain q2 P2 where "creach ?E 18 (reason @ crlf @ ?fs) q2 P2" "sp_error P2 = 0"
    using creach_status [OF _ assms(4,5)] by fastforce
  then obtain q3 P3 where q3: "creach ?E 20 ?fs q3 P3" "sp_error P3 = 0"
    using creach_reason [OF _ assms(6,7,9)] by fastforce
  have "line_state 20" by (simp add: line_state_def)
  then obtain n4 q4 where n4: "line_state n4" "creach ?E n4 ?c q4 (P3\<lparr>sp_data := rs_hdr.puts (sp_data P3) fs\<rparr>)"
    using creach_fields [OF q3(1) _ assms(8) [unfolded cfield_ok_def] assms(9)] by blast
  show ?thesis using odd_field_reach [OF n4(2,1) assms(9)] q3(2) by simp
qed

lemma odd_head_read:
  assumes "d = CHR ''0'' \<or> d = CHR ''1''" "all_digits status" "status \<noteq> []" "list_all (in_class reason_class) reason" "reason \<noteq> []"
    "list_all cfield_ok fs" "head = odd_text d status reason fs" "length (head @ x) < 2 ^ 31"
  shows "\<exists>p. response_execute (client_machine q) (head @ x) False (new_HttpResponseParser (client_machine q)) = Inr (length head, x, p)
    \<and> response_isFinished (client_machine q) p = 0 \<and> \<not> response_hasError (client_machine q) p
    \<and> (\<forall>c y. \<not> continues_connection c \<and> length (c # y) < 2 ^ 31 \<longrightarrow>
         (if length (c # y) < length head then response_execute (client_machine q) (c # y) False p = Inl AssertFail
          else \<exists>p'. response_execute (client_machine q) (c # y) False p = Inr (0, c # y, p') \<and> response_hasError (client_machine q) p'))"
proof -
  let ?q = "httpclient_parser_init q" and ?P = "new_HttpResponseParser (client_machine q)" and ?data = "head @ x"
  let ?q' = "?q\<lparr>cp_nread := 0, cp_mark := 0, cp_field_len := 0, cp_field_start := 0\<rparr>"
  obtain r P where r: "creach (?data, ?q', ?P) 89 (CHR 0x0A # x) r P" "sp_error P = 0"
    using odd_head_reach [OF assms(1-6,8), where x = x] assms(7) by blast
  let ?p = "position ?data (CHR 0x0A # x)"
  have p: "Suc ?p = length head" by (simp add: assms(7) odd_text_def crlf_def)
  obtain evs where e: "httpclient_parser_exec ?q' ?data = Inr (122, length head, r\<lparr>cp_body_start := length head\<rparr>, evs)"
      "callbacks (response_callback ?data) evs ?P = Inr P"
    using client_run.reach_break [OF _ odd_steps(14), of ?data "cp_cs ?q'" ?q' ?P x r P "r\<lparr>cp_body_start := length head\<rparr>"
        "[E_response_header_done (?p + 1) (length ?data - ?p - 1)]" P] r p
    by (auto simp: creach_def httpclient_parser_exec_def on_response_header_done_def)
  let ?r = "r\<lparr>cp_body_start := length head, cp_cs := 122, cp_nread := length head\<rparr>"
  have x: "httpclient_parser_execute ?q ?data = Inr (length head, ?r, evs)"
    using client_execute_exec [OF _ assms(8) e(1)] by (simp add: httpclient_parser_init_def)
  have again: "httpclient_parser_execute ?r (c # y)
      = (if length (c # y) < length head then Inl AssertFail
         else Inr (0, ?r\<lparr>cp_nread := 0, cp_mark := 0, cp_field_len := 0, cp_field_start := 0, cp_cs := 0\<rparr>, []))"
    if c: "\<not> continues_connection c" "length (c # y) < 2 ^ 31" for c y
  proof -
    have "httpclient_parser_exec (?r\<lparr>cp_nread := 0, cp_mark := 0, cp_field_len := 0, cp_field_start := 0\<rparr>) (c # y)
        = Inr (0, 0, ?r\<lparr>cp_nread := 0, cp_mark := 0, cp_field_len := 0, cp_field_start := 0\<rparr>, [])"
      by (simp add: httpclient_parser_exec_def odd_stop [OF c(1)])
    then show ?thesis using to_int_nat [OF c(2)] by (simp add: httpclient_parser_execute_def Let_def not_less)
  qed
  let ?P' = "P\<lparr>sp_parser := ?r\<rparr>"
  have "response_execute (client_machine q) ?data False ?P = Inr (length head, x, ?P')"
    using e(2) x by (simp add: response_execute_def client_machine_def new_HttpResponseParser_def)
  moreover have "response_isFinished (client_machine q) ?P' = 0" "\<not> response_hasError (client_machine q) ?P'"
    using r(2) by (simp_all add: client_machine_def response_isFinished_def response_hasError_def mc_finish_def
        httpclient_parser_has_error_def httpclient_parser_is_finished_def httpclient_parser_error_def httpclient_parser_first_final_def)
  moreover have "if length (c # y) < length head then response_execute (client_machine q) (c # y) False ?P' = Inl AssertFail
      else \<exists>p'. response_execute (client_machine q) (c # y) False ?P' = Inr (0, c # y, p') \<and> response_hasError (client_machine q) p'"
    if "\<not> continues_connection c \<and> length (c # y) < 2 ^ 31" for c y
    using again [of c y] that
    by (simp add: response_execute_def client_machine_def response_hasError_def httpclient_parser_has_error_def httpclient_parser_error_def)
  ultimately show ?thesis by blast
qed

section \<open>A buffer that starts with a line end\<close>

text \<open>Neither a status line nor the head of a chunk starts with a line end.\<close>

lemma client_rejects: "client_step 1 CHR 0x0D = Some ([], 0)"
  by (simp add: client_step_def ragel_step_def client_cases widec_def char_value_def del: One_nat_def)

lemma chunk_rejects:
  assumes "length d < 2 ^ 31 - 1"
  shows "\<exists>p'. response_execute (client_machine q) (CHR 0x0D # d) True p = Inr (0, CHR 0x0D # d, p') \<and> response_hasError (client_machine q) p'"
proof -
  let ?q = "httpclient_parser_init q"
  have "httpclient_parser_exec (?q\<lparr>cp_nread := 0, cp_mark := 0, cp_field_len := 0, cp_field_start := 0\<rparr>) (CHR 0x0D # d)
      = Inr (0, 0, ?q, [])"
    by (simp add: httpclient_parser_exec_def httpclient_parser_init_def httpclient_parser_start_def client_rejects del: One_nat_def)
  moreover have "cp_body_start ?q \<le> length (CHR 0x0D # d)" "length (CHR 0x0D # d) < 2 ^ 31"
    using assms by (simp_all add: httpclient_parser_init_def)
  ultimately have "httpclient_parser_execute ?q (CHR 0x0D # d) = Inr (0, ?q\<lparr>cp_cs := 0, cp_nread := 0\<rparr>, [])"
    by (intro client_execute_exec)
  then show ?thesis
    by (auto simp: response_execute_def client_machine_def response_hasError_def httpclient_parser_has_error_def httpclient_parser_error_def)
qed

end
