(* ===== verification/HttpServer.thy ===== *)
theory HttpServer
  imports Servlet HttpSession TcpServer
begin

text \<open>
  \<^verbatim>\<open>src/myhttp/http/http_server.h\<close> and \<^verbatim>\<open>http_server.cpp\<close>: a \<open>TcpServer\<close> whose \<open>handleClient\<close> serves the
  requests of one connection through the dispatcher.  The loop runs as long as requests arrive, so it may
  not end: \<open>None\<close>.  \<open>close_s\<close> is the \<open>close\<close> of the session's stream.
\<close>

section \<open>Definitions\<close>

record 's HttpServer = TcpServer +
  m_isKeepalive :: bool
  m_dispatch :: "'s dispatcher"

definition new_HttpServer :: "u64 \<Rightarrow> bool \<Rightarrow> 's HttpServer" where
  "new_HttpServer read_timeout keepalive =
     TcpServer.TcpServer.extend (new_TcpServer read_timeout) \<lparr>m_isKeepalive = keepalive, m_dispatch = ServletDispatch\<rparr>"

definition getServletDispath :: "'s HttpServer \<Rightarrow> 's dispatcher" where
  "getServletDispath sv = m_dispatch sv"

definition setServletDispath :: "'s dispatcher \<Rightarrow> 's HttpServer \<Rightarrow> 's HttpServer" where
  "setServletDispath v sv = sv\<lparr>m_dispatch := v\<rparr>"

definition response_for :: "bool \<Rightarrow> HttpRequest \<Rightarrow> HttpResponse" where
  "response_for keepalive req = new_HttpResponse (rq_version req) (rq_close req \<or> \<not> keepalive)"

partial_function (option) handleClient_loop ::
  "('s \<Rightarrow> (HttpRequest option \<times> 's) result option) \<Rightarrow> (HttpResponse \<Rightarrow> 's \<Rightarrow> (u32 \<times> 's) result option)
     \<Rightarrow> (string \<Rightarrow> string \<Rightarrow> bool) \<Rightarrow> bool \<Rightarrow> 's dispatcher \<Rightarrow> 's \<Rightarrow> 's result option"
where
  "handleClient_loop recv send fnmatch keepalive d s =
     (case recv s of
        None \<Rightarrow> None
      | Some (Inl e) \<Rightarrow> Some (Inl e)
      | Some (Inr (None, s)) \<Rightarrow> Some (Inr s)
      | Some (Inr (Some req, s)) \<Rightarrow>
          (case servlet_handle fnmatch (DispatchServlet d) (req, response_for keepalive req, s) of (_, req, rsp, s) \<Rightarrow>
             (case send rsp s of
                None \<Rightarrow> None
              | Some (Inl e) \<Rightarrow> Some (Inl e)
              | Some (Inr (_, s)) \<Rightarrow>
                  if keepalive then handleClient_loop recv send fnmatch keepalive d s else Some (Inr s))))"

definition handleClient ::
  "('p, request_event) machine \<Rightarrow> (string \<Rightarrow> u64 option) \<Rightarrow> parser_limits
     \<Rightarrow> ('s \<Rightarrow> u64 \<Rightarrow> (u32 \<times> u8 list) \<times> 's) \<Rightarrow> ('s \<Rightarrow> u8 list \<Rightarrow> u32 \<times> 's) \<Rightarrow> ('s \<Rightarrow> 's)
     \<Rightarrow> (string \<Rightarrow> string \<Rightarrow> bool) \<Rightarrow> 's HttpServer \<Rightarrow> 's \<Rightarrow> 's result option" where
  "handleClient mc cast limits rd wr close_s fnmatch sv s =
     (case handleClient_loop (recvRequest mc cast limits rd) (sendResponse wr) fnmatch (m_isKeepalive sv) (m_dispatch sv) s of
        None \<Rightarrow> None
      | Some (Inl e) \<Rightarrow> Some (Inl e)
      | Some (Inr s) \<Rightarrow> Some (Inr (close_s s)))"

section \<open>One response per request\<close>

text \<open>A dispatcher whose servlets do not touch the session; \<open>h\<close> is what it makes of request and response.\<close>

definition dispatches ::
  "(string \<Rightarrow> string \<Rightarrow> bool) \<Rightarrow> 's dispatcher \<Rightarrow> (HttpRequest \<Rightarrow> HttpResponse \<Rightarrow> HttpResponse) \<Rightarrow> bool" where
  "dispatches fnmatch d h \<longleftrightarrow>
     (\<forall>q r s. \<exists>q'. servlet_handle fnmatch (DispatchServlet d) (q, r, s) = (0, q', h q r, s))"

text \<open>The requests of a connection as the abstract server sees them, and how it ends: in a state, or with the
  exception raised while a request is received.\<close>

inductive requests ::
  "('s \<Rightarrow> (HttpRequest option \<times> 's) result option) \<Rightarrow> (HttpResponse \<Rightarrow> 's \<Rightarrow> (u32 \<times> 's) result option)
     \<Rightarrow> (HttpRequest \<Rightarrow> HttpResponse) \<Rightarrow> bool \<Rightarrow> 's \<Rightarrow> HttpRequest list \<Rightarrow> 's result \<Rightarrow> bool"
  for recv send answer keepalive where
  closed: "recv s = Some (Inr (None, s')) \<Longrightarrow> requests recv send answer keepalive s [] (Inr s')"
| raised: "recv s = Some (Inl e) \<Longrightarrow> requests recv send answer keepalive s [] (Inl e)"
| last: "recv s = Some (Inr (Some q, s1)) \<Longrightarrow> send (answer q) s1 = Some (Inr (n, s')) \<Longrightarrow> \<not> keepalive
    \<Longrightarrow> requests recv send answer keepalive s [q] (Inr s')"
| more: "recv s = Some (Inr (Some q, s1)) \<Longrightarrow> send (answer q) s1 = Some (Inr (n, s2)) \<Longrightarrow> keepalive
    \<Longrightarrow> requests recv send answer keepalive s2 qs res \<Longrightarrow> requests recv send answer keepalive s (q # qs) res"

definition answers :: "(HttpRequest \<Rightarrow> HttpResponse) \<Rightarrow> HttpRequest list \<Rightarrow> u8 list" where
  "answers answer qs = concat (map (\<lambda>q. of_chars (HttpResponse_dump (answer q))) qs)"

lemma answers_simps [simp]:
  "answers a [] = []" "answers a (q # qs) = of_chars (HttpResponse_dump (a q)) @ answers a qs"
  by (simp_all add: answers_def)

lemma dispatchesD:
  "dispatches fnmatch d h \<Longrightarrow> \<exists>q'. servlet_handle fnmatch (DispatchServlet d) (q, r, s) = (0, q', h q r, s)"
  unfolding dispatches_def by blast

lemma requests_handled:
  assumes "dispatches fnmatch d h"
    and "requests recv send (\<lambda>q. h q (response_for keepalive q)) keepalive s qs res"
  shows "handleClient_loop recv send fnmatch keepalive d s = Some res"
  using assms(2)
proof induction
  case (closed s s')
  then show ?case by (subst handleClient_loop.simps) simp
next
  case (raised s e)
  then show ?case by (subst handleClient_loop.simps) simp
next
  case (last s q s1 n s')
  obtain q' where "servlet_handle fnmatch (DispatchServlet d) (q, response_for keepalive q, s1) = (0, q', h q (response_for keepalive q), s1)"
    using dispatchesD [OF assms(1)] by blast
  then show ?case using last by (subst handleClient_loop.simps) (simp del: servlet_handle.simps)
next
  case (more s q s1 n s2 qs res)
  obtain q' where "servlet_handle fnmatch (DispatchServlet d) (q, response_for keepalive q, s1) = (0, q', h q (response_for keepalive q), s1)"
    using dispatchesD [OF assms(1)] by blast
  then show ?case using more by (subst handleClient_loop.simps) (simp del: servlet_handle.simps)
qed

lemma requests_single: "requests recv send a keepalive s qs res \<Longrightarrow> \<not> keepalive \<Longrightarrow> length qs \<le> 1"
  by (induction rule: requests.induct) simp_all

text \<open>The exceptions that can end the requests: those of the parser, and that of \<open>body.resize\<close>.\<close>

definition request_error :: "('p, request_event) machine \<Rightarrow> cpp_error \<Rightarrow> bool" where
  "request_error mc e \<longleftrightarrow> e = resize_error \<or> (\<exists>d q. request_execute mc d q = Inl e)"

context byte_stream
begin

text \<open>On a connection that works, the requests come to an end and their responses are sent in order.\<close>

lemma requests_served:
  assumes nread: "reads_buffer mc"
    and size: "0 < s_http_request_buffer_size limits" "s_http_request_buffer_size limits < 2 ^ 31"
    and dump: "\<And>q. length (HttpResponse_dump (a q)) < 2 ^ 64"
  shows "\<exists>qs res. requests (recvRequest mc cast limits rd) (sendResponse wr) a keepalive s qs res
    \<and> (case res of Inl e \<Rightarrow> request_error mc e | Inr s' \<Rightarrow> sent s' = sent s @ answers a qs)"
proof (induction "length (pending s)" arbitrary: s rule: less_induct)
  case less
  let ?recv = "recvRequest mc cast limits rd"
  consider e where "?recv s = Some (Inl e)" "request_error mc e"
    | r s1 where "?recv s = Some (Inr (r, s1))" "r \<noteq> None \<longrightarrow> length (pending s1) < length (pending s)"
    using recvRequest_ok [OF nread size, of cast s] unfolding request_error_def by blast
  then show ?case
  proof cases
    case 1
    show ?thesis
      by (intro exI [of _ "[]"] exI [of _ "Inl e"] conjI requests.raised) (use 1 in auto)
  next
    case r: (2 r s1)
    have sent1: "sent s1 = sent s" by (rule recvRequest_sent [OF r(1)])
    show ?thesis
    proof (cases r)
      case None
      show ?thesis
        by (intro exI [of _ "[]"] exI [of _ "Inr s1"] conjI requests.closed) (use r(1) None sent1 in auto)
    next
      case (Some q)
      obtain n s2 where s2: "sendResponse wr (a q) s1 = Some (Inr (n, s2))"
          "sent s2 = sent s1 @ of_chars (HttpResponse_dump (a q))" "pending s2 = pending s1"
        using sendResponse_ok [OF dump] by blast
      show ?thesis
      proof (cases keepalive)
        case True
        obtain qs res where IH: "requests ?recv (sendResponse wr) a keepalive s2 qs res"
            "case res of Inl e \<Rightarrow> request_error mc e | Inr s' \<Rightarrow> sent s' = sent s2 @ answers a qs"
          using less [of s2] r(2) Some s2(3) by auto
        show ?thesis
          by (intro exI [of _ "q # qs"] exI [of _ res] conjI requests.more [where answer = a and recv = ?recv and send = "sendResponse wr", OF r(1) [unfolded Some] s2(1) True IH(1)])
             (use IH(2) s2(2) sent1 in \<open>simp split: sum.splits\<close>)
      next
        case False
        show ?thesis
          by (intro exI [of _ "[q]"] exI [of _ "Inr s2"] conjI requests.last [where answer = a and recv = ?recv and send = "sendResponse wr", OF r(1) [unfolded Some] s2(1) False])
             (use s2(2) sent1 in simp)
      qed
    qed
  qed
qed

end

text \<open>The default dispatcher answers every request with the 404 page.\<close>

definition not_found :: "HttpResponse \<Rightarrow> HttpResponse" where
  "not_found r = (rs_setHeader (rs_setHeader (r\<lparr>rs_status := 404\<rparr>) ''Server'' ''myhttp/1.0.0'') ''Content-Type'' ''text/html'')
     \<lparr>rs_body := RSP_BODY\<rparr>"

lemma NotFound_dispatches: "dispatches fnmatch ServletDispatch (\<lambda>q r. not_found r)"
  by (simp add: dispatches_def ServletDispatch_def getMatchedServlet_def NotFoundServlet_handle_def Let_def not_found_def)

lemma length_nat_to_string: "length (nat_to_string n) \<le> Suc n"
proof (induction n rule: nat_to_string.induct)
  case (1 n)
  then show ?case by (cases "n < 10") (subst nat_to_string.simps, simp; fastforce)+
qed

lemma not_found_length: "length (HttpResponse_dump (not_found (response_for keepalive q))) < 2 ^ 64"
proof -
  let ?r = "not_found (response_for keepalive q)"
  have h: "rs_headers ?r = [(''Content-Type'', ''text/html''), (''Server'', ''myhttp/1.0.0'')]"
    unfolding not_found_def response_for_def new_HttpResponse_def rs_setHeader_def by code_simp
  have n: "length (nat_to_string (unat (x :: u8))) \<le> 256" for x
    using length_nat_to_string [of "unat x"] unsigned_less [of x, where ?'a = nat] by simp
  have v: "length (version_string (rs_version ?r)) \<le> 520"
    using n [of "drop_bit 4 (rs_version ?r)"] n [of "rs_version ?r AND 0x0F"] by (simp add: version_string_def)
  have parts: "length (HttpStatusToString 404) < 100" "length (nat_to_string (unat (404 :: HttpStatus))) < 10"
    "length (dump_headers '': '' [(''Content-Type'', ''text/html''), (''Server'', ''myhttp/1.0.0'')]) < 100"
    "length (dump_body RSP_BODY) < 1000"
    by code_simp+
  have c: "length (close_string (rs_close ?r)) < 100" by (simp add: close_string_def crlf_def)
  have "rs_status ?r = 404" "rs_reason ?r = []" "rs_body ?r = RSP_BODY"
    by (simp_all add: not_found_def response_for_def new_HttpResponse_def rs_setHeader_def)
  then have "length (HttpResponse_dump ?r) = length (version_string (rs_version ?r)) + length (nat_to_string (unat (404 :: HttpStatus)))
      + length (HttpStatusToString 404) + length (dump_headers '': '' (rs_headers ?r))
      + length (close_string (rs_close ?r)) + length (dump_body RSP_BODY) + 4"
    by (simp add: HttpResponse_dump_def crlf_def del: unat_numeral unsigned_numeral)
  also have "\<dots> < 2000" using v parts c unfolding h by linarith
  finally show ?thesis by simp
qed

end
