(* ===== verification/HttpConnection_Lemmas.thy ===== *)
theory HttpConnection_Lemmas
  imports HttpConnection
begin

text \<open>
  Facts about the client: receiving a response always returns, what becomes of a chunk, the headers of a
  request, and the invariant of the pool over every sequence of taking, using and releasing connections.
\<close>

section \<open>Receiving\<close>

text \<open>The two cases a buffered chunk meets, given its data, the line end behind it and what follows.\<close>

lemma chunk_buffered:
  "recv_chunk_data rd buff_size (int (length chunk)) body (int (length (chunk @ crlf @ rest))) (chunk @ crlf @ rest) s =
     Some (Inr (Some (body @ chunk, take (length rest) (crlf @ rest)), s))"
  by (simp add: recv_chunk_data_def Let_def crlf_def nat_add_distrib)

lemma chunk_short:
  assumes "length data < 2"
  shows "recv_chunk_data rd buff_size content_len body (int (length data)) data s = Some (Inl NegativeSize)"
  using assms by (simp add: recv_chunk_data_def Let_def)

text \<open>How receiving a response can fail: a negative chunk length, a content length no string can have, or an exception
  of the parser.\<close>

definition client_error :: "('p, response_event) machine \<Rightarrow> cpp_error \<Rightarrow> bool" where
  "client_error mc e \<longleftrightarrow> e = NegativeSize \<or> e = resize_error \<or> (\<exists>d chunck q. response_execute mc d chunck q = Inl e)"

context byte_source
begin

lemma recv_chunk_rest_ok:
  assumes "0 < buff_size" "buff_size < 2 ^ 31"
  shows "\<exists>s'. recv_chunk_rest rd buff_size (int m) body s =
      Some (if m \<le> length (pending s) then Some (body @ to_chars (take m (pending s))) else None, s')
    \<and> pending s' = drop m (pending s)"
proof (induction m arbitrary: s body rule: less_induct)
  case (less m)
  show ?case
  proof (cases "m = 0")
    case True
    then show ?thesis by (subst recv_chunk_rest.simps) (simp add: to_chars_def)
  next
    case False
    define q where "q = nat (if int m > buff_size then buff_size else int m)"
    have q: "0 < q" "q \<le> m" "q < 2 ^ 31" "(if int m > buff_size then buff_size else int m) = int q"
      using assms False by (auto simp: q_def nat_less_iff)
    have uq: "unat (word_of_nat q :: u64) = q" using q(3) by (intro unat_of_nat_small) simp
    then have pos: "(0 :: u64) < word_of_nat q" using q(1) word_less_nat_alt [of 0 "word_of_nat q :: u64"] by simp
    have step: "recv_chunk_rest rd buff_size (int m) body s =
        (case rd s (word_of_nat q) of ((r, bs), s) \<Rightarrow>
           if sint r \<le> 0 then Some (None, s) else recv_chunk_rest rd buff_size (int m - sint r) (body @ to_chars bs) s)"
      by (subst recv_chunk_rest.simps) (use False q(4) in simp)
    show ?thesis
    proof (cases "pending s = []")
      case True
      then obtain s' where "rd s (word_of_nat q) = ((0, []), s')" "pending s' = []" using rd_end by blast
      then show ?thesis using step True False by simp
    next
      case ne: False
      then obtain k s1 where k: "rd s (word_of_nat q) = ((word_of_nat k, take k (pending s)), s1)" "0 < k" "k \<le> q"
          "k \<le> length (pending s)" "k < 2 ^ 31" "pending s1 = drop k (pending s)"
        using rd_data [OF ne pos] unfolding uq by blast
      have sk: "sint (word_of_nat k :: u32) = int k" using k(5) by (simp add: signed_of_nat signed_take_bit_int_eq_self)
      have km: "k \<le> m" "int m - int k = int (m - k)" using k(3) q(2) by auto
      have eq: "recv_chunk_rest rd buff_size (int m) body s =
          recv_chunk_rest rd buff_size (int (m - k)) (body @ to_chars (take k (pending s))) s1"
        unfolding step k(1) using k(2) by (simp add: sk km(2) del: of_nat_diff)
      obtain s' where "recv_chunk_rest rd buff_size (int (m - k)) (body @ to_chars (take k (pending s))) s1 =
          Some (if m - k \<le> length (pending s1)
                then Some ((body @ to_chars (take k (pending s))) @ to_chars (take (m - k) (pending s1))) else None, s')"
          "pending s' = drop (m - k) (pending s1)"
        using less [of "m - k" "body @ to_chars (take k (pending s))" s1] k(2) False by (auto simp del: append_assoc of_nat_diff)
      moreover have "to_chars (take k (pending s)) @ to_chars (take (m - k) (drop k (pending s))) = to_chars (take m (pending s))"
        by (metis km(1) take_take_drop to_chars_append)
      ultimately show ?thesis using eq k(4,6) km(1) by auto
    qed
  qed
qed

lemma recv_chunk_data_ok:
  assumes "0 < buff_size" "buff_size < 2 ^ 31"
  shows "\<exists>res. recv_chunk_data rd buff_size content_len body (int (length data)) data s = Some res
    \<and> (case res of Inl e \<Rightarrow> e = NegativeSize
       | Inr (r, s') \<Rightarrow> length (pending s') \<le> length (pending s)
           \<and> (case r of None \<Rightarrow> True | Some (body', data') \<Rightarrow> length data' \<le> length data))"
proof -
  let ?l = "int (length data) - 2"
  show ?thesis
  proof (cases "content_len \<le> ?l \<or> ?l < 0")
    case True
    then show ?thesis by (auto simp: recv_chunk_data_def Let_def)
  next
    case False
    then have m: "content_len - ?l = int (nat (content_len - ?l))" by simp
    obtain s' b where "recv_chunk_rest rd buff_size (content_len - ?l) (body @ take (nat ?l) data) s = Some (b, s')"
        "pending s' = drop (nat (content_len - ?l)) (pending s)"
      using recv_chunk_rest_ok [OF assms, of "nat (content_len - ?l)" "body @ take (nat ?l) data" s] unfolding m [symmetric]
      by blast
    then show ?thesis using False by (cases b) (simp_all add: recv_chunk_data_def Let_def)
  qed
qed

lemma recv_chunks_ok:
  assumes "reads_buffer mc" "length data < unat buff_size" "unat buff_size < 2 ^ 31"
  shows "\<exists>res. recv_chunks mc ci rd buff_size parser body data s = Some res
    \<and> (case res of Inl e \<Rightarrow> client_error mc e
       | Inr (r, s') \<Rightarrow> case r of None \<Rightarrow> True | Some (p, b) \<Rightarrow> \<not> response_hasError mc p)"
  using assms(2)
proof (induction "length (pending s)" arbitrary: s parser body data rule: less_induct)
  case less
  let ?head = "recv_head_loop (\<lambda>d. response_execute mc d True) (response_hasError mc) (response_isFinished mc) rd
    buff_size parser data (int (length data)) s"
  consider e d q where "?head = Some (Inl e)" "response_execute mc d True q = Inl e"
    | s1 where "?head = Some (Inr (None, s1))"
    | q s1 where "?head = Some (Inr (Some q, s1))" "length (pending s1) < length (pending s)"
      "head_done (response_hasError mc) (response_isFinished mc) buff_size (unread data s) (Some q) s1"
    using recv_head_loop_ok [OF response_consumes [OF assms(1)] less.prems assms(3), of True "response_hasError mc"
        "response_isFinished mc" parser s] by (metis option.collapse option.distinct(1))
  then show ?case
  proof cases
    case 1
    then show ?thesis by (subst recv_chunks.simps) (auto simp: client_error_def)
  next
    case 2
    then show ?thesis by (subst recv_chunks.simps) simp
  next
    case r: (3 q s1)
    obtain p1 d1 where q: "q = (p1, d1, int (length d1))" "\<not> response_hasError mc p1" "length d1 < unat buff_size"
      using r(3) by (cases q) (auto simp: head_done_def)
    let ?bs = "sint (ucast buff_size :: u32)" and ?cl = "ci_content_len ci (sp_parser p1)"
    have bs: "?bs = int (unat buff_size)" by (rule sint_ucast_small [OF assms(3)])
    have "0 < unat buff_size" using less.prems by (rule order_le_less_trans [OF le0])
    then have b: "0 < ?bs" "?bs < 2 ^ 31"
      using assms(3) of_nat_less_iff [where ?'a = int, of "unat buff_size" "2 ^ 31"]
        of_nat_less_iff [where ?'a = int, of 0 "unat buff_size"]
      unfolding bs by (simp_all del: of_nat_less_iff unat_gt_0 int_eq_iff add: bs)
    obtain res where res: "recv_chunk_data rd ?bs ?cl body (int (length d1)) d1 s1 = Some res"
        "case res of Inl e \<Rightarrow> e = NegativeSize
         | Inr (r, s') \<Rightarrow> length (pending s') \<le> length (pending s1)
           \<and> (case r of None \<Rightarrow> True | Some (body', data') \<Rightarrow> length data' \<le> length d1)"
      using recv_chunk_data_ok [OF b, of ?cl body d1 s1] by blast
    have step: "recv_chunks mc ci rd buff_size parser body data s =
       (case recv_chunk_data rd ?bs ?cl body (int (length d1)) d1 s1 of
             None \<Rightarrow> None
           | Some (Inl e) \<Rightarrow> Some (Inl e)
           | Some (Inr (None, s)) \<Rightarrow> Some (Inr (None, s))
           | Some (Inr (Some (body, data), s)) \<Rightarrow>
               if ci_chunks_done ci (sp_parser p1) then Some (Inr (Some (p1, body), s))
               else recv_chunks mc ci rd buff_size p1 body data s)"
      by (subst recv_chunks.simps) (use r(1) q(1) in simp)
    consider "res = Inl NegativeSize" | s2 where "res = Inr (None, s2)"
      | body2 data2 s2 where "res = Inr (Some (body2, data2), s2)" "length (pending s2) \<le> length (pending s1)" "length data2 \<le> length d1"
      using res(2) by (auto split: sum.splits option.splits)
    then show ?thesis
    proof cases
      case 1
      then show ?thesis using step res(1) by (simp add: client_error_def)
    next
      case 2
      then show ?thesis using step res(1) by simp
    next
      case 3
      then have "length (pending s2) < length (pending s)" "length data2 < unat buff_size" using r(2) q(3) by auto
      from less.hyps [OF this, of p1 body2] show ?thesis using step res(1) 3(1) q(2) by auto
    qed
  qed
qed

text \<open>\<open>recvResponse\<close> returns, its only exceptions are the negative length and those of the parser, and a body that
  is not chunked has the announced length and follows the head.\<close>

lemma recvResponse_ok:
  assumes nread: "reads_buffer mc"
    and size: "0 < s_http_response_buffer_size limits" "s_http_response_buffer_size limits < 2 ^ 31"
  shows "\<exists>res. recvResponse mc ci cast limits rd s = Some res
    \<and> (case res of
         Inl e \<Rightarrow> client_error mc e
       | Inr (None, s') \<Rightarrow> True
       | Inr (Some rsp, s') \<Rightarrow> \<exists>parser j. \<not> response_hasError mc parser
           \<and> (\<not> ci_chunked ci (sp_parser parser) \<longrightarrow>
               (let n = sint (response_getContentLength cast parser)
                in if n > 0 then rsp = (sp_data parser)\<lparr>rs_body := take (nat n) (drop j (to_chars (pending s)))\<rparr>
                     \<and> length (rs_body rsp) = nat n
                   else rsp = sp_data parser)))"
proof -
  let ?bs = "s_http_response_buffer_size limits"
  let ?head = "recv_head_loop (\<lambda>d. response_execute mc d False) (response_hasError mc) (response_isFinished mc) rd
    ?bs (new_HttpResponseParser mc) [] 0 s"
  have bs: "0 < unat ?bs" "unat ?bs < 2 ^ 31"
    using size word_less_nat_alt [of 0 ?bs] word_less_nat_alt [of ?bs "2 ^ 31"] by simp_all
  consider e d q where "?head = Some (Inl e)" "response_execute mc d False q = Inl e"
    | s1 where "?head = Some (Inr (None, s1))"
    | q s1 where "?head = Some (Inr (Some q, s1))"
      "head_done (response_hasError mc) (response_isFinished mc) ?bs (to_chars (pending s)) (Some q) s1"
    using recv_head_loop_start [OF response_consumes [OF nread] bs, of False "response_hasError mc"
        "response_isFinished mc" "new_HttpResponseParser mc" s] by (metis option.collapse)
  then show ?thesis
  proof cases
    case 1
    then show ?thesis by (auto simp: recvResponse_def client_error_def)
  next
    case 2
    then show ?thesis by (simp add: recvResponse_def)
  next
    case r: (3 q s1)
    obtain parser data j where q: "q = (parser, data, int (length data))" "\<not> response_hasError mc parser"
        "data @ to_chars (pending s1) = drop j (to_chars (pending s))" "length data < unat ?bs"
      using r(2) by (cases q) (auto simp: head_done_def unread_def)
    let ?c = "response_getContentLength cast parser"
    show ?thesis
    proof (cases "ci_chunked ci (sp_parser parser)")
      case True
      obtain res where res: "recv_chunks mc ci rd ?bs parser [] data s1 = Some res"
          "case res of Inl e \<Rightarrow> client_error mc e
           | Inr (r, s') \<Rightarrow> case r of None \<Rightarrow> True | Some (p, b) \<Rightarrow> \<not> response_hasError mc p"
        using recv_chunks_ok [OF nread q(4) bs(2)] by blast
      have "recvResponse mc ci cast limits rd s =
          Some (map_sum id (apfst (map_option (\<lambda>(parser, body). (sp_data parser)\<lparr>rs_body := body\<rparr>))) res)"
        using r(1) q(1) True res(1) by (simp add: recvResponse_def)
      then show ?thesis using True q(2) res(2) by (cases res) (auto split: option.splits)
    next
      case False
      have eq: "recvResponse mc ci cast limits rd s =
          (let n = sint ?c in if n > 0
           then map_option (map_sum id (apfst (map_option (\<lambda>body. (sp_data parser)\<lparr>rs_body := body\<rparr>))))
                  (recv_fixed_body rd n data (int (length data)) s1)
           else Some (Inr (Some (sp_data parser), s1)))"
        using r(1) q(1) False by (simp add: recvResponse_def)
      show ?thesis
      proof (cases "sint ?c \<le> 0 \<or> 2 ^ 62 \<le> sint ?c")
        case True
        then show ?thesis using q(2) unfolding eq by (auto simp: fixed_body_too_long client_error_def intro!: exI [of _ parser])
      next
        case pos: False
        define n where "n = nat (sint ?c)"
        have n: "n < 2 ^ 62" "sint ?c = int n" using pos by (auto simp: n_def nat_less_iff)
        obtain b s2 where b: "recv_fixed_body rd (int n) data (int (length data)) s1 = Some (Inr (b, s2))"
            "case b of None \<Rightarrow> True | Some b \<Rightarrow> b = take n (drop j (to_chars (pending s))) \<and> length b = n"
          using fixed_body_ok [OF n(1), of data s1] unfolding q(3) by blast
        then show ?thesis using q(2) n(2) pos unfolding eq
          by (cases b) (auto simp: Let_def intro!: exI [of _ parser] exI [of _ j])
      qed
    qed
  qed
qed

lemma recvResponse_returns:
  assumes "reads_buffer mc" "0 < s_http_response_buffer_size limits" "s_http_response_buffer_size limits < 2 ^ 31"
  shows "\<exists>res. recvResponse mc ci cast limits rd s = Some res \<and> (\<forall>e. res = Inl e \<longrightarrow> client_error mc e)"
  using recvResponse_ok [OF assms, of ci cast s] by (elim exE conjE, intro exI conjI) (assumption, auto)

end

section \<open>An exchange\<close>

lemma recv_chunk_rest_keeps:
  assumes "recv_chunk_rest rd buff_size left body s = Some (r, s')" "\<And>s n. f (snd (rd s n)) = f s"
  shows "f s' = f s"
proof -
  have "(\<forall>s n. f (snd (rd s n)) = f s) \<longrightarrow> f (snd (r, s')) = f s"
  proof (rule recv_chunk_rest.raw_induct [where P = "\<lambda>rd buff_size left body s y.
      (\<forall>s n. f (snd (rd s n)) = f s) \<longrightarrow> f (snd y) = f s", OF _ assms(1)], intro impI, goal_cases)
    case (1 g rd buff_size left body s y)
    let ?n = "word_of_int (if left > buff_size then buff_size else left) :: u64"
    obtain q bs s1 where rd: "rd s ?n = ((q, bs), s1)" by (metis surj_pair)
    then have "f s1 = f s" using 1(3) by (metis snd_conv)
    moreover have "snd y = s \<or> snd y = s1 \<or> g rd buff_size (left - sint q) (body @ to_chars bs) s1 = Some y"
      using 1(2) unfolding rd by (auto split: if_splits)
    ultimately show ?case using 1(1) 1(3) by metis
  qed
  then show ?thesis using assms(2) by simp
qed

lemma recv_chunk_data_keeps:
  assumes "recv_chunk_data rd buff_size cl body len data s = Some (Inr (r, s'))" "\<And>s n. f (snd (rd s n)) = f s"
  shows "f s' = f s"
  using assms(1) recv_chunk_rest_keeps [where f = f and rd = rd, OF _ assms(2)]
  by (auto simp: recv_chunk_data_def Let_def split: if_splits option.splits)

lemma recv_chunks_keeps:
  assumes "recv_chunks mc ci rd buff_size parser body data s = Some (Inr (r, s'))" "\<And>s n. f (snd (rd s n)) = f s"
  shows "f s' = f s"
proof -
  have "(\<forall>s n. f (snd (rd s n)) = f s) \<longrightarrow>
      (\<forall>q t. (Inr (r, s') :: (('a HttpResponseParser \<times> string) option \<times> 'b) result) = Inr (q, t) \<longrightarrow> f t = f s)"
  proof (rule recv_chunks.raw_induct [where P = "\<lambda>mc ci rd buff_size parser body data s y.
      (\<forall>s n. f (snd (rd s n)) = f s) \<longrightarrow> (\<forall>q t. y = Inr (q, t) \<longrightarrow> f t = f s)", OF _ assms(1)], intro impI allI, goal_cases)
    case (1 g mc ci rd buff_size parser body data s y q t)
    have rd: "\<And>s n. f (snd (rd s n)) = f s" using 1(3) by blast
    obtain h s1 where h: "recv_head_loop (\<lambda>d. response_execute mc d True) (response_hasError mc) (response_isFinished mc) rd
        buff_size parser data (int (length data)) s = Some (Inr (h, s1))"
      using 1(2,4) by (auto split: option.splits sum.splits)
    have s1: "f s1 = f s" by (rule recv_head_loop_keeps [where f = f, OF h rd])
    show ?case
    proof (cases h)
      case None
      then show ?thesis using 1(2,4) h s1 by simp
    next
      case (Some p)
      obtain p1 d1 len where p: "p = (p1, d1, len)" by (cases p)
      obtain z where z: "recv_chunk_data rd (sint (ucast buff_size :: u32)) (ci_content_len ci (sp_parser p1)) body len d1 s1 = Some z"
        using 1(2) h Some p by (auto split: option.splits)
      then obtain c s2 where zc: "z = Inr (c, s2)" using 1(2,4) h Some p by (auto split: sum.splits)
      have s2: "f s2 = f s1" by (rule recv_chunk_data_keeps [where f = f, OF z [unfolded zc] rd])
      show ?thesis
      proof (cases c)
        case c: None
        then show ?thesis using 1(2,4) h Some p z zc s1 s2 by simp
      next
        case c: (Some bd)
        obtain b2 d2 where bd: "bd = (b2, d2)" by (cases bd)
        show ?thesis
        proof (cases "ci_chunks_done ci (sp_parser p1)")
          case True
          then show ?thesis using 1(2,4) h Some p z zc c bd s1 s2 by simp
        next
          case False
          then have "g mc ci rd buff_size p1 b2 d2 s2 = Some y" using 1(2) h Some p z zc c bd by simp
          then show ?thesis using 1(1) 1(3,4) s1 s2 by metis
        qed
      qed
    qed
  qed
  then show ?thesis using assms(2) by blast
qed

lemma recvResponse_keeps:
  assumes "recvResponse mc ci cast limits rd s = Some (Inr (r, s'))" "\<And>s n. f (snd (rd s n)) = f s"
  shows "f s' = f s"
proof -
  let ?bs = "s_http_response_buffer_size limits"
  obtain h s1 where h: "recv_head_loop (\<lambda>d. response_execute mc d False) (response_hasError mc) (response_isFinished mc) rd
      ?bs (new_HttpResponseParser mc) [] 0 s = Some (Inr (h, s1))"
    using assms(1) unfolding recvResponse_def Let_def by (auto split: option.splits sum.splits)
  have s1: "f s1 = f s" by (rule recv_head_loop_keeps [where f = f, OF h assms(2)])
  show ?thesis
  proof (cases h)
    case None
    then show ?thesis using assms(1) h s1 by (simp add: recvResponse_def)
  next
    case (Some p)
    obtain p1 d1 len where p: "p = (p1, d1, len)" by (cases p)
    show ?thesis
    proof (cases "ci_chunked ci (sp_parser p1)")
      case True
      then obtain x where "recv_chunks mc ci rd ?bs p1 [] d1 s1 = Some (Inr (x, s'))"
        using assms(1) h Some p by (auto simp: recvResponse_def map_sum_Inr_iff)
      from recv_chunks_keeps [where f = f, OF this assms(2)] show ?thesis using s1 by simp
    next
      case False
      show ?thesis
      proof (cases "sint (response_getContentLength cast p1) > 0")
        case pos: True
        then obtain x where "recv_fixed_body rd (sint (response_getContentLength cast p1)) d1 len s1 = Some (Inr (x, s'))"
          using assms(1) h Some p False by (auto simp: recvResponse_def map_sum_Inr_iff)
        from fixed_body_keeps [where f = f, OF this assms(2)] show ?thesis using s1 by simp
      next
        case neg: False
        then show ?thesis using assms(1) h Some p False s1 by (simp add: recvResponse_def)
      qed
    qed
  qed
qed

context tcp_socket
begin

text \<open>An exchange on a connection that works: the request goes out as it is serialised, and the answer is a
  response or, when none can be read, \<open>TIMEOUT\<close>.\<close>

lemma exchange_ok:
  assumes "ce_recv env = recv_f" "ce_send env = send_f" "reads_buffer (ce_machine env)"
    and "0 < s_http_response_buffer_size (ce_limits env)" "s_http_response_buffer_size (ce_limits env) < 2 ^ 31"
    and "HttpRequest_dump req = Inr text" "0 < length text" "length text < 2 ^ 31" "peer = Inr p"
  shows "\<exists>res. exchange env peer req timeout_ms s k = Some res
    \<and> (case res of
         Inl e \<Rightarrow> client_error (ce_machine env) e
       | Inr (hr, k') \<Rightarrow> outgoing k' = outgoing k @ of_chars text
           \<and> (hr_result hr = OK \<and> hr_response hr \<noteq> None \<or> hr_result hr = TIMEOUT \<and> hr_response hr = None))"
proof -
  let ?wr = "SocketStream_write send_f (Some s)" and ?rd = "SocketStream_read recv_f (Some s)"
  let ?n = "word_of_nat (length (of_chars text)) :: u64"
  have len: "length (of_chars text) = length text" by (simp add: of_chars_def)
  have n: "unat ?n = length text" unfolding len by (rule unat_of_nat_small) (use assms(8) in simp)
  obtain k1 where k1: "writeFixSize ?wr k (of_chars text) ?n = Some (Inr (ucast ?n, k1))" "outgoing k1 = outgoing k @ of_chars text"
    using writeFixSize_exact [of ?n "of_chars text" k] assms(8) n len by auto
  have rt: "sint (ucast ?n :: u32) = int (length text)" using sint_ucast_small [of ?n] n assms(8) by simp
  have send: "sendRequest ?wr req k = Some (Inr (ucast ?n, k1))"
    using k1(1) assms(6) by (simp add: sendRequest_def Let_def)
  obtain res where res: "recvResponse (ce_machine env) (ce_chunks env) (ce_cast env) (ce_limits env) ?rd k1 = Some res"
      "\<And>e. res = Inl e \<Longrightarrow> client_error (ce_machine env) e"
    using byte_source.recvResponse_returns [OF byte_stream.axioms(1) [OF is_stream] assms(3-5), of "ce_chunks env" "ce_cast env" k1]
    by blast
  have keep: "outgoing k2 = outgoing k @ of_chars text" if "res = Inr (r, k2)" for r k2
    using recvResponse_keeps [where f = outgoing, OF res(1) [unfolded that]] byte_stream.rd_sent [OF is_stream] k1(2) by simp
  have "exchange env peer req timeout_ms s k =
      (case res of Inl e \<Rightarrow> Some (Inl e)
       | Inr (None, k) \<Rightarrow> Some (peer_fail TIMEOUT ''recv response timeout: '' peer ('' timeout_ms:'' @ nat_to_string (unat timeout_ms)) k)
       | Inr (Some rsp, k) \<Rightarrow> Some (Inr (\<lparr>hr_result = OK, hr_response = Some rsp, hr_error = ''ok''\<rparr>, k)))"
    unfolding exchange_def assms(1,2) send using rt assms(7) res(1) by (simp split: sum.splits)
  note ex = this
  show ?thesis
  proof (cases res)
    case (Inl e)
    then show ?thesis using ex res(2) by simp
  next
    case (Inr rk)
    obtain r k2 where rk: "rk = (r, k2)" by (cases rk)
    have "outgoing k2 = outgoing k @ of_chars text" by (rule keep) (simp add: Inr rk)
    then show ?thesis using ex assms(9) unfolding Inr rk by (cases r) (simp_all add: peer_fail_def http_fail_def)
  qed
qed

end

section \<open>The headers of a request\<close>

definition wants_keepalive :: "string \<times> string \<Rightarrow> bool" where
  "wants_keepalive kv \<longleftrightarrow> strcasecmp (fst kv) ''connection'' = 0 \<and> strcasecmp (snd kv) ''keep-alive'' = 0"

lemma setHeader_close [simp]: "(setHeader r k v)\<lparr>rq_close := b\<rparr> = setHeader (r\<lparr>rq_close := b\<rparr>) k v" "rq_close (setHeader r k v) = rq_close r"
  by (simp_all add: setHeader_def)

text \<open>Every header but \<open>connection\<close> is set in order; the request stays closing unless keep-alive is asked for.\<close>

lemma fold_add_header:
  "snd (fold add_header hs (b, req)) =
     rq_hdr.puts (req\<lparr>rq_close := rq_close req \<and> \<not> list_ex wants_keepalive hs\<rparr>)
       (filter (\<lambda>kv. strcasecmp (fst kv) ''connection'' \<noteq> 0) hs)"
proof (induction hs arbitrary: b req)
  case Nil
  then show ?case by (simp add: rq_hdr.puts_def)
next
  case (Cons kv hs)
  obtain k v where kv: "kv = (k, v)" by (cases kv)
  show ?case
  proof (cases "strcasecmp k ''connection'' = 0")
    case True
    then have "add_header kv (b, req) = (b, if strcasecmp v ''keep-alive'' = 0 then req\<lparr>rq_close := False\<rparr> else req)"
      by (simp add: kv add_header_def)
    then show ?thesis using True by (simp add: Cons.IH kv wants_keepalive_def)
  next
    case False
    then obtain b' where "add_header kv (b, req) = (b', setHeader req k v)" by (simp add: kv add_header_def)
    then show ?thesis using False by (simp add: Cons.IH kv puts_Cons wants_keepalive_def [of "(k, v)"])
  qed
qed

section \<open>The pool\<close>

lemma delete_connection_closes [simp]: "closed_by (delete_HttpConnection c) = owned (cn_sock c)"
  using delete_closes [of "cn_sock c"]
  by (cases "Socket_close (cn_sock c)")
    (simp add: delete_HttpConnection_def SocketStream_delete_def SocketStream_close_def delete_Socket_def)

definition conn_fds :: "connection list \<Rightarrow> int list" where
  "conn_fds cs = concat (map (\<lambda>c. owned (cn_sock c)) cs)"

lemma conn_fds_simps [simp]:
  "conn_fds [] = []" "conn_fds (c # cs) = owned (cn_sock c) @ conn_fds cs" "conn_fds (cs @ ds) = conn_fds cs @ conn_fds ds"
  by (simp_all add: conn_fds_def)

lemma delete_all: "closed_by (concat (map delete_HttpConnection cs)) = conn_fds cs"
  by (induction cs) simp_all

lemma scan_conns_split:
  "scan_conns now alive conns = (invalid, ptr, rest) \<Longrightarrow>
     conns = invalid @ (case ptr of None \<Rightarrow> [] | Some c \<Rightarrow> [c]) @ rest \<and> (ptr = None \<longrightarrow> rest = [])
     \<and> (\<forall>c. ptr = Some c \<longrightarrow> isConnected c)
     \<and> list_all (\<lambda>c. \<not> isConnected c \<or> m_createTime c + ucast alive > now) invalid"
  by (induction conns arbitrary: invalid) (auto split: if_splits prod.splits option.splits)

text \<open>The ways \<open>getConnection\<close> ends: with a connection of the list, with none, or with a new one.\<close>

lemma getConnection_cases:
  assumes "getConnection ga os now pool = Inr (c, pool', cs)"
    and "scan_conns now (m_maxAliveTime pool) (m_conns pool) = (invalid, ptr, rest)"
  defines "base \<equiv> pool\<lparr>m_conns := rest, m_total := m_total pool - word_of_nat (length invalid)\<rparr>"
    and "dels \<equiv> concat (map delete_HttpConnection invalid)"
  obtains (reused) conn where "ptr = Some conn" "c = Some conn" "pool' = base" "cs = dels"
    | (unknown) "ptr = None" "c = None" "pool' = base" "cs = dels"
    | (failed) addr sock cs' where "ptr = None" "Socket_connect os addr (- 1) (CreateTCP addr) = Inr (False, sock, cs')" "c = None"
        "pool' = base" "cs = dels @ cs' @ delete_Socket sock"
    | (fresh) addr sock cs' where "ptr = None" "Socket_connect os addr (- 1) (CreateTCP addr) = Inr (True, sock, cs')"
        "c = Some (new_HttpConnection sock)" "pool' = base\<lparr>m_total := m_total base + 1\<rparr>" "cs = dels @ cs'"
proof (cases ptr)
  case (Some conn)
  have "c = Some conn" "pool' = base" "cs = dels"
    using assms(1,2) unfolding getConnection_def Some base_def dels_def by simp_all
  with Some show ?thesis by (rule reused)
next
  case None
  show ?thesis
  proof (cases "LookupAnyIPAddress ga (hp_host pool) AF_UNSPEC 0 0")
    case l: None
    have "c = None" "pool' = base" "cs = dels"
      using assms(1,2) l unfolding getConnection_def None base_def dels_def by simp_all
    with None show ?thesis by (rule unknown)
  next
    case (Some addr)
    define a where "a = setPort addr (ucast (hp_port pool))"
    have eq: "getConnection ga os now pool = bindR (Socket_connect os a (- 1) (CreateTCP a)) (\<lambda>(ok, sock, cs').
        if \<not> ok then Inr (None, base, dels @ cs' @ delete_Socket sock)
        else Inr (Some (new_HttpConnection sock), base\<lparr>m_total := m_total base + 1\<rparr>, dels @ cs'))"
      using assms(2) None Some unfolding base_def dels_def a_def by (simp add: getConnection_def Let_def)
    obtain ok sock cs' where "Socket_connect os a (- 1) (CreateTCP a) = Inr (ok, sock, cs')"
      using assms(1) unfolding eq by (auto simp: result_iff)
    then show ?thesis using assms(1) None failed [of a sock cs'] fresh [of a sock cs'] unfolding eq by (cases ok) auto
  qed
qed

text \<open>Taking a connection: every descriptor is kept, handed out or closed.\<close>

definition handed :: "connection option \<Rightarrow> connection list" where
  "handed c = (case c of None \<Rightarrow> [] | Some c \<Rightarrow> [c])"

lemma handed_simps [simp]: "handed None = []" "handed (Some c) = [c]"
  by (simp_all add: handed_def)

lemma CreateTCP_inv: "sk_inv (CreateTCP a)" "opened os (CreateTCP a) = (if sys_socket os = - 1 then [] else [sys_socket os])"
  by (simp_all add: CreateTCP_def new_Socket_def sk_inv_def opened_def isValid_def)

lemma getConnection_fds:
  assumes "getConnection ga os now pool = Inr (c, pool', cs)"
  shows "\<exists>made. (made = [] \<or> made = [sys_socket os]) \<and>
      mset (conn_fds (m_conns pool)) + mset made = mset (closed_by cs) + mset (conn_fds (m_conns pool')) + mset (conn_fds (handed c))"
proof -
  obtain invalid ptr rest where sc: "scan_conns now (m_maxAliveTime pool) (m_conns pool) = (invalid, ptr, rest)"
    by (metis prod_cases3)
  note S = scan_conns_split [OF sc]
  from assms sc show ?thesis
  proof (cases rule: getConnection_cases)
    case (reused conn)
    then show ?thesis using S by (intro exI [of _ "[]"]) (simp add: delete_all)
  next
    case unknown
    then show ?thesis using S by (intro exI [of _ "[]"]) (simp add: delete_all)
  next
    case (failed addr sock cs')
    note C = connect_ok(1) [OF failed(2) CreateTCP_inv(1)]
    have "mset (conn_fds (m_conns pool)) + mset (opened os (CreateTCP addr)) =
        mset (closed_by cs) + mset (conn_fds (m_conns pool')) + mset (conn_fds (handed c))"
      using S failed C by (simp add: delete_all)
    then show ?thesis using CreateTCP_inv(2) [of os addr] by metis
  next
    case (fresh addr sock cs')
    note C = connect_ok(1) [OF fresh(2) CreateTCP_inv(1)]
    have "mset (conn_fds (m_conns pool)) + mset (opened os (CreateTCP addr)) =
        mset (closed_by cs) + mset (conn_fds (m_conns pool')) + mset (conn_fds (handed c))"
      using S fresh C by (simp add: delete_all new_HttpConnection_def)
    then show ?thesis using CreateTCP_inv(2) [of os addr] by metis
  qed
qed

lemma getConnection_pool:
  assumes "getConnection ga os now pool = Inr (c, pool', cs)"
  shows "m_total pool' + word_of_nat (length (m_conns pool)) = m_total pool + word_of_nat (length (m_conns pool') + length (handed c))"
    "set (m_conns pool') \<subseteq> set (m_conns pool)"
    "set (handed c) \<subseteq> {x. isConnected x \<and> (x \<in> set (m_conns pool) \<or> m_createTime x = 0 \<and> m_request x = 0)}"
    "m_maxRequest pool' = m_maxRequest pool"
proof -
  obtain invalid ptr rest where sc: "scan_conns now (m_maxAliveTime pool) (m_conns pool) = (invalid, ptr, rest)"
    by (metis prod_cases3)
  note S = scan_conns_split [OF sc]
  from assms sc have "m_total pool' + word_of_nat (length (m_conns pool)) = m_total pool + word_of_nat (length (m_conns pool') + length (handed c))
    \<and> set (m_conns pool') \<subseteq> set (m_conns pool)
    \<and> set (handed c) \<subseteq> {x. isConnected x \<and> (x \<in> set (m_conns pool) \<or> m_createTime x = 0 \<and> m_request x = 0)}
    \<and> m_maxRequest pool' = m_maxRequest pool"
  proof (cases rule: getConnection_cases)
    case (fresh addr sock cs')
    have "m_isConnected sock" using connect_ok(3) [OF fresh(2) CreateTCP_inv(1)] by simp
    then show ?thesis using S fresh
      by (simp add: new_HttpConnection_def isConnected_def SocketStream_isConnected_def algebra_simps)
  qed (use S in \<open>auto simp: algebra_simps\<close>)
  then show "m_total pool' + word_of_nat (length (m_conns pool)) = m_total pool + word_of_nat (length (m_conns pool') + length (handed c))"
    "set (m_conns pool') \<subseteq> set (m_conns pool)"
    "set (handed c) \<subseteq> {x. isConnected x \<and> (x \<in> set (m_conns pool) \<or> m_createTime x = 0 \<and> m_request x = 0)}"
    "m_maxRequest pool' = m_maxRequest pool"
    by blast+
qed

lemma ReleasePtr_fds:
  assumes "ReleasePtr now c pool = (pool', cs)"
  shows "mset (conn_fds (m_conns pool)) + mset (owned (cn_sock c)) = mset (closed_by cs) + mset (conn_fds (m_conns pool'))"
  using assms by (auto simp: ReleasePtr_def Let_def split: if_splits)

text \<open>The pool with the connections handed out, after any sequence of calls.\<close>

inductive pool_reach :: "HttpConnectionPool \<Rightarrow> connection list \<Rightarrow> bool" where
  create: "pool_reach (new_HttpConnectionPool host vhost port max_size alive_time max_request) []"
| get: "pool_reach pool used \<Longrightarrow> getConnection ga os now pool = Inr (c, pool', cs) \<Longrightarrow> pool_reach pool' (used @ handed c)"
| close: "pool_reach pool (us @ c # vs) \<Longrightarrow> Socket_close (cn_sock c) = (b, sock, cs) \<Longrightarrow> pool_reach pool (us @ c\<lparr>cn_sock := sock\<rparr> # vs)"
| release: "pool_reach pool (us @ c # vs) \<Longrightarrow> ReleasePtr now c pool = (pool', cs) \<Longrightarrow> pool_reach pool' (us @ vs)"

definition pool_inv :: "HttpConnectionPool \<Rightarrow> connection list \<Rightarrow> bool" where
  "pool_inv pool used \<longleftrightarrow>
     m_total pool = word_of_nat (length (m_conns pool) + length used)
     \<and> list_all (\<lambda>c. m_createTime c = 0) (m_conns pool @ used)
     \<and> list_all (\<lambda>c. isConnected c \<and> m_request c \<le> ucast (m_maxRequest pool)) (m_conns pool)"

lemma pool_reach_inv: "pool_reach pool used \<Longrightarrow> pool_inv pool used"
proof (induction rule: pool_reach.induct)
  case (create host vhost port max_size alive_time max_request)
  then show ?case by (simp add: pool_inv_def new_HttpConnectionPool_def)
next
  case (get pool used ga os now c pool' cs)
  note G = getConnection_pool [OF get(2)]
  have "m_total pool' = word_of_nat (length (m_conns pool') + length (used @ handed c))"
    using G(1) get.IH by (simp add: pool_inv_def algebra_simps)
  then show ?case using G(2-4) get.IH by (auto simp: pool_inv_def list_all_iff)
next
  case (close pool us c vs b sock cs)
  then show ?case by (simp add: pool_inv_def)
next
  case (release pool us c vs now pool' cs)
  then show ?case
    by (auto simp: pool_inv_def ReleasePtr_def Let_def isConnected_def not_less split: if_splits)
qed

text \<open>As \<open>m_createTime\<close> stays 0, the age test compares \<open>m_maxAliveTime\<close> with the clock alone.\<close>

lemma getConnection_ageless:
  assumes "pool_inv pool used" "m_conns pool = c # cs" "ucast (m_maxAliveTime pool) \<le> now"
  shows "getConnection ga os now pool = Inr (Some c, pool\<lparr>m_conns := cs\<rparr>, [])"
proof -
  have "isConnected c" "m_createTime c = 0" using assms(1,2) by (auto simp: pool_inv_def)
  then have "scan_conns now (m_maxAliveTime pool) (c # cs) = ([], Some c, cs)" using leD [OF assms(3)] by simp
  then show ?thesis by (simp add: getConnection_def assms(2))
qed

text \<open>Nothing compares \<open>m_total\<close> with \<open>m_maxSize\<close>.\<close>

lemma pool_grows:
  assumes "LookupAnyIPAddress ga host AF_UNSPEC 0 0 = Some addr"
    and "Socket_connect os (setPort addr (ucast port)) (- 1) (CreateTCP (setPort addr (ucast port))) = Inr (True, sock, cs)"
  shows "\<exists>pool used. pool_reach pool used \<and> hp_host pool = host \<and> hp_port pool = port \<and> m_maxSize pool = max_size
    \<and> m_conns pool = [] \<and> length used = n"
proof (induction n)
  case 0
  show ?case
    by (rule exI [of _ "new_HttpConnectionPool host [] port max_size 0 0"], rule exI [of _ "[]"])
      (simp add: pool_reach.create, simp add: new_HttpConnectionPool_def)
next
  case (Suc n)
  then obtain pool used where p: "pool_reach pool used" "hp_host pool = host" "hp_port pool = port" "m_maxSize pool = max_size"
      "m_conns pool = []" "length used = n"
    by blast
  let ?pool = "pool\<lparr>m_total := m_total pool + 1\<rparr>"
  have "getConnection ga os now pool = Inr (Some (new_HttpConnection sock), ?pool, cs)" for now
    using assms p by (simp add: getConnection_def Let_def)
  from pool_reach.get [OF p(1) this] show ?case
    using p by (intro exI [of _ ?pool] exI [of _ "used @ [new_HttpConnection sock]"]) simp
qed

end
