(* ===== verification/Messages.thy ===== *)
theory Messages
  imports Http11_Request Httpclient_Response HttpServer HttpConnection_Lemmas
begin

text \<open>
  Whole messages over a stream with the generated machines in place: what \<open>recvRequest\<close> makes of a serialised
  request and what \<open>recvResponse\<close> makes of a serialised response, the head in the first read and the body cut in
  any way.  Where the exceptions of a request come from, and how a chunked response is lost.
\<close>

section \<open>Content length\<close>

text \<open>\<open>boost::lexical_cast\<close> on the digits of a number.\<close>

definition casts_lengths :: "(string \<Rightarrow> u64 option) \<Rightarrow> bool" where
  "casts_lengths lexical_cast \<longleftrightarrow> (\<forall>n < 2 ^ 31. lexical_cast (nat_to_string n) = Some (word_of_nat n))"

lemma getAs_get: "getAs cast m k d = (case map_get CaseInsensitiLess k m of None \<Rightarrow> d | Some v \<Rightarrow> (case cast v of None \<Rightarrow> d | Some w \<Rightarrow> w))"
  by (simp add: getAs_def map_get_def split: option.splits)

lemma length_header:
  assumes "casts_lengths cast" "n < 2 ^ 31" "map_get CaseInsensitiLess ''content-length'' m = Some (nat_to_string n)"
  shows "sint (getAs cast m ''content-length'' 0) = int n"
proof -
  have "int n < 2 ^ 63" using assms(2) by simp
  then have "sint (word_of_nat n :: u64) = int n" by (simp add: signed_of_nat signed_take_bit_int_eq_self)
  moreover have "cast (nat_to_string n) = Some (word_of_nat n)" using assms(1,2) by (simp only: casts_lengths_def)
  ultimately show ?thesis using assms(3) by (simp add: getAs_get)
qed

lemma same_content_length: "same_name ''content-length'' ''content-length''" "\<not> same_name ''connection'' ''content-length''"
  by (simp_all add: same_name_def casekey_def c_str_def char_tolower_def)

definition no_length :: "MapType \<Rightarrow> bool" where
  "no_length hs \<longleftrightarrow> list_all (\<lambda>(k, v). \<not> same_name k ''content-length'') hs"

lemma no_length_find: "no_length kvs \<Longrightarrow> find (\<lambda>(k', v). same_name k' ''content-length'') (rev kvs) = None"
  by (auto simp: find_None_iff no_length_def list_all_iff)

section \<open>Head in one read, body in any\<close>

context byte_source
begin

lemma fixed_body_exact:
  assumes "n < 2 ^ 31" "n \<le> length data + length (pending s)"
  shows "\<exists>s'. recv_fixed_body rd (int n) data (int (length data)) s = Some (Inr (Some (take n (data @ to_chars (pending s))), s'))
    \<and> pending s' = drop (n - length data) (pending s)"
proof (cases "n \<le> length data")
  case True
  then show ?thesis using fixed_body_buffered [OF True] assms(1) by simp
next
  case False
  let ?m = "n - length data"
  have m: "?m < 2 ^ 31" "0 < ?m" using assms(1) False by simp_all
  have "unat (word_of_nat ?m :: u64) = ?m" by (rule unat_of_nat_small) (use m(1) in simp)
  then have "0 < sint (ucast (word_of_nat ?m :: u64) :: u32)" using m sint_ucast_small [of "word_of_nat ?m"] by simp
  then show ?thesis using fixed_body_rest [of n data s] assms False by auto
qed

lemma head_at_once:
  assumes "rd s bs = ((word_of_nat m, x), s1)" "x = take m (pending s)" "m \<le> length (pending s)"
    and "0 < n" "n \<le> m" "m \<le> unat bs" "unat bs < 2 ^ 31"
    and "ex (to_chars x) p = Inr (n, drop n (to_chars x), p')" "\<not> err p'" "fin p' \<noteq> 0"
  shows "recv_head_loop ex err fin rd bs p [] 0 s = Some (Inr (Some (p', drop n (to_chars x), int (length (drop n (to_chars x)))), s1))"
proof -
  have m: "sint (word_of_nat m :: u32) = int m" "length (to_chars x) = m"
    using assms(2,3,6,7) by (simp_all add: signed_of_nat signed_take_bit_int_eq_self)
  have "int m - int n \<noteq> sint (ucast bs :: u32)" unfolding sint_ucast_small [OF assms(7)] using assms(4-6) by linarith
  then show ?thesis
    by (subst recv_head_loop.simps) (use assms(1,4,5,8-10) m in \<open>simp add: Let_def\<close>)
qed

text \<open>A message \<open>head @ body\<close> whose head comes with the first read of \<open>m\<close> bytes: the loop over the head ends there, and
  the body is taken from the buffer and the stream.  What that read took of the bytes behind the message is lost.\<close>

lemma message_read:
  assumes "pending s = of_chars (head @ body) @ rest" "head \<noteq> []" "length head \<le> m" "length body < 2 ^ 31"
    and "rd s bs = ((word_of_nat m, take m (pending s)), s1)" "pending s1 = drop m (pending s)"
    and "m \<le> length (pending s)" "m \<le> unat bs" "unat bs < 2 ^ 31"
    and run: "\<forall>x. length (head @ x) < 2 ^ 31 \<longrightarrow> (\<exists>p. ex (head @ x) p0 = Inr (length head, x, p) \<and> fin p = 1 \<and> \<not> err p \<and> Q p)"
  shows "\<exists>p d s'. Q p \<and> recv_head_loop ex err fin rd bs p0 [] 0 s = Some (Inr (Some (p, d, int (length d)), s1))
    \<and> recv_fixed_body rd (int (length body)) d (int (length d)) s1 = Some (Inr (Some body, s'))
    \<and> pending s' = drop (max m (length (head @ body))) (pending s)
    \<and> (body = [] \<longrightarrow> pending s1 = drop (max m (length (head @ body))) (pending s))"
proof -
  let ?n = "length head" and ?x = "to_chars (take m (pending s))"
  let ?d = "drop ?n ?x"
  have n: "0 < ?n" using assms(2) by simp
  have x: "?x = head @ ?d" using assms(3) by (simp add: assms(1) to_chars_take)
  have lx: "length ?x = m" using assms(7) by simp
  obtain p where p: "ex ?x p0 = Inr (?n, ?d, p)" "fin p = 1" "\<not> err p" "Q p"
    using run [rule_format, of ?d] x lx assms(8,9) by (metis le_less_trans)
  have h: "recv_head_loop ex err fin rd bs p0 [] 0 s = Some (Inr (Some (p, ?d, int (length ?d)), s1))"
    by (rule head_at_once [OF assms(5) refl assms(7) n assms(3,8,9)]) (use p in simp_all)
  have all: "?d @ to_chars (pending s1) = body @ to_chars rest"
  proof -
    have "?x @ to_chars (pending s1) = head @ body @ to_chars rest"
      unfolding assms(6) to_chars_append [symmetric] append_take_drop_id by (simp add: assms(1))
    then show ?thesis using x by (metis append_assoc same_append_eq)
  qed
  have "length body \<le> length ?d + length (pending s1)"
    using arg_cong [OF all, of length] by simp
  from fixed_body_exact [OF assms(4) this] obtain s' where
    s': "recv_fixed_body rd (int (length body)) ?d (int (length ?d)) s1 = Some (Inr (Some body, s'))"
      "pending s' = drop (length body - length ?d) (pending s1)"
    unfolding all by auto
  have "drop (length body - length ?d) (pending s1) = drop (max m (length (head @ body))) (pending s)"
    unfolding assms(6) drop_drop using assms(3) lx by (intro arg_cong2 [where f = drop]) auto
  moreover have "pending s1 = drop (max m (length (head @ body))) (pending s)" if "body = []"
    using assms(3,6) that by (simp add: max_def)
  ultimately show ?thesis using h s' p(4) by auto
qed

end

section \<open>Requests\<close>

lemma reread_body [simp]: "rq_body (reread r) = []"
proof -
  have "rq_body (rq_hdr.puts x kvs) = rq_body x" for x kvs
    by (induction kvs arbitrary: x) (auto simp: rq_hdr.puts_def setHeader_def)
  then show ?thesis by (simp add: reread_def)
qed

lemma reread_length:
  assumes "rq_body r = [] \<Longrightarrow> no_length (rq_headers r)"
  shows "map_get CaseInsensitiLess ''content-length'' (rq_headers (reread r)) =
     (if rq_body r = [] then None else Some (nat_to_string (length (rq_body r))))"
proof -
  let ?r = "r\<lparr>rq_close := True, rq_headers := [], rq_body := [], rq_params := [], rq_cookies := []\<rparr>"
  let ?kvs = "map (\<lambda>(k, sp, v). (k, v)) (dump_fields r)"
  have "map_ok CaseInsensitiLess (rq_headers ?r)" by (simp add: map_ok_def)
  moreover have empty: "map_get CaseInsensitiLess k [] = (None :: string option)" for k by (simp add: map_get_def map_find_def)
  ultimately
  have "map_get CaseInsensitiLess ''content-length'' (rq_headers (reread r))
      = (case find (\<lambda>(k', v). same_name k' ''content-length'') (rev ?kvs) of Some (k', v) \<Rightarrow> Some v | None \<Rightarrow> None)"
    using rq_hdr.get_puts [where s = ?r and kvs = ?kvs] by (simp add: reread_def split: option.splits)
  moreover have "find (\<lambda>(k', v). same_name k' ''content-length'') (rev ?kvs) = None" if "rq_body r = []"
    using assms [OF that] that same_content_length(2)
    by (intro no_length_find) (auto simp: no_length_def dump_fields_def list_all_iff)
  moreover have "find (\<lambda>(k', v). same_name k' ''content-length'') (rev ?kvs) = Some (''content-length'', nat_to_string (length (rq_body r)))"
    if "rq_body r \<noteq> []"
    using that same_content_length(1) by (simp add: dump_fields_def)
  ultimately show ?thesis by simp
qed

lemma reread_content_length:
  assumes "casts_lengths cast" "rq_body r = [] \<Longrightarrow> no_length (rq_headers r)" "length (rq_body r) < 2 ^ 31" "rp_data p = reread r"
  shows "sint (request_getContentLength cast p) = int (length (rq_body r))"
  using length_header [OF assms(1,3)] reread_length [of r] assms(2,4)
  by (cases "rq_body r = []") (simp_all add: request_getContentLength_def getAs_get)

text \<open>The server has the request the client serialised, with its body, whatever follows in the stream; of that, the
  bytes read together with the request are lost.\<close>

context byte_source
begin

lemma recvRequest_dump:
  assumes "dumps_well r" "HttpRequest_dump r = Inr data" "casts_lengths cast" "rq_body r = [] \<Longrightarrow> no_length (rq_headers r)"
    and "pending s = of_chars data @ rest" "length data < 2 ^ 31"
    and "rd s (s_http_request_buffer_size limits) = ((word_of_nat m, take m (pending s)), s1)" "pending s1 = drop m (pending s)"
    and "length data - length (rq_body r) \<le> m" "m \<le> length (pending s)"
    and "m \<le> unat (s_http_request_buffer_size limits)" "unat (s_http_request_buffer_size limits) < 2 ^ 31"
  shows "\<exists>s'. recvRequest (http_machine q) cast limits rd s = Some (Inr (Some ((reread r)\<lparr>rq_body := rq_body r\<rparr>), s'))
    \<and> pending s' = drop (max m (length data)) (pending s)"
proof -
  obtain head where head: "data = head @ rq_body r" "head \<noteq> []"
    and run: "\<forall>x. length (head @ x) < 2 ^ 31 \<longrightarrow>
      (\<exists>p. request_execute (http_machine q) (head @ x) (new_HttpRequestParser (http_machine q)) = Inr (length head, x, p)
        \<and> request_isFinished (http_machine q) p = 1 \<and> \<not> request_hasError (http_machine q) p \<and> rp_data p = reread r)"
    by (rule dump_head_read [OF assms(1,2), of q])
  have b: "length head \<le> m" "length (rq_body r) < 2 ^ 31" using head(1) assms(6,9) by simp_all
  obtain p d s' where p: "rp_data p = reread r"
    and h: "recv_head_loop (request_execute (http_machine q)) (request_hasError (http_machine q)) (request_isFinished (http_machine q))
      rd (s_http_request_buffer_size limits) (new_HttpRequestParser (http_machine q)) [] 0 s = Some (Inr (Some (p, d, int (length d)), s1))"
    and s': "recv_fixed_body rd (int (length (rq_body r))) d (int (length d)) s1 = Some (Inr (Some (rq_body r), s'))"
      "pending s' = drop (max m (length (head @ rq_body r))) (pending s)"
      "rq_body r = [] \<longrightarrow> pending s1 = drop (max m (length (head @ rq_body r))) (pending s)"
    using message_read [OF assms(5) [unfolded head(1)] head(2) b assms(7,8,10-12), where ex = "request_execute (http_machine q)"
        and err = "request_hasError (http_machine q)" and fin = "request_isFinished (http_machine q)"
        and ?p0.0 = "new_HttpRequestParser (http_machine q)" and Q = "\<lambda>p. rp_data p = reread r", OF run] by blast
  have cl: "sint (request_getContentLength cast p) = int (length (rq_body r))"
    by (rule reread_content_length [OF assms(3,4) b(2) p])
  show ?thesis
    using h cl s' p head(1) by (cases "rq_body r = []") (auto simp: recvRequest_def recv_body_def)
qed

end

section \<open>Responses\<close>

lemma rs_reread_body [simp]: "rs_body (rs_reread r) = []"
proof -
  have "rs_body (rs_hdr.puts x kvs) = rs_body x" for x kvs
    by (induction kvs arbitrary: x) (auto simp: rs_hdr.puts_def rs_setHeader_def)
  then show ?thesis by (simp add: rs_reread_def)
qed

lemma rs_reread_length:
  assumes "rs_body r = [] \<Longrightarrow> no_length (rs_headers r)"
  shows "map_get CaseInsensitiLess ''content-length'' (rs_headers (rs_reread r)) =
     (if rs_body r = [] then None else Some (nat_to_string (length (rs_body r))))"
proof -
  let ?r = "r\<lparr>rs_reason := phrase r, rs_close := True, rs_headers := [], rs_body := []\<rparr>"
  have "map_ok CaseInsensitiLess (rs_headers ?r)" by (simp add: map_ok_def)
  moreover have empty: "map_get CaseInsensitiLess k [] = (None :: string option)" for k by (simp add: map_get_def map_find_def)
  ultimately
  have "map_get CaseInsensitiLess ''content-length'' (rs_headers (rs_reread r))
      = (case find (\<lambda>(k', v). same_name k' ''content-length'') (rev (rs_dump_fields r)) of Some (k', v) \<Rightarrow> Some v | None \<Rightarrow> None)"
    using rs_hdr.get_puts [where s = ?r and kvs = "rs_dump_fields r"] by (simp add: rs_reread_def split: option.splits)
  moreover have "find (\<lambda>(k', v). same_name k' ''content-length'') (rev (rs_dump_fields r)) = None" if "rs_body r = []"
    using assms [OF that] that same_content_length(2)
    by (intro no_length_find) (auto simp: no_length_def rs_dump_fields_def list_all_iff)
  moreover have "find (\<lambda>(k', v). same_name k' ''content-length'') (rev (rs_dump_fields r)) = Some (''content-length'', nat_to_string (length (rs_body r)))"
    if "rs_body r \<noteq> []"
    using that same_content_length(1) by (simp add: rs_dump_fields_def)
  ultimately show ?thesis by simp
qed

lemma rs_reread_content_length:
  assumes "casts_lengths cast" "rs_body r = [] \<Longrightarrow> no_length (rs_headers r)" "length (rs_body r) < 2 ^ 31" "sp_data p = rs_reread r"
  shows "sint (response_getContentLength cast p) = int (length (rs_body r))"
  using length_header [OF assms(1,3)] rs_reread_length [of r] assms(2,4)
  by (cases "rs_body r = []") (simp_all add: response_getContentLength_def getAs_get)

context byte_source
begin

lemma recvResponse_dump:
  assumes "rs_dumps_well r" "casts_lengths cast" "rs_body r = [] \<Longrightarrow> no_length (rs_headers r)"
    and "pending s = of_chars (HttpResponse_dump r) @ rest" "length (HttpResponse_dump r) < 2 ^ 31"
    and "rd s (s_http_response_buffer_size limits) = ((word_of_nat m, take m (pending s)), s1)" "pending s1 = drop m (pending s)"
    and "length (HttpResponse_dump r) - length (rs_body r) \<le> m" "m \<le> length (pending s)"
    and "m \<le> unat (s_http_response_buffer_size limits)" "unat (s_http_response_buffer_size limits) < 2 ^ 31"
  shows "\<exists>s'. recvResponse (client_machine q) client_chunks cast limits rd s = Some (Inr (Some ((rs_reread r)\<lparr>rs_body := rs_body r\<rparr>), s'))
    \<and> pending s' = drop (max m (length (HttpResponse_dump r))) (pending s)"
proof -
  obtain head where head: "HttpResponse_dump r = head @ rs_body r" "head \<noteq> []"
    and run: "\<forall>x. length (head @ x) < 2 ^ 31 \<longrightarrow>
      (\<exists>p. response_execute (client_machine q) (head @ x) False (new_HttpResponseParser (client_machine q)) = Inr (length head, x, p)
        \<and> response_isFinished (client_machine q) p = 1 \<and> \<not> response_hasError (client_machine q) p
        \<and> sp_data p = rs_reread r \<and> \<not> ci_chunked client_chunks (sp_parser p))"
    by (rule response_head_dump_read [OF assms(1), of q])
  have b: "length head \<le> m" "length (rs_body r) < 2 ^ 31" using head(1) assms(5,8) by simp_all
  obtain p d s' where p: "sp_data p = rs_reread r" "\<not> ci_chunked client_chunks (sp_parser p)"
    and h: "recv_head_loop (\<lambda>d. response_execute (client_machine q) d False) (response_hasError (client_machine q))
      (response_isFinished (client_machine q)) rd (s_http_response_buffer_size limits) (new_HttpResponseParser (client_machine q)) [] 0 s
      = Some (Inr (Some (p, d, int (length d)), s1))"
    and s': "recv_fixed_body rd (int (length (rs_body r))) d (int (length d)) s1 = Some (Inr (Some (rs_body r), s'))"
      "pending s' = drop (max m (length (head @ rs_body r))) (pending s)"
      "rs_body r = [] \<longrightarrow> pending s1 = drop (max m (length (head @ rs_body r))) (pending s)"
    using message_read [OF assms(4) [unfolded head(1)] head(2) b assms(6,7,9-11),
        where ex = "\<lambda>d. response_execute (client_machine q) d False"
        and err = "response_hasError (client_machine q)" and fin = "response_isFinished (client_machine q)"
        and ?p0.0 = "new_HttpResponseParser (client_machine q)"
        and Q = "\<lambda>p. sp_data p = rs_reread r \<and> \<not> ci_chunked client_chunks (sp_parser p)", OF run] by blast
  have cl: "sint (response_getContentLength cast p) = int (length (rs_body r))"
    by (rule rs_reread_content_length [OF assms(2,3) b(2) p(1)])
  show ?thesis
    using h cl s' p head(1) by (cases "rs_body r = []") (auto simp: recvResponse_def Let_def)
qed

end

section \<open>Exceptions\<close>

lemma http_machine_reads: "reads_buffer (http_machine q)"
  by (auto simp: reads_buffer_def http_machine_def http_parser_execute_def Let_def assertR_def bindR_Inr_iff split: if_splits)

lemma client_machine_reads: "reads_buffer (client_machine q)"
  by (auto simp: reads_buffer_def client_machine_def httpclient_parser_execute_def Let_def assertR_def bindR_Inr_iff split: if_splits)

text \<open>A callback whose text lies in the bytes received, or whose length cannot be that of a string, only fails by a
  \<open>std::string\<close> that is too long; so it does not read outside the bytes received.\<close>

definition too_long :: cpp_error where "too_long = LogicError ''basic_string::_M_create''"

lemma request_callback_fails:
  assumes "request_callback data ev p = Inl e" "inside (length data) g ev"
  shows "e = too_long"
  using assms
  by (cases ev) (auto simp: request_callback_defs too_long_def inside_def Let_def split: option.splits if_splits)

lemma request_callbacks_fail:
  "callbacks (request_callback data) evs p = Inl e \<Longrightarrow> list_all (inside (length data) g) evs \<Longrightarrow> e = too_long"
proof (induction evs arbitrary: p)
  case (Cons ev evs)
  then show ?case using request_callback_fails by (cases "request_callback data ev p") auto
qed simp

text \<open>A parser before the end of its head: in a query, its start counts from some buffer.\<close>

definition before_end :: "http_parser HttpRequestParser \<Rightarrow> bool" where
  "before_end p \<longleftrightarrow> hp_body_start (rp_parser p) = 0
     \<and> (in_query (hp_cs (rp_parser p)) \<longrightarrow> hp_query_start (rp_parser p) < 2 ^ 31)"

lemma before_end_init: "before_end (new_HttpRequestParser (http_machine q))"
  by (simp add: before_end_def new_HttpRequestParser_def http_machine_def http_parser_init_def in_query_def http_parser_start_def)

lemma request_execute_fails:
  assumes "before_end p" "length d < 2 ^ 31" "request_execute (http_machine q) d p = Inl e"
  shows "e = too_long"
proof -
  obtain n r evs where "http_parser_execute (rp_parser p) d = Inr (n, r, evs)"
      "list_all (inside (length d) (\<not> in_query (hp_cs (rp_parser p)))) evs"
    using http_parser_execute_ok [of "rp_parser p" d] assms(1,2) by (auto simp: before_end_def)
  then show ?thesis
    using assms(3) request_callbacks_fail
    by (cases "callbacks (request_callback d) evs p") (auto simp: request_execute_def http_machine_def)
qed

lemma request_execute_before_end:
  assumes "before_end p" "length d < 2 ^ 31" "request_execute (http_machine q) d p = Inr (n, d', p')"
    "request_isFinished (http_machine q) p' = 0"
  shows "before_end p'"
proof -
  obtain n r evs where x: "http_parser_execute (rp_parser p) d = Inr (n, r, evs)"
      "\<not> http_parser_is_finished r \<longrightarrow> hp_body_start r = hp_body_start (rp_parser p)"
      "in_query (hp_cs r) \<longrightarrow> hp_query_start r < 2 ^ 31"
    using http_parser_execute_ok [of "rp_parser p" d] assms(1,2) by (auto simp: before_end_def)
  have "rp_parser p' = r" using assms(3) x(1) by (auto simp: request_execute_def http_machine_def bindR_Inr_iff)
  then show ?thesis
    using assms(1,4) x(2,3) by (auto simp: before_end_def request_isFinished_def mc_finish_def http_machine_def split: if_splits)
qed

context byte_source
begin

text \<open>Where an exception of the loop over the head comes from, given an invariant \<open>ok\<close> of unfinished parsers.\<close>

lemma recv_head_loop_throws:
  assumes "consumes ex" "length data < unat bs" "unat bs < 2 ^ 31" "ok parser"
    and keep: "\<And>d p n d' p'. ok p \<Longrightarrow> length d < 2 ^ 31 \<Longrightarrow> ex d p = Inr (n, d', p') \<Longrightarrow> fin p' = 0 \<Longrightarrow> ok p'"
    and "recv_head_loop ex err fin rd bs parser data (int (length data)) s = Some (Inl e)"
  shows "\<exists>d p. ok p \<and> length d < 2 ^ 31 \<and> ex d p = Inl e"
  using assms(2,4,6)
proof (induction "length (pending s)" arbitrary: s parser data rule: less_induct)
  case less
  let ?n = "bs - word_of_int (int (length data)) :: u64"
  have un: "unat ?n = unat bs - length data"
    using sub_word_of_nat [of "length data" bs] less.prems(1) by simp
  then have n: "0 < ?n" using less.prems(1) by (simp add: unat_gt_0 word_neq_0_conv [symmetric] flip: unat_eq_zero)
  have "pending s \<noteq> []"
  proof
    assume "pending s = []"
    then obtain s' where "rd s ?n = ((0, []), s')" using rd_end by blast
    then show False using less.prems(3) by (subst (asm) recv_head_loop.simps) simp
  qed
  then obtain k s1 where k: "rd s ?n = ((word_of_nat k, take k (pending s)), s1)" "0 < k" "k \<le> unat ?n"
      "k \<le> length (pending s)" "k < 2 ^ 31" "pending s1 = drop k (pending s)"
    using rd_data [OF _ n] by blast
  have sk: "sint (word_of_nat k :: u32) = int k" using k(5) by (simp add: signed_of_nat signed_take_bit_int_eq_self)
  let ?d = "data @ to_chars (take k (pending s))"
  have ld: "length ?d < 2 ^ 31" "length ?d \<le> unat bs" using k(3,4) un less.prems(1) assms(3) by simp_all
  show ?case
  proof (cases "ex ?d parser")
    case (Inl e')
    then have "e' = e"
      using less.prems(3) k(1,2) sk by (subst (asm) recv_head_loop.simps) (simp add: Let_def)
    then show ?thesis using Inl less.prems(2) ld(1) by blast
  next
    case (Inr w)
    then obtain np d1 p1 where ex: "ex ?d parser = Inr (np, d1, p1)" by (cases w) auto
    then have d1: "np \<le> length ?d" "d1 = drop np ?d" using assms(1) unfolding consumes_def by blast+
    have off: "int k + int (length data) - int np = int (length d1)" using d1 k(4) by simp
    have "fin p1 = 0 \<and> int (length d1) \<noteq> int (unat bs) \<and> recv_head_loop ex err fin rd bs p1 d1 (int (length d1)) s1 = Some (Inl e)"
      using less.prems(3) k(1,2) sk ex sint_ucast_small [OF assms(3)] off
      by (subst (asm) recv_head_loop.simps) (simp add: Let_def split: if_splits)
    moreover have "length d1 \<le> unat bs" using d1 ld(2) by simp
    ultimately have "length d1 < unat bs" "fin p1 = 0" "recv_head_loop ex err fin rd bs p1 d1 (int (length d1)) s1 = Some (Inl e)"
      unfolding of_nat_eq_iff le_less by blast+
    then show ?thesis
      using less.hyps [of s1 d1 p1] keep [OF less.prems(2) ld(1) ex] k(2,4,6) by auto
  qed
qed

lemma recvRequest_throws:
  assumes "0 < unat (s_http_request_buffer_size limits)" "unat (s_http_request_buffer_size limits) < 2 ^ 31"
    and "recvRequest (http_machine q) cast limits rd s = Some (Inl e)"
  shows "e = too_long \<or> e = resize_error"
proof -
  let ?ex = "request_execute (http_machine q)"
  let ?loop = "recv_head_loop ?ex (request_hasError (http_machine q)) (request_isFinished (http_machine q)) rd
    (s_http_request_buffer_size limits) (new_HttpRequestParser (http_machine q)) [] 0 s"
  show ?thesis
  proof (cases "?loop = Some (Inl e)")
    case True
    have "\<exists>d p. before_end p \<and> length d < 2 ^ 31 \<and> ?ex d p = Inl e"
      by (rule recv_head_loop_throws [OF request_consumes [OF http_machine_reads], where data = "[]"])
        (use True assms(1,2) before_end_init request_execute_before_end in auto)
    then show ?thesis using request_execute_fails by blast
  next
    case False
    have c: "consumes ?ex" by (rule request_consumes [OF http_machine_reads])
    from False assms(3) obtain p d off s1 where l: "?loop = Some (Inr (Some (p, d, off), s1))" "recv_body cast rd p d off s1 = Some (Inl e)"
      by (auto simp: recvRequest_def split: option.splits sum.splits)
    then have off: "off = int (length d)"
      using recv_head_loop_start [OF c assms(1,2), of "request_hasError (http_machine q)" "request_isFinished (http_machine q)"
          "new_HttpRequestParser (http_machine q)" s]
      by (auto simp: head_done_def)
    let ?n = "sint (request_getContentLength cast p)"
    show ?thesis
    proof (cases "2 ^ 62 \<le> ?n")
      case True
      then show ?thesis using l(2) by (simp add: recv_body_def fixed_body_too_long)
    next
      case False
      then have "nat ?n < 2 ^ 62" by (simp add: nat_less_iff)
      from fixed_body_ok [OF this, of d s1] show ?thesis
        using l(2) off by (auto simp: recv_body_def Let_def split: if_splits)
    qed
  qed
qed

end

section \<open>Chunks\<close>

context byte_source
begin

lemma recv_chunks_lost:
  assumes "Suc (length d) < unat bs" "unat bs < 2 ^ 31"
  shows "\<exists>s'. recv_chunks (client_machine q) client_chunks rd bs p body (CHR 0x0D # d) s = Some (Inr (None, s'))"
proof -
  let ?ex = "\<lambda>d. response_execute (client_machine q) d True" and ?data = "CHR 0x0D # d"
  let ?n = "bs - word_of_int (int (length ?data)) :: u64"
  have un: "unat ?n = unat bs - length ?data"
    using sub_word_of_nat [of "length ?data" bs] assms(1) by simp
  then have n: "0 < ?n" using assms(1) by (simp add: unat_gt_0 word_neq_0_conv [symmetric] flip: unat_eq_zero)
  have "\<exists>s'. recv_head_loop ?ex (response_hasError (client_machine q)) (response_isFinished (client_machine q)) rd bs p ?data
      (int (length ?data)) s = Some (Inr (None, s'))"
  proof (cases "pending s = []")
    case True
    then obtain s' where "rd s ?n = ((0, []), s')" using rd_end by blast
    then show ?thesis by (subst recv_head_loop.simps) simp
  next
    case False
    then obtain k s1 where k: "rd s ?n = ((word_of_nat k, take k (pending s)), s1)" "0 < k" "k \<le> unat ?n" "k < 2 ^ 31"
      using rd_data [OF _ n] by blast
    have sk: "sint (word_of_nat k :: u32) = int k" using k(4) by (simp add: signed_of_nat signed_take_bit_int_eq_self)
    have "length (d @ to_chars (take k (pending s))) < 2 ^ 31 - 1" using k(3) un assms by simp
    then show ?thesis
      using chunk_rejects [of "d @ to_chars (take k (pending s))" q p] k(1,2) sk
      by (subst recv_head_loop.simps) (auto simp: Let_def)
  qed
  then show ?thesis by (subst recv_chunks.simps) auto
qed

end

end
