(* ===== verification/Network.thy ===== *)
theory Network
  imports HttpServer HttpConnection_Lemmas
begin

text \<open>
  The properties of the layers between the kernel and a request: hooked system calls, sockets, streams,
  parsers, sessions, servers, connections and the connection pool.  Witnesses run on the loopback
  connection of \<open>SocketStream\<close> and on a machine that takes the first line as the head of a request.
\<close>

section \<open>Example worlds\<close>

definition demo_ctx :: FdCtx where
  "demo_ctx = \<lparr>m_isInit = True, m_isSocket = True, m_sysNonblock = True, m_userNonblock = False, m_isClosed = False,
     m_fd = 5, m_recvTimeout = - 1, m_sendTimeout = - 1\<rparr>"

definition demo_hook :: hook_world where
  "demo_hook = \<lparr>t_hook_enable = True, hw_fds = new_FdManager[5 := Some demo_ctx],
     hw_kernel = [5 \<mapsto> \<lparr>d_socket = True, d_flags = 0x802\<rparr>]\<rparr>"

lemma demo_fds: "fdm_inv (hw_fds demo_hook)" "hw_fds demo_hook ! 5 = Some demo_ctx"
  by (auto simp: demo_hook_def fdm_inv_def new_FdManager_def nth_list_update fd_entry_ok_def demo_ctx_def)

lemma demo_hooked: "hooked_socket demo_hook 5 demo_ctx \<lparr>d_socket = True, d_flags = 0x802\<rparr>"
  using demo_fds by (simp add: hooked_socket_def) (simp add: demo_hook_def demo_ctx_def)

definition demo_call :: io_call where
  "demo_call = \<lparr>ic_fd = 5, ic_event = EV_READ, ic_timeout = - 1, ic_sched = 1, ic_fiber = 7, ic_info = 0\<rparr>"

definition demo_wait :: wait where
  "demo_wait = \<lparr>w_now = 0, w_addr = 0, w_before = [], w_ctl = True, w_errno = 0,
     w_steps = [Report EPOLLIN True]\<rparr>"

section \<open>System calls\<close>

text \<open>A program that sets the status flags of a managed socket with \<open>fcntl\<close> reads the same flags back, and
  the kernel's descriptor stays non-blocking whatever the program asks for.  \<open>ioctl(FIONBIO, 0)\<close> is passed
  to the kernel first and makes the descriptor blocking.\<close>

theorem hook_flags:
  assumes "hooked_socket w fd ctx d"
  shows "(\<exists>w1 d1 v. hook_fcntl fcntl_f fd (F_SETFL arg) w = Inr (0, w1) \<and> hw_kernel w1 fd = Some d1 \<and> nonblocking (d_flags d1)
      \<and> hook_fcntl fcntl_f fd F_GETFL w1 = Inr (v, w1) \<and> v AND SETFL_MASK = arg AND SETFL_MASK)
    \<and> (\<exists>w1 d1. hook_ioctl_fionbio fd 0 w = Inr (0, w1) \<and> hw_kernel w1 fd = Some d1 \<and> \<not> nonblocking (d_flags d1))"
proof (rule conjI)
  let ?f = "(d_flags d AND NOT SETFL_MASK) OR ((arg OR O_NONBLOCK) AND SETFL_MASK)"
  obtain w1 where w1: "hook_fcntl fcntl_f fd (F_SETFL arg) w = Inr (0, w1)"
      "hooked_socket w1 fd (setUserNonblock (nonblocking arg) ctx) (d\<lparr>d_flags := ?f\<rparr>)"
    using setfl_step [OF assms] by blast
  have "hook_fcntl fcntl_f fd F_GETFL w1 = Inr (if nonblocking arg then ?f OR O_NONBLOCK else ?f AND NOT O_NONBLOCK, w1)"
    using getfl_value [OF w1(2), of fcntl_f] by (simp add: setUserNonblock_def)
  then show "\<exists>w1 d1 v. hook_fcntl fcntl_f fd (F_SETFL arg) w = Inr (0, w1) \<and> hw_kernel w1 fd = Some d1 \<and> nonblocking (d_flags d1)
      \<and> hook_fcntl fcntl_f fd F_GETFL w1 = Inr (v, w1) \<and> v AND SETFL_MASK = arg AND SETFL_MASK"
    using w1 flags_seen(1) [of "d_flags d" arg] flags_seen(2) [of arg "d_flags d"]
    by (intro exI [of _ w1] exI [of _ "d\<lparr>d_flags := ?f\<rparr>"] exI) (auto simp: hooked_socket_def)
  show "\<exists>w1 d1. hook_ioctl_fionbio fd 0 w = Inr (0, w1) \<and> hw_kernel w1 fd = Some d1 \<and> \<not> nonblocking (d_flags d1)"
    using ioctl_step [OF assms] not_nonblocking_cleared by (fastforce simp: hooked_socket_def)
qed

theorem hook_flags_witness:
  "\<exists>w1 v. hook_fcntl (\<lambda>fd (c :: unit) k. (0, k)) 5 (F_SETFL 0x400) demo_hook = Inr (0, w1)
     \<and> hook_fcntl (\<lambda>fd (c :: unit) k. (0, k)) 5 F_GETFL w1 = Inr (v, w1) \<and> v AND SETFL_MASK = 0x400 AND SETFL_MASK"
  using hook_flags [OF demo_hooked, of "\<lambda>fd (c :: unit) k. (0, k)" "0x400"] by blast

text \<open>C17. The retry loop of \<open>do_io\<close>, in any interleaving of epoll reports, timer rounds, timer callbacks and
  cancellations with its waits.  When it returns it has left no event of the call registered, the
  \<open>IOManager\<close> is intact, and \<open>EINTR\<close> or \<open>EAGAIN\<close> reaches the caller only as the \<open>errno\<close> of an
  \<open>epoll_ctl\<close> that failed (or that was asked for the event loop's own pipe).  When before every wait any
  number of attempts was interrupted and one would have blocked, and the one thing that happens during each
  wait is a report of exactly its event with a successful \<open>epoll_ctl\<close>, the call returns the first other result,
  with or without a timeout.  When what happens during the first wait is that its timer expires and its callback
  runs before the fiber does, alone or after a report of the event, the call returns \<open>ETIMEDOUT\<close>.\<close>

theorem hook_do_io:
  assumes "io_inv io" "is_event (ic_event c)" "0 \<le> ic_fd c" "event_free c io"
  shows "(do_io_retry c attempts ws (io, tm, q) = Some (Inr ((n, e), io', tm', q')) \<longrightarrow>
      io_inv io' \<and> event_free c io'
      \<and> (n = - 1 \<and> (e = EINTR \<or> e = EAGAIN)
           \<longrightarrow> list_ex (\<lambda>x. w_errno x = e \<and> (\<not> w_ctl x \<or> ic_fd c = io_tickleFd io)) ws))
    \<and> (ic_fd c \<noteq> io_tickleFd io \<and> tm_inv tm \<and> list_all (\<lambda>x. tm_heap tm (w_addr x) = None) ws \<and> distinct (map w_addr ws)
        \<and> list_all (woken_by_event c) ws \<and> length ks = length ws \<and> \<not> (m = - 1 \<and> (err = EINTR \<or> err = EAGAIN)) \<longrightarrow>
      (\<exists>io1 tm1. do_io_retry c (blocked_attempts ks (replicate k (- 1, EINTR) @ [(m, err)])) ws (io, tm, q)
          = Some (Inr ((m, err), io1, tm1, q)) \<and> io_inv io1 \<and> event_free c io1 \<and> tm_inv tm1))
    \<and> (ic_fd c \<noteq> io_tickleFd io \<and> tm_inv tm \<and> tm_heap tm (w_addr x) = None \<and> timed_out_by c x now p \<longrightarrow>
      (\<exists>io1 tm1 q1. do_io_retry c (replicate k (- 1, EINTR) @ (- 1, EAGAIN) # rest) (x # xs) (io, tm, q)
          = Some (Inr ((- 1, ETIMEDOUT), io1, tm1, q1)) \<and> io_inv io1 \<and> event_free c io1))"
proof (intro conjI impI)
  assume "do_io_retry c attempts ws (io, tm, q) = Some (Inr ((n, e), io', tm', q'))"
  note R = do_io_retry_ok [OF assms this]
  show "io_inv io'" "event_free c io'" using R by blast+
  show "list_ex (\<lambda>x. w_errno x = e \<and> (\<not> w_ctl x \<or> ic_fd c = io_tickleFd io)) ws" if "n = - 1 \<and> (e = EINTR \<or> e = EAGAIN)"
    using R that by (auto simp: list_ex_iff)
next
  assume h: "ic_fd c \<noteq> io_tickleFd io \<and> tm_inv tm \<and> list_all (\<lambda>x. tm_heap tm (w_addr x) = None) ws \<and> distinct (map w_addr ws)
        \<and> list_all (woken_by_event c) ws \<and> length ks = length ws \<and> \<not> (m = - 1 \<and> (err = EINTR \<or> err = EAGAIN))"
  then have "\<forall>x \<in> set ws. tm_heap tm (w_addr x) = None" by (simp add: list_all_iff)
  with h show "\<exists>io1 tm1. do_io_retry c (blocked_attempts ks (replicate k (- 1, EINTR) @ [(m, err)])) ws (io, tm, q)
          = Some (Inr ((m, err), io1, tm1, q)) \<and> io_inv io1 \<and> event_free c io1 \<and> tm_inv tm1"
    using do_io_progress [OF assms, of tm ws ks m err k q] by blast
next
  assume "ic_fd c \<noteq> io_tickleFd io \<and> tm_inv tm \<and> tm_heap tm (w_addr x) = None \<and> timed_out_by c x now p"
  then show "\<exists>io1 tm1 q1. do_io_retry c (replicate k (- 1, EINTR) @ (- 1, EAGAIN) # rest) (x # xs) (io, tm, q)
          = Some (Inr ((- 1, ETIMEDOUT), io1, tm1, q1)) \<and> io_inv io1 \<and> event_free c io1"
    using do_io_timed_out [OF assms] by blast
qed

theorem hook_do_io_witness:
  "\<exists>io' tm'. do_io_retry demo_call [(- 1, EINTR), (- 1, EAGAIN), (3, 0)] [demo_wait] (io_start 9, new_TimerManager 0, 0) =
     Some (Inr ((3, 0), io', tm', 0)) \<and> io_inv io'"
proof -
  let ?x = "demo_wait\<lparr>w_steps := [Expire 1 0, Run_timer True]\<rparr>"
  have c: "is_event (ic_event demo_call)" "0 \<le> ic_fd demo_call" "ic_fd demo_call \<noteq> io_tickleFd (io_start 9)"
    by (simp_all add: demo_call_def is_event_def)
  have free: "event_free demo_call (io_start 9)"
    by (simp add: event_free_def still_registered_def new_FdContext_def demo_call_def del: upt_rec_numeral)
  have w: "list_all (woken_by_event demo_call) [demo_wait]"
    by (simp add: woken_by_event_def demo_wait_def demo_call_def real_events_def EPOLLIN_def EPOLLERR_def EPOLLHUP_def EPOLLOUT_def)
  have h: "list_all (\<lambda>x. tm_heap (new_TimerManager 0) (w_addr x) = None) [demo_wait]" by (simp add: new_TimerManager_def)
  obtain io1 tm1 where r: "do_io_retry demo_call (blocked_attempts [1] (replicate 0 (- 1, EINTR) @ [(3, 0)])) [demo_wait]
      (io_start 9, new_TimerManager 0, 0) = Some (Inr ((3, 0), io1, tm1, 0))" "io_inv io1"
    using hook_do_io [OF io_start_inv c(1,2) free, where attempts = "[]" and n = 0 and io' = "io_start 9" and q = 0 and q' = 0
        and tm' = "new_TimerManager 0" and ws = "[demo_wait]" and m = 3 and err = 0 and e = 0 and tm = "new_TimerManager 0"
        and ks = "[1]" and k = 0 and x = ?x and now = 1 and p = 0 and rest = "[]" and xs = "[]"]
      c(3) w h new_TimerManager_inv by auto
  then show ?thesis by (auto simp del: do_io_retry.simps eintr_loop.simps)
qed

text \<open>A receive or send timeout of up to \<open>2^31 * 1000 - 1\<close> milliseconds set on a managed socket is read
  back unchanged, and the other timeout is not affected.\<close>

theorem socket_timeouts:
  assumes "fdm_inv (hw_fds w)" "0 \<le> m_sock s" "m_sock s < 64" "hw_fds w ! nat (m_sock s) = Some ctx" "t_hook_enable w"
    and "0 \<le> v" "v < 2 ^ 31 * 1000"
  shows "(\<exists>w'. setRecvTimeout v rt s w = Inr w' \<and> getRecvTimeout s w' = Inr v \<and> getSendTimeout s w' = getSendTimeout s w)
    \<and> (\<exists>w'. setSendTimeout v rt s w = Inr w' \<and> getSendTimeout s w' = Inr v \<and> getRecvTimeout s w' = getRecvTimeout s w)"
  using timeout_roundtrip [OF assms] by blast

theorem socket_timeouts_witness:
  "\<exists>w'. setRecvTimeout 1500 0 loop_socket demo_hook = Inr w' \<and> getRecvTimeout loop_socket w' = Inr 1500"
proof -
  have "m_sock loop_socket = 5" by (simp add: loop_socket_def)
  moreover have "t_hook_enable demo_hook" by (simp add: demo_hook_def)
  ultimately show ?thesis using socket_timeouts [of demo_hook loop_socket demo_ctx 1500 0] demo_fds by auto
qed

section \<open>Streams\<close>

text \<open>C14. On a connected socket that behaves as TCP does, \<open>readFixSize\<close> fills the buffer with exactly the next
  bytes of the connection and returns their number, however the kernel cuts them into pieces, or returns 0
  when the peer closes early; \<open>writeFixSize\<close> hands over exactly its bytes.\<close>

theorem stream_exact:
  assumes "tcp_socket recv_f send_f s incoming outgoing" "unat n \<le> length buffer" "length buffer < 2 ^ 64"
  shows "(\<exists>k'. readFixSize (SocketStream_read recv_f (Some s)) k buffer n =
        Some (Inr (if unat n \<le> length (incoming k) then ucast n else 0, overlay buffer 0 (take (unat n) (incoming k)), k'))
      \<and> incoming k' = drop (unat n) (incoming k) \<and> outgoing k' = outgoing k)
    \<and> (\<exists>k'. writeFixSize (SocketStream_write send_f (Some s)) k buffer n = Some (Inr (ucast n, k'))
      \<and> outgoing k' = outgoing k @ take (unat n) buffer \<and> incoming k' = incoming k)"
  using tcp_socket.readFixSize_exact [OF assms] tcp_socket.writeFixSize_exact [OF assms] by blast

theorem stream_exact_witness:
  "\<exists>k'. readFixSize (SocketStream_read loop_recv (Some loop_socket)) ([1, 2, 3], []) [0, 0] 2 = Some (Inr (2, [1, 2], k'))
     \<and> fst k' = [3]"
  using stream_exact [OF loopback.tcp_socket_axioms, of 2 "[0, 0]" "([1, 2, 3], [])"] by (auto simp: overlay_def)

text \<open>C15. A failing stream is not noticed: \<open>read\<close> returns -1, which the loop takes for a length of \<open>2^64 - 1\<close>.
  If every read fails, \<open>readFixSize\<close> ends by reporting that all bytes were read, with the buffer as it
  was; if the second read succeeds, its bytes are stored in front of the buffer.\<close>

theorem stream_failure:
  "((\<forall>m. rd s m = ((- 1, []), s)) \<longrightarrow> readFixSize rd s buffer n = Some (Inr (ucast n, buffer, s)))
    \<and> (0 < n \<and> n \<noteq> - 1 \<and> rd s n = ((- 1, []), s1) \<and> rd s1 (n + 1) = ((r, bs), s2) \<and> bs \<noteq> [] \<and> length buffer < 2 ^ 63 \<longrightarrow>
        readFixSize rd s buffer n = Some (Inl OutOfBounds))"
  using readFixSize_all_fail [of rd s buffer n] readFixSize_underrun [of n rd s s1 r bs s2 buffer] by blast

theorem stream_failure_witness:
  "readFixSize (SocketStream_read loop_recv None) ([1, 2, 3], []) [7, 7] 2 = Some (Inr (2, [7, 7], ([1, 2, 3], [])))"
  using stream_failure [of "SocketStream_read loop_recv None" "([1, 2, 3], [])" "[7, 7]" 2]
  by (simp add: SocketStream_read_def SocketStream_isConnected_def)

text \<open>C16. Reading from a socket into a \<open>ByteArray\<close> through its scatter-gather vectors is the same as
  \<open>ByteArray::write\<close> of the received bytes, up to capacity: both succeed and lead to the same position, size
  and bytes.  Both the number of bytes asked for and the number received must be ones for which \<open>addCapacity\<close> makes
  room (\<open>room_for\<close>): where its rounding falls short, \<open>getWriteBuffers\<close> runs off the last node for the number asked for,
  also when \<open>write\<close> of the bytes received would have succeeded.\<close>

theorem stream_bytearray:
  assumes "ba_inv ba" "room_for ba (unat n)" "room_for ba (length bs)" "m_isConnected s"
    and "recv_f (m_sock s) (unat n) k = ((int (length bs), bs), k')" "length bs \<le> unat n" "length bs < 2 ^ 31"
  shows "\<exists>ba1 ba2. SocketStream_read_ba recv_f (Some s) k ba n = Inr (word_of_nat (length bs), ba1, k')
    \<and> ba_write ba bs = Inr ba2 \<and> ba_inv ba1 \<and> m_position ba1 = m_position ba2 \<and> m_size ba1 = m_size ba2
    \<and> take (m_size ba1) (contents ba1) = take (m_size ba2) (contents ba2)"
proof -
  obtain ba1 where r: "SocketStream_read_ba recv_f (Some s) k ba n = Inr (word_of_nat (length bs), ba1, k')" "written ba bs ba1"
    using SocketStream_read_ba_ok [of ba n s recv_f k bs k'] assms by blast
  obtain ba2 where w: "ba_write ba bs = Inr ba2" "written ba bs ba2"
    using ba_write_ok [OF assms(1,3)] by blast
  show ?thesis using r w written_same [OF assms(1) r(2) w(2)] by (auto simp: written_def)
qed

theorem stream_bytearray_witness:
  "\<exists>ba1 ba2. SocketStream_read_ba loop_recv (Some loop_socket) ([1, 2, 3], []) (ByteArray 4) 4 = Inr (3, ba1, ([], []))
     \<and> ba_write (ByteArray 4) [1, 2, 3] = Inr ba2 \<and> take (m_size ba1) (contents ba1) = take (m_size ba2) (contents ba2)"
proof -
  have "room_for (ByteArray 4) (unat (4 :: u64))" "room_for (ByteArray 4) (length [1, 2, 3 :: u8])"
    by (simp_all add: room_for_def getCapacity_def ByteArray_def)
  moreover have "m_isConnected loop_socket"
    "loop_recv (m_sock loop_socket) (unat (4 :: u64)) ([1, 2, 3], []) = ((int (length [1, 2, 3 :: u8]), [1, 2, 3]), ([], []))"
    by (simp_all add: loop_socket_def loop_recv_def)
  ultimately show ?thesis
    using stream_bytearray [of "ByteArray 4" 4 "[1, 2, 3]" loop_socket loop_recv "([1, 2, 3], [])" "([], [])"] ByteArray_inv [of 4]
    by auto
qed

section \<open>Requests\<close>

text \<open>What \<open>execute\<close> of the request parser makes of the callbacks of the machine.  It returns exactly when every
  callback has its text in the bytes received and of a length a string can have.  Then it is in error exactly when a callback met an unknown
  method, a version text that is a prefix of neither \<open>HTTP/1.1\<close> nor \<open>HTTP/1.0\<close> or an empty field name (or
  the machine failed), the header map stays ordered, and a name yields the last value of the fields with that
  name up to letter case.\<close>

theorem parser_request:
  assumes "mc_execute mc (mc_init mc) data = Inr (n, p', evs)"
  shows "((\<exists>res. request_execute mc data (new_HttpRequestParser mc) = Inr res) \<longleftrightarrow> list_all (returns data) evs)
    \<and> (request_execute mc data (new_HttpRequestParser mc) = Inr (k, rest, p) \<longrightarrow>
      k = n \<and> rest = drop n data
      \<and> (request_hasError mc p \<longleftrightarrow> list_ex (bad_event data) evs \<or> mc_has_error mc p')
      \<and> map_ok CaseInsensitiLess (rq_headers (rp_data p))
      \<and> getHeader (rp_data p) key def =
          (case find (\<lambda>(k, v). casekey k = casekey key) (rev (concat (map (field_of data) evs))) of
             Some (k, v) \<Rightarrow> v | None \<Rightarrow> def))"
proof (intro conjI impI)
  let ?start = "new_HttpRequestParser mc"
  have m: "rp_parser ?start = mc_init mc" by (simp add: new_HttpRequestParser_def)
  show "(\<exists>res. request_execute mc data ?start = Inr res) \<longleftrightarrow> list_all (returns data) evs"
    using callbacks_return [of data evs ?start] assms by (auto simp: request_execute_def m result_iff)
next
  let ?start = "new_HttpRequestParser mc" and ?kvs = "concat (map (field_of data) evs)"
  assume "request_execute mc data ?start = Inr (k, rest, p)"
  then obtain q where q: "callbacks (request_callback data) evs ?start = Inr q"
      "k = n" "rest = drop n data" "p = q\<lparr>rp_parser := p'\<rparr>"
    using assms by (auto simp: request_execute_def new_HttpRequestParser_def result_iff)
  show "k = n" "rest = drop n data" by (fact q(2), fact q(3))
  have ok0: "map_ok CaseInsensitiLess (rq_headers (rp_data ?start))"
    by (simp add: new_HttpRequestParser_def new_HttpRequest_def map_ok_def)
  show "request_hasError mc p \<longleftrightarrow> list_ex (bad_event data) evs \<or> mc_has_error mc p'"
    using callbacks_error [OF q(1)] unfolding q(4) by (auto simp: request_hasError_def new_HttpRequestParser_def)
  show "map_ok CaseInsensitiLess (rq_headers (rp_data p))"
    using callbacks_map_ok [OF q(1) ok0] unfolding q(4) by simp
  have get: "getHeader (rp_data p) key def = map_getOr (rq_headers (rq_hdr.puts (rp_data ?start) ?kvs)) key def"
    using callbacks_headers [OF q(1)] unfolding q(4) by (simp add: getHeader_def)
  have "getHeader (rp_data ?start) key def = def"
    by (simp add: new_HttpRequestParser_def new_HttpRequest_def getHeader_def map_getOr_get map_get_def)
  then show "getHeader (rp_data p) key def =
      (case find (\<lambda>(k, v). casekey k = casekey key) (rev ?kvs) of Some (k, v) \<Rightarrow> v | None \<Rightarrow> def)"
    using rq_hdr.get_puts [OF ok0, where kvs = ?kvs and k = key] unfolding get
    by (auto simp: getHeader_def map_getOr_get same_name_def split: option.splits)
qed

text \<open>A machine that takes one line as the head and reports it as the value of one field.\<close>

definition line_end :: "string \<Rightarrow> nat option" where
  "line_end d = (if CHR 0x0A \<in> set d then Some (length (takeWhile (\<lambda>c. c \<noteq> CHR 0x0A) d)) else None)"

definition line_machine :: "(bool, request_event) machine" where
  "line_machine =
     \<lparr>mc_init = False,
      mc_execute = (\<lambda>p d. case line_end d of None \<Rightarrow> Inr (0, False, []) | Some i \<Rightarrow> Inr (Suc i, True, [E_http_field 0 i 0 i])),
      mc_has_error = (\<lambda>_. False), mc_is_finished = id\<rparr>"

lemma line_machine_reads: "reads_buffer line_machine"
proof -
  have "length (takeWhile (\<lambda>c. c \<noteq> CHR 0x0A) d) < length d" if "CHR 0x0A \<in> set d" for d :: string
    using that by (induction d) auto
  then show ?thesis by (auto simp: reads_buffer_def line_machine_def line_end_def Suc_le_eq)
qed

theorem parser_request_witness:
  "\<exists>p. request_execute line_machine (''a'' @ [CHR 0x0A]) (new_HttpRequestParser line_machine) = Inr (2, [], p)
     \<and> getHeader (rp_data p) ''A'' [] = ''a''"
proof -
  have e: "mc_execute line_machine (mc_init line_machine) (''a'' @ [CHR 0x0A]) = Inr (2, True, [E_http_field 0 1 0 1])"
    by (simp add: line_machine_def line_end_def)
  obtain k rest p where r: "request_execute line_machine (''a'' @ [CHR 0x0A]) (new_HttpRequestParser line_machine) = Inr (k, rest, p)"
    using conjunct1 [OF parser_request [OF e]] by (auto simp: returns_def throws_def in_buffer_def)
  then show ?thesis
    using parser_request [OF e, of k rest p "''A''" "[]"]
    by (auto simp: field_of_def str_at_def casekey_def c_str_def char_tolower_def)
qed

text \<open>C6. On a connected TCP socket whose \<open>recv\<close> does not fail, \<open>recvRequest\<close> always ends, for any machine that reads no
  more than its buffer and any buffer size below 2 GiB: no byte sequence keeps it looping.  It ends with an exception
  of the parser's \<open>execute\<close>; or with the \<open>length_error\<close> of \<open>body.resize\<close>, and then the head was parsed without error and
  announces \<open>2^62\<close> bytes or more; or by returning.  A request it returns is the one of the parser that found the end of
  the head, without error; with a positive content length its body has exactly that length and stands in the input
  directly behind the head, with no byte lost or moved between the buffer and the stream.\<close>

theorem session_request:
  assumes "tcp_socket recv_f send_f sock incoming outgoing" "reads_buffer mc"
    and "0 < s_http_request_buffer_size limits" "s_http_request_buffer_size limits < 2 ^ 31"
  shows "(\<exists>e d q. recvRequest mc cast limits (SocketStream_read recv_f (Some sock)) k = Some (Inl e) \<and> request_execute mc d q = Inl e)
   \<or> (\<exists>parser j. recvRequest mc cast limits (SocketStream_read recv_f (Some sock)) k = Some (Inl resize_error)
    \<and> head_parsed mc limits (SocketStream_read recv_f (Some sock)) incoming k parser j
    \<and> 2 ^ 62 \<le> sint (request_getContentLength cast parser))
   \<or> (\<exists>r k'. recvRequest mc cast limits (SocketStream_read recv_f (Some sock)) k = Some (Inr (r, k'))
    \<and> (r \<noteq> None \<longrightarrow> length (incoming k') < length (incoming k))
    \<and> (case r of None \<Rightarrow> True
       | Some req \<Rightarrow> \<exists>parser j. head_parsed mc limits (SocketStream_read recv_f (Some sock)) incoming k parser j
           \<and> (let n = sint (request_getContentLength cast parser)
              in if n > 0 then req = (rp_data parser)\<lparr>rq_body := take (nat n) (drop j (to_chars (incoming k)))\<rparr>
                   \<and> length (rq_body req) = nat n
                 else req = rp_data parser)))"
  by (rule byte_source.recvRequest_ok [OF byte_stream.axioms(1) [OF tcp_socket.is_stream [OF assms(1)]] assms(2-4)])

theorem session_request_witness:
  "\<exists>r. recvRequest line_machine (\<lambda>_. None) default_limits (SocketStream_read loop_recv (Some loop_socket)) ([97, 10], []) =
     Some r"
  using session_request [OF loopback.tcp_socket_axioms line_machine_reads, of default_limits "\<lambda>_. None" "([97, 10], [])"]
  by (auto simp: default_limits_def)

text \<open>C5. \<open>handleClient\<close> implements the abstract server, on a connected TCP socket whose \<open>recv\<close> and \<open>send\<close> do not fail and
  with servlets that answer from the request and the response alone, without the session: it ends, by returning or
  with the exception that ended the requests, one of the parser or the \<open>length_error\<close> of \<open>body.resize\<close>.  When it returns, what it has sent is one response per
  request received, in order, each the serialisation of what the dispatcher made of the request; without
  keep-alive it serves at most one.  A request's own \<open>connection: close\<close> does not end the loop.\<close>

theorem server_responses:
  assumes "tcp_socket recv_f send_f sock incoming outgoing" "reads_buffer mc"
    and "0 < s_http_request_buffer_size limits" "s_http_request_buffer_size limits < 2 ^ 31"
    and "dispatches fnmatch (m_dispatch sv) h"
    and "\<And>q. length (HttpResponse_dump (h q (response_for (m_isKeepalive sv) q))) < 2 ^ 64"
  shows "\<exists>qs res. requests (recvRequest mc cast limits (SocketStream_read recv_f (Some sock)))
        (sendResponse (SocketStream_write send_f (Some sock))) (\<lambda>q. h q (response_for (m_isKeepalive sv) q)) (m_isKeepalive sv) k qs res
    \<and> handleClient mc cast limits (SocketStream_read recv_f (Some sock)) (SocketStream_write send_f (Some sock)) close_s fnmatch sv k =
        Some (map_sum id close_s res)
    \<and> (case res of
         Inl e \<Rightarrow> request_error mc e
       | Inr k' \<Rightarrow> outgoing k' = outgoing k @ answers (\<lambda>q. h q (response_for (m_isKeepalive sv) q)) qs)
    \<and> (\<not> m_isKeepalive sv \<longrightarrow> length qs \<le> 1)"
proof -
  let ?a = "\<lambda>q. h q (response_for (m_isKeepalive sv) q)"
  obtain qs res where r: "requests (recvRequest mc cast limits (SocketStream_read recv_f (Some sock)))
        (sendResponse (SocketStream_write send_f (Some sock))) ?a (m_isKeepalive sv) k qs res"
      "case res of Inl e \<Rightarrow> request_error mc e | Inr s' \<Rightarrow> outgoing s' = outgoing k @ answers ?a qs"
    using byte_stream.requests_served [OF tcp_socket.is_stream [OF assms(1)] assms(2-4), of ?a cast "m_isKeepalive sv" k] assms(6)
    by blast
  then show ?thesis
    using requests_handled [OF assms(5) r(1)] requests_single [OF r(1)]
    by (intro exI [of _ qs] exI [of _ res]) (cases res; simp add: handleClient_def)
qed

theorem server_responses_witness:
  "\<exists>qs k'. handleClient line_machine (\<lambda>_. None) default_limits (SocketStream_read loop_recv (Some loop_socket))
       (SocketStream_write loop_send (Some loop_socket)) id (\<lambda>_ _. False) (new_HttpServer 0 True) ([97, 10], []) = Some k'
     \<and> (case k' of Inl e \<Rightarrow> request_error line_machine e
        | Inr k' \<Rightarrow> snd k' = answers (\<lambda>q. not_found (response_for True q)) qs)"
proof -
  have sv: "m_dispatch (new_HttpServer 0 True) = ServletDispatch" "m_isKeepalive (new_HttpServer 0 True)"
    by (simp_all add: new_HttpServer_def new_TcpServer_def TcpServer.TcpServer.extend_def)
  have size: "0 < s_http_request_buffer_size default_limits" "s_http_request_buffer_size default_limits < 2 ^ 31"
    by (simp_all add: default_limits_def)
  have d: "dispatches (\<lambda>_ _. False) (m_dispatch (new_HttpServer 0 True)) (\<lambda>q. not_found)"
    unfolding sv by (rule NotFound_dispatches)
  obtain qs res where r: "handleClient line_machine (\<lambda>_. None) default_limits (SocketStream_read loop_recv (Some loop_socket))
       (SocketStream_write loop_send (Some loop_socket)) id (\<lambda>_ _. False) (new_HttpServer 0 True) ([97, 10], []) = Some (map_sum id id res)"
     "case res of Inl e \<Rightarrow> request_error line_machine e
        | Inr k' \<Rightarrow> snd k' = snd ([97, 10] :: u8 list, []) @ answers (\<lambda>q. not_found (response_for True q)) qs"
    using server_responses [OF loopback.tcp_socket_axioms line_machine_reads size d not_found_length,
        of "\<lambda>_. None" "([97, 10], [])" id] unfolding eqTrueI [OF sv(2)] by blast
  then show ?thesis by (intro exI [of _ qs] exI [of _ res]) (auto simp: sum.map_id0 split: sum.splits)
qed

section \<open>The client\<close>


definition silent_machine :: "(bool, response_event) machine" where
  "silent_machine = \<lparr>mc_init = False, mc_execute = (\<lambda>p d. Inr (0, False, [])), mc_has_error = (\<lambda>_. False), mc_is_finished = id\<rparr>"

definition demo_sys :: sys where
  "demo_sys = \<lparr>sys_socket = 5, sys_bind = 0, sys_connect = 0, sys_listen = 0, sys_accept = - 1, sys_getpeername = None, sys_getsockname = None\<rparr>"

definition demo_env :: "(bool, loopback) client_env" where
  "demo_env = \<lparr>ce_getaddrinfo = (\<lambda>_ _ _ _ _. Some [Some (RawIn (new_IPv4Address 0x7F000001 0))]), ce_sys = demo_sys, ce_setsockopt = 0,
     ce_recv = loop_recv, ce_send = loop_send, ce_machine = silent_machine,
     ce_chunks = \<lparr>ci_chunked = (\<lambda>_. False), ci_content_len = (\<lambda>_. 0), ci_chunks_done = (\<lambda>_. True)\<rparr>,
     ce_cast = (\<lambda>_. None), ce_limits = default_limits, ce_errno = (0, [])\<rparr>"


text \<open>What becomes of a chunk that is already in the buffer with its line end and the bytes that follow: its
  data is appended to the body, but the buffer is left with the line end of the chunk at its front and
  without its last two bytes, so the next chunk head is not what the peer sent.  When fewer than two bytes
  follow the head of a chunk, the negative length is passed to \<open>append\<close>, which throws.\<close>

theorem chunk_framing:
  "recv_chunk_data rd buff_size (int (length chunk)) body (int (length (chunk @ crlf @ rest))) (chunk @ crlf @ rest) s =
     Some (Inr (Some (body @ chunk, take (length rest) (crlf @ rest)), s))
   \<and> (length short < 2 \<longrightarrow>
      recv_chunk_data rd buff_size content_len body (int (length short)) short s = Some (Inl NegativeSize))"
  by (intro conjI impI chunk_buffered chunk_short)

theorem chunk_framing_witness:
  "recv_chunk_data (SocketStream_read loop_recv None) 4096 0 [] 0 [] ([], []) = Some (Inl NegativeSize)"
  using chunk_framing [where rd = "SocketStream_read loop_recv None" and buff_size = 4096 and body = "[]" and chunk = "[]" and rest = "[]"
      and s = "([], [])" and short = "[]" and content_len = 0]
  by simp

text \<open>C19. Whatever sequence of calls takes, closes and returns connections: the counter of the pool is the number
  of connections in its list plus those handed out (modulo \<open>2^32\<close>); every listed connection was connected
  when it came back and has been used at most \<open>m_maxRequest\<close> times.\<close>

theorem pool_invariant:
  assumes "pool_reach pool used"
  shows "m_total pool = word_of_nat (length (m_conns pool) + length used)
    \<and> list_all (\<lambda>c. m_createTime c = 0) (m_conns pool @ used)
    \<and> list_all (\<lambda>c. isConnected c \<and> m_request c \<le> ucast (m_maxRequest pool)) (m_conns pool)"
  using pool_reach_inv [OF assms] by (simp add: pool_inv_def)

theorem pool_invariant_witness: "m_total (new_HttpConnectionPool ''h'' [] 80 1 2 3) = 0"
  using pool_invariant [OF pool_reach.create [of "''h''" "[]" 80 1 2 3]] by (simp add: new_HttpConnectionPool_def)

text \<open>No descriptor of the pool is lost or closed twice: taking a connection and returning one each split the
  descriptors there were, and the one that was made, into those closed, those kept and those handed out.\<close>

theorem pool_descriptors:
  "(getConnection ga os now pool = Inr (c, pool', cs) \<longrightarrow>
      (\<exists>made. (made = [] \<or> made = [sys_socket os]) \<and>
        mset (conn_fds (m_conns pool)) + mset made = mset (closed_by cs) + mset (conn_fds (m_conns pool')) + mset (conn_fds (handed c))))
   \<and> (ReleasePtr now conn pool = (pool1, cs1) \<longrightarrow>
      mset (conn_fds (m_conns pool)) + mset (owned (cn_sock conn)) = mset (closed_by cs1) + mset (conn_fds (m_conns pool1)))"
  by (intro conjI impI) (erule getConnection_fds, erule ReleasePtr_fds)

lemma no_address: "LookupAnyIPAddress (\<lambda>_ _ _ _ _. None) host family type protocol = None"
  by (cases "node_service host") (simp add: LookupAnyIPAddress_def Lookup_def)

theorem pool_descriptors_witness:
  "\<exists>c pool' cs made. getConnection (\<lambda>_ _ _ _ _. None) demo_sys 7 (new_HttpConnectionPool ''h'' [] 80 1 2 3) = Inr (c, pool', cs)
     \<and> mset (conn_fds []) + mset made = mset (closed_by cs) + mset (conn_fds (m_conns pool')) + mset (conn_fds (handed c))"
proof -
  have g: "getConnection (\<lambda>_ _ _ _ _. None) demo_sys 7 (new_HttpConnectionPool ''h'' [] 80 1 2 3) =
      Inr (None, new_HttpConnectionPool ''h'' [] 80 1 2 3, [])"
    by (simp add: getConnection_def new_HttpConnectionPool_def no_address)
  moreover have "m_conns (new_HttpConnectionPool ''h'' [] 80 1 2 3) = []" by (simp add: new_HttpConnectionPool_def)
  ultimately show ?thesis using conjunct1 [OF pool_descriptors, THEN mp, OF g] g by fastforce
qed

text \<open>The limits of the pool that do nothing.  \<open>m_maxSize\<close> is never read: a pool of any maximal size can have
  any number of connections handed out.  \<open>m_createTime\<close> is never set and the age test is the wrong way
  round: once the clock is past \<open>m_maxAliveTime\<close> the oldest returned connection is handed out again
  whatever its age.\<close>

theorem pool_limits_ignored:
  assumes "LookupAnyIPAddress ga host AF_UNSPEC 0 0 = Some addr"
    and "Socket_connect os (setPort addr (ucast (port :: u32))) (- 1) (CreateTCP (setPort addr (ucast port))) = Inr (True, sock, cs)"
  shows "(\<exists>pool used. pool_reach pool used \<and> m_maxSize pool = max_size \<and> length used = n)
    \<and> (pool_reach pool1 used1 \<and> m_conns pool1 = c # rest \<and> ucast (m_maxAliveTime pool1) \<le> now \<longrightarrow>
        getConnection ga os now pool1 = Inr (Some c, pool1\<lparr>m_conns := rest\<rparr>, []))"
  using pool_grows [OF assms] pool_reach_inv getConnection_ageless by blast

theorem pool_limits_ignored_witness: "\<exists>pool used. pool_reach pool used \<and> m_maxSize pool = 1 \<and> length used = 1000"
proof -
  let ?a = "setPort (IPv4Address (new_IPv4Address 0x7F000001 0)) (ucast (80 :: u32))"
  have l: "LookupAnyIPAddress (ce_getaddrinfo demo_env) ''h'' AF_UNSPEC 0 0 = Some (IPv4Address (new_IPv4Address 0x7F000001 0))"
    by (simp add: LookupAnyIPAddress_def Lookup_def demo_env_def Address_Create_def as_IPAddress_def split: prod.split)
  obtain sock cs where c: "Socket_connect demo_sys ?a (- 1) (CreateTCP ?a) = Inr (True, sock, cs)"
    by (simp add: Socket_connect_def prepare_def CreateTCP_def new_Socket_def isValid_def newSock_def Let_def demo_sys_def
        getRemoteAddress_def getLocalAddress_def ask_address_def)
  show ?thesis using pool_limits_ignored [OF l c, of 1 1000] by blast
qed

section \<open>The listening server\<close>

text \<open>\<open>bind\<close> succeeds exactly when it adds no address to the failures.  It then has one more listening socket
  per address; otherwise it drops all its sockets, also those of an earlier successful call.  Every
  descriptor it had or made is owned by one of its sockets or closed.\<close>

theorem tcp_bind:
  assumes "TcpServer_bind addrs [] sv = Inr (ok, fails, sv', cs)"
  shows "(ok \<longleftrightarrow> fails = [])
    \<and> (ok \<longrightarrow> length (m_socks sv') = length (m_socks sv) + length addrs
        \<and> (\<exists>bound. m_socks sv' = m_socks sv @ bound \<and> list_all (\<lambda>s. m_sock s \<noteq> - 1) bound))
    \<and> (\<not> ok \<longrightarrow> m_socks sv' = [])
    \<and> mset (owned_all (m_socks sv)) + mset (opened_by addrs) = mset (closed_by cs) + mset (owned_all (m_socks sv'))"
  using TcpServer_bind_ok [OF assms] by blast

theorem tcp_bind_witness:
  "\<exists>sv cs. TcpServer_bind [(demo_sys\<lparr>sys_bind := - 1\<rparr>, IPv4Address (new_IPv4Address 0 80))] [] (new_TcpServer 0) =
      Inr (False, [IPv4Address (new_IPv4Address 0 80)], sv, cs) \<and> m_socks sv = [] \<and> mset (closed_by cs) = {#5#}"
proof -
  let ?a = "IPv4Address (new_IPv4Address 0 80)" and ?os = "demo_sys\<lparr>sys_bind := - 1\<rparr>"
  obtain sv cs where b: "TcpServer_bind [(?os, ?a)] [] (new_TcpServer 0) = Inr (False, [?a], sv, cs)"
    by (simp add: TcpServer_bind_def bind_one_def Socket_bind_def prepare_def CreateTCP_def new_Socket_def isValid_def
        newSock_def Let_def demo_sys_def)
  have "mset (owned_all (m_socks (new_TcpServer 0))) + mset (opened_by [(?os, ?a)]) = {#5#}"
    by (simp add: new_TcpServer_def opened_by_def opened_def CreateTCP_def new_Socket_def isValid_def demo_sys_def)
  then show ?thesis using tcp_bind [OF b] b by auto
qed

end
