(* ===== verification/Protocol.thy ===== *)
theory Protocol
  imports Messages Network
begin

text \<open>
  Properties of the HTTP protocol layer with the generated machines in place: messages survive the way from \<open>dump\<close>
  over a TCP connection to the parser of the other side, and the ways in which they do not.
\<close>

section \<open>Helpers\<close>

context tcp_socket
begin

lemma first_read:
  assumes "incoming k \<noteq> []" "0 < n"
  defines "m \<equiv> nat (fst (fst (recv_f (m_sock s) (unat n) k)))"
  shows "\<exists>k1. SocketStream_read recv_f (Some s) k n = ((word_of_nat m, take m (incoming k)), k1)
    \<and> m \<le> unat n \<and> m \<le> length (incoming k) \<and> incoming k1 = drop m (incoming k)"
proof -
  have "0 < unat n" using assms(2) by (simp add: unat_gt_0 word_neq_0_conv)
  from recv_data [OF assms(1) this] show ?thesis
    using connected by (auto simp: m_def SocketStream_read_def SocketStream_isConnected_def Socket_recv_def)
qed

end

definition decimal_cast :: "string \<Rightarrow> u64 option" where
  "decimal_cast s = (if s \<noteq> [] \<and> all_digits s then Some (word_of_nat (dec_value s)) else None)"

lemma decimal_casts: "casts_lengths decimal_cast"
  by (simp add: casts_lengths_def decimal_cast_def nat_to_string_digits dec_value_to_string)

section \<open>Messages over a connection\<close>

text \<open>C7. A request written by \<open>HttpRequest::dump\<close> is read back from a TCP connection by \<open>recvRequest\<close> with the
  generated parser: same method, version, path, query, fragment and body, and the fields in the order they were
  written.  The head has to come with the first read; the body may be cut in any way.  Bytes behind the request that
  came with the first read are lost.\<close>

theorem request_over_tcp:
  assumes "tcp_socket recv_f send_f sock incoming outgoing" "dumps_well r" "HttpRequest_dump r = Inr data"
    and "casts_lengths lexical_cast" "rq_body r \<noteq> [] \<or> no_length (rq_headers r)"
    and "incoming k = of_chars data @ rest" "length data < 2 ^ 31"
    and "0 < s_http_request_buffer_size limits" "s_http_request_buffer_size limits < 2 ^ 31"
    and "m = nat (fst (fst (recv_f (m_sock sock) (unat (s_http_request_buffer_size limits)) k)))"
    and "length data - length (rq_body r) \<le> m"
  shows "\<exists>k'. recvRequest (http_machine q) lexical_cast limits (SocketStream_read recv_f (Some sock)) k
      = Some (Inr (Some ((reread r)\<lparr>rq_body := rq_body r\<rparr>), k'))
    \<and> incoming k' = drop (max m (length data)) (incoming k)"
proof -
  have src: "byte_source (SocketStream_read recv_f (Some sock)) incoming"
    by (rule byte_stream.axioms(1) [OF tcp_socket.is_stream [OF assms(1)]])
  have "incoming k \<noteq> []" using dump_head_read [OF assms(2,3)] assms(6) by (auto simp: of_chars_def)
  from tcp_socket.first_read [OF assms(1) this assms(8)] obtain k1 where
    "SocketStream_read recv_f (Some sock) k (s_http_request_buffer_size limits) = ((word_of_nat m, take m (incoming k)), k1)"
    "incoming k1 = drop m (incoming k)" "m \<le> length (incoming k)" "m \<le> unat (s_http_request_buffer_size limits)"
    unfolding assms(10) by blast
  moreover have "unat (s_http_request_buffer_size limits) < 2 ^ 31"
    using assms(9) word_less_nat_alt [of "s_http_request_buffer_size limits" "2 ^ 31"] by simp
  ultimately show ?thesis
    using byte_source.recvRequest_dump [OF src assms(2-4) _ assms(6,7) _ _ assms(11)] assms(5) by blast
qed

definition demo_request :: HttpRequest where
  "demo_request = (new_HttpRequest 0x11 True)\<lparr>rq_method := POST, rq_path := ''/a'', rq_headers := [(''host'', ''b'')], rq_body := ''xyz''\<rparr>"

definition demo_text :: string where
  "demo_text = (case HttpRequest_dump demo_request of Inl e \<Rightarrow> [] | Inr d \<Rightarrow> d)"

lemma demo_request_facts:
  "dumps_well demo_request" "HttpRequest_dump demo_request = Inr demo_text" "length demo_text = 69" "rq_body demo_request \<noteq> []"
  by code_simp+

definition demo_memory :: http_parser where
  "demo_memory = \<lparr>hp_cs = 0, hp_body_start = 0, hp_content_len = 0, hp_nread = 0, hp_mark = 0, hp_field_start = 0, hp_field_len = 0,
     hp_query_start = 0, hp_xml_sent = 0, hp_json_sent = 0, hp_uri_relaxed = 0\<rparr>"

lemma default_sizes:
  "0 < s_http_request_buffer_size default_limits" "s_http_request_buffer_size default_limits < 2 ^ 31"
  "0 < s_http_response_buffer_size default_limits" "s_http_response_buffer_size default_limits < 2 ^ 31"
  by (simp_all add: default_limits_def)

theorem request_over_tcp_witness:
  "\<exists>k'. recvRequest (http_machine demo_memory) decimal_cast default_limits (SocketStream_read loop_recv (Some loop_socket))
     (of_chars demo_text, []) = Some (Inr (Some ((reread demo_request)\<lparr>rq_body := rq_body demo_request\<rparr>), k'))"
proof -
  let ?k = "(of_chars demo_text, []) :: loopback"
  have read: "69 = nat (fst (fst (loop_recv (m_sock loop_socket) (unat (s_http_request_buffer_size default_limits)) ?k)))"
    unfolding loop_recv_def default_limits_def by (simp add: Let_def of_chars_def demo_request_facts(3))
  show ?thesis
    using request_over_tcp [OF loopback.tcp_socket_axioms demo_request_facts(1,2) decimal_casts disjI1 [OF demo_request_facts(4)] _ _ _ _ read, where rest = "[]" and q = demo_memory]
      demo_request_facts(3) default_sizes(1,2) by auto
qed

text \<open>C8. A response written by \<open>HttpResponse::dump\<close> is read back from a TCP connection by the client's
  \<open>recvResponse\<close> with the generated parser: same version, status, fields and body; an empty reason has become the
  phrase of the status.  The head has to come with the first read; the body may be cut in any way.\<close>

theorem response_over_tcp:
  assumes "tcp_socket recv_f send_f sock incoming outgoing" "rs_dumps_well r"
    and "casts_lengths lexical_cast" "rs_body r \<noteq> [] \<or> no_length (rs_headers r)"
    and "incoming k = of_chars (HttpResponse_dump r) @ rest" "length (HttpResponse_dump r) < 2 ^ 31"
    and "0 < s_http_response_buffer_size limits" "s_http_response_buffer_size limits < 2 ^ 31"
    and "m = nat (fst (fst (recv_f (m_sock sock) (unat (s_http_response_buffer_size limits)) k)))"
    and "length (HttpResponse_dump r) - length (rs_body r) \<le> m"
  shows "\<exists>k'. recvResponse (client_machine q) client_chunks lexical_cast limits (SocketStream_read recv_f (Some sock)) k
      = Some (Inr (Some ((rs_reread r)\<lparr>rs_body := rs_body r\<rparr>), k'))
    \<and> incoming k' = drop (max m (length (HttpResponse_dump r))) (incoming k)"
proof -
  have src: "byte_source (SocketStream_read recv_f (Some sock)) incoming"
    by (rule byte_stream.axioms(1) [OF tcp_socket.is_stream [OF assms(1)]])
  have "incoming k \<noteq> []" using response_head_dump_read [OF assms(2)] assms(5) by (auto simp: of_chars_def)
  from tcp_socket.first_read [OF assms(1) this assms(7)] obtain k1 where
    "SocketStream_read recv_f (Some sock) k (s_http_response_buffer_size limits) = ((word_of_nat m, take m (incoming k)), k1)"
    "incoming k1 = drop m (incoming k)" "m \<le> length (incoming k)" "m \<le> unat (s_http_response_buffer_size limits)"
    unfolding assms(9) by blast
  moreover have "unat (s_http_response_buffer_size limits) < 2 ^ 31"
    using assms(8) word_less_nat_alt [of "s_http_response_buffer_size limits" "2 ^ 31"] by simp
  ultimately show ?thesis
    using byte_source.recvResponse_dump [OF src assms(2,3) _ assms(5,6) _ _ assms(10)] assms(4) by blast
qed

definition demo_response :: HttpResponse where
  "demo_response = (new_HttpResponse 0x11 True)\<lparr>rs_headers := [(''server'', ''b'')], rs_body := ''xyz''\<rparr>"

definition demo_client_memory :: httpclient_parser where
  "demo_client_memory = \<lparr>cp_cs = 0, cp_body_start = 0, cp_content_len = 0, cp_status = 0, cp_chunked = 0, cp_chunks_done = 0, cp_close = 0,
     cp_nread = 0, cp_mark = 0, cp_field_start = 0, cp_field_len = 0\<rparr>"

lemma demo_response_facts:
  "rs_dumps_well demo_response" "length (HttpResponse_dump demo_response) = 71" "rs_body demo_response \<noteq> []"
  by code_simp+

theorem response_over_tcp_witness:
  "\<exists>k'. recvResponse (client_machine demo_client_memory) client_chunks decimal_cast default_limits
     (SocketStream_read loop_recv (Some loop_socket)) (of_chars (HttpResponse_dump demo_response), [])
     = Some (Inr (Some ((rs_reread demo_response)\<lparr>rs_body := rs_body demo_response\<rparr>), k'))"
proof -
  let ?k = "(of_chars (HttpResponse_dump demo_response), []) :: loopback"
  have read: "71 = nat (fst (fst (loop_recv (m_sock loop_socket) (unat (s_http_response_buffer_size default_limits)) ?k)))"
    unfolding loop_recv_def default_limits_def by (simp add: Let_def of_chars_def demo_response_facts(2))
  show ?thesis
    using response_over_tcp [OF loopback.tcp_socket_axioms demo_response_facts(1) decimal_casts disjI1 [OF demo_response_facts(3)] _ _ _ _ read,
        where rest = "[]" and q = demo_client_memory] demo_response_facts(2) default_sizes(3,4) by auto
qed

section \<open>What a peer can do to the request parser\<close>

text \<open>C9. Whatever bytes arrive on a TCP connection and however they are cut, \<open>recvRequest\<close> with the generated parser
  returns or throws a \<open>length_error\<close>: that of a \<open>std::string\<close> made by a callback, or that of \<open>body.resize\<close>.  In particular
  no assertion of the parser fails, and no callback reads outside the bytes received, which would be \<open>OutOfBounds\<close>.\<close>

theorem request_exceptions:
  assumes "tcp_socket recv_f send_f sock incoming outgoing"
    and "0 < s_http_request_buffer_size limits" "s_http_request_buffer_size limits < 2 ^ 31"
  shows "(\<exists>r k'. recvRequest (http_machine q) lexical_cast limits (SocketStream_read recv_f (Some sock)) k = Some (Inr (r, k')))
    \<or> recvRequest (http_machine q) lexical_cast limits (SocketStream_read recv_f (Some sock)) k
        = Some (Inl (LogicError ''basic_string::_M_create''))
    \<or> recvRequest (http_machine q) lexical_cast limits (SocketStream_read recv_f (Some sock)) k
        = Some (Inl (LogicError ''basic_string::_M_replace_aux''))"
proof -
  have src: "byte_source (SocketStream_read recv_f (Some sock)) incoming"
    by (rule byte_stream.axioms(1) [OF tcp_socket.is_stream [OF assms(1)]])
  have size: "0 < unat (s_http_request_buffer_size limits)" "unat (s_http_request_buffer_size limits) < 2 ^ 31"
    using assms(2,3) word_less_nat_alt [of 0 "s_http_request_buffer_size limits"]
      word_less_nat_alt [of "s_http_request_buffer_size limits" "2 ^ 31"] by simp_all
  show ?thesis
    using byte_source.recvRequest_ok [OF src http_machine_reads assms(2,3), of q lexical_cast k]
      byte_source.recvRequest_throws [OF src size, of q lexical_cast k]
    unfolding too_long_def resize_error_def by blast
qed

theorem request_exceptions_witness:
  "\<exists>r. recvRequest (http_machine demo_memory) (\<lambda>_. None) default_limits (SocketStream_read loop_recv (Some loop_socket))
     ([71, 69, 84], []) = Some r \<and> r \<noteq> Inl AssertFail \<and> r \<noteq> Inl OutOfBounds"
  using request_exceptions [OF loopback.tcp_socket_axioms default_sizes(1,2), of demo_memory "\<lambda>_. None" "([71, 69, 84], [])"]
  by auto

text \<open>C10. A request whose path is cut by two reads loses the part of the path that came with the first read: the marks
  of the parser start anew with every execution.  The request is accepted without error, with the rest as its path.\<close>

theorem request_path_cut:
  assumes "HttpMethodToString m = Inr w" "m \<noteq> MSEARCH" "path_ok p1" "p1 \<noteq> ''/''" "escaped path_class p2"
    "d = CHR ''0'' \<or> d = CHR ''1''" "list_all field_ok fs"
    and "data1 = w @ '' '' @ p1" "data2 = p2 @ '' HTTP/1.'' @ d # crlf @ concat (map field_text fs) @ crlf @ body"
    and "length data1 < 2 ^ 31" "length data2 < 2 ^ 31"
  shows "\<exists>p p'. request_execute (http_machine q) data1 (new_HttpRequestParser (http_machine q)) = Inr (length data1, [], p)
    \<and> request_isFinished (http_machine q) p = 0 \<and> request_execute (http_machine q) data2 p = Inr (length data2 - length body, body, p')
    \<and> request_isFinished (http_machine q) p' = 1 \<and> \<not> request_hasError (http_machine q) p'
    \<and> rp_data p' = parsed_request m p2 [] [] d fs"
  by (rule path_in_two_reads [OF assms])

theorem request_path_cut_witness:
  "\<exists>p p'. request_execute (http_machine demo_memory) ''GET /ad'' (new_HttpRequestParser (http_machine demo_memory)) = Inr (7, [], p)
    \<and> request_execute (http_machine demo_memory) (''min HTTP/1.1'' @ crlf @ crlf) p = Inr (16, [], p') \<and> rq_path (rp_data p') = ''min''"
proof -
  have facts: "HttpMethodToString GET = Inr ''GET''" "path_ok ''/ad''" "escaped path_class ''min''" by code_simp+
  show ?thesis
    using request_path_cut [OF facts(1) _ facts(2) _ facts(3), where d = "CHR ''1''" and fs = "[]" and body = "[]" and q = demo_memory]
    by (fastforce simp: parsed_request_def rq_hdr.puts_def new_HttpRequest_def crlf_def)
qed

text \<open>C11. A request whose query is cut by two reads, behind at least one of its characters and so that the second piece
  is shorter than the offset of the query in the first buffer (method, path and two separators), makes the parser
  throw: the start of the query still counts from the first buffer, the length wraps around, and the \<open>std::string\<close> of
  the callback is too long.  Nothing between the parser and the fiber's entry function catches the exception.  A
  longer second piece does not wrap around and is not covered here.\<close>

theorem request_query_cut:
  assumes "HttpMethodToString m = Inr w" "m \<noteq> MSEARCH" "path_ok path" "escaped query_class q1" "q1 \<noteq> []" "escaped query_class q2"
    and "data1 = w @ '' '' @ path @ ''?'' @ q1" "data2 = q2 @ '' '' @ rest" "length q2 < length w + length path + 2"
    and "length data1 < 2 ^ 31" "length data2 < 2 ^ 31"
  shows "\<exists>p. request_execute (http_machine q) data1 (new_HttpRequestParser (http_machine q)) = Inr (length data1, [], p)
    \<and> request_isFinished (http_machine q) p = 0
    \<and> request_execute (http_machine q) data2 p = Inl (LogicError ''basic_string::_M_create'')"
  by (rule query_in_two_reads [OF assms])

theorem request_query_cut_witness:
  "\<exists>p. request_execute (http_machine demo_memory) ''GET /?a'' (new_HttpRequestParser (http_machine demo_memory))
      = Inr (length ''GET /?a'', [], p)
    \<and> request_execute (http_machine demo_memory) ''b HTTP/1.1'' p = Inl (LogicError ''basic_string::_M_create'')"
proof -
  have facts: "HttpMethodToString GET = Inr ''GET''" "path_ok ''/''" "escaped query_class ''a''" "escaped query_class ''b''" by code_simp+
  show ?thesis
    using request_query_cut [OF facts(1) _ facts(2,3) _ facts(4) refl refl, where rest = "''HTTP/1.1''" and q = demo_memory] by auto
qed

section \<open>What a peer can do to the client\<close>

text \<open>C12. A chunk that is in the buffer together with the bytes behind its line end: the line end is left at the front
  of the buffer, the generated parser does not accept it as the head of the next chunk, and the whole response is
  given up, whatever the connection delivers next.\<close>

theorem chunked_response_lost:
  assumes "tcp_socket recv_f send_f sock incoming outgoing" "rest \<noteq> []" "length rest < unat buff_size" "unat buff_size < 2 ^ 31"
  shows "\<exists>left k'. recv_chunk_data (SocketStream_read recv_f (Some sock)) (sint (ucast buff_size :: u32)) (int (length chunk)) body
        (int (length (chunk @ crlf @ rest))) (chunk @ crlf @ rest) k = Some (Inr (Some (body @ chunk, left), k))
    \<and> recv_chunks (client_machine q) client_chunks (SocketStream_read recv_f (Some sock)) buff_size p (body @ chunk) left k
        = Some (Inr (None, k'))"
proof -
  have src: "byte_source (SocketStream_read recv_f (Some sock)) incoming"
    by (rule byte_stream.axioms(1) [OF tcp_socket.is_stream [OF assms(1)]])
  obtain a b where r: "rest = a # b" using assms(2) by (cases rest) auto
  let ?d = "take (length b) (CHR 0x0A # rest)"
  have left: "take (length rest) (crlf @ rest) = CHR 0x0D # ?d" using r by (simp add: crlf_def)
  have "Suc (length ?d) < unat buff_size" using assms(3) r by simp
  from byte_source.recv_chunks_lost [OF src this assms(4), of q p "body @ chunk" k] show ?thesis
    using chunk_buffered [of "SocketStream_read recv_f (Some sock)" "sint (ucast buff_size :: u32)" chunk body rest k] unfolding left by blast
qed

theorem chunked_response_lost_witness:
  "\<exists>left k'. recv_chunk_data (SocketStream_read loop_recv (Some loop_socket)) 100 5 [] 10 (''hello'' @ crlf @ ''0'' @ crlf) ([], [])
      = Some (Inr (Some (''hello'', left), ([], [])))
    \<and> recv_chunks (client_machine demo_client_memory) client_chunks (SocketStream_read loop_recv (Some loop_socket)) 100
        (new_HttpResponseParser (client_machine demo_client_memory)) ''hello'' left ([], []) = Some (Inr (None, k'))"
  using chunked_response_lost [OF loopback.tcp_socket_axioms, where rest = "''0'' @ crlf" and buff_size = 100
      and chunk = "''hello''" and body = "[]" and k = "([], [])" and q = demo_client_memory
      and p = "new_HttpResponseParser (client_machine demo_client_memory)"]
  by (simp add: crlf_def)



end
