(* ===== verification/Log.thy ===== *)
theory Log
  imports Cpp_String
begin

text \<open>
  \<^verbatim>\<open>src/myhttp/log.h\<close> and \<^verbatim>\<open>log.cpp\<close>, first part: levels, events, the compilation of a pattern into format items,
  and the text of an event.  A format item is a value, a formatter is its pattern, items and error flag.
\<close>

section \<open>Levels\<close>

type_synonym Level = int

definition UNKNOW :: Level where "UNKNOW = 0"
definition DEBUG :: Level where "DEBUG = 1"
definition INFO :: Level where "INFO = 2"
definition WARN :: Level where "WARN = 3"
definition ERROR :: Level where "ERROR = 4"
definition FATAL :: Level where "FATAL = 5"

lemmas level_defs = UNKNOW_def DEBUG_def INFO_def WARN_def ERROR_def FATAL_def

definition Level_ToString :: "Level \<Rightarrow> string" where
  "Level_ToString level =
     (if level = DEBUG then ''DEBUG'' else if level = INFO then ''INFO'' else if level = WARN then ''WARN''
      else if level = ERROR then ''ERROR'' else if level = FATAL then ''FATAL'' else ''UNKNOW'')"

definition Level_FromString :: "string \<Rightarrow> Level" where
  "Level_FromString str =
     (let temp = map char_toupper str
      in if temp = ''DEBUG'' then DEBUG else if temp = ''INFO'' then INFO else if temp = ''WARN'' then WARN
         else if temp = ''ERROR'' then ERROR else if temp = ''FATAL'' then FATAL else UNKNOW)"

section \<open>Events\<close>

record LogEvent =
  m_file :: string
  m_line :: u32
  m_elapse :: u32
  m_threadId :: u32
  m_fiberId :: u32
  m_time :: u64
  m_threadName :: string
  m_ss :: string
  m_loggerName :: string
  m_eventLevel :: Level

definition new_LogEvent ::
  "string \<Rightarrow> Level \<Rightarrow> string \<Rightarrow> u32 \<Rightarrow> u32 \<Rightarrow> u32 \<Rightarrow> u32 \<Rightarrow> u64 \<Rightarrow> string \<Rightarrow> LogEvent" where
  "new_LogEvent logger level file line elapse thread_id fiber_id time thread_name =
     \<lparr>m_file = file, m_line = line, m_elapse = elapse, m_threadId = thread_id, m_fiberId = fiber_id, m_time = time,
      m_threadName = thread_name, m_ss = [], m_loggerName = logger, m_eventLevel = level\<rparr>"

text \<open>\<open>printed\<close> is what \<open>vasprintf\<close> makes of the format and the arguments.\<close>

definition LogEvent_format :: "string option \<Rightarrow> LogEvent \<Rightarrow> LogEvent" where
  "LogEvent_format printed e = (case printed of None \<Rightarrow> e | Some text \<Rightarrow> e\<lparr>m_ss := m_ss e @ text\<rparr>)"

section \<open>Patterns\<close>

datatype FormatItem =
    MessageFormatItem | LevelFormatItem | ElapseFormatItem | NameFormatItem | ThreadIdFormatItem | NewLineFormatItem
  | FilenameFormatItem | LineFormatItem | DateTimeFormatItem string | TabFormatItem | FiberIdFormatItem
  | ThreadNameFormatItem | StringFormatItem string

definition new_DateTimeFormatItem :: "string \<Rightarrow> FormatItem" where
  "new_DateTimeFormatItem format = DateTimeFormatItem (if format = [] then ''%Y-%m-%d %H:%M:%S'' else format)"

text \<open>\<open>s_format_items\<close>.\<close>

definition format_item :: "string \<Rightarrow> string \<Rightarrow> FormatItem option" where
  "format_item str fmt =
     (if str = ''m'' then Some MessageFormatItem
      else if str = ''p'' then Some LevelFormatItem
      else if str = ''r'' then Some ElapseFormatItem
      else if str = ''c'' then Some NameFormatItem
      else if str = ''t'' then Some ThreadIdFormatItem
      else if str = ''n'' then Some NewLineFormatItem
      else if str = ''f'' then Some FilenameFormatItem
      else if str = ''l'' then Some LineFormatItem
      else if str = ''d'' then Some (new_DateTimeFormatItem fmt)
      else if str = ''T'' then Some TabFormatItem
      else if str = ''F'' then Some FiberIdFormatItem
      else if str = ''N'' then Some ThreadNameFormatItem
      else None)"

definition isalpha :: "char \<Rightarrow> bool" where
  "isalpha c \<longleftrightarrow> 65 \<le> (of_char c :: nat) \<and> (of_char c :: nat) \<le> 90 \<or> 97 \<le> (of_char c :: nat) \<and> (of_char c :: nat) \<le> 122"

definition substr :: "string \<Rightarrow> nat \<Rightarrow> nat \<Rightarrow> string" where
  "substr s pos n = take n (drop pos s)"

text \<open>The inner loop of \<open>init\<close>: from the character behind a percent sign at \<open>i\<close> on; it leaves \<open>n\<close>, \<open>fmt_status\<close>,
  \<open>str\<close> and \<open>fmt\<close>.\<close>

function fmt_loop ::
  "string \<Rightarrow> nat \<Rightarrow> nat \<Rightarrow> nat \<Rightarrow> nat \<Rightarrow> string \<Rightarrow> string \<Rightarrow> nat \<times> nat \<times> string \<times> string" where
  "fmt_loop pat i n fmt_status fmt_begin str fmt =
     (if n < length pat then
        (if fmt_status = 0 \<and> \<not> isalpha (pat ! n) \<and> pat ! n \<noteq> CHR ''{'' \<and> pat ! n \<noteq> CHR ''}''
         then (n, fmt_status, substr pat (i + 1) (n - i - 1), fmt)
         else if fmt_status = 0 \<and> pat ! n = CHR ''{''
         then fmt_loop pat i (n + 1) 1 n (substr pat (i + 1) (n - i - 1)) fmt
         else if fmt_status = 1 \<and> pat ! n = CHR ''}''
         then (n + 1, 0, str, substr pat (fmt_begin + 1) (n - fmt_begin - 1))
         else fmt_loop pat i (n + 1) fmt_status fmt_begin
                (if n + 1 = length pat \<and> str = [] then drop (i + 1) pat else str) fmt)
      else (n, fmt_status, str, fmt))"
  by pat_completeness auto

termination by (relation "measure (\<lambda>(pat, i, n, _). length pat - n)") auto

declare fmt_loop.simps [simp del]

lemma fmt_loop_forward: "n \<le> fst (fmt_loop pat i n st b str fmt)"
proof (induction pat i n st b str fmt rule: fmt_loop.induct)
  case (1 pat i n st b str fmt)
  then show ?case by (subst fmt_loop.simps) (auto simp: Suc_le_eq intro: less_imp_le)
qed

lemma fmt_loop_later: "fmt_loop pat i n st b str fmt = (n', st', str', fmt') \<Longrightarrow> n \<le> n'"
  using fmt_loop_forward [of n pat i st b str fmt] by simp

text \<open>The outer loop; a tuple of \<open>vec\<close> is a text, a format and its type.\<close>

function init_loop ::
  "string \<Rightarrow> nat \<Rightarrow> string \<Rightarrow> (string \<times> string \<times> nat) list \<Rightarrow> bool \<Rightarrow> string \<times> (string \<times> string \<times> nat) list \<times> bool" where
  "init_loop pat i nstr vec err =
     (if i < length pat then
        (if pat ! i \<noteq> CHR ''%'' then init_loop pat (i + 1) (nstr @ [pat ! i]) vec err
         else if i + 1 < length pat \<and> pat ! (i + 1) = CHR ''%'' then init_loop pat (i + 1) (nstr @ ''%'') vec err
         else (case fmt_loop pat i (i + 1) 0 0 [] [] of (n, fmt_status, str, fmt) \<Rightarrow>
                 if fmt_status = 0
                 then init_loop pat n [] ((if nstr = [] then vec else vec @ [(nstr, [], 0)]) @ [(str, fmt, 1)]) err
                 else init_loop pat (i + 1) nstr (vec @ [(''<<pattern_error>>'', fmt, 0)]) True))
      else (nstr, vec, err))"
  by pat_completeness auto

termination
  by (relation "measure (\<lambda>(pat, i, _). length pat - i)") (auto dest!: fmt_loop_later [OF sym])

declare init_loop.simps [simp del]

record LogFormatter =
  m_pattern :: string
  m_items :: "FormatItem list"
  m_error :: bool

text \<open>The loop that makes the items.\<close>

fun make_items :: "(string \<times> string \<times> nat) list \<Rightarrow> FormatItem list \<times> bool" where
  "make_items [] = ([], False)"
| "make_items ((str, fmt, kind) # vec) =
     (let (items, err) = make_items vec
      in if kind = 0 then (StringFormatItem str # items, err)
         else (case format_item str fmt of
                 None \<Rightarrow> (StringFormatItem (''<<error_format %'' @ str @ ''>>'') # items, True)
               | Some it \<Rightarrow> (it # items, err)))"

definition new_LogFormatter :: "string \<Rightarrow> LogFormatter" where
  "new_LogFormatter pattern =
     (case init_loop pattern 0 [] [] False of (nstr, vec, err) \<Rightarrow>
        (case make_items (if nstr = [] then vec else vec @ [(nstr, [], 0)]) of (items, err') \<Rightarrow>
           \<lparr>m_pattern = pattern, m_items = items, m_error = err \<or> err'\<rparr>))"

section \<open>Text of an event\<close>

text \<open>\<open>strftime\<close> of the local time writes into 64 bytes; a longer text leaves them unspecified.\<close>

fun item_format :: "(string \<Rightarrow> u64 \<Rightarrow> string) \<Rightarrow> FormatItem \<Rightarrow> Level \<Rightarrow> LogEvent \<Rightarrow> string result" where
  "item_format strftime MessageFormatItem level e = Inr (m_ss e)"
| "item_format strftime LevelFormatItem level e = Inr (Level_ToString level)"
| "item_format strftime ElapseFormatItem level e = Inr (nat_to_string (unat (m_elapse e)))"
| "item_format strftime NameFormatItem level e = Inr (m_loggerName e)"
| "item_format strftime ThreadIdFormatItem level e = Inr (nat_to_string (unat (m_threadId e)))"
| "item_format strftime ThreadNameFormatItem level e = Inr (m_threadName e)"
| "item_format strftime FiberIdFormatItem level e = Inr (nat_to_string (unat (m_fiberId e)))"
| "item_format strftime (DateTimeFormatItem format) level e =
     (let text = strftime (c_str format) (m_time e) in if length text < 64 then Inr text else Inl Uninit)"
| "item_format strftime FilenameFormatItem level e = Inr (m_file e)"
| "item_format strftime LineFormatItem level e = Inr (int_to_string (sint (m_line e)))"
| "item_format strftime NewLineFormatItem level e = Inr [CHR 0x0A]"
| "item_format strftime (StringFormatItem str) level e = Inr str"
| "item_format strftime TabFormatItem level e = Inr [CHR 0x09]"

fun items_format :: "(string \<Rightarrow> u64 \<Rightarrow> string) \<Rightarrow> FormatItem list \<Rightarrow> Level \<Rightarrow> LogEvent \<Rightarrow> string result" where
  "items_format strftime [] level e = Inr []"
| "items_format strftime (i # is) level e =
     bindR (item_format strftime i level e) (\<lambda>a. bindR (items_format strftime is level e) (\<lambda>b. Inr (a @ b)))"

definition LogFormatter_format :: "(string \<Rightarrow> u64 \<Rightarrow> string) \<Rightarrow> LogFormatter \<Rightarrow> Level \<Rightarrow> LogEvent \<Rightarrow> string result" where
  "LogFormatter_format strftime f level e = items_format strftime (m_items f) level e"

section \<open>Lemmas\<close>

lemma Level_roundtrip: "level \<in> {DEBUG, INFO, WARN, ERROR, FATAL} \<Longrightarrow> Level_FromString (Level_ToString level) = level"
proof -
  have "\<forall>l \<in> {DEBUG, INFO, WARN, ERROR, FATAL}. Level_FromString (Level_ToString l) = l" by code_simp
  then show "level \<in> {DEBUG, INFO, WARN, ERROR, FATAL} \<Longrightarrow> Level_FromString (Level_ToString level) = level" by blast
qed

text \<open>Patterns by their parts: literal text, and a directive with or without a format.\<close>

datatype piece = Lit string | Dir char "string option"

fun piece_text :: "piece \<Rightarrow> string" where
  "piece_text (Lit s) = s"
| "piece_text (Dir c None) = [CHR ''%'', c]"
| "piece_text (Dir c (Some f)) = [CHR ''%'', c, CHR ''{''] @ f @ ''}''"

fun piece_tuple :: "piece \<Rightarrow> string \<times> string \<times> nat" where
  "piece_tuple (Lit s) = (s, [], 0)"
| "piece_tuple (Dir c f) = ([c], case f of None \<Rightarrow> [] | Some f \<Rightarrow> f, 1)"

fun piece_item :: "piece \<Rightarrow> FormatItem" where
  "piece_item (Lit s) = StringFormatItem s"
| "piece_item (Dir c f) = the (format_item [c] (case f of None \<Rightarrow> [] | Some f \<Rightarrow> f))"

text \<open>Where a directive without a format ends.\<close>

definition stops :: "string \<Rightarrow> bool" where
  "stops s \<longleftrightarrow> s = [] \<or> \<not> isalpha (hd s) \<and> hd s \<noteq> CHR ''{'' \<and> hd s \<noteq> CHR ''}''"

fun pieces_ok :: "piece list \<Rightarrow> bool" where
  "pieces_ok [] = True"
| "pieces_ok (Lit s # ps) =
     (s \<noteq> [] \<and> CHR ''%'' \<notin> set s \<and> (case ps of Lit t # qs \<Rightarrow> False | _ \<Rightarrow> True) \<and> pieces_ok ps)"
| "pieces_ok (Dir c f # ps) =
     (format_item [c] [] \<noteq> None \<and> (case f of None \<Rightarrow> stops (concat (map piece_text ps)) | Some f \<Rightarrow> CHR ''}'' \<notin> set f)
      \<and> pieces_ok ps)"

lemma directive_alpha: "format_item [c] [] \<noteq> None \<Longrightarrow> isalpha c \<and> c \<noteq> CHR ''%'' \<and> c \<noteq> CHR ''{'' \<and> c \<noteq> CHR ''}''"
  by (auto simp: format_item_def isalpha_def split: if_splits)

lemma format_item_fmt: "format_item str [] = Some y \<Longrightarrow> \<exists>z. format_item str fmt = Some z"
  by (simp add: format_item_def split: if_splits)

lemma fmt_loop_inside:
  assumes "pat = p @ f @ CHR ''}'' # rest" "CHR ''}'' \<notin> set f" "str \<noteq> []"
  shows "fmt_loop pat i (length p) 1 b str fmt
    = (length p + length f + 1, 0, str, substr pat (b + 1) (length p + length f - b - 1))"
  using assms
proof (induction f arbitrary: p)
  case Nil
  then show ?case by (subst fmt_loop.simps) (simp add: nth_append)
next
  case (Cons c f)
  have "fmt_loop pat i (length p) 1 b str fmt = fmt_loop pat i (length (p @ [c])) 1 b str fmt"
    using Cons.prems by (subst fmt_loop.simps) (auto simp: nth_append)
  then show ?case using Cons.IH [of "p @ [c]"] Cons.prems by simp
qed

lemma fmt_loop_plain:
  assumes "pat = p @ CHR ''%'' # c # rest" "isalpha c" "c \<noteq> CHR ''{''" "stops rest"
  shows "fmt_loop pat (length p) (length p + 1) 0 0 [] [] = (length p + 2, 0, [c], [])"
proof -
  have c: "pat ! (length p + 1) = c" "length p + 1 < length pat" using assms(1) by (simp_all add: nth_append)
  show ?thesis
  proof (cases rest)
    case Nil
    then show ?thesis
      using assms c by (subst fmt_loop.simps, subst fmt_loop.simps) (simp add: nth_append)
  next
    case (Cons d ds)
    then have "pat ! (length p + 2) = d" "length p + 2 < length pat" using assms(1) by (simp_all add: nth_append)
    then show ?thesis
      using assms c Cons by (subst fmt_loop.simps, subst fmt_loop.simps) (simp add: stops_def substr_def)
  qed
qed

lemma fmt_loop_format:
  assumes "pat = p @ CHR ''%'' # c # CHR ''{'' # f @ CHR ''}'' # rest" "isalpha c" "c \<noteq> CHR ''{''" "CHR ''}'' \<notin> set f"
  shows "fmt_loop pat (length p) (length p + 1) 0 0 [] [] = (length p + length f + 4, 0, [c], f)"
proof -
  have at: "pat ! (length p + 1) = c" "pat ! (length p + 2) = CHR ''{''" "length p + 2 < length pat" "length p + 2 \<noteq> length pat"
    using assms(1) by (simp_all add: nth_append)
  have p: "pat = (p @ [CHR ''%'', c, CHR ''{'']) @ f @ CHR ''}'' # rest" using assms(1) by simp
  have "fmt_loop pat (length p) (length p + 1) 0 0 [] [] = fmt_loop pat (length p) (length p + 2) 0 0 [] []"
    using assms(2,3) at by (subst fmt_loop.simps) simp
  also have "\<dots> = fmt_loop pat (length p) (length p + 3) 1 (length p + 2) (substr pat (length p + 1) 1) []"
    using at by (subst fmt_loop.simps) (simp add: numeral_3_eq_3)
  also have "substr pat (length p + 1) 1 = [c]" using assms(1) by (simp add: substr_def)
  finally show ?thesis using fmt_loop_inside [OF p assms(4), of "[c]" "length p" "length p + 2" "[]"] assms(1)
    by (simp add: substr_def eval_nat_numeral)
qed

definition flush :: "string \<Rightarrow> (string \<times> string \<times> nat) list \<Rightarrow> (string \<times> string \<times> nat) list" where
  "flush nstr vec = (if nstr = [] then vec else vec @ [(nstr, [], 0)])"

lemma init_loop_literal:
  assumes "pat = p @ s @ rest" "CHR ''%'' \<notin> set s"
  shows "init_loop pat (length p) nstr vec err = init_loop pat (length p + length s) (nstr @ s) vec err"
  using assms
proof (induction s arbitrary: p nstr)
  case (Cons c s)
  have "pat ! length p = c" "length p < length pat" "c \<noteq> CHR ''%''" using Cons.prems by (auto simp: nth_append)
  then have "init_loop pat (length p) nstr vec err = init_loop pat (length (p @ [c])) (nstr @ [c]) vec err"
    by (subst init_loop.simps) simp
  then show ?case using Cons.IH [of "p @ [c]" "nstr @ [c]"] Cons.prems by simp
qed simp

lemma init_loop_pieces:
  assumes "pieces_ok ps" "pat = p @ concat (map piece_text ps)" "nstr \<noteq> [] \<longrightarrow> (case ps of Lit t # qs \<Rightarrow> False | _ \<Rightarrow> True)"
  shows "\<exists>nstr' vec'. init_loop pat (length p) nstr vec err = (nstr', vec', err) \<and> flush nstr' vec' = flush nstr vec @ map piece_tuple ps"
  using assms
proof (induction ps arbitrary: p nstr vec)
  case Nil
  then show ?case by (subst init_loop.simps) simp
next
  case (Cons x ps)
  show ?case
  proof (cases x)
    case (Lit s)
    then have s: "nstr = []" "s \<noteq> []" "CHR ''%'' \<notin> set s" "case ps of Lit t # qs \<Rightarrow> False | _ \<Rightarrow> True" "pieces_ok ps"
      using Cons.prems by auto
    have "init_loop pat (length p) nstr vec err = init_loop pat (length (p @ s)) s vec err"
      using init_loop_literal [of pat p s "concat (map piece_text ps)"] Cons.prems(2) Lit s(1,3) by simp
    then show ?thesis
      using Cons.IH [of "p @ s" s vec] Cons.prems(2) Lit s by (simp add: flush_def)
  next
    case (Dir c f)
    let ?t = "piece_text x"
    have c: "isalpha c" "c \<noteq> CHR ''%''" "c \<noteq> CHR ''{''" "pieces_ok ps" using Cons.prems(1) Dir directive_alpha by auto
    have loop: "fmt_loop pat (length p) (length p + 1) 0 0 [] [] = (length (p @ ?t), 0, [c], case f of None \<Rightarrow> [] | Some f \<Rightarrow> f)"
    proof (cases f)
      case None
      then show ?thesis using fmt_loop_plain [of pat p c "concat (map piece_text ps)"] Cons.prems(1,2) c Dir by simp
    next
      case (Some g)
      then show ?thesis using fmt_loop_format [of pat p c g "concat (map piece_text ps)"] Cons.prems(1,2) c Dir by simp
    qed
    have "pat ! length p = CHR ''%''" "length p < length pat" "pat ! (length p + 1) = c"
      using Cons.prems(2) Dir by (cases f; simp add: nth_append)+
    then have "init_loop pat (length p) nstr vec err
        = init_loop pat (length (p @ ?t)) [] (flush nstr vec @ [piece_tuple x]) err"
      using loop c(2) Dir by (subst init_loop.simps) (simp add: flush_def)
    then show ?thesis
      using Cons.IH [of "p @ ?t" "[]" "flush nstr vec @ [piece_tuple x]"] Cons.prems(2) c(4) by (simp add: flush_def)
  qed
qed

lemma make_items_pieces: "pieces_ok ps \<Longrightarrow> make_items (map piece_tuple ps) = (map piece_item ps, False)"
  by (induction ps rule: pieces_ok.induct) (auto intro: format_item_fmt split: option.splits)

lemma new_LogFormatter_pieces:
  assumes "pieces_ok ps"
  shows "new_LogFormatter (concat (map piece_text ps))
    = \<lparr>m_pattern = concat (map piece_text ps), m_items = map piece_item ps, m_error = False\<rparr>"
proof -
  obtain nstr vec where "init_loop (concat (map piece_text ps)) 0 [] [] False = (nstr, vec, False)" "flush nstr vec = map piece_tuple ps"
    using init_loop_pieces [OF assms, of "concat (map piece_text ps)" "[]" "[]" "[]" False] by (auto simp: flush_def)
  then show ?thesis using make_items_pieces [OF assms] by (simp add: new_LogFormatter_def flush_def)
qed

end
