(* ===== verification/Env.thy ===== *)
theory Env
  imports Cpp_String
begin

text \<open>
  \<^verbatim>\<open>src/myhttp/env.h\<close> and \<^verbatim>\<open>env.cpp\<close>: the arguments of the program, its path and its help texts.  The
  read-write lock makes every operation an atomic step.  The command line is the list of its strings without their
  terminating zeros, the environment of the process a map.
\<close>

section \<open>Definitions\<close>

record Env =
  m_args :: "(string \<times> string) list"
  m_helps :: "(string \<times> string) list"
  m_program :: string
  m_exe :: string
  m_cwd :: string

definition new_Env :: Env where
  "new_Env = \<lparr>m_args = [], m_helps = [], m_program = [], m_exe = [], m_cwd = []\<rparr>"

definition Env_add :: "Env \<Rightarrow> string \<Rightarrow> string \<Rightarrow> Env" where
  "Env_add e key val = e\<lparr>m_args := map_put string_less key val (m_args e)\<rparr>"

definition Env_has :: "Env \<Rightarrow> string \<Rightarrow> bool" where
  "Env_has e key \<longleftrightarrow> map_find string_less key (m_args e) \<noteq> None"

definition Env_del :: "Env \<Rightarrow> string \<Rightarrow> Env" where
  "Env_del e key = e\<lparr>m_args := map_erase string_less key (m_args e)\<rparr>"

definition Env_get :: "Env \<Rightarrow> string \<Rightarrow> string \<Rightarrow> string" where
  "Env_get e key default_value = (case map_find string_less key (m_args e) of Some it \<Rightarrow> snd it | None \<Rightarrow> default_value)"

text \<open>The loop of \<open>init\<close> over the arguments; \<open>now_key\<close> is the option that waits for its value.\<close>

fun init_args :: "string option \<Rightarrow> string list \<Rightarrow> Env \<Rightarrow> bool \<times> Env" where
  "init_args now_key [] e = (True, case now_key of Some key \<Rightarrow> Env_add e key [] | None \<Rightarrow> e)"
| "init_args now_key (a # as) e =
     (if a \<noteq> [] \<and> hd a = CHR ''-'' then
        (if length a > 1
         then init_args (Some (tl a)) as (case now_key of Some key \<Rightarrow> Env_add e key [] | None \<Rightarrow> e)
         else (False, e))
      else (case now_key of
              Some key \<Rightarrow> init_args None as (Env_add e key a)
            | None \<Rightarrow> (False, e)))"

text \<open>\<open>readlink\<close> fills at most the 1024 bytes of \<open>path\<close> and adds no zero; \<open>m_exe = path\<close> then runs past a full buffer.
  \<open>find_last_of\<close> without a slash gives \<open>npos\<close>, with which \<open>substr\<close> takes the whole text.\<close>

definition dir_of :: "string \<Rightarrow> string" where
  "dir_of exe = (if CHR ''/'' \<in> set exe then rev (tl (dropWhile (\<lambda>c. c \<noteq> CHR ''/'') (rev exe))) else exe)"

definition Env_init :: "int \<Rightarrow> string \<Rightarrow> string list \<Rightarrow> Env \<Rightarrow> (bool \<times> Env) result" where
  "Env_init rt link_text argv e =
     (if rt < 0 then Inr (False, e)
      else bindR (assertR (length link_text < 1024 \<or> CHR 0x00 \<in> set link_text) OutOfBounds) (\<lambda>_.
        let exe = c_str link_text; e = e\<lparr>m_exe := exe, m_cwd := dir_of exe @ ''/''\<rparr>
        in (case argv of
              [] \<Rightarrow> Inl (LogicError ''basic_string::_M_construct null not valid'')
            | program # as \<Rightarrow> Inr (init_args None as (e\<lparr>m_program := program\<rparr>)))))"

definition setEnv :: "(string \<rightharpoonup> string) \<Rightarrow> string \<Rightarrow> string \<Rightarrow> bool \<times> (string \<rightharpoonup> string)" where
  "setEnv env key val =
     (if c_str key = [] \<or> CHR ''='' \<in> set (c_str key) then (False, env) else (True, env(c_str key \<mapsto> c_str val)))"

definition getEnv :: "(string \<rightharpoonup> string) \<Rightarrow> string \<Rightarrow> string \<Rightarrow> string" where
  "getEnv env key default_value = (case env (c_str key) of None \<Rightarrow> default_value | Some v \<Rightarrow> v)"

definition getAbsolutePath :: "Env \<Rightarrow> string \<Rightarrow> string" where
  "getAbsolutePath e path =
     (if path = [] then ''/'' else if hd path = CHR ''/'' then path else m_cwd e @ path)"

definition removeHelp :: "Env \<Rightarrow> string \<Rightarrow> Env" where
  "removeHelp e key = e\<lparr>m_helps := filter (\<lambda>(k, d). k \<noteq> key) (m_helps e)\<rparr>"

definition addHelp :: "Env \<Rightarrow> string \<Rightarrow> string \<Rightarrow> Env" where
  "addHelp e key desc = (let e = removeHelp e key in e\<lparr>m_helps := m_helps e @ [(key, desc)]\<rparr>)"

definition printHelp :: "Env \<Rightarrow> string" where
  "printHelp e =
     ''Usage: '' @ m_program e @ '' [options]'' @ [CHR 0x0A]
     @ concat (map (\<lambda>(k, d). ''    -'' @ k @ '' : '' @ d @ [CHR 0x0A]) (m_helps e))"

section \<open>Lemmas\<close>

lemma eqv_string_less: "eqv string_less = (=)"
proof (intro ext)
  fix a b
  have "inj (of_char :: char \<Rightarrow> nat)" by (rule injI) (simp add: of_char_nat_inj)
  then have m: "map (of_char :: char \<Rightarrow> nat) a = map of_char b \<longleftrightarrow> a = b" by (rule inj_map_eq_map)
  show "eqv string_less a b = (a = b)"
    unfolding eqv_def string_less_def using linorder_class.lexordp_linear lexordp_irreflexive' m by metis
qed

interpretation str: strict_weak_order string_less
  rewrites "eqv string_less = (=)"
  using lexord_key_swo [of "map of_char"] eqv_string_less by (simp_all add: string_less_def [abs_def])

interpretation args: kv_store "\<lambda>e k. map_get string_less k (m_args e)" Env_add Env_del "\<lambda>e. map_ok string_less (m_args e)" "(=)"
  by unfold_locales (simp_all add: Env_add_def Env_del_def str.omap.put_inv str.omap.del_inv str.omap.get_put str.omap.get_del)

lemma Env_get_map: "Env_get e key d = (case map_get string_less key (m_args e) of Some v \<Rightarrow> v | None \<Rightarrow> d)"
  by (simp add: Env_get_def map_get_def split: option.splits)

lemma Env_has_map: "Env_has e key \<longleftrightarrow> map_get string_less key (m_args e) \<noteq> None"
  by (simp add: Env_has_def map_get_def)

text \<open>A command line of options, each with a value or without.\<close>

definition option_text :: "string \<times> string option \<Rightarrow> string list" where
  "option_text = (\<lambda>(k, v). (CHR ''-'' # k) # (case v of None \<Rightarrow> [] | Some v \<Rightarrow> [v]))"

definition option_ok :: "string \<times> string option \<Rightarrow> bool" where
  "option_ok = (\<lambda>(k, v). k \<noteq> [] \<and> (case v of None \<Rightarrow> True | Some v \<Rightarrow> v = [] \<or> hd v \<noteq> CHR ''-''))"

definition option_arg :: "string \<times> string option \<Rightarrow> string \<times> string" where
  "option_arg = (\<lambda>(k, v). (k, case v of None \<Rightarrow> [] | Some v \<Rightarrow> v))"

lemma init_args_options:
  assumes "list_all option_ok opts"
  shows "init_args now_key (concat (map option_text opts)) e
    = (True, args.puts e ((case now_key of Some key \<Rightarrow> [(key, [])] | None \<Rightarrow> []) @ map option_arg opts))"
  using assms
proof (induction opts arbitrary: now_key e)
  case Nil
  then show ?case by (simp add: args.puts_def split: option.splits)
next
  case (Cons opt opts)
  obtain k v where opt: "opt = (k, v)" by (cases opt)
  then have "k \<noteq> []" using Cons.prems by (simp add: option_ok_def)
  then show ?case
    using Cons opt by (cases v; cases now_key) (auto simp: option_text_def option_arg_def option_ok_def args.puts_def)
qed

lemma init_args_paths:
  "m_program (snd (init_args now_key as e)) = m_program e \<and> m_exe (snd (init_args now_key as e)) = m_exe e
    \<and> m_cwd (snd (init_args now_key as e)) = m_cwd e"
  by (induction now_key as e rule: init_args.induct) (auto simp: Env_add_def split: option.splits)

text \<open>The command lines \<open>init\<close> accepts.\<close>

fun line_ok :: "bool \<Rightarrow> string list \<Rightarrow> bool" where
  "line_ok waiting [] = True"
| "line_ok waiting (a # as) =
     (if a \<noteq> [] \<and> hd a = CHR ''-'' then length a > 1 \<and> line_ok True as else waiting \<and> line_ok False as)"

lemma init_args_ok: "fst (init_args now_key as e) \<longleftrightarrow> line_ok (now_key \<noteq> None) as"
  by (induction now_key as e rule: init_args.induct) (auto split: option.splits)

lemma line_ok_options:
  "line_ok False as \<longleftrightarrow> (\<exists>opts. list_all option_ok opts \<and> as = concat (map option_text opts))"
proof
  show "line_ok False as \<Longrightarrow> \<exists>opts. list_all option_ok opts \<and> as = concat (map option_text opts)"
  proof (induction as rule: length_induct)
    case (1 as)
    show ?case
    proof (cases as)
      case Nil
      then show ?thesis by (intro exI [of _ "[]"]) simp
    next
      case (Cons a bs)
      then obtain k where a: "a = CHR ''-'' # k" "k \<noteq> []" "line_ok True bs"
        using 1(2) by (cases a) (auto split: if_splits)
      show ?thesis
      proof (cases "bs \<noteq> [] \<and> (hd bs = [] \<or> hd (hd bs) \<noteq> CHR ''-'')")
        case True
        then obtain v cs where bs: "bs = v # cs" "v = [] \<or> hd v \<noteq> CHR ''-''" by (cases bs) auto
        then have "line_ok False cs" using a(3) by (auto split: if_splits)
        then obtain opts where "list_all option_ok opts" "cs = concat (map option_text opts)"
          using 1(1) [rule_format, of cs] Cons bs(1) by auto
        then show ?thesis
          using Cons a bs by (intro exI [of _ "(k, Some v) # opts"]) (simp add: option_ok_def option_text_def)
      next
        case False
        then have "line_ok False bs" using a(3) by (cases bs) (auto split: if_splits)
        then obtain opts where "list_all option_ok opts" "bs = concat (map option_text opts)"
          using 1(1) [rule_format, of bs] Cons by auto
        then show ?thesis
          using Cons a by (intro exI [of _ "(k, None) # opts"]) (simp add: option_ok_def option_text_def)
      qed
    qed
  qed
next
  assume "\<exists>opts. list_all option_ok opts \<and> as = concat (map option_text opts)"
  then show "line_ok False as" using init_args_options [of _ None] init_args_ok [of None as] by force
qed

end
