(* ===== verification/Logger.thy ===== *)
theory Logger
  imports Log Env
begin

text \<open>
  \<^verbatim>\<open>src/myhttp/log.h\<close> and \<^verbatim>\<open>log.cpp\<close>, second part: appenders, loggers and their manager.  Loggers live in the
  manager's map and are identified by their names, appenders by their index in a store, since loggers share them; the
  output is the list of texts that logging writes, in order (not the complaints about wrong patterns).  The mutexes make the operations atomic.  A logger's \<open>m_root\<close> is either null
  or the root logger of the manager.
\<close>

section \<open>Appenders\<close>

datatype target = Console | LogFile string

text \<open>\<open>ap_file\<close> is \<open>None\<close> for a \<open>StdoutLogAppender\<close>; \<open>ap_open\<close> and \<open>ap_good\<close> are \<open>is_open\<close> and the state of the file stream.\<close>

record LogAppender =
  ap_file :: "string option"
  ap_level :: Level
  ap_formatter :: "LogFormatter option"
  ap_lastTime :: u64
  ap_open :: bool
  ap_good :: bool

record log_env =
  le_now :: u64
  le_opens :: "string \<Rightarrow> bool"
  le_writes :: "string \<Rightarrow> bool"
  le_strftime :: "string \<Rightarrow> u64 \<Rightarrow> string"

definition new_StdoutLogAppender :: LogAppender where
  "new_StdoutLogAppender =
     \<lparr>ap_file = None, ap_level = DEBUG, ap_formatter = None, ap_lastTime = 0, ap_open = False, ap_good = True\<rparr>"

text \<open>A stream that is not good is not closed; \<open>open\<close> fails on a stream that is still open and clears the state of one
  it opens.\<close>

definition reopen :: "log_env \<Rightarrow> LogAppender \<Rightarrow> bool \<times> LogAppender" where
  "reopen env ap =
     (let still = ap_open ap \<and> \<not> ap_good ap; ok = (\<not> still \<and> (case ap_file ap of None \<Rightarrow> False | Some f \<Rightarrow> le_opens env f))
      in (ok, ap\<lparr>ap_open := still \<or> ok, ap_good := ok\<rparr>))"

definition new_FileLogAppender :: "log_env \<Rightarrow> string \<Rightarrow> LogAppender" where
  "new_FileLogAppender env filename =
     snd (reopen env \<lparr>ap_file = Some filename, ap_level = DEBUG, ap_formatter = None, ap_lastTime = 0, ap_open = False, ap_good = True\<rparr>)"

definition format_of :: "log_env \<Rightarrow> LogAppender \<Rightarrow> Level \<Rightarrow> LogEvent \<Rightarrow> string result" where
  "format_of env ap level e =
     (case ap_formatter ap of None \<Rightarrow> Inl NullDeref | Some f \<Rightarrow> LogFormatter_format (le_strftime env) f level e)"

definition StdoutLogAppender_log ::
  "log_env \<Rightarrow> Level \<Rightarrow> LogEvent \<Rightarrow> LogAppender \<Rightarrow> (LogAppender \<times> (target \<times> string) list) result" where
  "StdoutLogAppender_log env level e ap =
     (if level \<ge> ap_level ap
      then bindR (format_of env ap level e) (\<lambda>text. Inr (ap, [(Console, text)]))
      else Inr (ap, []))"

definition FileLogAppender_log ::
  "log_env \<Rightarrow> string \<Rightarrow> Level \<Rightarrow> LogEvent \<Rightarrow> LogAppender \<Rightarrow> (LogAppender \<times> (target \<times> string) list) result" where
  "FileLogAppender_log env filename level e ap =
     (if level \<ge> ap_level ap
      then (let now = le_now env;
                ap = (if now \<noteq> ap_lastTime ap then (snd (reopen env ap))\<lparr>ap_lastTime := now\<rparr> else ap)
            in bindR (format_of env ap level e) (\<lambda>text.
               let ok = (ap_good ap \<and> le_writes env filename)
               in Inr (ap\<lparr>ap_good := ok\<rparr>,
                    if ok then [(LogFile filename, text)] else [(Console, ''error'' @ [CHR 0x0A])])))
      else Inr (ap, []))"

definition Appender_log ::
  "log_env \<Rightarrow> Level \<Rightarrow> LogEvent \<Rightarrow> LogAppender \<Rightarrow> (LogAppender \<times> (target \<times> string) list) result" where
  "Appender_log env level e ap =
     (case ap_file ap of None \<Rightarrow> StdoutLogAppender_log env level e ap | Some f \<Rightarrow> FileLogAppender_log env f level e ap)"

section \<open>Loggers\<close>

record Logger =
  lg_name :: string
  lg_level :: Level
  lg_appenders :: "nat list"
  lg_formatter :: "LogFormatter option"
  lg_root :: bool

record LogWorld =
  lw_loggers :: "(string \<times> Logger) list"
  lw_appenders :: "LogAppender list"
  lw_out :: "(target \<times> string) list"

definition default_pattern :: string where
  "default_pattern = ''%d{%Y-%m-%d %H:%M:%S}%T%t%T%N%T%F%T[%p]%T[%c]%T%f:%l%T%m%n''"

definition new_Logger :: "string \<Rightarrow> Logger" where
  "new_Logger name =
     \<lparr>lg_name = name, lg_level = DEBUG, lg_appenders = [], lg_formatter = Some (new_LogFormatter default_pattern), lg_root = False\<rparr>"

definition Logger_setLevel :: "Level \<Rightarrow> Logger \<Rightarrow> Logger" where
  "Logger_setLevel level lg = lg\<lparr>lg_level := level\<rparr>"

definition Logger_setFormatter :: "LogFormatter option \<Rightarrow> Logger \<Rightarrow> Logger" where
  "Logger_setFormatter val lg = lg\<lparr>lg_formatter := val\<rparr>"

definition Logger_setFormatter_str :: "string \<Rightarrow> Logger \<Rightarrow> Logger" where
  "Logger_setFormatter_str val lg =
     (let new_val = new_LogFormatter val in if m_error new_val then lg else Logger_setFormatter (Some new_val) lg)"

definition clearAppenders :: "Logger \<Rightarrow> Logger" where
  "clearAppenders lg = lg\<lparr>lg_appenders := []\<rparr>"

definition delAppender :: "nat \<Rightarrow> Logger \<Rightarrow> Logger" where
  "delAppender a lg = lg\<lparr>lg_appenders := remove1 a (lg_appenders lg)\<rparr>"

definition logger_at :: "LogWorld \<Rightarrow> string \<Rightarrow> Logger option" where
  "logger_at w name = map_get string_less name (lw_loggers w)"

definition put_logger :: "string \<Rightarrow> Logger \<Rightarrow> LogWorld \<Rightarrow> LogWorld" where
  "put_logger name lg w = w\<lparr>lw_loggers := map_put string_less name lg (lw_loggers w)\<rparr>"

text \<open>An appender without a formatter gets that of the logger.\<close>

definition addAppender :: "string \<Rightarrow> nat \<Rightarrow> LogWorld \<Rightarrow> LogWorld result" where
  "addAppender name a w =
     (case logger_at w name of
        None \<Rightarrow> Inl NullDeref
      | Some lg \<Rightarrow>
          if a < length (lw_appenders w) then
            (let ap = lw_appenders w ! a;
                 ap = (if ap_formatter ap = None then ap\<lparr>ap_formatter := lg_formatter lg\<rparr> else ap)
             in Inr (put_logger name (lg\<lparr>lg_appenders := lg_appenders lg @ [a]\<rparr>) (w\<lparr>lw_appenders := (lw_appenders w)[a := ap]\<rparr>)))
          else Inl NullDeref)"

text \<open>The loop of \<open>log\<close> over the appenders.\<close>

fun log_appenders :: "log_env \<Rightarrow> Level \<Rightarrow> LogEvent \<Rightarrow> nat list \<Rightarrow> LogWorld \<Rightarrow> LogWorld result" where
  "log_appenders env level e [] w = Inr w"
| "log_appenders env level e (a # as) w =
     (if a < length (lw_appenders w) then
        bindR (Appender_log env level e (lw_appenders w ! a)) (\<lambda>(ap, out).
          log_appenders env level e as (w\<lparr>lw_appenders := (lw_appenders w)[a := ap], lw_out := lw_out w @ out\<rparr>))
      else Inl NullDeref)"

text \<open>\<open>Logger::log\<close>: a logger without appenders hands the event to its root; a root that had itself for root would call
  itself for ever.\<close>

definition Logger_log :: "log_env \<Rightarrow> string \<Rightarrow> Level \<Rightarrow> LogEvent \<Rightarrow> LogWorld \<Rightarrow> LogWorld result" where
  "Logger_log env name level e w =
     (case logger_at w name of
        None \<Rightarrow> Inl NullDeref
      | Some lg \<Rightarrow>
          if level \<ge> lg_level lg then
            (if lg_appenders lg \<noteq> [] then log_appenders env level e (lg_appenders lg) w
             else if lg_root lg then
               (case logger_at w ''root'' of
                  None \<Rightarrow> Inl NullDeref
                | Some root \<Rightarrow>
                    if level \<ge> lg_level root then
                      (if lg_appenders root \<noteq> [] then log_appenders env level e (lg_appenders root) w
                       else if lg_root root then Inl Diverges else Inr w)
                    else Inr w)
             else Inr w)
          else Inr w)"

text \<open>\<open>~LogEventWrap\<close>, and the macro that makes an event and streams a text into it.\<close>

definition LogEventWrap_delete :: "log_env \<Rightarrow> LogEvent \<Rightarrow> LogWorld \<Rightarrow> LogWorld result" where
  "LogEventWrap_delete env e w = Logger_log env (m_loggerName e) (m_eventLevel e) e w"

definition MYHTTP_LOG_LEVEL :: "log_env \<Rightarrow> LogEvent \<Rightarrow> string \<Rightarrow> LogWorld \<Rightarrow> LogWorld result" where
  "MYHTTP_LOG_LEVEL env e text w =
     (case logger_at w (m_loggerName e) of
        None \<Rightarrow> Inl NullDeref
      | Some lg \<Rightarrow>
          if lg_level lg \<le> m_eventLevel e then LogEventWrap_delete env (e\<lparr>m_ss := m_ss e @ text\<rparr>) w else Inr w)"

definition MYHTTP_LOG_FMT_LEVEL :: "log_env \<Rightarrow> LogEvent \<Rightarrow> string option \<Rightarrow> LogWorld \<Rightarrow> LogWorld result" where
  "MYHTTP_LOG_FMT_LEVEL env e printed w =
     (case logger_at w (m_loggerName e) of
        None \<Rightarrow> Inl NullDeref
      | Some lg \<Rightarrow> if lg_level lg \<le> m_eventLevel e then LogEventWrap_delete env (LogEvent_format printed e) w else Inr w)"

definition Logger_debug :: "log_env \<Rightarrow> string \<Rightarrow> LogEvent \<Rightarrow> LogWorld \<Rightarrow> LogWorld result" where
  "Logger_debug env name e w = Logger_log env name DEBUG e w"

definition Logger_info :: "log_env \<Rightarrow> string \<Rightarrow> LogEvent \<Rightarrow> LogWorld \<Rightarrow> LogWorld result" where
  "Logger_info env name e w = Logger_log env name INFO e w"

definition Logger_warn :: "log_env \<Rightarrow> string \<Rightarrow> LogEvent \<Rightarrow> LogWorld \<Rightarrow> LogWorld result" where
  "Logger_warn env name e w = Logger_log env name WARN e w"

definition Logger_error :: "log_env \<Rightarrow> string \<Rightarrow> LogEvent \<Rightarrow> LogWorld \<Rightarrow> LogWorld result" where
  "Logger_error env name e w = Logger_log env name ERROR e w"

definition Logger_fatal :: "log_env \<Rightarrow> string \<Rightarrow> LogEvent \<Rightarrow> LogWorld \<Rightarrow> LogWorld result" where
  "Logger_fatal env name e w = Logger_log env name FATAL e w"

section \<open>The manager\<close>

definition getLogger :: "string \<Rightarrow> LogWorld \<Rightarrow> LogWorld" where
  "getLogger name w =
     (case logger_at w name of Some lg \<Rightarrow> w | None \<Rightarrow> put_logger name ((new_Logger name)\<lparr>lg_root := True\<rparr>) w)"

definition new_LoggerManager :: "LogWorld result" where
  "new_LoggerManager =
     addAppender ''root'' 0
       \<lparr>lw_loggers = [(''root'', new_Logger ''root'')], lw_appenders = [new_StdoutLogAppender], lw_out = []\<rparr>"

section \<open>Lemmas\<close>

interpretation loggers: kv_store "\<lambda>w k. logger_at w k" "\<lambda>w k lg. put_logger k lg w"
    "\<lambda>w k. w\<lparr>lw_loggers := map_erase string_less k (lw_loggers w)\<rparr>" "\<lambda>w. map_ok string_less (lw_loggers w)" "(=)"
  by unfold_locales
    (simp_all add: logger_at_def put_logger_def str.omap.put_inv str.omap.del_inv str.omap.get_put str.omap.get_del)

text \<open>Formatting fails only for a time that is too long for its buffer.\<close>

lemma item_format_fails: "item_format st i level e = Inl x \<Longrightarrow> x = Uninit"
  by (cases i) (auto simp: Let_def split: if_splits)

lemma items_format_fails: "items_format st is level e = Inl x \<Longrightarrow> x = Uninit"
  by (induction "is") (auto simp: bindR_Inl_iff dest: item_format_fails)

text \<open>What logging leaves of an appender.\<close>

definition same_config :: "LogAppender \<Rightarrow> LogAppender \<Rightarrow> bool" where
  "same_config ap ap' \<longleftrightarrow> ap_file ap' = ap_file ap \<and> ap_level ap' = ap_level ap \<and> ap_formatter ap' = ap_formatter ap"

lemma same_config_refl [simp]: "same_config ap ap"
  by (simp add: same_config_def)

lemma Appender_log_cases:
  assumes "ap_formatter ap \<noteq> None"
  shows "Appender_log env level e ap = Inl Uninit \<or> (\<exists>ap' out. Appender_log env level e ap = Inr (ap', out) \<and> same_config ap ap')"
proof -
  obtain f where f: "ap_formatter ap = Some f" using assms by blast
  show ?thesis
  proof (cases "LogFormatter_format (le_strftime env) f level e")
    case (Inl x)
    then have "x = Uninit" by (auto simp: LogFormatter_format_def dest: items_format_fails)
    with Inl f show ?thesis
      by (cases "ap_file ap")
        (auto simp: Appender_log_def StdoutLogAppender_log_def FileLogAppender_log_def format_of_def reopen_def Let_def same_config_def)
  next
    case (Inr out)
    with f show ?thesis
      by (cases "ap_file ap")
        (auto simp: Appender_log_def StdoutLogAppender_log_def FileLogAppender_log_def format_of_def reopen_def Let_def same_config_def)
  qed
qed

lemma Appender_log_config: "Appender_log env level e ap = Inr (ap', out) \<Longrightarrow> same_config ap ap'"
  by (cases "ap_file ap")
    (auto simp: Appender_log_def StdoutLogAppender_log_def FileLogAppender_log_def reopen_def Let_def same_config_def result_iff
      split: if_splits)

definition same_configs :: "LogWorld \<Rightarrow> LogWorld \<Rightarrow> bool" where
  "same_configs w w' \<longleftrightarrow> lw_loggers w' = lw_loggers w \<and> list_all2 same_config (lw_appenders w) (lw_appenders w')"

lemma same_configs_refl [simp]: "same_configs w w"
  by (simp add: same_configs_def list.rel_refl)

lemma same_config_trans: "same_config a b \<Longrightarrow> same_config b c \<Longrightarrow> same_config a c"
  by (simp add: same_config_def)

lemma same_configs_trans: "same_configs a b \<Longrightarrow> same_configs b c \<Longrightarrow> same_configs a c"
  by (auto simp: same_configs_def intro: list_all2_trans [OF same_config_trans])

lemma same_configs_update:
  assumes "same_config (lw_appenders w ! a) ap"
  shows "same_configs w (w\<lparr>lw_appenders := (lw_appenders w)[a := ap], lw_out := out\<rparr>)"
  using assms by (cases "a < length (lw_appenders w)") (auto simp: same_configs_def list_all2_conv_all_nth nth_list_update)

lemma log_appenders_config: "log_appenders env level e as w = Inr w' \<Longrightarrow> same_configs w w'"
proof (induction as arbitrary: w)
  case (Cons a as)
  then show ?case
    using same_configs_update [OF Appender_log_config] same_configs_trans
    by (auto simp: result_iff split: if_splits) blast
qed simp

text \<open>The appenders an event of a level goes to.\<close>

definition reached :: "LogWorld \<Rightarrow> string \<Rightarrow> Level \<Rightarrow> nat list" where
  "reached w name level =
     (case logger_at w name of
        None \<Rightarrow> []
      | Some lg \<Rightarrow>
          if level < lg_level lg then []
          else if lg_appenders lg \<noteq> [] \<or> \<not> lg_root lg then lg_appenders lg
          else (case logger_at w ''root'' of
                  None \<Rightarrow> []
                | Some root \<Rightarrow> if level < lg_level root then [] else lg_appenders root))"

section \<open>Reachable states\<close>

inductive lw_reach :: "LogWorld \<Rightarrow> bool" where
  create: "new_LoggerManager = Inr w \<Longrightarrow> lw_reach w"
| get: "lw_reach w \<Longrightarrow> lw_reach (getLogger name w)"
| level: "lw_reach w \<Longrightarrow> logger_at w name = Some lg \<Longrightarrow> lw_reach (put_logger name (Logger_setLevel l lg) w)"
| formatter: "lw_reach w \<Longrightarrow> logger_at w name = Some lg \<Longrightarrow> lw_reach (put_logger name (Logger_setFormatter_str s lg) w)"
| clear: "lw_reach w \<Longrightarrow> logger_at w name = Some lg \<Longrightarrow> lw_reach (put_logger name (clearAppenders lg) w)"
| del: "lw_reach w \<Longrightarrow> logger_at w name = Some lg \<Longrightarrow> lw_reach (put_logger name (delAppender a lg) w)"
| appender: "lw_reach w \<Longrightarrow> lw_reach (w\<lparr>lw_appenders := lw_appenders w @ [ap]\<rparr>)"
| add: "lw_reach w \<Longrightarrow> addAppender name a w = Inr w' \<Longrightarrow> lw_reach w'"
| logged: "lw_reach w \<Longrightarrow> Logger_log env name lv e w = Inr w' \<Longrightarrow> lw_reach w'"

definition logger_ok :: "LogAppender list \<Rightarrow> string \<Rightarrow> Logger \<Rightarrow> bool" where
  "logger_ok aps name lg \<longleftrightarrow>
     lg_formatter lg \<noteq> None \<and> (lg_root lg \<longleftrightarrow> name \<noteq> ''root'')
     \<and> (\<forall>a \<in> set (lg_appenders lg). a < length aps \<and> ap_formatter (aps ! a) \<noteq> None)"

definition lw_inv :: "LogWorld \<Rightarrow> bool" where
  "lw_inv w \<longleftrightarrow> map_ok string_less (lw_loggers w) \<and> logger_at w ''root'' \<noteq> None
     \<and> (\<forall>name lg. logger_at w name = Some lg \<longrightarrow> logger_ok (lw_appenders w) name lg)"

lemma lw_inv_ok: "lw_inv w \<Longrightarrow> logger_at w name = Some lg \<Longrightarrow> logger_ok (lw_appenders w) name lg"
  by (simp add: lw_inv_def)

lemma lw_inv_put:
  assumes "lw_inv w" "logger_ok (lw_appenders w) name lg"
  shows "lw_inv (put_logger name lg w)"
  using assms loggers.get_put [of w name lg] loggers.put_inv [of w name lg]
  by (auto simp: lw_inv_def put_logger_def split: if_splits)

lemma lw_inv_appenders:
  assumes "lw_inv w" "length (lw_appenders w) \<le> length aps"
    and "\<And>a. a < length (lw_appenders w) \<Longrightarrow> ap_formatter (lw_appenders w ! a) \<noteq> None \<Longrightarrow> ap_formatter (aps ! a) \<noteq> None"
  shows "lw_inv (w\<lparr>lw_appenders := aps\<rparr>)"
  using assms unfolding lw_inv_def logger_ok_def by (auto simp: logger_at_def) (meson less_le_trans | blast)+

lemma same_configs_inv: "same_configs w w' \<Longrightarrow> lw_inv w \<Longrightarrow> lw_inv w'"
proof -
  assume w: "same_configs w w'" "lw_inv w"
  have "lw_inv (w\<lparr>lw_appenders := lw_appenders w'\<rparr>)"
    by (rule lw_inv_appenders [OF w(2)]) (use w(1) in \<open>auto simp: same_configs_def list_all2_conv_all_nth same_config_def\<close>)
  then show "lw_inv w'" using w(1) by (auto simp: lw_inv_def same_configs_def logger_at_def)
qed

lemma logger_ok_simps [simp]:
  "logger_ok aps name (Logger_setLevel l lg) = logger_ok aps name lg"
  "logger_ok aps name lg \<Longrightarrow> logger_ok aps name (Logger_setFormatter_str s lg)"
  "logger_ok aps name lg \<Longrightarrow> logger_ok aps name (clearAppenders lg)"
  "logger_ok aps name lg \<Longrightarrow> logger_ok aps name (delAppender a lg)"
  by (auto simp: logger_ok_def Logger_setLevel_def Logger_setFormatter_str_def Logger_setFormatter_def clearAppenders_def
      delAppender_def Let_def dest: set_remove1_subset [THEN subsetD])

lemma addAppender_inv:
  assumes "lw_inv w" "addAppender name a w = Inr w'"
  shows "lw_inv w'"
proof -
  obtain lg where lg: "logger_at w name = Some lg" "a < length (lw_appenders w)"
    using assms(2) by (auto simp: addAppender_def split: option.splits if_splits)
  define ap where "ap = (let ap = lw_appenders w ! a in if ap_formatter ap = None then ap\<lparr>ap_formatter := lg_formatter lg\<rparr> else ap)"
  define w1 where "w1 = w\<lparr>lw_appenders := (lw_appenders w)[a := ap]\<rparr>"
  have w': "w' = put_logger name (lg\<lparr>lg_appenders := lg_appenders lg @ [a]\<rparr>) w1"
    using assms(2) lg by (simp add: addAppender_def ap_def w1_def Let_def)
  have ok: "logger_ok (lw_appenders w) name lg" using assms(1) lg(1) by (simp add: lw_inv_def)
  then have f: "ap_formatter ap \<noteq> None" by (simp add: logger_ok_def ap_def Let_def)
  have w1: "lw_inv w1"
    unfolding w1_def by (rule lw_inv_appenders [OF assms(1)]) (use f lg(2) in \<open>auto simp: nth_list_update\<close>)
  then have "logger_ok (lw_appenders w1) name lg" using lg(1) by (auto simp: lw_inv_def w1_def logger_at_def)
  then have "logger_ok (lw_appenders w1) name (lg\<lparr>lg_appenders := lg_appenders lg @ [a]\<rparr>)"
    using f lg(2) by (auto simp: logger_ok_def w1_def nth_list_update)
  then show ?thesis unfolding w' by (rule lw_inv_put [OF w1])
qed

lemma new_Logger_ok: "logger_ok aps ''root'' (new_Logger ''root'')" "name \<noteq> ''root'' \<Longrightarrow> logger_ok aps name ((new_Logger name)\<lparr>lg_root := True\<rparr>)"
  by (simp_all add: logger_ok_def new_Logger_def)

lemma Logger_log_reached:
  assumes "lw_inv w" "logger_at w name = Some lg"
  shows "Logger_log env name level e w = log_appenders env level e (reached w name level) w"
proof -
  obtain root where root: "logger_at w ''root'' = Some root" using assms(1) by (auto simp: lw_inv_def)
  have "\<not> lg_root root" using assms(1) root by (auto simp: lw_inv_def logger_ok_def)
  then show ?thesis using assms(2) root by (simp add: Logger_log_def reached_def)
qed

lemma Logger_log_config: "lw_inv w \<Longrightarrow> Logger_log env name level e w = Inr w' \<Longrightarrow> same_configs w w'"
  by (cases "logger_at w name") (auto simp: Logger_log_reached log_appenders_config, simp add: Logger_log_def)

lemma lw_reach_inv: "lw_reach w \<Longrightarrow> lw_inv w"
proof (induction rule: lw_reach.induct)
  case (create w)
  let ?w = "\<lparr>lw_loggers = [(''root'', new_Logger ''root'')], lw_appenders = [new_StdoutLogAppender], lw_out = []\<rparr>"
  have "lw_inv ?w"
    using new_Logger_ok(1) str.lt_irrefl
    by (auto simp: lw_inv_def logger_at_def map_get_def map_ok_def split: if_splits) (metis eqv_def eqv_string_less)
  then show ?case using create addAppender_inv unfolding new_LoggerManager_def by blast
next
  case (get w name)
  show ?case
  proof (cases "logger_at w name")
    case None
    then have "name \<noteq> ''root''" using get by (auto simp: lw_inv_def)
    then show ?thesis using None lw_inv_put [OF get.IH new_Logger_ok(2)] by (simp add: getLogger_def)
  qed (use get in \<open>simp add: getLogger_def\<close>)
next
  case (appender w ap)
  show ?case by (rule lw_inv_appenders [OF appender.IH]) (auto simp: nth_append)
next
  case (add w name a w')
  then show ?case using addAppender_inv by blast
next
  case (logged w env name lv e w')
  then show ?case using Logger_log_config same_configs_inv by blast
qed (auto intro!: lw_inv_put logger_ok_simps simp: lw_inv_ok)

lemma log_appenders_total:
  assumes "\<forall>a \<in> set as. a < length (lw_appenders w) \<and> ap_formatter (lw_appenders w ! a) \<noteq> None"
  shows "log_appenders env level e as w = Inl Uninit \<or> (\<exists>w'. log_appenders env level e as w = Inr w')"
  using assms
proof (induction as arbitrary: w)
  case (Cons a as)
  then have a: "a < length (lw_appenders w)" "ap_formatter (lw_appenders w ! a) \<noteq> None" by auto
  from Appender_log_cases [OF a(2), of env level e] show ?case
  proof
    assume "\<exists>ap' out. Appender_log env level e (lw_appenders w ! a) = Inr (ap', out) \<and> same_config (lw_appenders w ! a) ap'"
    then obtain ap' out where ap: "Appender_log env level e (lw_appenders w ! a) = Inr (ap', out)" "same_config (lw_appenders w ! a) ap'"
      by blast
    let ?w = "w\<lparr>lw_appenders := (lw_appenders w)[a := ap'], lw_out := lw_out w @ out\<rparr>"
    have "\<forall>b \<in> set as. b < length (lw_appenders ?w) \<and> ap_formatter (lw_appenders ?w ! b) \<noteq> None"
      using Cons.prems ap(2) a by (auto simp: nth_list_update same_config_def)
    from Cons.IH [OF this] show ?thesis using ap(1) a(1) by simp
  qed (use a in simp)
qed simp

lemma reached_ok:
  assumes "lw_inv w"
  shows "\<forall>a \<in> set (reached w name level). a < length (lw_appenders w) \<and> ap_formatter (lw_appenders w ! a) \<noteq> None"
proof -
  have "\<forall>a \<in> set (lg_appenders lg). a < length (lw_appenders w) \<and> ap_formatter (lw_appenders w ! a) \<noteq> None"
    if "logger_at w n = Some lg" for n lg
    using lw_inv_ok [OF assms that] by (simp add: logger_ok_def)
  then show ?thesis by (cases "logger_at w name"; cases "logger_at w ''root''") (simp_all add: reached_def)
qed

text \<open>What an appender contributes when files can be opened and written and the time fits its buffer.\<close>

definition ap_text :: "log_env \<Rightarrow> Level \<Rightarrow> LogEvent \<Rightarrow> LogAppender \<Rightarrow> (target \<times> string) list" where
  "ap_text env level e ap =
     (if level < ap_level ap then []
      else [(case ap_file ap of None \<Rightarrow> Console | Some f \<Rightarrow> LogFile f,
             case format_of env ap level e of Inl x \<Rightarrow> [] | Inr t \<Rightarrow> t)])"

definition time_fits :: "log_env \<Rightarrow> bool" where
  "time_fits env \<longleftrightarrow> (\<forall>fmt t. length (le_strftime env fmt t) < 64)"

definition healthy :: "log_env \<Rightarrow> bool" where
  "healthy env \<longleftrightarrow> (\<forall>f. le_opens env f \<and> le_writes env f) \<and> time_fits env"

lemma items_format_ok: "time_fits env \<Longrightarrow> \<exists>t. items_format (le_strftime env) is level e = Inr t"
proof (induction "is")
  case (Cons i "is")
  moreover have "\<exists>t. item_format (le_strftime env) i level e = Inr t"
    using Cons.prems by (cases i) (auto simp: time_fits_def Let_def)
  ultimately show ?case by auto
qed simp

lemma Appender_log_fits: "time_fits env \<Longrightarrow> ap_formatter ap \<noteq> None \<Longrightarrow> \<exists>r. Appender_log env level e ap = Inr r"
proof -
  assume fits: "time_fits env" "ap_formatter ap \<noteq> None"
  then obtain f t where "ap_formatter ap = Some f" "LogFormatter_format (le_strftime env) f level e = Inr t"
    using items_format_ok [OF fits(1)] unfolding LogFormatter_format_def by (metis not_None_eq)
  then show ?thesis
    by (cases "ap_file ap")
      (auto simp: Appender_log_def StdoutLogAppender_log_def FileLogAppender_log_def format_of_def reopen_def Let_def)
qed

lemma log_appenders_fits: "time_fits env \<Longrightarrow> log_appenders env level e as w \<noteq> Inl Uninit"
proof (induction as arbitrary: w)
  case (Cons a as)
  show ?case
  proof (cases "ap_formatter (lw_appenders w ! a)")
    case None
    then show ?thesis
      using Cons by (cases "ap_file (lw_appenders w ! a)")
        (auto simp: Appender_log_def StdoutLogAppender_log_def FileLogAppender_log_def format_of_def reopen_def Let_def bindR_Inl_iff)
  next
    case (Some f)
    then show ?thesis using Cons Appender_log_fits [OF Cons.prems, of "lw_appenders w ! a" level e] by auto
  qed
qed simp

lemma Appender_log_text:
  assumes "healthy env" "ap_formatter ap \<noteq> None" "ap_good ap"
  shows "\<exists>ap'. Appender_log env level e ap = Inr (ap', ap_text env level e ap) \<and> same_config ap ap' \<and> ap_good ap'"
proof -
  obtain f t where f: "ap_formatter ap = Some f" "LogFormatter_format (le_strftime env) f level e = Inr t"
    using assms(2) items_format_ok [of env] assms(1) unfolding LogFormatter_format_def healthy_def by (metis not_None_eq)
  then show ?thesis
    using assms(1,3) unfolding healthy_def
    by (cases "ap_file ap")
      (auto simp: Appender_log_def StdoutLogAppender_log_def FileLogAppender_log_def format_of_def reopen_def Let_def
        same_config_def ap_text_def)
qed

lemma ap_text_config: "same_config ap ap' \<Longrightarrow> ap_text env level e ap' = ap_text env level e ap"
  by (simp add: same_config_def ap_text_def format_of_def)

lemma log_appenders_text:
  assumes "healthy env" "\<forall>a \<in> set as. a < length (lw_appenders w) \<and> ap_formatter (lw_appenders w ! a) \<noteq> None \<and> ap_good (lw_appenders w ! a)"
  shows "\<exists>w'. log_appenders env level e as w = Inr w'
    \<and> lw_out w' = lw_out w @ concat (map (\<lambda>a. ap_text env level e (lw_appenders w ! a)) as)"
  using assms(2)
proof (induction as arbitrary: w)
  case (Cons a as)
  then have a: "a < length (lw_appenders w)" "ap_formatter (lw_appenders w ! a) \<noteq> None" "ap_good (lw_appenders w ! a)" by auto
  obtain ap' where ap: "Appender_log env level e (lw_appenders w ! a) = Inr (ap', ap_text env level e (lw_appenders w ! a))"
      "same_config (lw_appenders w ! a) ap'" "ap_good ap'"
    using Appender_log_text [OF assms(1) a(2,3)] by blast
  let ?w = "w\<lparr>lw_appenders := (lw_appenders w)[a := ap'], lw_out := lw_out w @ ap_text env level e (lw_appenders w ! a)\<rparr>"
  have ok: "\<forall>b \<in> set as. b < length (lw_appenders ?w) \<and> ap_formatter (lw_appenders ?w ! b) \<noteq> None \<and> ap_good (lw_appenders ?w ! b)"
    using Cons.prems ap(2,3) a by (auto simp: nth_list_update same_config_def)
  have "map (\<lambda>b. ap_text env level e (lw_appenders ?w ! b)) as = map (\<lambda>b. ap_text env level e (lw_appenders w ! b)) as"
    using ap_text_config [OF ap(2)] a(1) by (auto simp: nth_list_update)
  then have "concat (map (\<lambda>b. ap_text env level e (lw_appenders ?w ! b)) as) = concat (map (\<lambda>b. ap_text env level e (lw_appenders w ! b)) as)"
    by (rule arg_cong)
  then show ?case using Cons.IH [OF ok] ap(1) a(1) by auto
qed simp

text \<open>A file appender whose stream went bad while open stays so: the stream is not closed, and \<open>open\<close> fails on it.\<close>

lemma file_stuck:
  assumes "ap_open ap" "\<not> ap_good ap" "ap_file ap = Some f" "Appender_log env level e ap = Inr (ap', out)"
  shows "ap_open ap' \<and> \<not> ap_good ap' \<and> ap_file ap' = Some f \<and> (\<forall>t. (LogFile f, t) \<notin> set out)"
  using assms by (auto simp: Appender_log_def FileLogAppender_log_def reopen_def Let_def result_iff split: if_splits)

end
