(* ===== verification/Util.thy ===== *)
theory Util
  imports Cpp_String HttpParser
begin

text \<open>
  \<^verbatim>\<open>src/myhttp/util.h\<close> and \<^verbatim>\<open>util.cpp\<close>: time, back traces and the file-system helpers.  What the kernel and the C
  library answer is an argument: the time of day, the symbols of a back trace, the text of \<open>strftime\<close>, and a record of
  the file-system calls on a state of their own.
\<close>

section \<open>Time\<close>

definition GetCurrentMS :: "u64 \<Rightarrow> u64 \<Rightarrow> u64" where
  "GetCurrentMS tv_sec tv_usec = tv_sec * 1000 + tv_usec div 1000"

text \<open>\<open>tv_sec * 1000\<close> is a multiplication of \<open>long\<close>, the second one is unsigned.\<close>

definition GetCurrentUS :: "u64 \<Rightarrow> u64 \<Rightarrow> u64 result" where
  "GetCurrentUS tv_sec tv_usec =
     bindR (assertR (- (2 ^ 63) \<le> sint tv_sec * 1000 \<and> sint tv_sec * 1000 < 2 ^ 63) SignedOverflow)
       (\<lambda>_. Inr (tv_sec * 1000 * 1000 + tv_usec))"

text \<open>\<open>strftime\<close> writes its text with a terminating zero into 64 bytes; a longer text leaves the buffer unspecified.\<close>

definition Time2Str :: "(string \<Rightarrow> 'tm \<Rightarrow> string) \<Rightarrow> ('time \<Rightarrow> 'tm) \<Rightarrow> 'time \<Rightarrow> string \<Rightarrow> string result" where
  "Time2Str strftime localtime ts format =
     (let text = strftime (c_str format) (localtime ts) in if length text < 64 then Inr (c_str text) else Inl Uninit)"

section \<open>Back traces\<close>

text \<open>\<open>symbols\<close> are the strings of \<open>backtrace_symbols\<close>, \<open>None\<close> when it fails.\<close>

definition Backtrace :: "string list option \<Rightarrow> string list \<Rightarrow> nat \<Rightarrow> string list" where
  "Backtrace symbols bt skip = (case symbols of None \<Rightarrow> bt | Some ss \<Rightarrow> bt @ drop skip ss)"

definition BacktraceToString :: "string list option \<Rightarrow> nat \<Rightarrow> string \<Rightarrow> string" where
  "BacktraceToString symbols skip pre = concat (map (\<lambda>s. pre @ s @ [CHR 0x0A]) (Backtrace symbols [] skip))"

section \<open>Listing files\<close>

text \<open>What \<open>readdir\<close> reports of a directory; the flag of a directory says whether \<open>access\<close> and \<open>opendir\<close> succeed.\<close>

datatype dirent = DT_DIR string bool "dirent list" | DT_REG string | DT_OTHER string

fun list_entries :: "string \<Rightarrow> string \<Rightarrow> dirent list \<Rightarrow> string list \<Rightarrow> string list" where
  "list_entries path subfix [] files = files"
| "list_entries path subfix (DT_DIR name opens sub # es) files =
     list_entries path subfix es
       (if name = ''.'' \<or> name = ''..'' then files
        else if opens then list_entries (path @ ''/'' @ name) subfix sub files else files)"
| "list_entries path subfix (DT_REG name # es) files =
     list_entries path subfix es
       (if subfix = [] then files @ [path @ ''/'' @ name]
        else if length name < length subfix then files
        else if drop (length name - length subfix) name = subfix then files @ [path @ ''/'' @ name] else files)"
| "list_entries path subfix (DT_OTHER name # es) files = list_entries path subfix es files"

definition ListAllFile :: "dirent list option \<Rightarrow> string \<Rightarrow> string \<Rightarrow> string list \<Rightarrow> string list" where
  "ListAllFile dir path subfix files = (case dir of None \<Rightarrow> files | Some es \<Rightarrow> list_entries path subfix es files)"

section \<open>Directories\<close>

record 's fsys =
  fs_access :: "string \<Rightarrow> 's \<Rightarrow> int"
  fs_lstat :: "string \<Rightarrow> 's \<Rightarrow> int"
  fs_mkdir :: "string \<Rightarrow> 's \<Rightarrow> int \<times> 's"

definition util_mkdir :: "'s fsys \<Rightarrow> string \<Rightarrow> 's \<Rightarrow> int \<times> 's" where
  "util_mkdir fs dirname s = (if fs_access fs dirname s = 0 then (0, s) else fs_mkdir fs dirname s)"

text \<open>\<open>strchr(path + n, '/')\<close>, as an index of \<open>path\<close>.\<close>

definition slash_from :: "string \<Rightarrow> nat \<Rightarrow> nat option" where
  "slash_from path n =
     (case dropWhile (\<lambda>c. c \<noteq> CHR ''/'') (drop n path) of [] \<Rightarrow> None | rest \<Rightarrow> Some (length path - length rest))"

lemma slash_from_Some:
  assumes "slash_from path n = Some i"
  shows "n \<le> i" "i < length path" "path ! i = CHR ''/''" "\<forall>j. n \<le> j \<and> j < i \<longrightarrow> path ! j \<noteq> CHR ''/''"
proof -
  let ?d = "drop n path" and ?k = "length (takeWhile (\<lambda>c. c \<noteq> CHR ''/'') (drop n path))"
  obtain c rest where r: "dropWhile (\<lambda>c. c \<noteq> CHR ''/'') ?d = c # rest"
    using assms by (auto simp: slash_from_def split: list.splits)
  have l: "length ?d = ?k + length (c # rest)"
    using arg_cong [OF takeWhile_dropWhile_id [of "\<lambda>c. c \<noteq> CHR ''/''" ?d], of length] unfolding r length_append by simp
  then have i: "i = n + ?k" using assms r by (simp add: slash_from_def)
  show "n \<le> i" "i < length path" using i l by simp_all
  have k: "?k < length ?d" using l by simp
  have "?d ! ?k = CHR ''/''" using nth_length_takeWhile [OF k] by simp
  then show "path ! i = CHR ''/''" using i l by simp
  show "\<forall>j. n \<le> j \<and> j < i \<longrightarrow> path ! j \<noteq> CHR ''/''"
  proof (intro allI impI)
    fix j assume j: "n \<le> j \<and> j < i"
    then have t: "j - n < ?k" using i by linarith
    then have "takeWhile (\<lambda>c. c \<noteq> CHR ''/'') ?d ! (j - n) \<noteq> CHR ''/''" using nth_mem [OF t] set_takeWhileD by fastforce
    moreover have "?d ! (j - n) = path ! j" using nth_drop [of n path "j - n"] j i l by simp
    ultimately show "path ! j \<noteq> CHR ''/''" using takeWhile_nth [OF t] by metis
  qed
qed

text \<open>The loop over the slashes: whether it came to the end of the path.\<close>

function mkdir_loop :: "'s fsys \<Rightarrow> string \<Rightarrow> nat option \<Rightarrow> 's \<Rightarrow> bool \<times> 's" where
  "mkdir_loop fs path None s = (True, s)"
| "mkdir_loop fs path (Some i) s =
     (let (r, s) = util_mkdir fs (take i path) s
      in if r \<noteq> 0 then (False, s) else mkdir_loop fs path (slash_from path (i + 1)) s)"
  by pat_completeness auto

termination
proof (relation "measure (\<lambda>(fs, path, ptr, s). case ptr of None \<Rightarrow> 0 | Some i \<Rightarrow> Suc (length path - i))")
  fix fs :: "'a fsys" and path :: string and i and s :: 'a and x r s'
  show "((fs, path, slash_from path (i + 1), s'), fs, path, Some i, s) \<in> measure (\<lambda>(fs, path, ptr, s). case ptr of None \<Rightarrow> 0 | Some i \<Rightarrow> Suc (length path - i))"
    using slash_from_Some [of path "i + 1"] by (fastforce split: option.splits)
qed simp

text \<open>\<open>path + 1\<close> lies behind the terminating zero of an empty name.\<close>

definition Mkdir :: "'s fsys \<Rightarrow> string \<Rightarrow> 's \<Rightarrow> (bool \<times> 's) result" where
  "Mkdir fs dirname s =
     (if fs_lstat fs (c_str dirname) s = 0 then Inr (True, s)
      else if c_str dirname = [] then Inl OutOfBounds
      else (let path = c_str dirname; (done, s) = mkdir_loop fs path (slash_from path 1) s
            in if \<not> done then Inr (False, s)
               else (let (r, s) = util_mkdir fs path s in Inr (r = 0, s))))"

section \<open>Pid files\<close>

text \<open>\<open>content\<close> is what the file holds, \<open>None\<close> when it cannot be opened; \<open>getline\<close> fails at the end of the file.\<close>

definition IsRunningPidfile :: "int \<Rightarrow> string option \<Rightarrow> (int \<Rightarrow> int) \<Rightarrow> bool" where
  "IsRunningPidfile lstat_rt content kill0 =
     (if lstat_rt \<noteq> 0 then False
      else (case content of
              None \<Rightarrow> False
            | Some [] \<Rightarrow> False
            | Some text \<Rightarrow>
                (let line = takeWhile (\<lambda>c. c \<noteq> CHR 0x0A) text
                 in if line = [] then False
                    else (let pid = atoi (c_str line) in if pid \<le> 1 then False else kill0 pid = 0))))"

section \<open>Lemmas\<close>

text \<open>The regular files below a directory, by the names on the way to them.\<close>

fun walk :: "dirent list \<Rightarrow> (string \<times> string) list" where
  "walk [] = []"
| "walk (DT_DIR name opens sub # es) =
     (if name \<noteq> ''.'' \<and> name \<noteq> ''..'' \<and> opens then map (apfst ((@) (''/'' @ name))) (walk sub) else []) @ walk es"
| "walk (DT_REG name # es) = ([], name) # walk es"
| "walk (DT_OTHER name # es) = walk es"

lemma suffix_iff_drop: "suffix xs ys \<longleftrightarrow> length xs \<le> length ys \<and> drop (length ys - length xs) ys = xs"
proof
  assume "length xs \<le> length ys \<and> drop (length ys - length xs) ys = xs"
  then show "suffix xs ys" using suffix_drop [of "length ys - length xs" ys] by simp
qed (auto simp: suffix_def)

lemma list_entries_walk:
  "list_entries path subfix es files
     = files @ map (\<lambda>(d, n). path @ d @ ''/'' @ n) (filter (\<lambda>(d, n). suffix subfix n) (walk es))"
proof (induction path subfix es files rule: list_entries.induct)
  case (2 path subfix name opens sub es files)
  then show ?case
    by (auto simp: filter_map comp_def split_beta)
next
  case (3 path subfix name es files)
  then show ?case by (auto simp: suffix_iff_drop not_less)
qed auto

text \<open>The directories on the way to \<open>path\<close>, outermost first: what stands before each slash but a first one, then \<open>path\<close>
  itself.\<close>

definition slashes :: "nat \<Rightarrow> string \<Rightarrow> nat list" where
  "slashes n path = filter (\<lambda>i. path ! i = CHR ''/'') [n ..< length path]"

definition way_to :: "string \<Rightarrow> string list" where
  "way_to path = map (\<lambda>i. take i path) (slashes 1 path) @ [path]"

text \<open>Making directories one after the other, up to the first that is neither there nor can be made.\<close>

primrec make_all :: "'s fsys \<Rightarrow> string list \<Rightarrow> 's \<Rightarrow> bool \<times> 's" where
  "make_all fs [] s = (True, s)"
| "make_all fs (p # ps) s =
     (if fs_access fs p s = 0 then make_all fs ps s
      else (case fs_mkdir fs p s of (r, s) \<Rightarrow> if r = 0 then make_all fs ps s else (False, s)))"

lemma make_all_Cons: "make_all fs (p # ps) s = (case util_mkdir fs p s of (r, s) \<Rightarrow> if r = 0 then make_all fs ps s else (False, s))"
  by (simp add: util_mkdir_def)

lemma make_all_append:
  "make_all fs (ps @ qs) s = (case make_all fs ps s of (ok, s) \<Rightarrow> if ok then make_all fs qs s else (False, s))"
  by (induction ps arbitrary: s) (auto split: prod.split)

lemma slashes_step:
  assumes "slash_from path n = Some i"
  shows "slashes n path = i # slashes (Suc i) path"
proof -
  note i = slash_from_Some [OF assms]
  have "[n ..< length path] = [n ..< i] @ i # [Suc i ..< length path]"
    using upt_add_eq_append [of n i "length path - i"] upt_conv_Cons [OF i(2)] i(1,2) by simp
  moreover have "filter (\<lambda>i. path ! i = CHR ''/'') [n ..< i] = []" using i(4) by (simp add: filter_empty_conv)
  ultimately show ?thesis using i(3) by (simp add: slashes_def)
qed

lemma slashes_end:
  assumes "slash_from path n = None"
  shows "slashes n path = []"
proof -
  have d: "\<forall>c \<in> set (drop n path). c \<noteq> CHR ''/''"
    using assms by (auto simp: slash_from_def dropWhile_eq_Nil_conv split: list.splits)
  have "path ! i \<noteq> CHR ''/''" if "n \<le> i" "i < length path" for i
  proof -
    have "drop n path ! (i - n) \<in> set (drop n path)" using that by (intro nth_mem) simp
    then show ?thesis using d that by auto
  qed
  then show ?thesis by (auto simp: slashes_def filter_empty_conv)
qed

lemma mkdir_loop_make_all:
  "mkdir_loop fs path (slash_from path n) s = make_all fs (map (\<lambda>i. take i path) (slashes n path)) s"
proof (induction "length path - n" arbitrary: n s rule: less_induct)
  case less
  show ?case
  proof (cases "slash_from path n")
    case None
    then show ?thesis by (simp add: slashes_end)
  next
    case (Some i)
    have "length path - Suc i < length path - n" using slash_from_Some(1,2) [OF Some] by linarith
    then show ?thesis using less.hyps [of "Suc i"] Some
      by (simp add: slashes_step make_all_Cons Let_def split: prod.split del: make_all.simps(2))
  qed
qed

lemma Mkdir_make_all:
  "Mkdir fs dirname s =
     (if fs_lstat fs (c_str dirname) s = 0 then Inr (True, s)
      else if c_str dirname = [] then Inl OutOfBounds
      else Inr (make_all fs (way_to (c_str dirname)) s))"
  using mkdir_loop_make_all [of fs "c_str dirname" 1 s]
  by (auto simp: Mkdir_def way_to_def make_all_append make_all_Cons Let_def split: prod.split simp del: make_all.simps(2))

text \<open>When all are made, each was there or \<open>mkdir\<close> made it, on the state its predecessors left; when not, the first
  ones were, and the next was refused.\<close>

lemma make_all_refused:
  "make_all fs ps s = (False, s') \<longleftrightarrow>
     (\<exists>fine p rest s1. ps = fine @ p # rest \<and> make_all fs fine s = (True, s1) \<and> fs_access fs p s1 \<noteq> 0
        \<and> fst (fs_mkdir fs p s1) \<noteq> 0 \<and> s' = snd (fs_mkdir fs p s1))"
  (is "_ \<longleftrightarrow> (\<exists>fine p rest s1. ?stops ps s fine p rest s1)")
proof (induction ps arbitrary: s)
  case (Cons q qs)
  let ?next = "if fs_access fs q s = 0 then Some s else if fst (fs_mkdir fs q s) = 0 then Some (snd (fs_mkdir fs q s)) else None"
  show ?case
  proof (cases ?next)
    case None
    then have n: "fs_access fs q s \<noteq> 0" "fst (fs_mkdir fs q s) \<noteq> 0" by (auto split: if_splits)
    have "fine = []" if "?stops (q # qs) s fine p rest s1" for fine p rest s1
      using that n by (cases fine) (auto split: prod.splits)
    then have "(\<exists>fine p rest s1. ?stops (q # qs) s fine p rest s1) \<longleftrightarrow> s' = snd (fs_mkdir fs q s)"
      using n by fastforce
    then show ?thesis using n by (auto split: prod.splits)
  next
    case (Some t)
    have e: "make_all fs (q # ps) s = make_all fs ps t" for ps
      using Some by (auto split: if_splits prod.splits)
    have "(\<exists>fine p rest s1. ?stops (q # qs) s fine p rest s1) \<longleftrightarrow> (\<exists>fine p rest s1. ?stops qs t fine p rest s1)"
    proof
      assume "\<exists>fine p rest s1. ?stops (q # qs) s fine p rest s1"
      then obtain fine p rest s1 where f: "?stops (q # qs) s fine p rest s1" by blast
      then have "fine \<noteq> []" using Some by (auto split: if_splits)
      then obtain fine' where "fine = q # fine'" using f by (cases fine) auto
      then show "\<exists>fine p rest s1. ?stops qs t fine p rest s1" using f e [of fine'] by fastforce
    next
      assume "\<exists>fine p rest s1. ?stops qs t fine p rest s1"
      then obtain fine p rest s1 where f: "?stops qs t fine p rest s1" by blast
      then have "?stops (q # qs) s (q # fine) p rest s1" using e [of fine] by simp
      then show "\<exists>fine p rest s1. ?stops (q # qs) s fine p rest s1" by blast
    qed
    then show ?thesis using e [of qs] Cons.IH [of t] by simp
  qed
qed simp

end
