(* ===== verification/Config.thy ===== *)
theory Config
  imports Env Util
begin

text \<open>
  \<^verbatim>\<open>src/myhttp/config.h\<close> and \<^verbatim>\<open>config.cpp\<close>: conversions between YAML text and containers, configuration variables
  with their listeners, the registry and loading from YAML.  The YAML library is an argument: \<open>y_load\<close> and \<open>y_dump\<close> are
  its parser and its output operator, \<open>y_map_at\<close> its indexing of a map by a number, \<open>y_key_at\<close> the indexing by a text of a
  node that is not a map, \<open>y_as\<close> the conversion to text of a node that is not a scalar.  Its documents are values of the data
  model of YAML.  The values of variables are one type \<open>'v\<close>; a variable carries the name of its C++ type and its two
  conversions.  Listeners act on a state \<open>'s\<close> of the program and may throw.
\<close>

section \<open>YAML\<close>

datatype yaml = YUndefined | YNull | YScalar string | YSequence "yaml list" | YMap "(yaml \<times> yaml) list"

record yaml_lib =
  y_load :: "string \<Rightarrow> yaml result"
  y_dump :: "yaml \<Rightarrow> string"
  y_map_at :: "yaml \<Rightarrow> nat \<Rightarrow> yaml"
  y_key_at :: "yaml \<Rightarrow> string \<Rightarrow> yaml result"
  y_as :: "yaml \<Rightarrow> string result"

definition y_size :: "yaml \<Rightarrow> nat" where
  "y_size n = (case n of YSequence xs \<Rightarrow> length xs | YMap ps \<Rightarrow> length ps | _ \<Rightarrow> 0)"

definition y_at :: "yaml_lib \<Rightarrow> yaml \<Rightarrow> nat \<Rightarrow> yaml" where
  "y_at lib n i = (case n of YSequence xs \<Rightarrow> if i < length xs then xs ! i else YUndefined | _ \<Rightarrow> y_map_at lib n i)"

definition y_scalar :: "yaml \<Rightarrow> string" where
  "y_scalar n = (case n of YScalar s \<Rightarrow> s | _ \<Rightarrow> [])"

definition y_field :: "yaml_lib \<Rightarrow> yaml \<Rightarrow> string \<Rightarrow> yaml result" where
  "y_field lib n k =
     (case n of
        YMap ps \<Rightarrow> Inr (case find (\<lambda>p. fst p = YScalar k) ps of None \<Rightarrow> YUndefined | Some p \<Rightarrow> snd p)
      | _ \<Rightarrow> y_key_at lib n k)"

definition y_as_string :: "yaml_lib \<Rightarrow> yaml \<Rightarrow> string result" where
  "y_as_string lib n = (case n of YScalar s \<Rightarrow> Inr s | _ \<Rightarrow> y_as lib n)"

text \<open>Iterating over the pairs of a node; an element of a sequence has no key.\<close>

definition y_pairs :: "yaml \<Rightarrow> (yaml \<times> yaml) list result" where
  "y_pairs n = (case n of YMap ps \<Rightarrow> Inr ps | YSequence (x # xs) \<Rightarrow> Inl (LogicError ''InvalidNode'') | _ \<Rightarrow> Inr [])"

text \<open>A node that values were pushed to or assigned at keys.\<close>

definition y_sequence :: "yaml list \<Rightarrow> yaml" where
  "y_sequence xs = (if xs = [] then YNull else YSequence xs)"

definition y_map :: "(string \<times> yaml) list \<Rightarrow> yaml" where
  "y_map kvs = (if kvs = [] then YNull else YMap (map (apfst YScalar) kvs))"

section \<open>Conversions\<close>

fun mapR :: "('a \<Rightarrow> 'b result) \<Rightarrow> 'a list \<Rightarrow> 'b list result" where
  "mapR f [] = Inr []"
| "mapR f (x # xs) = bindR (f x) (\<lambda>y. bindR (mapR f xs) (\<lambda>ys. Inr (y # ys)))"

text \<open>\<open>LexicalCast<std::string, std::vector<T>>\<close> and \<open>std::list\<close>: the elements in order.\<close>

definition vector_from_string :: "yaml_lib \<Rightarrow> (string \<Rightarrow> 'a result) \<Rightarrow> string \<Rightarrow> 'a list result" where
  "vector_from_string lib from v =
     bindR (y_load lib v) (\<lambda>node. mapR (\<lambda>i. from (y_dump lib (y_at lib node i))) [0..<y_size node])"

definition vector_to_string :: "yaml_lib \<Rightarrow> ('a \<Rightarrow> string result) \<Rightarrow> 'a list \<Rightarrow> string result" where
  "vector_to_string lib to v =
     bindR (mapR (\<lambda>i. bindR (to i) (y_load lib)) v) (\<lambda>nodes. Inr (y_dump lib (y_sequence nodes)))"

text \<open>\<open>std::set\<close> by its comparator.\<close>

definition set_from_string :: "yaml_lib \<Rightarrow> ('a \<Rightarrow> 'a \<Rightarrow> bool) \<Rightarrow> (string \<Rightarrow> 'a result) \<Rightarrow> string \<Rightarrow> 'a list result" where
  "set_from_string lib lt from v =
     bindR (vector_from_string lib from v) (\<lambda>xs. Inr (foldl (\<lambda>s x. set_insert lt x s) [] xs))"

text \<open>\<open>std::unordered_set\<close>: a set; \<open>order\<close> is the order of its iteration.\<close>

definition unordered_set_from_string :: "yaml_lib \<Rightarrow> (string \<Rightarrow> 'a result) \<Rightarrow> string \<Rightarrow> 'a set result" where
  "unordered_set_from_string lib from v = bindR (vector_from_string lib from v) (\<lambda>xs. Inr (set xs))"

definition unordered_set_to_string :: "yaml_lib \<Rightarrow> ('a set \<Rightarrow> 'a list) \<Rightarrow> ('a \<Rightarrow> string result) \<Rightarrow> 'a set \<Rightarrow> string result" where
  "unordered_set_to_string lib order to v = vector_to_string lib to (order v)"

text \<open>\<open>std::map<std::string, T>\<close>: \<open>insert\<close> keeps the first value of a key.\<close>

definition map_insert :: "string \<times> 'a \<Rightarrow> (string \<times> 'a) list \<Rightarrow> (string \<times> 'a) list" where
  "map_insert = (\<lambda>(k, v) m. case map_find string_less k m of None \<Rightarrow> map_put string_less k v m | Some _ \<Rightarrow> m)"

definition pairs_from_string :: "yaml_lib \<Rightarrow> (string \<Rightarrow> 'a result) \<Rightarrow> string \<Rightarrow> (string \<times> 'a) list result" where
  "pairs_from_string lib from v =
     bindR (y_load lib v) (\<lambda>node. bindR (y_pairs node) (\<lambda>ps.
       mapR (\<lambda>(k, x). bindR (from (y_dump lib x)) (\<lambda>a. Inr (y_scalar k, a))) ps))"

definition map_from_string :: "yaml_lib \<Rightarrow> (string \<Rightarrow> 'a result) \<Rightarrow> string \<Rightarrow> (string \<times> 'a) list result" where
  "map_from_string lib from v =
     bindR (pairs_from_string lib from v) (\<lambda>kvs. Inr (foldl (\<lambda>m kv. map_insert kv m) [] kvs))"

definition map_to_string :: "yaml_lib \<Rightarrow> ('a \<Rightarrow> string result) \<Rightarrow> (string \<times> 'a) list \<Rightarrow> string result" where
  "map_to_string lib to v =
     bindR (mapR (\<lambda>(k, x). bindR (to x) (\<lambda>t. bindR (y_load lib t) (\<lambda>n. Inr (k, n)))) v) (\<lambda>kvs. Inr (y_dump lib (y_map kvs)))"

text \<open>\<open>std::unordered_map\<close>: a map; \<open>order\<close> is the order of its iteration.\<close>

definition unordered_map_from_string :: "yaml_lib \<Rightarrow> (string \<Rightarrow> 'a result) \<Rightarrow> string \<Rightarrow> (string \<rightharpoonup> 'a) result" where
  "unordered_map_from_string lib from v = bindR (pairs_from_string lib from v) (\<lambda>kvs. Inr (map_of kvs))"

definition unordered_map_to_string ::
  "yaml_lib \<Rightarrow> ((string \<rightharpoonup> 'a) \<Rightarrow> (string \<times> 'a) list) \<Rightarrow> ('a \<Rightarrow> string result) \<Rightarrow> (string \<rightharpoonup> 'a) \<Rightarrow> string result" where
  "unordered_map_to_string lib order to v = map_to_string lib to (order v)"

section \<open>Variables\<close>

text \<open>What \<open>catch(std::exception&)\<close> catches; the other errors end the program.\<close>

definition is_exception :: "cpp_error \<Rightarrow> bool" where
  "is_exception e = (case e of OutOfRange _ \<Rightarrow> True | InvalidArgument _ \<Rightarrow> True | LogicError _ \<Rightarrow> True | _ \<Rightarrow> False)"

type_synonym ('v, 's) on_change_cb = "'v \<Rightarrow> 'v \<Rightarrow> 's \<Rightarrow> cpp_error option \<times> 's"

record ('v, 's) ConfigVar =
  cv_name :: string
  cv_description :: string
  cv_type :: string
  cv_from :: "string \<Rightarrow> 'v result"
  cv_to :: "'v \<Rightarrow> string result"
  cv_val :: 'v
  cv_cbs :: "(nat \<times> ('v, 's) on_change_cb) list"

definition new_ConfigVar ::
  "string \<Rightarrow> (string \<Rightarrow> 'v result) \<Rightarrow> ('v \<Rightarrow> string result) \<Rightarrow> string \<Rightarrow> 'v \<Rightarrow> string \<Rightarrow> ('v, 's) ConfigVar" where
  "new_ConfigVar ty from to name default_value description =
     \<lparr>cv_name = map char_tolower name, cv_description = description, cv_type = ty, cv_from = from, cv_to = to,
      cv_val = default_value, cv_cbs = []\<rparr>"

text \<open>\<open>toString\<close> gives the empty text when the conversion throws.\<close>

definition ConfigVar_toString :: "('v, 's) ConfigVar \<Rightarrow> string result" where
  "ConfigVar_toString var =
     (case cv_to var (cv_val var) of Inr t \<Rightarrow> Inr t | Inl e \<Rightarrow> if is_exception e then Inr [] else Inl e)"

text \<open>The loop over the listeners, in the order of their keys; one that throws ends it.\<close>

fun run_cbs :: "(nat \<times> ('v, 's) on_change_cb) list \<Rightarrow> 'v \<Rightarrow> 'v \<Rightarrow> 's \<Rightarrow> cpp_error option \<times> 's" where
  "run_cbs [] old new s = (None, s)"
| "run_cbs ((i, cb) # cbs) old new s =
     (case cb old new s of (Some e, s) \<Rightarrow> (Some e, s) | (None, s) \<Rightarrow> run_cbs cbs old new s)"

definition setValue :: "'v \<Rightarrow> ('v, 's) ConfigVar \<Rightarrow> 's \<Rightarrow> cpp_error option \<times> ('v, 's) ConfigVar \<times> 's" where
  "setValue v var s =
     (if v = cv_val var then (None, var, s)
      else (case run_cbs (cv_cbs var) (cv_val var) v s of
              (Some e, s) \<Rightarrow> (Some e, var, s)
            | (None, s) \<Rightarrow> (None, var\<lparr>cv_val := v\<rparr>, s)))"

text \<open>\<open>fromString\<close>: the result is \<open>false\<close> after an exception, an error when the program ends.\<close>

definition ConfigVar_fromString :: "string \<Rightarrow> ('v, 's) ConfigVar \<Rightarrow> 's \<Rightarrow> (bool \<times> ('v, 's) ConfigVar \<times> 's) result" where
  "ConfigVar_fromString val var s =
     (case cv_from var val of
        Inl e \<Rightarrow> if is_exception e then Inr (False, var, s) else Inl e
      | Inr v \<Rightarrow>
          (case setValue v var s of
             (None, var, s) \<Rightarrow> Inr (True, var, s)
           | (Some e, var, s) \<Rightarrow> if is_exception e then Inr (False, var, s) else Inl e))"

text \<open>The counter of \<open>addListener\<close> is a static variable of the class.\<close>

definition addListener ::
  "('v, 's) on_change_cb \<Rightarrow> nat \<Rightarrow> ('v, 's) ConfigVar \<Rightarrow> nat \<times> nat \<times> ('v, 's) ConfigVar" where
  "addListener cb s_fun_id var =
     (let s_fun_id = (s_fun_id + 1) mod 2 ^ 64 in (s_fun_id, s_fun_id, var\<lparr>cv_cbs := map_put (<) s_fun_id cb (cv_cbs var)\<rparr>))"

definition delListener :: "nat \<Rightarrow> ('v, 's) ConfigVar \<Rightarrow> ('v, 's) ConfigVar" where
  "delListener key var = var\<lparr>cv_cbs := map_erase (<) key (cv_cbs var)\<rparr>"

definition getListener :: "nat \<Rightarrow> ('v, 's) ConfigVar \<Rightarrow> ('v, 's) on_change_cb option" where
  "getListener key var = map_get (<) key (cv_cbs var)"

definition clearListener :: "('v, 's) ConfigVar \<Rightarrow> ('v, 's) ConfigVar" where
  "clearListener var = var\<lparr>cv_cbs := []\<rparr>"

section \<open>The registry\<close>

type_synonym ('v, 's) ConfigVarMap = "(string \<times> ('v, 's) ConfigVar) list"

definition name_chars :: string where
  "name_chars = ''abcdefghikjlmnopqrstuvwxyz._0123456789''"

definition valid_name :: "string \<Rightarrow> bool" where
  "valid_name name \<longleftrightarrow> list_all (\<lambda>c. c \<in> set name_chars) name"

definition LookupBase :: "string \<Rightarrow> ('v, 's) ConfigVarMap \<Rightarrow> ('v, 's) ConfigVar option" where
  "LookupBase name datas = map_get string_less name datas"

text \<open>\<open>Lookup(name, default_value, description)\<close> for the type \<open>ty\<close>: the variable under \<open>name\<close>, or a null pointer when it
  has another type; variables are identified by their names.\<close>

definition Lookup_create ::
  "string \<Rightarrow> (string \<Rightarrow> 'v result) \<Rightarrow> ('v \<Rightarrow> string result) \<Rightarrow> string \<Rightarrow> 'v \<Rightarrow> string \<Rightarrow> ('v, 's) ConfigVarMap
     \<Rightarrow> (string option \<times> ('v, 's) ConfigVarMap) result" where
  "Lookup_create ty from to name default_value description datas =
     (case map_find string_less name datas of
        Some it \<Rightarrow> Inr (if cv_type (snd it) = ty then Some name else None, datas)
      | None \<Rightarrow>
          if valid_name name
          then Inr (Some name, map_put string_less name (new_ConfigVar ty from to name default_value description) datas)
          else Inl (InvalidArgument name))"

definition Lookup_typed :: "string \<Rightarrow> string \<Rightarrow> ('v, 's) ConfigVarMap \<Rightarrow> string option" where
  "Lookup_typed ty name datas =
     (case map_find string_less name datas of
        None \<Rightarrow> None
      | Some it \<Rightarrow> if cv_type (snd it) = ty then Some name else None)"

definition visit :: "(('v, 's) ConfigVar \<Rightarrow> 's \<Rightarrow> 's) \<Rightarrow> ('v, 's) ConfigVarMap \<Rightarrow> 's \<Rightarrow> 's" where
  "visit cb datas s = foldl (\<lambda>s (k, var). cb var s) s datas"

section \<open>Loading\<close>

text \<open>\<open>ListAllMember\<close>; a name with another character ends the descent at it.\<close>

fun ListAllMember :: "string \<Rightarrow> yaml \<Rightarrow> (string \<times> yaml) list \<Rightarrow> (string \<times> yaml) list"
  and list_members :: "string \<Rightarrow> (yaml \<times> yaml) list \<Rightarrow> (string \<times> yaml) list \<Rightarrow> (string \<times> yaml) list" where
  "ListAllMember pre node output =
     (if \<not> valid_name pre then output
      else (case node of
              YMap ps \<Rightarrow> list_members pre ps (output @ [(pre, node)])
            | _ \<Rightarrow> output @ [(pre, node)]))"
| "list_members pre [] output = output"
| "list_members pre ((k, v) # ps) output =
     list_members pre ps
       (ListAllMember (if pre = [] then y_scalar k else pre @ ''.'' @ y_scalar k) v output)"

fun load_members :: "yaml_lib \<Rightarrow> (string \<times> yaml) list \<Rightarrow> ('v, 's) ConfigVarMap \<Rightarrow> 's \<Rightarrow> (('v, 's) ConfigVarMap \<times> 's) result" where
  "load_members lib [] datas s = Inr (datas, s)"
| "load_members lib ((key, node) # ms) datas s =
     (if key = [] then load_members lib ms datas s
      else (let key = map char_tolower key
            in (case LookupBase key datas of
                  None \<Rightarrow> load_members lib ms datas s
                | Some var \<Rightarrow>
                    bindR (ConfigVar_fromString (case node of YScalar t \<Rightarrow> t | _ \<Rightarrow> y_dump lib node) var s) (\<lambda>(ok, var, s).
                      load_members lib ms (map_put string_less key var datas) s))))"

definition LoadFromYaml :: "yaml_lib \<Rightarrow> yaml \<Rightarrow> ('v, 's) ConfigVarMap \<Rightarrow> 's \<Rightarrow> (('v, 's) ConfigVarMap \<times> 's) result" where
  "LoadFromYaml lib root datas s = load_members lib (ListAllMember [] root []) datas s"

text \<open>The loop of \<open>LoadFromConfDir\<close>: \<open>mtime\<close> is what \<open>lstat\<close> tells, \<open>load_file\<close> is \<open>YAML::LoadFile\<close>, \<open>seen\<close> is
  \<open>s_file2modifytime\<close>, whose \<open>operator[]\<close> makes a zero entry.  An exception of the parser is caught.\<close>

fun load_files ::
  "yaml_lib \<Rightarrow> (string \<Rightarrow> u64) \<Rightarrow> (string \<Rightarrow> yaml result) \<Rightarrow> string list \<Rightarrow> (string \<times> u64) list \<Rightarrow> ('v, 's) ConfigVarMap \<Rightarrow> 's
     \<Rightarrow> ((string \<times> u64) list \<times> ('v, 's) ConfigVarMap \<times> 's) result" where
  "load_files lib mtime load_file [] seen datas s = Inr (seen, datas, s)"
| "load_files lib mtime load_file (f # fs) seen datas s =
     (let seen = map_insert (f, 0) seen
      in if map_get string_less f seen = Some (mtime f) then load_files lib mtime load_file fs seen datas s
         else (case load_file f of
                 Inl e \<Rightarrow> if is_exception e then load_files lib mtime load_file fs seen datas s else Inl e
               | Inr root \<Rightarrow>
                   bindR (LoadFromYaml lib root datas s) (\<lambda>(datas, s). load_files lib mtime load_file fs seen datas s)))"

definition LoadFromConfDir ::
  "yaml_lib \<Rightarrow> Env \<Rightarrow> (string \<Rightarrow> dirent list option) \<Rightarrow> (string \<Rightarrow> u64) \<Rightarrow> (string \<Rightarrow> yaml result) \<Rightarrow> string
     \<Rightarrow> (string \<times> u64) list \<Rightarrow> ('v, 's) ConfigVarMap \<Rightarrow> 's \<Rightarrow> ((string \<times> u64) list \<times> ('v, 's) ConfigVarMap \<times> 's) result" where
  "LoadFromConfDir lib env dirs mtime load_file path seen datas s =
     (let absoulte_path = getAbsolutePath env path; files = ListAllFile (dirs absoulte_path) absoulte_path ''.yml'' []
      in load_files lib mtime load_file files seen datas s)"

section \<open>Round trips of containers\<close>

text \<open>\<open>nodes\<close> are the YAML nodes of the elements: each reads back as its element.\<close>

definition elements_as :: "yaml_lib \<Rightarrow> (string \<Rightarrow> 'a result) \<Rightarrow> ('a \<Rightarrow> string result) \<Rightarrow> 'a list \<Rightarrow> yaml list \<Rightarrow> bool" where
  "elements_as lib from to v nodes \<longleftrightarrow>
     list_all2 (\<lambda>x n. bindR (to x) (y_load lib) = Inr n \<and> from (y_dump lib n) = Inr x) v nodes"

lemma mapR_all2: "list_all2 (\<lambda>x y. f x = Inr y) xs ys \<Longrightarrow> mapR f xs = Inr ys"
  by (induction rule: list_all2_induct) simp_all

lemma vector_roundtrip:
  assumes "elements_as lib from to v nodes" "y_load lib (y_dump lib (y_sequence nodes)) = Inr (y_sequence nodes)"
  shows "vector_to_string lib to v = Inr (y_dump lib (y_sequence nodes))"
    "vector_from_string lib from (y_dump lib (y_sequence nodes)) = Inr v"
proof -
  have "mapR (\<lambda>i. bindR (to i) (y_load lib)) v = Inr nodes"
    by (rule mapR_all2) (use assms(1) in \<open>auto simp: elements_as_def list_all2_conv_all_nth\<close>)
  then show "vector_to_string lib to v = Inr (y_dump lib (y_sequence nodes))" by (simp add: vector_to_string_def)
  have "length nodes = length v" using assms(1) by (simp add: elements_as_def list_all2_lengthD)
  then have "mapR (\<lambda>i. from (y_dump lib (y_at lib (y_sequence nodes) i))) [0..<length nodes] = Inr v"
    using assms(1) by (intro mapR_all2) (auto simp: elements_as_def list_all2_conv_all_nth y_at_def y_sequence_def)
  moreover have "y_size (y_sequence nodes) = length nodes" by (simp add: y_size_def y_sequence_def)
  ultimately show "vector_from_string lib from (y_dump lib (y_sequence nodes)) = Inr v"
    using assms(2) by (simp add: vector_from_string_def)
qed

context strict_weak_order
begin

lemma set_insert_last: "set_ok lt (s @ [x]) \<Longrightarrow> set_insert lt x s = s @ [x]"
  by (induction s) (auto simp: set_ok_def)

lemma set_insert_sorted: "set_ok lt (s @ xs) \<Longrightarrow> foldl (\<lambda>s x. set_insert lt x s) s xs = s @ xs"
proof (induction xs arbitrary: s)
  case (Cons x xs)
  then have "set_ok lt (s @ [x])" by (auto simp: set_ok_def sorted_wrt_append)
  then show ?case using Cons set_insert_last by simp
qed simp

end

lemma map_put_last: "map_ok string_less (m @ [(k, v)]) \<Longrightarrow> map_put string_less k v m = m @ [(k, v)]"
  by (induction m) (auto simp: map_ok_def)

lemma map_insert_sorted: "map_ok string_less (m @ kvs) \<Longrightarrow> foldl (\<lambda>m kv. map_insert kv m) m kvs = m @ kvs"
proof (induction kvs arbitrary: m)
  case (Cons kv kvs)
  obtain k v where kv: "kv = (k, v)" by (cases kv)
  have ok: "map_ok string_less (m @ [(k, v)])" using Cons.prems kv by (auto simp: map_ok_def sorted_wrt_append)
  then have "\<forall>p \<in> set m. string_less (fst p) k" by (auto simp: map_ok_def sorted_wrt_append)
  then have "map_find string_less k m = None" by (induction m) auto
  then have "map_insert kv m = m @ [kv]" using map_put_last [OF ok] kv by (simp add: map_insert_def)
  then show ?case using Cons by simp
qed simp

lemma pairs_roundtrip:
  assumes "elements_as lib from to (map snd kvs) nodes"
    and "y_load lib (y_dump lib (y_map (zip (map fst kvs) nodes))) = Inr (y_map (zip (map fst kvs) nodes))"
  shows "map_to_string lib to kvs = Inr (y_dump lib (y_map (zip (map fst kvs) nodes)))"
    "pairs_from_string lib from (y_dump lib (y_map (zip (map fst kvs) nodes))) = Inr kvs"
proof -
  let ?kns = "zip (map fst kvs) nodes"
  have len: "length nodes = length kvs" using list_all2_lengthD [OF assms(1) [unfolded elements_as_def]] by simp
  have "mapR (\<lambda>(k, x). bindR (to x) (\<lambda>t. bindR (y_load lib t) (\<lambda>n. Inr (k, n)))) kvs = Inr ?kns"
    using assms(1) len
    by (intro mapR_all2) (auto simp: elements_as_def list_all2_conv_all_nth split_beta result_iff)
  then show "map_to_string lib to kvs = Inr (y_dump lib (y_map ?kns))" by (simp add: map_to_string_def)
  have "y_pairs (y_map ?kns) = Inr (map (apfst YScalar) ?kns)" by (simp add: y_pairs_def y_map_def)
  moreover have "mapR (\<lambda>(k, x). bindR (from (y_dump lib x)) (\<lambda>a. Inr (y_scalar k, a))) (map (apfst YScalar) ?kns) = Inr kvs"
    using assms(1) len
    by (intro mapR_all2) (auto simp: elements_as_def list_all2_conv_all_nth split_beta y_scalar_def)
  ultimately show "pairs_from_string lib from (y_dump lib (y_map ?kns)) = Inr kvs"
    using assms(2) by (simp add: pairs_from_string_def)
qed

section \<open>The registry keeps its names and types\<close>

lemma valid_lower: "valid_name name \<Longrightarrow> map char_tolower name = name"
proof -
  have "list_all (\<lambda>c. char_tolower c = c) name_chars" by code_simp
  then show "valid_name name \<Longrightarrow> map char_tolower name = name" by (auto simp: valid_name_def list_all_iff map_idI)
qed

definition registry_ok :: "('v, 's) ConfigVarMap \<Rightarrow> bool" where
  "registry_ok datas \<longleftrightarrow> map_ok string_less datas
     \<and> (\<forall>name var. LookupBase name datas = Some var \<longrightarrow> valid_name name \<and> cv_name var = name)"

text \<open>Same variables, up to their values and listeners.\<close>

definition same_vars :: "('v, 's) ConfigVarMap \<Rightarrow> ('v, 's) ConfigVarMap \<Rightarrow> bool" where
  "same_vars d d' \<longleftrightarrow> (\<forall>name. map_option (\<lambda>v. (cv_name v, cv_type v)) (LookupBase name d') = map_option (\<lambda>v. (cv_name v, cv_type v)) (LookupBase name d))"

lemma registry_put:
  assumes "registry_ok datas" "LookupBase key datas = Some var" "cv_name var' = cv_name var" "cv_type var' = cv_type var"
  shows "registry_ok (map_put string_less key var' datas)" "same_vars datas (map_put string_less key var' datas)"
proof -
  have ok: "map_ok string_less datas" using assms(1) by (simp add: registry_ok_def)
  have get: "LookupBase k (map_put string_less key var' datas) = (if key = k then Some var' else LookupBase k datas)" for k
    using str.omap.get_put [OF ok] by (simp add: LookupBase_def)
  show "registry_ok (map_put string_less key var' datas)"
    unfolding registry_ok_def get using assms str.omap.put_inv [OF ok] by (auto simp: registry_ok_def split: if_splits)
  show "same_vars datas (map_put string_less key var' datas)" unfolding same_vars_def get using assms(2-4) by auto
qed

lemma setValue_keeps: "setValue v var s = (e, var', s') \<Longrightarrow> cv_name var' = cv_name var \<and> cv_type var' = cv_type var"
  by (auto simp: setValue_def split: if_splits prod.splits option.splits)

lemma fromString_keeps: "ConfigVar_fromString t var s = Inr (ok, var', s') \<Longrightarrow> cv_name var' = cv_name var \<and> cv_type var' = cv_type var"
  by (auto simp: ConfigVar_fromString_def dest: setValue_keeps split: sum.splits if_splits prod.splits option.splits)

lemma load_members_keeps:
  assumes "registry_ok datas" "load_members lib ms datas s = Inr (datas', s')"
  shows "registry_ok datas' \<and> same_vars datas datas'"
  using assms
proof (induction ms arbitrary: datas s)
  case (Cons m ms)
  obtain key node where m: "m = (key, node)" by (cases m)
  show ?case
  proof (cases "key = [] \<or> LookupBase (map char_tolower key) datas = None")
    case True
    then have "load_members lib ms datas s = Inr (datas', s')" using Cons.prems(2) m by (simp add: Let_def split: if_splits)
    then show ?thesis using Cons.IH Cons.prems(1) by blast
  next
    case False
    then obtain var ok var' s1 where v: "LookupBase (map char_tolower key) datas = Some var"
        "ConfigVar_fromString (case node of YScalar t \<Rightarrow> t | _ \<Rightarrow> y_dump lib node) var s = Inr (ok, var', s1)"
        "load_members lib ms (map_put string_less (map char_tolower key) var' datas) s1 = Inr (datas', s')"
      using Cons.prems(2) m by (auto simp: Let_def result_iff)
    note put = registry_put [OF Cons.prems(1) v(1), of var'] fromString_keeps [OF v(2)]
    then have "registry_ok datas' \<and> same_vars (map_put string_less (map char_tolower key) var' datas) datas'"
      using Cons.IH [OF _ v(3)] by blast
    then show ?thesis using put by (auto simp: same_vars_def)
  qed
qed (auto simp: same_vars_def)

lemma registry_update:
  assumes "registry_ok datas" "LookupBase name datas = Some var" "cv_name var' = cv_name var"
  shows "registry_ok (map_put string_less name var' datas)"
proof -
  have ok: "map_ok string_less datas" using assms(1) by (simp add: registry_ok_def)
  show ?thesis
    using assms str.omap.get_put [OF ok] str.omap.put_inv [OF ok] by (auto simp: registry_ok_def LookupBase_def split: if_splits)
qed

lemma registry_create:
  assumes "registry_ok datas" "Lookup_create ty from to name v descr datas = Inr (r, datas')"
  shows "registry_ok datas'"
proof (cases "map_find string_less name datas")
  case None
  then have d: "datas' = map_put string_less name (new_ConfigVar ty from to name v descr) datas" "valid_name name"
    using assms(2) by (simp_all add: Lookup_create_def split: if_splits)
  have ok: "map_ok string_less datas" using assms(1) by (simp add: registry_ok_def)
  show ?thesis
    using assms(1) d(2) valid_lower str.omap.get_put [OF ok] str.omap.put_inv [OF ok] unfolding d(1)
    by (auto simp: registry_ok_def LookupBase_def new_ConfigVar_def split: if_splits)
qed (use assms in \<open>auto simp: Lookup_create_def\<close>)

text \<open>The registries a program can reach.\<close>

inductive config_reach :: "('v, 's) ConfigVarMap \<Rightarrow> bool" where
  start: "config_reach []"
| lookup: "config_reach d \<Longrightarrow> Lookup_create ty from to name v descr d = Inr (r, d') \<Longrightarrow> config_reach d'"
| load: "config_reach d \<Longrightarrow> LoadFromYaml lib root d s = Inr (d', s') \<Longrightarrow> config_reach d'"
| set_value: "config_reach d \<Longrightarrow> LookupBase name d = Some var \<Longrightarrow> setValue v var s = (e, var', s')
    \<Longrightarrow> config_reach (map_put string_less name var' d)"
| add_listener: "config_reach d \<Longrightarrow> LookupBase name d = Some var \<Longrightarrow> addListener cb i var = (k, j, var')
    \<Longrightarrow> config_reach (map_put string_less name var' d)"
| del_listener: "config_reach d \<Longrightarrow> LookupBase name d = Some var \<Longrightarrow> config_reach (map_put string_less name (delListener k var) d)"
| clear_listener: "config_reach d \<Longrightarrow> LookupBase name d = Some var \<Longrightarrow> config_reach (map_put string_less name (clearListener var) d)"

lemma config_reach_ok: "config_reach d \<Longrightarrow> registry_ok d"
proof (induction rule: config_reach.induct)
  case start
  show ?case by (simp add: registry_ok_def map_ok_def LookupBase_def map_get_def)
next
  case (lookup d ty "from" to name v descr r d')
  show ?case by (rule registry_create [OF lookup.IH lookup.hyps(2)])
next
  case (load d lib root s d' s')
  show ?case using load_members_keeps [OF load.IH load.hyps(2) [unfolded LoadFromYaml_def]] by simp
next
  case (set_value d name var v s e var' s')
  show ?case by (rule registry_update [OF set_value.IH set_value.hyps(2)]) (use setValue_keeps [OF set_value.hyps(3)] in simp)
qed (auto intro: registry_update simp: addListener_def delListener_def clearListener_def Let_def)

section \<open>Loading a directory\<close>

definition unseen :: "(string \<times> u64) list \<Rightarrow> bool" where
  "unseen seen \<longleftrightarrow> map_ok string_less seen \<and> (\<forall>f t. map_get string_less f seen = Some t \<longrightarrow> t = 0)"

lemma unseen_insert: "unseen seen \<Longrightarrow> unseen (map_insert (f, 0) seen) \<and> map_get string_less f (map_insert (f, 0) seen) = Some 0"
proof (cases "map_find string_less f seen")
  case None
  assume u: "unseen seen"
  then have ok: "map_ok string_less seen" by (simp add: unseen_def)
  have "map_insert (f, 0) seen = map_put string_less f 0 seen" using None by (simp add: map_insert_def)
  then show ?thesis using u str.omap.get_put [OF ok] str.omap.put_inv [OF ok] by (auto simp: unseen_def)
next
  case (Some p)
  assume u: "unseen seen"
  then have "map_get string_less f seen = Some 0" using Some by (cases p) (auto simp: unseen_def map_get_def)
  then show ?thesis using u Some by (simp add: map_insert_def)
qed

text \<open>The files of a configuration directory, and loading them whatever was loaded before.\<close>

definition conf_files :: "Env \<Rightarrow> (string \<Rightarrow> dirent list option) \<Rightarrow> string \<Rightarrow> string list" where
  "conf_files env dirs path = ListAllFile (dirs (getAbsolutePath env path)) (getAbsolutePath env path) ''.yml'' []"

fun load_all ::
  "yaml_lib \<Rightarrow> (string \<Rightarrow> yaml result) \<Rightarrow> string list \<Rightarrow> ('v, 's) ConfigVarMap \<Rightarrow> 's \<Rightarrow> (('v, 's) ConfigVarMap \<times> 's) result" where
  "load_all lib load_file [] datas s = Inr (datas, s)"
| "load_all lib load_file (f # fs) datas s =
     (case load_file f of
        Inl e \<Rightarrow> if is_exception e then load_all lib load_file fs datas s else Inl e
      | Inr root \<Rightarrow> bindR (LoadFromYaml lib root datas s) (\<lambda>(datas, s). load_all lib load_file fs datas s))"

lemma load_files_all:
  assumes "unseen seen" "\<forall>f \<in> set fs. mtime f \<noteq> 0"
  shows "(\<exists>e. load_files lib mtime load_file fs seen datas s = Inl e \<and> load_all lib load_file fs datas s = Inl e)
    \<or> (\<exists>seen' r. unseen seen' \<and> load_files lib mtime load_file fs seen datas s = Inr (seen', r) \<and> load_all lib load_file fs datas s = Inr r)"
  using assms
proof (induction fs arbitrary: seen datas s)
  case (Cons f fs)
  let ?seen = "map_insert (f, 0) seen"
  have u: "unseen ?seen" "map_get string_less f ?seen \<noteq> Some (mtime f)" "\<forall>f \<in> set fs. mtime f \<noteq> 0"
    using unseen_insert [OF Cons.prems(1), of f] Cons.prems(2) by auto
  note IH = Cons.IH [OF u(1,3)]
  show ?case
  proof (cases "load_file f")
    case (Inl e)
    then show ?thesis using u(2) IH [of datas s] by (auto simp: Let_def)
  next
    case (Inr root)
    show ?thesis
    proof (cases "LoadFromYaml lib root datas s")
      case (Inl e)
      then show ?thesis using Inr u(2) by (simp add: Let_def)
    next
      case (Inr r)
      obtain d1 s1 where "r = (d1, s1)" by (cases r)
      then show ?thesis using \<open>load_file f = Inr root\<close> Inr u(2) IH [of d1 s1] by (simp add: Let_def)
    qed
  qed
qed simp

end
