(* ===== verification/Log_Config.thy ===== *)
theory Log_Config
  imports Logger Config
begin

text \<open>
  \<^verbatim>\<open>src/myhttp/log.cpp\<close>, last part: loggers as YAML, the definitions of loggers in the configuration variable \<open>logs\<close>, and
  the listener that configures the loggers when that variable changes.  A set of definitions is its list in the order of
  the names.
\<close>

section \<open>Loggers as YAML\<close>

definition formatter_pairs :: "LogFormatter option \<Rightarrow> (string \<times> yaml) list" where
  "formatter_pairs f = (case f of None \<Rightarrow> [] | Some f \<Rightarrow> [(''formatter'', YScalar (m_pattern f))])"

definition Appender_toYamlString :: "yaml_lib \<Rightarrow> LogAppender \<Rightarrow> string" where
  "Appender_toYamlString lib ap =
     y_dump lib (y_map
       ((case ap_file ap of
           None \<Rightarrow> [(''type'', YScalar ''StdoutLogAppender'')]
         | Some f \<Rightarrow> [(''type'', YScalar ''FileLogAppender''), (''file'', YScalar f)])
        @ [(''level'', YScalar (Level_ToString (ap_level ap)))] @ formatter_pairs (ap_formatter ap)))"

definition Logger_toYamlString :: "yaml_lib \<Rightarrow> LogWorld \<Rightarrow> Logger \<Rightarrow> string result" where
  "Logger_toYamlString lib w lg =
     bindR (mapR (\<lambda>a. y_load lib (Appender_toYamlString lib (lw_appenders w ! a))) (lg_appenders lg)) (\<lambda>aps.
       Inr (y_dump lib (y_map
         ([(''name'', YScalar (lg_name lg)), (''level'', YScalar (Level_ToString (lg_level lg)))]
          @ formatter_pairs (lg_formatter lg) @ (if aps = [] then [] else [(''appenders'', YSequence aps)])))))"

definition LoggerManager_toYamlString :: "yaml_lib \<Rightarrow> LogWorld \<Rightarrow> string result" where
  "LoggerManager_toYamlString lib w =
     bindR (mapR (\<lambda>(name, lg). bindR (Logger_toYamlString lib w lg) (y_load lib)) (lw_loggers w)) (\<lambda>nodes.
       Inr (y_dump lib (y_sequence nodes)))"

section \<open>Definitions\<close>

record LogAppenderDefine =
  ad_type :: int
  ad_level :: Level
  ad_formatter :: string
  ad_file :: string

record LogDefine =
  ld_name :: string
  ld_level :: Level
  ld_formatter :: string
  ld_appenders :: "LogAppenderDefine list"

definition new_LogAppenderDefine :: LogAppenderDefine where
  "new_LogAppenderDefine = \<lparr>ad_type = 0, ad_level = UNKNOW, ad_formatter = [], ad_file = []\<rparr>"

definition new_LogDefine :: LogDefine where
  "new_LogDefine = \<lparr>ld_name = [], ld_level = UNKNOW, ld_formatter = [], ld_appenders = []\<rparr>"

definition LogDefine_less :: "LogDefine \<Rightarrow> LogDefine \<Rightarrow> bool" where
  "LogDefine_less a b = string_less (ld_name a) (ld_name b)"

text \<open>The text of a field, or another text when it is not defined.\<close>

definition field_or :: "yaml_lib \<Rightarrow> yaml \<Rightarrow> string \<Rightarrow> string \<Rightarrow> string result" where
  "field_or lib node k other =
     bindR (y_field lib node k) (\<lambda>n. if n \<noteq> YUndefined then y_as_string lib n else Inr other)"

definition LogAppenderDefine_from_string :: "yaml_lib \<Rightarrow> string \<Rightarrow> LogAppenderDefine result" where
  "LogAppenderDefine_from_string lib v =
     bindR (y_load lib v) (\<lambda>node.
     bindR (y_field lib node ''type'') (\<lambda>ty.
       if ty = YUndefined then Inr new_LogAppenderDefine
       else bindR (field_or lib node ''level'' []) (\<lambda>level.
         let lad = new_LogAppenderDefine\<lparr>ad_level := Level_FromString level\<rparr>
         in bindR (y_as_string lib ty) (\<lambda>type.
            if type = ''FileLogAppender'' then
              bindR (y_field lib node ''file'') (\<lambda>file.
                if file = YUndefined then Inr (lad\<lparr>ad_type := 1\<rparr>)
                else bindR (y_as_string lib file) (\<lambda>file.
                     bindR (field_or lib node ''formatter'' []) (\<lambda>formatter.
                       Inr (lad\<lparr>ad_type := 1, ad_file := file, ad_formatter := formatter\<rparr>))))
            else if type = ''StdoutLogAppender'' then Inr (lad\<lparr>ad_type := 2\<rparr>)
            else Inr lad))))"

definition LogAppenderDefine_to_string :: "yaml_lib \<Rightarrow> LogAppenderDefine \<Rightarrow> string result" where
  "LogAppenderDefine_to_string lib ld =
     Inr (y_dump lib (y_map
       ((if ad_type ld = 1 then [(''type'', YScalar ''FileLogAppender''), (''file'', YScalar (ad_file ld))]
         else if ad_type ld = 2 then [(''type'', YScalar ''StdoutLogAppender'')] else [])
        @ [(''level'', YScalar (Level_ToString (ad_level ld)))]
        @ (if ad_formatter ld \<noteq> [] then [(''formatter'', YScalar (ad_formatter ld))] else []))))"

definition LogDefine_from_string :: "yaml_lib \<Rightarrow> string \<Rightarrow> LogDefine result" where
  "LogDefine_from_string lib v =
     bindR (y_load lib v) (\<lambda>node.
     bindR (y_field lib node ''name'') (\<lambda>name.
       if name = YUndefined then Inr new_LogDefine
       else bindR (y_as_string lib name) (\<lambda>name.
         bindR (field_or lib node ''level'' []) (\<lambda>level.
         bindR (field_or lib node ''formatter'' []) (\<lambda>formatter.
         bindR (y_field lib node ''appenders'') (\<lambda>aps.
         bindR (if aps = YUndefined then Inr []
                else vector_from_string lib (LogAppenderDefine_from_string lib) (y_dump lib aps)) (\<lambda>appenders.
           Inr \<lparr>ld_name = name, ld_level = Level_FromString level, ld_formatter = formatter, ld_appenders = appenders\<rparr>)))))))"

text \<open>\<open>appenders\<close> is assigned the text of the vector.\<close>

definition LogDefine_pairs :: "string \<Rightarrow> LogDefine \<Rightarrow> (string \<times> yaml) list" where
  "LogDefine_pairs appenders ld =
     [(''name'', YScalar (ld_name ld)), (''level'', YScalar (Level_ToString (ld_level ld)))]
     @ (if ld_formatter ld \<noteq> [] then [(''formatter'', YScalar (ld_formatter ld))] else []) @ [(''appenders'', YScalar appenders)]"

definition LogDefine_to_string :: "yaml_lib \<Rightarrow> LogDefine \<Rightarrow> string result" where
  "LogDefine_to_string lib ld =
     bindR (vector_to_string lib (LogAppenderDefine_to_string lib) (ld_appenders ld)) (\<lambda>appenders.
       Inr (y_dump lib (y_map (LogDefine_pairs appenders ld))))"

section \<open>The listener\<close>

text \<open>The pointer to the new appender is null for another type; its \<open>setLevel\<close> then faults.\<close>

definition define_appender :: "log_env \<Rightarrow> LogAppenderDefine \<Rightarrow> LogAppender option" where
  "define_appender env a =
     map_option (\<lambda>ap. ap\<lparr>ap_formatter := (if ad_formatter a \<noteq> [] \<and> \<not> m_error (new_LogFormatter (ad_formatter a))
                                          then Some (new_LogFormatter (ad_formatter a)) else ap_formatter ap),
                        ap_level := ad_level a\<rparr>)
       (if ad_type a = 1 then Some (new_FileLogAppender env (ad_file a))
        else if ad_type a = 2 then Some new_StdoutLogAppender else None)"

fun define_appenders :: "log_env \<Rightarrow> string \<Rightarrow> LogAppenderDefine list \<Rightarrow> LogWorld \<Rightarrow> LogWorld result" where
  "define_appenders env name [] w = Inr w"
| "define_appenders env name (a # as) w =
     (case define_appender env a of
        None \<Rightarrow> Inl NullDeref
      | Some ap \<Rightarrow>
          bindR (addAppender name (length (lw_appenders w)) (w\<lparr>lw_appenders := lw_appenders w @ [ap]\<rparr>)) (\<lambda>w.
            define_appenders env name as w))"

text \<open>A change of the logger \<open>name\<close>; a null pointer when there is none.\<close>

definition on_logger :: "(Logger \<Rightarrow> Logger) \<Rightarrow> string \<Rightarrow> LogWorld \<Rightarrow> LogWorld result" where
  "on_logger f name w = (case logger_at w name of None \<Rightarrow> Inl NullDeref | Some lg \<Rightarrow> Inr (put_logger name (f lg) w))"

text \<open>The body of the first loop: the logger stays null when the old definition is the same.\<close>

definition define_logger :: "log_env \<Rightarrow> LogDefine list \<Rightarrow> LogDefine \<Rightarrow> LogWorld \<Rightarrow> LogWorld result" where
  "define_logger env old_value i w =
     (let logger = (case find (eqv LogDefine_less i) old_value of
                      None \<Rightarrow> Some (ld_name i)
                    | Some it \<Rightarrow> if i \<noteq> it then Some (ld_name i) else None)
      in (case logger of
            None \<Rightarrow> Inl NullDeref
          | Some name \<Rightarrow>
              bindR (on_logger (\<lambda>lg. clearAppenders ((if ld_formatter i \<noteq> [] then Logger_setFormatter_str (ld_formatter i) else id)
                       (Logger_setLevel (ld_level i) lg))) name (getLogger name w)) (\<lambda>w.
                define_appenders env name (ld_appenders i) w)))"

definition remove_logger :: "LogDefine list \<Rightarrow> LogDefine \<Rightarrow> LogWorld \<Rightarrow> LogWorld result" where
  "remove_logger new_value i w =
     (if find (eqv LogDefine_less i) new_value = None
      then on_logger (\<lambda>lg. clearAppenders (Logger_setLevel 100 lg)) (ld_name i) (getLogger (ld_name i) w)
      else Inr w)"

fun foldR :: "('a \<Rightarrow> 's \<Rightarrow> 's result) \<Rightarrow> 'a list \<Rightarrow> 's \<Rightarrow> 's result" where
  "foldR f [] s = Inr s"
| "foldR f (x # xs) s = bindR (f x s) (\<lambda>s. foldR f xs s)"

text \<open>\<open>e\<close> is the event of the first line, at the root logger.\<close>

definition on_logs_changed :: "log_env \<Rightarrow> LogEvent \<Rightarrow> LogDefine list \<Rightarrow> LogDefine list \<Rightarrow> LogWorld \<Rightarrow> LogWorld result" where
  "on_logs_changed env e old_value new_value w =
     bindR (MYHTTP_LOG_LEVEL env (e\<lparr>m_loggerName := ''root'', m_eventLevel := INFO\<rparr>) ''on_logger_conf_changed'' w) (\<lambda>w.
     bindR (foldR (define_logger env old_value) new_value w) (\<lambda>w.
       foldR (remove_logger new_value) old_value w))"

section \<open>Round trips of definitions\<close>

lemma level_text: "0 \<le> l \<Longrightarrow> l \<le> 5 \<Longrightarrow> Level_FromString (Level_ToString l) = l"
proof -
  assume l: "0 \<le> l" "l \<le> 5"
  have "\<forall>l \<in> set [0, 1, 2, 3, 4, 5 :: int]. Level_FromString (Level_ToString l) = l" by code_simp
  moreover have "l \<in> set [0, 1, 2, 3, 4, 5]" using l by (simp del: One_nat_def) presburger
  ultimately show "Level_FromString (Level_ToString l) = l" by blast
qed

text \<open>What is read back of a definition of an appender.\<close>

definition appender_read :: "LogAppenderDefine \<Rightarrow> LogAppenderDefine" where
  "appender_read ld =
     (if ad_type ld = 1 then ld
      else if ad_type ld = 2 then ld\<lparr>ad_formatter := [], ad_file := []\<rparr>
      else new_LogAppenderDefine)"

lemmas y_lookup = y_field_def y_map_def y_as_string_def field_or_def

lemma appender_define_read:
  assumes "LogAppenderDefine_to_string lib ld = Inr t" "0 \<le> ad_level ld" "ad_level ld \<le> 5"
    and "\<And>n. t = y_dump lib n \<Longrightarrow> y_load lib t = Inr n"
  shows "LogAppenderDefine_from_string lib t = Inr (appender_read ld)"
  using assms(2,3) unfolding LogAppenderDefine_from_string_def
    assms(4) [OF assms(1) [unfolded LogAppenderDefine_to_string_def, THEN sum.inject(2) [THEN iffD1], symmetric]]
  by (cases ld) (simp add: y_lookup appender_read_def new_LogAppenderDefine_def level_text)

text \<open>The appenders are written as one text, which is no sequence when it is read.\<close>

lemma log_define_read:
  assumes "vector_to_string lib (LogAppenderDefine_to_string lib) (ld_appenders ld) = Inr t"
    and "y_load lib (y_dump lib (y_map (LogDefine_pairs t ld))) = Inr (y_map (LogDefine_pairs t ld))"
    and "y_load lib (y_dump lib (YScalar t)) = Inr (YScalar t)"
    and "0 \<le> ld_level ld" "ld_level ld \<le> 5"
  shows "bindR (LogDefine_to_string lib ld) (LogDefine_from_string lib) = Inr (ld\<lparr>ld_appenders := []\<rparr>)"
  using assms
  by (cases ld) (simp add: LogDefine_to_string_def LogDefine_from_string_def y_lookup LogDefine_pairs_def
      vector_from_string_def y_size_def level_text)

section \<open>The listener on a good and on a bad change\<close>

definition extends :: "LogWorld \<Rightarrow> LogWorld \<Rightarrow> string set \<Rightarrow> bool" where
  "extends w w' names \<longleftrightarrow> (\<exists>aps. lw_appenders w' = lw_appenders w @ aps) \<and> (\<forall>n. n \<notin> names \<longrightarrow> logger_at w' n = logger_at w n)"

text \<open>The appender a definition describes, in a logger with the given formatter.\<close>

definition configured :: "log_env \<Rightarrow> LogFormatter option \<Rightarrow> LogAppenderDefine \<Rightarrow> LogAppender" where
  "configured env f a =
     (let ap = the (define_appender env a) in if ap_formatter ap = None then ap\<lparr>ap_formatter := f\<rparr> else ap)"

definition defined_as :: "log_env \<Rightarrow> LogWorld \<Rightarrow> LogDefine \<Rightarrow> bool" where
  "defined_as env w d \<longleftrightarrow>
     (\<exists>lg. logger_at w (ld_name d) = Some lg \<and> lg_level lg = ld_level d
        \<and> list_all (\<lambda>a. a < length (lw_appenders w)) (lg_appenders lg)
        \<and> map ((!) (lw_appenders w)) (lg_appenders lg) = map (configured env (lg_formatter lg)) (ld_appenders d))"

definition silenced :: "LogWorld \<Rightarrow> string \<Rightarrow> bool" where
  "silenced w name \<longleftrightarrow> (\<exists>lg. logger_at w name = Some lg \<and> lg_level lg = 100 \<and> lg_appenders lg = [])"

definition types_ok :: "LogDefine \<Rightarrow> bool" where
  "types_ok d \<longleftrightarrow> list_all (\<lambda>a. ad_type a = 1 \<or> ad_type a = 2) (ld_appenders d)"

lemma define_appender_None: "define_appender env a = None \<longleftrightarrow> \<not> (ad_type a = 1 \<or> ad_type a = 2)"
  by (simp add: define_appender_def)

lemma logger_at_put: "lw_inv w \<Longrightarrow> logger_at (put_logger k lg w) n = (if k = n then Some lg else logger_at w n)"
  by (rule loggers.get_put) (simp add: lw_inv_def)

lemma addAppender_fresh:
  assumes "lw_inv w" "logger_at w name = Some lg" "define_appender env a = Some ap"
  shows "addAppender name (length (lw_appenders w)) (w\<lparr>lw_appenders := lw_appenders w @ [ap]\<rparr>)
    = Inr (put_logger name (lg\<lparr>lg_appenders := lg_appenders lg @ [length (lw_appenders w)]\<rparr>)
        (w\<lparr>lw_appenders := lw_appenders w @ [configured env (lg_formatter lg) a]\<rparr>))"
  using assms by (simp add: addAppender_def logger_at_def configured_def Let_def)

lemma define_appenders_run:
  assumes "lw_inv w" "logger_at w name = Some lg"
  shows "if list_all (\<lambda>a. ad_type a = 1 \<or> ad_type a = 2) as
    then \<exists>w'. define_appenders env name as w = Inr w' \<and> lw_inv w'
      \<and> lw_appenders w' = lw_appenders w @ map (configured env (lg_formatter lg)) as
      \<and> (\<forall>n. n \<noteq> name \<longrightarrow> logger_at w' n = logger_at w n)
      \<and> logger_at w' name = Some (lg\<lparr>lg_appenders := lg_appenders lg @ [length (lw_appenders w)..<length (lw_appenders w) + length as]\<rparr>)
    else define_appenders env name as w = Inl NullDeref"
  using assms
proof (induction as arbitrary: w lg)
  case (Cons a as)
  show ?case
  proof (cases "define_appender env a")
    case None
    then show ?thesis using define_appender_None [of env a] by simp
  next
    case (Some ap)
    let ?lg = "lg\<lparr>lg_appenders := lg_appenders lg @ [length (lw_appenders w)]\<rparr>"
    let ?v = "w\<lparr>lw_appenders := lw_appenders w @ [configured env (lg_formatter lg) a]\<rparr>"
    let ?w = "put_logger name ?lg ?v"
    note add = addAppender_fresh [OF Cons.prems Some]
    have "lw_inv (w\<lparr>lw_appenders := lw_appenders w @ [ap]\<rparr>)"
      by (rule lw_inv_appenders [OF Cons.prems(1)]) (auto simp: nth_append)
    then have inv: "lw_inv ?w" using addAppender_inv add by blast
    have "map_ok string_less (lw_loggers ?v)" using Cons.prems(1) by (simp add: lw_inv_def)
    then have at: "logger_at ?w n = (if name = n then Some ?lg else logger_at w n)" for n
      using loggers.get_put [of ?v name ?lg n] by (simp add: logger_at_def)
    have "lw_appenders ?w = lw_appenders w @ [configured env (lg_formatter lg) a]" by (simp add: put_logger_def)
    then show ?thesis
      using Cons.IH [OF inv, of ?lg] Some add at define_appender_None [of env a] by (auto simp: upt_conv_Cons simp del: upt_Suc)
  qed
qed simp

lemma eqv_LogDefine: "eqv LogDefine_less a b \<longleftrightarrow> ld_name a = ld_name b"
proof -
  have "eqv LogDefine_less a b \<longleftrightarrow> eqv string_less (ld_name a) (ld_name b)" by (simp add: eqv_def LogDefine_less_def)
  then show ?thesis by (simp add: eqv_string_less)
qed

text \<open>Looking a definition up by its name.\<close>

lemma find_named:
  assumes "distinct (map ld_name ds)"
  shows "find (eqv LogDefine_less i) ds = None \<longleftrightarrow> ld_name i \<notin> ld_name ` set ds" "find (eqv LogDefine_less i) ds = Some i \<longleftrightarrow> i \<in> set ds"
  using assms by (induction ds) (auto simp: eqv_LogDefine intro: rev_image_eqI)

lemma extends_refl: "extends w w names"
  by (simp add: extends_def)

lemma extends_trans: "extends a b A \<Longrightarrow> extends b c B \<Longrightarrow> A \<union> B \<subseteq> C \<Longrightarrow> extends a c C"
  unfolding extends_def by (metis UnCI append.assoc subsetD)

lemma defined_as_extends: "defined_as env w d \<Longrightarrow> extends w w' A \<Longrightarrow> ld_name d \<notin> A \<Longrightarrow> defined_as env w' d"
proof -
  assume d: "defined_as env w d" "extends w w' A" "ld_name d \<notin> A"
  then obtain lg aps where lg: "logger_at w' (ld_name d) = Some lg" "lg_level lg = ld_level d" "lw_appenders w' = lw_appenders w @ aps"
      "\<forall>a \<in> set (lg_appenders lg). a < length (lw_appenders w)"
      "map ((!) (lw_appenders w)) (lg_appenders lg) = map (configured env (lg_formatter lg)) (ld_appenders d)"
    by (auto simp: defined_as_def extends_def list_all_iff)
  have "map ((!) (lw_appenders w')) (lg_appenders lg) = map ((!) (lw_appenders w)) (lg_appenders lg)" using lg(3,4) by (simp add: nth_append)
  then show ?thesis using lg unfolding defined_as_def list_all_iff by (auto simp: trans_less_add1)
qed

lemma silenced_extends: "silenced w n \<Longrightarrow> extends w w' A \<Longrightarrow> n \<notin> A \<Longrightarrow> silenced w' n"
  by (auto simp: silenced_def extends_def)

text \<open>A change of the logger that \<open>getLogger\<close> gives.\<close>

lemma on_logger_get:
  assumes "lw_inv w" "\<And>aps lg. logger_ok aps name lg \<Longrightarrow> logger_ok aps name (f lg)"
  obtains lg w' where "on_logger f name (getLogger name w) = Inr w'" "lw_inv w'" "logger_at w' name = Some (f lg)"
    "lw_appenders w' = lw_appenders w" "\<And>n. n \<noteq> name \<Longrightarrow> logger_at w' n = logger_at w n"
proof -
  let ?g = "getLogger name w"
  have app: "lw_appenders ?g = lw_appenders w" by (simp add: getLogger_def put_logger_def split: option.splits)
  have at: "n \<noteq> name \<Longrightarrow> logger_at ?g n = logger_at w n" for n
    using logger_at_put [OF assms(1)] by (auto simp: getLogger_def split: option.splits)
  obtain lg where lg: "logger_at ?g name = Some lg"
    using logger_at_put [OF assms(1)] by (cases "logger_at w name") (auto simp: getLogger_def)
  have inv: "lw_inv ?g"
  proof (cases "logger_at w name")
    case None
    then have "name \<noteq> ''root''" using assms(1) by (auto simp: lw_inv_def)
    then show ?thesis using None lw_inv_put [OF assms(1) new_Logger_ok(2)] by (simp add: getLogger_def)
  qed (use assms(1) in \<open>simp add: getLogger_def\<close>)
  have "lw_inv (put_logger name (f lg) ?g)" by (rule lw_inv_put [OF inv]) (rule assms(2) [OF lw_inv_ok [OF inv lg]])
  then show thesis
    using that [of "put_logger name (f lg) ?g" lg] lg app at logger_at_put [OF inv] by (simp add: on_logger_def put_logger_def)
qed

lemma define_logger_run:
  assumes "lw_inv w" "distinct (map ld_name old)"
  shows "if d \<notin> set old \<and> types_ok d
    then \<exists>w'. define_logger env old d w = Inr w' \<and> lw_inv w' \<and> extends w w' {ld_name d} \<and> defined_as env w' d
    else define_logger env old d w = Inl NullDeref"
proof (cases "d \<in> set old")
  case True
  then have "find (eqv LogDefine_less d) old = Some d" using find_named(2) [OF assms(2)] by blast
  then show ?thesis using True by (simp add: define_logger_def)
next
  case False
  let ?f = "\<lambda>lg. clearAppenders ((if ld_formatter d \<noteq> [] then Logger_setFormatter_str (ld_formatter d) else id) (Logger_setLevel (ld_level d) lg))"
  have "find (eqv LogDefine_less d) old \<noteq> Some d" using False find_named(2) [OF assms(2)] by blast
  then have step: "define_logger env old d w
      = bindR (on_logger ?f (ld_name d) (getLogger (ld_name d) w)) (\<lambda>w. define_appenders env (ld_name d) (ld_appenders d) w)"
    by (auto simp: define_logger_def split: option.splits)
  obtain lg w1 where w1: "on_logger ?f (ld_name d) (getLogger (ld_name d) w) = Inr w1" "lw_inv w1" "logger_at w1 (ld_name d) = Some (?f lg)"
      "lw_appenders w1 = lw_appenders w" "\<And>n. n \<noteq> ld_name d \<Longrightarrow> logger_at w1 n = logger_at w n"
    by (rule on_logger_get [OF assms(1), of "ld_name d" ?f]) (auto intro!: logger_ok_simps)
  have lv: "lg_level (?f lg) = ld_level d" "lg_appenders (?f lg) = []"
    by (simp_all add: clearAppenders_def Logger_setFormatter_str_def Logger_setFormatter_def Logger_setLevel_def Let_def)
  note run = define_appenders_run [OF w1(2,3), of "ld_appenders d" env]
  show ?thesis
  proof (cases "types_ok d")
    case True
    then obtain w' where w': "define_appenders env (ld_name d) (ld_appenders d) w1 = Inr w'" "lw_inv w'"
        "lw_appenders w' = lw_appenders w @ map (configured env (lg_formatter (?f lg))) (ld_appenders d)"
        "\<forall>n. n \<noteq> ld_name d \<longrightarrow> logger_at w' n = logger_at w1 n"
        "logger_at w' (ld_name d) = Some (?f lg\<lparr>lg_appenders := [length (lw_appenders w)..<length (lw_appenders w) + length (ld_appenders d)]\<rparr>)"
      using run lv(2) w1(4) unfolding types_ok_def by auto
    have ith: "map ((!) (xs @ ys)) [length xs..<length xs + length ys] = ys" for xs ys :: "LogAppender list"
      by (rule nth_equalityI) auto
    have "extends w w' {ld_name d}" using w' w1(5) by (simp add: extends_def)
    moreover have "defined_as env w' d"
      unfolding defined_as_def using w' lv(1) ith [of "lw_appenders w" "map (configured env (lg_formatter (?f lg))) (ld_appenders d)"]
      by (simp add: list_all_iff)
    ultimately show ?thesis using w' True False step w1(1) by simp
  next
    case bad: False
    then show ?thesis using run step w1(1) False unfolding types_ok_def by simp
  qed
qed

lemma define_loggers_run:
  assumes "lw_inv w" "distinct (map ld_name old)" "distinct (map ld_name new)"
  shows "if \<forall>d \<in> set new. d \<notin> set old \<and> types_ok d
    then \<exists>w'. foldR (define_logger env old) new w = Inr w' \<and> lw_inv w' \<and> extends w w' (ld_name ` set new)
      \<and> (\<forall>d \<in> set new. defined_as env w' d)
    else foldR (define_logger env old) new w = Inl NullDeref"
  using assms(1,3)
proof (induction new arbitrary: w)
  case (Cons d new)
  note run = define_logger_run [OF Cons.prems(1) assms(2), of d env]
  show ?case
  proof (cases "d \<notin> set old \<and> types_ok d")
    case True
    then obtain w1 where w1: "define_logger env old d w = Inr w1" "lw_inv w1" "extends w w1 {ld_name d}" "defined_as env w1 d"
      using run by auto
    have IH: "if \<forall>d \<in> set new. d \<notin> set old \<and> types_ok d
        then \<exists>w'. foldR (define_logger env old) new w1 = Inr w' \<and> lw_inv w' \<and> extends w1 w' (ld_name ` set new)
          \<and> (\<forall>d \<in> set new. defined_as env w' d)
        else foldR (define_logger env old) new w1 = Inl NullDeref"
      by (rule Cons.IH) (use w1(2) Cons.prems(2) in auto)
    show ?thesis
    proof (cases "\<forall>d \<in> set new. d \<notin> set old \<and> types_ok d")
      case all: True
      then obtain w' where w': "foldR (define_logger env old) new w1 = Inr w'" "lw_inv w'" "extends w1 w' (ld_name ` set new)"
          "\<forall>d \<in> set new. defined_as env w' d"
        using IH by auto
      have "extends w w' (ld_name ` set (d # new))" by (rule extends_trans [OF w1(3) w'(3)]) auto
      moreover have "defined_as env w' d" by (rule defined_as_extends [OF w1(4) w'(3)]) (use Cons.prems(2) in auto)
      ultimately show ?thesis using w' w1(1) True all by auto
    qed (use IH w1(1) in auto)
  qed (use run in auto)
qed (simp add: extends_refl)

lemma remove_logger_run:
  assumes "lw_inv w" "distinct (map ld_name new)" "ld_name d \<notin> ld_name ` set new"
  shows "\<exists>w'. remove_logger new d w = Inr w' \<and> lw_inv w' \<and> extends w w' {ld_name d} \<and> silenced w' (ld_name d)"
proof -
  let ?f = "\<lambda>lg. clearAppenders (Logger_setLevel 100 lg)"
  obtain lg w' where w': "on_logger ?f (ld_name d) (getLogger (ld_name d) w) = Inr w'" "lw_inv w'" "logger_at w' (ld_name d) = Some (?f lg)"
      "lw_appenders w' = lw_appenders w" "\<And>n. n \<noteq> ld_name d \<Longrightarrow> logger_at w' n = logger_at w n"
    by (rule on_logger_get [OF assms(1), of "ld_name d" ?f]) (auto intro!: logger_ok_simps)
  have "remove_logger new d w = Inr w'" using w'(1) find_named(1) [OF assms(2)] assms(3) by (simp add: remove_logger_def)
  then show ?thesis using w' by (auto simp: extends_def silenced_def clearAppenders_def Logger_setLevel_def)
qed

lemma remove_loggers_run:
  assumes "lw_inv w" "distinct (map ld_name new)" "distinct (map ld_name old)"
  shows "\<exists>w'. foldR (remove_logger new) old w = Inr w' \<and> lw_inv w' \<and> extends w w' (ld_name ` set old - ld_name ` set new)
    \<and> (\<forall>n \<in> ld_name ` set old - ld_name ` set new. silenced w' n)"
  using assms(1,3)
proof (induction old arbitrary: w)
  case (Cons d old)
  show ?case
  proof (cases "ld_name d \<in> ld_name ` set new")
    case True
    then have "remove_logger new d w = Inr w" using find_named(1) [OF assms(2)] by (simp add: remove_logger_def)
    moreover have "ld_name ` set (d # old) - ld_name ` set new = ld_name ` set old - ld_name ` set new" using True by auto
    ultimately show ?thesis using Cons by simp
  next
    case False
    obtain w1 where w1: "remove_logger new d w = Inr w1" "lw_inv w1" "extends w w1 {ld_name d}" "silenced w1 (ld_name d)"
      using remove_logger_run [OF Cons.prems(1) assms(2) False] by blast
    obtain w' where w': "foldR (remove_logger new) old w1 = Inr w'" "lw_inv w'" "extends w1 w' (ld_name ` set old - ld_name ` set new)"
        "\<forall>n \<in> ld_name ` set old - ld_name ` set new. silenced w' n"
      using Cons.IH [OF w1(2)] Cons.prems(2) by auto
    have "extends w w' (ld_name ` set (d # old) - ld_name ` set new)" by (rule extends_trans [OF w1(3) w'(3)]) (use False in auto)
    moreover have "silenced w' (ld_name d)" by (rule silenced_extends [OF w1(4) w'(3)]) (use Cons.prems(2) in auto)
    ultimately show ?thesis using w' w1(1) by auto
  qed
qed (simp add: extends_refl)

lemma set_ok_names: "set_ok LogDefine_less ds \<Longrightarrow> distinct (map ld_name ds)"
  by (induction ds) (auto simp: set_ok_def LogDefine_less_def str.lt_irrefl)

lemma logs_changed:
  assumes "lw_inv w" "set_ok LogDefine_less old" "set_ok LogDefine_less new"
    and "MYHTTP_LOG_LEVEL env (e\<lparr>m_loggerName := ''root'', m_eventLevel := INFO\<rparr>) ''on_logger_conf_changed'' w = Inr v"
  shows "if \<forall>d \<in> set new. d \<notin> set old \<and> types_ok d
    then \<exists>w'. on_logs_changed env e old new w = Inr w' \<and> lw_inv w' \<and> extends v w' (ld_name ` (set old \<union> set new))
      \<and> (\<forall>d \<in> set new. defined_as env w' d) \<and> (\<forall>n \<in> ld_name ` set old - ld_name ` set new. silenced w' n)
    else on_logs_changed env e old new w = Inl NullDeref"
proof -
  note names = assms(2,3) [THEN set_ok_names]
  have "same_configs w v"
    using assms(4) Logger_log_config [OF assms(1)]
    by (auto simp: MYHTTP_LOG_LEVEL_def LogEventWrap_delete_def split: option.splits if_splits)
  then have v: "lw_inv v" using same_configs_inv assms(1) by blast
  note run = define_loggers_run [OF v names, of env]
  show ?thesis
  proof (cases "\<forall>d \<in> set new. d \<notin> set old \<and> types_ok d")
    case True
    then obtain w1 where w1: "foldR (define_logger env old) new v = Inr w1" "lw_inv w1" "extends v w1 (ld_name ` set new)"
        "\<forall>d \<in> set new. defined_as env w1 d"
      using run by auto
    obtain w' where w': "foldR (remove_logger new) old w1 = Inr w'" "lw_inv w'" "extends w1 w' (ld_name ` set old - ld_name ` set new)"
        "\<forall>n \<in> ld_name ` set old - ld_name ` set new. silenced w' n"
      using remove_loggers_run [OF w1(2) names(2,1)] by blast
    have "extends v w' (ld_name ` (set old \<union> set new))" by (rule extends_trans [OF w1(3) w'(3)]) auto
    moreover have "\<forall>d \<in> set new. defined_as env w' d" using w1(4) defined_as_extends [OF _ w'(3)] by blast
    ultimately show ?thesis using True assms(4) w1(1) w' by (simp add: on_logs_changed_def)
  qed (use run assms(4) in \<open>auto simp: on_logs_changed_def\<close>)
qed

end
