(* ===== verification/System.thy ===== *)
theory System
  imports Log_Config
begin

text \<open>
  Properties of the components around the network layers: logging, configuration, the command line and the file system
  helpers.
\<close>

section \<open>Logging\<close>

text \<open>C34. Every pattern made of literal text and known directives compiles, without an error, to the items of its parts
  in their order.\<close>

theorem log_pattern:
  assumes "pieces_ok ps"
  shows "new_LogFormatter (concat (map piece_text ps))
    = \<lparr>m_pattern = concat (map piece_text ps), m_items = map piece_item ps, m_error = False\<rparr>"
  by (rule new_LogFormatter_pieces [OF assms])

theorem log_pattern_witness:
  "m_items (new_LogFormatter ''%d{%H:%M} [%p] %m'')
    = [DateTimeFormatItem ''%H:%M'', StringFormatItem '' ['', LevelFormatItem, StringFormatItem ''] '', MessageFormatItem]"
proof -
  let ?ps = "[Dir CHR ''d'' (Some ''%H:%M''), Lit '' ['', Dir CHR ''p'' None, Lit ''] '', Dir CHR ''m'' None]"
  have "pieces_ok ?ps" by code_simp
  moreover have "concat (map piece_text ?ps) = ''%d{%H:%M} [%p] %m''" by code_simp
  moreover have "map piece_item ?ps = [DateTimeFormatItem ''%H:%M'', StringFormatItem '' ['', LevelFormatItem, StringFormatItem ''] '', MessageFormatItem]"
    by code_simp
  ultimately show ?thesis using log_pattern [of ?ps] by (simp del: concat.simps map_eq_Cons_conv)
qed

definition demo_log_env :: log_env where
  "demo_log_env = \<lparr>le_now = 1, le_opens = (\<lambda>f. True), le_writes = (\<lambda>f. True), le_strftime = (\<lambda>fmt t. ''now'')\<rparr>"

definition demo_event :: LogEvent where
  "demo_event = new_LogEvent ''http'' INFO ''main.cc'' 7 0 1 2 3 ''main''"

definition demo_world :: LogWorld where
  "demo_world = (case new_LoggerManager of Inl e \<Rightarrow> undefined | Inr w \<Rightarrow> getLogger ''http'' w)"

lemma demo_log_env: "healthy demo_log_env"
  by (simp add: healthy_def time_fits_def demo_log_env_def)

lemma new_LoggerManager_eq:
  "new_LoggerManager = Inr
     \<lparr>lw_loggers = [(''root'', (new_Logger ''root'')\<lparr>lg_appenders := [0]\<rparr>)],
      lw_appenders = [new_StdoutLogAppender\<lparr>ap_formatter := lg_formatter (new_Logger ''root'')\<rparr>], lw_out = []\<rparr>"
  by (simp add: new_LoggerManager_def addAppender_def logger_at_def put_logger_def map_get_def str.lt_irrefl new_Logger_def
      new_StdoutLogAppender_def)

lemma demo_world_reach: "lw_reach demo_world"
  unfolding demo_world_def new_LoggerManager_eq by (simp add: lw_reach.get lw_reach.create new_LoggerManager_eq)

lemma demo_http: "logger_at demo_world ''http'' = Some ((new_Logger ''http'')\<lparr>lg_root := True\<rparr>)"
proof -
  have "string_less ''http'' ''root''" "\<not> string_less ''root'' ''http''" "\<not> string_less ''http'' ''http''" by code_simp+
  then show ?thesis
    by (simp add: demo_world_def new_LoggerManager_eq getLogger_def logger_at_def put_logger_def map_get_def)
qed

text \<open>C32. In every state the logging system can reach, logging to a registered logger returns and changes no logger: it
  meets no null formatter and no endless forwarding.  The only failure is a time text that overflows its buffer.\<close>

theorem logger_safe:
  assumes "lw_reach w" "logger_at w name = Some lg"
  shows "(\<exists>w'. Logger_log env name level e w = Inr w' \<and> lw_reach w' \<and> lw_loggers w' = lw_loggers w)
    \<or> Logger_log env name level e w = Inl Uninit \<and> \<not> time_fits env"
proof -
  note inv = lw_reach_inv [OF assms(1)]
  note run = Logger_log_reached [OF inv assms(2), of env level e]
  show ?thesis
    using log_appenders_total [OF reached_ok [OF inv, of name level], of env level e] log_appenders_fits [of env level e]
      lw_reach.logged [OF assms(1), of env name level e] Logger_log_config [OF inv, of env name level e]
    unfolding run same_configs_def by metis
qed

theorem logger_safe_witness:
  "\<exists>w'. Logger_log demo_log_env ''http'' INFO demo_event demo_world = Inr w' \<and> lw_reach w' \<and> lw_loggers w' = lw_loggers demo_world"
  using logger_safe [OF demo_world_reach demo_http, of demo_log_env INFO demo_event] demo_log_env by (auto simp: healthy_def)

text \<open>C33. When files can be opened and written and no stream has failed, an event appears exactly once at every appender
  it reaches, in their order: at the logger's own appenders, or at those of the root logger when it has none, and only
  at those whose level it has.\<close>

theorem log_delivery:
  assumes "lw_reach w" "logger_at w name = Some lg" "healthy env"
    and "\<forall>a \<in> set (reached w name level). ap_good (lw_appenders w ! a)"
  shows "\<exists>w'. Logger_log env name level e w = Inr w'
    \<and> lw_out w' = lw_out w @ concat (map (\<lambda>a. ap_text env level e (lw_appenders w ! a)) (reached w name level))"
  using log_appenders_text [OF assms(3), of "reached w name level" w level e] reached_ok [OF lw_reach_inv [OF assms(1)], of name level]
    assms(4) Logger_log_reached [OF lw_reach_inv [OF assms(1)] assms(2), of env level e] by auto

lemma demo_reached: "reached demo_world ''http'' INFO = [0]"
proof -
  have "string_less ''http'' ''root''" "\<not> string_less ''root'' ''http''" "\<not> string_less ''root'' ''root''" by code_simp+
  then have "logger_at demo_world ''root'' = Some ((new_Logger ''root'')\<lparr>lg_appenders := [0]\<rparr>)"
    by (simp add: demo_world_def new_LoggerManager_eq getLogger_def logger_at_def put_logger_def map_get_def)
  then show ?thesis using demo_http by (simp add: reached_def new_Logger_def level_defs)
qed

lemma demo_appenders: "lw_appenders demo_world = [new_StdoutLogAppender\<lparr>ap_formatter := lg_formatter (new_Logger ''root'')\<rparr>]"
  by (simp add: demo_world_def new_LoggerManager_eq getLogger_def put_logger_def split: option.split)

theorem log_delivery_witness:
  "\<exists>w' t. Logger_log demo_log_env ''http'' INFO demo_event demo_world = Inr w' \<and> lw_out w' = lw_out demo_world @ [(Console, t)]"
proof -
  have "\<forall>a \<in> set (reached demo_world ''http'' INFO). ap_good (lw_appenders demo_world ! a)"
    by (simp add: demo_reached demo_appenders new_StdoutLogAppender_def)
  note run = log_delivery [OF demo_world_reach demo_http demo_log_env this, of demo_event]
  have "\<exists>t. ap_text demo_log_env INFO demo_event (lw_appenders demo_world ! 0) = [(Console, t)]"
    by (simp add: demo_appenders ap_text_def new_StdoutLogAppender_def level_defs)
  then show ?thesis using run by (auto simp: demo_reached)
qed

text \<open>C31. When the variable \<open>logs\<close> changes, the listener gives every defined logger its level and its appenders, silences
  the loggers whose definition is gone and leaves all others alone, provided no definition is in the old set as it is in
  the new one and every appender has a known type.  Otherwise it dereferences a null pointer.\<close>

theorem logs_reconfigured:
  assumes "lw_reach w" "set_ok LogDefine_less old" "set_ok LogDefine_less new"
    and "MYHTTP_LOG_LEVEL env (e\<lparr>m_loggerName := ''root'', m_eventLevel := INFO\<rparr>) ''on_logger_conf_changed'' w = Inr v"
  shows "if \<forall>d \<in> set new. d \<notin> set old \<and> types_ok d
    then \<exists>w'. on_logs_changed env e old new w = Inr w' \<and> lw_inv w' \<and> extends v w' (ld_name ` (set old \<union> set new))
      \<and> (\<forall>d \<in> set new. defined_as env w' d) \<and> (\<forall>n \<in> ld_name ` set old - ld_name ` set new. silenced w' n)
    else on_logs_changed env e old new w = Inl NullDeref"
  by (rule logs_changed [OF lw_reach_inv [OF assms(1)] assms(2-4)])

definition demo_define :: LogDefine where
  "demo_define = \<lparr>ld_name = ''http'', ld_level = WARN, ld_formatter = [],
     ld_appenders = [\<lparr>ad_type = 1, ad_level = ERROR, ad_formatter = ''%m%n'', ad_file = ''http.log''\<rparr>]\<rparr>"

theorem logs_reconfigured_witness:
  "(\<exists>w'. on_logs_changed demo_log_env demo_event [] [demo_define] demo_world = Inr w' \<and> defined_as demo_log_env w' demo_define)
    \<and> on_logs_changed demo_log_env demo_event [demo_define] [demo_define] demo_world = Inl NullDeref"
proof -
  obtain root where root: "logger_at demo_world ''root'' = Some root"
    using lw_reach_inv [OF demo_world_reach] by (auto simp: lw_inv_def)
  define e where "e = demo_event\<lparr>m_loggerName := ''root'', m_eventLevel := INFO\<rparr>"
  have "\<exists>v. MYHTTP_LOG_LEVEL demo_log_env e ''on_logger_conf_changed'' demo_world = Inr v"
    using log_appenders_total [OF reached_ok [OF lw_reach_inv [OF demo_world_reach]]] log_appenders_fits demo_log_env
      Logger_log_reached [OF lw_reach_inv [OF demo_world_reach] root] root
    unfolding healthy_def MYHTTP_LOG_LEVEL_def LogEventWrap_delete_def e_def by simp metis
  then obtain v where v: "MYHTTP_LOG_LEVEL demo_log_env e ''on_logger_conf_changed'' demo_world = Inr v" by blast
  have "types_ok demo_define" by (simp add: types_ok_def demo_define_def)
  then show ?thesis
    using logs_reconfigured [OF demo_world_reach _ _ v [unfolded e_def], of "[]" "[demo_define]"]
      logs_reconfigured [OF demo_world_reach _ _ v [unfolded e_def], of "[demo_define]" "[demo_define]"]
    by (auto simp: set_ok_def)
qed

text \<open>C35. A definition of a logger that is written as text and read back keeps its name, level and formatter and loses its
  appenders: they are written as one text, not as a sequence.\<close>

theorem log_define_roundtrip:
  assumes "vector_to_string lib (LogAppenderDefine_to_string lib) (ld_appenders ld) = Inr t"
    and "y_load lib (y_dump lib (y_map (LogDefine_pairs t ld))) = Inr (y_map (LogDefine_pairs t ld))"
    and "y_load lib (y_dump lib (YScalar t)) = Inr (YScalar t)"
    and "0 \<le> ld_level ld" "ld_level ld \<le> 5"
  shows "bindR (LogDefine_to_string lib ld) (LogDefine_from_string lib) = Inr (ld\<lparr>ld_appenders := []\<rparr>)"
  by (rule log_define_read [OF assms])

text \<open>A library that knows finitely many documents.\<close>

definition yaml_table :: "(yaml \<times> string) list \<Rightarrow> yaml_lib" where
  "yaml_table tab =
     \<lparr>y_load = (\<lambda>t. case find (\<lambda>p. snd p = t) tab of None \<Rightarrow> Inr (YScalar t) | Some p \<Rightarrow> Inr (fst p)),
      y_dump = (\<lambda>n. case find (\<lambda>p. fst p = n) tab of None \<Rightarrow> y_scalar n | Some p \<Rightarrow> snd p),
      y_map_at = (\<lambda>n i. YUndefined), y_key_at = (\<lambda>n k. Inl (LogicError ''BadSubscript'')), y_as = (\<lambda>n. Inl (LogicError ''BadConversion''))\<rparr>"

definition demo_appender_node :: yaml where
  "demo_appender_node = YMap [(YScalar ''type'', YScalar ''FileLogAppender''), (YScalar ''file'', YScalar ''http.log''),
     (YScalar ''level'', YScalar ''ERROR''), (YScalar ''formatter'', YScalar ''%m%n'')]"

definition demo_logs :: yaml_lib where
  "demo_logs = yaml_table
     [(demo_appender_node, ''appender''), (YSequence [demo_appender_node], ''[appender]''), (YScalar ''[appender]'', ''quoted''),
      (YMap [(YScalar ''name'', YScalar ''http''), (YScalar ''level'', YScalar ''WARN''), (YScalar ''appenders'', YScalar ''[appender]'')], ''logger'')]"

theorem log_define_roundtrip_witness:
  "bindR (LogDefine_to_string demo_logs demo_define) (LogDefine_from_string demo_logs) = Inr (demo_define\<lparr>ld_appenders := []\<rparr>)"
proof (rule log_define_roundtrip)
  show "vector_to_string demo_logs (LogAppenderDefine_to_string demo_logs) (ld_appenders demo_define) = Inr ''[appender]''" by code_simp
  show "y_load demo_logs (y_dump demo_logs (YScalar ''[appender]'')) = Inr (YScalar ''[appender]'')" by code_simp
  show "y_load demo_logs (y_dump demo_logs (y_map (LogDefine_pairs ''[appender]'' demo_define))) = Inr (y_map (LogDefine_pairs ''[appender]'' demo_define))"
    by code_simp
qed (simp_all add: demo_define_def level_defs)

section \<open>Configuration\<close>

text \<open>C37. Where the conversions of an element and the YAML library give back what they wrote, so do those of a vector, a set
  and a map of such elements.\<close>

theorem config_containers:
  assumes "elements_as lib from to (map snd kvs) nodes" "map_ok string_less kvs"
    and "y_load lib (y_dump lib (y_sequence nodes)) = Inr (y_sequence nodes)"
    and "y_load lib (y_dump lib (y_map (zip (map fst kvs) nodes))) = Inr (y_map (zip (map fst kvs) nodes))"
  shows "bindR (vector_to_string lib to (map snd kvs)) (vector_from_string lib from) = Inr (map snd kvs)
    \<and> (strict_weak_order lt \<and> set_ok lt (map snd kvs) \<longrightarrow>
        bindR (vector_to_string lib to (map snd kvs)) (set_from_string lib lt from) = Inr (map snd kvs))
    \<and> bindR (map_to_string lib to kvs) (map_from_string lib from) = Inr kvs
    \<and> bindR (map_to_string lib to kvs) (unordered_map_from_string lib from) = Inr (map_of kvs)"
  using vector_roundtrip [OF assms(1,3)] pairs_roundtrip [OF assms(1,4)] map_insert_sorted [of "[]" kvs] assms(2)
    strict_weak_order.set_insert_sorted [of lt "[]" "map snd kvs"]
  by (auto simp: set_from_string_def map_from_string_def unordered_map_from_string_def)

definition demo_yaml :: yaml_lib where
  "demo_yaml = yaml_table
     [(YSequence [YScalar ''80'', YScalar ''443''], ''[80, 443]''),
      (YMap [(YScalar ''http'', YScalar ''80''), (YScalar ''https'', YScalar ''443'')], ''{http: 80, https: 443}'')]"

definition demo_ports :: "(string \<times> string) list" where
  "demo_ports = [(''http'', ''80''), (''https'', ''443'')]"

theorem config_containers_witness:
  "bindR (map_to_string demo_yaml Inr demo_ports) (map_from_string demo_yaml Inr) = Inr demo_ports"
proof -
  let ?nodes = "[YScalar ''80'', YScalar ''443'']"
  have "elements_as demo_yaml Inr Inr (map snd demo_ports) ?nodes" "map_ok string_less demo_ports"
    "y_load demo_yaml (y_dump demo_yaml (y_sequence ?nodes)) = Inr (y_sequence ?nodes)"
    "y_load demo_yaml (y_dump demo_yaml (y_map (zip (map fst demo_ports) ?nodes))) = Inr (y_map (zip (map fst demo_ports) ?nodes))"
    by code_simp+
  from config_containers [OF this] show ?thesis by blast
qed

text \<open>C36. A variable of the registry keeps its name and its type for ever: its name has only the permitted characters,
  asking for it with its type gives it and with another type gives a null pointer, in both cases without a new
  variable, and loading a document only changes its value.\<close>

theorem config_registry:
  assumes "config_reach d" "LookupBase name d = Some var"
  shows "valid_name name \<and> cv_name var = name
    \<and> Lookup_create ty from to name v descr d = Inr (if cv_type var = ty then Some name else None, d)
    \<and> Lookup_typed ty name d = (if cv_type var = ty then Some name else None)
    \<and> (\<forall>d' s'. LoadFromYaml lib root d s = Inr (d', s') \<longrightarrow>
        (\<exists>var'. LookupBase name d' = Some var' \<and> cv_name var' = name \<and> cv_type var' = cv_type var))"
proof -
  note ok = config_reach_ok [OF assms(1)]
  obtain it where "map_find string_less name d = Some it" "snd it = var"
    using assms(2) by (auto simp: LookupBase_def map_get_def)
  moreover have "\<exists>var'. LookupBase name d' = Some var' \<and> cv_name var' = cv_name var \<and> cv_type var' = cv_type var"
    if "LoadFromYaml lib root d s = Inr (d', s')" for d' s'
    using load_members_keeps [OF ok that [unfolded LoadFromYaml_def]] assms(2) unfolding same_vars_def
    by (metis (no_types, lifting) fst_conv map_option_eq_Some option.simps(9) snd_conv)
  moreover have "valid_name name \<and> cv_name var = name" using ok assms(2) by (simp add: registry_ok_def)
  ultimately show ?thesis by (simp add: Lookup_create_def Lookup_typed_def)
qed

definition demo_registry :: "(string, unit) ConfigVarMap" where
  "demo_registry = [(''tcp.port'', new_ConfigVar ''string'' Inr Inr ''tcp.port'' ''80'' ''port'')]"

lemma demo_registry: "config_reach demo_registry"
proof (rule config_reach.lookup [OF config_reach.start])
  have "valid_name ''tcp.port''" by code_simp
  then show "Lookup_create ''string'' Inr Inr ''tcp.port'' ''80'' ''port'' [] = Inr (Some ''tcp.port'', demo_registry)"
    by (simp add: Lookup_create_def demo_registry_def)
qed

lemma demo_port: "LookupBase ''tcp.port'' demo_registry = Some (new_ConfigVar ''string'' Inr Inr ''tcp.port'' ''80'' ''port'')"
  by (simp add: LookupBase_def demo_registry_def map_get_def str.lt_irrefl)

theorem config_registry_witness:
  "Lookup_create ''int'' Inr Inr ''tcp.port'' ''8080'' ''port'' demo_registry = Inr (None, demo_registry)"
  using config_registry [OF demo_registry demo_port, of "''int''" Inr Inr "''8080''" "''port''" demo_yaml YNull "()"]
  by (simp add: new_ConfigVar_def)

text \<open>C38. The time of the last change of a file is compared and never stored: as long as the table holds only what
  \<open>LoadFromConfDir\<close> put there, every file is loaded again each time, unless it is dated at the epoch.\<close>

theorem config_reload:
  assumes "unseen seen" "\<forall>f \<in> set (conf_files env dirs path). mtime f \<noteq> 0"
  shows "case load_all lib load_file (conf_files env dirs path) datas s of
      Inl err \<Rightarrow> LoadFromConfDir lib env dirs mtime load_file path seen datas s = Inl err
    | Inr r \<Rightarrow> \<exists>seen'. unseen seen' \<and> LoadFromConfDir lib env dirs mtime load_file path seen datas s = Inr (seen', r)"
  using load_files_all [OF assms, of lib load_file datas s] unfolding LoadFromConfDir_def conf_files_def Let_def by auto

definition demo_load :: "string \<Rightarrow> yaml result" where
  "demo_load f = Inr (YMap [(YScalar ''tcp.port'', YScalar ''8080'')])"

definition demo_dirs :: "string \<Rightarrow> dirent list option" where
  "demo_dirs path = Some [DT_REG ''a.yml'', DT_REG ''b.txt'']"

theorem config_reload_witness:
  "\<exists>seen' r. unseen seen' \<and> LoadFromConfDir demo_yaml new_Env demo_dirs (\<lambda>f. 5) demo_load ''/conf'' [(''/conf/a.yml'', 0)] demo_registry ()
      = Inr (seen', r) \<and> map_option cv_val (LookupBase ''tcp.port'' (fst r)) = Some ''8080''"
proof -
  have u: "unseen [(''/conf/a.yml'', 0)]" by (auto simp: unseen_def map_ok_def map_get_def split: if_splits)
  have "case load_all demo_yaml demo_load (conf_files new_Env demo_dirs ''/conf'') demo_registry () of
      Inl err \<Rightarrow> False | Inr r \<Rightarrow> map_option cv_val (LookupBase ''tcp.port'' (fst r)) = Some ''8080''"
    by code_simp
  then show ?thesis
    using config_reload [OF u, of new_Env demo_dirs "''/conf''" "\<lambda>f. 5" demo_yaml demo_load demo_registry "()"]
    by (auto split: sum.splits)
qed

section \<open>Command line and directories\<close>

text \<open>C39. \<open>init\<close> accepts exactly the command lines that are options with or without a value; afterwards an option has the
  value of its last occurrence, an option without a value the empty text, and the program and its directory are set.\<close>

theorem env_arguments:
  assumes "0 \<le> rt" "length link_text < 1024"
  shows "\<exists>ok e'. Env_init rt link_text (program # as) new_Env = Inr (ok, e')
    \<and> m_program e' = program \<and> m_exe e' = c_str link_text \<and> m_cwd e' = dir_of (c_str link_text) @ ''/''
    \<and> (ok \<longleftrightarrow> (\<exists>opts. list_all option_ok opts \<and> as = concat (map option_text opts)))
    \<and> (\<forall>opts. list_all option_ok opts \<and> as = concat (map option_text opts) \<longrightarrow>
        (\<forall>key d. Env_get e' key d = (case find (\<lambda>(k, v). k = key) (rev (map option_arg opts)) of Some (k, v) \<Rightarrow> v | None \<Rightarrow> d)))"
proof -
  let ?e = "new_Env\<lparr>m_exe := c_str link_text, m_cwd := dir_of (c_str link_text) @ ''/'', m_program := program\<rparr>"
  obtain ok e' where r: "init_args None as ?e = (ok, e')" by fastforce
  have "Env_init rt link_text (program # as) new_Env = Inr (ok, e')" using assms r by (simp add: Env_init_def assertR_def Let_def)
  moreover have "m_program e' = program \<and> m_exe e' = c_str link_text \<and> m_cwd e' = dir_of (c_str link_text) @ ''/''"
    using init_args_paths [of None as ?e] r by simp
  moreover have "ok \<longleftrightarrow> (\<exists>opts. list_all option_ok opts \<and> as = concat (map option_text opts))"
    using init_args_ok [of None as ?e] r line_ok_options by simp
  moreover have "Env_get e' key d = (case find (\<lambda>(k, v). k = key) (rev (map option_arg opts)) of Some (k, v) \<Rightarrow> v | None \<Rightarrow> d)"
    if "list_all option_ok opts \<and> as = concat (map option_text opts)" for opts key d
  proof -
    have e': "e' = args.puts ?e (map option_arg opts)" using that init_args_options [of opts None ?e] r by simp
    have "map_ok string_less (m_args ?e)" by (simp add: new_Env_def map_ok_def)
    from args.get_puts [OF this, where kvs = "map option_arg opts" and k = key] show ?thesis
      unfolding e' Env_get_map by (auto simp: new_Env_def map_get_def split: option.splits)
  qed
  ultimately show ?thesis by blast
qed

theorem env_arguments_witness:
  "\<exists>e'. Env_init 8 ''/opt/bin/http'' [''http'', ''-p'', ''80'', ''-d'', ''-p'', ''8080''] new_Env = Inr (True, e')
    \<and> m_cwd e' = ''/opt/bin/'' \<and> Env_get e' ''p'' [] = ''8080'' \<and> Env_get e' ''d'' ''none'' = []"
proof -
  define opts where "opts = [(''p'', Some ''80''), (''d'', None), (''p'', Some ''8080'')]"
  define as where "as = [''-p'', ''80'', ''-d'', ''-p'', ''8080'']"
  have o: "list_all option_ok opts \<and> as = concat (map option_text opts)" unfolding opts_def as_def by code_simp
  then have good: "\<exists>opts. list_all option_ok opts \<and> as = concat (map option_text opts)" by blast
  obtain e' where e': "Env_init 8 ''/opt/bin/http'' (''http'' # as) new_Env = Inr (True, e')"
      "m_cwd e' = dir_of (c_str ''/opt/bin/http'') @ ''/''"
      "\<forall>key d. Env_get e' key d = (case find (\<lambda>(k, v). k = key) (rev (map option_arg opts)) of Some (k, v) \<Rightarrow> v | None \<Rightarrow> d)"
    using env_arguments [of 8 "''/opt/bin/http''" "''http''" as, simplified good] o by auto
  moreover have "dir_of (c_str ''/opt/bin/http'') = ''/opt/bin''" by code_simp
  ultimately show ?thesis by (simp add: opts_def as_def option_arg_def)
qed

text \<open>C40. \<open>Mkdir\<close> on any file system.  A path that \<open>lstat\<close> finds is left alone.  Otherwise the directories on the way to
  it and the path itself are made, outermost first and each only when \<open>access\<close> does not find it, up to the first one
  refused; an empty path is read behind its end.  The result is false exactly when one was refused, after the ones
  before it had all been found or made, and then nothing was tried after it.\<close>

theorem util_mkdir_parents:
  "Mkdir fs dirname s =
     (if fs_lstat fs (c_str dirname) s = 0 then Inr (True, s)
      else if c_str dirname = [] then Inl OutOfBounds
      else Inr (make_all fs (way_to (c_str dirname)) s))
   \<and> (Mkdir fs dirname s = Inr (False, s') \<longleftrightarrow>
        fs_lstat fs (c_str dirname) s \<noteq> 0 \<and> c_str dirname \<noteq> []
        \<and> (\<exists>fine p rest s1. way_to (c_str dirname) = fine @ p # rest \<and> make_all fs fine s = (True, s1)
             \<and> fs_access fs p s1 \<noteq> 0 \<and> fst (fs_mkdir fs p s1) \<noteq> 0 \<and> s' = snd (fs_mkdir fs p s1)))"
  using make_all_refused [of fs "way_to (c_str dirname)" s s'] by (simp add: Mkdir_make_all)

end
