(* ===== verification/Spec2Isabelle.thy ===== *)
theory Spec2Isabelle
  imports ByteArray_Varint ByteArray_Views Http_Lemmas IOManager_Lemmas Servlet Address_Lemmas FdManager Protocol System
begin

text \<open>
  myhttp is a C++ network library of fibers, a scheduler driven by epoll, hooked system calls, sockets,
  byte arrays, HTTP messages, servers and clients.  This development models its components as HOL
  functions on explicit states and proves what they do, errors included.  This theory holds the
  properties of the data and scheduling components; \<open>Network\<close> holds those of the layers between the
  kernel and an HTTP message, \<open>Protocol\<close> those of HTTP messages with the generated parsers, \<open>System\<close>
  those of logging, configuration and start-up.

  \<^bold>\<open>How the program is put together.\<close>  A \<open>Scheduler\<close> runs fibers on worker threads; \<open>IOManager\<close> is a
  scheduler and a \<open>TimerManager\<close> whose idle fiber waits for epoll.  The hooks replace blocking system
  calls: a call that would block registers an event (and a timer for the descriptor's timeout), yields
  the fiber and retries when it is resumed.  \<open>Socket\<close> calls the hooked functions, \<open>SocketStream\<close> reads and
  writes through a socket, \<open>HttpSession\<close> and \<open>HttpConnection\<close> parse and serialise messages on a stream,
  \<open>TcpServer\<close> accepts connections and schedules \<open>HttpServer::handleClient\<close>, which answers requests through
  the servlet dispatcher; the connection pool reuses client connections.

  \<^bold>\<open>Conventions.\<close>  A C++ object is a record of its fields, a method a function that returns the changed
  record.  \<open>'a result\<close> is a sum of \<open>error\<close> (an exception, a failed assertion, an access out of bounds, a
  null dereference, undefined arithmetic) and a value.  Machine integers are words of their width;
  \<open>int\<close> stands for C \<open>int\<close> where the code stays in range.  Loops that need not end are partial functions
  of the option monad: \<open>None\<close> means that the loop does not return, and the claims that it returns are
  proved as such.  Mutexes make the
  stretches they protect atomic steps: a scheduler worker's turn is cut between the decrement of the active count
  and the later \<open>schedule\<close>, the size that \<open>addEvent\<close> saw before it dropped the read lock is an argument, and what
  other threads do while a hooked call waits is a list of steps.  What the kernel, the clock, the
  allocator and the C library answer is an argument of the operation.

  \<^bold>\<open>Theories and sources\<close> (below \<open>src/myhttp\<close>).
  \<^item> \<open>Cpp_Prelude\<close>, \<open>Cpp_String\<close>: the result type, ordered maps under a comparator, the locales
    \<open>strict_weak_order\<close> and \<open>kv_store\<close>, text of numbers, C strings.
  \<^item> \<open>Endian\<close>: \<open>endian.h\<close>.  \<open>ByteArray\<close>, \<open>ByteArray_Ops\<close>: \<open>bytearray.cpp\<close>, the list of nodes, read, write,
    positions and vectors.  \<open>ByteArray_Lemmas\<close> gives the contents view and the invariant; \<open>ByteArray_Codec\<close>
    has the locales \<open>writer\<close> and \<open>codec\<close> (what is written is read back), which \<open>ByteArray_Varint\<close> interprets for the
    variable-length and string formats and for mixed sequences of numbers; \<open>ByteArray_Views\<close> covers vectors and files.
  \<^item> \<open>Http\<close>, \<open>Http_Lemmas\<close>: \<open>http/http.cpp\<close>; header maps interpret \<open>kv_store\<close> up to letter case, dumps
    split back.
  \<^item> \<open>Timer\<close>, \<open>Timer_Lemmas\<close>: \<open>timer.cpp\<close>.  \<open>Fiber\<close>: \<open>fiber.cpp\<close>.  \<open>Scheduler\<close>: \<open>scheduler.cpp\<close>, with the
    workers' interleavings as a step relation; entering an ended fiber is the assertion behind its last \<open>swapOut\<close>.  \<open>IOManager\<close>, \<open>IOManager_Lemmas\<close>: \<open>iomanager.cpp\<close>.
  \<^item> \<open>FdManager\<close>: \<open>fd_manager.cpp\<close>.  \<open>Hook\<close>, \<open>Hook_Lemmas\<close>: \<open>hook.cpp\<close>.  \<open>Address\<close>, \<open>Address_Lemmas\<close>:
    \<open>address.cpp\<close>.  \<open>Socket\<close>: \<open>socket.cpp\<close>, with the trace of descriptor calls.
  \<^item> \<open>ByteStream\<close>: \<open>stream.cpp\<close>, with the locales \<open>byte_source\<close>, \<open>byte_sink\<close> and \<open>byte_stream\<close> of what a stream
    promises.  \<open>SocketStream\<close>: \<open>socket_stream.cpp\<close>, with the locale \<open>tcp_socket\<close> of what the kernel promises of a
    connected socket, from which the stream locales follow.
  \<^item> \<open>HttpParser\<close>: \<open>http/http_parser.cpp\<close>.  \<open>HttpSession\<close>: \<open>http/http_session.cpp\<close>.  \<open>TcpServer\<close>:
    \<open>tcp_server.cpp\<close>.  \<open>Servlet\<close>: \<open>http/servlet.cpp\<close>.  \<open>HttpServer\<close>: \<open>http/http_server.cpp\<close>, with the abstract
    server it refines.  \<open>Uri\<close>: the hand-written part of \<open>uri.rl.cc\<close>.  \<open>HttpConnection\<close>,
    \<open>HttpConnection_Lemmas\<close>: \<open>http/http_connection.cpp\<close>.
  \<^item> \<open>Ragel\<close>, \<open>Ragel_Run\<close>: what the generated scanners share: a table of switch blocks, the step it makes, runs over
    a buffer and the locale \<open>ragel_run\<close> of a machine with actions.  \<open>Http11_Table\<close>, \<open>Http11\<close>:
    \<open>http/http11_parser.rl.cc\<close>, block by block; \<open>Http11_Segments\<close> and \<open>Http11_Request\<close> prove what it reads.
    \<open>Httpclient_Table\<close>, \<open>Httpclient\<close>: \<open>http/httpclient_parser.rl.cc\<close>; \<open>Httpclient_Phases\<close> and
    \<open>Httpclient_Response\<close> prove what it reads.  \<open>Messages\<close> joins them with \<open>recvRequest\<close> and \<open>recvResponse\<close>.
  \<^item> \<open>Util\<close>: \<open>util.cpp\<close>.  \<open>Env\<close>: \<open>env.cpp\<close>.  \<open>Log\<close>: levels, events and patterns of \<open>log.cpp\<close>, with the items every
    well-formed pattern compiles to.  \<open>Logger\<close>: its appenders, loggers and manager, with the reachable states.
    \<open>Config\<close>: \<open>config.cpp\<close> and \<open>config.h\<close>, with the YAML library as an argument.  \<open>Log_Config\<close>: the definitions of loggers
    in the configuration and the listener that applies them.

  \<^bold>\<open>Bounds and fuel.\<close>  No definition runs on fuel.  The loops of the program that recurse on their data are
  \<open>fun\<close> with a termination proof; the stream, session, server and client loops are partial functions, and
  \<open>session_request\<close>, \<open>stream_exact\<close> and \<open>client_exchange\<close> prove that they return.  Those three, and the properties that
  rest on them, are about sockets whose \<open>recv\<close> and \<open>send\<close> do not fail (the locale \<open>tcp_socket\<close>); \<open>stream_failure\<close> is
  about the others.  A string of \<open>2^62\<close> characters or more is a \<open>length_error\<close> (\<open>std_string\<close> for the callbacks,
  \<open>resize_error\<close> for a body); shorter ones are allocated.  A callback that refers to bytes not received is \<open>OutOfBounds\<close>.

  \<^bold>\<open>Not modelled.\<close>  The Ragel machine of \<open>uri.rl.cc\<close> is an argument of the models that run it.
  The terminating zero that
  \<open>httpclient_parser_execute\<close> asserts is written by its callers before every call and is not represented.  \<open>thread.cpp\<close> wraps pthread primitives, \<open>daemon.cpp\<close> forks and
  waits, \<open>application.cpp\<close> is start-up glue.  The log messages of the other components are left out of their operations.
\<close>

section \<open>ByteArray\<close>

text \<open>C2. Every \<open>ByteArray\<close> built by the public operations keeps its shape: nodes of the base size,
  position below size below capacity, the cursor node is the one the position falls into.\<close>

theorem bytearray_invariant:
  assumes "ba_reach ba"
  shows "m_position ba \<le> m_size ba \<and> m_size ba \<le> m_capacity ba
    \<and> m_capacity ba = length (m_root ba) * m_baseSize ba
    \<and> list_all (\<lambda>nd. nd_size nd = m_baseSize ba \<and> length (nd_ptr nd) = m_baseSize ba) (m_root ba)
    \<and> m_cur ba = (if m_position ba < m_capacity ba then Some (m_position ba div m_baseSize ba) else None)"
  using ba_reach_inv [OF assms] by (auto simp: ba_inv_def cursor_def nodes_ok_def node_ok_def [abs_def])

theorem bytearray_invariant_witness: "m_size (ByteArray 4) \<le> m_capacity (ByteArray 4)"
  using bytearray_invariant [OF ba_reach.create, of 4] by simp

text \<open>C1. A write that \<open>addCapacity\<close> makes room for stores exactly the given bytes at the position,
  leaves every other byte, advances the position, grows the size to at least the position, and keeps
  the invariant.\<close>

theorem bytearray_write:
  assumes "ba_inv ba" "room_for ba (length bs)"
  shows "\<exists>ba'. ba_write ba bs = Inr ba' \<and> ba_inv ba'
    \<and> m_position ba' = m_position ba + length bs
    \<and> m_size ba' = max (m_size ba) (m_position ba + length bs)
    \<and> contents ba' = overlay (contents ba @ replicate (m_capacity ba' - m_capacity ba) None)
                       (m_position ba) (map Some bs)"
  using ba_write_ok [OF assms] by (auto simp: written_def)

theorem bytearray_write_witness: "\<exists>ba'. ba_write (ByteArray 2) [1, 2, 3, 4] = Inr ba' \<and> m_position ba' = 4"
  using bytearray_write [of "ByteArray 2" "[1, 2, 3, 4]"] ByteArray_inv [of 2]
  by (auto simp: room_for_def getCapacity_def ByteArray_def)

text \<open>C4. The rounding term of \<open>addCapacity\<close> compares with the old free capacity: a write whose excess
  over the free capacity has a non-zero remainder not above the free capacity gets no node for that
  remainder and runs off the end of the chain.\<close>

theorem bytearray_write_null:
  assumes "ba_inv ba" "getCapacity ba < length bs"
    and "0 < (length bs - getCapacity ba) mod m_baseSize ba"
    and "(length bs - getCapacity ba) mod m_baseSize ba \<le> getCapacity ba"
  shows "ba_write ba bs = Inl NullDeref"
  by (rule ba_write_null [OF assms(1)]) (use assms in \<open>auto simp: room_for_def\<close>)

theorem bytearray_write_null_witness: "ba_write (ByteArray 4) [1, 2, 3, 4, 5] = Inl NullDeref"
  using bytearray_write_null [of "ByteArray 4" "[1, 2, 3, 4, 5]"] ByteArray_inv [of 4]
  by (simp add: getCapacity_def ByteArray_def)

text \<open>C3. \<open>read\<close> succeeds exactly when enough bytes are left and the position is below the capacity; it
  then returns the next bytes and moves the position behind them.\<close>

theorem bytearray_read:
  assumes "ba_inv ba"
  shows "ba_read ba n =
    (if n > getReadSize ba then Inl (OutOfRange ''not enough len'')
     else if m_position ba = m_capacity ba then Inl NullDeref
     else Inr (take n (drop (m_position ba) (contents ba)),
       ba\<lparr>m_position := m_position ba + n,
          m_cur := cursor (m_baseSize ba) (length (m_root ba)) (m_position ba + n)\<rparr>))"
  using ba_read_eq [OF assms, of n] by (simp only: advance_def)

theorem bytearray_read_witness: "ba_read (ByteArray 3) 1 = Inl (OutOfRange ''not enough len'')"
  using bytearray_read [OF ByteArray_inv [of 3], of 1] by (simp add: ByteArray_def getReadSize_def)

text \<open>Two sequences of numbers of different types that are written to an array of one-byte nodes.\<close>

definition is_right :: "'a + 'b \<Rightarrow> bool" where
  "is_right x = (case x of Inl _ \<Rightarrow> False | Inr _ \<Rightarrow> True)"

lemma demo_written:
  "is_right (write_all write_number (ByteArray 1) [Fuint32 0x01020304, Fint8 255, Fint64 7, Fuint16 5])"
  "is_right (write_all write_number (ByteArray 1) [Uint64 300, Int32 (- 5), Int64 (- 1000), Uint32 5])"
  by code_simp+

text \<open>C20. Fixed-width integers of 8, 16, 32 and 64 bits, signed and unsigned, round-trip in either byte order, as a
  whole sequence in any mixture: values written one after the other and read back from the start, each with the reader
  of its type, come back in order, and the array ends up as before the rewind.\<close>

theorem fixed_sequence_roundtrip:
  assumes "ba_inv ba" "list_all fixed_number ns" "write_all write_number ba ns = Inr b1" "setPosition b1 (m_position ba) = Inr b2"
  shows "read_numbers ns b2 = Inr (ns, b1)"
  using numbers_roundtrip [OF assms(1) _ assms(3,4)] assms(2) by (simp add: list_all_iff number_ok_def)

theorem fixed_sequence_roundtrip_witness:
  "\<exists>b1 b2. write_all write_number (ByteArray 1) [Fuint32 0x01020304, Fint8 255, Fint64 7, Fuint16 5] = Inr b1 \<and> setPosition b1 0 = Inr b2
     \<and> read_numbers [Fuint32 0x01020304, Fint8 255, Fint64 7, Fuint16 5] b2 = Inr ([Fuint32 0x01020304, Fint8 255, Fint64 7, Fuint16 5], b1)"
proof -
  let ?ns = "[Fuint32 0x01020304, Fint8 255, Fint64 7, Fuint16 5]"
  have inv: "ba_inv (ByteArray 1)" by (rule ByteArray_inv) simp
  have ns: "list_all fixed_number ?ns" by simp
  obtain b1 where b1: "write_all write_number (ByteArray 1) ?ns = Inr b1"
    using demo_written(1) unfolding is_right_def by (auto split: sum.splits)
  obtain b2 where b2: "setPosition b1 (m_position (ByteArray 1)) = Inr b2"
    using rewind_ex [OF inv number.write_all_written [OF inv _ b1]] ns by (auto simp: list_all_iff number_ok_def)
  show ?thesis using fixed_sequence_roundtrip [OF inv ns b1 b2] b1 b2 unfolding ByteArray_fields by blast
qed

text \<open>C21. Varints round-trip as a sequence in any mixture: every unsigned value of 32 or 64 bits, the signed 32-bit
  values above \<open>INT32_MIN\<close> and below \<open>2^30\<close>, and the signed 64-bit values in the range of \<open>int32_t\<close>, beyond which the
  ZigZag code of the program is undefined or wrong.  No 64-bit value takes more than the ten bytes of the code's buffer,
  no 32-bit value more than five.\<close>

theorem varint_sequence_roundtrip:
  assumes "ba_inv ba" "list_all varint_number ns" "write_all write_number ba ns = Inr b1" "setPosition b1 (m_position ba) = Inr b2"
  shows "read_numbers ns b2 = Inr (ns, b1)
    \<and> (\<forall>v :: u64. length (varint_bytes v) \<le> 10) \<and> (\<forall>v :: u32. length (varint_bytes v) \<le> 5)"
proof (intro conjI allI)
  show "read_numbers ns b2 = Inr (ns, b1)"
    using numbers_roundtrip [OF assms(1) _ assms(3,4)] assms(2) by (simp add: list_all_iff number_ok_def)
  show "length (varint_bytes v) \<le> 10" for v :: u64
    using length_varint_bytes [of v 10] order_less_le_trans [OF unsigned_less [of v], of "2 ^ 70"] by simp
  show "length (varint_bytes v) \<le> 5" for v :: u32
    using length_varint_bytes [of v 5] order_less_le_trans [OF unsigned_less [of v], of "2 ^ 35"] by simp
qed

theorem varint_sequence_roundtrip_witness:
  "\<exists>b1 b2. write_all write_number (ByteArray 1) [Uint64 300, Int32 (- 5), Int64 (- 1000), Uint32 5] = Inr b1 \<and> setPosition b1 0 = Inr b2
     \<and> read_numbers [Uint64 300, Int32 (- 5), Int64 (- 1000), Uint32 5] b2 = Inr ([Uint64 300, Int32 (- 5), Int64 (- 1000), Uint32 5], b1)"
proof -
  let ?ns = "[Uint64 300, Int32 (- 5), Int64 (- 1000), Uint32 5]"
  have inv: "ba_inv (ByteArray 1)" by (rule ByteArray_inv) simp
  have ns: "list_all varint_number ?ns" by (simp add: zigzag32_ok_def zigzag64_ok_def)
  obtain b1 where b1: "write_all write_number (ByteArray 1) ?ns = Inr b1"
    using demo_written(2) unfolding is_right_def by (auto split: sum.splits)
  obtain b2 where b2: "setPosition b1 (m_position (ByteArray 1)) = Inr b2"
    using rewind_ex [OF inv number.write_all_written [OF inv _ b1]] ns by (auto simp: list_all_iff number_ok_def)
  show ?thesis using varint_sequence_roundtrip [OF inv ns b1 b2] b1 b2 unfolding ByteArray_fields by blast
qed

text \<open>\<open>DecodeZigzag32\<close> inverts \<open>EncodeZigzag32\<close> wherever the encoder is defined, which is the
  range above \<open>INT32_MIN\<close> and below \<open>2^30\<close>.\<close>

theorem zigzag32_roundtrip:
  "(case EncodeZigzag32 v of
      Inr e \<Rightarrow> DecodeZigzag32 e = v \<and> - (2 ^ 31) < sint v \<and> sint v < 2 ^ 30
    | Inl err \<Rightarrow> err = SignedOverflow \<and> (sint v = - (2 ^ 31) \<or> 2 ^ 30 \<le> sint v))"
proof (cases "EncodeZigzag32 v")
  case (Inl err)
  then show ?thesis by (auto simp: EncodeZigzag32_def split: if_splits)
next
  case (Inr e)
  then show ?thesis using DecodeZigzag32_Encode [OF Inr] EncodeZigzag32_ok [of v] by auto
qed

text \<open>The 64-bit ZigZag pair is only right on the \<open>int32_t\<close> range: the encoder narrows negative
  values to \<open>uint32_t\<close> and the decoder returns \<open>int32_t\<close>.\<close>

theorem zigzag64_exactly_int32:
  assumes "EncodeZigzag64 v = Inr e"
  shows "scast (DecodeZigzag64 e) = v \<longleftrightarrow> - (2 ^ 31) \<le> sint v \<and> sint v < 2 ^ 31"
  by (rule EncodeZigzag64_Decode [OF assms])

theorem zigzag64_exactly_int32_witness:
  "EncodeZigzag64 0x80000000 = Inr 0x100000000 \<and> scast (DecodeZigzag64 0x100000000) \<noteq> (0x80000000 :: u64)"
proof -
  have e: "EncodeZigzag64 0x80000000 = Inr 0x100000000" by code_simp
  show ?thesis using zigzag64_exactly_int32 [OF e] e by simp
qed

text \<open>Strings with a 16-bit length prefix round-trip when they are not empty and their length fits
  the prefix.\<close>

theorem string16_roundtrip:
  assumes "ba_inv ba" "v \<noteq> []" "length v < 2 ^ 16" "writeString16 ba v = Inr b1"
    and "setPosition b1 (m_position ba) = Inr b2"
  shows "readStringF16 b2 = Inr (map Some v, b1)"
  by (rule string16.roundtrip [OF assms(1) _ assms(4,5)]) (use assms in \<open>simp add: string_ok_def\<close>)

theorem string16_roundtrip_witness:
  "\<exists>b1 b2. writeString16 (ByteArray 1) [65, 66] = Inr b1 \<and> setPosition b1 0 = Inr b2
     \<and> readStringF16 b2 = Inr (map Some [65, 66], b1)"
proof -
  let ?v = "[65, 66] :: u8 list"
  have inv: "ba_inv (ByteArray 1)" by (rule ByteArray_inv) simp
  obtain b where b: "writeFuint16 (ByteArray 1) (of_nat (length ?v)) = Inr b"
      "written (ByteArray 1) (word_enc (m_endian (ByteArray 1)) (of_nat (length ?v) :: u16)) b"
    using ba_write_ok [OF inv room_for_unit] by (auto simp: writeFuint16_def write_word_eq)
  then obtain b1 where "ba_write b ?v = Inr b1"
    using ba_write_ok [OF written_inv [OF b(2)] room_for_unit] by (auto simp: written_def)
  then have b1: "writeString16 (ByteArray 1) ?v = Inr b1" using b(1) by (simp add: writeString16_def)
  obtain b2 where b2: "setPosition b1 (m_position (ByteArray 1)) = Inr b2"
    using rewind_ex [OF inv string16.wr_written [OF inv _ b1]] by (auto simp: string_ok_def)
  show ?thesis using string16_roundtrip [OF inv _ _ b1 b2] b1 b2 unfolding ByteArray_fields by auto
qed

text \<open>The scatter-gather view of \<open>getReadBuffers\<close> denotes exactly the readable bytes, up to the
  requested length, and every vector lies inside its node.\<close>

theorem read_buffers_exact:
  assumes "ba_inv ba"
  shows "\<exists>iovs. getReadBuffers ba len = Inr (min len (getReadSize ba), iovs)
    \<and> iov_valid (m_root ba) iovs \<and> iov_total iovs = min len (getReadSize ba)
    \<and> gather (m_root ba) iovs = take len (readable ba)"
  by (rule getReadBuffers_ok [OF assms])

theorem read_buffers_exact_witness: "\<exists>iovs. getReadBuffers (ByteArray 8) 5 = Inr (0, iovs) \<and> iov_total iovs = 0"
  using read_buffers_exact [OF ByteArray_inv [of 8], of 5] by auto

text \<open>A file read into a fresh array and written out again from the start comes out unchanged,
  whatever its length and the base size.\<close>

theorem file_roundtrip:
  assumes "0 < base"
  shows "\<exists>b1 b2. readFromFile (Some content) (ByteArray base) = Inr (True, b1)
    \<and> setPosition b1 0 = Inr b2 \<and> writeToFile True b2 = Inr (True, map Some content)"
proof -
  have inv: "ba_inv (ByteArray base)" by (rule ByteArray_inv [OF assms])
  obtain b1 where b1: "readFromFile (Some content) (ByteArray base) = Inr (True, b1)" "written (ByteArray base) content b1"
    using readFromFile_ok [OF inv] by auto
  obtain b2 where b2: "setPosition b1 (m_position (ByteArray base)) = Inr b2"
    using rewind_ex [OF inv b1(2)] by blast
  note bk = written_back [OF inv b1(2) b2]
  have "m_size b2 = length content"
    using bk(3) b1(2) by (metis ByteArray_fields(2,3) add_0 advance_simps(3) max_0L written_def)
  then have "length (readable b2) = length (map Some content)"
    using length_readable [OF bk(1)] bk(5) by (simp add: getReadSize_def)
  then have "readable b2 = map Some content" using bk(4) by (auto simp: prefix_def)
  moreover have "m_position b2 mod m_baseSize b2 = 0" using bk(5) by simp
  ultimately show ?thesis using b1(1) b2 writeToFile_aligned [OF bk(1)] by simp
qed

theorem file_roundtrip_witness:
  "\<exists>b1 b2. readFromFile (Some [1, 2, 3]) (ByteArray 2) = Inr (True, b1)
    \<and> setPosition b1 0 = Inr b2 \<and> writeToFile True b2 = Inr (True, map Some [1, 2, 3])"
  by (rule file_roundtrip) simp

section \<open>HTTP messages\<close>

text \<open>The headers of a request are a map up to letter case: after any sequence of \<open>setHeader\<close>
  calls a name yields the last value set under a name equal to it up to case, and names not set keep
  their value.\<close>

theorem request_headers_last_wins:
  assumes "map_ok CaseInsensitiLess (rq_headers r)"
  shows "getHeader (foldl (\<lambda>r (k, v). setHeader r k v) r kvs) key def =
    (case find (\<lambda>(k, v). casekey k = casekey key) (rev kvs) of
       Some (k, v) \<Rightarrow> v
     | None \<Rightarrow> getHeader r key def)"
  using rq_hdr.get_puts [OF assms, where kvs = kvs and k = key]
  by (auto simp: getHeader_def map_getOr_get rq_hdr.puts_def same_name_def split: option.splits)

theorem request_headers_last_wins_witness:
  "getHeader (foldl (\<lambda>r (k, v). setHeader r k v) (new_HttpRequest 0x11 True)
     [(''Host'', ''a''), (''HOST'', ''b'')]) ''host'' [] = ''b''"
  using request_headers_last_wins [of "new_HttpRequest 0x11 True" "[(''Host'', ''a''), (''HOST'', ''b'')]" "''host''" "[]"]
  by (simp add: new_HttpRequest_def map_ok_def casekey_def c_str_def char_tolower_def)

text \<open>A serialised request splits at its line ends into the request line, the connection line, one
  line per header other than \<open>connection\<close>, the length of a body that is not empty, and exactly that
  body.\<close>

theorem request_dump_structure:
  assumes "HttpMethodToString (rq_method r) = Inr m"
    and "no_cr (rq_path r)" "no_cr (rq_query r)" "no_cr (rq_fragment r)" "headers_no_cr (rq_headers r)"
  shows "\<exists>s. HttpRequest_dump r = Inr s \<and> split_message s =
    Some (request_line m r # close_line (rq_close r) # header_lines '':'' (rq_headers r)
          @ length_lines (rq_body r), rq_body r)"
  by (rule HttpRequest_dump_split [OF assms(1)]) (use assms in \<open>simp add: request_no_cr_def\<close>)

theorem request_dump_structure_witness:
  "\<exists>s. HttpRequest_dump ((new_HttpRequest 0x11 True)\<lparr>rq_body := ''hi''\<rparr>) = Inr s
     \<and> map_option snd (split_message s) = Some ''hi''"
proof -
  have "HttpMethodToString GET = Inr ''GET''" by code_simp
  then show ?thesis
    using request_dump_structure [of "(new_HttpRequest 0x11 True)\<lparr>rq_body := ''hi''\<rparr>" "''GET''"]
    by (auto simp: new_HttpRequest_def headers_no_cr_def)
qed

text \<open>A serialised response splits back into its status line, headers, connection line and body.\<close>

theorem response_dump_structure:
  assumes "no_cr (rs_reason r)" "headers_no_cr (rs_headers r)"
  shows "split_message (HttpResponse_dump r) =
    Some (status_line r # header_lines '': '' (rs_headers r) @ close_line (rs_close r)
          # length_lines (rs_body r), rs_body r)"
  by (rule HttpResponse_dump_split) (use assms in \<open>simp add: response_no_cr_def\<close>)

theorem response_dump_structure_witness:
  "map_option snd (split_message (HttpResponse_dump ((new_HttpResponse 0x11 False)\<lparr>rs_body := ''ok''\<rparr>))) = Some ''ok''"
  using response_dump_structure [of "(new_HttpResponse 0x11 False)\<lparr>rs_body := ''ok''\<rparr>"]
  by (simp add: new_HttpResponse_def headers_no_cr_def)

text \<open>\<open>StringToHttpMethod\<close> recognises a method exactly when its name is a prefix of the (C) string;
  printing and parsing a method round-trips; printing the invalid method reads past the table.\<close>

theorem http_method_names:
  "(m \<noteq> HTT_INVALID_METHOD \<longrightarrow> (\<exists>s. HttpMethodToString m = Inr s \<and> StringToHttpMethod s = m)
      \<and> (StringToHttpMethod str = m \<longleftrightarrow> (\<exists>lit. (m, lit) \<in> set HTTP_METHOD_MAP \<and> prefix lit (c_str str))))
   \<and> HttpMethodToString HTT_INVALID_METHOD = Inl OutOfBounds"
  using method_name_roundtrip [of m] StringToHttpMethod_prefix [of m str] HttpMethodToString_invalid by blast

theorem http_method_names_witness: "\<exists>s. HttpMethodToString MSEARCH = Inr s \<and> StringToHttpMethod s = MSEARCH"
  using http_method_names [of MSEARCH] by blast

section \<open>Timers\<close>

text \<open>C23. In every reachable timer manager the set is sorted and holds exactly the timers whose callback
  is not cleared; hence \<open>cancel\<close> always finds the timer it erases.\<close>

theorem timer_invariant:
  assumes "tm_reach tm"
  shows "set_ok (timer_lt (tm_heap tm)) (tm_timers tm) \<and> distinct (tm_timers tm)
    \<and> (\<forall>a. a \<in> set (tm_timers tm) \<longleftrightarrow> (\<exists>t. tm_heap tm a = Some t \<and> t_cb t \<noteq> None))
    \<and> (\<forall>a. cancel a tm \<noteq> Inl IteratorEnd)"
proof -
  note inv = tm_reach_inv [OF assms]
  have "cancel a tm \<noteq> Inl IteratorEnd" for a
    using cancel_eq [OF inv, of a] by (cases "tm_heap tm a") (auto simp: cancel_def)
  then show ?thesis using tm_invD [OF inv] by (auto simp: live_def)
qed

theorem timer_invariant_witness:
  "cancel 7 (snd (addTimer 10 (Some (Fn 1)) False 100 7 (new_TimerManager 0))) \<noteq> Inl IteratorEnd"
  using timer_invariant [OF tm_reach.add [OF tm_reach.init, of 0 7 10 "Fn 1" False 100]]
  by (simp add: new_TimerManager_def)

text \<open>C22. \<open>listExpiredCb\<close> delivers, in order, the callbacks of exactly the due timers: those whose time
  lies strictly before now, those at now whose address is not above that of the comparison timer,
  and all of them after a clock rollover. One-shot timers are then dead, recurring ones are
  rescheduled from now, all others are untouched.\<close>

theorem timer_expiry:
  assumes "tm_inv tm"
  shows "\<exists>tm'. listExpiredCb now p tm
      = Inr (map (\<lambda>a. t_cb (the (tm_heap tm a)))
          (filter (\<lambda>a. fst (detectClockRollover now tm)
             \<or> t_next (the (tm_heap tm a)) < now \<or> t_next (the (tm_heap tm a)) = now \<and> a \<le> p) (tm_timers tm)), tm')
    \<and> tm_inv tm'
    \<and> (\<forall>a t. tm_heap tm a = Some t \<and> t_cb t \<noteq> None \<longrightarrow> tm_heap tm' a = Some
         (if fst (detectClockRollover now tm) \<or> t_next t < now \<or> t_next t = now \<and> a \<le> p
          then (if t_recurring t then t\<lparr>t_next := now + t_ms t\<rparr> else t\<lparr>t_cb := None\<rparr>) else t))"
proof -
  have due: "due (tm_heap tm) (now, p) a \<longleftrightarrow> t_next (the (tm_heap tm a)) < now \<or> t_next (the (tm_heap tm a)) = now \<and> a \<le> p"
    if "a \<in> set (tm_timers tm)" for a
    using that tm_invD(3) [OF assms] due_iff [of "tm_heap tm" a] by (auto simp: live_def)
  have E: "expired_now now p tm = filter (\<lambda>a. fst (detectClockRollover now tm)
             \<or> t_next (the (tm_heap tm a)) < now \<or> t_next (the (tm_heap tm a)) = now \<and> a \<le> p) (tm_timers tm)"
    using due by (auto simp: expired_now_def intro: filter_cong)
  show ?thesis
    using listExpiredCb_ok [OF assms, of now p] tm_invD(3) [OF assms]
    unfolding E by (fastforce simp: expire_all_def expire_def live_def)
qed

theorem timer_expiry_witness: "\<exists>tm'. listExpiredCb 5 0 (new_TimerManager 0) = Inr ([], tm') \<and> tm_inv tm'"
  using timer_expiry [OF new_TimerManager_inv, of 5 0 0] by (auto simp: new_TimerManager_def)

text \<open>\<open>getNextTimer\<close> never makes the caller sleep past a live timer, and returns the sentinel
  exactly when there is none.\<close>

theorem timer_sleep:
  assumes "tm_inv tm" "tm_heap tm a = Some t" "t_cb t \<noteq> None"
  shows "fst (getNextTimer now tm) \<le> (if now \<ge> t_next t then 0 else t_next t - now)"
  by (rule getNextTimer_ok [OF assms(1) _ assms(2)]) (use assms in \<open>simp add: live_def\<close>)

theorem timer_sleep_witness:
  "fst (getNextTimer 105 (snd (addTimer 10 (Some (Fn 1)) False 100 7 (new_TimerManager 0)))) \<le> 5"
proof -
  let ?tm = "snd (addTimer 10 (Some (Fn 1)) False 100 7 (new_TimerManager 0))"
  have "tm_inv ?tm" by (rule addTimer_inv [OF new_TimerManager_inv]) (simp add: new_TimerManager_def)
  moreover have "tm_heap ?tm 7 = Some (new_Timer 10 (Some (Fn 1)) False 100)"
    by (simp add: addTimer_def addTimer_locked_def Let_def)
  ultimately show ?thesis
    using timer_sleep [of ?tm 7 "new_Timer 10 (Some (Fn 1)) False 100" 105] by (simp add: new_Timer_def)
qed

section \<open>Fibers and the scheduler\<close>



text \<open>C26. Under any interleaving of workers, external calls and \<open>stop\<close>: the idle count is the number of
  workers inside their idle fiber, the active count is at least the number of workers between picking
  a task and the decrement that follows its return, and every queued task is valid, so the assertion
  in the picking loop never fails.  When \<open>stopping\<close> reports true, the queue is empty and no worker is
  in that stretch (a worker may still be about to queue its fiber again, see the next theorem).\<close>

theorem scheduler_counters:
  assumes "sreach w"
  shows "sc_idleThreadCount (sw_sched w) = length (filter idling (sw_workers w))
    \<and> length (filter busy (sw_workers w)) \<le> sc_activeThreadCount (sw_sched w)
    \<and> (\<forall>tid. \<exists>r. pick tid (sw_state w) (sw_sched w) = Inr r)
    \<and> (stopping (sw_sched w) \<longrightarrow> sc_fibers (sw_sched w) = [] \<and> (\<forall>wk \<in> set (sw_workers w). \<not> busy wk))"
proof -
  have inv: "sw_inv w" by (rule sreach_inv [OF assms])
  then have v: "list_all ft_valid (sc_fibers (sw_sched w))" by (simp add: sw_inv_def)
  have "\<exists>r. pick tid (sw_state w) (sw_sched w) = Inr r" for tid
    using pick_loop_ok [OF v, of tid "sw_state w"] by (auto simp: pick_def)
  then show ?thesis using inv stopping_quiet [OF inv] by (simp add: sw_inv_def count_def stopping_def)
qed

definition demo_world :: sched_world where
  "demo_world =
     \<lparr>sw_sched = \<lparr>sc_fibers = [], sc_threadIds = [11], sc_threadCount = 1, sc_threads = 1,
        sc_activeThreadCount = 0, sc_idleThreadCount = 0, sc_stopping = False, sc_autoStop = False,
        sc_rootThread = - 1\<rparr>,
      sw_state = (\<lambda>_. ST_TERM), sw_workers = [fresh_worker 11]\<rparr>"

lemma demo_reach_from: "sreach (demo_world\<lparr>sw_state := st\<rparr>)"
proof -
  let ?s0 = "\<lparr>sc_fibers = [], sc_threadIds = [], sc_threadCount = 1, sc_threads = 0,
        sc_activeThreadCount = 0, sc_idleThreadCount = 0, sc_stopping = True, sc_autoStop = False,
        sc_rootThread = - 1\<rparr>"
  have "Scheduler_new 1 False False 0 = Inr ?s0" by (simp add: Scheduler_new_def)
  moreover have "start [11] ?s0 = Inr (sw_sched demo_world)" by (simp add: start_def demo_world_def)
  ultimately show ?thesis using sreach.init [of 1 False False 0 ?s0 "[11]" "sw_sched demo_world" st]
    by (simp add: demo_world_def)
qed

lemma demo_reach: "sreach demo_world"
  using demo_reach_from [of "sw_state demo_world"] by simp

theorem scheduler_counters_witness:
  "\<not> busy (sw_workers (demo_world\<lparr>sw_sched := stop_begin (sw_sched demo_world)\<rparr>) ! 0)"
  using scheduler_counters [OF sreach.step [OF demo_reach sstep.stop]]
  by (simp add: stopping_def stop_begin_def demo_world_def)

text \<open>C27. \<open>stopping\<close> can report true while a task remains: when, after \<open>stop\<close> was called and with the
  queue empty, the only active worker's fiber has yielded as \<open>READY\<close>, two steps of that worker (the
  decrement and the test of the fiber's state) lead to a reachable state in which \<open>stopping\<close> is true
  although the worker holds the fiber, and its next step queues the fiber and makes \<open>stopping\<close> false
  again.\<close>

theorem scheduler_requeue_window:
  assumes "sreach w" "i < length (sw_workers w)" "wk_phase (sw_workers w ! i) = LeftFiber f"
    and "sw_state w f = ST_READY" "sc_autoStop (sw_sched w)" "sc_stopping (sw_sched w)"
    and "sc_fibers (sw_sched w) = []" "sc_activeThreadCount (sw_sched w) = 1"
  shows "\<exists>w2 w3. sreach w2 \<and> stopping (sw_sched w2) \<and> wk_phase (sw_workers w2 ! i) = PutFiber f
    \<and> sw_state w2 f = ST_READY
    \<and> sstep w2 w3 \<and> sc_fibers (sw_sched w3) = [ft_of_fiber (Some f) (- 1)] \<and> \<not> stopping (sw_sched w3)"
  using requeue_window [OF assms(2-8)] sreach.step assms(1) by metis

definition demo_left :: sched_world where
  "demo_left =
     \<lparr>sw_sched = (sw_sched demo_world)\<lparr>sc_activeThreadCount := 1, sc_stopping := True, sc_autoStop := True\<rparr>,
      sw_state = (\<lambda>_. ST_INIT)(5 := ST_READY), sw_workers = [(fresh_worker 11)\<lparr>wk_phase := LeftFiber 5\<rparr>]\<rparr>"

lemma demo_left_reach: "sreach demo_left"
proof -
  let ?s = "sw_sched demo_world" and ?ft = "ft_of_fiber (Some 5) (- 1)" and ?st = "\<lambda>_::nat. ST_INIT"
  let ?w0 = "demo_world\<lparr>sw_state := ?st\<rparr>"
  let ?wq = "?w0\<lparr>sw_sched := snd (schedule ?ft ?s)\<rparr>"
  let ?wp = "put_worker 0 ((fresh_worker 11)\<lparr>wk_phase := Picked (Some ?ft)\<rparr>, ?st, ?s\<lparr>sc_activeThreadCount := 1\<rparr>) ?wq"
  let ?wr = "put_worker 0 ((fresh_worker 11)\<lparr>wk_phase := InFiber 5\<rparr>, ?st(5 := ST_EXEC),
      ?s\<lparr>sc_activeThreadCount := 1\<rparr>) ?wp"
  let ?wl = "put_worker 0 ((fresh_worker 11)\<lparr>wk_phase := LeftFiber 5\<rparr>, ?st(5 := ST_READY),
      ?s\<lparr>sc_activeThreadCount := 1\<rparr>) ?wr"
  note defs = demo_world_def fresh_worker_def put_worker_def
  have "sreach ?w0" by (rule demo_reach_from)
  then have "sreach ?wq" using sreach.step [OF _ sstep.call [of ?w0 ?ft]] by (simp add: defs)
  moreover have "sstep ?wq ?wp"
    using sstep.pick [of 0 ?wq "fresh_worker 11" "Some ?ft" False "?s\<lparr>sc_activeThreadCount := 1\<rparr>"]
    by (simp add: defs pick_def schedule_def scheduleNoLock_def ft_of_fiber_def ft_valid_def)
  moreover have "sstep ?wp ?wr"
    by (rule sstep.dispatch [OF _ refl, where c = "Some ?ft" and fresh = 9])
       (simp_all add: defs dispatch_def ft_of_fiber_def runnable_def)
  moreover have "sstep ?wr (put_worker 0 ((fresh_worker 11)\<lparr>wk_phase := LeftFiber 5\<rparr>, ?st(5 := ST_READY), sw_sched ?wr) ?wr)"
    by (rule sstep.leave_fiber [OF _ refl, where f = 5 and new_st = ST_READY]) (simp_all add: defs leave_def)
  then have "sstep ?wr ?wl" by simp
  ultimately have "sreach ?wl" by (meson sreach.step)
  then have "sreach (?wl\<lparr>sw_sched := stop_begin (sw_sched ?wl)\<rparr>)" using sreach.step [OF _ sstep.stop] by blast
  then show ?thesis by (simp add: demo_left_def defs stop_begin_def)
qed

theorem scheduler_requeue_window_witness:
  "\<exists>w2. sreach w2 \<and> stopping (sw_sched w2) \<and> wk_phase (sw_workers w2 ! 0) = PutFiber 5"
  using scheduler_requeue_window [OF demo_left_reach, of 0 5] by (auto simp: demo_left_def demo_world_def)

text \<open>C28. A worker that picked a fiber which has already ended leaves the active count one too high,
  and no later step repairs it: from then on \<open>stopping\<close> never becomes true.\<close>

theorem scheduler_terminated_fiber_blocks_stop:
  assumes "sreach w" "i < length (sw_workers w)" "wk_phase (sw_workers w ! i) = Picked (Some ft)"
    and "ft_fiber ft = Some f" "sw_state w f = ST_TERM" "ft_cb ft = None"
    and "dispatch fresh (Some ft) (sw_workers w ! i) (sw_state w) (sw_sched w) = Inr r"
    and "sstep\<^sup>*\<^sup>* (put_worker i r w) w'"
  shows "\<not> stopping (sw_sched w')"
proof -
  have inv: "sw_inv w" by (rule sreach_inv [OF assms(1)])
  have step: "sstep w (put_worker i r w)" by (rule sstep.dispatch [OF assms(2) refl assms(3,7)])
  have "leaked (put_worker i r w) = leaked w + 1"
    using dispatch_terminated_leaks [OF inv assms(2-4) _ assms(6,7)] assms(5) by (simp add: runnable_def)
  moreover have "sw_inv w' \<and> leaked (put_worker i r w) \<le> leaked w'"
    using sstep_leaked_rtranclp [OF assms(8)] sstep_inv [OF step inv] by blast
  ultimately show ?thesis using stopping_quiet [of w'] by fastforce
qed

definition demo_task :: FiberAndThread where
  "demo_task = ft_of_fiber (Some 5) (- 1)"

definition demo_picked :: sched_world where
  "demo_picked =
     put_worker 0 ((fresh_worker 11)\<lparr>wk_phase := Picked (Some demo_task)\<rparr>, sw_state demo_world,
       (sw_sched demo_world)\<lparr>sc_activeThreadCount := 1\<rparr>) demo_world"

lemma demo_picked_reach: "sreach demo_picked"
proof -
  let ?w = "demo_world\<lparr>sw_sched := snd (schedule demo_task (sw_sched demo_world))\<rparr>"
  have "sreach ?w" by (rule sreach.step [OF demo_reach sstep.call])
  moreover have "sstep ?w (put_worker 0 ((fresh_worker 11)\<lparr>wk_phase := Picked (Some demo_task)\<rparr>, sw_state ?w,
       (sw_sched demo_world)\<lparr>sc_activeThreadCount := 1\<rparr>) ?w)"
    by (rule sstep.pick [where t = False])
       (simp_all add: demo_world_def fresh_worker_def pick_def schedule_def scheduleNoLock_def
         demo_task_def ft_of_fiber_def ft_valid_def)
  ultimately have "sreach (put_worker 0 ((fresh_worker 11)\<lparr>wk_phase := Picked (Some demo_task)\<rparr>, sw_state ?w,
       (sw_sched demo_world)\<lparr>sc_activeThreadCount := 1\<rparr>) ?w)"
    by (rule sreach.step)
  then show ?thesis by (simp add: demo_picked_def put_worker_def)
qed

theorem scheduler_terminated_fiber_blocks_stop_witness:
  "\<exists>r. dispatch 9 (Some demo_task) (sw_workers demo_picked ! 0) (sw_state demo_picked) (sw_sched demo_picked) = Inr r
     \<and> \<not> stopping (sw_sched (put_worker 0 r demo_picked))"
proof -
  obtain r where r: "dispatch 9 (Some demo_task) (sw_workers demo_picked ! 0) (sw_state demo_picked) (sw_sched demo_picked) = Inr r"
    by (simp add: dispatch_def demo_task_def demo_picked_def demo_world_def put_worker_def fresh_worker_def
        ft_of_fiber_def runnable_def)
  show ?thesis
    using scheduler_terminated_fiber_blocks_stop [OF demo_picked_reach _ _ _ _ _ r rtranclp.rtrancl_refl, of 5] r
    by (simp add: demo_task_def demo_picked_def demo_world_def put_worker_def fresh_worker_def ft_of_fiber_def)
qed

section \<open>The event loop\<close>

text \<open>C24. In every reachable event loop the pending counter is the number of registered events and the
  kernel's interest list holds the manager's pipe and, for every other descriptor with registered
  events, exactly those events (edge-triggered), and nothing else.  Reachable means that no size check
  of \<open>addEvent\<close> has gone stale; one that has, from before another thread's larger resize, cuts the
  table back while the kernel keeps reporting to the contexts that are gone.\<close>

theorem iomanager_invariant:
  assumes "io_reach io"
  shows "io_pendingEventCount io = of_nat (sum_list (map weight (io_fdContexts io)))
    \<and> (\<forall>i < length (io_fdContexts io). fc_events (io_fdContexts io ! i) \<in> {0, EV_READ, EV_WRITE, EV_READ OR EV_WRITE})
    \<and> (\<forall>fd. io_kernel io fd =
        (if fd = io_tickleFd io then Some (EPOLLIN OR EPOLLET)
         else if 0 \<le> fd \<and> nat fd < length (io_fdContexts io) \<and> fc_events (io_fdContexts io ! nat fd) \<noteq> 0
         then Some (EPOLLET OR fc_events (io_fdContexts io ! nat fd)) else None))
    \<and> (\<forall>seen fd. 0 \<le> fd \<and> int seen \<le> fd \<and> fd + fd div 2 < int (length (io_fdContexts io)) \<longrightarrow>
         length (io_fdContexts (grow_for seen fd io)) = nat (fd + fd div 2)
         \<and> io_kernel (grow_for seen fd io) = io_kernel io)"
  using io_reach_inv [OF assms] stale_size_shrinks(2,4)
  by (auto simp: io_inv_def ctxs_inv_def kernel_inv_def reg_def ctx_ok_def ev_defs)

theorem iomanager_invariant_witness: "io_kernel (io_start 7) 3 = None \<and> io_kernel (io_start 7) 7 = Some (EPOLLIN OR EPOLLET)"
  using iomanager_invariant [OF io_reach.init [of True 7]]
  by (simp add: new_IOManager_def new_FdContext_ok del: upt_rec_numeral)

text \<open>Registering an event (growing the table when needed) and cancelling it hands exactly the
  registered callback or fiber to the scheduler that registered it, once, and leaves the event
  unregistered.\<close>

theorem iomanager_add_cancel:
  assumes "io_inv io" "0 \<le> fd" "event \<in> {EV_READ, EV_WRITE}" "cb \<noteq> None \<or> st = ST_EXEC"
    and "int (length (io_fdContexts io)) > fd \<longrightarrow> fc_events (io_fdContexts io ! nat fd) AND event = 0"
    and "size_seen seen fd io" "fd \<noteq> io_tickleFd io"
  shows "\<exists>io1 io2. addEvent seen fd event cb (Some s) fiber st True io = Inr (0, io1)
    \<and> cancelEvent fd event True io1 = Inr (True, io2) \<and> io_inv io2
    \<and> io_scheduled io2 = io_scheduled io
        @ [(s, if cb \<noteq> None then ft_of_cb cb (- 1) else ft_of_fiber (Some fiber) (- 1))]
    \<and> fc_events (io_fdContexts io2 ! nat fd) AND event = 0"
proof -
  have ev: "is_event event" using assms(3) by (auto simp: is_event_def)
  obtain io1 where io1: "addEvent seen fd event cb (Some s) fiber st True io = Inr (0, io1)" "io_inv io1"
      "registered io1 (nat fd) event" "io_scheduled io1 = io_scheduled io"
      "task_of event (io_fdContexts io1 ! nat fd)
        = (s, if cb \<noteq> None then ft_of_cb cb (- 1) else ft_of_fiber (Some fiber) (- 1))"
    using addEvent_ok [OF assms(1,2) ev assms(4-7)] by blast
  obtain io2 where io2: "cancelEvent fd event True io1 = Inr (True, io2)" "io_inv io2"
      "io_fdContexts io2 = (io_fdContexts io1)[nat fd := cleared event (io_fdContexts io1 ! nat fd)]"
      "io_scheduled io2 = io_scheduled io1 @ [task_of event (io_fdContexts io1 ! nat fd)]"
    using cancelEvent_ok [OF io1(2,3)] assms(2) by auto
  have "fc_events (io_fdContexts io2 ! nat fd) AND event = 0"
    using io1(3) by (simp add: io2(3) registered_def and.assoc)
  then show ?thesis using io1 io2 by metis
qed

theorem iomanager_add_cancel_witness:
  "\<exists>io1 io2. addEvent 32 40 EV_READ (Some 8) (Some 1) 0 ST_EXEC True (io_start 7) = Inr (0, io1)
     \<and> cancelEvent 40 EV_READ True io1 = Inr (True, io2) \<and> io_scheduled io2 = [(1, ft_of_cb (Some 8) (- 1))]"
  using iomanager_add_cancel [OF io_start_inv [of 7], of 40 EV_READ "Some 8" ST_EXEC 32 1 0]
  by (auto simp: size_seen_def)

text \<open>C25. What the idle loop does with one report of \<open>epoll_wait\<close>, in every case: when nothing it is
  translated to is registered, or the following \<open>epoll_ctl\<close> fails, nothing changes; when everything it
  is translated to is registered, exactly those tasks are handed to their schedulers; when only a part
  is, the loop aborts on a failed assertion (an error or hang-up report is translated to reading and
  writing, on a descriptor registered for one of the two only).\<close>

theorem iomanager_report:
  assumes "io_inv io" "i < length (io_fdContexts io)"
  shows "if fc_events (io_fdContexts io ! i) AND real_events msk = 0 \<or> \<not> ok
    then process_event i msk ok io = Inr io
    else if real_events msk AND NOT (fc_events (io_fdContexts io ! i)) = 0
    then (\<exists>io'. process_event i msk ok io = Inr io' \<and> io_inv io'
        \<and> io_scheduled io' = io_scheduled io @ tasks_of (real_events msk) (io_fdContexts io ! i))
    else process_event i msk ok io = Inl AssertFail"
proof (cases "fc_events (io_fdContexts io ! i) AND real_events msk = 0 \<or> \<not> ok")
  case True
  then show ?thesis by (auto simp: process_event_def Let_def)
next
  case False
  then show ?thesis using process_event_ok [OF assms, of msk] process_event_assert [OF assms, of msk]
    by (auto simp: subsumed_def)
qed

theorem iomanager_report_witness:
  "\<exists>io1. addEvent 32 0 EV_READ (Some 8) (Some 1) 0 ST_EXEC True (io_start 7) = Inr (0, io1)
     \<and> process_event 0 EPOLLHUP True io1 = Inl AssertFail"
proof -
  obtain io1 where io1: "addEvent 32 0 EV_READ (Some 8) (Some 1) 0 ST_EXEC True (io_start 7) = Inr (0, io1)"
      "io_inv io1" "registered io1 0 EV_READ"
    using addEvent_ok [OF io_start_inv [of 7], of 0 EV_READ "Some 8" ST_EXEC 32 1 0]
    by (auto simp: is_event_def size_seen_def new_FdContext_def)
  have "io_fdContexts (io_start 7) ! 0 = new_FdContext 0" by simp
  then have "fc_events (io_fdContexts io1 ! 0) = 1"
    using io1(1) by (auto simp: addEvent_def grow_for_def new_FdContext_def
        Let_def getContext_def empty_ctx_def put_ctx_def epoll_apply_def ev_defs setContext_def simp del: upt_rec_numeral)
  moreover have "real_events EPOLLHUP = 5" by code_simp
  ultimately show ?thesis using iomanager_report [OF io1(2), of 0 EPOLLHUP True] io1 by (auto simp: registered_def)
qed

section \<open>Servlets\<close>

text \<open>C30. In every dispatcher built by the public operations an exact path registered last wins over
  everything; otherwise a pattern that is registered (again) is tried behind all the other patterns
  and before the default; a deleted path or pattern no longer takes part.\<close>

theorem servlet_matching:
  fixes d :: "'s dispatcher"
  assumes "dp_reach d"
  shows "getMatchedServlet fnmatch (addServlet d uri slt) uri = slt
    \<and> (map_of (m_datas d) uri = None \<longrightarrow>
        getMatchedServlet fnmatch (addGlobServlet d pat slt) uri =
          (case find (\<lambda>it. fst it \<noteq> pat \<and> fnmatch (c_str (fst it)) (c_str uri)) (m_globs d) of
             Some it \<Rightarrow> snd it
           | None \<Rightarrow> if fnmatch (c_str pat) (c_str uri) then slt else m_default d)
        \<and> getMatchedServlet fnmatch (delGolbServlet d pat) uri =
          (case find (\<lambda>it. fst it \<noteq> pat \<and> fnmatch (c_str (fst it)) (c_str uri)) (m_globs d) of
             Some it \<Rightarrow> snd it
           | None \<Rightarrow> m_default d))
    \<and> getServlet (delServlet d uri) uri = None \<and> getGlobServlet (delGolbServlet d pat) pat = None"
proof -
  note inv = dp_reach_inv [OF assms]
  have "map_of (m_datas (addServlet d uri slt)) uri = Some slt" using exact.get_put [OF inv] by simp
  then show ?thesis
    using matched_add_glob [OF inv] matched_del_glob [OF inv] exact.get_del [OF inv] glob.get_del [OF inv]
    by (simp add: matched_exact getServlet_def getGlobServlet_eq)
qed

theorem servlet_matching_witness:
  "getMatchedServlet (\<lambda>p u. p = u) (addServlet (ServletDispatch :: unit dispatcher) ''/a'' None) ''/a'' = None
   \<and> getMatchedServlet (\<lambda>p u. p = u) (addGlobServlet (ServletDispatch :: unit dispatcher) ''/b'' None) ''/b'' = None"
proof -
  let ?d = "ServletDispatch :: unit dispatcher"
  have "map_of (m_datas ?d) ''/b'' = None" "m_globs ?d = []" by (simp_all add: ServletDispatch_def)
  then show ?thesis
    using servlet_matching [of ?d "\<lambda>p u. p = u" "''/a''" None "''/b''"] dp_reach.create [where ?'s = unit]
      servlet_matching [of ?d "\<lambda>p u. p = u" "''/b''" None "''/b''"]
    by simp
qed

text \<open>When neither a path nor a pattern matches and the default is the one the constructor set,
  dispatching returns 0, leaves request and session alone and turns the response into the 404 page with
  its two headers; all other headers and fields of the response stay.\<close>

theorem servlet_not_found:
  assumes "map_of (m_datas d) (rq_path request) = None"
    and "list_all (\<lambda>it. \<not> fnmatch (c_str (fst it)) (c_str (rq_path request))) (m_globs d)"
    and "m_default d = m_default ServletDispatch"
    and "map_ok CaseInsensitiLess (rs_headers response)"
  shows "\<exists>response'. servlet_handle fnmatch (DispatchServlet d) (request, response, session) = (0, request, response', session)
    \<and> rs_status response' = 404 \<and> rs_body response' = RSP_BODY
    \<and> rs_version response' = rs_version response \<and> rs_close response' = rs_close response
    \<and> rs_getHead response' key def =
        (if casekey key = casekey ''Content-Type'' then ''text/html''
         else if casekey key = casekey ''Server'' then ''myhttp/1.0.0''
         else rs_getHead response key def)"
proof -
  have "getMatchedServlet fnmatch d (rq_path request) = Some (NotFoundServlet ''myhttp'')"
    using matched_none [OF assms(1)] assms(2,3) by (simp add: list_all_iff ServletDispatch_def)
  then show ?thesis
    using not_found_handle [OF assms(4), of request session] by (auto simp: same_name_def)
qed

theorem servlet_not_found_witness:
  "\<exists>response'. servlet_handle (\<lambda>p u. False) (DispatchServlet (ServletDispatch :: unit dispatcher))
      (new_HttpRequest 0x11 True, new_HttpResponse 0x11 True, ()) = (0, new_HttpRequest 0x11 True, response', ())
    \<and> rs_status response' = 404"
  using servlet_not_found [of "ServletDispatch :: unit dispatcher" "new_HttpRequest 0x11 True" "\<lambda>p u. False" "new_HttpResponse 0x11 True" "()"]
  by (auto simp: ServletDispatch_def new_HttpResponse_def map_ok_def)

section \<open>Addresses\<close>

text \<open>For a prefix length of 2 to 32 the broadcast address sets exactly the host bits of the
  address, the subnet mask is the network part and counting its bits gives the prefix length back.
  \<open>networdAddress\<close> keeps the host bits and clears the network part.  Prefix lengths 0 and 1 have no
  defined result.\<close>

theorem ipv4_prefix:
  assumes "2 \<le> n" "n \<le> 32"
  shows "(\<exists>b. IPv4_broadcastAddress a (word_of_nat n) = Inr (Some b) \<and> ipv4_value b = ipv4_value a OR mask (32 - n))
    \<and> (\<exists>m. IPv4_subnetMast (word_of_nat n) = Inr m \<and> ipv4_value m = NOT (mask (32 - n))
          \<and> CountBytes (ipv4_value m) = word_of_nat n)
    \<and> (\<exists>h. IPv4_networdAddress a (word_of_nat n) = Inr (Some h) \<and> ipv4_value h = ipv4_value a AND mask (32 - n))
    \<and> IPv4_subnetMast 0 = Inl BadShift \<and> IPv4_subnetMast 1 = Inl SignedOverflow"
proof -
  have "CountBytes (NOT (mask (32 - n)) :: u32) = word_of_nat n"
    using assms card_bits_not_mask [of "32 - n", where ?'a = 32] by (simp add: CountBytes_card)
  then show ?thesis
    using ipv4_prefix_defined [OF assms] CreateMask_undefined [of 0] CreateMask_undefined [of 1]
    by (auto simp: ipv4_value_def byteswap_bitwise IPv4_subnetMast_def)
qed

theorem ipv4_prefix_witness:
  "\<exists>b. IPv4_broadcastAddress (new_IPv4Address 0xC0A80105 80) 24 = Inr (Some b) \<and> ipv4_value b = 0xC0A801FF"
  using ipv4_prefix [of 24 "new_IPv4Address 0xC0A80105 80"]
  by (simp add: ipv4_value_def new_IPv4Address_def mask_eq_exp_minus_1)

text \<open>On well-formed addresses of any kinds \<open>operator<\<close> is the lexicographic order of the address
  bytes and \<open>operator==\<close> their equality: exactly one of less, equal and greater holds, and less is
  transitive.\<close>

theorem address_order:
  assumes "addr_ok a" "addr_ok b" "addr_ok c"
  shows "(Address_less a b = Inr True \<or> Address_less b a = Inr True) = (Address_eq a b = Inr False)
    \<and> \<not> (Address_less a b = Inr True \<and> Address_less b a = Inr True)
    \<and> (Address_less a b = Inr True \<longrightarrow> Address_less b c = Inr True \<longrightarrow> Address_less a c = Inr True)
    \<and> (Address_eq a b = Inr True) = (addr_key a = addr_key b)"
  using assms lexordp_linear [of "addr_key a" "addr_key b"] lexordp_antisym [of "addr_key a" "addr_key b"]
    lexordp_trans [of "addr_key a" "addr_key b" "addr_key c"] lexordp_irreflexive' [of "addr_key a"]
  by (auto simp: Address_less_key Address_eq_key)

theorem address_order_witness:
  "Address_eq (IPv4Address (new_IPv4Address 1 80)) (IPv4Address (new_IPv4Address 1 80)) = Inr True"
  using address_order [of "IPv4Address (new_IPv4Address 1 80)" "IPv4Address (new_IPv4Address 1 80)" "IPv4Address (new_IPv4Address 1 80)"]
  by (simp add: addr_ok_def new_IPv4Address_def)

text \<open>The text of an IPv4 address determines address and port.  The text of an IPv6 address is the
  groups in hexadecimal joined by colons, with the first run of zero groups, and only it, written as two
  colons, in brackets before the port.\<close>

theorem address_text:
  "(IPv4_insert a = IPv4_insert b) = (ipv4_value a = ipv4_value b \<and> IPv4_getPort a = IPv4_getPort b)
   \<and> IPv6_insert c =
     ''['' @ (let pre = takeWhile (\<lambda>g. g \<noteq> 0) (groups c); rest = dropWhile (\<lambda>g. g \<noteq> 0) (groups c)
              in if rest = [] then colon_join pre
                 else colon_join pre @ ''::'' @ colon_join (dropWhile (\<lambda>g. g = 0) rest))
     @ '']:'' @ nat_to_string (unat (IPv6_getPort c))"
  using IPv4_insert_inj IPv6_insert_text by (simp add: ipv6_text_def)

text \<open>\<open>Lookup\<close> hands the resolver the host and port of \<open>host\<close>, \<open>host:port\<close>, \<open>[v6]\<close> and
  \<open>[v6]:port\<close>; an IPv6 literal without brackets is passed on whole, but with its tail from the first colon
  as the service.\<close>

theorem lookup_host:
  assumes "CHR '':'' \<notin> set name" "name \<noteq> []" "hd name \<noteq> CHR ''[''" "CHR '':'' \<notin> set port"
    and "CHR '']'' \<notin> set lit" "lit \<noteq> []" "CHR '':'' \<in> set tail"
  shows "Lookup gai name f t p = map_option (map Address_Create) (gai (c_str name) None f t p)
    \<and> Lookup gai (name @ '':'' @ port) f t p = map_option (map Address_Create) (gai (c_str name) (Some (c_str port)) f t p)
    \<and> Lookup gai (''['' @ lit @ '']'') f t p = map_option (map Address_Create) (gai (c_str lit) None f t p)
    \<and> Lookup gai (''['' @ lit @ '']:'' @ port) f t p = map_option (map Address_Create) (gai (c_str lit) (Some (c_str port)) f t p)
    \<and> Lookup gai (name @ '':'' @ tail) f t p =
        map_option (map Address_Create) (gai (c_str (name @ '':'' @ tail)) (Some (c_str ('':'' @ tail))) f t p)"
  using node_service_plain [of name] node_service_port [of name port] node_service_bracket(1) [of lit] node_service_bracket(2) [of lit port]
    node_service_bare_ipv6 [of name tail] assms
  by (simp add: Lookup_def)

theorem lookup_host_witness:
  "Lookup (\<lambda>n s f t p. if s = Some ''::1'' then None else Some []) (''fe80'' @ '':'' @ '':1'') 0 0 0 = None"
  using lookup_host [where name = "''fe80''" and port = "''80''" and lit = "''::1''" and tail = "'':1''" and f = 0 and t = 0 and p = 0 and gai = "\<lambda>n s f t p. if s = Some ''::1'' then None else Some []"]
  by (simp add: c_str_def)

section \<open>Descriptor contexts\<close>

text \<open>The table of descriptor contexts always has 64 entries.  \<open>get\<close> with \<open>auto_create\<close> returns the
  entry, made from the kernel's view when there is none, for descriptors 0 to 63, and indexes out of
  bounds for every descriptor from 64 on.  \<open>del\<close> removes nothing, so a descriptor number that is closed
  and used again is served the old context.\<close>

theorem fd_manager_get:
  assumes "fdm_inv m"
  shows "length m = 64
    \<and> (64 \<le> fd \<longrightarrow> fd_get k m fd True = Inl OutOfBounds)
    \<and> (0 \<le> fd \<and> fd < 64 \<longrightarrow> (\<exists>ctx m' k1. fd_get k m fd True = Inr (Some ctx, m', k1) \<and> fdm_inv m'
         \<and> fd_entry_ok fd ctx \<and> fd_get k2 (fd_del m' fd) fd True = Inr (Some ctx, m', k2)))"
proof (intro conjI impI)
  show "length m = 64" using assms by (simp add: fdm_inv_def)
  then show "fd_get k m fd True = Inl OutOfBounds" if "64 \<le> fd"
    using that by (simp add: fd_get_cases [OF assms])
  assume fd: "0 \<le> fd \<and> fd < 64"
  obtain ctx m' k1 where g: "fd_get k m fd True = Inr (Some ctx, m', k1)" "m' ! nat fd = Some ctx"
    using fd \<open>length m = 64\<close> unfolding fd_get_cases [OF assms]
    by (cases "m ! nat fd"; cases "new_FdCtx k fd") auto
  note inv = fd_get_inv [OF assms g(1)]
  have "fd_get k2 (fd_del m' fd) fd True = Inr (Some ctx, m', k2)"
    using fd g(2) unfolding fd_del_def fd_get_cases [OF inv] by simp
  then show "\<exists>ctx m' k1. fd_get k m fd True = Inr (Some ctx, m', k1) \<and> fdm_inv m'
         \<and> fd_entry_ok fd ctx \<and> fd_get k2 (fd_del m' fd) fd True = Inr (Some ctx, m', k2)"
    using g inv fdm_invD [OF inv _ _ g(2)] fd by blast
qed

theorem fd_manager_get_witness: "fd_get Map.empty new_FdManager 64 True = Inl OutOfBounds"
  using fd_manager_get [OF new_FdManager_inv, of 64] by simp

end
